(* ===== verification/Prelude.thy ===== *)
theory Prelude
  imports Main "HOL-Library.Word"
begin

text \<open>
  What every component of the development shares: the machine integers of the C sources,
  return codes, the outcome of running a piece of C (it returns, reboots the board, runs into
  undefined behaviour, or needs more fuel), and the generic facts on lists that stand for
  C arrays and Zephyr linked lists.
\<close>

named_theorems outcome_simps \<open>evaluation of the outcome type\<close>
named_theorems slist_simps \<open>facts about cursors of linked lists\<close>

unbundle bit_operations_syntax

section \<open>Machine integers and return codes\<close>

type_synonym u8 = "8 word"
type_synonym u16 = "16 word"
type_synonym u32 = "32 word"

text \<open>
  A Zephyr call returns a C \<open>int\<close>: a negative errno, or a value that is not negative. The
  numeric values of the errnos depend on the C library, so they stay symbolic; \<open>E_other\<close> is
  any errno that no code here names. A negative return is \<open>Inl\<close>, any other is \<open>Inr\<close>.
\<close>

datatype errno =
    EPERM | ENOENT | EIO | EAGAIN | ENOMEM | EACCES | EEXIST | ENODEV | EINVAL | ENOSPC
  | ENOSYS | ENOTSUP | EALREADY | EBUSY | EFAULT | ENOMSG | E_other nat

type_synonym 'a rc = "errno + 'a"
type_synonym c_int = "nat rc"

abbreviation rc0 :: c_int where
  "rc0 \<equiv> Inr 0"

text \<open>The test \<open>ret < 0\<close>.\<close>

fun rc_neg :: "'a rc \<Rightarrow> bool" where
  "rc_neg (Inl _) = True"
| "rc_neg (Inr _) = False"

lemma rc_neg_iff [simp]: "rc_neg r \<longleftrightarrow> isl r"
  by (cases r) simp_all

section \<open>Outcomes\<close>

datatype reboot_type = SYS_REBOOT_WARM | SYS_REBOOT_COLD

text \<open>
  Running C code in a state \<open>'w\<close> either returns a value and a new state, reboots
  (\<open>sys_reboot\<close> does not return), does something the C standard leaves undefined (a read or a
  free of memory that is not allocated, an index outside an array), or does not finish
  within the fuel it was given.
\<close>

datatype ('a, 'w) outcome =
    Returns 'a 'w
  | Reboots reboot_type 'w
  | Undefined
  | NoFuel

fun obind :: "('a, 'w) outcome \<Rightarrow> ('a \<Rightarrow> 'w \<Rightarrow> ('b, 'w) outcome) \<Rightarrow> ('b, 'w) outcome" where
  "obind (Returns a w) f = f a w"
| "obind (Reboots r w) f = Reboots r w"
| "obind Undefined f = Undefined"
| "obind NoFuel f = NoFuel"

lemma obind_Returns_iff [outcome_simps]:
  "obind m f = Returns b w' \<longleftrightarrow> (\<exists>a w. m = Returns a w \<and> f a w = Returns b w')"
  by (cases m) auto

lemma obind_Returns_elim:
  assumes "obind m f = Returns b w'"
  obtains a w where "m = Returns a w" "f a w = Returns b w'"
  using assms by (auto simp: outcome_simps)

lemma obind_assoc: "obind (obind m f) g = obind m (\<lambda>a w. obind (f a w) g)"
  by (cases m) auto

lemma obind_cong [fundef_cong]:
  assumes "m = m'" and "\<And>a w. m' = Returns a w \<Longrightarrow> f a w = f' a w"
  shows "obind m f = obind m' f'"
  using assms by (cases m') auto

text \<open>The state an outcome carries satisfies a predicate, where it carries one.\<close>

fun oholds :: "('w \<Rightarrow> bool) \<Rightarrow> ('a, 'w) outcome \<Rightarrow> bool" where
  "oholds P (Returns a w) = P w"
| "oholds P (Reboots r w) = P w"
| "oholds P Undefined = True"
| "oholds P NoFuel = True"

lemma oholds_obind:
  assumes "oholds P m" and "\<And>a w. m = Returns a w \<Longrightarrow> P w \<Longrightarrow> oholds P (f a w)"
  shows "oholds P (obind m f)"
  using assms by (cases m) auto

text \<open>The same for what an outcome returns only.\<close>

fun oret :: "('a \<Rightarrow> 'w \<Rightarrow> bool) \<Rightarrow> ('a, 'w) outcome \<Rightarrow> bool" where
  "oret P (Returns a w) = P a w"
| "oret P (Reboots r w) = True"
| "oret P Undefined = True"
| "oret P NoFuel = True"

lemma oretD: "oret P m \<Longrightarrow> m = Returns a w \<Longrightarrow> P a w"
  by simp

lemma oret_obind: "(\<And>a w. m = Returns a w \<Longrightarrow> oret P (f a w)) \<Longrightarrow> oret P (obind m f)"
  by (cases m) auto

lemma oholds_Returns: "oholds P m \<Longrightarrow> m = Returns a w \<Longrightarrow> P w"
  by simp

text \<open>
  Code that works on a part of the state: \<open>get\<close> and \<open>put\<close> select the part, as the static
  variables of one source file are a part of the state of the whole program.
\<close>

fun omap_state :: "('s \<Rightarrow> 'w) \<Rightarrow> ('a, 's) outcome \<Rightarrow> ('a, 'w) outcome" where
  "omap_state f (Returns a s) = Returns a (f s)"
| "omap_state f (Reboots r s) = Reboots r (f s)"
| "omap_state f Undefined = Undefined"
| "omap_state f NoFuel = NoFuel"

definition olift ::
  "('w \<Rightarrow> 's) \<Rightarrow> ('s \<Rightarrow> 'w \<Rightarrow> 'w) \<Rightarrow> ('s \<Rightarrow> ('a, 's) outcome) \<Rightarrow> 'w \<Rightarrow> ('a, 'w) outcome" where
  "olift get put f w = omap_state (\<lambda>s. put s w) (f (get w))"

lemma omap_state_Returns_iff [outcome_simps]:
  "omap_state f m = Returns a w \<longleftrightarrow> (\<exists>s. m = Returns a s \<and> w = f s)"
  by (cases m) auto

lemma oholds_omap_state: "oholds P (omap_state f m) \<longleftrightarrow> oholds (\<lambda>s. P (f s)) m"
  by (cases m) auto

lemma oholds_weaken: "oholds Q m \<Longrightarrow> (\<And>s. Q s \<Longrightarrow> P s) \<Longrightarrow> oholds P m"
  by (cases m) auto

lemma oholds_olift:
  "oholds (\<lambda>s. P (put s w)) (f (get w)) \<Longrightarrow> oholds P (olift get put f w)"
  by (simp add: olift_def oholds_omap_state)

text \<open>An outcome that is not undefined and needs no more fuel.\<close>

fun odefined :: "('a, 'w) outcome \<Rightarrow> bool" where
  "odefined (Returns a w) = True"
| "odefined (Reboots r w) = True"
| "odefined Undefined = False"
| "odefined NoFuel = False"

lemma odefined_obind:
  "odefined m \<Longrightarrow> (\<And>a w. m = Returns a w \<Longrightarrow> odefined (f a w)) \<Longrightarrow> odefined (obind m f)"
  by (cases m) auto

text \<open>An outcome that returns, to a state that satisfies a predicate.\<close>

fun oreturns :: "('w \<Rightarrow> bool) \<Rightarrow> ('a, 'w) outcome \<Rightarrow> bool" where
  "oreturns P (Returns a w) = P w"
| "oreturns P (Reboots r w) = False"
| "oreturns P Undefined = False"
| "oreturns P NoFuel = False"

lemma oreturns_iff: "oreturns P m \<longleftrightarrow> (\<exists>a w. m = Returns a w \<and> P w)"
  by (cases m) auto

lemma oreturnsE:
  assumes "oreturns P m"
  obtains a w where "m = Returns a w" and "P w"
  using assms by (cases m) auto

lemma oreturns_obind:
  "oreturns Q m \<Longrightarrow> (\<And>a w. m = Returns a w \<Longrightarrow> Q w \<Longrightarrow> oreturns P (f a w)) \<Longrightarrow> oreturns P (obind m f)"
  by (cases m) auto

section \<open>Linked lists as lists of addresses\<close>

text \<open>
  \<open>next_in xs a\<close> is the \<open>next\<close> pointer of the node \<open>a\<close> in the linked list \<open>xs\<close>:
  \<open>None\<close> for the last node and for a node that is not linked.
\<close>

fun next_in :: "'a list \<Rightarrow> 'a \<Rightarrow> 'a option" where
  "next_in [] a = None"
| "next_in [x] a = None"
| "next_in (x # y # ys) a = (if x = a then Some y else next_in (y # ys) a)"

definition head_of :: "'a list \<Rightarrow> 'a option" where
  "head_of xs = (case xs of [] \<Rightarrow> None | x # _ \<Rightarrow> Some x)"

lemma head_of_simps [simp]: "head_of [] = None" "head_of (x # xs) = Some x"
  by (simp_all add: head_of_def)

lemma next_in_notin [slist_simps]: "a \<notin> set xs \<Longrightarrow> next_in xs a = None"
  by (induction xs a rule: next_in.induct) auto

lemma next_in_append [slist_simps]:
  "a \<notin> set xs \<Longrightarrow> next_in (xs @ a # ys) a = head_of ys"
proof (induction xs)
  case Nil
  then show ?case by (cases ys) auto
next
  case (Cons x xs)
  then show ?case by (cases xs) auto
qed

text \<open>\<open>sys_slist_find_and_remove\<close>: unlink the first node equal to \<open>a\<close>.\<close>

abbreviation slist_remove :: "'a \<Rightarrow> 'a list \<Rightarrow> 'a list" where
  "slist_remove \<equiv> remove1"

section \<open>Bytes and words\<close>

lemma unat_u8_less [simp]: "unat (b :: u8) < 256"
proof -
  have "unat b < 2 ^ LENGTH(8)" by (rule unsigned_less)
  then show ?thesis by simp
qed

lemma unat_u16_less [simp]: "unat (b :: u16) < 65536"
proof -
  have "unat b < 2 ^ LENGTH(16)" by (rule unsigned_less)
  then show ?thesis by simp
qed

lemma unat_u32_less [simp]: "unat (b :: u32) < 4294967296"
proof -
  have "unat b < 2 ^ LENGTH(32)" by (rule unsigned_less)
  then show ?thesis by simp
qed

text \<open>Conversions between widths and natural numbers.\<close>

lemma unat_ucast_u32_u16: "unat (ucast (x :: u32) :: u16) = unat x mod 65536"
  by (simp add: unsigned_ucast_eq take_bit_eq_mod)

lemma unat_of_nat_u32: "n < 2 ^ 32 \<Longrightarrow> unat (of_nat n :: u32) = n"
  by (simp add: unat_of_nat take_bit_eq_mod)

lemma unat_of_nat_u16: "n < 2 ^ 16 \<Longrightarrow> unat (of_nat n :: u16) = n"
  by (simp add: unat_of_nat take_bit_eq_mod)

lemma unat_add_no_overflow:
  fixes a b :: u32
  assumes "unat a + unat b < 2 ^ 32"
  shows "unat (a + b) = unat a + unat b"
  using assms by (simp add: unat_word_ariths)

text \<open>Incrementing a 32-bit counter that is not at its maximum does not wrap.\<close>

lemma u32_max: "(- 1 :: u32) = 0xFFFFFFFF"
  by simp

lemma unat_u32_succ:
  assumes "(c :: u32) \<noteq> 0xFFFFFFFF"
  shows "unat (c + 1) = Suc (unat c)"
proof -
  from assms have "c + 1 \<noteq> 0" by (metis u32_max add_eq_0_iff2)
  then show ?thesis by (metis add.commute unatSuc)
qed

text \<open>
  The two bytes of a 16-bit value, low byte first, and the value of two bytes; the C sources
  write \<open>v & 0xFF\<close>, \<open>(v >> 8) & 0xFF\<close> and \<open>lo | (hi << 8)\<close>.
\<close>

definition lo_byte :: "u16 \<Rightarrow> u8" where
  "lo_byte v = ucast (v AND 0xFF)"

definition hi_byte :: "u16 \<Rightarrow> u8" where
  "hi_byte v = ucast (drop_bit 8 v AND 0xFF)"

definition u16_of_bytes :: "u8 \<Rightarrow> u8 \<Rightarrow> u16" where
  "u16_of_bytes lo hi = ucast lo OR push_bit 8 (ucast hi)"

lemma bit_255_int [simp]: "bit (0xFF :: int) n \<longleftrightarrow> n < 8"
proof -
  have "(0xFF :: int) = mask 8" by (simp add: mask_eq_exp_minus_1)
  then show ?thesis by (simp only: bit_mask_iff) simp
qed

lemma u16_of_bytes_lo_hi [simp]: "u16_of_bytes (lo_byte v) (hi_byte v) = v"
  by (rule bit_word_eqI)
    (auto simp: u16_of_bytes_def lo_byte_def hi_byte_def bit_simps)

lemma lo_byte_of_bytes [simp]: "lo_byte (u16_of_bytes l h) = l"
  by (rule bit_word_eqI)
    (auto simp: u16_of_bytes_def lo_byte_def bit_simps)

lemma hi_byte_of_bytes [simp]: "hi_byte (u16_of_bytes l h) = h"
  by (rule bit_word_eqI)
    (auto simp: u16_of_bytes_def hi_byte_def bit_simps dest: bit_imp_le_length)

text \<open>
  Values in network order: \<^verbatim>\<open>sys_cpu_to_be16\<close>, \<^verbatim>\<open>sys_cpu_to_be32\<close> as the bytes they put in memory, and
  \<^verbatim>\<open>sys_be16_to_cpu\<close>, \<^verbatim>\<open>sys_be32_to_cpu\<close> on the bytes at an address; \<open>None\<close> when there are too few bytes.
\<close>

definition be16 :: "u16 \<Rightarrow> u8 list" where
  "be16 v = [hi_byte v, lo_byte v]"

fun of_be16 :: "u8 list \<Rightarrow> u16 option" where
  "of_be16 (h # l # _) = Some (u16_of_bytes l h)"
| "of_be16 _ = None"

definition be32 :: "u32 \<Rightarrow> u8 list" where
  "be32 v = [ucast (drop_bit 24 v), ucast (drop_bit 16 v), ucast (drop_bit 8 v), ucast v]"

definition u32_of_bytes :: "u8 \<Rightarrow> u8 \<Rightarrow> u8 \<Rightarrow> u8 \<Rightarrow> u32" where
  "u32_of_bytes a b c d = push_bit 24 (ucast a) OR push_bit 16 (ucast b) OR push_bit 8 (ucast c) OR ucast d"

fun of_be32 :: "u8 list \<Rightarrow> u32 option" where
  "of_be32 (a # b # c # d # _) = Some (u32_of_bytes a b c d)"
| "of_be32 _ = None"

lemma length_be [simp]: "length (be16 v) = 2" "length (be32 x) = 4"
  by (simp_all add: be16_def be32_def)

lemma of_be16_be16 [simp]: "of_be16 (be16 v @ xs) = Some v" "of_be16 (be16 v) = Some v"
  by (simp_all add: be16_def)

lemma be16_of_be16: "length bs = 2 \<Longrightarrow> \<exists>v. of_be16 bs = Some v \<and> be16 v = bs"
  by (auto simp: be16_def numeral_2_eq_2 length_Suc_conv)

lemma u32_of_be32: "u32_of_bytes (ucast (drop_bit 24 v)) (ucast (drop_bit 16 v)) (ucast (drop_bit 8 v)) (ucast v) = v"
proof (rule bit_word_eqI)
  fix n assume "n < LENGTH(32)"
  then have n: "n < 32" by simp
  consider "n < 8" | "8 \<le> n" "n < 16" | "16 \<le> n" "n < 24" | "24 \<le> n" by linarith
  then show "bit (u32_of_bytes (ucast (drop_bit 24 v)) (ucast (drop_bit 16 v)) (ucast (drop_bit 8 v)) (ucast v)) n = bit v n"
    using n by cases (auto simp: u32_of_bytes_def bit_simps)
qed

lemma of_be32_be32 [simp]: "of_be32 (be32 v) = Some v"
  by (simp add: be32_def u32_of_be32)

lemma of_be32_Some: "length bs = 4 \<Longrightarrow> \<exists>v. of_be32 bs = Some v"
  by (auto simp: numeral_eq_Suc length_Suc_conv)

lemma bit_u8_ge: "8 \<le> n \<Longrightarrow> \<not> bit (b :: u8) n"
  using bit_imp_le_length [of b n] by auto

lemma be32_u32_of_bytes: "be32 (u32_of_bytes a b c d) = [a, b, c, d]"
  by (auto simp: be32_def u32_of_bytes_def bit_simps bit_u8_ge intro!: bit_word_eqI)

lemma be32_of_be32: "length bs = 4 \<Longrightarrow> of_be32 bs = Some v \<Longrightarrow> bs = be32 v"
  by (auto simp: numeral_eq_Suc length_Suc_conv be32_u32_of_bytes)

end
