(* ===== verification/Uds_Types.thy ===== *)
theory Uds_Types
  imports Prelude
begin

text \<open>
  The data of the UDS library: \<^verbatim>\<open>include/ardep/uds.h\<close> and \<^verbatim>\<open>lib/uds/uds.h\<close>. Function
  pointers are modelled by the names of the functions they point to (a function of the library,
  or one the application supplies, \<open>'u\<close>); the dispatcher of \<^verbatim>\<open>lib/uds/uds.c\<close> takes their
  meaning as an argument. Objects on the Zephyr heap and the nodes of its linked lists have
  addresses, so that a freed object can be told from a live one.
\<close>

section \<open>Results and events\<close>

text \<open>
  The results the library returns, named as the iso14229 package names them. \<open>UDS_OK\<close> is the
  same value as \<open>UDS_PositiveResponse\<close>: the dispatcher compares the result of an action with
  \<open>UDS_OK\<close> although actions return \<open>UDS_PositiveResponse\<close> on success. \<open>UDS_errno\<close> is a
  negative errno that the code returns as a \<open>UDSErr_t\<close>, \<open>UDS_other\<close> a code that no file here
  names (a copy callback or a user handler may return it).
\<close>

datatype UDSErr_t =
    UDS_PositiveResponse
  | UDS_NRC_GeneralReject
  | UDS_NRC_ServiceNotSupported
  | UDS_NRC_SubFunctionNotSupported
  | UDS_NRC_IncorrectMessageLengthOrInvalidFormat
  | UDS_NRC_ResponseTooLong
  | UDS_NRC_ConditionsNotCorrect
  | UDS_NRC_RequestSequenceError
  | UDS_NRC_RequestOutOfRange
  | UDS_NRC_SecurityAccessDenied
  | UDS_NRC_InvalidKey
  | UDS_NRC_UploadDownloadNotAccepted
  | UDS_NRC_GeneralProgrammingFailure
  | UDS_NRC_SubFunctionNotSupportedInActiveSession
  | UDS_ERR_MISUSE
  | UDS_errno errno
  | UDS_other nat

abbreviation UDS_OK :: UDSErr_t where
  "UDS_OK \<equiv> UDS_PositiveResponse"

text \<open>The events the sources name; \<open>UDS_EVT_unhandled\<close> is any other event of the package.\<close>

datatype UDSEvent_t =
    UDS_EVT_DiagSessCtrl | UDS_EVT_SessionTimeout | UDS_EVT_EcuReset | UDS_EVT_DoScheduledReset
  | UDS_EVT_ClearDiagnosticInfo | UDS_EVT_ReadDTCInformation | UDS_EVT_ReadDataByIdent
  | UDS_EVT_ReadMemByAddr | UDS_EVT_CommCtrl | UDS_EVT_SecAccessRequestSeed
  | UDS_EVT_SecAccessValidateKey | UDS_EVT_Auth | UDS_EVT_AuthTimeout
  | UDS_EVT_DynamicDefineDataId | UDS_EVT_WriteDataByIdent | UDS_EVT_IOControl
  | UDS_EVT_RoutineCtrl | UDS_EVT_RequestDownload | UDS_EVT_RequestUpload
  | UDS_EVT_TransferData | UDS_EVT_RequestTransferExit | UDS_EVT_RequestFileTransfer
  | UDS_EVT_WriteMemByAddr | UDS_EVT_ControlDTCSetting | UDS_EVT_LinkControl
  | UDS_EVT_unhandled nat

section \<open>Enumerations with protocol values\<close>

datatype uds_diagnostic_session =
    UDS_DIAG_SESSION__DEFAULT | UDS_DIAG_SESSION__PROGRAMMING | UDS_DIAG_SESSION__EXTENDED
  | UDS_DIAG_SESSION__SAFETY_SYSTEM | UDS_DIAG_SESSION__VEHICLE_MANUFACTURER_SPECIFIC_START
  | UDS_DIAG_SESSION__VEHICLE_MANUFACTURER_SPECIFIC_END
  | UDS_DIAG_SESSION__SYSTEM_SUPPLIER_SPECIFIC_START
  | UDS_DIAG_SESSION__SYSTEM_SUPPLIER_SPECIFIC_END

fun session_val :: "uds_diagnostic_session \<Rightarrow> u8" where
  "session_val UDS_DIAG_SESSION__DEFAULT = 0x01"
| "session_val UDS_DIAG_SESSION__PROGRAMMING = 0x02"
| "session_val UDS_DIAG_SESSION__EXTENDED = 0x03"
| "session_val UDS_DIAG_SESSION__SAFETY_SYSTEM = 0x04"
| "session_val UDS_DIAG_SESSION__VEHICLE_MANUFACTURER_SPECIFIC_START = 0x40"
| "session_val UDS_DIAG_SESSION__VEHICLE_MANUFACTURER_SPECIFIC_END = 0x5F"
| "session_val UDS_DIAG_SESSION__SYSTEM_SUPPLIER_SPECIFIC_START = 0x60"
| "session_val UDS_DIAG_SESSION__SYSTEM_SUPPLIER_SPECIFIC_END = 0x7E"

datatype uds_ecu_reset_type =
    ECU_RESET__HARD | ECU_RESET__KEY_OFF_ON | ECU_RESET__ENABLE_RAPID_POWER_SHUT_DOWN
  | ECU_RESET__DISABLE_RAPID_POWER_SHUT_DOWN | ECU_RESET__VEHICLE_MANUFACTURER_SPECIFIC_START
  | ECU_RESET__VEHICLE_MANUFACTURER_SPECIFIC_END | ECU_RESET__SYSTEM_SUPPLIER_SPECIFIC_START
  | ECU_RESET__SYSTEM_SUPPLIER_SPECIFIC_END

fun ecu_reset_val :: "uds_ecu_reset_type \<Rightarrow> u8" where
  "ecu_reset_val ECU_RESET__HARD = 1"
| "ecu_reset_val ECU_RESET__KEY_OFF_ON = 2"
| "ecu_reset_val ECU_RESET__ENABLE_RAPID_POWER_SHUT_DOWN = 4"
| "ecu_reset_val ECU_RESET__DISABLE_RAPID_POWER_SHUT_DOWN = 5"
| "ecu_reset_val ECU_RESET__VEHICLE_MANUFACTURER_SPECIFIC_START = 0x40"
| "ecu_reset_val ECU_RESET__VEHICLE_MANUFACTURER_SPECIFIC_END = 0x5F"
| "ecu_reset_val ECU_RESET__SYSTEM_SUPPLIER_SPECIFIC_START = 0x60"
| "ecu_reset_val ECU_RESET__SYSTEM_SUPPLIER_SPECIFIC_END = 0x7E"

datatype uds_routine_control_subfunc =
    UDS_ROUTINE_CONTROL__START_ROUTINE | UDS_ROUTINE_CONTROL__STOP_ROUTINE
  | UDS_ROUTINE_CONTROL__REQUEST_ROUTINE_RESULTS

fun routine_control_val :: "uds_routine_control_subfunc \<Rightarrow> u8" where
  "routine_control_val UDS_ROUTINE_CONTROL__START_ROUTINE = 0x01"
| "routine_control_val UDS_ROUTINE_CONTROL__STOP_ROUTINE = 0x02"
| "routine_control_val UDS_ROUTINE_CONTROL__REQUEST_ROUTINE_RESULTS = 0x03"

datatype uds_dynamically_define_data_ids_subfunc =
    UDS_DYNAMICALLY_DEFINED_DATA_IDS__DEFINE_BY_DATA_ID
  | UDS_DYNAMICALLY_DEFINED_DATA_IDS__DEFINE_BY_MEMORY_ADDRESS
  | UDS_DYNAMICALLY_DEFINED_DATA_IDS__CLEAR

fun dddi_val :: "uds_dynamically_define_data_ids_subfunc \<Rightarrow> u8" where
  "dddi_val UDS_DYNAMICALLY_DEFINED_DATA_IDS__DEFINE_BY_DATA_ID = 0x01"
| "dddi_val UDS_DYNAMICALLY_DEFINED_DATA_IDS__DEFINE_BY_MEMORY_ADDRESS = 0x02"
| "dddi_val UDS_DYNAMICALLY_DEFINED_DATA_IDS__CLEAR = 0x03"

datatype uds_link_control_subfunc =
    UDS_LINK_CONTROL__VERIFY_MODE_TRANSITION_WITH_FIXED_PARAMETER
  | UDS_LINK_CONTROL__VERIFY_MODE_TRANSITION_WITH_SPECIFIC_PARAMETER
  | UDS_LINK_CONTROL__TRANSITION_MODE
  | UDS_LINK_CONTROL__VEHICLE_MANUFACTURER_SPECIFIC_START
  | UDS_LINK_CONTROL__VEHICLE_MANUFACTURER_SPECIFIC_END
  | UDS_LINK_CONTROL__SYSTEM_SUPPLIER_SPECIFIC_START
  | UDS_LINK_CONTROL__SYSTEM_SUPPLIER_SPECIFIC_END

fun link_control_val :: "uds_link_control_subfunc \<Rightarrow> u8" where
  "link_control_val UDS_LINK_CONTROL__VERIFY_MODE_TRANSITION_WITH_FIXED_PARAMETER = 0x01"
| "link_control_val UDS_LINK_CONTROL__VERIFY_MODE_TRANSITION_WITH_SPECIFIC_PARAMETER = 0x02"
| "link_control_val UDS_LINK_CONTROL__TRANSITION_MODE = 0x03"
| "link_control_val UDS_LINK_CONTROL__VEHICLE_MANUFACTURER_SPECIFIC_START = 0x40"
| "link_control_val UDS_LINK_CONTROL__VEHICLE_MANUFACTURER_SPECIFIC_END = 0x5F"
| "link_control_val UDS_LINK_CONTROL__SYSTEM_SUPPLIER_SPECIFIC_START = 0x60"
| "link_control_val UDS_LINK_CONTROL__SYSTEM_SUPPLIER_SPECIFIC_END = 0x7E"

datatype uds_link_control_modifier =
    UDS_LINK_CONTROL_MODIFIER__PC_9600_BAUD | UDS_LINK_CONTROL_MODIFIER__PC_1920_BAUD
  | UDS_LINK_CONTROL_MODIFIER__PC_38400_BAUD | UDS_LINK_CONTROL_MODIFIER__PC_57600_BAUD
  | UDS_LINK_CONTROL_MODIFIER__PC_115200_BAUD | UDS_LINK_CONTROL_MODIFIER__CAN_125000_BAUD
  | UDS_LINK_CONTROL_MODIFIER__CAN_250000_BAUD | UDS_LINK_CONTROL_MODIFIER__CAN_500000_BAUD
  | UDS_LINK_CONTROL_MODIFIER__CAN_1000000_BAUD | UDS_LINK_CONTROL_MODIFIER__PROGRAMMING_SETUP

fun modifier_val :: "uds_link_control_modifier \<Rightarrow> u8" where
  "modifier_val UDS_LINK_CONTROL_MODIFIER__PC_9600_BAUD = 0x01"
| "modifier_val UDS_LINK_CONTROL_MODIFIER__PC_1920_BAUD = 0x02"
| "modifier_val UDS_LINK_CONTROL_MODIFIER__PC_38400_BAUD = 0x03"
| "modifier_val UDS_LINK_CONTROL_MODIFIER__PC_57600_BAUD = 0x04"
| "modifier_val UDS_LINK_CONTROL_MODIFIER__PC_115200_BAUD = 0x05"
| "modifier_val UDS_LINK_CONTROL_MODIFIER__CAN_125000_BAUD = 0x10"
| "modifier_val UDS_LINK_CONTROL_MODIFIER__CAN_250000_BAUD = 0x11"
| "modifier_val UDS_LINK_CONTROL_MODIFIER__CAN_500000_BAUD = 0x12"
| "modifier_val UDS_LINK_CONTROL_MODIFIER__CAN_1000000_BAUD = 0x13"
| "modifier_val UDS_LINK_CONTROL_MODIFIER__PROGRAMMING_SETUP = 0x20"

section \<open>Function pointers, actors and registrations\<close>

type_synonym addr = nat
type_synonym inst = nat

text \<open>
  A pointer of type \<^verbatim>\<open>uds_check_fn\<close>, \<^verbatim>\<open>uds_action_fn\<close> or the unregister callback: the
  functions of the library by name, or one supplied by the application.
\<close>

datatype 'u check_fn =
    Check_user 'u
  | Fn_check_read_with_data_id | Fn_check_write_with_data_id | Fn_check_io_control_with_data_id
  | Fn_check_with_routine_id | Fn_check_with_subfunc | Fn_check_always_apply
  | Fn_check_ecu_hard_reset | Fn_check_execute_scheduled_reset
  | Fn_check_default_memory_by_addr_read | Fn_check_default_memory_by_addr_write
  | Fn_check_default_dynamically_define_data_ids | Fn_dynamic_data_by_id_read_check
  | Fn_check_default_link_control | Fn_check_default_link_control_change_diag_session
  | Fn_diag_session_ctrl_check | Fn_diag_session_timeout_check

datatype 'u action_fn =
    Action_user 'u
  | Fn_action_ecu_hard_reset | Fn_action_execute_scheduled_reset
  | Fn_action_default_memory_by_addr_read | Fn_action_default_memory_by_addr_write
  | Fn_action_default_dynamically_define_data_ids | Fn_dynamic_data_by_id_read_action
  | Fn_action_default_link_control | Fn_action_default_link_control_change_diag_session
  | Fn_action_upload_download
  | Fn_diag_session_ctrl_action | Fn_diag_session_timeout_action

datatype 'u unregister_fn = Unregister_user 'u | Fn_unregister_dynamic_identifier

record 'u uds_actor =
  act_check :: "'u check_fn option"
  act_action :: "'u action_fn option"

datatype uds_registration_type_t =
    UDS_REGISTRATION_TYPE__ECU_RESET | UDS_REGISTRATION_TYPE__MEMORY
  | UDS_REGISTRATION_TYPE__READ_DTC_INFO | UDS_REGISTRATION_TYPE__DATA_IDENTIFIER
  | UDS_REGISTRATION_TYPE__DIAG_SESSION_CTRL | UDS_REGISTRATION_TYPE__CLEAR_DIAG_INFO
  | UDS_REGISTRATION_TYPE__ROUTINE_CONTROL | UDS_REGISTRATION_TYPE__SECURITY_ACCESS
  | UDS_REGISTRATION_TYPE__COMMUNICATION_CONTROL
  | UDS_REGISTRATION_TYPE__DYNAMIC_DEFINE_DATA_IDS
  | UDS_REGISTRATION_TYPE__CONTROL_DTC_SETTING | UDS_REGISTRATION_TYPE__UPLOAD_DOWNLOAD
  | UDS_REGISTRATION_TYPE__LINK_CONTROL | UDS_REGISTRATION_TYPE__AUTHENTICATION

text \<open>
  The union of \<^verbatim>\<open>struct uds_registration_t\<close>, tagged by its \<open>type\<close> member. Each member starts
  with the user context pointer. The list of a dynamically-define-data-ids handler holds the
  addresses of its \<^verbatim>\<open>dynamic_registration_id_sll_item\<close>s.
\<close>

datatype 'u uds_registration_data =
    Reg_diag_session_ctrl "addr option" (diag_sess_ctrl: "'u uds_actor")
      (session_timeout: "'u uds_actor")
  | Reg_ecu_reset "addr option" (ecu_reset: "'u uds_actor")
      (execute_scheduled_reset: "'u uds_actor") u8
  | Reg_data_identifier "addr option" (di_data: "addr option") (di_data_id: u16)
      (di_read: "'u uds_actor") (di_write: "'u uds_actor") (di_io_control: "'u uds_actor")
  | Reg_memory "addr option" (mem_read: "'u uds_actor") (mem_write: "'u uds_actor")
  | Reg_read_dtc "addr option" (dtc_sub_function: u8) (dtc_actor: "'u uds_actor")
  | Reg_control_dtc_setting "addr option" (control_dtc_actor: "'u uds_actor")
  | Reg_clear_diagnostic_information "addr option" (clear_diag_actor: "'u uds_actor")
  | Reg_routine_control "addr option" (routine_id: u16) (routine_actor: "'u uds_actor")
  | Reg_security_access "addr option" (request_seed: "'u uds_actor")
      (validate_key: "'u uds_actor")
  | Reg_communication_control "addr option" (comm_ctrl_actor: "'u uds_actor")
  | Reg_dynamically_define_data_ids "addr option" (dynamic_registration_id_list: "addr list")
      (dddi_actor: "'u uds_actor")
  | Reg_link_control "addr option" (link_control_actor: "'u uds_actor")
  | Reg_auth "addr option" (auth_actor: "'u uds_actor") (auth_timeout: "'u uds_actor")
  | Reg_upload_download

fun registration_type_of :: "'u uds_registration_data \<Rightarrow> uds_registration_type_t" where
  "registration_type_of (Reg_diag_session_ctrl _ _ _) = UDS_REGISTRATION_TYPE__DIAG_SESSION_CTRL"
| "registration_type_of (Reg_ecu_reset _ _ _ _) = UDS_REGISTRATION_TYPE__ECU_RESET"
| "registration_type_of (Reg_data_identifier _ _ _ _ _ _) =
     UDS_REGISTRATION_TYPE__DATA_IDENTIFIER"
| "registration_type_of (Reg_memory _ _ _) = UDS_REGISTRATION_TYPE__MEMORY"
| "registration_type_of (Reg_read_dtc _ _ _) = UDS_REGISTRATION_TYPE__READ_DTC_INFO"
| "registration_type_of (Reg_control_dtc_setting _ _) = UDS_REGISTRATION_TYPE__CONTROL_DTC_SETTING"
| "registration_type_of (Reg_clear_diagnostic_information _ _) =
     UDS_REGISTRATION_TYPE__CLEAR_DIAG_INFO"
| "registration_type_of (Reg_routine_control _ _ _) = UDS_REGISTRATION_TYPE__ROUTINE_CONTROL"
| "registration_type_of (Reg_security_access _ _ _) = UDS_REGISTRATION_TYPE__SECURITY_ACCESS"
| "registration_type_of (Reg_communication_control _ _) =
     UDS_REGISTRATION_TYPE__COMMUNICATION_CONTROL"
| "registration_type_of (Reg_dynamically_define_data_ids _ _ _) =
     UDS_REGISTRATION_TYPE__DYNAMIC_DEFINE_DATA_IDS"
| "registration_type_of (Reg_link_control _ _) = UDS_REGISTRATION_TYPE__LINK_CONTROL"
| "registration_type_of (Reg_auth _ _ _) = UDS_REGISTRATION_TYPE__AUTHENTICATION"
| "registration_type_of Reg_upload_download = UDS_REGISTRATION_TYPE__UPLOAD_DOWNLOAD"

record 'u uds_registration_t =
  reg_instance :: "inst option"
  reg_data :: "'u uds_registration_data"
  reg_dynamic_id :: u32
  reg_unregister_fn :: "'u unregister_fn option"

abbreviation reg_type :: "'u uds_registration_t \<Rightarrow> uds_registration_type_t" where
  "reg_type r \<equiv> registration_type_of (reg_data r)"

text \<open>The items a dynamically defined data identifier is made of.\<close>

datatype uds_dynamically_defined_data =
    Data_id (dd_id: u16) (dd_position: u8) (dd_size: u8)
  | Data_memory (dd_memAddr: u32) (dd_memSize: u32)

section \<open>Event arguments\<close>

text \<open>
  What the \<open>arg\<close> pointer of an event points to: the argument structures of the iso14229 package,
  with the members the sources read or write. \<open>Copy_lib\<close> is the copy function of the package,
  \<open>Copy_uds_copy\<close> the one of \<^verbatim>\<open>dynamically_define_data_ids.c\<close>; \<open>None\<close> is a null pointer.
\<close>

datatype copy_fn = Copy_lib | Copy_uds_copy

text \<open>The modes of a file transfer request, which the package numbers.\<close>

datatype uds_moop =
    UDS_MOOP_ADDFILE | UDS_MOOP_DELFILE | UDS_MOOP_REPLFILE | UDS_MOOP_RDFILE | UDS_MOOP_other nat

datatype dddi_sub_args = DDDI_by_id u16 u8 u8 | DDDI_by_mem u32 u32 | DDDI_none

text \<open>
  The subfunctions of the authentication service that the sources name, the states that they report,
  and the members of the union for two of the subfunctions.
\<close>

datatype uds_auth_type = UDS_LEV_AT_DA | UDS_LEV_AT_RCFA | UDS_LEV_AT_VPOWNU | UDS_LEV_AT_other nat
datatype uds_auth_state = UDS_AT_RA | UDS_AT_OVAC | UDS_AT_DAS
datatype auth_sub_args =
    Auth_reqChallenge (rq_algoInd: "u8 list") | Auth_verifyPown (vp_algoInd: "u8 list") (vp_pown: "u8 list") | Auth_none

datatype uds_arg =
    Arg_DiagSessCtrl (dsc_type: u8)
  | Arg_ECUReset (er_type: u8) (er_powerDownTimeMillis: u32)
  | Arg_ScheduledReset u8
  | Arg_RDBI u16 copy_fn
  | Arg_WDBI u16 "u8 list"
  | Arg_IOCtrl u16 (io_ctrlParam: u8) (io_ctrlStateAndMask: "u8 list") copy_fn
  | Arg_ReadMem u32 u32 copy_fn
  | Arg_WriteMem u32 u32 "u8 list"
  | Arg_DDDI (dddi_type: u8) (dddi_allDataIds: bool) (dddi_dynamicDataId: u16)
      (dddi_sub: dddi_sub_args)
  | Arg_RoutineCtrl (rc_ctrlType: u8) (rc_id: u16) (rc_optionRecord: "u8 list")
  | Arg_RDTCI u8 (rdtci_mask: u8)
  | Arg_CDI (cdi_groupOfDTC: u32)
  | Arg_ControlDTCSetting (cds_type: u8) (cds_data: "u8 list")
  | Arg_SecAccessRequestSeed (rs_level: u8) (rs_dataRecord: "u8 list")
  | Arg_SecAccessValidateKey (vk_level: u8) (vk_key: "u8 list")
  | Arg_Auth (au_type: uds_auth_type) (au_subFuncArgs: auth_sub_args)
  | Arg_LinkCtrl (lc_type: u8) (lc_data: "u8 list")
  | Arg_RequestDownload (rd_addr: u32) (rd_size: u32) (rd_format: u8)
  | Arg_RequestUpload (ru_addr: u32) (ru_size: u32) (ru_maxBlockLength: u16)
  | Arg_TransferData (td_data: "u8 list option") (td_maxRespLen: u16) (td_copy: "copy_fn option")
  | Arg_RequestFileTransfer (ft_mode: uds_moop) (ft_path: "string option") (ft_size: u32)
      (ft_maxBlockLength: u16)
  | Arg_other

section \<open>Contexts, handler table entries and the state\<close>

datatype reg_ref = Static nat | Dynamic addr

record uds_context =
  ctx_instance :: inst
  ctx_registration :: reg_ref
  ctx_event :: UDSEvent_t
  ctx_arg :: uds_arg

record 'u uds_event_handler_data =
  h_event :: UDSEvent_t
  h_get_check :: "'u uds_registration_t \<Rightarrow> 'u check_fn option"
  h_get_action :: "'u uds_registration_t \<Rightarrow> 'u action_fn option"
  h_default_nrc :: UDSErr_t
  h_registration_type :: uds_registration_type_t

text \<open>
  What the library allocates with \<^verbatim>\<open>k_malloc\<close>: registrations, the list heads and items of
  dynamic data identifiers, and the items that remember dynamic registration ids.
\<close>

datatype 'u heap_cell =
    Cell_reg "'u uds_registration_t"
  | Cell_slist "addr list"
  | Cell_data uds_dynamically_defined_data
  | Cell_reg_id u32

text \<open>
  The state: the registrations in the linker section, the heap, and for each instance its list
  of dynamic registrations. The \<open>n\<close>-th call of \<^verbatim>\<open>k_malloc\<close> succeeds iff \<open>malloc_ok n\<close>, and then
  returns the address \<open>n\<close>: any pattern of failing allocations is a state, and the address of a
  new object differs from every earlier one. \<open>env\<close> is everything else the handlers use.
\<close>

record ('u, 'x) uds_world =
  static_regs :: "'u uds_registration_t list"
  heap :: "addr \<rightharpoonup> 'u heap_cell"
  malloc_ok :: "nat \<Rightarrow> bool"
  malloc_cnt :: nat
  dyn_regs :: "inst \<Rightarrow> addr list"
  env :: 'x

definition k_malloc :: "'u heap_cell \<Rightarrow> ('u, 'x) uds_world \<Rightarrow> addr option \<times> ('u, 'x) uds_world" where
  "k_malloc c w =
     (let n = malloc_cnt w; w' = w\<lparr>malloc_cnt := Suc n\<rparr> in
      if malloc_ok w n then (Some n, w'\<lparr>heap := (heap w)(n \<mapsto> c)\<rparr>) else (None, w'))"

definition k_free :: "addr \<Rightarrow> ('u, 'x) uds_world \<Rightarrow> (unit, ('u, 'x) uds_world) outcome" where
  "k_free a w =
     (case heap w a of
        None \<Rightarrow> Undefined
      | Some _ \<Rightarrow> Returns () (w\<lparr>heap := (heap w)(a := None)\<rparr>))"

text \<open>Reading a registration through a pointer.\<close>

fun deref_reg :: "('u, 'x) uds_world \<Rightarrow> reg_ref \<Rightarrow> 'u uds_registration_t option" where
  "deref_reg w (Static n) = (if n < length (static_regs w) then Some (static_regs w ! n) else None)"
| "deref_reg w (Dynamic a) = (case heap w a of Some (Cell_reg r) \<Rightarrow> Some r | _ \<Rightarrow> None)"

lemma k_malloc_None:
  "k_malloc c w = (None, w') \<longleftrightarrow> \<not> malloc_ok w (malloc_cnt w) \<and> w' = w\<lparr>malloc_cnt := Suc (malloc_cnt w)\<rparr>"
  by (auto simp: k_malloc_def Let_def)

lemma k_malloc_Some:
  "k_malloc c w = (Some a, w') \<longleftrightarrow> malloc_ok w (malloc_cnt w) \<and> a = malloc_cnt w \<and>
     w' = w\<lparr>malloc_cnt := Suc a, heap := (heap w)(a \<mapsto> c)\<rparr>"
  by (auto simp: k_malloc_def Let_def)

lemma k_free_Returns:
  "k_free a w = Returns u w' \<longleftrightarrow> heap w a \<noteq> None \<and> w' = w\<lparr>heap := (heap w)(a := None)\<rparr>"
  by (auto simp: k_free_def split: option.splits)

lemmas malloc_simps = k_malloc_None k_malloc_Some k_free_Returns

end
