(* ===== verification/Uds_Macro.thy ===== *)
theory Uds_Macro
  imports Uds_Types
begin

text \<open>
  The macros of \<^verbatim>\<open>include/ardep/uds_macro.h\<close> that place registrations in the linker section, as the
  registrations they define, and the enumerations of \<^verbatim>\<open>uds.h\<close> that only applications use. A macro
  that defines several registrations is a list of them. A member that an initialiser leaves out is
  zero: no dynamic id and no unregister function.
\<close>

section \<open>Enumerations\<close>

datatype uds_read_dtc_info_subfunc =
    UDS_READ_DTC_INFO_SUBFUNC__NUM_OF_DTC_BY_STATUS_MASK
  | UDS_READ_DTC_INFO_SUBFUNC__DTC_BY_STATUS_MASK
  | UDS_READ_DTC_INFO_SUBFUNC__DTC_SNAPSHOT_IDENTIFICATION
  | UDS_READ_DTC_INFO_SUBFUNC__DTC_SNAPSHOT_RECORD_BY_DTC_NUM
  | UDS_READ_DTC_INFO_SUBFUNC__DTC_STORED_DATA_BY_RECORD_NUM
  | UDS_READ_DTC_INFO_SUBFUNC__DTC_EXT_DATA_RECORD_BY_DTC_NUM
  | UDS_READ_DTC_INFO_SUBFUNC__NUM_OF_DTC_BY_SEVERITY_MASK_RECORD
  | UDS_READ_DTC_INFO_SUBFUNC__DTC_BY_SEVERITY_MASK_RECORD
  | UDS_READ_DTC_INFO_SUBFUNC__SEVERITY_INFO_OF_DTC
  | UDS_READ_DTC_INFO_SUBFUNC__SUPPORTED_DTC
  | UDS_READ_DTC_INFO_SUBFUNC__FIRST_TEST_FAILED_DTC
  | UDS_READ_DTC_INFO_SUBFUNC__FIRST_CONFIRMED_DTC
  | UDS_READ_DTC_INFO_SUBFUNC__MOST_RECENT_TEST_FAILED_DTC
  | UDS_READ_DTC_INFO_SUBFUNC__MOST_RECENT_CONFIRMED_DTC
  | UDS_READ_DTC_INFO_SUBFUNC__DTC_FAULT_DETECTION_COUNTER
  | UDS_READ_DTC_INFO_SUBFUNC__DTC_WITH_PERMANENT_STATUS
  | UDS_READ_DTC_INFO_SUBFUNC__DTC_EXT_DATA_RECORD_BY_NUM
  | UDS_READ_DTC_INFO_SUBFUNC__USER_DEF_MEM_DTC_BY_STATUS_MASK
  | UDS_READ_DTC_INFO_SUBFUNC__USER_DEF_MEM_DTC_SNAPSHOT_RECORD_BY_DTC_NUM
  | UDS_READ_DTC_INFO_SUBFUNC__USER_DEF_MEM_DTC_EXT_DATA_RECORD_BY_DTC_NUM
  | UDS_READ_DTC_INFO_SUBFUNC__DTC_EXTENDED_DATA_RECORD_IDENTIFICATION
  | UDS_READ_DTC_INFO_SUBFUNC__WWHOBD_DTC_BY_MASK_RECORD
  | UDS_READ_DTC_INFO_SUBFUNC__WWHOBD_DTC_WITH_PERMANENT_STATUS
  | UDS_READ_DTC_INFO_SUBFUNC__DTC_INFO_BY_DTC_READINESS_GROUP_IDENTIFIER

fun read_dtc_info_val :: "uds_read_dtc_info_subfunc \<Rightarrow> u8" where
  "read_dtc_info_val UDS_READ_DTC_INFO_SUBFUNC__NUM_OF_DTC_BY_STATUS_MASK = 0x01"
| "read_dtc_info_val UDS_READ_DTC_INFO_SUBFUNC__DTC_BY_STATUS_MASK = 0x02"
| "read_dtc_info_val UDS_READ_DTC_INFO_SUBFUNC__DTC_SNAPSHOT_IDENTIFICATION = 0x03"
| "read_dtc_info_val UDS_READ_DTC_INFO_SUBFUNC__DTC_SNAPSHOT_RECORD_BY_DTC_NUM = 0x04"
| "read_dtc_info_val UDS_READ_DTC_INFO_SUBFUNC__DTC_STORED_DATA_BY_RECORD_NUM = 0x05"
| "read_dtc_info_val UDS_READ_DTC_INFO_SUBFUNC__DTC_EXT_DATA_RECORD_BY_DTC_NUM = 0x06"
| "read_dtc_info_val UDS_READ_DTC_INFO_SUBFUNC__NUM_OF_DTC_BY_SEVERITY_MASK_RECORD = 0x07"
| "read_dtc_info_val UDS_READ_DTC_INFO_SUBFUNC__DTC_BY_SEVERITY_MASK_RECORD = 0x08"
| "read_dtc_info_val UDS_READ_DTC_INFO_SUBFUNC__SEVERITY_INFO_OF_DTC = 0x09"
| "read_dtc_info_val UDS_READ_DTC_INFO_SUBFUNC__SUPPORTED_DTC = 0x0A"
| "read_dtc_info_val UDS_READ_DTC_INFO_SUBFUNC__FIRST_TEST_FAILED_DTC = 0x0B"
| "read_dtc_info_val UDS_READ_DTC_INFO_SUBFUNC__FIRST_CONFIRMED_DTC = 0x0C"
| "read_dtc_info_val UDS_READ_DTC_INFO_SUBFUNC__MOST_RECENT_TEST_FAILED_DTC = 0x0D"
| "read_dtc_info_val UDS_READ_DTC_INFO_SUBFUNC__MOST_RECENT_CONFIRMED_DTC = 0x0E"
| "read_dtc_info_val UDS_READ_DTC_INFO_SUBFUNC__DTC_FAULT_DETECTION_COUNTER = 0x14"
| "read_dtc_info_val UDS_READ_DTC_INFO_SUBFUNC__DTC_WITH_PERMANENT_STATUS = 0x15"
| "read_dtc_info_val UDS_READ_DTC_INFO_SUBFUNC__DTC_EXT_DATA_RECORD_BY_NUM = 0x16"
| "read_dtc_info_val UDS_READ_DTC_INFO_SUBFUNC__USER_DEF_MEM_DTC_BY_STATUS_MASK = 0x17"
| "read_dtc_info_val UDS_READ_DTC_INFO_SUBFUNC__USER_DEF_MEM_DTC_SNAPSHOT_RECORD_BY_DTC_NUM = 0x18"
| "read_dtc_info_val UDS_READ_DTC_INFO_SUBFUNC__USER_DEF_MEM_DTC_EXT_DATA_RECORD_BY_DTC_NUM = 0x19"
| "read_dtc_info_val UDS_READ_DTC_INFO_SUBFUNC__DTC_EXTENDED_DATA_RECORD_IDENTIFICATION = 0x1A"
| "read_dtc_info_val UDS_READ_DTC_INFO_SUBFUNC__WWHOBD_DTC_BY_MASK_RECORD = 0x42"
| "read_dtc_info_val UDS_READ_DTC_INFO_SUBFUNC__WWHOBD_DTC_WITH_PERMANENT_STATUS = 0x55"
| "read_dtc_info_val UDS_READ_DTC_INFO_SUBFUNC__DTC_INFO_BY_DTC_READINESS_GROUP_IDENTIFIER = 0x56"

datatype uds_input_output_control_param =
    UDS_IO_CONTROL__RETURN_CONTROL_TO_ECU | UDS_IO_CONTROL__RESET_TO_DEFAULT | UDS_IO_CONTROL__FREEZE_CURRENT_STATE
  | UDS_IO_CONTROL__SHORT_TERM_ADJUSTMENT | UDS_IO_CONTROL__TACHOGRAPH_TEST_IDS_START
  | UDS_IO_CONTROL__TACHOGRAPH_TEST_IDS_END | UDS_IO_CONTROL__VEHICLE_MANUFACTURER_SPECIFIC_START
  | UDS_IO_CONTROL__VEHICLE_MANUFACTURER_SPECIFIC_END | UDS_IO_CONTROL__OBD_TEST_IDS_START
  | UDS_IO_CONTROL__OBD_TEST_IDS_END | UDS_IO_CONTROL__EXECUTE_SPL | UDS_IO_CONTROL__DEPLOY_LOOP_ROUTINE_ID
  | UDS_IO_CONTROL__SAFETY_SYSTEM_ROUTINE_IDS_START | UDS_IO_CONTROL__SAFETY_SYSTEM_ROUTINE_IDS_END
  | UDS_IO_CONTROL__SYSTEM_SUPPLIER_SPECIFIC | UDS_IO_CONTROL__SYSTEM_SUPPLIER_SPECIFIC_END
  | UDS_IO_CONTROL__ERASE_MEMORY | UDS_IO_CONTROL__CHECK_PROGRAMMING_DEPENDENCIES

fun io_control_val :: "uds_input_output_control_param \<Rightarrow> u16" where
  "io_control_val UDS_IO_CONTROL__RETURN_CONTROL_TO_ECU = 0x00"
| "io_control_val UDS_IO_CONTROL__RESET_TO_DEFAULT = 0x01"
| "io_control_val UDS_IO_CONTROL__FREEZE_CURRENT_STATE = 0x02"
| "io_control_val UDS_IO_CONTROL__SHORT_TERM_ADJUSTMENT = 0x03"
| "io_control_val UDS_IO_CONTROL__TACHOGRAPH_TEST_IDS_START = 0x100"
| "io_control_val UDS_IO_CONTROL__TACHOGRAPH_TEST_IDS_END = 0x1FF"
| "io_control_val UDS_IO_CONTROL__VEHICLE_MANUFACTURER_SPECIFIC_START = 0x200"
| "io_control_val UDS_IO_CONTROL__VEHICLE_MANUFACTURER_SPECIFIC_END = 0xDFFF"
| "io_control_val UDS_IO_CONTROL__OBD_TEST_IDS_START = 0xE000"
| "io_control_val UDS_IO_CONTROL__OBD_TEST_IDS_END = 0xE1FF"
| "io_control_val UDS_IO_CONTROL__EXECUTE_SPL = 0xE200"
| "io_control_val UDS_IO_CONTROL__DEPLOY_LOOP_ROUTINE_ID = 0xE201"
| "io_control_val UDS_IO_CONTROL__SAFETY_SYSTEM_ROUTINE_IDS_START = 0xE202"
| "io_control_val UDS_IO_CONTROL__SAFETY_SYSTEM_ROUTINE_IDS_END = 0xE2FF"
| "io_control_val UDS_IO_CONTROL__SYSTEM_SUPPLIER_SPECIFIC = 0xF000"
| "io_control_val UDS_IO_CONTROL__SYSTEM_SUPPLIER_SPECIFIC_END = 0xFEFF"
| "io_control_val UDS_IO_CONTROL__ERASE_MEMORY = 0xFF00"
| "io_control_val UDS_IO_CONTROL__CHECK_PROGRAMMING_DEPENDENCIES = 0xFF01"

section \<open>Registrations\<close>

definition static_reg :: "inst option \<Rightarrow> 'u uds_registration_data \<Rightarrow> 'u uds_registration_t" where
  "static_reg i d = \<lparr>reg_instance = i, reg_data = d, reg_dynamic_id = 0, reg_unregister_fn = None\<rparr>"

definition actor :: "'u check_fn option \<Rightarrow> 'u action_fn option \<Rightarrow> 'u uds_actor" where
  "actor c a = \<lparr>act_check = c, act_action = a\<rparr>"

definition UDS_REGISTER_READ_DTC_INFO_HANDLER ::
  "inst option \<Rightarrow> 'u check_fn option \<Rightarrow> 'u action_fn option \<Rightarrow> u8 \<Rightarrow> addr option \<Rightarrow> 'u uds_registration_t" where
  "UDS_REGISTER_READ_DTC_INFO_HANDLER i check act subfunc_id ctx =
     static_reg i (Reg_read_dtc ctx subfunc_id (actor check act))"

text \<open>
  The macros \<^verbatim>\<open>_UDS_REGISTER_READ_DTC_INFO_HANDLER_APPLY_1\<close> to \<open>24\<close> as they are written: for each its number of subfunctions
  and its body, a list of calls, each with the number of the macro that is called and the positions of the
  subfunctions that are handed to it. The number 0 stands for \<^verbatim>\<open>APPLY_ONE\<close>.
\<close>

definition read_dtc_apply_macros :: "(nat \<times> (nat \<times> nat list) list) list" where
  "read_dtc_apply_macros =
     [(1, [(0, [1])]),
      (2, [(1, [1]), (1, [2])]),
      (3, [(2, [1, 2]), (1, [3])]),
      (4, [(3, [1, 2, 3]), (1, [4])]),
      (5, [(4, [1, 2, 3, 4]), (1, [5])]),
      (6, [(5, [1, 2, 3, 4, 5]), (1, [6])]),
      (7, [(6, [1, 2, 3, 4, 5, 6]), (1, [7])]),
      (8, [(7, [1, 2, 3, 4, 5, 6, 7]), (1, [8])]),
      (9, [(8, [1, 2, 3, 4, 5, 6, 7, 8]), (1, [9])]),
      (10, [(9, [1, 2, 3, 4, 5, 6, 7, 8, 9]), (1, [10])]),
      (11, [(10, [1, 2, 3, 4, 5, 6, 7, 8, 9, 10]), (1, [11])]),
      (12, [(11, [1, 2, 3, 4, 5, 6, 7, 8, 9, 10, 11]), (1, [12])]),
      (13, [(12, [1, 2, 3, 4, 5, 6, 7, 8, 9, 10, 11, 12]), (1, [13])]),
      (14, [(13, [1, 2, 3, 4, 5, 6, 7, 8, 9, 10, 11, 12, 13]), (1, [14])]),
      (15, [(14, [1, 2, 3, 4, 5, 6, 7, 8, 9, 10, 11, 12, 13, 14]), (1, [15])]),
      (16, [(15, [1, 2, 3, 4, 5, 6, 7, 8, 9, 10, 11, 12, 13, 14, 15]), (1, [16])]),
      (17, [(16, [1, 2, 3, 4, 5, 6, 7, 8, 9, 10, 11, 12, 13, 14, 15, 16]), (1, [17])]),
      (18, [(17, [1, 2, 3, 4, 5, 6, 7, 8, 9, 10, 11, 12, 13, 14, 15, 16, 17]), (1, [18])]),
      (19, [(18, [1, 2, 3, 4, 5, 6, 7, 8, 9, 10, 11, 12, 13, 14, 15, 16, 17, 18]), (1, [19])]),
      (20, [(19, [1, 2, 3, 4, 5, 6, 7, 8, 9, 10, 11, 12, 13, 14, 15, 16, 17, 18, 19]), (1, [20])]),
      (21, [(20, [1, 2, 3, 4, 5, 6, 7, 8, 9, 10, 11, 12, 13, 14, 15, 16, 17, 18, 19, 20]), (1, [21])]),
      (22, [(21, [1, 2, 3, 4, 5, 6, 7, 8, 9, 10, 11, 12, 13, 14, 15, 16, 17, 18, 19, 20, 21]), (1, [22])]),
      (23, [(22, [1, 2, 3, 4, 5, 6, 7, 8, 9, 10, 11, 12, 13, 14, 15, 16, 17, 18, 19, 20, 21, 22]), (1, [23])]),
      (24, [(23, [1, 2, 3, 4, 5, 6, 7, 8, 9, 10, 11, 12, 13, 14, 15, 16, 17, 18, 19, 20, 21, 22, 23]), (1, [24])])]"

text \<open>
  The expansion of macro \<open>n\<close> for the subfunctions \<open>ss\<close>, to the depth \<open>d\<close>; \<open>reg\<close> is the registration of one subfunction. \<open>None\<close> is
  a program that does not compile: there is no macro of that number, or it takes another number of arguments.
\<close>

fun read_dtc_expand :: "nat \<Rightarrow> (u8 \<Rightarrow> 'r) \<Rightarrow> nat \<Rightarrow> u8 list \<Rightarrow> 'r list option" where
  "read_dtc_expand 0 reg n ss = None"
| "read_dtc_expand (Suc d) reg n ss =
     (if n = 0 then (case ss of [s] \<Rightarrow> Some [reg s] | _ \<Rightarrow> None)
      else
        (case map_of read_dtc_apply_macros n of
           None \<Rightarrow> None
         | Some body \<Rightarrow>
             if length ss \<noteq> n then None
             else map_option concat (those (map (\<lambda>(m, args). read_dtc_expand d reg m (map (\<lambda>j. ss ! (j - 1)) args)) body))))"

text \<open>The dispatcher pastes the number to the name of the macro; no expansion is nested deeper than 25 macros.\<close>

definition read_dtc_apply_dispatch ::
  "nat \<Rightarrow> inst option \<Rightarrow> 'u check_fn option \<Rightarrow> 'u action_fn option \<Rightarrow> addr option \<Rightarrow> u8 list \<Rightarrow> 'u uds_registration_t list option" where
  "read_dtc_apply_dispatch n i k a c ss = read_dtc_expand 25 (\<lambda>s. UDS_REGISTER_READ_DTC_INFO_HANDLER i k a s c) n ss"

text \<open>
  \<^verbatim>\<open>_UDS_VA_NARGS\<close>: the 25th of its arguments followed by the numbers from 24 down to 1. With more than 24 arguments this is one of
  them, and there is no macro with that name; no argument at all is one empty argument, which does not compile either.
\<close>

definition va_nargs :: "'a list \<Rightarrow> nat option" where
  "va_nargs args =
     (if args = [] then None
      else
        (case (map Inl args @ map Inr [24, 23, 22, 21, 20, 19, 18, 17, 16, 15, 14, 13, 12, 11, 10, 9, 8, 7, 6, 5, 4, 3, 2, 1]) ! 24 of
           Inl _ \<Rightarrow> None
         | Inr n \<Rightarrow> Some n))"

definition UDS_REGISTER_READ_DTC_INFO_HANDLER_MANY ::
  "inst option \<Rightarrow> 'u check_fn option \<Rightarrow> 'u action_fn option \<Rightarrow> addr option \<Rightarrow> u8 list \<Rightarrow> 'u uds_registration_t list option" where
  "UDS_REGISTER_READ_DTC_INFO_HANDLER_MANY i check act ctx ss =
     (case va_nargs ss of None \<Rightarrow> None | Some n \<Rightarrow> read_dtc_apply_dispatch n i check act ctx ss)"

definition UDS_REGISTER_READ_DTC_INFO_HANDLER_ALL ::
  "inst option \<Rightarrow> 'u check_fn option \<Rightarrow> 'u action_fn option \<Rightarrow> addr option \<Rightarrow> 'u uds_registration_t list option" where
  "UDS_REGISTER_READ_DTC_INFO_HANDLER_ALL i check act ctx =
     read_dtc_apply_dispatch 24 i check act ctx
       [0x01, 0x02, 0x03, 0x04, 0x05, 0x06, 0x07, 0x08, 0x09,
        0x0A, 0x0B, 0x0C, 0x0D, 0x0E, 0x14, 0x15, 0x16, 0x17,
        0x18, 0x19, 0x1A, 0x42, 0x55, 0x56]"

definition UDS_REGISTER_MEMORY_HANDLER ::
  "inst option \<Rightarrow> 'u check_fn option \<Rightarrow> 'u action_fn option \<Rightarrow> 'u check_fn option \<Rightarrow> 'u action_fn option \<Rightarrow>
   addr option \<Rightarrow> 'u uds_registration_t" where
  "UDS_REGISTER_MEMORY_HANDLER i read_check read_act write_check write_act ctx =
     static_reg i (Reg_memory ctx (actor read_check read_act) (actor write_check write_act))"

definition UDS_REGISTER_MEMORY_DEFAULT_HANDLER :: "inst option \<Rightarrow> 'u uds_registration_t" where
  "UDS_REGISTER_MEMORY_DEFAULT_HANDLER i =
     UDS_REGISTER_MEMORY_HANDLER i (Some Fn_check_default_memory_by_addr_read) (Some Fn_action_default_memory_by_addr_read)
       (Some Fn_check_default_memory_by_addr_write) (Some Fn_action_default_memory_by_addr_write) None"

definition UDS_REGISTER_ECU_RESET_HANDLER ::
  "inst option \<Rightarrow> u8 \<Rightarrow> 'u check_fn option \<Rightarrow> 'u action_fn option \<Rightarrow> 'u check_fn option \<Rightarrow> 'u action_fn option \<Rightarrow>
   addr option \<Rightarrow> 'u uds_registration_t" where
  "UDS_REGISTER_ECU_RESET_HANDLER i reset_type reset_check reset_act scheduled_check scheduled_act ctx =
     static_reg i (Reg_ecu_reset ctx (actor reset_check reset_act) (actor scheduled_check scheduled_act) reset_type)"

definition UDS_REGISTER_ECU_DEFAULT_HARD_RESET_HANDLER :: "inst option \<Rightarrow> 'u uds_registration_t" where
  "UDS_REGISTER_ECU_DEFAULT_HARD_RESET_HANDLER i =
     UDS_REGISTER_ECU_RESET_HANDLER i (ecu_reset_val ECU_RESET__HARD)
       (Some Fn_check_ecu_hard_reset) (Some Fn_action_ecu_hard_reset)
       (Some Fn_check_execute_scheduled_reset) (Some Fn_action_execute_scheduled_reset) None"

definition UDS_REGISTER_DATA_BY_IDENTIFIER_HANDLER ::
  "inst option \<Rightarrow> u16 \<Rightarrow> addr option \<Rightarrow> 'u check_fn option \<Rightarrow> 'u action_fn option \<Rightarrow> 'u check_fn option \<Rightarrow>
   'u action_fn option \<Rightarrow> 'u check_fn option \<Rightarrow> 'u action_fn option \<Rightarrow> addr option \<Rightarrow> 'u uds_registration_t" where
  "UDS_REGISTER_DATA_BY_IDENTIFIER_HANDLER i data_id data_ptr read_check read_act write_check write_act
       io_control_check io_control ctx =
     static_reg i (Reg_data_identifier ctx data_ptr data_id (actor read_check read_act)
       (actor write_check write_act) (actor io_control_check io_control))"

definition UDS_REGISTER_DIAG_SESSION_CTRL_HANDLER ::
  "inst option \<Rightarrow> 'u check_fn option \<Rightarrow> 'u action_fn option \<Rightarrow> 'u check_fn option \<Rightarrow> 'u action_fn option \<Rightarrow>
   addr option \<Rightarrow> 'u uds_registration_t" where
  "UDS_REGISTER_DIAG_SESSION_CTRL_HANDLER i ctrl_check ctrl_act timeout_check timeout_act ctx =
     static_reg i (Reg_diag_session_ctrl ctx (actor ctrl_check ctrl_act) (actor timeout_check timeout_act))"

definition UDS_REGISTER_CLEAR_DIAG_INFO_HANDLER ::
  "inst option \<Rightarrow> 'u check_fn option \<Rightarrow> 'u action_fn option \<Rightarrow> addr option \<Rightarrow> 'u uds_registration_t" where
  "UDS_REGISTER_CLEAR_DIAG_INFO_HANDLER i check act ctx =
     static_reg i (Reg_clear_diagnostic_information ctx (actor check act))"

definition UDS_REGISTER_ROUTINE_CONTROL_HANDLER ::
  "inst option \<Rightarrow> u16 \<Rightarrow> 'u check_fn option \<Rightarrow> 'u action_fn option \<Rightarrow> addr option \<Rightarrow> 'u uds_registration_t" where
  "UDS_REGISTER_ROUTINE_CONTROL_HANDLER i rid check act ctx =
     static_reg i (Reg_routine_control ctx rid (actor check act))"

definition UDS_REGISTER_SECURITY_ACCESS_HANDLER ::
  "inst option \<Rightarrow> 'u check_fn option \<Rightarrow> 'u action_fn option \<Rightarrow> 'u check_fn option \<Rightarrow> 'u action_fn option \<Rightarrow>
   addr option \<Rightarrow> 'u uds_registration_t" where
  "UDS_REGISTER_SECURITY_ACCESS_HANDLER i seed_check seed_act key_check key_act ctx =
     static_reg i (Reg_security_access ctx (actor seed_check seed_act) (actor key_check key_act))"

definition UDS_REGISTER_COMMUNICATION_CONTROL_HANDLER ::
  "inst option \<Rightarrow> 'u check_fn option \<Rightarrow> 'u action_fn option \<Rightarrow> addr option \<Rightarrow> 'u uds_registration_t" where
  "UDS_REGISTER_COMMUNICATION_CONTROL_HANDLER i check act ctx =
     static_reg i (Reg_communication_control ctx (actor check act))"

definition UDS_REGISTER_CONTROL_DTC_SETTING_HANDLER ::
  "inst option \<Rightarrow> 'u check_fn option \<Rightarrow> 'u action_fn option \<Rightarrow> addr option \<Rightarrow> 'u uds_registration_t" where
  "UDS_REGISTER_CONTROL_DTC_SETTING_HANDLER i check act ctx =
     static_reg i (Reg_control_dtc_setting ctx (actor check act))"

definition UDS_REGISTER_DYNAMICALLY_DEFINE_DATA_IDS_HANDLER ::
  "inst option \<Rightarrow> 'u check_fn option \<Rightarrow> 'u action_fn option \<Rightarrow> addr option \<Rightarrow> 'u uds_registration_t" where
  "UDS_REGISTER_DYNAMICALLY_DEFINE_DATA_IDS_HANDLER i check act ctx =
     static_reg i (Reg_dynamically_define_data_ids ctx [] (actor check act))"

definition UDS_REGISTER_DYNAMICALLY_DEFINE_DATA_IDS_DEFAULT_HANDLER :: "inst option \<Rightarrow> 'u uds_registration_t" where
  "UDS_REGISTER_DYNAMICALLY_DEFINE_DATA_IDS_DEFAULT_HANDLER i =
     UDS_REGISTER_DYNAMICALLY_DEFINE_DATA_IDS_HANDLER i (Some Fn_check_default_dynamically_define_data_ids)
       (Some Fn_action_default_dynamically_define_data_ids) None"

definition UDS_REGISTER_AUTHENTICATION_HANDLER ::
  "inst option \<Rightarrow> 'u check_fn option \<Rightarrow> 'u action_fn option \<Rightarrow> 'u check_fn option \<Rightarrow> 'u action_fn option \<Rightarrow>
   addr option \<Rightarrow> 'u uds_registration_t" where
  "UDS_REGISTER_AUTHENTICATION_HANDLER i check act timeout_check timeout_act ctx =
     static_reg i (Reg_auth ctx (actor check act) (actor timeout_check timeout_act))"

definition UDS_REGISTER_LINK_CONTROL_HANDLER ::
  "inst option \<Rightarrow> 'u check_fn option \<Rightarrow> 'u action_fn option \<Rightarrow> addr option \<Rightarrow> 'u uds_registration_t" where
  "UDS_REGISTER_LINK_CONTROL_HANDLER i check act ctx = static_reg i (Reg_link_control ctx (actor check act))"

definition UDS_REGISTER_LINK_CONTROL_DEFAULT_HANDLER :: "inst option \<Rightarrow> 'u uds_registration_t list" where
  "UDS_REGISTER_LINK_CONTROL_DEFAULT_HANDLER i =
     [UDS_REGISTER_LINK_CONTROL_HANDLER i (Some Fn_check_default_link_control) (Some Fn_action_default_link_control) None,
      UDS_REGISTER_DIAG_SESSION_CTRL_HANDLER i
        (Some Fn_check_default_link_control_change_diag_session) (Some Fn_action_default_link_control_change_diag_session)
        (Some Fn_check_default_link_control_change_diag_session) (Some Fn_action_default_link_control_change_diag_session) None]"

lemmas single_reg_defs = static_reg_def actor_def
  UDS_REGISTER_READ_DTC_INFO_HANDLER_def UDS_REGISTER_MEMORY_HANDLER_def UDS_REGISTER_MEMORY_DEFAULT_HANDLER_def
  UDS_REGISTER_ECU_RESET_HANDLER_def UDS_REGISTER_ECU_DEFAULT_HARD_RESET_HANDLER_def
  UDS_REGISTER_DATA_BY_IDENTIFIER_HANDLER_def UDS_REGISTER_DIAG_SESSION_CTRL_HANDLER_def
  UDS_REGISTER_CLEAR_DIAG_INFO_HANDLER_def UDS_REGISTER_ROUTINE_CONTROL_HANDLER_def
  UDS_REGISTER_SECURITY_ACCESS_HANDLER_def UDS_REGISTER_COMMUNICATION_CONTROL_HANDLER_def
  UDS_REGISTER_CONTROL_DTC_SETTING_HANDLER_def UDS_REGISTER_DYNAMICALLY_DEFINE_DATA_IDS_HANDLER_def
  UDS_REGISTER_DYNAMICALLY_DEFINE_DATA_IDS_DEFAULT_HANDLER_def UDS_REGISTER_AUTHENTICATION_HANDLER_def
  UDS_REGISTER_LINK_CONTROL_HANDLER_def

section \<open>Lemmas\<close>

text \<open>Each macro calls the one before it with all subfunctions but the last, and the first one with the last.\<close>

lemma macro_bodies: "\<forall>n \<in> {2..24}. map_of read_dtc_apply_macros n = Some [(n - 1, [1..<n]), (1, [n])]"
  by code_simp

lemma macro_first: "map_of read_dtc_apply_macros 1 = Some [(0, [1])]"
  by (simp add: read_dtc_apply_macros_def)

lemma macro_none: "24 < n \<Longrightarrow> map_of read_dtc_apply_macros n = None"
  by (simp add: read_dtc_apply_macros_def)

lemma expand_one: "length ss = 1 \<Longrightarrow> read_dtc_expand (Suc (Suc d)) reg 1 ss = Some (map reg ss)"
  by (cases ss) (simp_all add: macro_first [unfolded One_nat_def])

lemma expand_macro:
  assumes "1 \<le> n" and "n \<le> 24" and "n < d"
  shows "length ss = n \<Longrightarrow> read_dtc_expand d reg n ss = Some (map reg ss)"
  using assms
proof (induction n arbitrary: d ss rule: nat_induct_at_least)
  case base
  then obtain d' where "d = Suc (Suc d')" by (metis Suc_lessE One_nat_def less_nat_zero_code not0_implies_Suc)
  then show ?case using expand_one base by simp
next
  case (Suc n)
  then obtain d' where d: "d = Suc (Suc d')" "n < Suc d'" by (metis Suc_lessE Suc_less_eq less_nat_zero_code not0_implies_Suc)
  have body: "map_of read_dtc_apply_macros (Suc n) = Some [(n, [1..<Suc n]), (1, [Suc n])]"
    using macro_bodies Suc.hyps Suc.prems by auto
  have ss: "ss = take n ss @ [ss ! n]" using Suc.prems by (metis lessI take_Suc_conv_app_nth take_all order_refl)
  have init: "map (\<lambda>j. ss ! (j - 1)) [1..<Suc n] = take n ss" using Suc.prems by (intro nth_equalityI) (auto simp del: upt_Suc)
  have "read_dtc_expand (Suc d') reg n (take n ss) = Some (map reg (take n ss))" using Suc d by (intro Suc.IH) auto
  moreover obtain d2 where "d' = Suc d2" using d(2) Suc.hyps by (cases d') auto
  then have "read_dtc_expand (Suc d') reg 1 [ss ! n] = Some [reg (ss ! n)]" using expand_one [of "[ss ! n]" d2 reg] by simp
  moreover have "read_dtc_expand d reg (Suc n) ss = map_option concat (those
      [read_dtc_expand (Suc d') reg n (map (\<lambda>j. ss ! (j - 1)) [1..<Suc n]), read_dtc_expand (Suc d') reg 1 [ss ! n]])"
    unfolding d(1) read_dtc_expand.simps(2) [of "Suc d'"] body using Suc.prems by (simp del: read_dtc_expand.simps upt_Suc)
  ultimately have "read_dtc_expand d reg (Suc n) ss = Some (map reg (take n ss) @ [reg (ss ! n)])"
    unfolding init by (simp del: read_dtc_expand.simps)
  then show ?case using ss by (metis list.simps(8,9) map_append)
qed

lemma va_nargs_eq: "va_nargs args = (if 1 \<le> length args \<and> length args \<le> 24 then Some (length args) else None)"
proof (cases "1 \<le> length args \<and> length args \<le> 24")
  case True
  define ns where "ns = [24, 23, 22, 21, 20, 19, 18, 17, 16, 15, 14, 13, 12, 11, 10, 9, 8, 7, 6, 5, 4, 3, 2, 1 :: nat]"
  have "\<forall>k \<in> {1..24}. [24, 23, 22, 21, 20, 19, 18, 17, 16, 15, 14, 13, 12, 11, 10, 9, 8, 7, 6, 5, 4, 3, 2, 1 :: nat] ! (24 - k) = k"
    by code_simp
  then have "ns ! (24 - length args) = length args" using True by (simp add: ns_def)
  moreover have "length ns = 24" by (simp add: ns_def)
  ultimately have "(map Inl args @ map Inr ns) ! 24 = Inr (length args)" using True by (auto simp: nth_append)
  moreover have "args \<noteq> []" using True by auto
  ultimately show ?thesis unfolding va_nargs_def ns_def [symmetric] using True by simp
next
  case False
  then have "args = [] \<or> 24 < length args" by (cases args) auto
  then show ?thesis using False by (auto simp: va_nargs_def nth_append)
qed


end
