(* ===== verification/Msgq.thy ===== *)
theory Msgq
  imports Prelude
begin

text \<open>
  The message queues of the Zephyr kernel, which the UDS glue, the LIN-to-CAN driver and the hardware test programs use. The
  kernel is not part of the program: its two operations are arguments of the definitions that call them, and what the code
  relies on is a hypothesis of the theorems. The state of a queue is the list of the messages it holds, the oldest one first.
\<close>

text \<open>
  \<open>k_msgq_put\<close> gets the number of messages the queue was made for, the message and the queue; \<open>k_msgq_get\<close> is \<open>None\<close> where the
  kernel returns an error. Both are the calls without waiting; a call with \<^verbatim>\<open>K_FOREVER\<close> returns at the first moment at which
  the call without waiting succeeds.
\<close>

record 'a msgq_ops =
  k_msgq_put :: "nat \<Rightarrow> 'a \<Rightarrow> 'a list \<Rightarrow> c_int \<times> 'a list"
  k_msgq_get :: "'a list \<Rightarrow> ('a \<times> 'a list) option"

text \<open>
  The documented behaviour: a message is added behind the others when there is room and otherwise refused, with an error
  and without any change; the oldest message is taken out, and there is an error when there is none.
\<close>

definition msgq_contract :: "'a msgq_ops \<Rightarrow> bool" where
  "msgq_contract mq \<longleftrightarrow>
     (\<forall>n m q. length q < n \<longrightarrow> k_msgq_put mq n m q = (rc0, q @ [m])) \<and>
     (\<forall>n m q. n \<le> length q \<longrightarrow> fst (k_msgq_put mq n m q) \<noteq> rc0 \<and> snd (k_msgq_put mq n m q) = q) \<and>
     k_msgq_get mq [] = None \<and> (\<forall>m q. k_msgq_get mq (m # q) = Some (m, q))"

lemma msgq_get_iff:
  assumes "msgq_contract mq"
  shows "k_msgq_get mq q = None \<longleftrightarrow> q = []" and "k_msgq_get mq q = Some (m, q') \<longleftrightarrow> q = m # q'"
  using assms unfolding msgq_contract_def by (cases q; auto)+

lemma msgq_put_iff:
  assumes "msgq_contract mq"
  shows "fst (k_msgq_put mq n m q) = rc0 \<longleftrightarrow> length q < n"
    and "snd (k_msgq_put mq n m q) = (if length q < n then q @ [m] else q)"
  using assms unfolding msgq_contract_def by (cases "length q < n"; auto)+

lemma msgq_putD:
  assumes "msgq_contract mq" and "k_msgq_put mq n m q = (rc0, q')"
  shows "q' = q @ [m]"
  using msgq_put_iff [OF assms(1), of n m q] assms(2) by (simp split: if_splits)

text \<open>The two forms in which the calls appear in the code.\<close>

lemma msgq_case:
  assumes "msgq_contract mq"
  shows "(case k_msgq_put mq n m q of (err, q') \<Rightarrow> if err = rc0 then f q' else g) = (if length q < n then f (q @ [m]) else g)"
    and "(case k_msgq_get mq q of None \<Rightarrow> a | Some (m, q') \<Rightarrow> b m q') = (case q of [] \<Rightarrow> a | m # q' \<Rightarrow> b m q')"
  using msgq_put_iff [OF assms, of n m q] assms by (auto simp: msgq_contract_def split: prod.splits list.splits)

text \<open>A queue as the contract describes it, for concrete runs.\<close>

definition demo_msgq :: "'a msgq_ops" where
  "demo_msgq = \<lparr>k_msgq_put = \<lambda>n m q. if length q < n then (rc0, q @ [m]) else (Inl ENOMSG, q),
     k_msgq_get = \<lambda>q. case q of [] \<Rightarrow> None | m # q \<Rightarrow> Some (m, q)\<rparr>"

lemma demo_msgq_contract [simp]: "msgq_contract demo_msgq"
  by (simp add: msgq_contract_def demo_msgq_def)

end
