(* ===== verification/Iso14229.thy ===== *)
theory Iso14229
  imports Uds_Types Msgq
begin

text \<open>
  The glue between Zephyr and the iso14229 package (\<^verbatim>\<open>lib/iso14229/iso14229_common.c\<close>): the two
  message queues between the CAN receive interrupt and the server, the event loop, its thread, and
  the initialisation of an instance. The package and Zephyr, its message queues included, are arguments (\<open>iso14229_ops\<close>); \<open>'s\<close> is
  the state of the package (server and ISO-TP links) together with all that its event callback
  changes, \<open>'d\<close> the state of the CAN device and the kernel. The section on interleaving makes the
  receive interrupt, the thread and its clients steps of one system.
\<close>

section \<open>Data\<close>

record can_frame =
  frame_id :: u32
  frame_dlc :: u8
  frame_data :: "u8 list"

text \<open>The addresses of an instance: \<^verbatim>\<open>UDSISOTpCConfig_t\<close>, and as \<open>phys_sa\<close>, \<open>phys_ta\<close>, \<open>func_sa\<close> and
  \<open>func_ta\<close> members of \<^verbatim>\<open>UDSISOTpC_t\<close>.\<close>

record isotp_config =
  source_addr :: u32
  target_addr :: u32
  source_addr_func :: u32
  target_addr_func :: u32

datatype rx_queue = Phys | Func

text \<open>
  \<open>'cb\<close> is the type of the event callbacks. The members that are function pointers are set to
  fixed functions; the model keeps whether they are set, a call through one that is not is undefined.
\<close>

record ('cb, 's) iso14229_zephyr_instance =
  iso_server :: 's
  iso_tp :: isotp_config
  can_phys_msgq :: "can_frame list"
  can_func_msgq :: "can_frame list"
  event_callback :: "'cb option"
  iso_user_context :: "inst option"
  thread_id :: "nat option"
  thread_running :: bool
  thread_stop_requested :: bool
  has_set_callback :: bool
  has_event_loop_tick :: bool
  has_thread_start :: bool
  has_thread_stop :: bool

type_synonym 's event_sem = "UDSEvent_t \<Rightarrow> uds_arg \<Rightarrow> 's \<Rightarrow> (UDSErr_t \<times> uds_arg, 's) outcome"

record ('s, 'd) iso14229_ops =
  UDSServerInit :: "'s \<Rightarrow> 's"
  UDSISOTpCInit :: "isotp_config \<Rightarrow> 's \<Rightarrow> isotp_config \<times> 's"
  isotp_on_can_message :: "rx_queue \<Rightarrow> u8 list \<Rightarrow> u8 \<Rightarrow> 's \<Rightarrow> 's"
  UDSServerPoll :: "'s event_sem \<Rightarrow> 's \<Rightarrow> (unit, 's) outcome"
  UDS_TP_NOOP_ADDR :: u32
  rx_msgq :: "can_frame msgq_ops"
  CAN_STD_ID_MASK :: u32
  k_mutex_init :: "'d \<Rightarrow> c_int \<times> 'd"
  k_thread_create :: "'d \<Rightarrow> nat option \<times> 'd"
  can_add_rx_filter :: "rx_queue \<Rightarrow> u32 \<Rightarrow> u32 \<Rightarrow> 'd \<Rightarrow> c_int \<times> 'd"

section \<open>Callback and queues\<close>

text \<open>The function the package calls; without a callback every event is answered with \<open>UDS_OK\<close>.\<close>

definition uds_cb ::
  "('cb \<Rightarrow> inst option \<Rightarrow> 's event_sem) \<Rightarrow> ('cb, 's) iso14229_zephyr_instance \<Rightarrow> 's event_sem" where
  "uds_cb call i event arg s =
     (case event_callback i of
        Some cb \<Rightarrow> call cb (iso_user_context i) event arg s
      | None \<Rightarrow> Returns (UDS_OK, arg) s)"

text \<open>Both queues have room for 25 frames: the size of their buffers.\<close>

definition MSGQ_FRAMES :: nat where
  "MSGQ_FRAMES = 25"

fun msgq :: "rx_queue \<Rightarrow> ('cb, 's) iso14229_zephyr_instance \<Rightarrow> can_frame list" where
  "msgq Phys i = can_phys_msgq i"
| "msgq Func i = can_func_msgq i"

fun set_msgq :: "rx_queue \<Rightarrow> can_frame list \<Rightarrow> ('cb, 's) iso14229_zephyr_instance \<Rightarrow> ('cb, 's) iso14229_zephyr_instance" where
  "set_msgq Phys q i = i\<lparr>can_phys_msgq := q\<rparr>"
| "set_msgq Func q i = i\<lparr>can_func_msgq := q\<rparr>"

text \<open>The receive callback, registered with one of the queues; a frame that is refused is dropped.\<close>

definition can_rx_cb ::
  "can_frame msgq_ops \<Rightarrow> rx_queue \<Rightarrow> can_frame \<Rightarrow> ('cb, 's) iso14229_zephyr_instance \<Rightarrow> ('cb, 's) iso14229_zephyr_instance" where
  "can_rx_cb mq q frame i = set_msgq q (snd (k_msgq_put mq MSGQ_FRAMES frame (msgq q i))) i"

definition iso14229_inject_can_frame_rx ::
  "can_frame msgq_ops \<Rightarrow> can_frame \<Rightarrow> bool \<Rightarrow> ('cb, 's) iso14229_zephyr_instance \<Rightarrow> can_frame \<times> ('cb, 's) iso14229_zephyr_instance" where
  "iso14229_inject_can_frame_rx mq frame functional_address i =
     (let frame = frame\<lparr>frame_id := (if functional_address then source_addr_func (iso_tp i) else source_addr (iso_tp i))\<rparr>
      in (frame, can_rx_cb mq Phys frame i))"

definition iso14229_zephyr_set_callback ::
  "'cb option \<Rightarrow> ('cb, 's) iso14229_zephyr_instance \<Rightarrow> c_int \<times> ('cb, 's) iso14229_zephyr_instance" where
  "iso14229_zephyr_set_callback callback i = (rc0, i\<lparr>event_callback := callback\<rparr>)"

section \<open>The event loop\<close>

text \<open>
  One loop of the tick: frames are taken from the queue, and each is given to the link of the queue, until the
  queue has none; \<open>None\<close> is a loop that does not end.
\<close>

partial_function (option) drain ::
  "('s, 'd) iso14229_ops \<Rightarrow> rx_queue \<Rightarrow> can_frame list \<Rightarrow> 's \<Rightarrow> (can_frame list \<times> 's) option" where
  "drain ops q fs s =
     (case k_msgq_get (rx_msgq ops) fs of
        None \<Rightarrow> Some (fs, s)
      | Some (f, fs) \<Rightarrow> drain ops q fs (isotp_on_can_message ops q (frame_data f) (frame_dlc f) s))"

definition iso14229_zephyr_event_loop_tick ::
  "('s, 'd) iso14229_ops \<Rightarrow> ('cb \<Rightarrow> inst option \<Rightarrow> 's event_sem) \<Rightarrow> ('cb, 's) iso14229_zephyr_instance \<Rightarrow>
   (unit, ('cb, 's) iso14229_zephyr_instance) outcome" where
  "iso14229_zephyr_event_loop_tick ops call i =
     (case drain ops Phys (can_phys_msgq i) (iso_server i) of
        None \<Rightarrow> NoFuel
      | Some (fs, s) \<Rightarrow>
          let i = i\<lparr>iso_server := s, can_phys_msgq := fs\<rparr> in
          (case drain ops Func (can_func_msgq i) (iso_server i) of
             None \<Rightarrow> NoFuel
           | Some (fs, s) \<Rightarrow>
               let i = i\<lparr>iso_server := s, can_func_msgq := fs\<rparr> in
               omap_state (\<lambda>s. i\<lparr>iso_server := s\<rparr>) (UDSServerPoll ops (uds_cb call i) (iso_server i))))"

section \<open>The thread\<close>

definition iso14229_zephyr_thread_start ::
  "('s, 'd) iso14229_ops \<Rightarrow> ('cb, 's) iso14229_zephyr_instance \<Rightarrow> 'd \<Rightarrow> c_int \<times> ('cb, 's) iso14229_zephyr_instance \<times> 'd" where
  "iso14229_zephyr_thread_start ops i d =
     (if thread_running i then (Inl EALREADY, i, d)
      else
        (let i = i\<lparr>thread_stop_requested := False\<rparr> in
         case k_thread_create ops d of
           (None, d) \<Rightarrow> (Inl ENOMEM, i\<lparr>thread_id := None\<rparr>, d)
         | (Some t, d) \<Rightarrow> (rc0, i\<lparr>thread_id := Some t, thread_running := True\<rparr>, d)))"

text \<open>The part of \<^verbatim>\<open>iso14229_zephyr_thread_stop\<close> before it waits: \<open>None\<close> is that it goes on to wait.\<close>

definition iso14229_zephyr_thread_stop ::
  "('cb, 's) iso14229_zephyr_instance \<Rightarrow> c_int option \<times> ('cb, 's) iso14229_zephyr_instance" where
  "iso14229_zephyr_thread_stop i =
     (if \<not> thread_running i then (Some (Inl EALREADY), i) else (None, i\<lparr>thread_stop_requested := True\<rparr>))"

section \<open>Initialisation\<close>

definition iso14229_zephyr_init ::
  "('s, 'd) iso14229_ops \<Rightarrow> isotp_config \<Rightarrow> inst option \<Rightarrow> ('cb, 's) iso14229_zephyr_instance \<Rightarrow> 'd \<Rightarrow>
   c_int \<times> ('cb, 's) iso14229_zephyr_instance \<times> 'd" where
  "iso14229_zephyr_init ops cfg user_context i d =
     (let i = i\<lparr>iso_user_context := user_context, has_set_callback := True\<rparr> in
      case k_mutex_init ops d of (ret, d) \<Rightarrow>
      if ret \<noteq> rc0 then (ret, i, d)
      else
        (let i = i\<lparr>can_phys_msgq := [], can_func_msgq := []\<rparr>;
             i = i\<lparr>iso_server := UDSServerInit ops (iso_server i)\<rparr>;
             i = (case UDSISOTpCInit ops cfg (iso_server i) of (tp, s) \<Rightarrow> i\<lparr>iso_tp := tp, iso_server := s\<rparr>)
         in case can_add_rx_filter ops Phys (source_addr (iso_tp i)) (CAN_STD_ID_MASK ops) d of (err, d) \<Rightarrow>
         if rc_neg err then (err, i, d)
         else
           (case (if source_addr_func (iso_tp i) \<noteq> UDS_TP_NOOP_ADDR ops
                  then can_add_rx_filter ops Func (source_addr_func (iso_tp i)) (CAN_STD_ID_MASK ops) d
                  else (err, d)) of (err, d) \<Rightarrow>
            if rc_neg err then (err, i, d)
            else
              (let i = i\<lparr>has_event_loop_tick := True, has_thread_start := True, has_thread_stop := True\<rparr> in
               case k_mutex_init ops d of (ret, d) \<Rightarrow>
               if ret \<noteq> rc0 then (ret, i, d)
               else (rc0, i\<lparr>thread_running := False, thread_stop_requested := False\<rparr>, d)))))"

section \<open>Interleaving\<close>

text \<open>
  The thread runs the loop of \<^verbatim>\<open>iso14229_thread_entry\<close>, one point of the program at a time. Between
  any two of its steps frames may arrive, and clients may call start and stop. Both calls, and the
  block at the end of the thread, run under the mutex of the instance, so each is one step. A client
  in \<^verbatim>\<open>k_thread_join\<close> waits for the end of the thread; at most \<open>m\<close> clients make calls at a time.
\<close>

datatype thread_pc =
    No_thread | Test_stop | Drain_phys | Drain_func | Poll | Sleep | Finish | Unlocking | Terminated

record ('cb, 's, 'd) iso_system =
  sys_inst :: "('cb, 's) iso14229_zephyr_instance"
  sys_dev :: 'd
  sys_pc :: thread_pc
  sys_joining :: nat

datatype iso_label =
    Accepted rx_queue can_frame | Dropped rx_queue can_frame | Handled rx_queue can_frame
  | Polled | Thread_moves | Start_returns c_int thread_pc | Stop_returns c_int | Stop_waits

inductive thread_step ::
  "('s, 'd) iso14229_ops \<Rightarrow> ('cb \<Rightarrow> inst option \<Rightarrow> 's event_sem) \<Rightarrow>
   ('cb, 's, 'd) iso_system \<Rightarrow> iso_label \<Rightarrow> ('cb, 's, 'd) iso_system \<Rightarrow> bool"
  for ops call where
  stop_seen: "sys_pc y = Test_stop \<Longrightarrow> thread_stop_requested (sys_inst y) \<Longrightarrow>
    thread_step ops call y Thread_moves (y\<lparr>sys_pc := Finish\<rparr>)"
| loop_on: "sys_pc y = Test_stop \<Longrightarrow> \<not> thread_stop_requested (sys_inst y) \<Longrightarrow>
    thread_step ops call y Thread_moves (y\<lparr>sys_pc := Drain_phys\<rparr>)"
| phys_frame: "sys_pc y = Drain_phys \<Longrightarrow> k_msgq_get (rx_msgq ops) (can_phys_msgq (sys_inst y)) = Some (f, fs) \<Longrightarrow>
    thread_step ops call y (Handled Phys f) (y\<lparr>sys_inst := (sys_inst y)\<lparr>can_phys_msgq := fs,
      iso_server := isotp_on_can_message ops Phys (frame_data f) (frame_dlc f) (iso_server (sys_inst y))\<rparr>\<rparr>)"
| phys_empty: "sys_pc y = Drain_phys \<Longrightarrow> k_msgq_get (rx_msgq ops) (can_phys_msgq (sys_inst y)) = None \<Longrightarrow>
    thread_step ops call y Thread_moves (y\<lparr>sys_pc := Drain_func\<rparr>)"
| func_frame: "sys_pc y = Drain_func \<Longrightarrow> k_msgq_get (rx_msgq ops) (can_func_msgq (sys_inst y)) = Some (f, fs) \<Longrightarrow>
    thread_step ops call y (Handled Func f) (y\<lparr>sys_inst := (sys_inst y)\<lparr>can_func_msgq := fs,
      iso_server := isotp_on_can_message ops Func (frame_data f) (frame_dlc f) (iso_server (sys_inst y))\<rparr>\<rparr>)"
| func_empty: "sys_pc y = Drain_func \<Longrightarrow> k_msgq_get (rx_msgq ops) (can_func_msgq (sys_inst y)) = None \<Longrightarrow>
    thread_step ops call y Thread_moves (y\<lparr>sys_pc := Poll\<rparr>)"
| poll: "sys_pc y = Poll \<Longrightarrow>
    UDSServerPoll ops (uds_cb call (sys_inst y)) (iso_server (sys_inst y)) = Returns () s \<Longrightarrow>
    thread_step ops call y Polled (y\<lparr>sys_inst := (sys_inst y)\<lparr>iso_server := s\<rparr>, sys_pc := Sleep\<rparr>)"
| wake: "sys_pc y = Sleep \<Longrightarrow> thread_step ops call y Thread_moves (y\<lparr>sys_pc := Test_stop\<rparr>)"
| finish: "sys_pc y = Finish \<Longrightarrow>
    thread_step ops call y Thread_moves (y\<lparr>sys_inst := (sys_inst y)\<lparr>thread_running := False\<rparr>, sys_pc := Unlocking\<rparr>)"
| terminate: "sys_pc y = Unlocking \<Longrightarrow> thread_step ops call y Thread_moves (y\<lparr>sys_pc := Terminated\<rparr>)"

inductive iso_step ::
  "nat \<Rightarrow> ('s, 'd) iso14229_ops \<Rightarrow> ('cb \<Rightarrow> inst option \<Rightarrow> 's event_sem) \<Rightarrow>
   ('cb, 's, 'd) iso_system \<Rightarrow> iso_label \<Rightarrow> ('cb, 's, 'd) iso_system \<Rightarrow> bool"
  for m ops call where
  thread: "thread_step ops call y e y' \<Longrightarrow> iso_step m ops call y e y'"
| receive: "iso_step m ops call y
    (if fst (k_msgq_put (rx_msgq ops) MSGQ_FRAMES f (msgq q (sys_inst y))) = rc0 then Accepted q f else Dropped q f)
    (y\<lparr>sys_inst := can_rx_cb (rx_msgq ops) q f (sys_inst y)\<rparr>)"
| start: "sys_joining y < m \<Longrightarrow> iso14229_zephyr_thread_start ops (sys_inst y) (sys_dev y) = (r, i, d) \<Longrightarrow>
    iso_step m ops call y (Start_returns r (sys_pc y))
      (y\<lparr>sys_inst := i, sys_dev := d, sys_pc := (if r = rc0 then Test_stop else sys_pc y)\<rparr>)"
| stop_refused: "sys_joining y < m \<Longrightarrow> iso14229_zephyr_thread_stop (sys_inst y) = (Some r, i) \<Longrightarrow>
    iso_step m ops call y (Stop_returns r) (y\<lparr>sys_inst := i\<rparr>)"
| stop_waits: "sys_joining y < m \<Longrightarrow> iso14229_zephyr_thread_stop (sys_inst y) = (None, i) \<Longrightarrow>
    iso_step m ops call y Stop_waits (y\<lparr>sys_inst := i, sys_joining := Suc (sys_joining y)\<rparr>)"
| joined: "0 < sys_joining y \<Longrightarrow> sys_pc y = Terminated \<Longrightarrow>
    iso_step m ops call y (Stop_returns rc0) (y\<lparr>sys_joining := sys_joining y - 1\<rparr>)"

inductive iso_run ::
  "nat \<Rightarrow> ('s, 'd) iso14229_ops \<Rightarrow> ('cb \<Rightarrow> inst option \<Rightarrow> 's event_sem) \<Rightarrow>
   ('cb, 's, 'd) iso_system \<Rightarrow> iso_label list \<Rightarrow> ('cb, 's, 'd) iso_system \<Rightarrow> bool"
  for m ops call where
  run_nil: "iso_run m ops call y [] y"
| run_snoc: "iso_run m ops call y es y' \<Longrightarrow> iso_step m ops call y' e y'' \<Longrightarrow> iso_run m ops call y (es @ [e]) y''"

inductive_cases thread_stepE: "thread_step ops call y e y'"
inductive_cases iso_stepE: "iso_step m ops call y e y'"

section \<open>Lemmas\<close>

fun accepted :: "rx_queue \<Rightarrow> iso_label list \<Rightarrow> can_frame list" where
  "accepted q [] = []"
| "accepted q (Accepted q' f # es) = (if q' = q then f # accepted q es else accepted q es)"
| "accepted q (_ # es) = accepted q es"

fun handled :: "rx_queue \<Rightarrow> iso_label list \<Rightarrow> can_frame list" where
  "handled q [] = []"
| "handled q (Handled q' f # es) = (if q' = q then f # handled q es else handled q es)"
| "handled q (_ # es) = handled q es"

lemma accepted_append [simp]: "accepted q (es @ es') = accepted q es @ accepted q es'"
  by (induction q es rule: accepted.induct) auto

lemma handled_append [simp]: "handled q (es @ es') = handled q es @ handled q es'"
  by (induction q es rule: handled.induct) auto

lemma msgq_set [simp]: "msgq q (set_msgq q' fs i) = (if q' = q then fs else msgq q i)"
  by (cases q; cases q') auto

lemma msgq_upd [simp]:
  "msgq q (i\<lparr>iso_server := s\<rparr>) = msgq q i" "msgq q (i\<lparr>thread_running := b\<rparr>) = msgq q i"
  "msgq q (i\<lparr>thread_stop_requested := b\<rparr>) = msgq q i" "msgq q (i\<lparr>thread_id := t\<rparr>) = msgq q i"
  by (cases q; simp)+

lemma msgq_start:
  "iso14229_zephyr_thread_start ops i d = (r, i', d') \<Longrightarrow> msgq q i' = msgq q i"
  by (auto simp: iso14229_zephyr_thread_start_def Let_def split: if_splits prod.splits option.splits)

lemma msgq_stop: "iso14229_zephyr_thread_stop i = (r, i') \<Longrightarrow> msgq q i' = msgq q i"
  by (auto simp: iso14229_zephyr_thread_stop_def split: if_splits)

text \<open>A step moves frames only from arrival to the end, and from the front to the package.\<close>

lemma thread_step_frames:
  assumes "msgq_contract (rx_msgq ops)"
  shows "thread_step ops call y e y' \<Longrightarrow> msgq q (sys_inst y) = handled q [e] @ msgq q (sys_inst y') \<and> accepted q [e] = []"
  by (cases q) (erule thread_stepE; simp add: msgq_get_iff [OF assms])+

lemma iso_step_frames:
  assumes mq: "msgq_contract (rx_msgq ops)" and "iso_step m ops call y e y'"
  shows "msgq q (sys_inst y) @ accepted q [e] = handled q [e] @ msgq q (sys_inst y')"
  using assms(2)
proof (rule iso_stepE)
  assume "thread_step ops call y e y'"
  from thread_step_frames [OF mq this, of q] show ?thesis by simp
next
  fix f q'
  assume "e = (if fst (k_msgq_put (rx_msgq ops) MSGQ_FRAMES f (msgq q' (sys_inst y))) = rc0 then Accepted q' f else Dropped q' f)"
    and "y' = y\<lparr>sys_inst := can_rx_cb (rx_msgq ops) q' f (sys_inst y)\<rparr>"
  then show ?thesis by (simp add: can_rx_cb_def msgq_put_iff [OF mq])
qed (auto simp: msgq_start msgq_stop)

lemma iso_run_frames:
  assumes mq: "msgq_contract (rx_msgq ops)"
  shows "iso_run m ops call y es y' \<Longrightarrow> msgq q (sys_inst y) @ accepted q es = handled q es @ msgq q (sys_inst y')"
proof (induction rule: iso_run.induct)
  case (run_snoc y es y' e y'')
  from iso_step_frames [OF mq run_snoc(2), of q] run_snoc.IH show ?case
    by (metis accepted_append append_assoc handled_append)
qed simp

lemma iso_step_arrival:
  assumes mq: "msgq_contract (rx_msgq ops)" and "iso_step m ops call y e y'"
  shows "e = Dropped q f \<Longrightarrow> length (msgq q (sys_inst y)) \<ge> MSGQ_FRAMES"
    and "e = Accepted q f \<Longrightarrow> length (msgq q (sys_inst y)) < MSGQ_FRAMES"
  using assms(2) by (auto elim!: iso_stepE thread_stepE simp: msgq_put_iff [OF mq] split: if_splits)

lemma iso_step_bound:
  assumes mq: "msgq_contract (rx_msgq ops)" and st: "iso_step m ops call y e y'" and "length (msgq q (sys_inst y)) \<le> MSGQ_FRAMES"
  shows "length (msgq q (sys_inst y')) \<le> MSGQ_FRAMES"
proof (cases "accepted q [e]")
  case Nil
  then show ?thesis using iso_step_frames [OF mq st, of q] assms(3)
    by (metis add_leE append_Nil2 length_append)
next
  case (Cons f fs)
  then have e: "e = Accepted q f" by (cases e) (auto split: if_splits)
  with iso_step_frames [OF mq st, of q] have "msgq q (sys_inst y') = msgq q (sys_inst y) @ [f]" by simp
  then show ?thesis using iso_step_arrival(2) [OF mq st e] by simp
qed

lemma iso_run_bound:
  assumes "msgq_contract (rx_msgq ops)"
  shows "iso_run m ops call y es y' \<Longrightarrow> length (msgq q (sys_inst y)) \<le> MSGQ_FRAMES \<Longrightarrow> length (msgq q (sys_inst y')) \<le> MSGQ_FRAMES"
  by (induction rule: iso_run.induct) (auto intro: iso_step_bound [OF assms])

text \<open>
  What a step does to the state of the package: a frame that is handled is given to \<open>isotp_on_can_message\<close>, with the link of
  its queue, and a poll is a call of \<open>UDSServerPoll\<close>; nothing else touches it.
\<close>

fun package_step :: "('s, 'd) iso14229_ops \<Rightarrow> 's event_sem \<Rightarrow> iso_label \<Rightarrow> 's \<Rightarrow> 's" where
  "package_step ops cb (Handled q f) s = isotp_on_can_message ops q (frame_data f) (frame_dlc f) s"
| "package_step ops cb Polled s = (case UDSServerPoll ops cb s of Returns _ s' \<Rightarrow> s' | _ \<Rightarrow> s)"
| "package_step ops cb _ s = s"

lemma uds_cb_frame:
  "event_callback i' = event_callback i \<Longrightarrow> iso_user_context i' = iso_user_context i \<Longrightarrow> uds_cb call i' = uds_cb call i"
  by (intro ext) (simp add: uds_cb_def split: option.splits)

lemma can_rx_cb_package [simp]:
  "iso_server (can_rx_cb mq q f i) = iso_server i" "event_callback (can_rx_cb mq q f i) = event_callback i"
  "iso_user_context (can_rx_cb mq q f i) = iso_user_context i"
  by (cases q; simp add: can_rx_cb_def)+

lemma iso_step_package:
  assumes "iso_step m ops call y e y'"
  shows "iso_server (sys_inst y') = package_step ops (uds_cb call (sys_inst y)) e (iso_server (sys_inst y)) \<and>
    event_callback (sys_inst y') = event_callback (sys_inst y) \<and> iso_user_context (sys_inst y') = iso_user_context (sys_inst y)"
  using assms
proof (rule iso_stepE)
  assume "thread_step ops call y e y'"
  then show ?thesis by (rule thread_stepE) simp_all
qed (auto simp: iso14229_zephyr_thread_start_def iso14229_zephyr_thread_stop_def Let_def split: if_splits prod.splits option.splits)

lemma iso_run_package:
  "iso_run m ops call y es y' \<Longrightarrow>
   iso_server (sys_inst y') = fold (package_step ops (uds_cb call (sys_inst y))) es (iso_server (sys_inst y)) \<and>
   event_callback (sys_inst y') = event_callback (sys_inst y) \<and> iso_user_context (sys_inst y') = iso_user_context (sys_inst y)"
proof (induction rule: iso_run.induct)
  case (run_snoc y es y' e y'')
  from iso_step_package [OF run_snoc(2)] run_snoc.IH show ?case using uds_cb_frame [of "sys_inst y'" "sys_inst y" call] by simp
qed simp

lemma iso_run_split:
  "iso_run m ops call y (es @ e # es') y' \<Longrightarrow> \<exists>y1 y2. iso_run m ops call y es y1 \<and> iso_step m ops call y1 e y2"
proof (induction es' arbitrary: y' rule: rev_induct)
  case Nil
  then show ?case by (cases rule: iso_run.cases) auto
next
  case (snoc e' es')
  from snoc.prems have "\<exists>y1. iso_run m ops call y (es @ e # es') y1"
    by (cases rule: iso_run.cases) auto
  with snoc.IH show ?case by blast
qed

text \<open>The life of the thread, for one client.\<close>

definition thread_alive :: "thread_pc \<Rightarrow> bool" where
  "thread_alive p \<longleftrightarrow> p \<in> {Test_stop, Drain_phys, Drain_func, Poll, Sleep, Finish}"

definition lifecycle_inv :: "('cb, 's, 'd) iso_system \<Rightarrow> bool" where
  "lifecycle_inv y \<longleftrightarrow>
     (thread_running (sys_inst y) \<longleftrightarrow> thread_alive (sys_pc y)) \<and>
     (sys_pc y \<in> {Finish, Unlocking} \<longrightarrow> thread_stop_requested (sys_inst y)) \<and>
     (thread_stop_requested (sys_inst y) \<longrightarrow> sys_pc y \<in> {No_thread, Terminated} \<or> 0 < sys_joining y)"

lemma can_rx_cb_flags [simp]:
  "thread_running (can_rx_cb mq q f i) = thread_running i"
  "thread_stop_requested (can_rx_cb mq q f i) = thread_stop_requested i"
  by (cases q; simp add: can_rx_cb_def)+

lemma thread_step_lifecycle:
  "thread_step ops call y e y' \<Longrightarrow> lifecycle_inv y \<Longrightarrow> lifecycle_inv y'"
  by (erule thread_stepE) (simp_all add: lifecycle_inv_def thread_alive_def)

lemma iso_step_lifecycle:
  assumes "iso_step 1 ops call y e y'" and "lifecycle_inv y"
  shows "lifecycle_inv y'"
  using assms
proof (cases rule: iso_step.cases)
  case (start r i d)
  then show ?thesis using assms(2)
    by (auto simp: lifecycle_inv_def thread_alive_def iso14229_zephyr_thread_start_def Let_def
        split: if_splits prod.splits option.splits)
next
  case (stop_waits i)
  then show ?thesis using assms(2)
    by (auto simp: lifecycle_inv_def thread_alive_def iso14229_zephyr_thread_stop_def split: if_splits)
next
  case thread
  then show ?thesis using assms(2) by (rule thread_step_lifecycle)
next
  case (receive f q)
  then show ?thesis using assms(2) by (simp add: lifecycle_inv_def)
next
  case (stop_refused r i)
  then show ?thesis using assms(2) by (auto simp: lifecycle_inv_def iso14229_zephyr_thread_stop_def split: if_splits)
next
  case joined
  then show ?thesis using assms(2) by (simp add: lifecycle_inv_def)
qed

lemma iso_run_lifecycle: "iso_run 1 ops call y es y' \<Longrightarrow> lifecycle_inv y \<Longrightarrow> lifecycle_inv y'"
  by (induction rule: iso_run.induct) (auto intro: iso_step_lifecycle)

lemma iso_step_start:
  assumes "iso_step 1 ops call y (Start_returns r p) y'" and "lifecycle_inv y"
  shows "p = sys_pc y \<and> (r = rc0 \<longrightarrow> p \<in> {No_thread, Terminated}) \<and> (r = Inl EALREADY \<longleftrightarrow> thread_alive p)"
  using assms(1)
proof (cases rule: iso_step.cases)
  case (start i d)
  have "sys_pc y \<noteq> Unlocking"
    using assms(2) start by (auto simp: lifecycle_inv_def)
  moreover have "thread_alive (sys_pc y) \<or> sys_pc y \<in> {No_thread, Unlocking, Terminated}"
    by (cases "sys_pc y") (simp_all add: thread_alive_def)
  ultimately show ?thesis using assms(2) start
    by (auto simp: lifecycle_inv_def iso14229_zephyr_thread_start_def Let_def
        split: if_splits prod.splits option.splits)
next
  case thread
  then show ?thesis by (auto elim: thread_stepE)
qed (auto split: if_splits)

text \<open>One pass of the loop, step by step.\<close>

lemma iso_run_append:
  "iso_run m ops call y2 es' y3 \<Longrightarrow> iso_run m ops call y es y2 \<Longrightarrow> iso_run m ops call y (es @ es') y3"
  by (induction rule: iso_run.induct) (auto simp flip: append_assoc intro: iso_run.intros)

lemma iso_run_Cons:
  assumes "iso_step m ops call y e y'" and "iso_run m ops call y' es y''"
  shows "iso_run m ops call y (e # es) y''"
  using iso_run_append [OF assms(2), of y "[e]"] run_snoc [OF run_nil assms(1)] by simp

text \<open>Updates of different fields commute; these fix one order.\<close>

lemma iso_upd_order:
  "i\<lparr>iso_server := s, can_func_msgq := q\<rparr> = i\<lparr>can_func_msgq := q, iso_server := s\<rparr>"
  "y\<lparr>sys_dev := d, sys_inst := j\<rparr> = y\<lparr>sys_inst := j, sys_dev := d\<rparr>"
  "y\<lparr>sys_pc := p, sys_inst := j\<rparr> = y\<lparr>sys_inst := j, sys_pc := p\<rparr>"
  by (cases i; cases y; simp)+

lemma empty_queue_upd:
  "can_phys_msgq i = [] \<Longrightarrow> i\<lparr>can_phys_msgq := []\<rparr> = i" "can_func_msgq i = [] \<Longrightarrow> i\<lparr>can_func_msgq := []\<rparr> = i"
  by (cases i; simp)+

definition given :: "('s, 'd) iso14229_ops \<Rightarrow> rx_queue \<Rightarrow> can_frame list \<Rightarrow> 's \<Rightarrow> 's" where
  "given ops q = fold (\<lambda>f. isotp_on_can_message ops q (frame_data f) (frame_dlc f))"

lemma drain_eq: "msgq_contract (rx_msgq ops) \<Longrightarrow> drain ops q fs s = Some ([], given ops q fs s)"
  by (induction fs arbitrary: s) (subst drain.simps, simp add: msgq_contract_def given_def)+

lemma drain_phys_run:
  assumes mq: "msgq_contract (rx_msgq ops)"
  shows "sys_pc y = Drain_phys \<Longrightarrow> can_phys_msgq (sys_inst y) = fs \<Longrightarrow>
   iso_run m ops call y (map (Handled Phys) fs)
     (y\<lparr>sys_inst := (sys_inst y)\<lparr>can_phys_msgq := [], iso_server := given ops Phys fs (iso_server (sys_inst y))\<rparr>\<rparr>)"
proof (induction fs arbitrary: y)
  case Nil
  then show ?case by (simp add: run_nil empty_queue_upd given_def)
next
  case (Cons f fs)
  let ?y = "y\<lparr>sys_inst := (sys_inst y)\<lparr>can_phys_msgq := fs,
      iso_server := isotp_on_can_message ops Phys (frame_data f) (frame_dlc f) (iso_server (sys_inst y))\<rparr>\<rparr>"
  have "iso_step m ops call y (Handled Phys f) ?y"
    using Cons.prems by (intro iso_step.thread phys_frame) (simp_all add: msgq_get_iff [OF mq])
  moreover have "iso_run m ops call ?y (map (Handled Phys) fs)
     (?y\<lparr>sys_inst := (sys_inst ?y)\<lparr>can_phys_msgq := [], iso_server := given ops Phys fs (iso_server (sys_inst ?y))\<rparr>\<rparr>)"
    using Cons.prems by (intro Cons.IH) simp_all
  ultimately show ?case using iso_run_Cons by (fastforce simp: given_def)
qed

lemma drain_func_run:
  assumes mq: "msgq_contract (rx_msgq ops)"
  shows "sys_pc y = Drain_func \<Longrightarrow> can_func_msgq (sys_inst y) = fs \<Longrightarrow>
   iso_run m ops call y (map (Handled Func) fs)
     (y\<lparr>sys_inst := (sys_inst y)\<lparr>can_func_msgq := [], iso_server := given ops Func fs (iso_server (sys_inst y))\<rparr>\<rparr>)"
proof (induction fs arbitrary: y)
  case Nil
  then show ?case by (simp add: run_nil empty_queue_upd given_def)
next
  case (Cons f fs)
  let ?y = "y\<lparr>sys_inst := (sys_inst y)\<lparr>can_func_msgq := fs,
      iso_server := isotp_on_can_message ops Func (frame_data f) (frame_dlc f) (iso_server (sys_inst y))\<rparr>\<rparr>"
  have "iso_step m ops call y (Handled Func f) ?y"
    using Cons.prems by (intro iso_step.thread func_frame) (simp_all add: msgq_get_iff [OF mq])
  moreover have "iso_run m ops call ?y (map (Handled Func) fs)
     (?y\<lparr>sys_inst := (sys_inst ?y)\<lparr>can_func_msgq := [], iso_server := given ops Func fs (iso_server (sys_inst ?y))\<rparr>\<rparr>)"
    using Cons.prems by (intro Cons.IH) simp_all
  ultimately show ?case using iso_run_Cons by (fastforce simp: given_def)
qed

text \<open>How far the thread is from its end once it has been asked to stop.\<close>

fun thread_measure :: "('cb, 's, 'd) iso_system \<Rightarrow> nat" where
  "thread_measure y =
     (case sys_pc y of
        Drain_phys \<Rightarrow> 7 + length (can_phys_msgq (sys_inst y)) + length (can_func_msgq (sys_inst y))
      | Drain_func \<Rightarrow> 6 + length (can_func_msgq (sys_inst y))
      | Poll \<Rightarrow> 5 | Sleep \<Rightarrow> 4 | Test_stop \<Rightarrow> 3 | Finish \<Rightarrow> 2 | Unlocking \<Rightarrow> 1 | _ \<Rightarrow> 0)"

lemma thread_step_decreases:
  assumes "msgq_contract (rx_msgq ops)"
  shows "thread_step ops call y e y' \<Longrightarrow> thread_stop_requested (sys_inst y) \<Longrightarrow>
   thread_measure y' < thread_measure y \<and> thread_stop_requested (sys_inst y') \<and> sys_pc y' \<noteq> No_thread \<and>
   (sys_pc y' = Terminated \<longrightarrow> sys_pc y = Unlocking)"
  by (erule thread_stepE) (auto simp: msgq_get_iff [OF assms])

lemma thread_step_progress:
  assumes mq: "msgq_contract (rx_msgq ops)" and "sys_pc y \<notin> {No_thread, Terminated}" and "\<forall>i s. \<exists>s'. UDSServerPoll ops (uds_cb call i) s = Returns () s'"
  shows "\<exists>e y'. thread_step ops call y e y'"
proof (cases "sys_pc y")
  case Drain_phys
  then show ?thesis
    using phys_empty [of y ops call] phys_frame [of y ops _ _ call] by (cases "can_phys_msgq (sys_inst y)") (auto simp: msgq_get_iff [OF mq])
next
  case Drain_func
  then show ?thesis
    using func_empty [of y ops call] func_frame [of y ops _ _ call] by (cases "can_func_msgq (sys_inst y)") (auto simp: msgq_get_iff [OF mq])
next
  case Poll
  then show ?thesis using assms(3) by (blast intro: thread_step.poll)
qed (use assms(2) in \<open>blast intro: thread_step.intros\<close>)+

lemma stop_requested_terminates:
  assumes mq: "msgq_contract (rx_msgq ops)" and poll: "\<forall>i s. \<exists>s'. UDSServerPoll ops (uds_cb call i) s = Returns () s'"
  shows "thread_stop_requested (sys_inst y) \<Longrightarrow> sys_pc y \<noteq> No_thread \<Longrightarrow>
    \<exists>k \<le> thread_measure y. \<exists>y'. ((\<lambda>y y'. \<exists>e. thread_step ops call y e y') ^^ k) y y' \<and> sys_pc y' = Terminated"
proof (induction y rule: measure_induct_rule [of thread_measure])
  case (less y)
  show ?case
  proof (cases "sys_pc y = Terminated")
    case True
    then show ?thesis by (intro exI [of _ 0]) auto
  next
    case False
    with less.prems obtain e y' where st: "thread_step ops call y e y'"
      using thread_step_progress [OF mq, of y call] poll by auto
    note dec = thread_step_decreases [OF mq st less.prems(1)]
    then obtain k y'' where "k \<le> thread_measure y'" and r: "((\<lambda>y y'. \<exists>e. thread_step ops call y e y') ^^ k) y' y''"
      and "sys_pc y'' = Terminated"
      using less.IH [of y'] by blast
    moreover have "((\<lambda>y y'. \<exists>e. thread_step ops call y e y') ^^ Suc k) y y''"
      using st r by (intro relpowp_Suc_I2 [of _ y y']) auto
    ultimately show ?thesis using dec by (intro exI [of _ "Suc k"]) auto
  qed
qed

section \<open>Properties\<close>

text \<open>An instance right after its initialisation, and a package that records what it is given.\<close>

definition demo_iso_ops :: "((rx_queue \<times> u8 list) list, nat) iso14229_ops" where
  "demo_iso_ops = \<lparr>UDSServerInit = (\<lambda>s. s), UDSISOTpCInit = (\<lambda>c s. (c, s)),
     isotp_on_can_message = (\<lambda>q bs n s. s @ [(q, take (unat n) bs)]),
     UDSServerPoll = (\<lambda>cb s. Returns () s), UDS_TP_NOOP_ADDR = 0xFFFFFFFF, rx_msgq = demo_msgq, CAN_STD_ID_MASK = 0x7FF,
     k_mutex_init = (\<lambda>d. (rc0, d)), k_thread_create = (\<lambda>d. (Some d, Suc d)),
     can_add_rx_filter = (\<lambda>q a m d. (rc0, d))\<rparr>"

definition blank_inst :: "'s \<Rightarrow> ('cb, 's) iso14229_zephyr_instance" where
  "blank_inst s = \<lparr>iso_server = s,
     iso_tp = \<lparr>source_addr = 0, target_addr = 0, source_addr_func = 0, target_addr_func = 0\<rparr>,
     can_phys_msgq = [], can_func_msgq = [], event_callback = None, iso_user_context = None, thread_id = None,
     thread_running = False, thread_stop_requested = False, has_set_callback = False,
     has_event_loop_tick = False, has_thread_start = False, has_thread_stop = False\<rparr>"

definition demo_frame :: can_frame where
  "demo_frame = \<lparr>frame_id = 0x7E0, frame_dlc = 3, frame_data = [0x02, 0x10, 0x02]\<rparr>"

definition demo_call :: "unit \<Rightarrow> inst option \<Rightarrow> (rx_queue \<times> u8 list) list event_sem" where
  "demo_call = (\<lambda>_ _ _ arg s. Returns (UDS_OK, arg) s)"

definition demo_system :: "can_frame list \<Rightarrow> thread_pc \<Rightarrow> bool \<Rightarrow> (unit, (rx_queue \<times> u8 list) list, nat) iso_system" where
  "demo_system fs p stop = \<lparr>sys_inst = (blank_inst [])\<lparr>can_phys_msgq := fs, thread_running := thread_alive p,
     thread_stop_requested := stop\<rparr>, sys_dev = 0, sys_pc = p, sys_joining = 0\<rparr>"

lemma demo_receive:
  "iso_step m demo_iso_ops demo_call (demo_system [] p False) (Accepted Phys demo_frame) (demo_system [demo_frame] p False)"
  using iso_step.receive [of m demo_iso_ops demo_call "demo_system [] p False" demo_frame Phys]
  by (simp add: demo_system_def can_rx_cb_def demo_iso_ops_def demo_msgq_def MSGQ_FRAMES_def blank_inst_def)

lemma demo_handled:
  "iso_run m demo_iso_ops demo_call (demo_system [demo_frame] Drain_phys False) [Handled Phys demo_frame]
     ((demo_system [] Drain_phys False)\<lparr>sys_inst := (sys_inst (demo_system [] Drain_phys False))\<lparr>iso_server := [(Phys, [0x02, 0x10, 0x02])]\<rparr>\<rparr>)"
  using drain_phys_run [of demo_iso_ops "demo_system [demo_frame] Drain_phys False" "[demo_frame]" m demo_call]
  by (simp add: demo_system_def blank_inst_def demo_iso_ops_def given_def demo_frame_def)

lemma demo_received_handled:
  "iso_run m demo_iso_ops demo_call (demo_system [] Drain_phys False) [Accepted Phys demo_frame, Handled Phys demo_frame]
     ((demo_system [] Drain_phys False)\<lparr>sys_inst := (sys_inst (demo_system [] Drain_phys False))\<lparr>iso_server := [(Phys, [0x02, 0x10, 0x02])]\<rparr>\<rparr>)"
  by (rule iso_run_Cons [OF demo_receive demo_handled])

text \<open>
  (C6) Frames between the receive interrupt and the package: with message queues that keep the contract of the kernel, and over any
  interleaving of arrivals, thread and clients, the frames a queue accepted are those handled by the thread followed by
  those still in the queue, in the order of arrival; the state of the package is what the handled frames, each given to
  \<open>isotp_on_can_message\<close> with its data, its length and the link of its queue, and the polls of the server make of it in
  the order of the run; a queue never holds more than 25 frames; and a frame is dropped only when 25 accepted frames
  of its queue have not been handled yet.
\<close>

theorem frames_fifo:
  assumes "msgq_contract (rx_msgq ops)" and "iso_run m ops call y es y'" and "msgq q (sys_inst y) = []"
  shows "accepted q es = handled q es @ msgq q (sys_inst y') \<and>
    iso_server (sys_inst y') = fold (\<lambda>e s. case e of
         Handled q f \<Rightarrow> isotp_on_can_message ops q (frame_data f) (frame_dlc f) s
       | Polled \<Rightarrow> (case UDSServerPoll ops (uds_cb call (sys_inst y)) s of Returns _ s' \<Rightarrow> s' | _ \<Rightarrow> s)
       | _ \<Rightarrow> s) es (iso_server (sys_inst y)) \<and>
    length (msgq q (sys_inst y')) \<le> 25 \<and>
    (\<forall>pre f post. es = pre @ Dropped q f # post \<longrightarrow> length (accepted q pre) = length (handled q pre) + 25)"
proof (intro conjI allI impI)
  show "accepted q es = handled q es @ msgq q (sys_inst y')"
    using iso_run_frames [OF assms(1,2), of q] assms(3) by simp
  show "length (msgq q (sys_inst y')) \<le> 25"
    using iso_run_bound [OF assms(1,2), of q] assms(3) by (simp add: MSGQ_FRAMES_def)
  have "(\<lambda>e s. case e of Handled q f \<Rightarrow> isotp_on_can_message ops q (frame_data f) (frame_dlc f) s
       | Polled \<Rightarrow> (case UDSServerPoll ops (uds_cb call (sys_inst y)) s of Returns _ s' \<Rightarrow> s' | _ \<Rightarrow> s)
       | _ \<Rightarrow> s) = package_step ops (uds_cb call (sys_inst y))" (is "?step = _")
    by (intro ext) (simp split: iso_label.splits)
  then show "iso_server (sys_inst y') = fold ?step es (iso_server (sys_inst y))" using iso_run_package [OF assms(2)] by simp
next
  fix pre f post assume "es = pre @ Dropped q f # post"
  with assms(2) obtain y1 y2 where run: "iso_run m ops call y pre y1" and st: "iso_step m ops call y1 (Dropped q f) y2"
    using iso_run_split by metis
  have "length (msgq q (sys_inst y1)) = 25"
    using iso_step_arrival(1) [OF assms(1) st] iso_run_bound [OF assms(1) run, of q] assms(3) by (simp add: MSGQ_FRAMES_def)
  with iso_run_frames [OF assms(1) run, of q] assms(3) show "length (accepted q pre) = length (handled q pre) + 25" by simp
qed

theorem frames_fifo_witness:
  "accepted Phys [Accepted Phys demo_frame, Handled Phys demo_frame] = handled Phys [Accepted Phys demo_frame, Handled Phys demo_frame] \<and>
   iso_run 1 demo_iso_ops demo_call (demo_system [] Drain_phys False) [Accepted Phys demo_frame, Handled Phys demo_frame]
     ((demo_system [] Drain_phys False)\<lparr>sys_inst := (sys_inst (demo_system [] Drain_phys False))\<lparr>
       iso_server := isotp_on_can_message demo_iso_ops Phys (frame_data demo_frame) (frame_dlc demo_frame) []\<rparr>\<rparr>)"
  using frames_fifo [OF _ demo_received_handled [of 1], of Phys] demo_received_handled [of 1]
  by (simp add: demo_system_def blank_inst_def demo_iso_ops_def)

text \<open>
  The tick of the event loop, when no frame arrives meanwhile, is what the thread does in one pass
  through its loop: the physical queue is handed to the package first, then the functional queue, each
  in order and completely, and then the server is polled once.
\<close>

theorem event_loop_tick_refines_loop:
  assumes mq: "msgq_contract (rx_msgq ops)"
    and "iso14229_zephyr_event_loop_tick ops call (sys_inst y) = Returns () i" and "sys_pc y = Drain_phys"
  shows "iso_run m ops call y
     (map (Handled Phys) (can_phys_msgq (sys_inst y)) @ Thread_moves #
      map (Handled Func) (can_func_msgq (sys_inst y)) @ [Thread_moves, Polled])
     (y\<lparr>sys_inst := i, sys_pc := Sleep\<rparr>)"
proof -
  let ?i1 = "(sys_inst y)\<lparr>can_phys_msgq := [],
    iso_server := given ops Phys (can_phys_msgq (sys_inst y)) (iso_server (sys_inst y))\<rparr>"
  let ?i2 = "?i1\<lparr>can_func_msgq := [], iso_server := given ops Func (can_func_msgq (sys_inst y)) (iso_server ?i1)\<rparr>"
  let ?y1 = "y\<lparr>sys_inst := ?i1\<rparr>" and ?y2 = "y\<lparr>sys_inst := ?i1, sys_pc := Drain_func\<rparr>"
    and ?y3 = "y\<lparr>sys_inst := ?i2, sys_pc := Drain_func\<rparr>" and ?y4 = "y\<lparr>sys_inst := ?i2, sys_pc := Poll\<rparr>"
  obtain s where poll: "UDSServerPoll ops (uds_cb call ?i2) (iso_server ?i2) = Returns () s" and i: "i = ?i2\<lparr>iso_server := s\<rparr>"
    using assms(2) by (auto simp: drain_eq [OF mq] iso14229_zephyr_event_loop_tick_def Let_def outcome_simps iso_upd_order)
  have 1: "iso_run m ops call y (map (Handled Phys) (can_phys_msgq (sys_inst y))) ?y1"
    using drain_phys_run [OF mq assms(3)] by simp
  have 2: "iso_step m ops call ?y1 Thread_moves ?y2"
    using thread_step.phys_empty [of ?y1 ops call] assms(3) by (intro iso_step.thread) (simp add: msgq_get_iff [OF mq])
  have 3: "iso_run m ops call ?y2 (map (Handled Func) (can_func_msgq (sys_inst y))) ?y3"
    using drain_func_run [OF mq, of ?y2 "can_func_msgq (sys_inst y)" m call] by (simp add: iso_upd_order)
  have 4: "iso_step m ops call ?y3 Thread_moves ?y4"
    using thread_step.func_empty [of ?y3 ops call] by (intro iso_step.thread) (simp add: msgq_get_iff [OF mq])
  have 5: "iso_step m ops call ?y4 Polled (y\<lparr>sys_inst := i, sys_pc := Sleep\<rparr>)"
    using thread_step.poll [of ?y4 ops call s] poll by (intro iso_step.thread) (simp add: i)
  from iso_run_append [OF iso_run_Cons [OF 4 iso_run_Cons [OF 5 run_nil]] 3]
  show ?thesis using iso_run_append [OF iso_run_Cons [OF 2] 1] by simp
qed

theorem event_loop_tick_refines_loop_witness:
  "iso_run 1 demo_iso_ops demo_call (demo_system [demo_frame] Drain_phys False) [Handled Phys demo_frame, Thread_moves, Thread_moves, Polled]
     ((demo_system [] Sleep False)\<lparr>sys_inst := (sys_inst (demo_system [] Sleep False))\<lparr>iso_server := [(Phys, [0x02, 0x10, 0x02])]\<rparr>\<rparr>)"
proof -
  let ?i = "(sys_inst (demo_system [] Sleep False))\<lparr>iso_server := [(Phys, [0x02, 0x10, 0x02])]\<rparr>"
  have "iso14229_zephyr_event_loop_tick demo_iso_ops demo_call (sys_inst (demo_system [demo_frame] Drain_phys False)) = Returns () ?i"
    by (simp add: iso14229_zephyr_event_loop_tick_def drain_eq given_def demo_iso_ops_def demo_system_def blank_inst_def demo_frame_def thread_alive_def)
  from event_loop_tick_refines_loop [OF _ this, of 1]
  show ?thesis by (simp add: demo_iso_ops_def demo_system_def blank_inst_def)
qed

text \<open>
  (C22) With one client, start and stop keep the thread single: a thread is created only when there is
  none or the last one has terminated, starting is refused with \<open>-EALREADY\<close> exactly while the thread
  is in its loop, and \<open>thread_running\<close> says so at all times.
\<close>

theorem thread_single_client:
  assumes "iso_run 1 ops call y es y'" and "sys_pc y = No_thread" and "\<not> thread_running (sys_inst y)"
  shows "(\<forall>r p. Start_returns r p \<in> set es \<longrightarrow>
      (r = rc0 \<longrightarrow> p \<in> {No_thread, Terminated}) \<and> (r = Inl EALREADY \<longleftrightarrow> thread_alive p)) \<and>
    (thread_running (sys_inst y') \<longleftrightarrow> thread_alive (sys_pc y'))"
proof (intro conjI allI impI)
  have inv: "lifecycle_inv y" using assms(2,3) by (simp add: lifecycle_inv_def thread_alive_def)
  then show "thread_running (sys_inst y') \<longleftrightarrow> thread_alive (sys_pc y')"
    using iso_run_lifecycle [OF assms(1)] by (simp add: lifecycle_inv_def)
  fix r p assume "Start_returns r p \<in> set es"
  then obtain pre post where "es = pre @ Start_returns r p # post" by (auto simp: in_set_conv_decomp)
  with assms(1) obtain y1 y2 where run: "iso_run 1 ops call y pre y1" and st: "iso_step 1 ops call y1 (Start_returns r p) y2"
    using iso_run_split by metis
  from iso_step_start [OF st iso_run_lifecycle [OF run inv]]
  show "r = rc0 \<Longrightarrow> p \<in> {No_thread, Terminated}" "r = Inl EALREADY \<longleftrightarrow> thread_alive p" by auto
qed

theorem thread_single_client_witness:
  "thread_running (sys_inst (demo_system [demo_frame] No_thread False)) \<longleftrightarrow> thread_alive No_thread"
  using thread_single_client [OF run_snoc [OF run_nil demo_receive]] by (simp add: demo_system_def blank_inst_def)

text \<open>
  With two clients this fails: while one client waits in stop, another may start the thread again
  after the old one has cleared \<open>thread_running\<close>, and before it has left the mutex and terminated; the
  new thread is then created on the stack and the control block of a thread that still runs.
\<close>

theorem thread_restart_overlaps:
  assumes "\<forall>d. \<exists>t d'. k_thread_create ops d = (Some t, d')"
    and "sys_pc y = No_thread" and "\<not> thread_running (sys_inst y)" and "sys_joining y = 0"
  shows "\<exists>es y'. iso_run 2 ops call y es y' \<and> Start_returns rc0 Unlocking \<in> set es"
proof -
  obtain t1 d1 where c1: "k_thread_create ops (sys_dev y) = (Some t1, d1)" using assms(1) by blast
  obtain t2 d2 where c2: "k_thread_create ops d1 = (Some t2, d2)" using assms(1) by blast
  let ?i1 = "(sys_inst y)\<lparr>thread_stop_requested := False, thread_id := Some t1, thread_running := True\<rparr>"
  let ?i2 = "?i1\<lparr>thread_stop_requested := True\<rparr>" and ?i3 = "?i1\<lparr>thread_stop_requested := True, thread_running := False\<rparr>"
  let ?i4 = "?i3\<lparr>thread_stop_requested := False, thread_id := Some t2, thread_running := True\<rparr>"
  let ?y1 = "y\<lparr>sys_inst := ?i1, sys_dev := d1, sys_pc := Test_stop\<rparr>"
  let ?y2 = "y\<lparr>sys_inst := ?i2, sys_dev := d1, sys_pc := Test_stop, sys_joining := 1\<rparr>"
  let ?y3 = "?y2\<lparr>sys_pc := Finish\<rparr>" and ?y4 = "?y2\<lparr>sys_inst := ?i3, sys_pc := Unlocking\<rparr>"
  have 1: "iso_step 2 ops call y (Start_returns rc0 No_thread) ?y1"
    using iso_step.start [of y 2 ops rc0 ?i1 d1 call] assms c1 by (simp add: iso14229_zephyr_thread_start_def)
  have 2: "iso_step 2 ops call ?y1 Stop_waits ?y2"
    using iso_step.stop_waits [of ?y1 2 ?i2 ops call] assms by (simp add: iso14229_zephyr_thread_stop_def iso_upd_order)
  have 3: "iso_step 2 ops call ?y2 Thread_moves ?y3"
    using thread_step.stop_seen [of ?y2 ops call] by (intro iso_step.thread) simp
  have 4: "iso_step 2 ops call ?y3 Thread_moves ?y4"
    using thread_step.finish [of ?y3 ops call] by (intro iso_step.thread) simp
  have 5: "iso_step 2 ops call ?y4 (Start_returns rc0 Unlocking) (?y4\<lparr>sys_inst := ?i4, sys_dev := d2, sys_pc := Test_stop\<rparr>)"
    using iso_step.start [of ?y4 2 ops rc0 ?i4 d2 call] c2 by (simp add: iso14229_zephyr_thread_start_def)
  note run = iso_run_Cons [OF 1 iso_run_Cons [OF 2 iso_run_Cons [OF 3 iso_run_Cons [OF 4 iso_run_Cons [OF 5 run_nil]]]]]
  then show ?thesis by (intro exI conjI) auto
qed

theorem thread_restart_overlaps_witness:
  "\<exists>es y'. iso_run 2 demo_iso_ops demo_call (demo_system [] No_thread False) es y' \<and> Start_returns rc0 Unlocking \<in> set es"
  by (rule thread_restart_overlaps) (simp_all add: demo_iso_ops_def demo_system_def thread_alive_def)

text \<open>
  (C23) Stopping ends: once the thread has been asked to stop, and as long as the message queues keep their contract and polling the server returns,
  the thread reaches its end by its own steps, after at most as many steps as there are frames in the
  queues and seven more, so the client that waits for it goes on.
\<close>

theorem stop_terminates:
  assumes "msgq_contract (rx_msgq ops)" and "\<forall>i s. \<exists>s'. UDSServerPoll ops (uds_cb call i) s = Returns () s'"
    and "thread_stop_requested (sys_inst y)" and "sys_pc y \<noteq> No_thread"
  shows "\<exists>k \<le> length (can_phys_msgq (sys_inst y)) + length (can_func_msgq (sys_inst y)) + 7.
    \<exists>y'. ((\<lambda>y y'. \<exists>e. thread_step ops call y e y') ^^ k) y y' \<and> sys_pc y' = Terminated"
proof -
  have "thread_measure y \<le> length (can_phys_msgq (sys_inst y)) + length (can_func_msgq (sys_inst y)) + 7"
    by (cases "sys_pc y") simp_all
  with stop_requested_terminates [OF assms] show ?thesis by (meson le_trans)
qed

theorem stop_terminates_witness:
  "\<exists>k \<le> 8. \<exists>y'. ((\<lambda>y y'. \<exists>e. thread_step demo_iso_ops demo_call y e y') ^^ k) (demo_system [demo_frame] Drain_phys True) y' \<and>
     sys_pc y' = Terminated"
  using stop_terminates [of demo_iso_ops demo_call "demo_system [demo_frame] Drain_phys True"]
  by (simp add: demo_iso_ops_def demo_system_def blank_inst_def)

end
