(* ===== verification/Registry.thy ===== *)
theory Registry
  imports Prelude
begin

text \<open>
  The contract that the tables of the sources share: the dynamic registrations of a UDS instance
  (\<^verbatim>\<open>lib/uds/uds.c\<close>) and the frame callbacks of the abstract LIN driver
  (\<^verbatim>\<open>drivers/lin/abstract_lin/abstract_lin.c\<close>) are tables with a unique key per entry. The
  provider chooses or checks the key when an entry is added and may refuse it; \<open>stored k v\<close> is the
  entry as it is kept.
\<close>

datatype ('k, 'v) registry_op = Add 'v | Remove 'k

locale registry =
  fixes invar :: "'s \<Rightarrow> bool"
    and lookup :: "'s \<Rightarrow> 'k \<Rightarrow> 'v option"
    and add :: "'v \<Rightarrow> 's \<Rightarrow> ('k \<times> 's) option"
    and stored :: "'k \<Rightarrow> 'v \<Rightarrow> 'v"
    and remove :: "'k \<Rightarrow> 's \<Rightarrow> 's option"
  assumes add_fresh: "invar s \<Longrightarrow> add v s = Some (k, s') \<Longrightarrow> lookup s k = None"
    and add_lookup: "invar s \<Longrightarrow> add v s = Some (k, s') \<Longrightarrow> lookup s' = (lookup s)(k \<mapsto> stored k v)"
    and add_invar: "invar s \<Longrightarrow> add v s = Some (k, s') \<Longrightarrow> invar s'"
    and remove_None: "invar s \<Longrightarrow> remove k s = None \<longleftrightarrow> lookup s k = None"
    and remove_lookup: "invar s \<Longrightarrow> remove k s = Some s' \<Longrightarrow> lookup s' = (lookup s)(k := None)"
    and remove_invar: "invar s \<Longrightarrow> remove k s = Some s' \<Longrightarrow> invar s'"
begin

text \<open>An entry can be found under the key that \<open>add\<close> returned; no other key is affected.\<close>

lemma lookup_added:
  assumes "invar s" and "add v s = Some (k, s')"
  shows "lookup s' k = Some (stored k v)" and "k' \<noteq> k \<Longrightarrow> lookup s' k' = lookup s k'"
  using add_lookup [OF assms] by simp_all

lemma add_remove_restores:
  assumes "invar s" and "add v s = Some (k, s')"
  shows "\<exists>s''. remove k s' = Some s'' \<and> invar s'' \<and> lookup s'' = lookup s"
proof -
  from assms have inv: "invar s'" by (rule add_invar)
  have "lookup s' k \<noteq> None" using lookup_added [OF assms] by simp
  with inv obtain s'' where s'': "remove k s' = Some s''"
    using remove_None [of s' k] by (cases "remove k s'") auto
  have "lookup s'' = (lookup s)(k := None)"
    using remove_lookup [OF inv s''] add_lookup [OF assms] by simp
  also have "\<dots> = lookup s"
    using add_fresh [OF assms] by (auto simp: fun_eq_iff)
  finally show ?thesis using s'' remove_invar [OF inv s''] by blast
qed

lemma remove_twice:
  assumes "invar s" and "remove k s = Some s'"
  shows "remove k s' = None"
  using remove_None [OF remove_invar [OF assms]] remove_lookup [OF assms] by simp

lemma two_adds_distinct:
  assumes "invar s" and "add v s = Some (k, s')" and "add v' s' = Some (k', s'')"
  shows "k \<noteq> k' \<and> lookup s'' k = Some (stored k v) \<and> lookup s'' k' = Some (stored k' v')"
proof -
  have inv: "invar s'" by (rule add_invar [OF assms(1,2)])
  have "lookup s' k' = None" by (rule add_fresh [OF inv assms(3)])
  moreover have "lookup s' k = Some (stored k v)" by (rule lookup_added [OF assms(1,2)])
  ultimately have "k \<noteq> k'" by auto
  then show ?thesis using add_lookup [OF inv assms(3)] \<open>lookup s' k = Some (stored k v)\<close> by simp
qed

text \<open>A run of operations; one that is refused leaves the table as it is.\<close>

fun apply_op :: "('k, 'v) registry_op \<Rightarrow> 's \<Rightarrow> 's" where
  "apply_op (Add v) s = (case add v s of None \<Rightarrow> s | Some p \<Rightarrow> snd p)"
| "apply_op (Remove k) s = (case remove k s of None \<Rightarrow> s | Some s' \<Rightarrow> s')"

abbreviation run_ops :: "('k, 'v) registry_op list \<Rightarrow> 's \<Rightarrow> 's" where
  "run_ops \<equiv> fold apply_op"

lemma apply_op_invar: "invar s \<Longrightarrow> invar (apply_op x s)"
  by (cases x) (auto split: option.splits intro: add_invar remove_invar)

lemma run_ops_invar: "invar s \<Longrightarrow> invar (run_ops ops s)"
  by (induction ops arbitrary: s) (simp_all add: apply_op_invar)

text \<open>An entry stays, unchanged, until its own key is removed.\<close>

lemma apply_op_keeps_entry:
  assumes "invar s" and "lookup s k = Some v" and "x \<noteq> Remove k"
  shows "lookup (apply_op x s) k = Some v"
proof (cases x)
  case (Add u)
  show ?thesis
  proof (cases "add u s")
    case (Some p)
    then have "lookup s (fst p) = None" and "lookup (snd p) = (lookup s)(fst p \<mapsto> stored (fst p) u)"
      using add_fresh [of s u "fst p" "snd p"] add_lookup [of s u "fst p" "snd p"] assms(1) by simp_all
    then show ?thesis using Add Some assms(2) by auto
  qed (use Add assms in simp)
next
  case (Remove k')
  then show ?thesis
    using assms remove_lookup [of s k'] by (auto split: option.splits)
qed

lemma run_ops_keeps_entry:
  "invar s \<Longrightarrow> lookup s k = Some v \<Longrightarrow> Remove k \<notin> set ops \<Longrightarrow> lookup (run_ops ops s) k = Some v"
  by (induction ops arbitrary: s) (auto simp: apply_op_keeps_entry apply_op_invar)

end

end
