(* ===== verification/Uds_Core.thy ===== *)
theory Uds_Core
  imports Uds_Types Registry
begin

text \<open>
  The event dispatcher and the dynamic registrations of \<^verbatim>\<open>lib/uds/uds.c\<close>. The meaning of the
  check, action and unregister functions is an argument (\<open>ck\<close>, \<open>ac\<close>, \<open>un\<close>): they run on the
  whole state, so a handler may register and unregister handlers while the dispatcher walks its
  lists. Walking the dynamic list takes fuel, one unit for each node visited.
\<close>

type_synonym ('u, 'x) check_sem =
  "'u check_fn \<Rightarrow> uds_context \<Rightarrow> bool \<Rightarrow> ('u, 'x) uds_world \<Rightarrow>
     (UDSErr_t \<times> bool, ('u, 'x) uds_world) outcome"

type_synonym ('u, 'x) action_sem =
  "'u action_fn \<Rightarrow> uds_context \<Rightarrow> bool \<Rightarrow> ('u, 'x) uds_world \<Rightarrow>
     (UDSErr_t \<times> bool \<times> uds_arg, ('u, 'x) uds_world) outcome"

type_synonym ('u, 'x) unregister_sem =
  "'u unregister_fn \<Rightarrow> addr \<Rightarrow> ('u, 'x) uds_world \<Rightarrow> (c_int, ('u, 'x) uds_world) outcome"

section \<open>The dispatcher\<close>

text \<open>
  \<open>check_and_act\<close> returns the result, \<open>found_at_least_one_match\<close>, \<open>consume_event\<close> and the
  argument structure, which the action may have written to.
\<close>

definition uds_check_and_act_on_event ::
  "('u, 'x) check_sem \<Rightarrow> ('u, 'x) action_sem \<Rightarrow> uds_context \<Rightarrow> 'u uds_event_handler_data \<Rightarrow>
   bool \<Rightarrow> bool \<Rightarrow> ('u, 'x) uds_world \<Rightarrow>
   (UDSErr_t \<times> bool \<times> bool \<times> uds_arg, ('u, 'x) uds_world) outcome" where
  "uds_check_and_act_on_event ck ac ctx h found consume w =
     (case deref_reg w (ctx_registration ctx) of
        None \<Rightarrow> Undefined
      | Some reg \<Rightarrow>
          if reg_type reg \<noteq> h_registration_type h then Returns (UDS_OK, found, False, ctx_arg ctx) w
          else
            (case h_get_check h reg of
               None \<Rightarrow> Returns (UDS_OK, found, False, ctx_arg ctx) w
             | Some check \<Rightarrow>
                 obind (ck check ctx False w) (\<lambda>(ret, apply_action) w1.
                   if ret \<noteq> UDS_OK then Returns (ret, found, False, ctx_arg ctx) w1
                   else
                     (case deref_reg w1 (ctx_registration ctx) of
                        None \<Rightarrow> Undefined
                      | Some reg' \<Rightarrow>
                          (case h_get_action h reg' of
                             None \<Rightarrow> Returns (UDS_OK, found, False, ctx_arg ctx) w1
                           | Some action \<Rightarrow>
                               if \<not> apply_action then Returns (UDS_OK, found, False, ctx_arg ctx) w1
                               else
                                 obind (ac action ctx consume w1) (\<lambda>(ret2, consume2, arg2) w2.
                                   if ret2 \<noteq> UDS_OK then Returns (ret2, found, consume2, arg2) w2
                                   else Returns (UDS_OK, True, consume2, arg2) w2))))))"

text \<open>
  The two loops of \<open>uds_handle_event\<close>. A loop either returns from the function (\<open>Inl\<close>) or runs to
  its end (\<open>Inr\<close>). \<open>consume_event\<close> starts as true in the first loop and as false in the second.
\<close>

fun handle_static ::
  "('u, 'x) check_sem \<Rightarrow> ('u, 'x) action_sem \<Rightarrow> inst \<Rightarrow> UDSEvent_t \<Rightarrow> 'u uds_event_handler_data \<Rightarrow>
   nat list \<Rightarrow> bool \<Rightarrow> uds_arg \<Rightarrow> ('u, 'x) uds_world \<Rightarrow>
   ((UDSErr_t \<times> uds_arg) + (bool \<times> uds_arg), ('u, 'x) uds_world) outcome" where
  "handle_static ck ac i ev h [] found arg w = Returns (Inr (found, arg)) w"
| "handle_static ck ac i ev h (n # ns) found arg w =
     obind (uds_check_and_act_on_event ck ac
              \<lparr>ctx_instance = i, ctx_registration = Static n, ctx_event = ev, ctx_arg = arg\<rparr>
              h found True w)
       (\<lambda>(ret, found', consume, arg') w'.
          if consume \<or> ret \<noteq> UDS_OK then Returns (Inl (ret, arg')) w'
          else handle_static ck ac i ev h ns found' arg' w')"

fun handle_dynamic ::
  "('u, 'x) check_sem \<Rightarrow> ('u, 'x) action_sem \<Rightarrow> inst \<Rightarrow> UDSEvent_t \<Rightarrow> 'u uds_event_handler_data \<Rightarrow>
   nat \<Rightarrow> addr option \<Rightarrow> bool \<Rightarrow> uds_arg \<Rightarrow> ('u, 'x) uds_world \<Rightarrow>
   ((UDSErr_t \<times> uds_arg) + (bool \<times> uds_arg), ('u, 'x) uds_world) outcome" where
  "handle_dynamic ck ac i ev h fuel None found arg w = Returns (Inr (found, arg)) w"
| "handle_dynamic ck ac i ev h 0 (Some a) found arg w = NoFuel"
| "handle_dynamic ck ac i ev h (Suc fuel) (Some a) found arg w =
     obind (uds_check_and_act_on_event ck ac
              \<lparr>ctx_instance = i, ctx_registration = Dynamic a, ctx_event = ev, ctx_arg = arg\<rparr>
              h found False w)
       (\<lambda>(ret, found', consume, arg') w'.
          if consume \<or> ret \<noteq> UDS_OK then Returns (Inl (ret, arg')) w'
          else if heap w' a = None then Undefined
          else handle_dynamic ck ac i ev h fuel (next_in (dyn_regs w' i) a) found' arg' w')"

definition uds_handle_event ::
  "('u, 'x) check_sem \<Rightarrow> ('u, 'x) action_sem \<Rightarrow> nat \<Rightarrow> inst \<Rightarrow> UDSEvent_t \<Rightarrow> uds_arg \<Rightarrow>
   'u uds_event_handler_data \<Rightarrow> ('u, 'x) uds_world \<Rightarrow>
   (UDSErr_t \<times> uds_arg, ('u, 'x) uds_world) outcome" where
  "uds_handle_event ck ac fuel i ev arg h w =
     obind (handle_static ck ac i ev h [0..<length (static_regs w)] False arg w)
       (\<lambda>r w1. case r of
          Inl res \<Rightarrow> Returns res w1
        | Inr (found1, arg1) \<Rightarrow>
            obind (handle_dynamic ck ac i ev h fuel (head_of (dyn_regs w1 i)) found1 arg1 w1)
              (\<lambda>r2 w2. case r2 of
                 Inl res \<Rightarrow> Returns res w2
               | Inr (found2, arg2) \<Rightarrow>
                   Returns (if found2 then UDS_PositiveResponse else h_default_nrc h, arg2) w2))"

definition uds_event_callback ::
  "('u, 'x) check_sem \<Rightarrow> ('u, 'x) action_sem \<Rightarrow> 'u uds_event_handler_data list \<Rightarrow> nat \<Rightarrow> inst \<Rightarrow>
   UDSEvent_t \<Rightarrow> uds_arg \<Rightarrow> ('u, 'x) uds_world \<Rightarrow>
   (UDSErr_t \<times> uds_arg, ('u, 'x) uds_world) outcome" where
  "uds_event_callback ck ac handlers fuel i ev arg w =
     (case find (\<lambda>h. h_event h = ev) handlers of
        Some h \<Rightarrow> uds_handle_event ck ac fuel i ev arg h w
      | None \<Rightarrow> Returns (UDS_NRC_ServiceNotSupported, arg) w)"

section \<open>Dynamic registrations\<close>

text \<open>The loop of \<open>find_next_dynamic_id\<close> over the ids in use, from a candidate on.\<close>

function find_next_from :: "u32 list \<Rightarrow> u32 \<Rightarrow> u32" where
  "find_next_from ids c =
     (if c = 0 then 0
      else if c \<notin> set ids then c
      else if c = 0xFFFFFFFF then 0
      else find_next_from ids (c + 1))"
  by pat_completeness auto
termination
proof (relation "measure (\<lambda>(ids, c). 2 ^ 32 - unat c)")
  fix ids :: "u32 list" and c :: u32
  assume "c \<noteq> 0xFFFFFFFF"
  then have "unat (c + 1) = Suc (unat c)" by (rule unat_u32_succ)
  moreover have "unat (c + 1) < 4294967296" by (rule unat_u32_less)
  ultimately show "((ids, c + 1), (ids, c)) \<in> measure (\<lambda>(ids, c). 2 ^ 32 - unat c)" by simp
qed simp

declare find_next_from.simps [simp del]

text \<open>The ids of the registrations at some addresses; \<open>None\<close> if one of them is not live.\<close>

fun reg_ids :: "('u, 'x) uds_world \<Rightarrow> addr list \<Rightarrow> u32 list option" where
  "reg_ids w [] = Some []"
| "reg_ids w (a # as) =
     (case deref_reg w (Dynamic a) of
        None \<Rightarrow> None
      | Some r \<Rightarrow> map_option ((#) (reg_dynamic_id r)) (reg_ids w as))"

definition find_next_dynamic_id ::
  "inst \<Rightarrow> ('u, 'x) uds_world \<Rightarrow> (u32, ('u, 'x) uds_world) outcome" where
  "find_next_dynamic_id i w =
     (case reg_ids w (dyn_regs w i) of
        None \<Rightarrow> Undefined
      | Some ids \<Rightarrow> Returns (find_next_from ids 1) w)"

definition uds_register_event_handler ::
  "inst \<Rightarrow> 'u uds_registration_t \<Rightarrow> ('u, 'x) uds_world \<Rightarrow>
   ((u32 \<times> addr) rc, ('u, 'x) uds_world) outcome" where
  "uds_register_event_handler i registration w =
     obind (find_next_dynamic_id i w) (\<lambda>next_id w1.
       if next_id = 0 then Returns (Inl ENOSPC) w1
       else
         (case k_malloc (Cell_reg (registration\<lparr>reg_instance := Some i, reg_dynamic_id := next_id\<rparr>)) w1 of
            (None, w2) \<Rightarrow> Returns (Inl ENOMEM) w2
          | (Some a, w2) \<Rightarrow>
              Returns (Inr (next_id, a)) (w2\<lparr>dyn_regs := (dyn_regs w2)(i := dyn_regs w2 i @ [a])\<rparr>)))"

fun find_by_dynamic_id ::
  "u32 \<Rightarrow> addr list \<Rightarrow> ('u, 'x) uds_world \<Rightarrow> (addr option, ('u, 'x) uds_world) outcome" where
  "find_by_dynamic_id did [] w = Returns None w"
| "find_by_dynamic_id did (a # as) w =
     (case deref_reg w (Dynamic a) of
        None \<Rightarrow> Undefined
      | Some r \<Rightarrow> if reg_dynamic_id r = did then Returns (Some a) w else find_by_dynamic_id did as w)"

definition unlink_and_free :: "inst \<Rightarrow> addr \<Rightarrow> ('u, 'x) uds_world \<Rightarrow> (c_int, ('u, 'x) uds_world) outcome" where
  "unlink_and_free i a w =
     obind (k_free a (w\<lparr>dyn_regs := (dyn_regs w)(i := slist_remove a (dyn_regs w i))\<rparr>))
       (\<lambda>_ w'. Returns rc0 w')"

definition uds_unregister_event_handler ::
  "('u, 'x) unregister_sem \<Rightarrow> inst \<Rightarrow> u32 \<Rightarrow> ('u, 'x) uds_world \<Rightarrow>
   (c_int, ('u, 'x) uds_world) outcome" where
  "uds_unregister_event_handler un i did w =
     obind (find_by_dynamic_id did (dyn_regs w i) w) (\<lambda>m w1.
       case m of
         None \<Rightarrow> Returns (Inl ENOENT) w1
       | Some a \<Rightarrow>
           (case Option.bind (deref_reg w1 (Dynamic a)) reg_unregister_fn of
              None \<Rightarrow> unlink_and_free i a w1
            | Some f \<Rightarrow>
                obind (un f a w1) (\<lambda>ret w2.
                  if rc_neg ret then Returns ret w2 else unlink_and_free i a w2)))"

section \<open>Facts about finding a free id\<close>

lemma find_next_from_zero [simp]: "find_next_from ids 0 = 0"
  by (simp add: find_next_from.simps)

text \<open>A result that is not zero is the least free id from the candidate on.\<close>

lemma find_next_from_free:
  assumes "find_next_from ids c = d" and "d \<noteq> 0"
  shows "d \<notin> set ids \<and> c \<le> d \<and> (\<forall>e. c \<le> e \<and> e < d \<longrightarrow> e \<in> set ids)"
  using assms
proof (induction ids c rule: find_next_from.induct)
  case (1 ids c)
  show ?case
  proof (cases "c \<noteq> 0 \<and> c \<in> set ids \<and> c \<noteq> 0xFFFFFFFF")
    case True
    then have rec: "find_next_from ids c = find_next_from ids (c + 1)"
      by (simp add: find_next_from.simps [of ids c])
    with True "1.IH" "1.prems" have IH: "d \<notin> set ids" "c + 1 \<le> d"
      "\<forall>e. c + 1 \<le> e \<and> e < d \<longrightarrow> e \<in> set ids" by auto
    from True have succ: "unat (c + 1) = Suc (unat c)" by (simp add: unat_u32_succ)
    have "e \<in> set ids" if "c \<le> e" "e < d" for e
    proof (cases "e = c")
      case False
      with that(1) succ have "c + 1 \<le> e" by (simp add: word_le_nat_alt word_unat_eq_iff)
      with IH(3) that(2) show ?thesis by blast
    qed (use True in simp)
    moreover from IH(2) succ have "c \<le> d" by (simp add: word_le_nat_alt)
    ultimately show ?thesis using IH(1) by blast
  next
    case False
    with "1.prems" have "d = c" "c \<notin> set ids"
      by (auto simp: find_next_from.simps [of ids c] split: if_splits)
    then show ?thesis by auto
  qed
qed

text \<open>Zero means that every id from the candidate on is in use.\<close>

lemma find_next_from_none:
  assumes "find_next_from ids c = 0" and "c \<noteq> 0" and "c \<le> e"
  shows "e \<in> set ids"
  using assms
proof (induction ids c rule: find_next_from.induct)
  case (1 ids c)
  from "1.prems" have used: "c \<in> set ids" by (auto simp: find_next_from.simps [of ids c] split: if_splits)
  show ?case
  proof (cases "e = c")
    case False
    have "c \<noteq> 0xFFFFFFFF"
    proof
      assume "c = 0xFFFFFFFF"
      with "1.prems"(3) have "unat e \<ge> 4294967295" by (simp add: word_le_nat_alt)
      with unat_u32_less [of e] have "unat e = 4294967295" by linarith
      then have "unat e = unat c" using \<open>c = 0xFFFFFFFF\<close> by simp
      with False show False by (simp add: word_unat_eq_iff)
    qed
    moreover from this have succ: "unat (c + 1) = Suc (unat c)" by (rule unat_u32_succ)
    moreover from succ have "c + 1 \<noteq> 0" by (metis unat_0 Suc_not_Zero)
    moreover from succ False "1.prems"(3) have "c + 1 \<le> e"
      by (simp add: word_le_nat_alt word_unat_eq_iff)
    ultimately show ?thesis
      using "1.IH" "1.prems" used by (simp add: find_next_from.simps [of ids c])
  qed (use used in simp)
qed

lemma find_next_from_room:
  assumes "length ids < 2 ^ 32 - 1"
  shows "find_next_from ids 1 \<noteq> 0"
proof
  assume z: "find_next_from ids 1 = 0"
  have "e \<in> set ids" if "e \<noteq> 0" for e :: u32
  proof -
    from that have "1 \<le> e" by (simp add: word_le_nat_alt unat_gt_0 Suc_le_eq)
    with z show ?thesis by (intro find_next_from_none [of ids 1]) simp_all
  qed
  then have "UNIV - {0} \<subseteq> set ids" by auto
  then have "card (UNIV - {0 :: u32}) \<le> length ids"
    by (meson List.finite_set card_length card_mono le_trans)
  moreover have "card (UNIV :: u32 set) = 2 ^ 32" by (simp add: card_word)
  ultimately show False using assms by (simp add: card_Diff_singleton)
qed

section \<open>The invariant of the dynamic registrations\<close>

text \<open>
  The id of the registration at an address, 0 where there is none (0 is never given to a
  registration), and what an instance knows under an id.
\<close>

definition dyn_id :: "('u, 'x) uds_world \<Rightarrow> addr \<Rightarrow> u32" where
  "dyn_id w a = (case deref_reg w (Dynamic a) of None \<Rightarrow> 0 | Some r \<Rightarrow> reg_dynamic_id r)"

definition dyn_lookup :: "inst \<Rightarrow> ('u, 'x) uds_world \<Rightarrow> u32 \<Rightarrow> 'u uds_registration_t option" where
  "dyn_lookup i w k =
     (case find (\<lambda>a. dyn_id w a = k) (dyn_regs w i) of
        None \<Rightarrow> None
      | Some a \<Rightarrow> deref_reg w (Dynamic a))"

text \<open>
  Live objects were handed out by the allocator; the registrations of an instance are live and
  have distinct ids that are not zero; no node is in the lists of two instances.
\<close>

definition uds_wf :: "('u, 'x) uds_world \<Rightarrow> bool" where
  "uds_wf w \<longleftrightarrow>
     (\<forall>a. heap w a \<noteq> None \<longrightarrow> a < malloc_cnt w) \<and>
     (\<forall>i. distinct (map (dyn_id w) (dyn_regs w i)) \<and> 0 \<notin> set (map (dyn_id w) (dyn_regs w i))) \<and>
     (\<forall>i j. i \<noteq> j \<longrightarrow> set (dyn_regs w i) \<inter> set (dyn_regs w j) = {})"

lemma dyn_id_live: "dyn_id w a \<noteq> 0 \<Longrightarrow> \<exists>r. heap w a = Some (Cell_reg r) \<and> reg_dynamic_id r = dyn_id w a"
  by (auto simp: dyn_id_def split: option.splits heap_cell.splits)

lemma deref_dyn_id: "deref_reg w (Dynamic a) = Some r \<Longrightarrow> dyn_id w a = reg_dynamic_id r"
  by (simp add: dyn_id_def)

lemma dyn_id_deref: "dyn_id w a \<noteq> 0 \<Longrightarrow> \<exists>r. deref_reg w (Dynamic a) = Some r \<and> reg_dynamic_id r = dyn_id w a"
  using dyn_id_live [of w a] by auto

lemma uds_wf_ids:
  assumes "uds_wf w"
  shows "distinct (map (dyn_id w) (dyn_regs w i))" and "a \<in> set (dyn_regs w i) \<Longrightarrow> dyn_id w a \<noteq> 0"
proof -
  from assms show "distinct (map (dyn_id w) (dyn_regs w i))" by (simp add: uds_wf_def)
  from assms have "0 \<notin> set (map (dyn_id w) (dyn_regs w i))" unfolding uds_wf_def by blast
  then show "a \<in> set (dyn_regs w i) \<Longrightarrow> dyn_id w a \<noteq> 0" by force
qed

lemma uds_wf_distinct: "uds_wf w \<Longrightarrow> distinct (dyn_regs w i)"
  using uds_wf_ids(1) [of w i] by (simp add: distinct_map)

lemma uds_wf_fresh: "uds_wf w \<Longrightarrow> a \<in> set (dyn_regs w i) \<Longrightarrow> a < malloc_cnt w"
  using uds_wf_ids(2) [of w a i] dyn_id_live [of w a] by (auto simp: uds_wf_def)

lemma reg_ids_live:
  "(\<And>a. a \<in> set as \<Longrightarrow> dyn_id w a \<noteq> 0) \<Longrightarrow> reg_ids w as = Some (map (dyn_id w) as)"
proof (induction as)
  case (Cons a as)
  then obtain r where "deref_reg w (Dynamic a) = Some r" "reg_dynamic_id r = dyn_id w a"
    using dyn_id_deref [of w a] by auto
  with Cons show ?case by simp
qed simp

lemma find_by_dynamic_id_live:
  "(\<And>a. a \<in> set as \<Longrightarrow> dyn_id w a \<noteq> 0) \<Longrightarrow>
   find_by_dynamic_id k as w = Returns (find (\<lambda>a. dyn_id w a = k) as) w"
proof (induction as)
  case (Cons a as)
  then obtain r where "deref_reg w (Dynamic a) = Some r" "reg_dynamic_id r = dyn_id w a"
    using dyn_id_deref [of w a] by auto
  with Cons show ?case by simp
qed simp

lemma find_key_iff:
  assumes "distinct (map f xs)"
  shows "find (\<lambda>a. f a = k) xs = Some a \<longleftrightarrow> a \<in> set xs \<and> f a = k"
  using assms by (induction xs) auto

lemma dyn_lookup_iff:
  assumes "uds_wf w"
  shows "dyn_lookup i w k = Some r \<longleftrightarrow>
    (\<exists>a \<in> set (dyn_regs w i). deref_reg w (Dynamic a) = Some r \<and> reg_dynamic_id r = k)"
proof
  assume "dyn_lookup i w k = Some r"
  then obtain a where "find (\<lambda>a. dyn_id w a = k) (dyn_regs w i) = Some a" "deref_reg w (Dynamic a) = Some r"
    by (auto simp: dyn_lookup_def simp del: deref_reg.simps split: option.splits)
  then show "\<exists>a \<in> set (dyn_regs w i). deref_reg w (Dynamic a) = Some r \<and> reg_dynamic_id r = k"
    using uds_wf_ids(1) [OF assms, of i] deref_dyn_id by (fastforce simp: find_key_iff)
next
  assume "\<exists>a \<in> set (dyn_regs w i). deref_reg w (Dynamic a) = Some r \<and> reg_dynamic_id r = k"
  then obtain a where a: "a \<in> set (dyn_regs w i)" "deref_reg w (Dynamic a) = Some r" "dyn_id w a = k"
    using deref_dyn_id by fastforce
  then have "find (\<lambda>a. dyn_id w a = k) (dyn_regs w i) = Some a"
    using uds_wf_ids(1) [OF assms, of i] by (simp add: find_key_iff)
  with a(2) show "dyn_lookup i w k = Some r" by (simp add: dyn_lookup_def del: deref_reg.simps)
qed

lemma dyn_lookup_None:
  assumes "uds_wf w"
  shows "dyn_lookup i w k = None \<longleftrightarrow> k \<notin> dyn_id w ` set (dyn_regs w i)"
proof -
  have "dyn_lookup i w k \<noteq> None \<longleftrightarrow> k \<in> dyn_id w ` set (dyn_regs w i)"
  proof
    assume "dyn_lookup i w k \<noteq> None"
    then show "k \<in> dyn_id w ` set (dyn_regs w i)"
      using dyn_lookup_iff [OF assms] deref_dyn_id by fastforce
  next
    assume "k \<in> dyn_id w ` set (dyn_regs w i)"
    then obtain a where "a \<in> set (dyn_regs w i)" "dyn_id w a = k" by auto
    then show "dyn_lookup i w k \<noteq> None"
      using dyn_lookup_iff [OF assms] dyn_id_deref uds_wf_ids(2) [OF assms] by fastforce
  qed
  then show ?thesis by blast
qed

section \<open>Registering\<close>

text \<open>The state after a successful registration.\<close>

definition registered :: "inst \<Rightarrow> 'u uds_registration_t \<Rightarrow> u32 \<Rightarrow> ('u, 'x) uds_world \<Rightarrow> ('u, 'x) uds_world" where
  "registered i reg k w =
     w\<lparr>malloc_cnt := Suc (malloc_cnt w),
       heap := (heap w)(malloc_cnt w \<mapsto> Cell_reg (reg\<lparr>reg_instance := Some i, reg_dynamic_id := k\<rparr>)),
       dyn_regs := (dyn_regs w)(i := dyn_regs w i @ [malloc_cnt w])\<rparr>"

lemma register_eq:
  assumes "uds_wf w"
  shows "uds_register_event_handler i reg w =
    (let k = find_next_from (map (dyn_id w) (dyn_regs w i)) 1 in
     if k = 0 then Returns (Inl ENOSPC) w
     else if malloc_ok w (malloc_cnt w)
       then Returns (Inr (k, malloc_cnt w)) (registered i reg k w)
       else Returns (Inl ENOMEM) (w\<lparr>malloc_cnt := Suc (malloc_cnt w)\<rparr>))"
proof -
  have "find_next_dynamic_id i w = Returns (find_next_from (map (dyn_id w) (dyn_regs w i)) 1) w"
    using reg_ids_live [of "dyn_regs w i" w] uds_wf_ids(2) [OF assms] by (simp add: find_next_dynamic_id_def)
  then show ?thesis
    by (simp add: uds_register_event_handler_def k_malloc_def Let_def registered_def)
qed

lemma dyn_id_registered:
  "dyn_id (registered i reg k w) a = (if a = malloc_cnt w then k else dyn_id w a)"
  by (simp add: dyn_id_def registered_def)

lemma deref_registered:
  "deref_reg (registered i reg k w) (Dynamic a) =
     (if a = malloc_cnt w then Some (reg\<lparr>reg_instance := Some i, reg_dynamic_id := k\<rparr>)
      else deref_reg w (Dynamic a))"
  by (simp add: registered_def)

lemma dyn_regs_registered:
  "dyn_regs (registered i reg k w) j = (if j = i then dyn_regs w i @ [malloc_cnt w] else dyn_regs w j)"
  by (simp add: registered_def)

lemma map_dyn_id_registered:
  assumes "uds_wf w"
  shows "map (dyn_id (registered i reg k w)) (dyn_regs w j) = map (dyn_id w) (dyn_regs w j)"
  using uds_wf_fresh [OF assms] by (intro map_cong) (fastforce simp: dyn_id_registered)+

lemma uds_wf_registered:
  assumes "uds_wf w" and "k \<noteq> 0" and "k \<notin> dyn_id w ` set (dyn_regs w i)"
  shows "uds_wf (registered i reg k w)"
proof -
  let ?w' = "registered i reg k w"
  have "a < malloc_cnt ?w'" if "heap ?w' a \<noteq> None" for a
    using that assms(1) by (auto simp: registered_def uds_wf_def less_SucI split: if_splits)
  moreover have "distinct (map (dyn_id ?w') (dyn_regs ?w' j)) \<and> 0 \<notin> set (map (dyn_id ?w') (dyn_regs ?w' j))" for j
  proof -
    have "map (dyn_id ?w') (dyn_regs ?w' j) =
      map (dyn_id w) (dyn_regs w j) @ (if j = i then [k] else [])"
      using map_dyn_id_registered [OF assms(1)] by (auto simp: dyn_regs_registered dyn_id_registered)
    then show ?thesis using assms uds_wf_ids(1) [OF assms(1), of j] uds_wf_ids(2) [OF assms(1), of _ j] by force
  qed
  moreover have "set (dyn_regs ?w' j) \<inter> set (dyn_regs ?w' l) = {}" if "j \<noteq> l" for j l
  proof -
    have "set (dyn_regs w j) \<inter> set (dyn_regs w l) = {}" using assms(1) that by (simp add: uds_wf_def)
    moreover have "malloc_cnt w \<notin> set (dyn_regs w m)" for m
      using uds_wf_fresh [OF assms(1)] by blast
    ultimately show ?thesis using that by (auto simp: dyn_regs_registered)
  qed
  ultimately show ?thesis unfolding uds_wf_def by blast
qed

lemma dyn_lookup_registered:
  assumes "uds_wf w" and "k \<noteq> 0" and "k \<notin> dyn_id w ` set (dyn_regs w i)"
  shows "dyn_lookup i (registered i reg k w) =
    (dyn_lookup i w)(k \<mapsto> reg\<lparr>reg_instance := Some i, reg_dynamic_id := k\<rparr>)"
proof -
  let ?w' = "registered i reg k w"
  have wf': "uds_wf ?w'" by (rule uds_wf_registered [OF assms])
  have "dyn_lookup i ?w' l = Some r \<longleftrightarrow>
      ((dyn_lookup i w)(k \<mapsto> reg\<lparr>reg_instance := Some i, reg_dynamic_id := k\<rparr>)) l = Some r" for l r
  proof -
    have fresh: "a \<noteq> malloc_cnt w" if "a \<in> set (dyn_regs w i)" for a
      using uds_wf_fresh [OF assms(1) that] by simp
    have "dyn_lookup i ?w' l = Some r \<longleftrightarrow>
        (l = k \<and> r = reg\<lparr>reg_instance := Some i, reg_dynamic_id := k\<rparr>) \<or> dyn_lookup i w l = Some r"
      using fresh
      by (auto simp: dyn_lookup_iff [OF wf'] dyn_lookup_iff [OF assms(1)] deref_registered dyn_regs_registered
          simp del: deref_reg.simps)
    moreover have "dyn_lookup i w k = None" using assms(3) by (simp add: dyn_lookup_None [OF assms(1)])
    ultimately show ?thesis by auto
  qed
  then show ?thesis by (metis (no_types, lifting) ext not_None_eq)
qed

text \<open>The id a successful registration returns was free; the id is the least free one.\<close>

lemma register_Inr:
  assumes "uds_wf w" and "uds_register_event_handler i reg w = Returns (Inr (k, a)) w'"
  shows "k \<noteq> 0" and "k \<notin> dyn_id w ` set (dyn_regs w i)" and "w' = registered i reg k w"
    and "a = malloc_cnt w" and "\<forall>e. e \<noteq> 0 \<and> e < k \<longrightarrow> e \<in> dyn_id w ` set (dyn_regs w i)"
proof -
  let ?ids = "map (dyn_id w) (dyn_regs w i)"
  from assms(2) have k: "k = find_next_from ?ids 1" and nz: "k \<noteq> 0"
    and w': "w' = registered i reg k w" and a: "a = malloc_cnt w"
    unfolding register_eq [OF assms(1)] by (auto simp: Let_def split: if_splits)
  show "k \<noteq> 0" "w' = registered i reg k w" "a = malloc_cnt w" by (fact nz w' a)+
  from find_next_from_free [OF k [symmetric] nz]
  have free: "k \<notin> set ?ids" "\<forall>e. 1 \<le> e \<and> e < k \<longrightarrow> e \<in> set ?ids" by auto
  then show "k \<notin> dyn_id w ` set (dyn_regs w i)" by auto
  have "1 \<le> e" if "e \<noteq> 0" for e :: u32
    using that by (simp add: word_le_nat_alt unat_gt_0 Suc_le_eq)
  with free(2) show "\<forall>e. e \<noteq> 0 \<and> e < k \<longrightarrow> e \<in> dyn_id w ` set (dyn_regs w i)" by auto
qed

section \<open>Unregistering\<close>

definition unregistered :: "inst \<Rightarrow> addr \<Rightarrow> ('u, 'x) uds_world \<Rightarrow> ('u, 'x) uds_world" where
  "unregistered i a w =
     w\<lparr>dyn_regs := (dyn_regs w)(i := remove1 a (dyn_regs w i)), heap := (heap w)(a := None)\<rparr>"

lemma unlink_and_free_live:
  "heap w a \<noteq> None \<Longrightarrow> unlink_and_free i a w = Returns rc0 (unregistered i a w)"
  by (auto simp: unlink_and_free_def k_free_def unregistered_def)

lemma dyn_id_unregistered:
  "dyn_id (unregistered i a w) b = (if b = a then 0 else dyn_id w b)"
  by (simp add: dyn_id_def unregistered_def)

lemma deref_unregistered:
  "deref_reg (unregistered i a w) (Dynamic b) = (if b = a then None else deref_reg w (Dynamic b))"
  by (simp add: unregistered_def)

lemma set_dyn_regs_unregistered:
  assumes "uds_wf w"
  shows "set (dyn_regs (unregistered i a w) j) = set (dyn_regs w j) - (if j = i then {a} else {})"
  using uds_wf_distinct [OF assms, of i] by (simp add: unregistered_def set_remove1_eq)

lemma uds_wf_unregistered:
  assumes "uds_wf w" and "a \<in> set (dyn_regs w i)"
  shows "uds_wf (unregistered i a w)"
proof -
  let ?w' = "unregistered i a w"
  have other: "a \<notin> set (dyn_regs w j)" if "j \<noteq> i" for j
    using assms that unfolding uds_wf_def by blast
  have "a \<notin> set (dyn_regs ?w' j)" for j
    using other by (simp add: set_dyn_regs_unregistered [OF assms(1)])
  then have ids: "map (dyn_id ?w') (dyn_regs ?w' j) = map (dyn_id w) (dyn_regs ?w' j)" for j
    by (intro map_cong) (auto simp: dyn_id_unregistered)
  have "distinct (map (dyn_id w) (dyn_regs ?w' j))" for j
  proof -
    have "distinct (dyn_regs ?w' j)"
      using uds_wf_distinct [OF assms(1)] by (simp add: unregistered_def distinct_remove1)
    moreover have "inj_on (dyn_id w) (set (dyn_regs ?w' j))"
      using uds_wf_ids(1) [OF assms(1), of j]
      by (auto simp: distinct_map set_dyn_regs_unregistered [OF assms(1)] intro: inj_on_subset)
    ultimately show ?thesis by (simp add: distinct_map)
  qed
  moreover have "0 \<notin> set (map (dyn_id w) (dyn_regs ?w' j))" for j
    using uds_wf_ids(2) [OF assms(1), of _ j] by (force simp: set_dyn_regs_unregistered [OF assms(1)])
  moreover have "heap ?w' b \<noteq> None \<longrightarrow> b < malloc_cnt ?w'" for b
    using assms(1) by (auto simp: unregistered_def uds_wf_def)
  moreover have "set (dyn_regs ?w' j) \<inter> set (dyn_regs ?w' l) = {}" if "j \<noteq> l" for j l
  proof -
    have "set (dyn_regs w j) \<inter> set (dyn_regs w l) = {}" using assms(1) that by (simp add: uds_wf_def)
    then show ?thesis by (auto simp: set_dyn_regs_unregistered [OF assms(1)])
  qed
  ultimately show ?thesis unfolding uds_wf_def ids by blast
qed

lemma dyn_lookup_unregistered:
  assumes "uds_wf w" and "a \<in> set (dyn_regs w i)"
  shows "dyn_lookup i (unregistered i a w) = (dyn_lookup i w)(dyn_id w a := None)"
proof -
  have "dyn_lookup i (unregistered i a w) l = Some r \<longleftrightarrow>
      ((dyn_lookup i w)(dyn_id w a := None)) l = Some r" for l r
  proof -
    have inj: "inj_on (dyn_id w) (set (dyn_regs w i))"
      using uds_wf_ids(1) [OF assms(1), of i] by (simp add: distinct_map)
    have eq: "b = a \<longleftrightarrow> reg_dynamic_id r = dyn_id w a"
      if "b \<in> set (dyn_regs w i)" "deref_reg w (Dynamic b) = Some r" for b
      using inj_on_eq_iff [OF inj that(1) assms(2)] deref_dyn_id [OF that(2)] by simp
    have "dyn_lookup i (unregistered i a w) l = Some r \<longleftrightarrow>
        (\<exists>b \<in> set (dyn_regs w i). b \<noteq> a \<and> deref_reg w (Dynamic b) = Some r \<and> reg_dynamic_id r = l)"
      unfolding dyn_lookup_iff [OF uds_wf_unregistered [OF assms]] deref_unregistered
        set_dyn_regs_unregistered [OF assms(1)] by (simp only: if_True refl) force
    also have "\<dots> \<longleftrightarrow> l \<noteq> dyn_id w a \<and> dyn_lookup i w l = Some r"
      unfolding dyn_lookup_iff [OF assms(1)] using eq by blast
    finally show ?thesis by auto
  qed
  then show ?thesis by (metis (no_types, lifting) ext not_None_eq)
qed

lemma unregister_unknown:
  assumes "uds_wf w" and "dyn_lookup i w k = None"
  shows "uds_unregister_event_handler un i k w = Returns (Inl ENOENT) w"
proof -
  from assms have "find (\<lambda>a. dyn_id w a = k) (dyn_regs w i) = None"
    by (auto simp: dyn_lookup_None find_None_iff)
  then show ?thesis
    using find_by_dynamic_id_live [of "dyn_regs w i" w k] uds_wf_ids(2) [OF assms(1), of _ i]
    by (simp add: uds_unregister_event_handler_def)
qed

text \<open>A known registration: its callback runs first, if it has one, and decides.\<close>

lemma unregister_known:
  assumes "uds_wf w" and "dyn_lookup i w k = Some r"
  obtains a where "a \<in> set (dyn_regs w i)" and "deref_reg w (Dynamic a) = Some r" and "dyn_id w a = k"
    and "uds_unregister_event_handler un i k w =
      (case reg_unregister_fn r of
         None \<Rightarrow> Returns rc0 (unregistered i a w)
       | Some f \<Rightarrow> obind (un f a w) (\<lambda>ret w2. if rc_neg ret then Returns ret w2 else unlink_and_free i a w2))"
proof -
  obtain a where a: "a \<in> set (dyn_regs w i)" "deref_reg w (Dynamic a) = Some r" "dyn_id w a = k"
    using assms deref_dyn_id by (fastforce simp: dyn_lookup_iff)
  then have "find (\<lambda>a. dyn_id w a = k) (dyn_regs w i) = Some a"
    using uds_wf_ids(1) [OF assms(1), of i] by (simp add: find_key_iff)
  then have "find_by_dynamic_id k (dyn_regs w i) w = Returns (Some a) w"
    using find_by_dynamic_id_live [of "dyn_regs w i" w k] uds_wf_ids(2) [OF assms(1), of _ i] by simp
  moreover have "unlink_and_free i a w = Returns rc0 (unregistered i a w)"
    using a(2) by (intro unlink_and_free_live) (auto split: option.splits)
  ultimately have "uds_unregister_event_handler un i k w =
      (case reg_unregister_fn r of
         None \<Rightarrow> Returns rc0 (unregistered i a w)
       | Some f \<Rightarrow> obind (un f a w) (\<lambda>ret w2. if rc_neg ret then Returns ret w2 else unlink_and_free i a w2))"
    using a(2) by (simp add: uds_unregister_event_handler_def del: deref_reg.simps cong: option.case_cong)
  with a show ?thesis by (rule that)
qed

section \<open>The dynamic registrations are a registry\<close>

definition dyn_add :: "inst \<Rightarrow> 'u uds_registration_t \<Rightarrow> ('u, 'x) uds_world \<Rightarrow> (u32 \<times> ('u, 'x) uds_world) option" where
  "dyn_add i reg w =
     (if reg_unregister_fn reg \<noteq> None then None
      else case uds_register_event_handler i reg w of
             Returns (Inr (k, a)) w' \<Rightarrow> Some (k, w')
           | _ \<Rightarrow> None)"

definition dyn_remove :: "('u, 'x) unregister_sem \<Rightarrow> inst \<Rightarrow> u32 \<Rightarrow> ('u, 'x) uds_world \<Rightarrow> ('u, 'x) uds_world option" where
  "dyn_remove un i k w =
     (case uds_unregister_event_handler un i k w of Returns (Inr n) w' \<Rightarrow> Some w' | _ \<Rightarrow> None)"

text \<open>The registrations of the instance that have no unregister callback of their own.\<close>

definition dyn_plain :: "inst \<Rightarrow> ('u, 'x) uds_world \<Rightarrow> bool" where
  "dyn_plain i w \<longleftrightarrow> uds_wf w \<and> (\<forall>k r. dyn_lookup i w k = Some r \<longrightarrow> reg_unregister_fn r = None)"

lemma dyn_add_Some:
  assumes "uds_wf w" and "dyn_add i reg w = Some (k, w')"
  shows "reg_unregister_fn reg = None" and "k \<noteq> 0" and "k \<notin> dyn_id w ` set (dyn_regs w i)"
    and "w' = registered i reg k w"
proof -
  from assms(2) obtain a where plain: "reg_unregister_fn reg = None"
    and r: "uds_register_event_handler i reg w = Returns (Inr (k, a)) w'"
    by (auto simp: dyn_add_def split: if_splits outcome.splits sum.splits)
  from plain show "reg_unregister_fn reg = None" .
  from register_Inr [OF assms(1) r] show "k \<noteq> 0" "k \<notin> dyn_id w ` set (dyn_regs w i)"
    "w' = registered i reg k w" by blast+
qed

lemma dyn_remove_plain:
  assumes "dyn_plain i w"
  shows "dyn_remove un i k w = None \<longleftrightarrow> dyn_lookup i w k = None"
    and "dyn_remove un i k w = Some w' \<Longrightarrow>
      \<exists>a \<in> set (dyn_regs w i). dyn_id w a = k \<and> w' = unregistered i a w"
proof -
  from assms have wf: "uds_wf w" by (simp add: dyn_plain_def)
  have unknown: "dyn_remove un i k w = None" if "dyn_lookup i w k = None"
    using unregister_unknown [OF wf that] by (simp add: dyn_remove_def)
  have known: "\<exists>a \<in> set (dyn_regs w i). dyn_id w a = k \<and> dyn_remove un i k w = Some (unregistered i a w)"
    if l: "dyn_lookup i w k = Some r" for r
  proof -
    from l assms have "reg_unregister_fn r = None" by (auto simp: dyn_plain_def)
    with l wf show ?thesis by (elim unregister_known [where un = un]) (auto simp: dyn_remove_def)
  qed
  from unknown known show "dyn_remove un i k w = None \<longleftrightarrow> dyn_lookup i w k = None"
    by (cases "dyn_lookup i w k") auto
  show "dyn_remove un i k w = Some w' \<Longrightarrow>
      \<exists>a \<in> set (dyn_regs w i). dyn_id w a = k \<and> w' = unregistered i a w"
    using unknown known by (cases "dyn_lookup i w k") fastforce+
qed

interpretation dynreg: registry "dyn_plain i" "dyn_lookup i" "dyn_add i"
  "\<lambda>k reg. reg\<lparr>reg_instance := Some i, reg_dynamic_id := k\<rparr>" "dyn_remove un i"
  for i :: inst and un :: "('u, 'x) unregister_sem"
proof (unfold_locales, goal_cases)
  case (1 s v k s')
  then have wf: "uds_wf s" by (simp add: dyn_plain_def)
  then show ?case using dyn_add_Some [OF wf 1(2)] by (simp add: dyn_lookup_None)
next
  case (2 s v k s')
  then have wf: "uds_wf s" by (simp add: dyn_plain_def)
  then show ?case using dyn_add_Some [OF wf 2(2)] by (simp add: dyn_lookup_registered)
next
  case (3 s v k s')
  then have wf: "uds_wf s" by (simp add: dyn_plain_def)
  then show ?case using 3(1) dyn_add_Some [OF wf 3(2)]
    by (auto simp: dyn_plain_def uds_wf_registered dyn_lookup_registered split: if_splits)
next
  case (4 s k)
  then show ?case by (rule dyn_remove_plain)
next
  case (5 s k s')
  then show ?case using dyn_remove_plain(2) [OF 5] dyn_lookup_unregistered by (fastforce simp: dyn_plain_def)
next
  case (6 s k s')
  then show ?case using dyn_remove_plain(2) [OF 6]
    by (auto simp: dyn_plain_def uds_wf_unregistered dyn_lookup_unregistered split: if_splits)
qed

section \<open>The dispatcher as one pass over the registrations\<close>

text \<open>
  The reference: visit the registrations of a list in order, each with its own start value of
  \<open>consume_event\<close>, and stop at the first that consumes the event or fails.
\<close>

fun visit_refs ::
  "('u, 'x) check_sem \<Rightarrow> ('u, 'x) action_sem \<Rightarrow> inst \<Rightarrow> UDSEvent_t \<Rightarrow> 'u uds_event_handler_data \<Rightarrow>
   (reg_ref \<times> bool) list \<Rightarrow> bool \<Rightarrow> uds_arg \<Rightarrow> ('u, 'x) uds_world \<Rightarrow>
   ((UDSErr_t \<times> uds_arg) + (bool \<times> uds_arg), ('u, 'x) uds_world) outcome" where
  "visit_refs ck ac i ev h [] found arg w = Returns (Inr (found, arg)) w"
| "visit_refs ck ac i ev h (rc # rs) found arg w =
     obind (uds_check_and_act_on_event ck ac
              \<lparr>ctx_instance = i, ctx_registration = fst rc, ctx_event = ev, ctx_arg = arg\<rparr>
              h found (snd rc) w)
       (\<lambda>(ret, found', consume, arg') w'.
          if consume \<or> ret \<noteq> UDS_OK then Returns (Inl (ret, arg')) w'
          else visit_refs ck ac i ev h rs found' arg' w')"

definition dispatch_once ::
  "('u, 'x) check_sem \<Rightarrow> ('u, 'x) action_sem \<Rightarrow> inst \<Rightarrow> UDSEvent_t \<Rightarrow> 'u uds_event_handler_data \<Rightarrow>
   (reg_ref \<times> bool) list \<Rightarrow> uds_arg \<Rightarrow> ('u, 'x) uds_world \<Rightarrow>
   (UDSErr_t \<times> uds_arg, ('u, 'x) uds_world) outcome" where
  "dispatch_once ck ac i ev h rs arg w =
     obind (visit_refs ck ac i ev h rs False arg w)
       (\<lambda>r w'. case r of
          Inl res \<Rightarrow> Returns res w'
        | Inr (found, arg') \<Rightarrow>
            Returns (if found then UDS_PositiveResponse else h_default_nrc h, arg') w')"

text \<open>Static registrations first, then the dynamic ones of the instance, oldest first.\<close>

definition refs_in_order :: "inst \<Rightarrow> ('u, 'x) uds_world \<Rightarrow> (reg_ref \<times> bool) list" where
  "refs_in_order i w =
     map (\<lambda>n. (Static n, True)) [0..<length (static_regs w)] @
     map (\<lambda>a. (Dynamic a, False)) (dyn_regs w i)"

lemma visit_refs_append:
  "visit_refs ck ac i ev h (xs @ ys) found arg w =
     obind (visit_refs ck ac i ev h xs found arg w)
       (\<lambda>r w'. case r of
          Inl res \<Rightarrow> Returns (Inl res) w'
        | Inr (found', arg') \<Rightarrow> visit_refs ck ac i ev h ys found' arg' w')"
proof (induction xs arbitrary: found arg w)
  case (Cons x xs)
  then show ?case by (auto simp: obind_assoc intro!: obind_cong split: prod.splits)
qed simp

lemma handle_static_visit:
  "handle_static ck ac i ev h ns found arg w =
     visit_refs ck ac i ev h (map (\<lambda>n. (Static n, True)) ns) found arg w"
proof (induction ns arbitrary: found arg w)
  case (Cons n ns)
  then show ?case by (auto intro!: obind_cong split: prod.splits)
qed simp

text \<open>
  What a handler may do to the list that is being walked: it keeps the list of the instance and
  frees none of its nodes.
\<close>

definition keeps_list :: "inst \<Rightarrow> ('u, 'x) uds_world \<Rightarrow> ('u, 'x) uds_world \<Rightarrow> bool" where
  "keeps_list i w w' \<longleftrightarrow> dyn_regs w' i = dyn_regs w i \<and>
     (\<forall>a \<in> set (dyn_regs w i). heap w a \<noteq> None \<longrightarrow> heap w' a \<noteq> None)"

lemma keeps_list_refl [simp]: "keeps_list i w w"
  by (simp add: keeps_list_def)

lemma keeps_list_trans: "keeps_list i w w' \<Longrightarrow> keeps_list i w' w'' \<Longrightarrow> keeps_list i w w''"
  by (simp add: keeps_list_def)

locale stable_handlers =
  fixes ck :: "('u, 'x) check_sem" and ac :: "('u, 'x) action_sem"
    and i :: inst and h :: "'u uds_event_handler_data"
  assumes check_keeps: "h_get_check h r = Some c \<Longrightarrow> ck c ctx b w = Returns x w' \<Longrightarrow> keeps_list i w w'"
    and action_keeps: "h_get_action h r = Some a \<Longrightarrow> ac a ctx b w = Returns y w' \<Longrightarrow> keeps_list i w w'"
begin

lemma check_then_action_keeps:
  assumes "h_get_check h r = Some c" and "ck c ctx b w = Returns x w1"
    and "h_get_action h r' = Some a" and "ac a ctx b' w1 = Returns y w2"
  shows "keeps_list i w w2"
  using check_keeps [OF assms(1,2)] action_keeps [OF assms(3,4)] by (rule keeps_list_trans)

lemma check_and_act_keeps:
  assumes "uds_check_and_act_on_event ck ac ctx h found consume w = Returns x w'"
  shows "keeps_list i w w'"
proof (rule oretD [where P = "\<lambda>_. keeps_list i w", OF _ assms])
  show "oret (\<lambda>_. keeps_list i w) (uds_check_and_act_on_event ck ac ctx h found consume w)"
    unfolding uds_check_and_act_on_event_def
    by (auto split: option.splits prod.splits intro!: oret_obind)
      (blast intro: check_keeps check_then_action_keeps)+
qed

lemma handle_dynamic_visit:
  assumes "dyn_regs w i = pre @ as" and "distinct (pre @ as)" and "length as \<le> fuel"
    and "\<And>a. a \<in> set as \<Longrightarrow> heap w a \<noteq> None"
  shows "handle_dynamic ck ac i ev h fuel (head_of as) found arg w =
    visit_refs ck ac i ev h (map (\<lambda>a. (Dynamic a, False)) as) found arg w"
  using assms
proof (induction as arbitrary: pre fuel found arg w)
  case (Cons a as)
  from Cons.prems(3) obtain fuel' where fuel: "fuel = Suc fuel'" "length as \<le> fuel'" by (cases fuel) auto
  have step: "(if heap w' a = None then Undefined
      else handle_dynamic ck ac i ev h fuel' (next_in (dyn_regs w' i) a) found' arg' w') =
      visit_refs ck ac i ev h (map (\<lambda>a. (Dynamic a, False)) as) found' arg' w'"
    if "keeps_list i w w'" for found' arg' w'
  proof -
    from that Cons.prems have regs: "dyn_regs w' i = (pre @ [a]) @ as" "distinct ((pre @ [a]) @ as)"
      and live: "\<And>b. b \<in> set (a # as) \<Longrightarrow> heap w' b \<noteq> None"
      by (auto simp: keeps_list_def)
    have "next_in (dyn_regs w' i) a = head_of as"
      using regs next_in_append [of a pre as] by simp
    moreover have "handle_dynamic ck ac i ev h fuel' (head_of as) found' arg' w' =
        visit_refs ck ac i ev h (map (\<lambda>a. (Dynamic a, False)) as) found' arg' w'"
      by (rule Cons.IH [OF regs fuel(2)]) (rule live, simp)
    moreover have "heap w' a \<noteq> None" by (rule live) simp
    ultimately show ?thesis by (simp only: if_False)
  qed
  show ?case
    unfolding fuel(1) head_of_simps handle_dynamic.simps list.map visit_refs.simps fst_conv snd_conv
    by (rule obind_cong [OF refl], drule check_and_act_keeps, auto simp: step split: prod.splits)
qed simp

lemma visit_refs_keeps:
  "visit_refs ck ac i ev h rs found arg w = Returns x w' \<Longrightarrow> keeps_list i w w'"
proof (induction rs arbitrary: found arg w)
  case (Cons r rs)
  then show ?case
    by (auto simp: outcome_simps split: prod.splits if_splits
        dest!: check_and_act_keeps intro: keeps_list_trans)
qed simp

lemma handle_event_one_pass:
  assumes "distinct (dyn_regs w i)" and "\<And>a. a \<in> set (dyn_regs w i) \<Longrightarrow> heap w a \<noteq> None"
    and "length (dyn_regs w i) \<le> fuel"
  shows "uds_handle_event ck ac fuel i ev arg h w = dispatch_once ck ac i ev h (refs_in_order i w) arg w"
proof -
  let ?st = "map (\<lambda>n. (Static n, True)) [0..<length (static_regs w)]"
  have dyn: "handle_dynamic ck ac i ev h fuel (head_of (dyn_regs w1 i)) found1 arg1 w1 =
      visit_refs ck ac i ev h (map (\<lambda>a. (Dynamic a, False)) (dyn_regs w i)) found1 arg1 w1"
    if "visit_refs ck ac i ev h ?st False arg w = Returns (Inr (found1, arg1)) w1" for found1 arg1 w1
  proof -
    from visit_refs_keeps [OF that] assms
    show ?thesis using handle_dynamic_visit [of w1 "[]" "dyn_regs w1 i" fuel]
      by (simp add: keeps_list_def)
  qed
  show ?thesis
    unfolding uds_handle_event_def dispatch_once_def refs_in_order_def visit_refs_append handle_static_visit
      obind_assoc
    by (rule obind_cong [OF refl]) (auto simp: dyn split: sum.splits)
qed

end

section \<open>Invariants of the dispatcher\<close>

text \<open>What every visit of a registration keeps, the dispatcher keeps.\<close>

locale dispatch_invariant =
  fixes ck :: "('u, 'x) check_sem" and ac :: "('u, 'x) action_sem" and i :: inst and ev :: UDSEvent_t
    and h :: "'u uds_event_handler_data" and P :: "('u, 'x) uds_world \<Rightarrow> bool"
  assumes visit_inv: "P w \<Longrightarrow> oholds P (uds_check_and_act_on_event ck ac
    \<lparr>ctx_instance = i, ctx_registration = ref, ctx_event = ev, ctx_arg = arg\<rparr> h found consume w)"
begin

lemma handle_static_inv: "P w \<Longrightarrow> oholds P (handle_static ck ac i ev h ns found arg w)"
proof (induction ns arbitrary: found arg w)
  case (Cons n ns)
  then show ?case
    by (auto intro!: oholds_obind visit_inv split: prod.splits)
qed simp

lemma handle_dynamic_inv: "P w \<Longrightarrow> oholds P (handle_dynamic ck ac i ev h fuel c found arg w)"
proof (induction fuel arbitrary: c found arg w)
  case 0
  then show ?case by (cases c) auto
next
  case (Suc fuel)
  then show ?case
    by (cases c) (auto intro!: oholds_obind visit_inv split: prod.splits)
qed

lemma handle_event_inv: "P w \<Longrightarrow> oholds P (uds_handle_event ck ac fuel i ev arg h w)"
  unfolding uds_handle_event_def
  by (auto intro!: oholds_obind handle_static_inv handle_dynamic_inv split: sum.splits)

end

text \<open>In particular, what every check and every action keeps.\<close>

locale invariant_handlers =
  fixes ck :: "('u, 'x) check_sem" and ac :: "('u, 'x) action_sem"
    and P :: "('u, 'x) uds_world \<Rightarrow> bool"
  assumes check_inv: "P w \<Longrightarrow> oholds P (ck c ctx b w)"
    and action_inv: "P w \<Longrightarrow> oholds P (ac a ctx b w)"

sublocale invariant_handlers \<subseteq> dispatch: dispatch_invariant ck ac i ev h P for i ev h
  by unfold_locales
    (auto simp: uds_check_and_act_on_event_def split: option.splits prod.splits intro!: oholds_obind check_inv action_inv)

context invariant_handlers
begin

lemma event_callback_inv: "P w \<Longrightarrow> oholds P (uds_event_callback ck ac hs fuel i ev arg w)"
  unfolding uds_event_callback_def by (auto intro: dispatch.handle_event_inv split: option.splits)

end

section \<open>Properties\<close>

text \<open>The state before any handler is registered at run time.\<close>

definition boot_world :: "'u uds_registration_t list \<Rightarrow> 'x \<Rightarrow> ('u, 'x) uds_world" where
  "boot_world regs x =
     \<lparr>static_regs = regs, heap = Map.empty, malloc_ok = (\<lambda>_. True), malloc_cnt = 0,
      dyn_regs = (\<lambda>_. []), env = x\<rparr>"

definition no_actor :: "'u uds_actor" where
  "no_actor = \<lparr>act_check = None, act_action = None\<rparr>"

lemma uds_wf_boot [simp]: "uds_wf (boot_world regs x)"
  by (simp add: uds_wf_def boot_world_def)

lemma dyn_lookup_other_instance:
  assumes "uds_wf w" and "j \<noteq> i"
  shows "dyn_lookup j (registered i reg k w) = dyn_lookup j w"
proof
  fix l
  have regs: "dyn_regs (registered i reg k w) j = dyn_regs w j"
    using assms(2) by (simp add: dyn_regs_registered)
  have same: "dyn_id (registered i reg k w) a = dyn_id w a"
    and deref: "deref_reg (registered i reg k w) (Dynamic a) = deref_reg w (Dynamic a)"
    if "a \<in> set (dyn_regs w j)" for a
    using uds_wf_fresh [OF assms(1) that] by (simp_all add: dyn_id_registered deref_registered del: deref_reg.simps)
  then have "find (\<lambda>a. dyn_id (registered i reg k w) a = l) (dyn_regs w j) = find (\<lambda>a. dyn_id w a = l) (dyn_regs w j)"
    by (intro find_cong) auto
  moreover have "a \<in> set (dyn_regs w j)" if "find (\<lambda>a. dyn_id w a = l) (dyn_regs w j) = Some a" for a
    using that by (auto simp: find_Some_iff)
  ultimately show "dyn_lookup j (registered i reg k w) l = dyn_lookup j w l"
    using deref by (simp add: dyn_lookup_def regs del: deref_reg.simps split: option.splits)
qed

text \<open>
  (C2) A successful \<open>uds_register_event_handler\<close> gives the handler the least id that is not zero
  and not in use by the instance, stores the registration under this id, bound to the instance,
  changes no other registration of this or of another instance, and keeps the invariant.
\<close>

theorem register_least_free_id:
  assumes "uds_wf w" and "uds_register_event_handler i reg w = Returns (Inr (k, a)) w'"
  shows "k \<noteq> 0 \<and> dyn_lookup i w k = None \<and> (\<forall>e. e \<noteq> 0 \<and> e < k \<longrightarrow> dyn_lookup i w e \<noteq> None) \<and>
    dyn_lookup i w' = (dyn_lookup i w)(k \<mapsto> reg\<lparr>reg_instance := Some i, reg_dynamic_id := k\<rparr>) \<and>
    (\<forall>j. j \<noteq> i \<longrightarrow> dyn_lookup j w' = dyn_lookup j w) \<and> uds_wf w'"
proof -
  note r = register_Inr [OF assms]
  have "dyn_lookup i w e \<noteq> None" if "e \<noteq> 0" "e < k" for e
    using r(5) that by (simp add: dyn_lookup_None [OF assms(1)] del: not_None_eq)
  then show ?thesis
    using r assms(1)
    by (simp add: dyn_lookup_None uds_wf_registered dyn_lookup_registered dyn_lookup_other_instance
        del: not_None_eq)
qed

theorem register_least_free_id_witness:
  "uds_register_event_handler 0 \<lparr>reg_instance = None, reg_data = Reg_memory None no_actor no_actor,
      reg_dynamic_id = 7, reg_unregister_fn = None\<rparr> (boot_world [] () :: (nat, unit) uds_world) =
     Returns (Inr (1, 0)) (registered 0 \<lparr>reg_instance = None, reg_data = Reg_memory None no_actor no_actor,
      reg_dynamic_id = 7, reg_unregister_fn = None\<rparr> 1 (boot_world [] ())) \<and>
   dyn_lookup 0 (registered 0 \<lparr>reg_instance = None, reg_data = Reg_memory None no_actor no_actor,
      reg_dynamic_id = 7, reg_unregister_fn = None\<rparr> 1 (boot_world [] () :: (nat, unit) uds_world)) 1 \<noteq> None"
proof -
  let ?r = "\<lparr>reg_instance = None, reg_data = Reg_memory None no_actor no_actor,
      reg_dynamic_id = 7, reg_unregister_fn = None\<rparr> :: nat uds_registration_t"
  let ?w = "boot_world [] () :: (nat, unit) uds_world"
  have "uds_register_event_handler 0 ?r ?w = Returns (Inr (1, 0)) (registered 0 ?r 1 ?w)"
    by (simp add: register_eq find_next_from.simps boot_world_def uds_wf_def)
  then show ?thesis using register_least_free_id [OF uds_wf_boot, of 0 ?r "[]" "()" 1 0] by simp
qed

text \<open>
  In a state that satisfies the invariant, registering always returns: it succeeds unless all
  ids from 1 to UINT32_MAX are taken (\<open>-ENOSPC\<close>) or the allocation fails (\<open>-ENOMEM\<close>), and a
  failure changes neither the lists of registrations nor the heap.
\<close>

theorem register_succeeds_or_keeps:
  assumes "uds_wf w"
  shows "\<exists>r w'. uds_register_event_handler i reg w = Returns r w' \<and>
    (case r of
       Inr _ \<Rightarrow> malloc_ok w (malloc_cnt w)
     | Inl e \<Rightarrow> dyn_regs w' = dyn_regs w \<and> heap w' = heap w \<and>
         (e = ENOSPC \<and> 2 ^ 32 - 1 \<le> length (dyn_regs w i) \<or> e = ENOMEM \<and> \<not> malloc_ok w (malloc_cnt w)))"
proof (cases "find_next_from (map (dyn_id w) (dyn_regs w i)) 1 = 0")
  case True
  then have "2 ^ 32 - 1 \<le> length (dyn_regs w i)"
    using find_next_from_room [of "map (dyn_id w) (dyn_regs w i)"] by (metis length_map linorder_not_less)
  with True show ?thesis by (simp add: register_eq [OF assms])
next
  case False
  then show ?thesis by (simp add: register_eq [OF assms] Let_def)
qed

theorem register_succeeds_or_keeps_witness:
  "\<exists>r w'. uds_register_event_handler 3 \<lparr>reg_instance = None, reg_data = Reg_upload_download,
      reg_dynamic_id = 0, reg_unregister_fn = None\<rparr> (boot_world [] () :: (nat, unit) uds_world) = Returns r w'"
  using register_succeeds_or_keeps [OF uds_wf_boot [of "[]" "()"]] by blast

text \<open>
  \<open>uds_unregister_event_handler\<close> for an id that is not registered returns \<open>-ENOENT\<close> and
  changes nothing. For a registered handler without an unregister callback it returns 0, and the
  id, and only this id, is free again. A callback that fails is final: its error is returned and
  the registration stays listed.
\<close>

theorem unregister_cases:
  assumes "uds_wf w"
  shows "case dyn_lookup i w k of
      None \<Rightarrow> uds_unregister_event_handler un i k w = Returns (Inl ENOENT) w
    | Some r \<Rightarrow>
        (case reg_unregister_fn r of
           None \<Rightarrow> \<exists>w'. uds_unregister_event_handler un i k w = Returns rc0 w' \<and> uds_wf w' \<and>
             dyn_lookup i w' = (dyn_lookup i w)(k := None)
         | Some f \<Rightarrow> \<exists>a. deref_reg w (Dynamic a) = Some r \<and>
             (\<forall>e w2. un f a w = Returns (Inl e) w2 \<longrightarrow>
                uds_unregister_event_handler un i k w = Returns (Inl e) w2))"
proof (cases "dyn_lookup i w k")
  case None
  then show ?thesis using unregister_unknown [OF assms None] by simp
next
  case (Some r)
  then obtain a where a: "a \<in> set (dyn_regs w i)" "deref_reg w (Dynamic a) = Some r" "dyn_id w a = k"
    and eq: "uds_unregister_event_handler un i k w =
      (case reg_unregister_fn r of
         None \<Rightarrow> Returns rc0 (unregistered i a w)
       | Some f \<Rightarrow> obind (un f a w) (\<lambda>ret w2. if rc_neg ret then Returns ret w2 else unlink_and_free i a w2))"
    by (rule unregister_known [OF assms, where un = un])
  then show ?thesis
    using Some dyn_lookup_unregistered [OF assms a(1)] uds_wf_unregistered [OF assms a(1)]
    by (auto simp del: deref_reg.simps split: option.splits)
qed

lemma registered_boot:
  fixes reg :: "'u uds_registration_t"
  shows "uds_wf (registered 0 reg 1 (boot_world regs x))"
    and "dyn_lookup 0 (registered 0 reg 1 (boot_world regs x)) =
      [1 \<mapsto> reg\<lparr>reg_instance := Some 0, reg_dynamic_id := 1\<rparr>]"
proof -
  have none: "dyn_regs (boot_world regs x) j = []" for j by (simp add: boot_world_def)
  show "uds_wf (registered 0 reg 1 (boot_world regs x))" by (simp add: uds_wf_registered none)
  show "dyn_lookup 0 (registered 0 reg 1 (boot_world regs x)) =
      [1 \<mapsto> reg\<lparr>reg_instance := Some 0, reg_dynamic_id := 1\<rparr>]"
    by (simp add: dyn_lookup_registered none) (simp add: dyn_lookup_def boot_world_def fun_eq_iff)
qed

theorem unregister_cases_witness:
  "\<exists>w'. uds_unregister_event_handler (\<lambda>f a w. Returns rc0 w) 0 1
     (registered 0 \<lparr>reg_instance = None, reg_data = Reg_upload_download, reg_dynamic_id = 0, reg_unregister_fn = None\<rparr> 1
        (boot_world [] () :: (nat, unit) uds_world)) = Returns rc0 w' \<and> dyn_lookup 0 w' 1 = None"
proof -
  let ?r = "\<lparr>reg_instance = None, reg_data = Reg_upload_download, reg_dynamic_id = 0, reg_unregister_fn = None\<rparr> :: nat uds_registration_t"
  show ?thesis
    using unregister_cases [OF registered_boot(1) [of ?r "[]" "()"],
      where i = 0 and k = 1 and un = "\<lambda>f a w. Returns rc0 w"]
    by (auto simp: registered_boot(2))
qed

text \<open>
  (C16) Whatever handlers (without unregister callbacks) are registered and unregistered in between,
  a registered handler stays known under its id, with the same content, until this id is
  unregistered.
\<close>

theorem registration_persists:
  assumes "dyn_plain i w" and "dyn_lookup i w k = Some r" and "Remove k \<notin> set ops"
  shows "dyn_lookup i (dynreg.run_ops i un ops w) k = Some r"
  using assms by (rule dynreg.run_ops_keeps_entry)

theorem registration_persists_witness:
  "dyn_lookup 0 (dynreg.run_ops 0 (\<lambda>f a w. Returns rc0 w)
      [Remove 2, Add \<lparr>reg_instance = None, reg_data = Reg_upload_download, reg_dynamic_id = 0, reg_unregister_fn = None\<rparr>]
      (registered 0 \<lparr>reg_instance = None, reg_data = Reg_upload_download, reg_dynamic_id = 0, reg_unregister_fn = None\<rparr> 1
        (boot_world [] () :: (nat, unit) uds_world))) 1 =
    Some \<lparr>reg_instance = Some 0, reg_data = Reg_upload_download, reg_dynamic_id = 1, reg_unregister_fn = None\<rparr>"
proof (rule registration_persists)
  let ?r = "\<lparr>reg_instance = None, reg_data = Reg_upload_download, reg_dynamic_id = 0, reg_unregister_fn = None\<rparr> :: nat uds_registration_t"
  show "dyn_plain 0 (registered 0 ?r 1 (boot_world [] ()))"
    by (simp add: dyn_plain_def registered_boot)
qed (simp_all add: registered_boot)

end
