(* ===== verification/Uds_Services.thy ===== *)
theory Uds_Services
  imports Uds_Core
begin

text \<open>
  The service files of \<^verbatim>\<open>lib/uds\<close>: for every event the functions that select the check and
  the action of a registration, and the entry of the handler table
  (\<^verbatim>\<open>STRUCT_SECTION_ITERABLE(uds_event_handler_data, ...)\<close>); the checks that filter by data
  identifier, routine identifier and sub-function; the default hard reset handlers, the switch
  to the firmware loader and the handlers of the default instance. A selector is only called for
  a registration of the type its table entry names; on any other it yields the null pointer.
\<close>

section \<open>Selectors and handler table\<close>

definition uds_get_check_for_ecu_reset :: "'u uds_registration_t \<Rightarrow> 'u check_fn option" where
  "uds_get_check_for_ecu_reset reg =
     (case reg_data reg of Reg_ecu_reset _ a _ _ \<Rightarrow> act_check a | _ \<Rightarrow> None)"

definition uds_get_action_for_ecu_reset :: "'u uds_registration_t \<Rightarrow> 'u action_fn option" where
  "uds_get_action_for_ecu_reset reg =
     (case reg_data reg of Reg_ecu_reset _ a _ _ \<Rightarrow> act_action a | _ \<Rightarrow> None)"

definition handler_ecu_reset :: "'u uds_event_handler_data" where
  "handler_ecu_reset =
     \<lparr>h_event = UDS_EVT_EcuReset, h_get_check = uds_get_check_for_ecu_reset,
      h_get_action = uds_get_action_for_ecu_reset, h_default_nrc = UDS_NRC_SubFunctionNotSupported,
      h_registration_type = UDS_REGISTRATION_TYPE__ECU_RESET\<rparr>"

definition uds_get_check_for_execute_scheduled_reset :: "'u uds_registration_t \<Rightarrow> 'u check_fn option" where
  "uds_get_check_for_execute_scheduled_reset reg =
     (case reg_data reg of Reg_ecu_reset _ _ a _ \<Rightarrow> act_check a | _ \<Rightarrow> None)"

definition uds_get_action_for_execute_scheduled_reset :: "'u uds_registration_t \<Rightarrow> 'u action_fn option" where
  "uds_get_action_for_execute_scheduled_reset reg =
     (case reg_data reg of Reg_ecu_reset _ _ a _ \<Rightarrow> act_action a | _ \<Rightarrow> None)"

definition handler_execute_scheduled_reset :: "'u uds_event_handler_data" where
  "handler_execute_scheduled_reset =
     \<lparr>h_event = UDS_EVT_DoScheduledReset, h_get_check = uds_get_check_for_execute_scheduled_reset,
      h_get_action = uds_get_action_for_execute_scheduled_reset, h_default_nrc = UDS_NRC_SubFunctionNotSupported,
      h_registration_type = UDS_REGISTRATION_TYPE__ECU_RESET\<rparr>"

definition uds_get_check_for_diag_session_ctrl :: "'u uds_registration_t \<Rightarrow> 'u check_fn option" where
  "uds_get_check_for_diag_session_ctrl reg =
     (case reg_data reg of Reg_diag_session_ctrl _ a _ \<Rightarrow> act_check a | _ \<Rightarrow> None)"

definition uds_get_action_for_diag_session_ctrl :: "'u uds_registration_t \<Rightarrow> 'u action_fn option" where
  "uds_get_action_for_diag_session_ctrl reg =
     (case reg_data reg of Reg_diag_session_ctrl _ a _ \<Rightarrow> act_action a | _ \<Rightarrow> None)"

definition handler_diag_session_ctrl :: "'u uds_event_handler_data" where
  "handler_diag_session_ctrl =
     \<lparr>h_event = UDS_EVT_DiagSessCtrl, h_get_check = uds_get_check_for_diag_session_ctrl,
      h_get_action = uds_get_action_for_diag_session_ctrl, h_default_nrc = UDS_PositiveResponse,
      h_registration_type = UDS_REGISTRATION_TYPE__DIAG_SESSION_CTRL\<rparr>"

definition uds_get_check_for_session_timeout :: "'u uds_registration_t \<Rightarrow> 'u check_fn option" where
  "uds_get_check_for_session_timeout reg =
     (case reg_data reg of Reg_diag_session_ctrl _ _ a \<Rightarrow> act_check a | _ \<Rightarrow> None)"

definition uds_get_action_for_session_timeout :: "'u uds_registration_t \<Rightarrow> 'u action_fn option" where
  "uds_get_action_for_session_timeout reg =
     (case reg_data reg of Reg_diag_session_ctrl _ _ a \<Rightarrow> act_action a | _ \<Rightarrow> None)"

definition handler_session_timeout :: "'u uds_event_handler_data" where
  "handler_session_timeout =
     \<lparr>h_event = UDS_EVT_SessionTimeout, h_get_check = uds_get_check_for_session_timeout,
      h_get_action = uds_get_action_for_session_timeout, h_default_nrc = UDS_PositiveResponse,
      h_registration_type = UDS_REGISTRATION_TYPE__DIAG_SESSION_CTRL\<rparr>"

definition uds_get_check_for_security_access_request_seed :: "'u uds_registration_t \<Rightarrow> 'u check_fn option" where
  "uds_get_check_for_security_access_request_seed reg =
     (case reg_data reg of Reg_security_access _ a _ \<Rightarrow> act_check a | _ \<Rightarrow> None)"

definition uds_get_action_for_security_access_request_seed :: "'u uds_registration_t \<Rightarrow> 'u action_fn option" where
  "uds_get_action_for_security_access_request_seed reg =
     (case reg_data reg of Reg_security_access _ a _ \<Rightarrow> act_action a | _ \<Rightarrow> None)"

definition handler_security_access_request_seed :: "'u uds_event_handler_data" where
  "handler_security_access_request_seed =
     \<lparr>h_event = UDS_EVT_SecAccessRequestSeed, h_get_check = uds_get_check_for_security_access_request_seed,
      h_get_action = uds_get_action_for_security_access_request_seed, h_default_nrc = UDS_NRC_ConditionsNotCorrect,
      h_registration_type = UDS_REGISTRATION_TYPE__SECURITY_ACCESS\<rparr>"

definition uds_get_check_for_security_access_validate_key :: "'u uds_registration_t \<Rightarrow> 'u check_fn option" where
  "uds_get_check_for_security_access_validate_key reg =
     (case reg_data reg of Reg_security_access _ _ a \<Rightarrow> act_check a | _ \<Rightarrow> None)"

definition uds_get_action_for_security_access_validate_key :: "'u uds_registration_t \<Rightarrow> 'u action_fn option" where
  "uds_get_action_for_security_access_validate_key reg =
     (case reg_data reg of Reg_security_access _ _ a \<Rightarrow> act_action a | _ \<Rightarrow> None)"

definition handler_security_access_validate_key :: "'u uds_event_handler_data" where
  "handler_security_access_validate_key =
     \<lparr>h_event = UDS_EVT_SecAccessValidateKey, h_get_check = uds_get_check_for_security_access_validate_key,
      h_get_action = uds_get_action_for_security_access_validate_key, h_default_nrc = UDS_NRC_ConditionsNotCorrect,
      h_registration_type = UDS_REGISTRATION_TYPE__SECURITY_ACCESS\<rparr>"

definition uds_get_check_for_auth :: "'u uds_registration_t \<Rightarrow> 'u check_fn option" where
  "uds_get_check_for_auth reg =
     (case reg_data reg of Reg_auth _ a _ \<Rightarrow> act_check a | _ \<Rightarrow> None)"

definition uds_get_action_for_auth :: "'u uds_registration_t \<Rightarrow> 'u action_fn option" where
  "uds_get_action_for_auth reg =
     (case reg_data reg of Reg_auth _ a _ \<Rightarrow> act_action a | _ \<Rightarrow> None)"

definition handler_auth :: "'u uds_event_handler_data" where
  "handler_auth =
     \<lparr>h_event = UDS_EVT_Auth, h_get_check = uds_get_check_for_auth,
      h_get_action = uds_get_action_for_auth, h_default_nrc = UDS_NRC_SubFunctionNotSupported,
      h_registration_type = UDS_REGISTRATION_TYPE__AUTHENTICATION\<rparr>"

definition uds_get_check_for_auth_timeout :: "'u uds_registration_t \<Rightarrow> 'u check_fn option" where
  "uds_get_check_for_auth_timeout reg =
     (case reg_data reg of Reg_auth _ _ a \<Rightarrow> act_check a | _ \<Rightarrow> None)"

definition uds_get_action_for_auth_timeout :: "'u uds_registration_t \<Rightarrow> 'u action_fn option" where
  "uds_get_action_for_auth_timeout reg =
     (case reg_data reg of Reg_auth _ _ a \<Rightarrow> act_action a | _ \<Rightarrow> None)"

definition handler_auth_timeout :: "'u uds_event_handler_data" where
  "handler_auth_timeout =
     \<lparr>h_event = UDS_EVT_AuthTimeout, h_get_check = uds_get_check_for_auth_timeout,
      h_get_action = uds_get_action_for_auth_timeout, h_default_nrc = UDS_NRC_SubFunctionNotSupported,
      h_registration_type = UDS_REGISTRATION_TYPE__AUTHENTICATION\<rparr>"

definition uds_get_check_for_communication_control :: "'u uds_registration_t \<Rightarrow> 'u check_fn option" where
  "uds_get_check_for_communication_control reg =
     (case reg_data reg of Reg_communication_control _ a \<Rightarrow> act_check a | _ \<Rightarrow> None)"

definition uds_get_action_for_communication_control :: "'u uds_registration_t \<Rightarrow> 'u action_fn option" where
  "uds_get_action_for_communication_control reg =
     (case reg_data reg of Reg_communication_control _ a \<Rightarrow> act_action a | _ \<Rightarrow> None)"

definition handler_communication_control :: "'u uds_event_handler_data" where
  "handler_communication_control =
     \<lparr>h_event = UDS_EVT_CommCtrl, h_get_check = uds_get_check_for_communication_control,
      h_get_action = uds_get_action_for_communication_control, h_default_nrc = UDS_NRC_RequestOutOfRange,
      h_registration_type = UDS_REGISTRATION_TYPE__COMMUNICATION_CONTROL\<rparr>"

definition uds_get_check_for_control_dtc_setting :: "'u uds_registration_t \<Rightarrow> 'u check_fn option" where
  "uds_get_check_for_control_dtc_setting reg =
     (case reg_data reg of Reg_control_dtc_setting _ a \<Rightarrow> act_check a | _ \<Rightarrow> None)"

definition uds_get_action_for_control_dtc_setting :: "'u uds_registration_t \<Rightarrow> 'u action_fn option" where
  "uds_get_action_for_control_dtc_setting reg =
     (case reg_data reg of Reg_control_dtc_setting _ a \<Rightarrow> act_action a | _ \<Rightarrow> None)"

definition handler_control_dtc_setting :: "'u uds_event_handler_data" where
  "handler_control_dtc_setting =
     \<lparr>h_event = UDS_EVT_ControlDTCSetting, h_get_check = uds_get_check_for_control_dtc_setting,
      h_get_action = uds_get_action_for_control_dtc_setting, h_default_nrc = UDS_NRC_SubFunctionNotSupported,
      h_registration_type = UDS_REGISTRATION_TYPE__CONTROL_DTC_SETTING\<rparr>"

definition uds_get_check_for_clear_diag_info :: "'u uds_registration_t \<Rightarrow> 'u check_fn option" where
  "uds_get_check_for_clear_diag_info reg =
     (case reg_data reg of Reg_clear_diagnostic_information _ a \<Rightarrow> act_check a | _ \<Rightarrow> None)"

definition uds_get_action_for_clear_diag_info :: "'u uds_registration_t \<Rightarrow> 'u action_fn option" where
  "uds_get_action_for_clear_diag_info reg =
     (case reg_data reg of Reg_clear_diagnostic_information _ a \<Rightarrow> act_action a | _ \<Rightarrow> None)"

definition handler_clear_diag_info :: "'u uds_event_handler_data" where
  "handler_clear_diag_info =
     \<lparr>h_event = UDS_EVT_ClearDiagnosticInfo, h_get_check = uds_get_check_for_clear_diag_info,
      h_get_action = uds_get_action_for_clear_diag_info, h_default_nrc = UDS_NRC_RequestOutOfRange,
      h_registration_type = UDS_REGISTRATION_TYPE__CLEAR_DIAG_INFO\<rparr>"

definition uds_get_check_for_read_memory_by_addr :: "'u uds_registration_t \<Rightarrow> 'u check_fn option" where
  "uds_get_check_for_read_memory_by_addr reg =
     (case reg_data reg of Reg_memory _ a _ \<Rightarrow> act_check a | _ \<Rightarrow> None)"

definition uds_get_action_for_read_memory_by_addr :: "'u uds_registration_t \<Rightarrow> 'u action_fn option" where
  "uds_get_action_for_read_memory_by_addr reg =
     (case reg_data reg of Reg_memory _ a _ \<Rightarrow> act_action a | _ \<Rightarrow> None)"

definition handler_read_memory_by_addr :: "'u uds_event_handler_data" where
  "handler_read_memory_by_addr =
     \<lparr>h_event = UDS_EVT_ReadMemByAddr, h_get_check = uds_get_check_for_read_memory_by_addr,
      h_get_action = uds_get_action_for_read_memory_by_addr, h_default_nrc = UDS_NRC_ConditionsNotCorrect,
      h_registration_type = UDS_REGISTRATION_TYPE__MEMORY\<rparr>"

definition uds_get_check_for_write_memory_by_addr :: "'u uds_registration_t \<Rightarrow> 'u check_fn option" where
  "uds_get_check_for_write_memory_by_addr reg =
     (case reg_data reg of Reg_memory _ _ a \<Rightarrow> act_check a | _ \<Rightarrow> None)"

definition uds_get_action_for_write_memory_by_addr :: "'u uds_registration_t \<Rightarrow> 'u action_fn option" where
  "uds_get_action_for_write_memory_by_addr reg =
     (case reg_data reg of Reg_memory _ _ a \<Rightarrow> act_action a | _ \<Rightarrow> None)"

definition handler_write_memory_by_addr :: "'u uds_event_handler_data" where
  "handler_write_memory_by_addr =
     \<lparr>h_event = UDS_EVT_WriteMemByAddr, h_get_check = uds_get_check_for_write_memory_by_addr,
      h_get_action = uds_get_action_for_write_memory_by_addr, h_default_nrc = UDS_NRC_ConditionsNotCorrect,
      h_registration_type = UDS_REGISTRATION_TYPE__MEMORY\<rparr>"

definition uds_get_check_for_dynamically_define_data_ids :: "'u uds_registration_t \<Rightarrow> 'u check_fn option" where
  "uds_get_check_for_dynamically_define_data_ids reg =
     (case reg_data reg of Reg_dynamically_define_data_ids _ _ a \<Rightarrow> act_check a | _ \<Rightarrow> None)"

definition uds_get_action_for_dynamically_define_data_ids :: "'u uds_registration_t \<Rightarrow> 'u action_fn option" where
  "uds_get_action_for_dynamically_define_data_ids reg =
     (case reg_data reg of Reg_dynamically_define_data_ids _ _ a \<Rightarrow> act_action a | _ \<Rightarrow> None)"

definition handler_dynamically_define_data_ids :: "'u uds_event_handler_data" where
  "handler_dynamically_define_data_ids =
     \<lparr>h_event = UDS_EVT_DynamicDefineDataId, h_get_check = uds_get_check_for_dynamically_define_data_ids,
      h_get_action = uds_get_action_for_dynamically_define_data_ids, h_default_nrc = UDS_NRC_SubFunctionNotSupported,
      h_registration_type = UDS_REGISTRATION_TYPE__DYNAMIC_DEFINE_DATA_IDS\<rparr>"

definition uds_get_check_for_link_control :: "'u uds_registration_t \<Rightarrow> 'u check_fn option" where
  "uds_get_check_for_link_control reg =
     (case reg_data reg of Reg_link_control _ a \<Rightarrow> act_check a | _ \<Rightarrow> None)"

definition uds_get_action_for_link_control :: "'u uds_registration_t \<Rightarrow> 'u action_fn option" where
  "uds_get_action_for_link_control reg =
     (case reg_data reg of Reg_link_control _ a \<Rightarrow> act_action a | _ \<Rightarrow> None)"

definition handler_link_control :: "'u uds_event_handler_data" where
  "handler_link_control =
     \<lparr>h_event = UDS_EVT_LinkControl, h_get_check = uds_get_check_for_link_control,
      h_get_action = uds_get_action_for_link_control, h_default_nrc = UDS_NRC_SubFunctionNotSupported,
      h_registration_type = UDS_REGISTRATION_TYPE__LINK_CONTROL\<rparr>"

definition uds_get_check_for_read_data_by_identifier :: "'u uds_registration_t \<Rightarrow> 'u check_fn option" where
  "uds_get_check_for_read_data_by_identifier reg = Some Fn_check_read_with_data_id"

definition uds_get_action_for_read_data_by_identifier :: "'u uds_registration_t \<Rightarrow> 'u action_fn option" where
  "uds_get_action_for_read_data_by_identifier reg =
     (case reg_data reg of Reg_data_identifier _ _ _ a _ _ \<Rightarrow> act_action a | _ \<Rightarrow> None)"

definition handler_read_data_by_identifier :: "'u uds_event_handler_data" where
  "handler_read_data_by_identifier =
     \<lparr>h_event = UDS_EVT_ReadDataByIdent, h_get_check = uds_get_check_for_read_data_by_identifier,
      h_get_action = uds_get_action_for_read_data_by_identifier, h_default_nrc = UDS_NRC_RequestOutOfRange,
      h_registration_type = UDS_REGISTRATION_TYPE__DATA_IDENTIFIER\<rparr>"

definition uds_get_check_for_write_data_by_identifier :: "'u uds_registration_t \<Rightarrow> 'u check_fn option" where
  "uds_get_check_for_write_data_by_identifier reg = Some Fn_check_write_with_data_id"

definition uds_get_action_for_write_data_by_identifier :: "'u uds_registration_t \<Rightarrow> 'u action_fn option" where
  "uds_get_action_for_write_data_by_identifier reg =
     (case reg_data reg of Reg_data_identifier _ _ _ _ a _ \<Rightarrow> act_action a | _ \<Rightarrow> None)"

definition handler_write_data_by_identifier :: "'u uds_event_handler_data" where
  "handler_write_data_by_identifier =
     \<lparr>h_event = UDS_EVT_WriteDataByIdent, h_get_check = uds_get_check_for_write_data_by_identifier,
      h_get_action = uds_get_action_for_write_data_by_identifier, h_default_nrc = UDS_NRC_RequestOutOfRange,
      h_registration_type = UDS_REGISTRATION_TYPE__DATA_IDENTIFIER\<rparr>"

definition uds_get_check_for_io_control_by_identifier :: "'u uds_registration_t \<Rightarrow> 'u check_fn option" where
  "uds_get_check_for_io_control_by_identifier reg = Some Fn_check_io_control_with_data_id"

definition uds_get_action_for_io_control_by_identifier :: "'u uds_registration_t \<Rightarrow> 'u action_fn option" where
  "uds_get_action_for_io_control_by_identifier reg =
     (case reg_data reg of Reg_data_identifier _ _ _ _ _ a \<Rightarrow> act_action a | _ \<Rightarrow> None)"

definition handler_io_control_by_identifier :: "'u uds_event_handler_data" where
  "handler_io_control_by_identifier =
     \<lparr>h_event = UDS_EVT_IOControl, h_get_check = uds_get_check_for_io_control_by_identifier,
      h_get_action = uds_get_action_for_io_control_by_identifier, h_default_nrc = UDS_NRC_RequestOutOfRange,
      h_registration_type = UDS_REGISTRATION_TYPE__DATA_IDENTIFIER\<rparr>"

definition uds_get_check_for_routine_control :: "'u uds_registration_t \<Rightarrow> 'u check_fn option" where
  "uds_get_check_for_routine_control reg = Some Fn_check_with_routine_id"

definition uds_get_action_for_routine_control :: "'u uds_registration_t \<Rightarrow> 'u action_fn option" where
  "uds_get_action_for_routine_control reg =
     (case reg_data reg of Reg_routine_control _ _ a \<Rightarrow> act_action a | _ \<Rightarrow> None)"

definition handler_routine_control :: "'u uds_event_handler_data" where
  "handler_routine_control =
     \<lparr>h_event = UDS_EVT_RoutineCtrl, h_get_check = uds_get_check_for_routine_control,
      h_get_action = uds_get_action_for_routine_control, h_default_nrc = UDS_NRC_SubFunctionNotSupported,
      h_registration_type = UDS_REGISTRATION_TYPE__ROUTINE_CONTROL\<rparr>"

definition uds_get_check_for_read_dtc_info :: "'u uds_registration_t \<Rightarrow> 'u check_fn option" where
  "uds_get_check_for_read_dtc_info reg = Some Fn_check_with_subfunc"

definition uds_get_action_for_read_dtc_info :: "'u uds_registration_t \<Rightarrow> 'u action_fn option" where
  "uds_get_action_for_read_dtc_info reg =
     (case reg_data reg of Reg_read_dtc _ _ a \<Rightarrow> act_action a | _ \<Rightarrow> None)"

definition handler_read_dtc_info :: "'u uds_event_handler_data" where
  "handler_read_dtc_info =
     \<lparr>h_event = UDS_EVT_ReadDTCInformation, h_get_check = uds_get_check_for_read_dtc_info,
      h_get_action = uds_get_action_for_read_dtc_info, h_default_nrc = UDS_NRC_SubFunctionNotSupported,
      h_registration_type = UDS_REGISTRATION_TYPE__READ_DTC_INFO\<rparr>"

text \<open>The five events of the upload and download service share their functions.\<close>

definition get_check :: "'u uds_registration_t \<Rightarrow> 'u check_fn option" where
  "get_check reg = Some Fn_check_always_apply"

definition get_action :: "'u uds_registration_t \<Rightarrow> 'u action_fn option" where
  "get_action reg = Some Fn_action_upload_download"

definition handler_upload_download_request_download :: "'u uds_event_handler_data" where
  "handler_upload_download_request_download =
     \<lparr>h_event = UDS_EVT_RequestDownload, h_get_check = get_check,
      h_get_action = get_action, h_default_nrc = UDS_NRC_SubFunctionNotSupported,
      h_registration_type = UDS_REGISTRATION_TYPE__UPLOAD_DOWNLOAD\<rparr>"

definition handler_upload_download_request_upload :: "'u uds_event_handler_data" where
  "handler_upload_download_request_upload =
     \<lparr>h_event = UDS_EVT_RequestUpload, h_get_check = get_check,
      h_get_action = get_action, h_default_nrc = UDS_NRC_SubFunctionNotSupported,
      h_registration_type = UDS_REGISTRATION_TYPE__UPLOAD_DOWNLOAD\<rparr>"

definition handler_upload_download_transfer_data :: "'u uds_event_handler_data" where
  "handler_upload_download_transfer_data =
     \<lparr>h_event = UDS_EVT_TransferData, h_get_check = get_check,
      h_get_action = get_action, h_default_nrc = UDS_NRC_SubFunctionNotSupported,
      h_registration_type = UDS_REGISTRATION_TYPE__UPLOAD_DOWNLOAD\<rparr>"

definition handler_upload_download_request_transfer_exit :: "'u uds_event_handler_data" where
  "handler_upload_download_request_transfer_exit =
     \<lparr>h_event = UDS_EVT_RequestTransferExit, h_get_check = get_check,
      h_get_action = get_action, h_default_nrc = UDS_NRC_SubFunctionNotSupported,
      h_registration_type = UDS_REGISTRATION_TYPE__UPLOAD_DOWNLOAD\<rparr>"

definition handler_upload_download_request_file_transfer :: "'u uds_event_handler_data" where
  "handler_upload_download_request_file_transfer =
     \<lparr>h_event = UDS_EVT_RequestFileTransfer, h_get_check = get_check,
      h_get_action = get_action, h_default_nrc = UDS_NRC_SubFunctionNotSupported,
      h_registration_type = UDS_REGISTRATION_TYPE__UPLOAD_DOWNLOAD\<rparr>"

text \<open>
  The table, with all optional parts of the library configured. The linker orders the entries by
  the names of their variables; as every event has at most one entry, the order does not matter.
\<close>

definition uds_handlers :: "'u uds_event_handler_data list" where
  "uds_handlers =
     [handler_ecu_reset,
      handler_execute_scheduled_reset,
      handler_diag_session_ctrl,
      handler_session_timeout,
      handler_security_access_request_seed,
      handler_security_access_validate_key,
      handler_auth,
      handler_auth_timeout,
      handler_communication_control,
      handler_control_dtc_setting,
      handler_clear_diag_info,
      handler_read_memory_by_addr,
      handler_write_memory_by_addr,
      handler_dynamically_define_data_ids,
      handler_link_control,
      handler_read_data_by_identifier,
      handler_write_data_by_identifier,
      handler_io_control_by_identifier,
      handler_routine_control,
      handler_read_dtc_info,
      handler_upload_download_request_download,
      handler_upload_download_request_upload,
      handler_upload_download_transfer_data,
      handler_upload_download_request_transfer_exit,
      handler_upload_download_request_file_transfer]"

lemmas handler_defs =
  handler_ecu_reset_def
  handler_execute_scheduled_reset_def
  handler_diag_session_ctrl_def
  handler_session_timeout_def
  handler_security_access_request_seed_def
  handler_security_access_validate_key_def
  handler_auth_def
  handler_auth_timeout_def
  handler_communication_control_def
  handler_control_dtc_setting_def
  handler_clear_diag_info_def
  handler_read_memory_by_addr_def
  handler_write_memory_by_addr_def
  handler_dynamically_define_data_ids_def
  handler_link_control_def
  handler_read_data_by_identifier_def
  handler_write_data_by_identifier_def
  handler_io_control_by_identifier_def
  handler_routine_control_def
  handler_read_dtc_info_def
  handler_upload_download_request_download_def
  handler_upload_download_request_upload_def
  handler_upload_download_transfer_data_def
  handler_upload_download_request_transfer_exit_def
  handler_upload_download_request_file_transfer_def

section \<open>Checks that filter by an identifier\<close>

text \<open>
  The argument structures of the three data identifier services start with the identifier; all
  three checks read it through a pointer to \<^verbatim>\<open>UDSRDBIArgs_t\<close>. A null check pointer is tested
  for in the read check only.
\<close>

fun args_data_id :: "uds_arg \<Rightarrow> u16 option" where
  "args_data_id (Arg_RDBI d _) = Some d"
| "args_data_id (Arg_WDBI d _) = Some d"
| "args_data_id (Arg_IOCtrl d _ _ _) = Some d"
| "args_data_id _ = None"

definition uds_check_read_with_data_id ::
  "('u, 'x) check_sem \<Rightarrow> uds_context \<Rightarrow> bool \<Rightarrow> ('u, 'x) uds_world \<Rightarrow>
   (UDSErr_t \<times> bool, ('u, 'x) uds_world) outcome" where
  "uds_check_read_with_data_id ck ctx apply_action w =
     (case (args_data_id (ctx_arg ctx), map_option reg_data (deref_reg w (ctx_registration ctx))) of
        (Some dataId, Some (Reg_data_identifier _ _ data_id read _ _)) \<Rightarrow>
          if dataId \<noteq> data_id then Returns (UDS_OK, False) w
          else (case act_check read of
                  Some c \<Rightarrow> ck c ctx apply_action w
                | None \<Rightarrow> Returns (UDS_OK, apply_action) w)
      | _ \<Rightarrow> Undefined)"

definition uds_check_write_with_data_id ::
  "('u, 'x) check_sem \<Rightarrow> uds_context \<Rightarrow> bool \<Rightarrow> ('u, 'x) uds_world \<Rightarrow>
   (UDSErr_t \<times> bool, ('u, 'x) uds_world) outcome" where
  "uds_check_write_with_data_id ck ctx apply_action w =
     (case (args_data_id (ctx_arg ctx), map_option reg_data (deref_reg w (ctx_registration ctx))) of
        (Some dataId, Some (Reg_data_identifier _ _ data_id _ write _)) \<Rightarrow>
          if dataId \<noteq> data_id then Returns (UDS_OK, False) w
          else (case act_check write of
                  Some c \<Rightarrow> ck c ctx apply_action w
                | None \<Rightarrow> Undefined)
      | _ \<Rightarrow> Undefined)"

definition uds_check_io_control_with_data_id ::
  "('u, 'x) check_sem \<Rightarrow> uds_context \<Rightarrow> bool \<Rightarrow> ('u, 'x) uds_world \<Rightarrow>
   (UDSErr_t \<times> bool, ('u, 'x) uds_world) outcome" where
  "uds_check_io_control_with_data_id ck ctx apply_action w =
     (case (args_data_id (ctx_arg ctx), map_option reg_data (deref_reg w (ctx_registration ctx))) of
        (Some dataId, Some (Reg_data_identifier _ _ data_id _ _ io_control)) \<Rightarrow>
          if dataId \<noteq> data_id then Returns (UDS_OK, False) w
          else (case act_check io_control of
                  Some c \<Rightarrow> ck c ctx apply_action w
                | None \<Rightarrow> Undefined)
      | _ \<Rightarrow> Undefined)"

definition uds_check_with_routine_id_fn ::
  "('u, 'x) check_sem \<Rightarrow> uds_context \<Rightarrow> bool \<Rightarrow> ('u, 'x) uds_world \<Rightarrow>
   (UDSErr_t \<times> bool, ('u, 'x) uds_world) outcome" where
  "uds_check_with_routine_id_fn ck ctx apply_action w =
     (case (ctx_arg ctx, map_option reg_data (deref_reg w (ctx_registration ctx))) of
        (Arg_RoutineCtrl _ rid _, Some (Reg_routine_control _ routine actor)) \<Rightarrow>
          if routine \<noteq> rid then Returns (UDS_OK, False) w
          else (case act_check actor of
                  Some c \<Rightarrow> ck c ctx apply_action w
                | None \<Rightarrow> Returns (UDS_OK, apply_action) w)
      | _ \<Rightarrow> Undefined)"

definition uds_check_with_subfunc_fn ::
  "('u, 'x) check_sem \<Rightarrow> uds_context \<Rightarrow> bool \<Rightarrow> ('u, 'x) uds_world \<Rightarrow>
   (UDSErr_t \<times> bool, ('u, 'x) uds_world) outcome" where
  "uds_check_with_subfunc_fn ck ctx apply_action w =
     (case (ctx_arg ctx, map_option reg_data (deref_reg w (ctx_registration ctx))) of
        (Arg_RDTCI sub _, Some (Reg_read_dtc _ sub_function actor)) \<Rightarrow>
          if sub_function \<noteq> sub then Returns (UDS_OK, False) w
          else (case act_check actor of
                  Some c \<Rightarrow> ck c ctx apply_action w
                | None \<Rightarrow> Returns (UDS_OK, apply_action) w)
      | _ \<Rightarrow> Undefined)"

definition uds_check_always_apply ::
  "uds_context \<Rightarrow> bool \<Rightarrow> 'w \<Rightarrow> (UDSErr_t \<times> bool, 'w) outcome" where
  "uds_check_always_apply ctx apply_action w = Returns (UDS_OK, True) w"

section \<open>ECU reset\<close>

definition uds_check_ecu_hard_reset ::
  "uds_context \<Rightarrow> bool \<Rightarrow> 'w \<Rightarrow> (UDSErr_t \<times> bool, 'w) outcome" where
  "uds_check_ecu_hard_reset ctx apply_action w =
     (case ctx_arg ctx of
        Arg_ECUReset ty _ \<Rightarrow>
          Returns (UDS_OK, if ty = ecu_reset_val ECU_RESET__HARD then True else apply_action) w
      | _ \<Rightarrow> Undefined)"

text \<open>\<open>p2_ms\<close> is the P2 timeout of the server of the instance.\<close>

definition uds_action_ecu_hard_reset ::
  "u32 \<Rightarrow> uds_context \<Rightarrow> bool \<Rightarrow> 'w \<Rightarrow> (UDSErr_t \<times> bool \<times> uds_arg, 'w) outcome" where
  "uds_action_ecu_hard_reset p2_ms ctx consume_event w =
     (case ctx_arg ctx of
        Arg_ECUReset ty _ \<Rightarrow> Returns (UDS_OK, False, Arg_ECUReset ty p2_ms) w
      | _ \<Rightarrow> Undefined)"

definition uds_check_execute_scheduled_reset ::
  "uds_context \<Rightarrow> bool \<Rightarrow> 'w \<Rightarrow> (UDSErr_t \<times> bool, 'w) outcome" where
  "uds_check_execute_scheduled_reset ctx apply_action w =
     (case ctx_arg ctx of
        Arg_ScheduledReset reset_type \<Rightarrow>
          Returns (UDS_OK, if reset_type = ecu_reset_val ECU_RESET__HARD then True else apply_action) w
      | _ \<Rightarrow> Undefined)"

definition uds_action_execute_scheduled_reset ::
  "uds_context \<Rightarrow> bool \<Rightarrow> 'w \<Rightarrow> (UDSErr_t \<times> bool \<times> uds_arg, 'w) outcome" where
  "uds_action_execute_scheduled_reset ctx consume_event w = Reboots SYS_REBOOT_COLD w"

section \<open>The switch to the firmware loader and the default instance\<close>

text \<open>
  The retained memory and the boot mode are Zephyr's; \<open>'n\<close> is their state. \<open>ret != 0\<close> is any
  return other than 0.
\<close>

datatype boot_mode = BOOT_MODE_TYPE_NORMAL | BOOT_MODE_TYPE_BOOTLOADER

record 'n boot_ops =
  retention_write :: "nat \<Rightarrow> u8 list \<Rightarrow> 'n \<Rightarrow> c_int \<times> 'n"
  bootmode_set :: "boot_mode \<Rightarrow> 'n \<Rightarrow> c_int \<times> 'n"

definition uds_switch_to_firmware_loader_with_programming_session ::
  "'n boot_ops \<Rightarrow> 'n \<Rightarrow> (UDSErr_t, 'n) outcome" where
  "uds_switch_to_firmware_loader_with_programming_session ops n =
     (case retention_write ops 0 [session_val UDS_DIAG_SESSION__PROGRAMMING] n of
        (ret, n1) \<Rightarrow>
          if ret \<noteq> rc0 then Returns UDS_NRC_ConditionsNotCorrect n1
          else (case bootmode_set ops BOOT_MODE_TYPE_BOOTLOADER n1 of
                  (ret, n2) \<Rightarrow>
                    if ret \<noteq> rc0 then Returns UDS_NRC_ConditionsNotCorrect n2
                    else Reboots SYS_REBOOT_WARM n2))"

definition diag_session_ctrl_check ::
  "uds_context \<Rightarrow> bool \<Rightarrow> 'w \<Rightarrow> (UDSErr_t \<times> bool, 'w) outcome" where
  "diag_session_ctrl_check ctx apply_action w = Returns (UDS_OK, True) w"

text \<open>\<open>disable\<close> is \<^verbatim>\<open>CONFIG_UDS_DEFAULT_INSTANCE_DISABLE_SWITCH_TO_FIRMWARE_LOADER\<close>.\<close>

definition diag_session_ctrl_action ::
  "bool \<Rightarrow> 'n boot_ops \<Rightarrow> uds_context \<Rightarrow> bool \<Rightarrow> 'n \<Rightarrow> (UDSErr_t \<times> bool \<times> uds_arg, 'n) outcome" where
  "diag_session_ctrl_action disable ops ctx consume_event n =
     (if disable then Returns (UDS_PositiveResponse, False, ctx_arg ctx) n
      else
        (case ctx_arg ctx of
           Arg_DiagSessCtrl ty \<Rightarrow>
             if ty = session_val UDS_DIAG_SESSION__PROGRAMMING
             then obind (uds_switch_to_firmware_loader_with_programming_session ops n)
                    (\<lambda>ret n'. Returns (ret, False, ctx_arg ctx) n')
             else Returns (UDS_PositiveResponse, False, ctx_arg ctx) n
         | _ \<Rightarrow> Undefined))"

definition diag_session_timeout_check ::
  "uds_context \<Rightarrow> bool \<Rightarrow> 'w \<Rightarrow> (UDSErr_t \<times> bool, 'w) outcome" where
  "diag_session_timeout_check ctx apply_action w = Returns (UDS_OK, True) w"

definition diag_session_timeout_action ::
  "uds_context \<Rightarrow> bool \<Rightarrow> 'w \<Rightarrow> (UDSErr_t \<times> bool \<times> uds_arg, 'w) outcome" where
  "diag_session_timeout_action ctx consume_event w = Returns (UDS_PositiveResponse, False, ctx_arg ctx) w"

section \<open>Lemmas\<close>

text \<open>Every event has at most one table entry.\<close>

lemma distinct_handler_events: "distinct (map h_event (uds_handlers :: 'u uds_event_handler_data list))"
  by (simp add: uds_handlers_def handler_defs)

text \<open>Looking up an event does not depend on the order of the table.\<close>

lemma find_perm_event:
  fixes hs hs' :: "'u uds_event_handler_data list"
  assumes "distinct (map h_event hs)" and "set hs' = set hs" and "distinct (map h_event hs')"
  shows "find (\<lambda>h. h_event h = ev) hs' = find (\<lambda>h. h_event h = ev) hs"
proof -
  have one: "find (\<lambda>h. h_event h = ev) xs = Some h" if "distinct (map h_event xs)" "h \<in> set xs" "h_event h = ev"
    for xs :: "'u uds_event_handler_data list" and h
    using that by (induction xs) (auto simp: rev_image_eqI)
  show ?thesis
  proof (cases "find (\<lambda>h. h_event h = ev) hs")
    case None
    then have "find (\<lambda>h. h_event h = ev) hs' = None" using assms(2) by (auto simp: find_None_iff)
    with None show ?thesis by simp
  next
    case (Some h)
    then have "h \<in> set hs" "h_event h = ev" by (auto simp: find_Some_iff)
    then show ?thesis using one [OF assms(3)] assms(2) Some by simp
  qed
qed

text \<open>A filter check on an identifier that differs stops the action and changes nothing.\<close>

lemma check_read_other_id:
  assumes "deref_reg w (ctx_registration ctx) = Some reg" and "reg_data reg = Reg_data_identifier u d k r wr io"
    and "args_data_id (ctx_arg ctx) = Some k'" and "k' \<noteq> k"
  shows "uds_check_read_with_data_id ck ctx b w = Returns (UDS_OK, False) w"
    and "uds_check_write_with_data_id ck ctx b w = Returns (UDS_OK, False) w"
    and "uds_check_io_control_with_data_id ck ctx b w = Returns (UDS_OK, False) w"
  using assms
  by (simp_all add: uds_check_read_with_data_id_def uds_check_write_with_data_id_def
      uds_check_io_control_with_data_id_def)

lemmas filter_check_defs = uds_check_read_with_data_id_def uds_check_write_with_data_id_def
  uds_check_io_control_with_data_id_def uds_check_with_routine_id_fn_def uds_check_with_subfunc_fn_def

lemmas simple_check_defs = uds_check_always_apply_def uds_check_ecu_hard_reset_def
  uds_check_execute_scheduled_reset_def diag_session_ctrl_check_def diag_session_timeout_check_def

section \<open>Properties\<close>

text \<open>
  The reaction to an event does not depend on the order in which the linker places the table
  entries: every arrangement of the table gives the same result.
\<close>

theorem handler_table_order_irrelevant:
  assumes "distinct hs" and "set hs = set (uds_handlers :: 'u uds_event_handler_data list)"
  shows "uds_event_callback ck ac hs fuel i ev arg w = uds_event_callback ck ac uds_handlers fuel i ev arg w"
proof -
  have "inj_on h_event (set (uds_handlers :: 'u uds_event_handler_data list))"
    using distinct_handler_events [where 'u = 'u] by (simp add: distinct_map)
  then have "distinct (map h_event hs)" using assms by (simp add: distinct_map)
  from find_perm_event [OF distinct_handler_events assms(2) this]
  show ?thesis by (simp add: uds_event_callback_def)
qed

theorem handler_table_order_irrelevant_witness:
  "\<forall>ck0 ac0. uds_event_callback ck0 ac0 (rev uds_handlers) 0 0 UDS_EVT_Auth Arg_other (boot_world [] () :: (nat, unit) uds_world) =
   uds_event_callback ck0 ac0 uds_handlers 0 0 UDS_EVT_Auth Arg_other (boot_world [] ())"
proof (intro allI, rule handler_table_order_irrelevant)
  show "distinct (rev (uds_handlers :: nat uds_event_handler_data list))"
    using distinct_handler_events [where 'u = nat] by (auto simp: distinct_map)
qed simp

text \<open>
  Switching to the firmware loader either reboots warm, and then the retained memory was
  given the programming session and the boot mode was set, both successfully and in this order;
  or it returns ConditionsNotCorrect and does not reboot, leaving the boot mode untouched when
  the retained memory could not be written.
\<close>

theorem switch_to_firmware_loader_cases:
  "case uds_switch_to_firmware_loader_with_programming_session ops n of
     Reboots r n2 \<Rightarrow> r = SYS_REBOOT_WARM \<and>
       (\<exists>n1. retention_write ops 0 [2] n = (rc0, n1) \<and>
             bootmode_set ops BOOT_MODE_TYPE_BOOTLOADER n1 = (rc0, n2))
   | Returns e n2 \<Rightarrow> e = UDS_NRC_ConditionsNotCorrect \<and>
       (\<exists>r n1. retention_write ops 0 [2] n = (r, n1) \<and>
          (r \<noteq> rc0 \<and> n2 = n1 \<or>
           r = rc0 \<and> (\<exists>r'. r' \<noteq> rc0 \<and> bootmode_set ops BOOT_MODE_TYPE_BOOTLOADER n1 = (r', n2))))
   | _ \<Rightarrow> False"
  by (auto simp: uds_switch_to_firmware_loader_with_programming_session_def split: prod.splits)

end
