(* ===== verification/Uds_Memory.thy ===== *)
theory Uds_Memory
  imports Uds_Core
begin

text \<open>
  The default handlers of \<^verbatim>\<open>lib/uds/memory_by_address.c\<close>. Addresses and sizes are 32-bit, as on
  the board. The memory a request names is a map from addresses to bytes; what \<^verbatim>\<open>args->copy\<close>
  does with the bytes read is an argument, because it is the function of the iso14229 package or
  the one of \<^verbatim>\<open>dynamically_define_data_ids.c\<close>.
\<close>

section \<open>Model\<close>

text \<open>
  The chosen nodes of the device tree, where they have a \<open>reg\<close> property, as base and size.
\<close>

record mem_layout =
  native_sim :: bool
  sram :: "(u32 \<times> u32) option"
  flash :: "(u32 \<times> u32) option"

definition in_region :: "(u32 \<times> u32) option \<Rightarrow> u32 \<Rightarrow> u32 \<Rightarrow> bool" where
  "in_region region a sz =
     (case region of
        None \<Rightarrow> False
      | Some (base, len) \<Rightarrow> base \<le> a \<and> a + sz \<le> base + len)"

definition is_memory_address_valid :: "mem_layout \<Rightarrow> u32 \<Rightarrow> u32 \<Rightarrow> bool \<Rightarrow> bool" where
  "is_memory_address_valid lay a sz readonly =
     (if a > 0xFFFFFFFF - sz then False
      else if native_sim lay then True
      else if in_region (sram lay) a sz then True
      else if readonly \<and> in_region (flash lay) a sz then True
      else False)"

definition uds_check_default_memory_by_addr_read ::
  "mem_layout \<Rightarrow> uds_context \<Rightarrow> bool \<Rightarrow> 'w \<Rightarrow> (UDSErr_t \<times> bool, 'w) outcome" where
  "uds_check_default_memory_by_addr_read lay ctx apply_action w =
     (case ctx_arg ctx of
        Arg_ReadMem memAddr memSize _ \<Rightarrow>
          if memAddr = 0 then Returns (UDS_NRC_RequestOutOfRange, apply_action) w
          else if memSize = 0 then Returns (UDS_NRC_RequestOutOfRange, apply_action) w
          else if \<not> is_memory_address_valid lay memAddr memSize True
          then Returns (UDS_NRC_RequestOutOfRange, apply_action) w
          else Returns (UDS_OK, True) w
      | _ \<Rightarrow> Undefined)"

definition uds_check_default_memory_by_addr_write ::
  "mem_layout \<Rightarrow> uds_context \<Rightarrow> bool \<Rightarrow> 'w \<Rightarrow> (UDSErr_t \<times> bool, 'w) outcome" where
  "uds_check_default_memory_by_addr_write lay ctx apply_action w =
     (case ctx_arg ctx of
        Arg_WriteMem memAddr memSize _ \<Rightarrow>
          if memAddr = 0 then Returns (UDS_NRC_RequestOutOfRange, apply_action) w
          else if memSize = 0 then Returns (UDS_NRC_RequestOutOfRange, apply_action) w
          else if \<not> is_memory_address_valid lay memAddr memSize False
          then Returns (UDS_NRC_RequestOutOfRange, apply_action) w
          else Returns (UDS_OK, True) w
      | _ \<Rightarrow> Undefined)"

text \<open>
  The bytes at an address, and \<^verbatim>\<open>memmove\<close> to an address. The length of a copy is a
  \<open>uint16_t\<close>: \<open>memSize\<close> is cut to its low 16 bits when \<^verbatim>\<open>copy\<close> is called.
\<close>

type_synonym memory = "u32 \<Rightarrow> u8"

definition mem_read_bytes :: "memory \<Rightarrow> u32 \<Rightarrow> nat \<Rightarrow> u8 list" where
  "mem_read_bytes m a n = map (\<lambda>k. m (a + of_nat k)) [0..<n]"

definition mem_write_bytes :: "memory \<Rightarrow> u32 \<Rightarrow> u8 list \<Rightarrow> memory" where
  "mem_write_bytes m a bs = (\<lambda>x. if unat (x - a) < length bs then bs ! unat (x - a) else m x)"

definition uds_action_default_memory_by_addr_read ::
  "(copy_fn \<Rightarrow> u8 list \<Rightarrow> 'w \<Rightarrow> (UDSErr_t, 'w) outcome) \<Rightarrow> ('w \<Rightarrow> memory) \<Rightarrow>
   uds_context \<Rightarrow> bool \<Rightarrow> 'w \<Rightarrow> (UDSErr_t \<times> bool \<times> uds_arg, 'w) outcome" where
  "uds_action_default_memory_by_addr_read copy mem ctx consume_event w =
     (case ctx_arg ctx of
        Arg_ReadMem memAddr memSize c \<Rightarrow>
          obind (copy c (mem_read_bytes (mem w) memAddr (unat (ucast memSize :: u16))) w)
            (\<lambda>copy_result w'.
               if copy_result \<noteq> UDS_PositiveResponse
               then Returns (UDS_NRC_RequestOutOfRange, consume_event, ctx_arg ctx) w'
               else Returns (UDS_PositiveResponse, consume_event, ctx_arg ctx) w')
      | _ \<Rightarrow> Undefined)"

definition uds_action_default_memory_by_addr_write ::
  "uds_context \<Rightarrow> bool \<Rightarrow> memory \<Rightarrow> (UDSErr_t \<times> bool \<times> uds_arg, memory) outcome" where
  "uds_action_default_memory_by_addr_write ctx consume_event m =
     (case ctx_arg ctx of
        Arg_WriteMem memAddr memSize data \<Rightarrow>
          if length data < unat memSize then Undefined
          else Returns (UDS_PositiveResponse, consume_event, ctx_arg ctx)
                 (mem_write_bytes m memAddr (take (unat memSize) data))
      | _ \<Rightarrow> Undefined)"

section \<open>Lemmas\<close>

text \<open>The overflow guard: the range ends at or below the largest address.\<close>

lemma no_overflow_iff:
  fixes a sz :: u32
  shows "a > 0xFFFFFFFF - sz \<longleftrightarrow> unat a + unat sz \<ge> 2 ^ 32"
proof -
  have "sz \<le> (0xFFFFFFFF :: u32)" by (metis u32_max word_n1_ge)
  then have "unat (0xFFFFFFFF - sz) = 4294967295 - unat sz"
    by (simp add: unat_sub)
  moreover have "unat sz < 4294967296" by (rule unat_u32_less)
  ultimately show ?thesis by (simp add: word_less_nat_alt del: unat_u32_less) arith
qed

definition region_ok :: "(u32 \<times> u32) option \<Rightarrow> bool" where
  "region_ok region = (case region of None \<Rightarrow> True | Some (base, len) \<Rightarrow> unat base + unat len < 2 ^ 32)"

definition region_addrs :: "(u32 \<times> u32) option \<Rightarrow> nat set" where
  "region_addrs region = (case region of None \<Rightarrow> {} | Some (base, len) \<Rightarrow> {unat base..<unat base + unat len})"

lemma in_region_iff:
  assumes "region_ok region" and "unat a + unat sz < 2 ^ 32" and "sz \<noteq> 0"
  shows "in_region region a sz \<longleftrightarrow> {unat a..<unat a + unat sz} \<subseteq> region_addrs region"
proof (cases region)
  case None
  then show ?thesis using assms(3) by (simp add: in_region_def region_addrs_def unat_eq_zero)
next
  case (Some p)
  obtain base len where p: "p = (base, len)" by (cases p)
  have "unat (base + len) = unat base + unat len" "unat (a + sz) = unat a + unat sz"
    using assms Some p by (auto simp: region_ok_def intro: unat_add_no_overflow)
  moreover have "unat sz > 0" using assms(3) by (simp add: unat_gt_0)
  ultimately show ?thesis
    by (auto simp: Some p in_region_def region_addrs_def word_le_nat_alt atLeastLessThan_subset_iff)
qed

lemma mem_write_outside:
  assumes "unat a + length bs \<le> 2 ^ 32" and "unat x \<notin> {unat a..<unat a + length bs}"
  shows "mem_write_bytes m a bs x = m x"
proof -
  have "\<not> unat (x - a) < length bs"
  proof
    assume l: "unat (x - a) < length bs"
    then have "unat a + unat (x - a) < 2 ^ 32" using assms(1) by linarith
    then have "unat (a + (x - a)) = unat a + unat (x - a)" by (rule unat_add_no_overflow)
    then show False using l assms(2) by simp
  qed
  then show ?thesis by (simp add: mem_write_bytes_def)
qed

lemma mem_read_written:
  assumes "length bs \<le> 2 ^ 32"
  shows "mem_read_bytes (mem_write_bytes m a bs) a (length bs) = bs"
proof (rule nth_equalityI)
  fix k assume "k < length (mem_read_bytes (mem_write_bytes m a bs) a (length bs))"
  then have k: "k < length bs" by (simp add: mem_read_bytes_def)
  then have "unat (a + of_nat k - a) = k" using assms by (simp add: unat_of_nat_u32)
  then show "mem_read_bytes (mem_write_bytes m a bs) a (length bs) ! k = bs ! k"
    using k by (simp add: mem_read_bytes_def mem_write_bytes_def)
qed (simp add: mem_read_bytes_def)

section \<open>Properties\<close>

text \<open>
  (C3) On the board, an address range is valid iff it does not run past the end of the address
  space and lies entirely in RAM or, for a read, entirely in flash. The ranges are sets of natural
  numbers here: no 32-bit sum in the check wraps around.
\<close>

theorem is_memory_address_valid_iff:
  assumes "\<not> native_sim lay" and "region_ok (sram lay)" and "region_ok (flash lay)" and "sz \<noteq> 0"
  shows "is_memory_address_valid lay a sz readonly \<longleftrightarrow>
    unat a + unat sz < 2 ^ 32 \<and>
    ({unat a..<unat a + unat sz} \<subseteq> region_addrs (sram lay) \<or>
     readonly \<and> {unat a..<unat a + unat sz} \<subseteq> region_addrs (flash lay))"
proof (cases "unat a + unat sz < 2 ^ 32")
  case True
  then have "\<not> a > 0xFFFFFFFF - sz" by (simp only: no_overflow_iff not_le)
  then show ?thesis
    using assms True in_region_iff [OF assms(2) True assms(4)] in_region_iff [OF assms(3) True assms(4)]
    by (simp add: is_memory_address_valid_def)
next
  case False
  then have "a > 0xFFFFFFFF - sz" by (simp only: no_overflow_iff not_less)
  then show ?thesis using False by (simp add: is_memory_address_valid_def)
qed

definition board_layout :: mem_layout where
  "board_layout = \<lparr>native_sim = False, sram = Some (0x20000000, 0x20000), flash = Some (0x08000000, 0x80000)\<rparr>"

theorem is_memory_address_valid_iff_witness:
  "is_memory_address_valid board_layout 0x2001FFFE 2 False \<and>
   \<not> is_memory_address_valid board_layout 0x2001FFFE 3 True \<and>
   \<not> is_memory_address_valid board_layout 0x08000000 1 False \<and>
   \<not> is_memory_address_valid board_layout 0xFFFFFFFF 0xFFFFFFFF True"
  using is_memory_address_valid_iff [where lay = board_layout and sz = "2" and a = "0x2001FFFE" and readonly = False]
    is_memory_address_valid_iff [where lay = board_layout and sz = "3" and a = "0x2001FFFE" and readonly = True]
    is_memory_address_valid_iff [where lay = board_layout and sz = "1" and a = "0x08000000" and readonly = False]
    is_memory_address_valid_iff [where lay = board_layout and sz = "0xFFFFFFFF" and a = "0xFFFFFFFF" and readonly = True]
  by (simp add: board_layout_def region_ok_def region_addrs_def atLeastLessThan_subset_iff)

text \<open>
  A write request that passes the default check changes no byte outside RAM, and none outside
  the range it names; in particular flash is never written.
\<close>

theorem memory_write_confined:
  assumes "\<not> native_sim lay" and "region_ok (sram lay)" and "region_ok (flash lay)"
    and "ctx_arg ctx = Arg_WriteMem a sz data"
    and "uds_check_default_memory_by_addr_write lay ctx False m = Returns (UDS_OK, True) m"
    and "uds_action_default_memory_by_addr_write ctx consume m = Returns r m'"
    and "m' x \<noteq> m x"
  shows "unat x \<in> region_addrs (sram lay) \<and> unat x \<in> {unat a..<unat a + unat sz}"
proof -
  have valid: "is_memory_address_valid lay a sz False" and sz: "sz \<noteq> 0"
    using assms(4,5) by (auto simp: uds_check_default_memory_by_addr_write_def split: if_splits)
  then have range: "unat a + unat sz < 2 ^ 32" "{unat a..<unat a + unat sz} \<subseteq> region_addrs (sram lay)"
    using is_memory_address_valid_iff [OF assms(1-3) sz] by auto
  from assms(4,6) have m': "m' = mem_write_bytes m a (take (unat sz) data)" and len: "unat sz \<le> length data"
    by (auto simp: uds_action_default_memory_by_addr_write_def split: if_splits)
  have "unat x \<in> {unat a..<unat a + unat sz}"
    using mem_write_outside [of a "take (unat sz) data" x m] range(1) len assms(7) m' by fastforce
  then show ?thesis using range(2) by blast
qed

theorem memory_write_confined_witness:
  "unat (0x20000001 :: u32) \<in> region_addrs (sram board_layout) \<and>
   unat (0x20000001 :: u32) \<in> {unat (0x20000000 :: u32)..<unat (0x20000000 :: u32) + unat (2 :: u32)}"
proof (rule memory_write_confined)
  let ?ctx = "\<lparr>ctx_instance = 0, ctx_registration = Static 0, ctx_event = UDS_EVT_WriteMemByAddr,
    ctx_arg = Arg_WriteMem 0x20000000 2 [1, 2]\<rparr>"
  show "uds_action_default_memory_by_addr_write ?ctx True (\<lambda>_. 0) =
      Returns (UDS_PositiveResponse, True, Arg_WriteMem 0x20000000 2 [1, 2]) (mem_write_bytes (\<lambda>_. 0) 0x20000000 [1, 2])"
    by (simp add: uds_action_default_memory_by_addr_write_def)
  show "uds_check_default_memory_by_addr_write board_layout ?ctx False (\<lambda>_. 0) = Returns (UDS_OK, True) (\<lambda>_. 0)"
    by (simp add: uds_check_default_memory_by_addr_write_def is_memory_address_valid_def in_region_def board_layout_def)
qed (simp_all add: board_layout_def region_ok_def mem_write_bytes_def)

text \<open>
  (C19) Reading back what was written: after a write request that passes its check, a read request
  for the same range passes its check, and gives the copy function exactly the bytes written, if
  the range is shorter than 64 KiB.
\<close>

theorem memory_write_read_roundtrip:
  assumes "unat sz < 2 ^ 16"
    and "uds_check_default_memory_by_addr_write lay
      \<lparr>ctx_instance = i, ctx_registration = r, ctx_event = ev, ctx_arg = Arg_WriteMem a sz data\<rparr> False m =
      Returns (UDS_OK, True) m"
    and "uds_action_default_memory_by_addr_write
      \<lparr>ctx_instance = i, ctx_registration = r, ctx_event = ev, ctx_arg = Arg_WriteMem a sz data\<rparr> b m =
      Returns res m'"
  shows "uds_check_default_memory_by_addr_read lay
      \<lparr>ctx_instance = i, ctx_registration = r', ctx_event = ev', ctx_arg = Arg_ReadMem a sz c\<rparr> False m' =
      Returns (UDS_OK, True) m' \<and>
    uds_action_default_memory_by_addr_read (\<lambda>_ bs (out, mm). Returns UDS_PositiveResponse (out @ bs, mm)) snd
      \<lparr>ctx_instance = i, ctx_registration = r', ctx_event = ev', ctx_arg = Arg_ReadMem a sz c\<rparr> b' ([], m') =
      Returns (UDS_PositiveResponse, b', Arg_ReadMem a sz c) (take (unat sz) data, m')"
proof
  show "uds_check_default_memory_by_addr_read lay
      \<lparr>ctx_instance = i, ctx_registration = r', ctx_event = ev', ctx_arg = Arg_ReadMem a sz c\<rparr> False m' =
      Returns (UDS_OK, True) m'"
    using assms(2)
    by (auto simp: uds_check_default_memory_by_addr_write_def uds_check_default_memory_by_addr_read_def
        is_memory_address_valid_def split: if_splits)
  from assms(3) have m': "m' = mem_write_bytes m a (take (unat sz) data)" and len: "unat sz \<le> length data"
    by (auto simp: uds_action_default_memory_by_addr_write_def split: if_splits)
  have "unat (ucast sz :: u16) = unat sz"
    using assms(1) by (simp add: unat_ucast_u32_u16)
  moreover have "mem_read_bytes m' a (unat sz) = take (unat sz) data"
    using mem_read_written [of "take (unat sz) data" m a] len m' assms(1) by simp
  ultimately show "uds_action_default_memory_by_addr_read (\<lambda>_ bs (out, mm). Returns UDS_PositiveResponse (out @ bs, mm)) snd
      \<lparr>ctx_instance = i, ctx_registration = r', ctx_event = ev', ctx_arg = Arg_ReadMem a sz c\<rparr> b' ([], m') =
      Returns (UDS_PositiveResponse, b', Arg_ReadMem a sz c) (take (unat sz) data, m')"
    by (simp add: uds_action_default_memory_by_addr_read_def)
qed

theorem memory_write_read_roundtrip_witness:
  "uds_check_default_memory_by_addr_read board_layout
      \<lparr>ctx_instance = 0, ctx_registration = Static 0, ctx_event = UDS_EVT_ReadMemByAddr,
       ctx_arg = Arg_ReadMem 0x20000010 2 Copy_lib\<rparr> False (mem_write_bytes (\<lambda>_. 0) 0x20000010 [7, 9]) =
      Returns (UDS_OK, True) (mem_write_bytes (\<lambda>_. 0) 0x20000010 [7, 9])"
proof (rule memory_write_read_roundtrip [THEN conjunct1])
  let ?ctx = "\<lparr>ctx_instance = 0, ctx_registration = Static 0, ctx_event = UDS_EVT_WriteMemByAddr,
    ctx_arg = Arg_WriteMem 0x20000010 2 [7, 9]\<rparr>"
  show "uds_check_default_memory_by_addr_write board_layout ?ctx False (\<lambda>_. 0) = Returns (UDS_OK, True) (\<lambda>_. 0)"
    by (simp add: uds_check_default_memory_by_addr_write_def is_memory_address_valid_def in_region_def board_layout_def)
  show "uds_action_default_memory_by_addr_write ?ctx True (\<lambda>_. 0) =
      Returns (UDS_PositiveResponse, True, Arg_WriteMem 0x20000010 2 [7, 9]) (mem_write_bytes (\<lambda>_. 0) 0x20000010 [7, 9])"
    by (simp add: uds_action_default_memory_by_addr_write_def)
qed simp

end
