(* ===== verification/Uds_Link.thy ===== *)
theory Uds_Link
  imports Uds_Core
begin

text \<open>
  \<^verbatim>\<open>lib/uds/util.c\<close> and \<^verbatim>\<open>lib/uds/link_control.c\<close>: the baud rate of a link control modifier, the
  change of the CAN bit rate, and the default LinkControl handlers with their two static
  variables. The CAN driver is Zephyr's; its operations are arguments on a state \<open>'c\<close>.
\<close>

section \<open>Model\<close>

definition uds_link_control_modifier_to_baudrate :: "u8 \<Rightarrow> u32" where
  "uds_link_control_modifier_to_baudrate m =
     (if m = modifier_val UDS_LINK_CONTROL_MODIFIER__PC_9600_BAUD then 9600
      else if m = modifier_val UDS_LINK_CONTROL_MODIFIER__PC_1920_BAUD then 19200
      else if m = modifier_val UDS_LINK_CONTROL_MODIFIER__PC_38400_BAUD then 38400
      else if m = modifier_val UDS_LINK_CONTROL_MODIFIER__PC_57600_BAUD then 57600
      else if m = modifier_val UDS_LINK_CONTROL_MODIFIER__PC_115200_BAUD then 115200
      else if m = modifier_val UDS_LINK_CONTROL_MODIFIER__CAN_125000_BAUD then 125000
      else if m = modifier_val UDS_LINK_CONTROL_MODIFIER__CAN_250000_BAUD then 250000
      else if m = modifier_val UDS_LINK_CONTROL_MODIFIER__CAN_500000_BAUD then 500000
      else if m = modifier_val UDS_LINK_CONTROL_MODIFIER__CAN_1000000_BAUD then 1000000
      else 0)"

record 'c can_ops =
  can_stop :: "'c \<Rightarrow> c_int \<times> 'c"
  can_set_bitrate :: "u32 \<Rightarrow> 'c \<Rightarrow> c_int \<times> 'c"
  can_start :: "'c \<Rightarrow> c_int \<times> 'c"

definition uds_set_can_bitrate :: "'c can_ops \<Rightarrow> u32 \<Rightarrow> 'c \<Rightarrow> UDSErr_t \<times> 'c" where
  "uds_set_can_bitrate ops baud_rate c =
     (let (ret, c1) = can_stop ops c in
      if ret \<noteq> rc0 then (UDS_NRC_ConditionsNotCorrect, c1)
      else
        let (ret, c2) = can_set_bitrate ops baud_rate c1 in
        if ret \<noteq> rc0 then (UDS_NRC_ConditionsNotCorrect, snd (can_start ops c2))
        else
          let (ret, c3) = can_start ops c2 in
          if ret \<noteq> rc0 then (UDS_NRC_ConditionsNotCorrect, c3) else (UDS_OK, c3))"

text \<open>\<open>dflt\<close> is \<^verbatim>\<open>CONFIG_UDS_DEFAULT_CAN_BITRATE\<close>.\<close>

definition uds_set_can_default_bitrate :: "u32 \<Rightarrow> 'c can_ops \<Rightarrow> 'c \<Rightarrow> UDSErr_t \<times> 'c" where
  "uds_set_can_default_bitrate dflt ops c = uds_set_can_bitrate ops dflt c"

text \<open>The static variables of the handlers, and the CAN controller they act on.\<close>

record 'c link_state =
  lk_modifier :: u8
  lk_modifier_set :: bool
  lk_can :: 'c

definition uds_check_default_link_control ::
  "uds_context \<Rightarrow> bool \<Rightarrow> 'c link_state \<Rightarrow> (UDSErr_t \<times> bool, 'c link_state) outcome" where
  "uds_check_default_link_control ctx apply_action s =
     (case ctx_arg ctx of
        Arg_LinkCtrl ty data \<Rightarrow>
          if ty = link_control_val UDS_LINK_CONTROL__VERIFY_MODE_TRANSITION_WITH_FIXED_PARAMETER then
            (case data of
               [] \<Rightarrow> Undefined
             | modifier # _ \<Rightarrow>
                 if modifier \<noteq> modifier_val UDS_LINK_CONTROL_MODIFIER__CAN_125000_BAUD \<and>
                    modifier \<noteq> modifier_val UDS_LINK_CONTROL_MODIFIER__CAN_250000_BAUD \<and>
                    modifier \<noteq> modifier_val UDS_LINK_CONTROL_MODIFIER__CAN_500000_BAUD
                 then Returns (UDS_NRC_RequestOutOfRange, False) s
                 else Returns (UDS_OK, True) s)
          else if ty = link_control_val UDS_LINK_CONTROL__TRANSITION_MODE then
            (if \<not> lk_modifier_set s then Returns (UDS_NRC_RequestSequenceError, False) s
             else Returns (UDS_OK, True) s)
          else Returns (UDS_NRC_SubFunctionNotSupported, apply_action) s
      | _ \<Rightarrow> Undefined)"

text \<open>\<open>sessionType\<close> is that of the server; the modifier is read before the sub-function is tested.\<close>

definition uds_action_default_link_control ::
  "'c can_ops \<Rightarrow> u8 \<Rightarrow> uds_context \<Rightarrow> bool \<Rightarrow> 'c link_state \<Rightarrow>
   (UDSErr_t \<times> bool \<times> uds_arg, 'c link_state) outcome" where
  "uds_action_default_link_control ops sessionType ctx consume_event s =
     (case ctx_arg ctx of
        Arg_LinkCtrl ty (modifier # _) \<Rightarrow>
          if ty = link_control_val UDS_LINK_CONTROL__VERIFY_MODE_TRANSITION_WITH_FIXED_PARAMETER then
            (if sessionType = session_val UDS_DIAG_SESSION__DEFAULT
             then Returns (UDS_NRC_SubFunctionNotSupportedInActiveSession, False, ctx_arg ctx) s
             else Returns (UDS_OK, True, ctx_arg ctx)
                    (s\<lparr>lk_modifier := modifier, lk_modifier_set := True\<rparr>))
          else if ty = link_control_val UDS_LINK_CONTROL__TRANSITION_MODE then
            (if sessionType = session_val UDS_DIAG_SESSION__DEFAULT
             then Returns (UDS_NRC_SubFunctionNotSupportedInActiveSession, consume_event, ctx_arg ctx) s
             else (case uds_set_can_bitrate ops (uds_link_control_modifier_to_baudrate modifier) (lk_can s) of
                     (ret, c) \<Rightarrow> Returns (ret, consume_event, ctx_arg ctx) (s\<lparr>lk_can := c\<rparr>)))
          else Returns (UDS_NRC_SubFunctionNotSupported, consume_event, ctx_arg ctx) s
      | _ \<Rightarrow> Undefined)"

definition uds_check_default_link_control_change_diag_session ::
  "uds_context \<Rightarrow> bool \<Rightarrow> 'w \<Rightarrow> (UDSErr_t \<times> bool, 'w) outcome" where
  "uds_check_default_link_control_change_diag_session ctx apply_action w =
     (if ctx_event ctx = UDS_EVT_DiagSessCtrl then
        (case ctx_arg ctx of
           Arg_DiagSessCtrl ty \<Rightarrow>
             Returns (UDS_OK, if ty = session_val UDS_DIAG_SESSION__DEFAULT then True else apply_action) w
         | _ \<Rightarrow> Undefined)
      else if ctx_event ctx = UDS_EVT_SessionTimeout then Returns (UDS_OK, True) w
      else Returns (UDS_OK, apply_action) w)"

definition uds_action_default_link_control_change_diag_session ::
  "u32 \<Rightarrow> 'c can_ops \<Rightarrow> uds_context \<Rightarrow> bool \<Rightarrow> 'c link_state \<Rightarrow>
   (UDSErr_t \<times> bool \<times> uds_arg, 'c link_state) outcome" where
  "uds_action_default_link_control_change_diag_session dflt ops ctx consume_event s =
     (case uds_set_can_default_bitrate dflt ops (lk_can s) of
        (ret, c) \<Rightarrow> Returns (ret, False, ctx_arg ctx) (s\<lparr>lk_can := c\<rparr>))"

text \<open>
  The link control requests a server sees one after another: the check of the default handler,
  then its action where the check asks for it. A request carries the session it arrives in.
\<close>

inductive link_step :: "'c can_ops \<Rightarrow> 'c link_state \<Rightarrow> u8 \<times> uds_context \<Rightarrow> UDSErr_t \<Rightarrow> 'c link_state \<Rightarrow> bool"
  for ops where
  refused: "uds_check_default_link_control ctx False s = Returns (e, b) s' \<Longrightarrow> e \<noteq> UDS_OK \<Longrightarrow>
    link_step ops s (session, ctx) e s'"
| acted: "uds_check_default_link_control ctx False s = Returns (UDS_OK, True) s1 \<Longrightarrow>
    uds_action_default_link_control ops session ctx True s1 = Returns (e, b, arg) s2 \<Longrightarrow>
    link_step ops s (session, ctx) e s2"

inductive link_run :: "'c can_ops \<Rightarrow> 'c link_state \<Rightarrow> (u8 \<times> uds_context \<times> UDSErr_t) list \<Rightarrow> 'c link_state \<Rightarrow> bool"
  for ops where
  run_nil: "link_run ops s [] s"
| run_snoc: "link_run ops s tr s1 \<Longrightarrow> link_step ops s1 (session, ctx) e s2 \<Longrightarrow>
    link_run ops s (tr @ [(session, ctx, e)]) s2"

inductive_cases link_stepE: "link_step ops s rq e s'"

definition is_verify :: "uds_arg \<Rightarrow> bool" where
  "is_verify arg = (case arg of Arg_LinkCtrl ty _ \<Rightarrow> ty = 1 | _ \<Rightarrow> False)"

section \<open>Lemmas\<close>

lemma link_step_can:
  assumes "link_step ops s (session, ctx) e s'" and "lk_can s' \<noteq> lk_can s"
  shows "lk_modifier_set s \<and> session \<noteq> 1"
  using assms
  by (cases rule: link_stepE)
    (auto simp: uds_check_default_link_control_def uds_action_default_link_control_def
      split: uds_arg.splits list.splits if_splits prod.splits)

lemma link_step_set:
  assumes "link_step ops s (session, ctx) e s'" and "lk_modifier_set s'"
  shows "lk_modifier_set s \<or> (e = UDS_OK \<and> is_verify (ctx_arg ctx) \<and> session \<noteq> 1)"
  using assms
  by (cases rule: link_stepE)
    (auto simp: uds_check_default_link_control_def uds_action_default_link_control_def is_verify_def
      split: uds_arg.splits list.splits if_splits prod.splits)

lemma link_step_modifier:
  assumes "link_step ops s rq e s'" and "lk_modifier_set s \<longrightarrow> lk_modifier s \<in> {0x10, 0x11, 0x12}"
  shows "lk_modifier_set s' \<longrightarrow> lk_modifier s' \<in> {0x10, 0x11, 0x12}"
  using assms
  by (cases rule: link_stepE)
    (auto simp: uds_check_default_link_control_def uds_action_default_link_control_def
      split: uds_arg.splits list.splits if_splits prod.splits)

lemma link_run_modifier:
  "link_run ops s tr s' \<Longrightarrow> lk_modifier_set s \<longrightarrow> lk_modifier s \<in> {0x10, 0x11, 0x12} \<Longrightarrow>
   lk_modifier_set s' \<longrightarrow> lk_modifier s' \<in> {0x10, 0x11, 0x12}"
  by (induction rule: link_run.induct) (blast dest: link_step_modifier)+

lemma link_run_verified:
  "link_run ops s tr s' \<Longrightarrow> \<not> lk_modifier_set s \<Longrightarrow> lk_modifier_set s' \<or> lk_can s' \<noteq> lk_can s \<Longrightarrow>
   \<exists>(session, ctx, e) \<in> set tr. e = UDS_OK \<and> is_verify (ctx_arg ctx) \<and> session \<noteq> 1"
proof (induction rule: link_run.induct)
  case (run_snoc s tr s1 session ctx e s2)
  show ?case
  proof (cases "lk_modifier_set s1 \<or> lk_can s1 \<noteq> lk_can s")
    case True
    then show ?thesis using run_snoc.IH run_snoc.prems by auto
  next
    case False
    then have "lk_modifier_set s2"
      using run_snoc.hyps(2) run_snoc.prems link_step_can by metis
    then show ?thesis using link_step_set [OF run_snoc.hyps(2)] False by auto
  qed
qed simp

section \<open>Properties\<close>

text \<open>
  \<open>uds_link_control_modifier_to_baudrate\<close> yields 0 exactly for the values that are not a
  modifier and for the programming setup.
\<close>

theorem modifier_to_baudrate_zero:
  "uds_link_control_modifier_to_baudrate m = 0 \<longleftrightarrow>
     m \<in> - range modifier_val \<union> {modifier_val UDS_LINK_CONTROL_MODIFIER__PROGRAMMING_SETUP}"
proof
  assume "uds_link_control_modifier_to_baudrate m = 0"
  then have "\<forall>x. m = modifier_val x \<longrightarrow> x = UDS_LINK_CONTROL_MODIFIER__PROGRAMMING_SETUP"
    by (intro allI, rename_tac x, case_tac x)
      (auto simp: uds_link_control_modifier_to_baudrate_def split: if_splits)
  then show "m \<in> - range modifier_val \<union> {modifier_val UDS_LINK_CONTROL_MODIFIER__PROGRAMMING_SETUP}" by auto
next
  assume "m \<in> - range modifier_val \<union> {modifier_val UDS_LINK_CONTROL_MODIFIER__PROGRAMMING_SETUP}"
  then show "uds_link_control_modifier_to_baudrate m = 0"
    by (auto simp: uds_link_control_modifier_to_baudrate_def image_iff
        simp del: modifier_val.simps) (simp_all)
qed

text \<open>
  \<open>uds_set_can_bitrate\<close> succeeds iff the controller could be stopped, given the new rate and
  started again, in this order; when the rate is refused the controller is started again, with the
  old rate, and the request fails.
\<close>

theorem set_can_bitrate_cases:
  "uds_set_can_bitrate ops baud c =
     (case can_stop ops c of
        (Inr 0, c1) \<Rightarrow>
          (case can_set_bitrate ops baud c1 of
             (Inr 0, c2) \<Rightarrow>
               (if fst (can_start ops c2) = rc0 then UDS_OK else UDS_NRC_ConditionsNotCorrect, snd (can_start ops c2))
           | (_, c2) \<Rightarrow> (UDS_NRC_ConditionsNotCorrect, snd (can_start ops c2)))
      | (_, c1) \<Rightarrow> (UDS_NRC_ConditionsNotCorrect, c1))"
  by (auto simp: uds_set_can_bitrate_def Let_def split: prod.splits sum.splits nat.splits)

text \<open>
  (C20) The default LinkControl handler keeps the ordering of the service: over any run of requests
  from the initial state, the CAN controller is touched only if an earlier request of the run
  verified a fixed baud rate in a session other than the default one; and the verified modifier
  that is stored is always one of the three supported CAN rates.
\<close>

theorem link_control_ordering:
  assumes "link_run ops \<lparr>lk_modifier = 0, lk_modifier_set = False, lk_can = c\<rparr> tr s"
  shows "(lk_can s \<noteq> c \<longrightarrow>
      (\<exists>(session, ctx, e) \<in> set tr. e = UDS_OK \<and> is_verify (ctx_arg ctx) \<and> session \<noteq> 1)) \<and>
    (lk_modifier_set s \<longrightarrow> uds_link_control_modifier_to_baudrate (lk_modifier s) \<in> {125000, 250000, 500000})"
proof -
  have "lk_modifier_set s \<longrightarrow> lk_modifier s \<in> {0x10, 0x11, 0x12}"
    using link_run_modifier [OF assms] by simp
  then have "lk_modifier_set s \<longrightarrow> uds_link_control_modifier_to_baudrate (lk_modifier s) \<in> {125000, 250000, 500000}"
    by (auto simp: uds_link_control_modifier_to_baudrate_def)
  then show ?thesis using link_run_verified [OF assms] by simp
qed

theorem link_control_ordering_witness:
  "\<exists>s. link_run \<lparr>can_stop = (\<lambda>c. (rc0, c)), can_set_bitrate = (\<lambda>b c. (rc0, b)), can_start = (\<lambda>c. (rc0, c))\<rparr>
      \<lparr>lk_modifier = 0, lk_modifier_set = False, lk_can = 500000\<rparr>
      [(3, \<lparr>ctx_instance = 0, ctx_registration = Static 0, ctx_event = UDS_EVT_LinkControl,
            ctx_arg = Arg_LinkCtrl 1 [0x10]\<rparr>, UDS_OK)] s \<and>
    uds_link_control_modifier_to_baudrate (lk_modifier s) \<in> {125000, 250000, 500000}"
proof -
  let ?ops = "\<lparr>can_stop = (\<lambda>c. (rc0, c)), can_set_bitrate = (\<lambda>b c. (rc0, b)), can_start = (\<lambda>c. (rc0, c))\<rparr>"
  let ?s = "\<lparr>lk_modifier = 0, lk_modifier_set = False, lk_can = 500000\<rparr>"
  let ?ctx = "\<lparr>ctx_instance = 0, ctx_registration = Static 0, ctx_event = UDS_EVT_LinkControl,
    ctx_arg = Arg_LinkCtrl 1 [0x10]\<rparr>"
  have "link_step ?ops ?s (3, ?ctx) UDS_OK (?s\<lparr>lk_modifier := 0x10, lk_modifier_set := True\<rparr>)"
    by (rule link_step.acted [where b = True and arg = "Arg_LinkCtrl 1 [0x10]" and ?s1.0 = ?s])
      (simp_all add: uds_check_default_link_control_def uds_action_default_link_control_def)
  then have run: "link_run ?ops ?s ([] @ [(3, ?ctx, UDS_OK)]) (?s\<lparr>lk_modifier := 0x10, lk_modifier_set := True\<rparr>)"
    by (rule link_run.run_snoc [OF link_run.run_nil])
  then have "uds_link_control_modifier_to_baudrate
      (lk_modifier (?s\<lparr>lk_modifier := 0x10, lk_modifier_set := True\<rparr>)) \<in> {125000, 250000, 500000}"
    using link_control_ordering [where c = 500000] by fastforce
  with run show ?thesis by (intro exI [of _ "?s\<lparr>lk_modifier := 0x10, lk_modifier_set := True\<rparr>"]) simp
qed

text \<open>
  The rate a transition request switches to is that of the byte in the transition request
  itself, whatever modifier was verified before: the stored modifier is never read.
\<close>

theorem transition_uses_request_byte:
  assumes "session \<noteq> session_val UDS_DIAG_SESSION__DEFAULT" and "lk_modifier_set s"
    and "ctx_arg ctx = Arg_LinkCtrl (link_control_val UDS_LINK_CONTROL__TRANSITION_MODE) (m # ms)"
  shows "uds_check_default_link_control ctx False s = Returns (UDS_OK, True) s \<and>
    (\<exists>ret c. uds_set_can_bitrate ops (uds_link_control_modifier_to_baudrate m) (lk_can s) = (ret, c) \<and>
       uds_action_default_link_control ops session ctx b s = Returns (ret, b, ctx_arg ctx) (s\<lparr>lk_can := c\<rparr>))"
  using assms
  by (cases "uds_set_can_bitrate ops (uds_link_control_modifier_to_baudrate m) (lk_can s)")
    (simp add: uds_check_default_link_control_def uds_action_default_link_control_def)

theorem transition_uses_request_byte_witness:
  "uds_check_default_link_control \<lparr>ctx_instance = 0, ctx_registration = Static 0, ctx_event = UDS_EVT_LinkControl,
      ctx_arg = Arg_LinkCtrl 3 [0x12]\<rparr> False \<lparr>lk_modifier = 0x10, lk_modifier_set = True, lk_can = ()\<rparr> =
    Returns (UDS_OK, True) \<lparr>lk_modifier = 0x10, lk_modifier_set = True, lk_can = ()\<rparr>"
  by (rule transition_uses_request_byte [where session = 3 and m = "0x12" and ms = "[]", THEN conjunct1]) simp_all

end
