(* ===== verification/Uds_Transfer.thy ===== *)
theory Uds_Transfer
  imports Uds_Core
begin

text \<open>
  The upload and download service: \<^verbatim>\<open>lib/uds/upload_download.c\<close> and
  \<^verbatim>\<open>lib/uds/upload_download_file_transfer.c\<close>. Flash and file system are Zephyr's, the response
  buffer and its copy function are those of the iso14229 package; their operations are arguments.
  Sizes and addresses are 32-bit, and sums of them wrap around as in the code.
\<close>

section \<open>State and environment\<close>

datatype UploadDownloadState =
    UDS_UPDOWN__IDLE | UDS_UPDOWN__DOWNLOAD_IN_PROGRESS | UDS_UPDOWN__UPLOAD_IN_PROGRESS

record upload_download_state =
  ud_state :: UploadDownloadState
  start_address :: u32
  current_address :: u32
  total_size :: u32
  write_block_size :: u32

datatype FileTransferMode =
    UDS_FILE_TRANSFER__IDLE | UDS_FILE_TRANSFER__WRITE | UDS_FILE_TRANSFER__READ

text \<open>\<open>fts_file\<close> is the file object; \<open>None\<close> is one that was initialised and not opened.\<close>

record 'h file_transfer_state =
  fts_mode :: FileTransferMode
  fts_file :: "'h option"
  fts_file_open :: bool
  fts_expected_size :: u32
  fts_transferred :: u32
  fts_block_length :: u16

datatype fs_dir_entry_type = FS_DIR_ENTRY_FILE | FS_DIR_ENTRY_DIR
datatype fs_mode = FS_O_CREATE_TRUNC_RDWR | FS_O_READ

text \<open>
  The configuration: base and size of the flash, \<^verbatim>\<open>CONFIG_UDS_UPLOAD_MAX_PAYLOAD_SIZE\<close>,
  \<^verbatim>\<open>UDS_0X36_RESP_BASE_LEN\<close> and \<^verbatim>\<open>UDS_TP_MTU\<close> of the package.
\<close>

record transfer_cfg =
  FLASH_BASE_ADDRESS :: u32
  FLASH_MAX_SIZE :: u32
  max_payload :: u32
  resp_base_len :: u32
  tp_mtu :: u16

record ('f, 'fs, 'h, 'r) transfer_ops =
  flash_ready :: "'f \<Rightarrow> bool"
  flash_get_write_block_size :: "'f \<Rightarrow> u32"
  flash_write :: "u32 \<Rightarrow> u8 list \<Rightarrow> 'f \<Rightarrow> c_int \<times> 'f"
  flash_read :: "u32 \<Rightarrow> nat \<Rightarrow> 'f \<Rightarrow> c_int \<times> u8 list"
  fs_open :: "string \<Rightarrow> fs_mode \<Rightarrow> 'fs \<Rightarrow> 'h rc \<times> 'fs"
  fs_close :: "'h option \<Rightarrow> 'fs \<Rightarrow> 'fs"
  fs_stat :: "string \<Rightarrow> 'fs \<Rightarrow> (fs_dir_entry_type \<times> u32) rc"
  fs_unlink :: "string \<Rightarrow> 'fs \<Rightarrow> c_int \<times> 'fs"
  fs_write :: "'h option \<Rightarrow> u8 list \<Rightarrow> 'fs \<Rightarrow> c_int \<times> 'fs"
  fs_read :: "'h option \<Rightarrow> nat \<Rightarrow> 'fs \<Rightarrow> u8 list rc \<times> 'fs"
  copyResponse :: "copy_fn \<Rightarrow> u8 list \<Rightarrow> 'r \<Rightarrow> UDSErr_t \<times> 'r"

record ('f, 'fs, 'h, 'r) transfer_world =
  tw_ud :: upload_download_state
  tw_ft :: "'h file_transfer_state"
  tw_flash :: 'f
  tw_fs :: 'fs
  tw_resp :: 'r

definition ud_init :: upload_download_state where
  "ud_init = \<lparr>ud_state = UDS_UPDOWN__IDLE, start_address = 0, current_address = 0, total_size = 0,
     write_block_size = 0\<rparr>"

definition ft_init :: "'h file_transfer_state" where
  "ft_init = \<lparr>fts_mode = UDS_FILE_TRANSFER__IDLE, fts_file = None, fts_file_open = False,
     fts_expected_size = 0, fts_transferred = 0, fts_block_length = 0\<rparr>"

section \<open>Flash upload and download\<close>

text \<open>The address of a request, relative to the start of the flash.\<close>

definition normalize_addr :: "transfer_cfg \<Rightarrow> u32 \<Rightarrow> u32" where
  "normalize_addr cfg a = (if a > FLASH_BASE_ADDRESS cfg then a - FLASH_BASE_ADDRESS cfg else a)"

definition MAXIMUM_FLASH_WRITE_BLOCK_SIZE :: u32 where
  "MAXIMUM_FLASH_WRITE_BLOCK_SIZE = 32"

text \<open>Each function returns its result, the argument structure and the new state.\<close>

definition start_download ::
  "transfer_cfg \<Rightarrow> ('f, 'fs, 'h, 'r) transfer_ops \<Rightarrow> u32 \<Rightarrow> u32 \<Rightarrow> u8 \<Rightarrow>
   ('f, 'fs, 'h, 'r) transfer_world \<Rightarrow> UDSErr_t \<times> uds_arg \<times> ('f, 'fs, 'h, 'r) transfer_world" where
  "start_download cfg ops ad sz fmt w =
     (if \<not> flash_ready ops (tw_flash w)
      then (UDS_NRC_UploadDownloadNotAccepted, Arg_RequestDownload ad sz fmt, w)
      else if sz = 0 then (UDS_NRC_RequestOutOfRange, Arg_RequestDownload ad sz fmt, w)
      else
        let ad = normalize_addr cfg ad in
        if ad + sz > FLASH_MAX_SIZE cfg then (UDS_NRC_RequestOutOfRange, Arg_RequestDownload ad sz fmt, w)
        else if fmt \<noteq> 0 then (UDS_NRC_RequestOutOfRange, Arg_RequestDownload ad sz fmt, w)
        else
          let ud = (tw_ud w)\<lparr>start_address := ad, current_address := ad, total_size := sz,
                      write_block_size := flash_get_write_block_size ops (tw_flash w)\<rparr> in
          if write_block_size ud > MAXIMUM_FLASH_WRITE_BLOCK_SIZE
          then (UDS_NRC_UploadDownloadNotAccepted, Arg_RequestDownload ad sz fmt, w\<lparr>tw_ud := ud\<rparr>)
          else (UDS_OK, Arg_RequestDownload ad sz fmt,
                w\<lparr>tw_ud := ud\<lparr>ud_state := UDS_UPDOWN__DOWNLOAD_IN_PROGRESS\<rparr>\<rparr>))"

definition start_upload ::
  "transfer_cfg \<Rightarrow> ('f, 'fs, 'h, 'r) transfer_ops \<Rightarrow> u32 \<Rightarrow> u32 \<Rightarrow> u16 \<Rightarrow>
   ('f, 'fs, 'h, 'r) transfer_world \<Rightarrow> UDSErr_t \<times> uds_arg \<times> ('f, 'fs, 'h, 'r) transfer_world" where
  "start_upload cfg ops ad sz mbl w =
     (if ud_state (tw_ud w) \<noteq> UDS_UPDOWN__IDLE
      then (UDS_NRC_RequestSequenceError, Arg_RequestUpload ad sz mbl, w)
      else if \<not> flash_ready ops (tw_flash w)
      then (UDS_NRC_UploadDownloadNotAccepted, Arg_RequestUpload ad sz mbl, w)
      else if sz = 0 then (UDS_NRC_RequestOutOfRange, Arg_RequestUpload ad sz mbl, w)
      else
        let ad = normalize_addr cfg ad in
        if ad + sz > FLASH_MAX_SIZE cfg then (UDS_NRC_RequestOutOfRange, Arg_RequestUpload ad sz mbl, w)
        else
          (UDS_OK, Arg_RequestUpload ad sz (ucast (min (max_payload cfg + resp_base_len cfg) (ucast mbl))),
           w\<lparr>tw_ud := (tw_ud w)\<lparr>start_address := ad, current_address := ad, total_size := sz,
                        ud_state := UDS_UPDOWN__UPLOAD_IN_PROGRESS\<rparr>\<rparr>))"

text \<open>
  A chunk is written in two pieces: its full blocks, then the rest, padded to a block with 0xFF.
  The remainder by a block size of 0 and a block longer than the buffer are undefined.
\<close>

definition continue_download ::
  "('f, 'fs, 'h, 'r) transfer_ops \<Rightarrow> u8 list \<Rightarrow> ('f, 'fs, 'h, 'r) transfer_world \<Rightarrow>
   (UDSErr_t, ('f, 'fs, 'h, 'r) transfer_world) outcome" where
  "continue_download ops data w =
     (let ud = tw_ud w; len = of_nat (length data) :: u32 in
      if len = 0 \<or> current_address ud + len > start_address ud + total_size ud
      then Returns UDS_NRC_RequestOutOfRange w
      else if write_block_size ud = 0 then Undefined
      else
        let overflow_size = length data mod unat (write_block_size ud);
            first_write = length data - overflow_size;
            (rc, f1) = (if first_write > 0
                        then flash_write ops (current_address ud) (take first_write data) (tw_flash w)
                        else (rc0, tw_flash w)) in
        if rc \<noteq> rc0 then Returns UDS_NRC_GeneralProgrammingFailure (w\<lparr>tw_flash := f1\<rparr>)
        else if overflow_size \<noteq> 0 \<and> write_block_size ud > MAXIMUM_FLASH_WRITE_BLOCK_SIZE then Undefined
        else
          let (rc, f2) = (if overflow_size \<noteq> 0
                          then flash_write ops (current_address ud + of_nat first_write)
                                 (drop first_write data @
                                  replicate (unat (write_block_size ud) - overflow_size) 0xFF) f1
                          else (rc0, f1)) in
          if rc \<noteq> rc0 then Returns UDS_NRC_GeneralProgrammingFailure (w\<lparr>tw_flash := f2\<rparr>)
          else Returns UDS_OK (w\<lparr>tw_flash := f2, tw_ud := ud\<lparr>current_address := current_address ud + len\<rparr>\<rparr>))"

definition continue_upload ::
  "transfer_cfg \<Rightarrow> ('f, 'fs, 'h, 'r) transfer_ops \<Rightarrow> u16 \<Rightarrow> copy_fn option \<Rightarrow>
   ('f, 'fs, 'h, 'r) transfer_world \<Rightarrow> UDSErr_t \<times> ('f, 'fs, 'h, 'r) transfer_world" where
  "continue_upload cfg ops maxRespLen copy w =
     (let ud = tw_ud w in
      if ud_state ud \<noteq> UDS_UPDOWN__UPLOAD_IN_PROGRESS then (UDS_NRC_RequestSequenceError, w)
      else if current_address ud \<ge> start_address ud + total_size ud then (UDS_NRC_RequestSequenceError, w)
      else
        let len_to_copy = min (max_payload cfg)
              (min (ucast maxRespLen) (start_address ud + total_size ud - current_address ud)) in
        (case flash_read ops (current_address ud) (unat len_to_copy) (tw_flash w) of
           (ret, buf) \<Rightarrow>
             if ret \<noteq> rc0 then (UDS_NRC_GeneralProgrammingFailure, w)
             else
               (case copy of
                  None \<Rightarrow> (UDS_ERR_MISUSE, w)
                | Some c \<Rightarrow>
                    (UDS_OK, w\<lparr>tw_resp := snd (copyResponse ops c buf (tw_resp w)),
                       tw_ud := ud\<lparr>current_address := current_address ud + len_to_copy\<rparr>\<rparr>))))"

definition uds_upload_download_reset ::
  "('f, 'fs, 'h, 'r) transfer_world \<Rightarrow> UDSErr_t \<times> ('f, 'fs, 'h, 'r) transfer_world" where
  "uds_upload_download_reset w =
     (if ud_state (tw_ud w) = UDS_UPDOWN__IDLE then (UDS_NRC_RequestSequenceError, w)
      else (UDS_OK, w\<lparr>tw_ud := (tw_ud w)\<lparr>ud_state := UDS_UPDOWN__IDLE, start_address := 0,
              current_address := 0, total_size := 0\<rparr>\<rparr>))"

section \<open>File transfer\<close>

definition uds_file_transfer_block_length :: "transfer_cfg \<Rightarrow> u16 \<Rightarrow> u16" where
  "uds_file_transfer_block_length cfg requested =
     (let limit = tp_mtu cfg in if requested > 0 \<and> requested < limit then requested else limit)"

fun fs_error_to_nrc :: "errno \<Rightarrow> UDSErr_t" where
  "fs_error_to_nrc ENOENT = UDS_NRC_RequestOutOfRange"
| "fs_error_to_nrc EPERM = UDS_NRC_SecurityAccessDenied"
| "fs_error_to_nrc EACCES = UDS_NRC_SecurityAccessDenied"
| "fs_error_to_nrc _ = UDS_NRC_UploadDownloadNotAccepted"

definition uds_file_transfer_reset ::
  "('f, 'fs, 'h, 'r) transfer_ops \<Rightarrow> ('f, 'fs, 'h, 'r) transfer_world \<Rightarrow> ('f, 'fs, 'h, 'r) transfer_world" where
  "uds_file_transfer_reset ops w =
     (let w1 = (if fts_file_open (tw_ft w)
                then w\<lparr>tw_fs := fs_close ops (fts_file (tw_ft w)) (tw_fs w)\<rparr> else w) in
      w1\<lparr>tw_ft := (tw_ft w1)\<lparr>fts_mode := UDS_FILE_TRANSFER__IDLE, fts_file_open := False,
           fts_expected_size := 0, fts_transferred := 0, fts_block_length := 0\<rparr>\<rparr>)"

text \<open>Both begin functions return the new \<^verbatim>\<open>maxNumberOfBlockLength\<close> of the arguments.\<close>

definition uds_file_transfer_begin_write ::
  "transfer_cfg \<Rightarrow> ('f, 'fs, 'h, 'r) transfer_ops \<Rightarrow> string \<Rightarrow> u32 \<Rightarrow> u16 \<Rightarrow>
   ('f, 'fs, 'h, 'r) transfer_world \<Rightarrow> UDSErr_t \<times> u16 \<times> ('f, 'fs, 'h, 'r) transfer_world" where
  "uds_file_transfer_begin_write cfg ops path expected_size mbl w =
     (case fs_open ops path FS_O_CREATE_TRUNC_RDWR (tw_fs w) of
        (Inl e, fs1) \<Rightarrow> (fs_error_to_nrc e, mbl, w\<lparr>tw_fs := fs1, tw_ft := (tw_ft w)\<lparr>fts_file := None\<rparr>\<rparr>)
      | (Inr h, fs1) \<Rightarrow>
          let bl = uds_file_transfer_block_length cfg mbl in
          (UDS_OK, bl,
           w\<lparr>tw_fs := fs1,
             tw_ft := \<lparr>fts_mode = UDS_FILE_TRANSFER__WRITE, fts_file = Some h, fts_file_open = True,
                       fts_expected_size = expected_size, fts_transferred = 0, fts_block_length = bl\<rparr>\<rparr>))"

definition uds_file_transfer_begin_read ::
  "transfer_cfg \<Rightarrow> ('f, 'fs, 'h, 'r) transfer_ops \<Rightarrow> string \<Rightarrow> u16 \<Rightarrow>
   ('f, 'fs, 'h, 'r) transfer_world \<Rightarrow> UDSErr_t \<times> u16 \<times> ('f, 'fs, 'h, 'r) transfer_world" where
  "uds_file_transfer_begin_read cfg ops path mbl w =
     (case fs_open ops path FS_O_READ (tw_fs w) of
        (Inl e, fs1) \<Rightarrow> (fs_error_to_nrc e, mbl, w\<lparr>tw_fs := fs1, tw_ft := (tw_ft w)\<lparr>fts_file := None\<rparr>\<rparr>)
      | (Inr h, fs1) \<Rightarrow>
          let w1 = w\<lparr>tw_fs := fs1, tw_ft := (tw_ft w)\<lparr>fts_file := Some h\<rparr>\<rparr> in
          (case fs_stat ops path fs1 of
             Inl e \<Rightarrow> (fs_error_to_nrc e, mbl, uds_file_transfer_reset ops w1)
           | Inr (ty, sz) \<Rightarrow>
               if ty \<noteq> FS_DIR_ENTRY_FILE then (UDS_NRC_RequestOutOfRange, mbl, uds_file_transfer_reset ops w1)
               else
                 let bl = uds_file_transfer_block_length cfg mbl in
                 (UDS_OK, bl,
                  w1\<lparr>tw_ft := \<lparr>fts_mode = UDS_FILE_TRANSFER__READ, fts_file = Some h, fts_file_open = True,
                       fts_expected_size = sz, fts_transferred = 0, fts_block_length = bl\<rparr>\<rparr>)))"

definition uds_file_transfer_delete ::
  "('f, 'fs, 'h, 'r) transfer_ops \<Rightarrow> string \<Rightarrow> ('f, 'fs, 'h, 'r) transfer_world \<Rightarrow>
   UDSErr_t \<times> ('f, 'fs, 'h, 'r) transfer_world" where
  "uds_file_transfer_delete ops path w =
     (case fs_unlink ops path (tw_fs w) of
        (Inl e, fs1) \<Rightarrow> (fs_error_to_nrc e, w\<lparr>tw_fs := fs1\<rparr>)
      | (Inr _, fs1) \<Rightarrow> (UDS_OK, w\<lparr>tw_fs := fs1\<rparr>))"

text \<open>The path is terminated by a NUL; the file system sees it up to its first NUL.\<close>

definition c_string :: "string \<Rightarrow> string" where
  "c_string s = takeWhile (\<lambda>c. c \<noteq> CHR 0x00) s"

definition UDS_FILE_TRANSFER_MAX_PATH :: nat where
  "UDS_FILE_TRANSFER_MAX_PATH = 256"

definition uds_file_transfer_request ::
  "transfer_cfg \<Rightarrow> ('f, 'fs, 'h, 'r) transfer_ops \<Rightarrow> uds_moop \<Rightarrow> string option \<Rightarrow> u32 \<Rightarrow> u16 \<Rightarrow>
   ('f, 'fs, 'h, 'r) transfer_world \<Rightarrow> UDSErr_t \<times> u16 \<times> ('f, 'fs, 'h, 'r) transfer_world" where
  "uds_file_transfer_request cfg ops mode filePath fsize mbl w =
     (case filePath of
        None \<Rightarrow> (UDS_NRC_RequestOutOfRange, mbl, w)
      | Some p \<Rightarrow>
          if length p = 0 then (UDS_NRC_RequestOutOfRange, mbl, w)
          else if length p \<ge> UDS_FILE_TRANSFER_MAX_PATH then (UDS_NRC_RequestOutOfRange, mbl, w)
          else
            let path = c_string p in
            (case mode of
               UDS_MOOP_ADDFILE \<Rightarrow> uds_file_transfer_begin_write cfg ops path fsize mbl w
             | UDS_MOOP_REPLFILE \<Rightarrow> uds_file_transfer_begin_write cfg ops path fsize mbl w
             | UDS_MOOP_DELFILE \<Rightarrow> (case uds_file_transfer_delete ops path w of (r, w') \<Rightarrow> (r, 0, w'))
             | UDS_MOOP_RDFILE \<Rightarrow> uds_file_transfer_begin_read cfg ops path mbl w
             | UDS_MOOP_other _ \<Rightarrow> (UDS_NRC_RequestOutOfRange, mbl, w)))"

definition uds_file_transfer_write ::
  "('f, 'fs, 'h, 'r) transfer_ops \<Rightarrow> u8 list option \<Rightarrow> ('f, 'fs, 'h, 'r) transfer_world \<Rightarrow>
   UDSErr_t \<times> ('f, 'fs, 'h, 'r) transfer_world" where
  "uds_file_transfer_write ops data w =
     (case data of
        None \<Rightarrow> (UDS_NRC_RequestOutOfRange, w)
      | Some d \<Rightarrow>
          if length d = 0 then (UDS_NRC_RequestOutOfRange, w)
          else if fts_expected_size (tw_ft w) > 0 \<and>
                  fts_transferred (tw_ft w) + of_nat (length d) > fts_expected_size (tw_ft w)
          then (UDS_NRC_RequestOutOfRange, w)
          else
            (case fs_write ops (fts_file (tw_ft w)) d (tw_fs w) of
               (Inl e, fs1) \<Rightarrow> (fs_error_to_nrc e, w\<lparr>tw_fs := fs1\<rparr>)
             | (Inr n, fs1) \<Rightarrow>
                 if n \<noteq> length d then (UDS_NRC_UploadDownloadNotAccepted, w\<lparr>tw_fs := fs1\<rparr>)
                 else (UDS_OK, w\<lparr>tw_fs := fs1,
                         tw_ft := (tw_ft w)\<lparr>fts_transferred := fts_transferred (tw_ft w) + of_nat (length d)\<rparr>\<rparr>)))"

text \<open>
  Reading a file uses the data buffer of the request as its buffer; the result carries the bytes
  read for it. A null buffer is undefined. The code writes up to \<open>maxRespLen\<close> bytes there whatever the length of
  the request is, so the receive buffer of the package, which is not part of the program, has to have room for
  them behind the start of the data; this is supposed here.
\<close>

definition uds_file_transfer_read ::
  "('f, 'fs, 'h, 'r) transfer_ops \<Rightarrow> u8 list option \<Rightarrow> u16 \<Rightarrow> copy_fn option \<Rightarrow>
   ('f, 'fs, 'h, 'r) transfer_world \<Rightarrow>
   (UDSErr_t \<times> u8 list option, ('f, 'fs, 'h, 'r) transfer_world) outcome" where
  "uds_file_transfer_read ops data maxRespLen copy w =
     (case copy of
        None \<Rightarrow> Returns (UDS_ERR_MISUSE, data) w
      | Some c \<Rightarrow>
          let remaining = (if fts_expected_size (tw_ft w) \<ge> fts_transferred (tw_ft w)
                           then fts_expected_size (tw_ft w) - fts_transferred (tw_ft w) else 0) in
          if remaining = 0 then Returns (UDS_NRC_RequestSequenceError, data) w
          else
            (case data of
               None \<Rightarrow> Undefined
             | Some d \<Rightarrow>
                 (case fs_read ops (fts_file (tw_ft w)) (unat (min (ucast maxRespLen) remaining)) (tw_fs w) of
                    (Inl e, fs1) \<Rightarrow> Returns (fs_error_to_nrc e, data) (w\<lparr>tw_fs := fs1\<rparr>)
                  | (Inr bs, fs1) \<Rightarrow>
                      let buf = Some (bs @ drop (length bs) d) in
                      if length bs = 0 then Returns (UDS_NRC_RequestSequenceError, buf) (w\<lparr>tw_fs := fs1\<rparr>)
                      else
                        (case copyResponse ops c bs (tw_resp w) of
                           (st, r) \<Rightarrow>
                             if st \<noteq> UDS_PositiveResponse then Returns (st, buf) (w\<lparr>tw_fs := fs1, tw_resp := r\<rparr>)
                             else Returns (UDS_OK, buf)
                                    (w\<lparr>tw_fs := fs1, tw_resp := r,
                                       tw_ft := (tw_ft w)\<lparr>fts_transferred :=
                                         fts_transferred (tw_ft w) + of_nat (length bs)\<rparr>\<rparr>)))))"

definition uds_file_transfer_continue ::
  "('f, 'fs, 'h, 'r) transfer_ops \<Rightarrow> u8 list option \<Rightarrow> u16 \<Rightarrow> copy_fn option \<Rightarrow>
   ('f, 'fs, 'h, 'r) transfer_world \<Rightarrow>
   (UDSErr_t \<times> u8 list option, ('f, 'fs, 'h, 'r) transfer_world) outcome" where
  "uds_file_transfer_continue ops data maxRespLen copy w =
     (case fts_mode (tw_ft w) of
        UDS_FILE_TRANSFER__WRITE \<Rightarrow>
          (case uds_file_transfer_write ops data w of (r, w') \<Rightarrow> Returns (r, data) w')
      | UDS_FILE_TRANSFER__READ \<Rightarrow> uds_file_transfer_read ops data maxRespLen copy w
      | UDS_FILE_TRANSFER__IDLE \<Rightarrow> Returns (UDS_NRC_RequestSequenceError, data) w)"

definition uds_file_transfer_exit ::
  "('f, 'fs, 'h, 'r) transfer_ops \<Rightarrow> ('f, 'fs, 'h, 'r) transfer_world \<Rightarrow>
   UDSErr_t \<times> ('f, 'fs, 'h, 'r) transfer_world" where
  "uds_file_transfer_exit ops w =
     (let mode = fts_mode (tw_ft w) in
      if mode = UDS_FILE_TRANSFER__IDLE then (UDS_NRC_RequestSequenceError, w)
      else
        let complete = \<not> (mode = UDS_FILE_TRANSFER__WRITE \<and> fts_expected_size (tw_ft w) > 0 \<and>
                          fts_transferred (tw_ft w) \<noteq> fts_expected_size (tw_ft w)) in
        (if complete then UDS_OK else UDS_NRC_GeneralProgrammingFailure, uds_file_transfer_reset ops w))"

definition uds_file_transfer_is_active :: "('f, 'fs, 'h, 'r) transfer_world \<Rightarrow> bool" where
  "uds_file_transfer_is_active w \<longleftrightarrow> fts_mode (tw_ft w) \<noteq> UDS_FILE_TRANSFER__IDLE"

section \<open>The handler of the five events\<close>

text \<open>A failing assertion is undefined.\<close>

definition transfer_exit ::
  "('f, 'fs, 'h, 'r) transfer_ops \<Rightarrow> ('f, 'fs, 'h, 'r) transfer_world \<Rightarrow>
   (UDSErr_t, ('f, 'fs, 'h, 'r) transfer_world) outcome" where
  "transfer_exit ops w =
     (let (ret1, w1) = uds_upload_download_reset w;
          (ret2, w2) = uds_file_transfer_exit ops w1 in
      if ret1 = UDS_NRC_RequestSequenceError \<or> ret2 = UDS_NRC_RequestSequenceError
      then Returns (if ret1 = UDS_NRC_RequestSequenceError then ret2 else ret1) w2
      else Undefined)"

definition uds_action_upload_download ::
  "transfer_cfg \<Rightarrow> ('f, 'fs, 'h, 'r) transfer_ops \<Rightarrow> uds_context \<Rightarrow> bool \<Rightarrow> ('f, 'fs, 'h, 'r) transfer_world \<Rightarrow>
   (UDSErr_t \<times> bool \<times> uds_arg, ('f, 'fs, 'h, 'r) transfer_world) outcome" where
  "uds_action_upload_download cfg ops ctx consume_event w =
     obind
       (if ctx_event ctx \<in> {UDS_EVT_RequestDownload, UDS_EVT_RequestUpload, UDS_EVT_RequestFileTransfer}
        then transfer_exit ops w else Returns UDS_OK w)
       (\<lambda>err w.
          if err \<noteq> UDS_OK \<and> err \<noteq> UDS_NRC_RequestSequenceError then Returns (err, True, ctx_arg ctx) w
          else
            (case ctx_event ctx of
               UDS_EVT_RequestDownload \<Rightarrow>
                 (case ctx_arg ctx of
                    Arg_RequestDownload ad sz fmt \<Rightarrow>
                      (case start_download cfg ops ad sz fmt w of (r, arg, w') \<Rightarrow> Returns (r, True, arg) w')
                  | _ \<Rightarrow> Undefined)
             | UDS_EVT_RequestUpload \<Rightarrow>
                 (case ctx_arg ctx of
                    Arg_RequestUpload ad sz mbl \<Rightarrow>
                      (case start_upload cfg ops ad sz mbl w of (r, arg, w') \<Rightarrow> Returns (r, True, arg) w')
                  | _ \<Rightarrow> Undefined)
             | UDS_EVT_RequestFileTransfer \<Rightarrow>
                 (case ctx_arg ctx of
                    Arg_RequestFileTransfer mode path sz mbl \<Rightarrow>
                      (case uds_file_transfer_request cfg ops mode path sz mbl w of
                         (r, mbl', w') \<Rightarrow> Returns (r, True, Arg_RequestFileTransfer mode path sz mbl') w')
                  | _ \<Rightarrow> Undefined)
             | UDS_EVT_TransferData \<Rightarrow>
                 (case ctx_arg ctx of
                    Arg_TransferData data mrl copy \<Rightarrow>
                      if uds_file_transfer_is_active w
                      then obind (uds_file_transfer_continue ops data mrl copy w)
                             (\<lambda>(r, data') w'. Returns (r, True, Arg_TransferData data' mrl copy) w')
                      else if ud_state (tw_ud w) = UDS_UPDOWN__DOWNLOAD_IN_PROGRESS
                      then (case data of
                              None \<Rightarrow> Undefined
                            | Some d \<Rightarrow> obind (continue_download ops d w)
                                          (\<lambda>r w'. Returns (r, True, ctx_arg ctx) w'))
                      else if ud_state (tw_ud w) = UDS_UPDOWN__UPLOAD_IN_PROGRESS
                      then (case continue_upload cfg ops mrl copy w of (r, w') \<Rightarrow> Returns (r, True, ctx_arg ctx) w')
                      else Returns (UDS_NRC_RequestSequenceError, True, ctx_arg ctx) w
                  | _ \<Rightarrow> Undefined)
             | UDS_EVT_RequestTransferExit \<Rightarrow>
                 obind (transfer_exit ops w) (\<lambda>r w'. Returns (r, True, ctx_arg ctx) w')
             | _ \<Rightarrow> Returns (UDS_ERR_MISUSE, True, ctx_arg ctx) w))"

section \<open>Lemmas: the invariant of the service\<close>

text \<open>
  At most one of the two transfers is active; a file is open exactly while a file transfer is
  active; a download has a block size that fits the buffer.
\<close>

definition transfer_inv :: "('f, 'fs, 'h, 'r) transfer_world \<Rightarrow> bool" where
  "transfer_inv w \<longleftrightarrow>
     (ud_state (tw_ud w) = UDS_UPDOWN__IDLE \<or> fts_mode (tw_ft w) = UDS_FILE_TRANSFER__IDLE) \<and>
     (fts_file_open (tw_ft w) \<longleftrightarrow> fts_mode (tw_ft w) \<noteq> UDS_FILE_TRANSFER__IDLE) \<and>
     (ud_state (tw_ud w) = UDS_UPDOWN__DOWNLOAD_IN_PROGRESS \<longrightarrow>
        write_block_size (tw_ud w) \<noteq> 0 \<and> write_block_size (tw_ud w) \<le> MAXIMUM_FLASH_WRITE_BLOCK_SIZE)"

text \<open>Nothing is active.\<close>

definition transfer_idle :: "('f, 'fs, 'h, 'r) transfer_world \<Rightarrow> bool" where
  "transfer_idle w \<longleftrightarrow> ud_state (tw_ud w) = UDS_UPDOWN__IDLE \<and> fts_mode (tw_ft w) = UDS_FILE_TRANSFER__IDLE"

lemma transfer_exit_inv:
  assumes "transfer_inv w"
  shows "\<exists>r w'. transfer_exit ops w = Returns r w' \<and> transfer_inv w' \<and> transfer_idle w' \<and>
    r \<in> {UDS_OK, UDS_NRC_RequestSequenceError, UDS_NRC_GeneralProgrammingFailure} \<and>
    (r = UDS_NRC_RequestSequenceError \<longleftrightarrow> transfer_idle w) \<and>
    (r = UDS_NRC_RequestSequenceError \<longrightarrow> w' = w) \<and> tw_flash w' = tw_flash w"
  using assms
  by (cases "ud_state (tw_ud w)"; cases "fts_mode (tw_ft w)")
    (auto simp: transfer_exit_def uds_upload_download_reset_def uds_file_transfer_exit_def
      uds_file_transfer_reset_def transfer_inv_def transfer_idle_def Let_def)

lemma transfer_idle_inv:
  "transfer_idle w \<Longrightarrow> transfer_inv w \<longleftrightarrow> \<not> fts_file_open (tw_ft w)"
  by (auto simp: transfer_inv_def transfer_idle_def)

lemma start_download_inv:
  assumes "transfer_inv w" and "transfer_idle w" and "flash_get_write_block_size ops (tw_flash w) \<noteq> 0"
    and "start_download cfg ops ad sz fmt w = (r, arg, w')"
  shows "transfer_inv w'"
  using assms by (auto simp: start_download_def transfer_inv_def transfer_idle_def Let_def split: if_splits)

lemma start_upload_inv:
  assumes "transfer_inv w" and "transfer_idle w" and "start_upload cfg ops ad sz mbl w = (r, arg, w')"
  shows "transfer_inv w'"
  using assms by (auto simp: start_upload_def transfer_inv_def transfer_idle_def Let_def split: if_splits)

lemma file_transfer_reset_inv: "transfer_idle w \<Longrightarrow> transfer_inv (uds_file_transfer_reset ops w)"
  by (auto simp: uds_file_transfer_reset_def transfer_inv_def transfer_idle_def Let_def)

lemma begin_write_inv:
  assumes "transfer_inv w" and "transfer_idle w"
    and "uds_file_transfer_begin_write cfg ops path sz mbl w = (r, m, w')"
  shows "transfer_inv w'"
  using assms
  by (auto simp: uds_file_transfer_begin_write_def transfer_inv_def transfer_idle_def Let_def
      split: prod.splits sum.splits)

lemma begin_read_inv:
  assumes "transfer_inv w" and "transfer_idle w"
    and "uds_file_transfer_begin_read cfg ops path mbl w = (r, m, w')"
  shows "transfer_inv w'"
  using assms
  by (auto simp: uds_file_transfer_begin_read_def transfer_inv_def transfer_idle_def
      uds_file_transfer_reset_def Let_def split: prod.splits sum.splits if_splits)

lemma file_request_inv:
  assumes "transfer_inv w" and "transfer_idle w"
    and "uds_file_transfer_request cfg ops mode p sz mbl w = (r, m, w')"
  shows "transfer_inv w'"
proof -
  have "transfer_inv w''" if "uds_file_transfer_delete ops path w = (r', w'')" for path r' w''
    using that assms(1) by (auto simp: uds_file_transfer_delete_def transfer_inv_def split: prod.splits sum.splits)
  then show ?thesis
    using assms(3) begin_write_inv [OF assms(1,2)] begin_read_inv [OF assms(1,2)] assms(1)
    by (auto simp: uds_file_transfer_request_def Let_def split: option.splits if_splits uds_moop.splits prod.splits)
qed

text \<open>What a request must carry, as the package fills it in: a data buffer, of at most 64 KiB.\<close>

definition transfer_args_ok :: "uds_context \<Rightarrow> bool" where
  "transfer_args_ok ctx =
     (case ctx_event ctx of
        UDS_EVT_RequestDownload \<Rightarrow> (\<exists>a s f. ctx_arg ctx = Arg_RequestDownload a s f)
      | UDS_EVT_RequestUpload \<Rightarrow> (\<exists>a s m. ctx_arg ctx = Arg_RequestUpload a s m)
      | UDS_EVT_RequestFileTransfer \<Rightarrow> (\<exists>m p s b. ctx_arg ctx = Arg_RequestFileTransfer m p s b)
      | UDS_EVT_TransferData \<Rightarrow> (\<exists>d m c. ctx_arg ctx = Arg_TransferData (Some d) m c \<and> length d < 2 ^ 16)
      | _ \<Rightarrow> True)"

lemma continue_download_returns:
  assumes "transfer_inv w" and "ud_state (tw_ud w) = UDS_UPDOWN__DOWNLOAD_IN_PROGRESS"
  shows "oreturns transfer_inv (continue_download ops d w)"
  using assms by (auto simp: continue_download_def transfer_inv_def Let_def split: prod.splits)

lemma file_continue_returns:
  assumes "transfer_inv w"
  shows "oreturns transfer_inv (uds_file_transfer_continue ops (Some d) m c w)"
  using assms
  by (auto simp: uds_file_transfer_continue_def uds_file_transfer_write_def uds_file_transfer_read_def
      transfer_inv_def Let_def split: FileTransferMode.splits prod.splits sum.splits option.splits)

lemma continue_upload_inv:
  "transfer_inv w \<Longrightarrow> continue_upload cfg ops m c w = (r, w') \<Longrightarrow> transfer_inv w'"
  by (auto simp: continue_upload_def transfer_inv_def Let_def split: prod.splits option.splits if_splits)

lemma action_after_exit:
  assumes "transfer_inv w"
    and "ctx_event ctx \<in> {UDS_EVT_RequestDownload, UDS_EVT_RequestUpload, UDS_EVT_RequestFileTransfer}"
  obtains r w1 where "transfer_exit ops w = Returns r w1" "transfer_inv w1" "transfer_idle w1" "tw_flash w1 = tw_flash w"
  using transfer_exit_inv [OF assms(1), of ops] by auto

lemma transfer_exit_returns: "transfer_inv w \<Longrightarrow> oreturns transfer_inv (transfer_exit ops w)"
  using transfer_exit_inv [of w ops] by (auto simp: oreturns_iff)

lemma action_upload_download_inv:
  assumes "transfer_inv w" and "transfer_args_ok ctx" and "\<And>f. flash_get_write_block_size ops f \<noteq> 0"
  shows "oreturns transfer_inv (uds_action_upload_download cfg ops ctx b w)"
proof (cases "ctx_event ctx \<in> {UDS_EVT_RequestDownload, UDS_EVT_RequestUpload, UDS_EVT_RequestFileTransfer}")
  case True
  then obtain r w1 where ex: "transfer_exit ops w = Returns r w1" and w1: "transfer_inv w1" "transfer_idle w1"
    by (rule action_after_exit [OF assms(1)])
  have *: "transfer_inv w'" if "start_download cfg ops a s f w1 = (e, g, w')" for a s f e g w'
    by (rule start_download_inv [OF w1 assms(3) that])
  show ?thesis
    using True assms(2) w1(1) * start_upload_inv [OF w1] file_request_inv [OF w1]
    by (auto simp: uds_action_upload_download_def ex transfer_args_ok_def split: prod.splits)
next
  case False
  then show ?thesis
    using assms(1,2) continue_upload_inv [OF assms(1)]
    by (cases "ctx_event ctx")
      (auto simp: uds_action_upload_download_def transfer_args_ok_def split: prod.splits
        intro!: oreturns_obind [OF continue_download_returns] oreturns_obind [OF file_continue_returns]
          oreturns_obind [OF transfer_exit_returns])
qed

end
