(* ===== verification/Uds_Transfer_Correct.thy ===== *)
theory Uds_Transfer_Correct
  imports Uds_Transfer
begin

text \<open>
  What the upload and download service achieves: the sequences of requests it accepts, the bytes
  a download leaves in flash, the bytes an upload returns, and where flash can change at all.
\<close>

section \<open>Flash contents\<close>

text \<open>Bytes written over a memory at an address, and the padding of the last block of a chunk.\<close>

definition overlay :: "(nat \<Rightarrow> u8) \<Rightarrow> nat \<Rightarrow> u8 list \<Rightarrow> nat \<Rightarrow> u8" where
  "overlay m a bs = (\<lambda>x. if a \<le> x \<and> x < a + length bs then bs ! (x - a) else m x)"

definition pad :: "nat \<Rightarrow> u8 list \<Rightarrow> u8 list" where
  "pad b d = d @ replicate ((b - length d mod b) mod b) 0xFF"

text \<open>
  What Zephyr documents of a flash driver, for a flash of \<open>N\<close> bytes with write blocks of \<open>bl\<close> bytes
  that reads \<open>ev\<close> where it is erased: a write of whole blocks, at the start of a block and inside the flash, to
  bytes that are erased, stores the bytes and leaves the rest. Nothing is supposed of any other write. A read
  inside the flash returns the bytes at the offset. \<open>rd\<close> gives the contents of the flash.
\<close>

definition erased :: "(nat \<Rightarrow> u8) \<Rightarrow> u8 \<Rightarrow> nat \<Rightarrow> nat \<Rightarrow> bool" where
  "erased m ev a n \<longleftrightarrow> (\<forall>x \<in> {a..<a + n}. m x = ev)"

definition flash_programs :: "('f, 'fs, 'h, 'r) transfer_ops \<Rightarrow> ('f \<Rightarrow> nat \<Rightarrow> u8) \<Rightarrow> u8 \<Rightarrow> nat \<Rightarrow> nat \<Rightarrow> bool" where
  "flash_programs ops rd ev bl N \<longleftrightarrow>
     (\<forall>off bs f. bl dvd unat off \<and> bl dvd length bs \<and> unat off + length bs \<le> N \<and> erased (rd f) ev (unat off) (length bs) \<longrightarrow>
        (\<exists>f'. flash_write ops off bs f = (rc0, f') \<and> rd f' = overlay (rd f) (unat off) bs))"

definition flash_reads :: "('f, 'fs, 'h, 'r) transfer_ops \<Rightarrow> ('f \<Rightarrow> nat \<Rightarrow> u8) \<Rightarrow> nat \<Rightarrow> bool" where
  "flash_reads ops rd N \<longleftrightarrow>
     (\<forall>off n f. unat off + n \<le> N \<longrightarrow> flash_read ops off n f = (rc0, map (rd f) [unat off..<unat off + n]))"

text \<open>A write, whether it succeeds or not, leaves the bytes outside its range alone.\<close>

definition flash_frames :: "('f, 'fs, 'h, 'r) transfer_ops \<Rightarrow> ('f \<Rightarrow> nat \<Rightarrow> u8) \<Rightarrow> bool" where
  "flash_frames ops rd \<longleftrightarrow>
     (\<forall>off bs f x. x \<notin> {unat off..<unat off + length bs} \<longrightarrow> rd (snd (flash_write ops off bs f)) x = rd f x)"

lemma unat_ucast_u16_u32: "unat (ucast (x :: u16) :: u32) = unat x"
proof -
  have "unat x < 4294967296" using unat_u16_less [of x] by linarith
  then show ?thesis by (simp add: unsigned_ucast_eq take_bit_eq_mod)
qed

lemma u32_less_pow: "unat (x :: u32) < 2 ^ 32"
  by simp

lemma overlay_append: "overlay (overlay m a xs) (a + length xs) ys = overlay m a (xs @ ys)"
  by (auto simp: overlay_def fun_eq_iff nth_append)

lemma overlay_Nil [simp]: "overlay m a [] = m"
  by (auto simp: overlay_def fun_eq_iff)

lemma pad_multiple: "length d mod b = 0 \<Longrightarrow> pad b d = d"
  by (simp add: pad_def)

lemma pad_rest: "0 < b \<Longrightarrow> length d mod b \<noteq> 0 \<Longrightarrow> pad b d = d @ replicate (b - length d mod b) 0xFF"
  by (simp add: pad_def)

lemma pad_append: "length xs mod b = 0 \<Longrightarrow> pad b (xs @ ys) = xs @ pad b ys"
  by (simp add: pad_def mod_add_eq [symmetric] mod_add_left_eq [symmetric])

lemma length_pad: "0 < b \<Longrightarrow> length (pad b d) < length d + b"
  by (simp add: pad_def)

section \<open>Downloads\<close>

lemma dvd_pad: "0 < b \<Longrightarrow> b dvd length (pad b d)"
proof -
  assume "0 < b"
  show ?thesis
  proof (cases "length d mod b = 0")
    case True
    then show ?thesis by (simp add: pad_multiple dvd_eq_mod_eq_0)
  next
    case False
    have "length (pad b d) = (length d - length d mod b) + b"
      using \<open>0 < b\<close> False by (simp add: pad_rest)
    then show ?thesis by (simp only: dvd_add dvd_minus_mod dvd_refl)
  qed
qed

lemma pad_fits:
  assumes "0 < b" and "b dvd a" and "b dvd N" and "a + length d \<le> N"
  shows "a + length (pad b d) \<le> N"
proof -
  obtain k m where km: "a + length (pad b d) = b * k" "N = b * m"
    using assms(1-3) dvd_pad [OF assms(1), of d] by (meson dvd_add dvd_def)
  have "b * k < b * Suc m" using length_pad [OF assms(1), of d] assms(4) km by simp
  then have "k < Suc m" using mult_less_cancel1 by blast
  then have "k \<le> m" by simp
  then show ?thesis using km by simp
qed

lemma flash_programs_opt:
  assumes "flash_programs ops rd ev b N" and "b dvd unat off" "b dvd length bs" "unat off + length bs \<le> N"
    and "erased (rd f) ev (unat off) (length bs)" and "\<not> c \<Longrightarrow> bs = []"
  shows "\<exists>f'. (if c then flash_write ops off bs f else (rc0, f)) = (rc0, f') \<and> rd f' = overlay (rd f) (unat off) bs"
  using assms by (cases c) (auto simp: flash_programs_def)

lemma erased_overlay: "erased m ev (a + length bs) n \<Longrightarrow> erased (overlay m a bs) ev (a + length bs) n"
  by (simp add: erased_def overlay_def)

lemma erased_split: "erased m ev a (n + k) \<longleftrightarrow> erased m ev a n \<and> erased m ev (a + n) k"
proof -
  have "{a..<a + (n + k)} = {a..<a + n} \<union> {a + n..<a + n + k}" by auto
  then show ?thesis by (auto simp: erased_def)
qed

text \<open>
  A chunk that fits, at the start of a block that is erased like those after it, is written, padded to a whole
  number of blocks.
\<close>

lemma continue_download_ok:
  assumes fl: "flash_programs ops rd ev (unat (write_block_size (tw_ud w))) N" and d: "d \<noteq> []" "length d < 2 ^ 16"
    and fits: "unat (current_address (tw_ud w)) + length d \<le> unat (start_address (tw_ud w) + total_size (tw_ud w))"
    and wbs: "write_block_size (tw_ud w) \<noteq> 0" "write_block_size (tw_ud w) \<le> MAXIMUM_FLASH_WRITE_BLOCK_SIZE"
    and al: "unat (write_block_size (tw_ud w)) dvd unat (current_address (tw_ud w))"
    and inside: "unat (current_address (tw_ud w)) + length (pad (unat (write_block_size (tw_ud w))) d) \<le> N"
    and er: "erased (rd (tw_flash w)) ev (unat (current_address (tw_ud w))) (length (pad (unat (write_block_size (tw_ud w))) d))"
  shows "\<exists>f'. continue_download ops d w = Returns UDS_OK
      (w\<lparr>tw_flash := f', tw_ud := (tw_ud w)\<lparr>current_address := current_address (tw_ud w) + of_nat (length d)\<rparr>\<rparr>) \<and>
    rd f' = overlay (rd (tw_flash w)) (unat (current_address (tw_ud w))) (pad (unat (write_block_size (tw_ud w))) d)"
proof -
  let ?ud = "tw_ud w" and ?b = "unat (write_block_size (tw_ud w))"
  let ?ov = "length d mod ?b" and ?cur = "current_address (tw_ud w)"
  let ?fw = "length d - ?ov"
  let ?tl = "drop ?fw d @ replicate (?b - ?ov) 0xFF"
  have end_less: "unat ?cur + length d < 2 ^ 32"
    by (rule le_less_trans [OF fits u32_less_pow])
  then have sum: "unat (?cur + of_nat n) = unat ?cur + n" if "n \<le> length d" for n
    using that unat_add_no_overflow [of ?cur "of_nat n"] unat_of_nat_u32 [of n] by simp
  have len0: "(of_nat (length d) :: u32) \<noteq> 0"
  proof
    assume "(of_nat (length d) :: u32) = 0"
    then have "unat (of_nat (length d) :: u32) = 0" by simp
    then show False using d end_less unat_of_nat_u32 [of "length d"] by simp
  qed
  have guard: "\<not> (?cur + of_nat (length d) > start_address ?ud + total_size ?ud)"
    using fits sum [of "length d"] by (simp add: word_less_nat_alt)
  have b: "0 < ?b" using wbs(1) by (simp add: unat_gt_0)
  have ov: "?ov < ?b" "?ov \<le> length d" using b by simp_all
  have fwdvd: "?b dvd ?fw" by (rule dvd_minus_mod)
  have parts: "pad ?b d = take ?fw d @ (if ?ov = 0 then [] else ?tl)"
    using pad_rest [OF b, of d] by (simp add: pad_multiple append.assoc [symmetric] del: append.assoc)
  have erf: "erased (rd (tw_flash w)) ev (unat ?cur) ?fw"
    and ert: "?ov \<noteq> 0 \<Longrightarrow> erased (rd (tw_flash w)) ev (unat ?cur + ?fw) (length ?tl)"
  proof -
    have tk: "length (take ?fw d) = ?fw" by simp
    from er have "erased (rd (tw_flash w)) ev (unat ?cur) (?fw + length (if ?ov = 0 then [] else ?tl))"
      unfolding parts by (simp only: length_append tk)
    then show "erased (rd (tw_flash w)) ev (unat ?cur) ?fw"
      and "?ov \<noteq> 0 \<Longrightarrow> erased (rd (tw_flash w)) ev (unat ?cur + ?fw) (length ?tl)"
      unfolding erased_split by (simp_all only: if_False)
  qed
  obtain f1 where f1: "(if ?fw > 0 then flash_write ops ?cur (take ?fw d) (tw_flash w) else (rc0, tw_flash w)) = (rc0, f1)"
    and r1: "rd f1 = overlay (rd (tw_flash w)) (unat ?cur) (take ?fw d)"
  proof -
    have "length (take ?fw d) = ?fw" by simp
    moreover have "unat ?cur + ?fw \<le> N" using inside unfolding parts by simp
    ultimately show ?thesis
      using flash_programs_opt [OF fl al, of "take ?fw d" "tw_flash w" "?fw > 0"] fwdvd erf that by auto
  qed
  show ?thesis
  proof (cases "?ov = 0")
    case True
    then show ?thesis
      using f1 r1 len0 guard wbs(1) d(1)
      by (intro exI [of _ f1]) (simp add: continue_download_def Let_def pad_multiple)
  next
    case False
    have tl: "length ?tl = ?b" using ov by simp
    have "unat (?cur + of_nat ?fw) = unat ?cur + ?fw" by (rule sum) simp
    moreover have "erased (rd f1) ev (unat ?cur + ?fw) (length ?tl)"
      using erased_overlay [of "rd (tw_flash w)" ev "unat ?cur" "take ?fw d" "length ?tl"] ert [OF False] r1 by simp
    moreover have "unat ?cur + ?fw + length ?tl \<le> N"
    proof -
      have "length (take ?fw d) = ?fw" by simp
      then show ?thesis using inside False unfolding parts by (simp only: length_append if_False add.assoc)
    qed
    moreover have "?b dvd unat ?cur + ?fw" using al fwdvd by (rule dvd_add)
    ultimately obtain f2 where f2: "flash_write ops (?cur + of_nat ?fw) ?tl f1 = (rc0, f2)"
      and r2: "rd f2 = overlay (rd f1) (unat ?cur + ?fw) ?tl"
      using fl tl unfolding flash_programs_def by (metis dvd_refl)
    have "rd f2 = overlay (rd (tw_flash w)) (unat ?cur) (take ?fw d @ ?tl)"
      using r1 r2 overlay_append [of _ "unat ?cur" "take ?fw d" ?tl] by simp
    also have "take ?fw d @ ?tl = pad ?b d"
      by (simp only: pad_rest [OF b False] append.assoc [symmetric] append_take_drop_id)
    finally show ?thesis
      using f1 f2 len0 guard wbs False
      by (intro exI [of _ f2]) (simp add: continue_download_def Let_def not_less)
  qed
qed

text \<open>The requests of a transfer after its start: one TransferData request per chunk.\<close>

definition transfer_data_ctx :: "u8 list option \<Rightarrow> u16 \<Rightarrow> copy_fn option \<Rightarrow> uds_context" where
  "transfer_data_ctx d mrl c =
     \<lparr>ctx_instance = 0, ctx_registration = Static 0, ctx_event = UDS_EVT_TransferData,
      ctx_arg = Arg_TransferData d mrl c\<rparr>"

fun send_chunks ::
  "transfer_cfg \<Rightarrow> ('f, 'fs, 'h, 'r) transfer_ops \<Rightarrow> u8 list list \<Rightarrow> ('f, 'fs, 'h, 'r) transfer_world \<Rightarrow>
   (UDSErr_t list, ('f, 'fs, 'h, 'r) transfer_world) outcome" where
  "send_chunks cfg ops [] w = Returns [] w"
| "send_chunks cfg ops (d # ds) w =
     obind (uds_action_upload_download cfg ops (transfer_data_ctx (Some d) 0 None) True w)
       (\<lambda>(r, _) w1. obind (send_chunks cfg ops ds w1) (\<lambda>rs w2. Returns (r # rs) w2))"

text \<open>A download that has received \<open>n\<close> bytes.\<close>

definition downloading :: "u32 \<Rightarrow> u32 \<Rightarrow> nat \<Rightarrow> u32 \<Rightarrow> ('f, 'fs, 'h, 'r) transfer_world \<Rightarrow> bool" where
  "downloading ad sz n b w \<longleftrightarrow>
     tw_ud w = \<lparr>ud_state = UDS_UPDOWN__DOWNLOAD_IN_PROGRESS, start_address = ad, current_address = ad + of_nat n,
       total_size = sz, write_block_size = b\<rparr> \<and>
     fts_mode (tw_ft w) = UDS_FILE_TRANSFER__IDLE"

lemma download_step:
  assumes "flash_programs ops rd ev (unat b) N" and "downloading ad sz n b w" and "unat ad + unat sz < 2 ^ 32"
    and "d \<noteq> []" "length d < 2 ^ 16" "n + length d \<le> unat sz" and "b \<noteq> 0" "b \<le> MAXIMUM_FLASH_WRITE_BLOCK_SIZE"
    and "unat b dvd unat ad + n" "unat ad + n + length (pad (unat b) d) \<le> N"
    and "erased (rd (tw_flash w)) ev (unat ad + n) (length (pad (unat b) d))"
  shows "\<exists>arg w'. uds_action_upload_download cfg ops (transfer_data_ctx (Some d) m c) True w = Returns (UDS_OK, True, arg) w' \<and>
    downloading ad sz (n + length d) b w' \<and>
    rd (tw_flash w') = overlay (rd (tw_flash w)) (unat ad + n) (pad (unat b) d) \<and> tw_ft w' = tw_ft w \<and> tw_fs w' = tw_fs w"
proof -
  have cur: "unat (ad + of_nat n) = unat ad + n" and tot: "unat (ad + sz) = unat ad + unat sz"
    using assms(3,6) unat_add_no_overflow [of ad "of_nat n"] unat_add_no_overflow [of ad sz] unat_of_nat_u32 [of n]
    by simp_all
  from assms(2) have ud: "tw_ud w = \<lparr>ud_state = UDS_UPDOWN__DOWNLOAD_IN_PROGRESS, start_address = ad,
      current_address = ad + of_nat n, total_size = sz, write_block_size = b\<rparr>"
    and ft: "fts_mode (tw_ft w) = UDS_FILE_TRANSFER__IDLE"
    by (simp_all add: downloading_def)
  have "flash_programs ops rd ev (unat (write_block_size (tw_ud w))) N" using assms(1) ud by simp
  from continue_download_ok [OF this assms(4,5)]
  obtain f' where "continue_download ops d w = Returns UDS_OK
      (w\<lparr>tw_flash := f', tw_ud := (tw_ud w)\<lparr>current_address := current_address (tw_ud w) + of_nat (length d)\<rparr>\<rparr>)"
    "rd f' = overlay (rd (tw_flash w)) (unat ad + n) (pad (unat b) d)"
    using assms(6-11) ud cur tot by auto
  then show ?thesis
    using ud ft
    by (simp add: uds_action_upload_download_def transfer_data_ctx_def uds_file_transfer_is_active_def
        downloading_def add.assoc)
qed

lemma send_chunks_ok:
  assumes "flash_programs ops rd ev (unat b) N" and "unat ad + unat sz < 2 ^ 32"
    and "b \<noteq> 0" "b \<le> MAXIMUM_FLASH_WRITE_BLOCK_SIZE"
  shows "downloading ad sz n b w \<Longrightarrow> \<forall>d \<in> set ds. d \<noteq> [] \<and> length d < 2 ^ 16 \<Longrightarrow>
    \<forall>d \<in> set (butlast ds). length d mod unat b = 0 \<Longrightarrow> n + length (concat ds) \<le> unat sz \<Longrightarrow>
    unat b dvd unat ad + n \<Longrightarrow> unat ad + n + length (pad (unat b) (concat ds)) \<le> N \<Longrightarrow>
    erased (rd (tw_flash w)) ev (unat ad + n) (length (pad (unat b) (concat ds))) \<Longrightarrow>
    \<exists>w'. send_chunks cfg ops ds w = Returns (replicate (length ds) UDS_OK) w' \<and>
      downloading ad sz (n + length (concat ds)) b w' \<and>
      rd (tw_flash w') = overlay (rd (tw_flash w)) (unat ad + n) (pad (unat b) (concat ds)) \<and>
      tw_ft w' = tw_ft w \<and> tw_fs w' = tw_fs w"
proof (induction ds arbitrary: n w)
  case Nil
  then show ?case by (simp add: pad_def)
next
  case (Cons d ds)
  show ?case
  proof (cases "ds = []")
    case True
    obtain arg w1 where "uds_action_upload_download cfg ops (transfer_data_ctx (Some d) 0 None) True w =
        Returns (UDS_OK, True, arg) w1" "downloading ad sz (n + length d) b w1"
      "rd (tw_flash w1) = overlay (rd (tw_flash w)) (unat ad + n) (pad (unat b) d)"
      "tw_ft w1 = tw_ft w" "tw_fs w1 = tw_fs w"
      using download_step [OF assms(1) Cons.prems(1) assms(2), of d cfg 0 None] Cons.prems assms(3,4) True by auto
    with True show ?thesis by simp
  next
    case False
    then have m: "length d mod unat b = 0" using Cons.prems(3) by simp
    then have p: "pad (unat b) (concat (d # ds)) = d @ pad (unat b) (concat ds)" by (simp add: pad_append)
    have er: "erased (rd (tw_flash w)) ev (unat ad + n) (length d)"
      "erased (rd (tw_flash w)) ev (unat ad + n + length d) (length (pad (unat b) (concat ds)))"
      using Cons.prems(7) unfolding p by (simp_all add: erased_split)
    have ins: "unat ad + (n + length d) + length (pad (unat b) (concat ds)) \<le> N"
      using Cons.prems(6) unfolding p by simp
    obtain arg w1 where step: "uds_action_upload_download cfg ops (transfer_data_ctx (Some d) 0 None) True w =
        Returns (UDS_OK, True, arg) w1" "downloading ad sz (n + length d) b w1"
      "rd (tw_flash w1) = overlay (rd (tw_flash w)) (unat ad + n) d"
      "tw_ft w1 = tw_ft w" "tw_fs w1 = tw_fs w"
      using download_step [OF assms(1) Cons.prems(1) assms(2), of d cfg 0 None] Cons.prems(2,4,5) assms(3,4) ins er(1) m
      by (auto simp: pad_multiple)
    have "\<forall>d \<in> set (butlast ds). length d mod unat b = 0" using Cons.prems(3) False by simp
    moreover have "unat b dvd unat ad + (n + length d)"
      using dvd_add [OF Cons.prems(5), of "length d"] m by (simp add: dvd_eq_mod_eq_0 add.assoc)
    moreover have "erased (rd (tw_flash w1)) ev (unat ad + (n + length d)) (length (pad (unat b) (concat ds)))"
      using erased_overlay [OF er(2)] step(3) by (simp add: add.assoc)
    ultimately obtain w2 where rest: "send_chunks cfg ops ds w1 = Returns (replicate (length ds) UDS_OK) w2"
      "downloading ad sz (n + length d + length (concat ds)) b w2"
      "rd (tw_flash w2) = overlay (rd (tw_flash w1)) (unat ad + (n + length d)) (pad (unat b) (concat ds))"
      "tw_ft w2 = tw_ft w1" "tw_fs w2 = tw_fs w1"
      using Cons.IH [OF step(2)] Cons.prems(2,4) ins by auto
    have "overlay (rd (tw_flash w1)) (unat ad + (n + length d)) (pad (unat b) (concat ds)) =
        overlay (rd (tw_flash w)) (unat ad + n) (pad (unat b) (concat (d # ds)))"
      using step(3) overlay_append [of "rd (tw_flash w)" "unat ad + n" d "pad (unat b) (concat ds)"]
      unfolding p by (simp add: add.assoc)
    with step rest show ?thesis by (simp add: add.assoc)
  qed
qed

section \<open>Uploads\<close>

text \<open>
  \<open>flash_reads\<close> gives the bytes read; the copy function of the package appends them to the
  response, which is read here as a list of bytes.
\<close>

definition copy_appends :: "('f, 'fs, 'h, u8 list) transfer_ops \<Rightarrow> bool" where
  "copy_appends ops \<longleftrightarrow> (\<forall>c bs r. copyResponse ops c bs r = (UDS_PositiveResponse, r @ bs))"

definition uploading :: "u32 \<Rightarrow> u32 \<Rightarrow> nat \<Rightarrow> ('f, 'fs, 'h, 'r) transfer_world \<Rightarrow> bool" where
  "uploading ad sz n w \<longleftrightarrow>
     ud_state (tw_ud w) = UDS_UPDOWN__UPLOAD_IN_PROGRESS \<and> start_address (tw_ud w) = ad \<and>
     current_address (tw_ud w) = ad + of_nat n \<and> total_size (tw_ud w) = sz \<and>
     fts_mode (tw_ft w) = UDS_FILE_TRANSFER__IDLE"

fun upload_requests ::
  "transfer_cfg \<Rightarrow> ('f, 'fs, 'h, 'r) transfer_ops \<Rightarrow> u16 \<Rightarrow> nat \<Rightarrow> ('f, 'fs, 'h, 'r) transfer_world \<Rightarrow>
   (UDSErr_t list, ('f, 'fs, 'h, 'r) transfer_world) outcome" where
  "upload_requests cfg ops mrl 0 w = Returns [] w"
| "upload_requests cfg ops mrl (Suc k) w =
     obind (uds_action_upload_download cfg ops (transfer_data_ctx (Some []) mrl (Some Copy_lib)) True w)
       (\<lambda>(r, _) w1. obind (upload_requests cfg ops mrl k w1) (\<lambda>rs w2. Returns (r # rs) w2))"

lemma upload_step:
  assumes "flash_reads ops rd N" and "copy_appends ops" and "uploading ad sz n w" and "unat ad + unat sz < 2 ^ 32"
    and "unat ad + unat sz \<le> N" and "n < unat sz" and m: "m = min (unat (max_payload cfg)) (unat mrl)"
  shows "\<exists>arg w'. uds_action_upload_download cfg ops (transfer_data_ctx (Some []) mrl (Some Copy_lib)) True w =
      Returns (UDS_OK, True, arg) w' \<and> uploading ad sz (n + min m (unat sz - n)) w' \<and> tw_flash w' = tw_flash w \<and>
      tw_resp w' = tw_resp w @ map (rd (tw_flash w)) [unat ad + n..<unat ad + n + min m (unat sz - n)]"
proof -
  have cur: "unat (ad + of_nat n) = unat ad + n" and tot: "unat (ad + sz) = unat ad + unat sz"
    using assms(4,6) unat_add_no_overflow [of ad "of_nat n"] unat_add_no_overflow [of ad sz] unat_of_nat_u32 [of n]
    by simp_all
  have "ad + of_nat n \<le> ad + sz" using cur tot assms(6) by (simp add: word_le_nat_alt)
  then have diff: "unat (ad + sz - (ad + of_nat n)) = unat sz - n"
    by (simp only: unat_sub cur tot diff_diff_left [symmetric] add_diff_cancel_left')
  have len: "unat (min (max_payload cfg) (min (ucast mrl) (ad + sz - (ad + of_nat n)))) = min m (unat sz - n)"
  proof -
    have um: "unat (min x y) = min (unat x) (unat y)" for x y :: u32
      by (simp add: min_def word_le_nat_alt)
    have "unat (ucast mrl :: u32) = unat mrl" by (rule unat_ucast_u16_u32)
    then show ?thesis by (simp only: um diff m min.assoc)
  qed
  have nxt: "ad + of_nat n + min (max_payload cfg) (min (ucast mrl) (ad + sz - (ad + of_nat n))) = ad + of_nat (n + min m (unat sz - n))"
    unfolding len [symmetric] of_nat_add by (simp add: add.assoc)
  have "\<not> ad + of_nat n \<ge> ad + sz" using cur tot assms(6) by (simp add: word_le_nat_alt)
  then show ?thesis
    using assms(1-3,5,6) len nxt cur
    by (simp add: uds_action_upload_download_def transfer_data_ctx_def uds_file_transfer_is_active_def uploading_def
        continue_upload_def Let_def flash_reads_def copy_appends_def)
qed

text \<open>When everything was sent, another request is refused.\<close>

lemma upload_done:
  assumes "uploading ad sz (unat sz) w"
  shows "\<exists>arg. uds_action_upload_download cfg ops (transfer_data_ctx (Some []) mrl (Some Copy_lib)) True w =
    Returns (UDS_NRC_RequestSequenceError, True, arg) w"
  using assms
  by (simp add: uds_action_upload_download_def transfer_data_ctx_def uds_file_transfer_is_active_def uploading_def
      continue_upload_def Let_def)

lemma upload_requests_ok:
  assumes "flash_reads ops rd N" and "copy_appends ops" and "unat ad + unat sz < 2 ^ 32" and "unat ad + unat sz \<le> N"
    and m: "m = min (unat (max_payload cfg)) (unat mrl)" "0 < m"
  shows "uploading ad sz n w \<Longrightarrow> n \<le> unat sz \<Longrightarrow> k = (unat sz - n + m - 1) div m \<Longrightarrow>
    \<exists>w'. upload_requests cfg ops mrl k w = Returns (replicate k UDS_OK) w' \<and> uploading ad sz (unat sz) w' \<and>
      tw_flash w' = tw_flash w \<and> tw_resp w' = tw_resp w @ map (rd (tw_flash w)) [unat ad + n..<unat ad + unat sz]"
proof (induction k arbitrary: n w)
  case 0
  then have "n = unat sz" using m(2) by (simp add: div_eq_0_iff)
  with 0 show ?case by simp
next
  case (Suc k)
  have "n < unat sz"
  proof (rule ccontr)
    assume "\<not> n < unat sz"
    then have "(unat sz - n + m - 1) div m = 0" using Suc.prems(2) m(2) by simp
    then show False using Suc.prems(3) by simp
  qed
  let ?n = "n + min m (unat sz - n)"
  obtain arg w1 where step: "uds_action_upload_download cfg ops (transfer_data_ctx (Some []) mrl (Some Copy_lib)) True w =
      Returns (UDS_OK, True, arg) w1" "uploading ad sz ?n w1" "tw_flash w1 = tw_flash w"
      "tw_resp w1 = tw_resp w @ map (rd (tw_flash w)) [unat ad + n..<unat ad + ?n]"
    using upload_step [OF assms(1,2) Suc.prems(1) assms(3,4) \<open>n < unat sz\<close> m(1)] by (auto simp: add.assoc)
  have k: "k = (unat sz - ?n + m - 1) div m"
  proof (cases "m \<le> unat sz - n")
    case True
    have "(unat sz - n + m - 1) = (unat sz - (n + m) + m - 1) + m" using True m(2) by simp
    then have "Suc k = Suc ((unat sz - (n + m) + m - 1) div m)" using Suc.prems(3) m(2) by (metis add.commute div_add_self1 less_numeral_extra(3) plus_1_eq_Suc add.commute)
    then show ?thesis using True by simp
  next
    case False
    then have "unat sz - n + m - 1 < 2 * m" using m(2) by simp
    then have "Suc k < 2" using Suc.prems(3) by (simp add: less_mult_imp_div_less)
    then show ?thesis using False m(2) \<open>n < unat sz\<close> by simp
  qed
  have le: "?n \<le> unat sz" using \<open>n < unat sz\<close> by simp
  obtain w2 where "upload_requests cfg ops mrl k w1 = Returns (replicate k UDS_OK) w2" "uploading ad sz (unat sz) w2"
      "tw_flash w2 = tw_flash w1" "tw_resp w2 = tw_resp w1 @ map (rd (tw_flash w1)) [unat ad + ?n..<unat ad + unat sz]"
    using Suc.IH [OF step(2) le k] by blast
  moreover have "[unat ad + n..<unat ad + unat sz] = [unat ad + n..<unat ad + ?n] @ [unat ad + ?n..<unat ad + unat sz]"
  proof -
    have "unat ad + unat sz = (unat ad + ?n) + (unat sz - ?n)" using \<open>n < unat sz\<close> by simp
    moreover have "unat ad + n \<le> unat ad + ?n" by simp
    ultimately show ?thesis by (metis upt_add_eq_append)
  qed
  ultimately show ?case using step by simp
qed

section \<open>Confinement of flash writes\<close>

text \<open>
  A download is in progress within the flash: its end, as the code computes it, lies in the
  flash, and its position is below the last 64 KiB of the address space, so that a position plus the
  length of a chunk does not wrap around. Where the end wrapped around, the position is still the start.
\<close>

definition ud_range_ok :: "transfer_cfg \<Rightarrow> upload_download_state \<Rightarrow> bool" where
  "ud_range_ok cfg ud \<longleftrightarrow>
     ud_state ud \<noteq> UDS_UPDOWN__IDLE \<longrightarrow>
       start_address ud + total_size ud \<le> FLASH_MAX_SIZE cfg \<and>
       unat (current_address ud) + 2 ^ 16 \<le> 2 ^ 32 \<and>
       (2 ^ 32 \<le> unat (start_address ud) + unat (total_size ud) \<longrightarrow> current_address ud = start_address ud)"

text \<open>The configurations in which this holds: the flash starts at 64 KiB or above, and ends below the last 64 KiB.\<close>

definition flash_placed :: "transfer_cfg \<Rightarrow> bool" where
  "flash_placed cfg \<longleftrightarrow> unat (FLASH_BASE_ADDRESS cfg) \<ge> 2 ^ 16 \<and> unat (FLASH_BASE_ADDRESS cfg) + 2 ^ 16 \<le> 2 ^ 32 \<and>
     unat (FLASH_MAX_SIZE cfg) + 2 ^ 16 \<le> 2 ^ 32"

lemma normalize_addr_bound:
  assumes "flash_placed cfg"
  shows "unat (normalize_addr cfg a) + 2 ^ 16 \<le> 2 ^ 32"
proof (cases "a > FLASH_BASE_ADDRESS cfg")
  case True
  then have "unat (a - FLASH_BASE_ADDRESS cfg) = unat a - unat (FLASH_BASE_ADDRESS cfg)"
    by (simp add: unat_sub word_less_nat_alt word_le_nat_alt)
  moreover have "unat a < 2 ^ 32" by (rule u32_less_pow)
  ultimately show ?thesis using assms True by (auto simp: normalize_addr_def flash_placed_def simp del: unat_u32_less)
next
  case False
  then have "unat a \<le> unat (FLASH_BASE_ADDRESS cfg)" by (simp add: not_less word_le_nat_alt)
  then show ?thesis using assms False by (simp add: normalize_addr_def flash_placed_def)
qed

text \<open>
  What a request keeps: the range invariant, and every byte of the flash at or above its end plus
  the padding of one block.
\<close>

lemma continue_download_frame:
  assumes "flash_frames ops rd" and "continue_download ops d w = Returns r w'" and "length d < 2 ^ 16"
    and "unat (current_address (tw_ud w)) + 2 ^ 16 \<le> 2 ^ 32" and "write_block_size (tw_ud w) \<le> MAXIMUM_FLASH_WRITE_BLOCK_SIZE"
    and "x \<ge> unat (start_address (tw_ud w) + total_size (tw_ud w)) + 31"
  shows "rd (tw_flash w') x = rd (tw_flash w) x"
proof -
  let ?ud = "tw_ud w" and ?b = "unat (write_block_size (tw_ud w))"
  let ?ov = "length d mod ?b" and ?cur = "current_address (tw_ud w)"
  let ?fw = "length d - ?ov"
  have sum: "unat (?cur + of_nat n) = unat ?cur + n" if "n \<le> length d" for n
    using that assms(3,4) unat_add_no_overflow [of ?cur "of_nat n"] unat_of_nat_u32 [of n] by simp
  have b: "?b \<le> 32" using assms(5) by (simp add: MAXIMUM_FLASH_WRITE_BLOCK_SIZE_def word_le_nat_alt)
  have fr: "rd (snd (flash_write ops off bs f)) x = rd f x" if "x \<ge> unat off + length bs" for off bs f
    using assms(1) that by (simp add: flash_frames_def)
  show ?thesis
  proof (cases "of_nat (length d) = (0 :: u32) \<or> ?cur + of_nat (length d) > start_address ?ud + total_size ?ud")
    case True
    then show ?thesis using assms(2) by (auto simp: continue_download_def Let_def)
  next
    case False
    then have e: "unat ?cur + length d + 31 \<le> x"
      using assms(6) sum [of "length d"] by (simp add: word_less_nat_alt)
    have first: "rd (snd (if c then flash_write ops ?cur (take ?fw d) f else (rc0, f))) x = rd f x" for c f
      using fr [of ?cur "take ?fw d" f] e by simp
    have pad: "unat (?cur + of_nat ?fw) + length (drop ?fw d @ replicate (?b - ?ov) (0xFF :: u8)) \<le> x" if "?ov \<noteq> 0"
    proof -
      have "length (drop ?fw d @ replicate (?b - ?ov) (0xFF :: u8)) = ?ov + (?b - ?ov)" by simp
      then show ?thesis
        using sum [of ?fw] e b that mod_less_eq_dividend [of "length d" ?b] by linarith
    qed
    obtain rc1 f1 where w1: "(if 0 < ?fw then flash_write ops ?cur (take ?fw d) (tw_flash w) else (rc0, tw_flash w)) = (rc1, f1)"
      by fastforce
    obtain rc2 f2 where w2: "(if ?ov \<noteq> 0 then flash_write ops (?cur + of_nat ?fw)
        (drop ?fw d @ replicate (?b - ?ov) 0xFF) f1 else (rc0, f1)) = (rc2, f2)"
      by fastforce
    have "rd f1 x = rd (tw_flash w) x" using first [of "0 < ?fw" "tw_flash w"] by (simp only: w1 snd_conv)
    moreover have "rd f2 x = rd f1 x" using w2 fr [OF pad, of f1] by (cases "?ov = 0") simp_all
    moreover have "tw_flash w' \<in> {tw_flash w, f1, f2}"
      using assms(2) [unfolded continue_download_def Let_def w1 prod.case w2] by (auto split: if_splits)
    ultimately show ?thesis by auto
  qed
qed

definition stays_in_flash ::
  "transfer_cfg \<Rightarrow> ('f \<Rightarrow> nat \<Rightarrow> u8) \<Rightarrow> 'f \<Rightarrow> ('f, 'fs, 'h, 'r) transfer_world \<Rightarrow> bool" where
  "stays_in_flash cfg rd f w \<longleftrightarrow> transfer_inv w \<and> ud_range_ok cfg (tw_ud w) \<and>
     (\<forall>x \<ge> unat (FLASH_MAX_SIZE cfg) + 31. rd (tw_flash w) x = rd f x)"

lemma start_download_stays:
  assumes "stays_in_flash cfg rd f w" and "transfer_idle w" and "flash_placed cfg"
    and "flash_get_write_block_size ops (tw_flash w) \<noteq> 0" and "start_download cfg ops ad sz fmt w = (r, arg, w')"
  shows "stays_in_flash cfg rd f w'"
proof -
  have "transfer_inv w'"
    by (rule start_download_inv [OF _ assms(2,4,5)]) (use assms(1) in \<open>simp add: stays_in_flash_def\<close>)
  moreover have "tw_flash w' = tw_flash w"
    using assms(5) by (auto simp: start_download_def Let_def split: if_splits)
  moreover have "ud_range_ok cfg (tw_ud w')"
    using assms(2,5) normalize_addr_bound [OF assms(3), of ad]
    by (auto simp: start_download_def transfer_idle_def ud_range_ok_def Let_def not_less split: if_splits)
  ultimately show ?thesis using assms(1) by (simp add: stays_in_flash_def)
qed

lemma start_upload_stays:
  assumes "stays_in_flash cfg rd f w" and "transfer_idle w" and "flash_placed cfg"
    and "start_upload cfg ops ad sz mbl w = (r, arg, w')"
  shows "stays_in_flash cfg rd f w'"
proof -
  have "transfer_inv w'"
    by (rule start_upload_inv [OF _ assms(2,4)]) (use assms(1) in \<open>simp add: stays_in_flash_def\<close>)
  moreover have "tw_flash w' = tw_flash w"
    using assms(4) by (auto simp: start_upload_def Let_def split: if_splits)
  moreover have "ud_range_ok cfg (tw_ud w')"
    using assms(2,4) normalize_addr_bound [OF assms(3), of ad]
    by (auto simp: start_upload_def transfer_idle_def ud_range_ok_def Let_def not_less split: if_splits)
  ultimately show ?thesis using assms(1) by (simp add: stays_in_flash_def)
qed

lemma file_request_frame:
  assumes "uds_file_transfer_request cfg ops mode p sz mbl w = (r, m, w')"
  shows "tw_ud w' = tw_ud w \<and> tw_flash w' = tw_flash w"
  using assms
  by (auto simp: uds_file_transfer_request_def uds_file_transfer_begin_write_def uds_file_transfer_begin_read_def
      uds_file_transfer_delete_def uds_file_transfer_reset_def Let_def
      split: option.splits if_splits uds_moop.splits prod.splits sum.splits)

lemma file_continue_frame:
  assumes "uds_file_transfer_continue ops d m c w = Returns r w'"
  shows "tw_ud w' = tw_ud w \<and> tw_flash w' = tw_flash w"
  using assms
  by (auto simp: uds_file_transfer_continue_def uds_file_transfer_write_def uds_file_transfer_read_def Let_def
      split: FileTransferMode.splits prod.splits sum.splits option.splits if_splits)

lemma wrapped_end:
  assumes "2 ^ 32 \<le> unat a + unat n"
  shows "unat (a + n :: u32) < unat a"
proof -
  have "unat (a + n) = (unat a + unat n) mod 2 ^ 32" by (simp add: unat_word_ariths)
  also have "\<dots> = (unat a + unat n - 2 ^ 32) mod 2 ^ 32" using assms by (rule le_mod_geq)
  also have "\<dots> \<le> unat a + unat n - 2 ^ 32" by (rule mod_less_eq_dividend)
  finally show ?thesis using assms u32_less_pow [of n] by linarith
qed

lemma continue_upload_stays:
  assumes "stays_in_flash cfg rd f w" and "flash_placed cfg" and "continue_upload cfg ops m c w = (r, w')"
  shows "stays_in_flash cfg rd f w'"
proof (cases "tw_ud w' = tw_ud w")
  case True
  then show ?thesis
    using assms(1,3) continue_upload_inv [OF _ assms(3)]
    by (auto simp: stays_in_flash_def continue_upload_def Let_def split: prod.splits option.splits if_splits)
next
  case False
  let ?ud = "tw_ud w"
  let ?n = "min (max_payload cfg) (min (ucast m) (start_address ?ud + total_size ?ud - current_address ?ud))"
  from False assms(3) have w': "tw_ud w' = ?ud\<lparr>current_address := current_address ?ud + ?n\<rparr>" "tw_flash w' = tw_flash w"
    and lt: "current_address ?ud < start_address ?ud + total_size ?ud" and st: "ud_state ?ud \<noteq> UDS_UPDOWN__IDLE"
    by (auto simp: continue_upload_def Let_def not_le split: prod.splits option.splits if_splits)
  have "?n \<le> start_address ?ud + total_size ?ud - current_address ?ud"
    by (intro min.coboundedI2 order.refl)
  then have "unat ?n \<le> unat (start_address ?ud + total_size ?ud) - unat (current_address ?ud)"
    using lt by (simp add: unat_sub word_le_nat_alt word_less_nat_alt)
  then have "unat (current_address ?ud) + unat ?n \<le> unat (start_address ?ud + total_size ?ud)"
    using lt by (simp add: word_less_nat_alt)
  then have "unat (current_address ?ud + ?n) \<le> unat (start_address ?ud + total_size ?ud)"
    using unat_add_no_overflow [of "current_address ?ud" ?n] le_less_trans [OF _ u32_less_pow] by metis
  moreover have "start_address ?ud + total_size ?ud \<le> FLASH_MAX_SIZE cfg"
    using assms(1) st by (simp add: stays_in_flash_def ud_range_ok_def)
  ultimately have "unat (current_address ?ud + ?n) + 2 ^ 16 \<le> 2 ^ 32"
    using assms(2) by (simp add: flash_placed_def word_le_nat_alt)
  moreover have "\<not> 2 ^ 32 \<le> unat (start_address ?ud) + unat (total_size ?ud)"
  proof
    assume wrap: "2 ^ 32 \<le> unat (start_address ?ud) + unat (total_size ?ud)"
    then have "current_address ?ud = start_address ?ud" using assms(1) st by (simp add: stays_in_flash_def ud_range_ok_def)
    then show False using lt wrapped_end [OF wrap] by (simp add: word_less_nat_alt)
  qed
  ultimately have "ud_range_ok cfg (tw_ud w')"
    using assms(1) st by (simp add: w' ud_range_ok_def stays_in_flash_def)
  then show ?thesis
    using assms(1) continue_upload_inv [OF _ assms(3)] by (simp add: stays_in_flash_def w')
qed

lemma wrapped_chunk_refused:
  assumes "ud_range_ok cfg (tw_ud w)" and "ud_state (tw_ud w) \<noteq> UDS_UPDOWN__IDLE"
    and "2 ^ 32 \<le> unat (start_address (tw_ud w)) + unat (total_size (tw_ud w))" and "length d < 2 ^ 16"
  shows "continue_download ops d w = Returns UDS_NRC_RequestOutOfRange w"
proof -
  let ?ud = "tw_ud w"
  have cur: "current_address ?ud = start_address ?ud" "unat (start_address ?ud) + 2 ^ 16 \<le> 2 ^ 32"
    using assms(1-3) by (auto simp: ud_range_ok_def)
  have "unat (start_address ?ud + total_size ?ud) < unat (start_address ?ud)" by (rule wrapped_end [OF assms(3)])
  also have "\<dots> \<le> unat (start_address ?ud + of_nat (length d))"
    using cur(2) assms(4) unat_add_no_overflow [of "start_address ?ud" "of_nat (length d)"] unat_of_nat_u32 [of "length d"] by simp
  finally show ?thesis using cur(1) by (simp add: continue_download_def word_less_nat_alt)
qed

lemma continue_download_stays:
  assumes "stays_in_flash cfg rd f w" and "flash_placed cfg" and "flash_frames ops rd"
    and "ud_state (tw_ud w) = UDS_UPDOWN__DOWNLOAD_IN_PROGRESS"
    and "continue_download ops d w = Returns r w'" and "length d < 2 ^ 16"
  shows "stays_in_flash cfg rd f w'"
proof -
  let ?ud = "tw_ud w"
  have inv: "transfer_inv w" and cur: "unat (current_address ?ud) + 2 ^ 16 \<le> 2 ^ 32"
    and tot: "start_address ?ud + total_size ?ud \<le> FLASH_MAX_SIZE cfg"
    and b: "write_block_size ?ud \<le> MAXIMUM_FLASH_WRITE_BLOCK_SIZE"
    using assms(1,4) by (auto simp: stays_in_flash_def ud_range_ok_def transfer_inv_def)
  have "transfer_inv w'"
    using continue_download_returns [OF inv assms(4), of ops d] assms(5) by simp
  moreover have "rd (tw_flash w') x = rd (tw_flash w) x" if "x \<ge> unat (FLASH_MAX_SIZE cfg) + 31" for x
    by (rule continue_download_frame [OF assms(3,5,6) cur b]) (use that tot in \<open>simp add: word_le_nat_alt\<close>)
  moreover have "tw_ud w' = ?ud \<or> tw_ud w' = ?ud\<lparr>current_address := current_address ?ud + of_nat (length d)\<rparr> \<and>
      \<not> current_address ?ud + of_nat (length d) > start_address ?ud + total_size ?ud"
    using assms(5) by (auto simp: continue_download_def Let_def split: prod.splits if_splits)
  then have "ud_range_ok cfg (tw_ud w')"
  proof
    assume adv: "tw_ud w' = ?ud\<lparr>current_address := current_address ?ud + of_nat (length d)\<rparr> \<and>
      \<not> current_address ?ud + of_nat (length d) > start_address ?ud + total_size ?ud"
    show ?thesis
    proof (cases "2 ^ 32 \<le> unat (start_address ?ud) + unat (total_size ?ud)")
      case True
      then have "w' = w"
        using wrapped_chunk_refused [of cfg w d ops] assms(1,4-6) by (simp add: stays_in_flash_def)
      then show ?thesis using assms(1) by (simp add: stays_in_flash_def)
    next
      case False
      with adv show ?thesis
        using tot assms(2) by (auto simp: ud_range_ok_def flash_placed_def not_less word_le_nat_alt)
    qed
  qed (use assms(1) in \<open>simp add: stays_in_flash_def\<close>)
  ultimately show ?thesis using assms(1) by (simp add: stays_in_flash_def)
qed

lemma transfer_exit_stays:
  assumes "stays_in_flash cfg rd f w" and "transfer_exit ops w = Returns r w'"
  shows "stays_in_flash cfg rd f w' \<and> transfer_idle w'"
  using assms transfer_exit_inv [of w ops]
  by (auto simp: stays_in_flash_def ud_range_ok_def transfer_idle_def)

lemma action_stays_in_flash:
  assumes "stays_in_flash cfg rd f w" and "flash_placed cfg" and "flash_frames ops rd"
    and "\<And>f. flash_get_write_block_size ops f \<noteq> 0" and "transfer_args_ok ctx"
    and "uds_action_upload_download cfg ops ctx b w = Returns res w'"
  shows "stays_in_flash cfg rd f w'"
proof (cases "ctx_event ctx \<in> {UDS_EVT_RequestDownload, UDS_EVT_RequestUpload, UDS_EVT_RequestFileTransfer}")
  case True
  have inv: "transfer_inv w" using assms(1) by (simp add: stays_in_flash_def)
  obtain r w1 where ex: "transfer_exit ops w = Returns r w1" using transfer_exit_inv [OF inv, of ops] by auto
  have w1: "stays_in_flash cfg rd f w1" "transfer_idle w1" using transfer_exit_stays [OF assms(1) ex] by auto
  have fr: "stays_in_flash cfg rd f w2" if "uds_file_transfer_request cfg ops mode p sz mbl w1 = (e, m, w2)"
    for mode p sz mbl e m w2
    using file_request_inv [OF _ w1(2) that] file_request_frame [OF that] w1(1) by (simp add: stays_in_flash_def)
  show ?thesis
    using True assms(5,6) w1(1) fr start_download_stays [OF w1 assms(2) assms(4)] start_upload_stays [OF w1 assms(2)]
    by (auto simp: uds_action_upload_download_def ex transfer_args_ok_def split: prod.splits if_splits)
next
  case False
  have inv: "transfer_inv w" using assms(1) by (simp add: stays_in_flash_def)
  have fc: "stays_in_flash cfg rd f w2" if "uds_file_transfer_continue ops (Some d) m c w = Returns e w2" for d m c e w2
    using file_continue_returns [OF inv, of ops d m c] file_continue_frame [OF that] that assms(1)
    by (simp add: stays_in_flash_def)
  show ?thesis
    using False assms(1,5,6) fc continue_download_stays [OF assms(1-3)] continue_upload_stays [OF assms(1,2)]
      transfer_exit_stays [OF assms(1)]
    by (cases "ctx_event ctx")
      (auto simp: uds_action_upload_download_def transfer_args_ok_def outcome_simps split: prod.splits if_splits)
qed

text \<open>Downloads whose end wraps around.\<close>

lemma wrapped_download_starts:
  assumes "transfer_idle w" and "normalize_addr cfg ad + sz \<le> FLASH_MAX_SIZE cfg" "sz \<noteq> 0" "flash_ready ops (tw_flash w)"
    and "flash_get_write_block_size ops (tw_flash w) \<le> MAXIMUM_FLASH_WRITE_BLOCK_SIZE"
  shows "\<exists>arg w1. uds_action_upload_download cfg ops
          \<lparr>ctx_instance = i, ctx_registration = rg, ctx_event = UDS_EVT_RequestDownload, ctx_arg = Arg_RequestDownload ad sz 0\<rparr>
          b w = Returns (UDS_OK, True, arg) w1 \<and>
        start_address (tw_ud w1) = normalize_addr cfg ad \<and> total_size (tw_ud w1) = sz \<and>
        ud_state (tw_ud w1) = UDS_UPDOWN__DOWNLOAD_IN_PROGRESS"
  using assms
  by (auto simp: uds_action_upload_download_def transfer_exit_def uds_upload_download_reset_def
      uds_file_transfer_exit_def transfer_idle_def start_download_def Let_def not_less)

lemma wrapped_data_refused:
  assumes "transfer_inv w" and "ud_range_ok cfg (tw_ud w)" and "ud_state (tw_ud w) = UDS_UPDOWN__DOWNLOAD_IN_PROGRESS"
    and "2 ^ 32 \<le> unat (start_address (tw_ud w)) + unat (total_size (tw_ud w))" and "length d < 2 ^ 16"
  shows "uds_action_upload_download cfg ops (transfer_data_ctx (Some d) m c) b w =
    Returns (UDS_NRC_RequestOutOfRange, True, Arg_TransferData (Some d) m c) w"
proof -
  have "fts_mode (tw_ft w) = UDS_FILE_TRANSFER__IDLE" using assms(1,3) by (simp add: transfer_inv_def)
  then show ?thesis
    using wrapped_chunk_refused [OF assms(2) _ assms(4,5)] assms(3)
    by (simp add: uds_action_upload_download_def transfer_data_ctx_def uds_file_transfer_is_active_def)
qed

text \<open>The states a server reaches from its start by requests of the service.\<close>

inductive transfer_reach ::
  "transfer_cfg \<Rightarrow> ('f, 'fs, 'h, 'r) transfer_ops \<Rightarrow> ('f, 'fs, 'h, 'r) transfer_world \<Rightarrow>
   ('f, 'fs, 'h, 'r) transfer_world \<Rightarrow> bool" for cfg ops w0 where
  reach_init: "transfer_reach cfg ops w0 w0"
| reach_step: "transfer_reach cfg ops w0 w \<Longrightarrow> transfer_args_ok ctx \<Longrightarrow>
    uds_action_upload_download cfg ops ctx b w = Returns res w' \<Longrightarrow> transfer_reach cfg ops w0 w'"

definition transfer_start :: "'f \<Rightarrow> 'fs \<Rightarrow> 'r \<Rightarrow> ('f, 'fs, 'h, 'r) transfer_world" where
  "transfer_start f fs r = \<lparr>tw_ud = ud_init, tw_ft = ft_init, tw_flash = f, tw_fs = fs, tw_resp = r\<rparr>"

lemma transfer_start_inv: "transfer_inv (transfer_start f fs r)"
  by (simp add: transfer_inv_def transfer_start_def ud_init_def ft_init_def)

lemma transfer_reach_inv:
  assumes "transfer_reach cfg ops w0 w" and "transfer_inv w0" and "\<And>f. flash_get_write_block_size ops f \<noteq> 0"
  shows "transfer_inv w"
  using assms(1)
proof induction
  case (reach_step w ctx b res w')
  then show ?case using action_upload_download_inv [OF _ reach_step.hyps(2) assms(3), of w cfg b] by simp
qed (rule assms(2))

lemma transfer_reach_stays:
  assumes "transfer_reach cfg ops w0 w" and "stays_in_flash cfg rd f w0" and "flash_placed cfg" and "flash_frames ops rd"
    and "\<And>f. flash_get_write_block_size ops f \<noteq> 0"
  shows "stays_in_flash cfg rd f w"
  using assms(1)
proof induction
  case (reach_step w ctx b res w')
  show ?case by (rule action_stays_in_flash [OF reach_step.IH assms(3-5) reach_step.hyps(2,3)])
qed (rule assms(2))

section \<open>Properties\<close>

text \<open>A flash of \<open>nat \<Rightarrow> u8\<close> and an empty file system, for the witnesses.\<close>

definition demo_ops :: "(nat \<Rightarrow> u8, unit, unit, u8 list) transfer_ops" where
  "demo_ops =
     \<lparr>flash_ready = (\<lambda>_. True), flash_get_write_block_size = (\<lambda>_. 8),
      flash_write = (\<lambda>off bs f.
        if unat off mod 8 = 0 \<and> length bs mod 8 = 0 \<and> unat off + length bs \<le> 0x80000 \<and>
          (\<forall>x \<in> set [unat off..<unat off + length bs]. f x = 0xFF)
        then (rc0, overlay f (unat off) bs) else (Inl EIO, f)),
      flash_read = (\<lambda>off n f. if unat off + n \<le> 0x80000 then (rc0, map f [unat off..<unat off + n]) else (Inl EINVAL, [])),
      fs_open = (\<lambda>p m fs. (Inr (), fs)), fs_close = (\<lambda>h fs. fs), fs_stat = (\<lambda>p fs. Inl ENOENT),
      fs_unlink = (\<lambda>p fs. (Inl ENOENT, fs)), fs_write = (\<lambda>h bs fs. (Inr (length bs), fs)),
      fs_read = (\<lambda>h n fs. (Inr [], fs)), copyResponse = (\<lambda>c bs r. (UDS_PositiveResponse, r @ bs))\<rparr>"

definition demo_cfg :: transfer_cfg where
  "demo_cfg = \<lparr>FLASH_BASE_ADDRESS = 0x08000000, FLASH_MAX_SIZE = 0x80000, max_payload = 128, resp_base_len = 2,
     tp_mtu = 4095\<rparr>"

definition demo_world :: "(nat \<Rightarrow> u8, unit, unit, u8 list) transfer_world" where
  "demo_world = transfer_start (\<lambda>_. 0xFF) () []"

definition demo_download :: "u32 \<Rightarrow> u32 \<Rightarrow> uds_context" where
  "demo_download ad sz =
     \<lparr>ctx_instance = 0, ctx_registration = Static 0, ctx_event = UDS_EVT_RequestDownload, ctx_arg = Arg_RequestDownload ad sz 0\<rparr>"

lemma demo_works: "flash_programs demo_ops (\<lambda>f. f) 0xFF 8 0x80000" "flash_frames demo_ops (\<lambda>f. f)" "copy_appends demo_ops"
    "flash_placed demo_cfg" "flash_get_write_block_size demo_ops f = 8" "flash_ready demo_ops f"
    "flash_reads demo_ops (\<lambda>f. f) 0x80000"
  by (auto simp: flash_programs_def flash_reads_def erased_def flash_frames_def copy_appends_def demo_ops_def overlay_def
      flash_placed_def demo_cfg_def dvd_eq_mod_eq_0)

text \<open>
  (C7) In every state the service can reach, every well-formed request of its five events is
  answered: no assertion fails (a flash transfer and a file transfer are never active together), no
  block overruns the padding buffer, and the invariant holds again afterwards.
\<close>

theorem transfer_requests_answered:
  assumes "transfer_reach cfg ops (transfer_start f fs r) w" and "transfer_args_ok ctx"
    and "\<And>f. flash_get_write_block_size ops f \<noteq> 0"
  shows "\<exists>res w'. uds_action_upload_download cfg ops ctx b w = Returns res w' \<and> transfer_inv w'"
  using action_upload_download_inv [OF transfer_reach_inv [OF assms(1) transfer_start_inv assms(3)] assms(2,3)]
  by (simp add: oreturns_iff)

theorem transfer_requests_answered_witness:
  "\<exists>res w'. uds_action_upload_download demo_cfg demo_ops (transfer_data_ctx (Some [1]) 0 None) True demo_world = Returns res w'"
proof -
  have "transfer_reach demo_cfg demo_ops (transfer_start (\<lambda>_. 0xFF) () []) demo_world"
    unfolding demo_world_def by (rule reach_init)
  then show ?thesis
    using transfer_requests_answered [of demo_cfg demo_ops "\<lambda>_. 0xFF" "()" "[]" demo_world
        "transfer_data_ctx (Some [1]) 0 None" True]
    by (auto simp: transfer_args_ok_def transfer_data_ctx_def demo_works)
qed

text \<open>
  (C8) Flash outside of the configured size is safe from requests with any address and size, for a flash that starts at
  64 KiB or above and ends below the last 64 KiB of the address space, and a driver whose writes, successful or not, change
  only the bytes of their range: in every state the service reaches from its start, the bytes of the flash at or beyond
  the configured size plus 31 bytes of padding are those of the start. While idle, a download request whose end wraps around 32 bits to an
  address within the flash is accepted, but every data request of such a download is refused as out of range and changes nothing.
\<close>

theorem flash_writes_confined:
  assumes "transfer_reach cfg ops (transfer_start f fs r) w" and "flash_placed cfg" and "flash_frames ops rd"
    and "\<And>f. flash_get_write_block_size ops f \<noteq> 0"
  shows "(\<forall>x \<ge> unat (FLASH_MAX_SIZE cfg) + 31. rd (tw_flash w) x = rd f x) \<and>
    (2 ^ 32 \<le> unat (normalize_addr cfg ad) + unat sz \<and> normalize_addr cfg ad + sz \<le> FLASH_MAX_SIZE cfg \<and> sz \<noteq> 0 \<and>
       transfer_idle w \<and> flash_ready ops (tw_flash w) \<and> flash_get_write_block_size ops (tw_flash w) \<le> MAXIMUM_FLASH_WRITE_BLOCK_SIZE \<longrightarrow>
       (\<exists>arg w1. uds_action_upload_download cfg ops
          \<lparr>ctx_instance = i, ctx_registration = rg, ctx_event = UDS_EVT_RequestDownload, ctx_arg = Arg_RequestDownload ad sz 0\<rparr>
          b w = Returns (UDS_OK, True, arg) w1 \<and>
        start_address (tw_ud w1) = normalize_addr cfg ad \<and> total_size (tw_ud w1) = sz \<and>
        ud_state (tw_ud w1) = UDS_UPDOWN__DOWNLOAD_IN_PROGRESS)) \<and>
    (ud_state (tw_ud w) = UDS_UPDOWN__DOWNLOAD_IN_PROGRESS \<and> 2 ^ 32 \<le> unat (start_address (tw_ud w)) + unat (total_size (tw_ud w)) \<and>
       length d < 2 ^ 16 \<longrightarrow>
       uds_action_upload_download cfg ops (transfer_data_ctx (Some d) m c) b w =
         Returns (UDS_NRC_RequestOutOfRange, True, Arg_TransferData (Some d) m c) w)"
proof -
  have "stays_in_flash cfg rd f (transfer_start f fs r)"
    by (simp add: stays_in_flash_def transfer_start_inv)
      (simp add: transfer_start_def ud_init_def ud_range_ok_def)
  from transfer_reach_stays [OF assms(1) this assms(2-4)]
  have st: "transfer_inv w" "ud_range_ok cfg (tw_ud w)" "\<forall>x \<ge> unat (FLASH_MAX_SIZE cfg) + 31. rd (tw_flash w) x = rd f x"
    by (simp_all add: stays_in_flash_def)
  show ?thesis
    using st(3) wrapped_download_starts wrapped_data_refused [OF st(1,2)] by blast
qed

theorem flash_writes_confined_witness:
  "\<exists>w1 w2. uds_action_upload_download demo_cfg demo_ops (demo_download 0x08000010 10) True demo_world =
      Returns (UDS_OK, True, Arg_RequestDownload 0x10 10 0) w1 \<and>
    uds_action_upload_download demo_cfg demo_ops (transfer_data_ctx (Some [1, 2, 3, 4, 5, 6, 7, 8, 9, 10]) 0 None) True w1 =
      Returns (UDS_OK, True, Arg_TransferData (Some [1, 2, 3, 4, 5, 6, 7, 8, 9, 10]) 0 None) w2 \<and>
    tw_flash w2 0x10 = 1 \<and> tw_flash w2 0x8001F = 0xFF \<and>
    (\<exists>arg w3. uds_action_upload_download demo_cfg demo_ops (demo_download 0xF0000000 0x18000000) True demo_world =
       Returns (UDS_OK, True, arg) w3 \<and>
     uds_action_upload_download demo_cfg demo_ops (transfer_data_ctx (Some [1]) 0 None) True w3 =
       Returns (UDS_NRC_RequestOutOfRange, True, Arg_TransferData (Some [1]) 0 None) w3)"
proof -
  obtain w1 where r1: "uds_action_upload_download demo_cfg demo_ops (demo_download 0x08000010 10) True demo_world =
      Returns (UDS_OK, True, Arg_RequestDownload 0x10 10 0) w1"
    and w1: "tw_ud w1 = \<lparr>ud_state = UDS_UPDOWN__DOWNLOAD_IN_PROGRESS, start_address = 0x10, current_address = 0x10,
      total_size = 10, write_block_size = 8\<rparr>" "fts_mode (tw_ft w1) = UDS_FILE_TRANSFER__IDLE" "tw_flash w1 = (\<lambda>_. 0xFF)"
    by (simp add: demo_download_def uds_action_upload_download_def transfer_exit_def uds_upload_download_reset_def
        uds_file_transfer_exit_def start_download_def Let_def normalize_addr_def MAXIMUM_FLASH_WRITE_BLOCK_SIZE_def
        demo_world_def transfer_start_def ud_init_def ft_init_def demo_cfg_def demo_ops_def)
  obtain w2 where r2: "uds_action_upload_download demo_cfg demo_ops
      (transfer_data_ctx (Some [1, 2, 3, 4, 5, 6, 7, 8, 9, 10]) 0 None) True w1 =
      Returns (UDS_OK, True, Arg_TransferData (Some [1, 2, 3, 4, 5, 6, 7, 8, 9, 10]) 0 None) w2" and w2: "tw_flash w2 0x10 = 1"
    using w1
    by (simp add: transfer_data_ctx_def uds_action_upload_download_def uds_file_transfer_is_active_def continue_download_def
        Let_def MAXIMUM_FLASH_WRITE_BLOCK_SIZE_def demo_ops_def overlay_def)
  have reach0: "transfer_reach demo_cfg demo_ops (transfer_start (\<lambda>_. 0xFF) () []) demo_world"
    unfolding demo_world_def by (rule reach_init)
  have idle: "transfer_idle demo_world"
    by (simp add: demo_world_def transfer_start_def transfer_idle_def ud_init_def ft_init_def)
  from reach_step [OF reach_step [OF reach0 _ r1] _ r2]
  have reach2: "transfer_reach demo_cfg demo_ops (transfer_start (\<lambda>_. 0xFF) () []) w2"
    by (simp add: demo_world_def transfer_args_ok_def transfer_data_ctx_def demo_download_def)
  note conf = flash_writes_confined [where rd = "\<lambda>f. f", OF _ demo_works(4,2)]
  obtain arg w3 where r3: "uds_action_upload_download demo_cfg demo_ops (demo_download 0xF0000000 0x18000000) True demo_world =
       Returns (UDS_OK, True, arg) w3"
    and w3: "start_address (tw_ud w3) = 0xE8000000" "total_size (tw_ud w3) = 0x18000000"
      "ud_state (tw_ud w3) = UDS_UPDOWN__DOWNLOAD_IN_PROGRESS"
    using conf [OF reach0, where ad = "0xF0000000" and sz = "0x18000000" and i = 0 and rg = "Static 0" and b = True and d = "[]" and m = 0 and c = None]
    by (auto simp: idle demo_works demo_download_def, auto simp: demo_cfg_def normalize_addr_def MAXIMUM_FLASH_WRITE_BLOCK_SIZE_def)
  from reach_step [OF reach0 _ r3]
  have "transfer_reach demo_cfg demo_ops (transfer_start (\<lambda>_. 0xFF) () []) w3"
    by (simp add: transfer_args_ok_def demo_download_def)
  from conf [OF this, where b = True and d = "[1]" and m = 0 and c = None] w3
  have "uds_action_upload_download demo_cfg demo_ops (transfer_data_ctx (Some [1]) 0 None) True w3 =
       Returns (UDS_NRC_RequestOutOfRange, True, Arg_TransferData (Some [1]) 0 None) w3"
    by (simp add: demo_works)
  moreover have "tw_flash w2 0x8001F = 0xFF"
    using conf [OF reach2] by (simp add: demo_works demo_cfg_def)
  ultimately show ?thesis using r1 r2 w2 r3 by blast
qed

text \<open>
  (C1) A complete download to flash that works as documented and was erased before: from idle, a download request for a range
  inside the flash that starts at a block, the data in chunks that are multiples of the write block size (except for the last), and a
  transfer exit are all answered positively; the service is idle again, and the flash holds exactly the data at the
  requested address, padded to a whole block with 0xFF, and is unchanged elsewhere. The driver is relied on only for writes of whole
  blocks inside the flash, to bytes that are erased; the code keeps to such writes.
\<close>

theorem download_writes_image:
  assumes "flash_programs ops rd ev (unat bl) (unat (FLASH_MAX_SIZE cfg))" and "flash_ready ops (tw_flash w)"
    and "flash_get_write_block_size ops (tw_flash w) = bl" and "bl \<noteq> 0" and "bl \<le> MAXIMUM_FLASH_WRITE_BLOCK_SIZE"
    and "transfer_idle w" and "sz \<noteq> 0" and "unat (normalize_addr cfg ad) + unat sz \<le> unat (FLASH_MAX_SIZE cfg)"
    and "length (concat ds) = unat sz" and "\<forall>d \<in> set ds. d \<noteq> [] \<and> length d < 2 ^ 16"
    and "\<forall>d \<in> set (butlast ds). length d mod unat bl = 0"
    and "unat bl dvd unat (normalize_addr cfg ad)" and "unat bl dvd unat (FLASH_MAX_SIZE cfg)"
    and "erased (rd (tw_flash w)) ev (unat (normalize_addr cfg ad)) (length (pad (unat bl) (concat ds)))"
  shows "\<exists>arg1 arg3 w1 w2 w3.
    uds_action_upload_download cfg ops
      \<lparr>ctx_instance = i, ctx_registration = rg, ctx_event = UDS_EVT_RequestDownload, ctx_arg = Arg_RequestDownload ad sz 0\<rparr>
      b w = Returns (UDS_OK, True, arg1) w1 \<and>
    send_chunks cfg ops ds w1 = Returns (replicate (length ds) UDS_OK) w2 \<and>
    uds_action_upload_download cfg ops
      \<lparr>ctx_instance = i, ctx_registration = rg, ctx_event = UDS_EVT_RequestTransferExit, ctx_arg = Arg_other\<rparr>
      b w2 = Returns (UDS_OK, True, arg3) w3 \<and>
    transfer_idle w3 \<and>
    rd (tw_flash w3) = overlay (rd (tw_flash w)) (unat (normalize_addr cfg ad)) (pad (unat bl) (concat ds))"
proof -
  let ?a = "normalize_addr cfg ad"
  have nw: "unat ?a + unat sz < 2 ^ 32" using assms(8) by (rule le_less_trans [OF _ u32_less_pow])
  then have "?a + sz \<le> FLASH_MAX_SIZE cfg"
    using assms(8) unat_add_no_overflow [OF nw] by (simp add: word_le_nat_alt)
  then obtain arg1 w1 where start: "uds_action_upload_download cfg ops
      \<lparr>ctx_instance = i, ctx_registration = rg, ctx_event = UDS_EVT_RequestDownload, ctx_arg = Arg_RequestDownload ad sz 0\<rparr>
      b w = Returns (UDS_OK, True, arg1) w1" "downloading ?a sz 0 bl w1" "tw_flash w1 = tw_flash w"
    using assms(2-7)
    by (auto simp: uds_action_upload_download_def transfer_exit_def uds_upload_download_reset_def
        uds_file_transfer_exit_def transfer_idle_def start_download_def Let_def downloading_def not_less)
  have "0 < unat bl" using assms(4) by (simp add: unat_gt_0)
  from pad_fits [OF this assms(12,13), of "concat ds"]
  have fits: "unat ?a + length (pad (unat bl) (concat ds)) \<le> unat (FLASH_MAX_SIZE cfg)" using assms(8,9) by simp
  from send_chunks_ok [OF assms(1) nw assms(4,5) start(2) assms(10,11), of cfg] assms(9,12,14) fits
  obtain w2 where sent: "send_chunks cfg ops ds w1 = Returns (replicate (length ds) UDS_OK) w2"
    "downloading ?a sz (unat sz) bl w2"
    "rd (tw_flash w2) = overlay (rd (tw_flash w)) (unat ?a) (pad (unat bl) (concat ds))"
    using start(3) by auto
  from sent(2) obtain arg3 w3 where "uds_action_upload_download cfg ops
      \<lparr>ctx_instance = i, ctx_registration = rg, ctx_event = UDS_EVT_RequestTransferExit, ctx_arg = Arg_other\<rparr>
      b w2 = Returns (UDS_OK, True, arg3) w3" "transfer_idle w3" "tw_flash w3 = tw_flash w2"
    by (auto simp: uds_action_upload_download_def transfer_exit_def uds_upload_download_reset_def
        uds_file_transfer_exit_def transfer_idle_def Let_def downloading_def)
  with start sent show ?thesis by auto
qed

theorem download_writes_image_witness:
  "\<exists>arg1 arg3 w1 w2 w3.
    uds_action_upload_download demo_cfg demo_ops
      \<lparr>ctx_instance = 0, ctx_registration = Static 0, ctx_event = UDS_EVT_RequestDownload,
       ctx_arg = Arg_RequestDownload 0x08000010 10 0\<rparr> True demo_world = Returns (UDS_OK, True, arg1) w1 \<and>
    send_chunks demo_cfg demo_ops [[1, 2, 3, 4, 5, 6, 7, 8], [9, 10]] w1 =
      Returns (replicate (length [[1, 2, 3, 4, 5, 6, 7, 8 :: u8], [9, 10]]) UDS_OK) w2 \<and>
    uds_action_upload_download demo_cfg demo_ops
      \<lparr>ctx_instance = 0, ctx_registration = Static 0, ctx_event = UDS_EVT_RequestTransferExit, ctx_arg = Arg_other\<rparr>
      True w2 = Returns (UDS_OK, True, arg3) w3 \<and>
    transfer_idle w3 \<and>
    tw_flash w3 = overlay (tw_flash demo_world) (unat (normalize_addr demo_cfg 0x08000010))
      (pad (unat (8 :: u32)) (concat [[1, 2, 3, 4, 5, 6, 7, 8], [9, 10]]))"
proof (rule download_writes_image [where rd = "\<lambda>f. f" and ev = "0xFF"])
  show "transfer_idle demo_world"
    by (simp add: demo_world_def transfer_start_def transfer_idle_def ud_init_def ft_init_def)
  show "flash_programs demo_ops (\<lambda>f. f) 0xFF (unat (8 :: u32)) (unat (FLASH_MAX_SIZE demo_cfg))"
    using demo_works(1) by (simp add: demo_cfg_def)
  show "erased (tw_flash demo_world) 0xFF (unat (normalize_addr demo_cfg 0x08000010))
      (length (pad (unat (8 :: u32)) (concat [[1, 2, 3, 4, 5, 6, 7, 8], [9, 10]])))"
    by (simp add: erased_def demo_world_def transfer_start_def)
qed (simp_all add: demo_works, simp_all add: demo_cfg_def normalize_addr_def MAXIMUM_FLASH_WRITE_BLOCK_SIZE_def)

text \<open>
  (C5) A complete upload: after an upload request for a range inside the flash, exactly
  \<open>\<lceil>size / m\<rceil>\<close> data requests, where \<open>m\<close> is the smaller of the configured and the requested
  payload, are answered positively, and together they return the bytes of the range in order; one
  more request is refused with RequestSequenceError.
\<close>

theorem upload_returns_image:
  assumes "flash_reads ops rd (unat (FLASH_MAX_SIZE cfg))" and "copy_appends ops" and "flash_ready ops (tw_flash w)" and "transfer_idle w"
    and "sz \<noteq> 0" and "unat (normalize_addr cfg ad) + unat sz \<le> unat (FLASH_MAX_SIZE cfg)"
    and "m = min (unat (max_payload cfg)) (unat mrl)" and "0 < m" and "k = (unat sz + m - 1) div m"
  shows "\<exists>arg1 arg3 w1 w2.
    uds_action_upload_download cfg ops
      \<lparr>ctx_instance = i, ctx_registration = rg, ctx_event = UDS_EVT_RequestUpload, ctx_arg = Arg_RequestUpload ad sz mbl\<rparr>
      b w = Returns (UDS_OK, True, arg1) w1 \<and>
    upload_requests cfg ops mrl k w1 = Returns (replicate k UDS_OK) w2 \<and>
    tw_resp w2 = tw_resp w @ map (rd (tw_flash w)) [unat (normalize_addr cfg ad)..<unat (normalize_addr cfg ad) + unat sz] \<and>
    uds_action_upload_download cfg ops (transfer_data_ctx (Some []) mrl (Some Copy_lib)) True w2 =
      Returns (UDS_NRC_RequestSequenceError, True, arg3) w2"
proof -
  let ?a = "normalize_addr cfg ad"
  have nw: "unat ?a + unat sz < 2 ^ 32" using assms(6) by (rule le_less_trans [OF _ u32_less_pow])
  then have "?a + sz \<le> FLASH_MAX_SIZE cfg"
    using assms(6) unat_add_no_overflow [OF nw] by (simp add: word_le_nat_alt)
  then obtain arg1 w1 where start: "uds_action_upload_download cfg ops
      \<lparr>ctx_instance = i, ctx_registration = rg, ctx_event = UDS_EVT_RequestUpload, ctx_arg = Arg_RequestUpload ad sz mbl\<rparr>
      b w = Returns (UDS_OK, True, arg1) w1" "uploading ?a sz 0 w1" "tw_flash w1 = tw_flash w" "tw_resp w1 = tw_resp w"
    using assms(3-5)
    by (auto simp: uds_action_upload_download_def transfer_exit_def uds_upload_download_reset_def
        uds_file_transfer_exit_def transfer_idle_def start_upload_def Let_def uploading_def not_less)
  from upload_requests_ok [OF assms(1,2) nw assms(6-8) start(2), of k] assms(9)
  obtain w2 where "upload_requests cfg ops mrl k w1 = Returns (replicate k UDS_OK) w2" "uploading ?a sz (unat sz) w2"
    "tw_resp w2 = tw_resp w @ map (rd (tw_flash w)) [unat ?a..<unat ?a + unat sz]"
    using start(3,4) by auto
  with start upload_done [of ?a sz w2 cfg ops mrl] show ?thesis by blast
qed

theorem upload_returns_image_witness:
  "\<exists>arg1 arg3 w1 w2.
    uds_action_upload_download demo_cfg demo_ops
      \<lparr>ctx_instance = 0, ctx_registration = Static 0, ctx_event = UDS_EVT_RequestUpload,
       ctx_arg = Arg_RequestUpload 0x08000010 10 100\<rparr> True demo_world = Returns (UDS_OK, True, arg1) w1 \<and>
    upload_requests demo_cfg demo_ops 4 3 w1 = Returns (replicate 3 UDS_OK) w2 \<and>
    tw_resp w2 = tw_resp demo_world @ map (tw_flash demo_world)
      [unat (normalize_addr demo_cfg 0x08000010)..<unat (normalize_addr demo_cfg 0x08000010) + unat (10 :: u32)] \<and>
    uds_action_upload_download demo_cfg demo_ops (transfer_data_ctx (Some []) 4 (Some Copy_lib)) True w2 =
      Returns (UDS_NRC_RequestSequenceError, True, arg3) w2"
proof (rule upload_returns_image [where rd = "\<lambda>f. f", OF _ demo_works(3)])
  show "flash_reads demo_ops (\<lambda>f. f) (unat (FLASH_MAX_SIZE demo_cfg))"
    using demo_works(7) by (simp add: demo_cfg_def)
  show "transfer_idle demo_world"
    by (simp add: demo_world_def transfer_start_def transfer_idle_def ud_init_def ft_init_def)
qed (simp_all add: demo_works, simp_all add: demo_cfg_def normalize_addr_def)

text \<open>
  While nothing is in progress, data and exit requests are refused with RequestSequenceError
  and leave the whole state as it is.
\<close>

theorem idle_transfer_refused:
  assumes "transfer_idle w" and "ctx_event ctx = UDS_EVT_TransferData \<and> ctx_arg ctx = Arg_TransferData d m c \<or>
    ctx_event ctx = UDS_EVT_RequestTransferExit"
  shows "uds_action_upload_download cfg ops ctx b w = Returns (UDS_NRC_RequestSequenceError, True, ctx_arg ctx) w"
  using assms
  by (auto simp: uds_action_upload_download_def uds_file_transfer_is_active_def transfer_idle_def transfer_exit_def
      uds_upload_download_reset_def uds_file_transfer_exit_def Let_def)

theorem idle_transfer_refused_witness:
  "uds_action_upload_download demo_cfg demo_ops (transfer_data_ctx (Some [1]) 0 None) True demo_world =
    Returns (UDS_NRC_RequestSequenceError, True, Arg_TransferData (Some [1]) 0 None) demo_world"
  using idle_transfer_refused [of demo_world "transfer_data_ctx (Some [1]) 0 None" "Some [1]" 0 None demo_cfg demo_ops True]
  by (simp add: transfer_data_ctx_def demo_world_def transfer_start_def transfer_idle_def ud_init_def ft_init_def)

text \<open>
  A request to read a file that can be opened, but whose directory entry cannot be read or is
  no regular file, is refused, and the file that was opened stays open: the file system is left as
  \<^verbatim>\<open>fs_open\<close> left it, and the service no longer knows that there is a file to close.
\<close>

theorem refused_read_leaves_file_open:
  assumes "transfer_inv w" and "transfer_idle w" and "fs_open ops path FS_O_READ (tw_fs w) = (Inr h, fs1)"
    and "\<forall>z. fs_stat ops path fs1 \<noteq> Inr (FS_DIR_ENTRY_FILE, z)"
  shows "\<exists>e w'. uds_file_transfer_begin_read cfg ops path mbl w = (e, mbl, w') \<and> e \<noteq> UDS_OK \<and>
    tw_fs w' = fs1 \<and> \<not> fts_file_open (tw_ft w')"
proof (cases "fs_stat ops path fs1")
  case (Inl e)
  have "fs_error_to_nrc e \<noteq> UDS_OK" by (cases e) simp_all
  then show ?thesis
    using Inl assms(1-3) transfer_idle_inv [OF assms(2)]
    by (simp add: uds_file_transfer_begin_read_def uds_file_transfer_reset_def Let_def)
next
  case (Inr p)
  then have "fst p \<noteq> FS_DIR_ENTRY_FILE" using assms(4) by (cases p) auto
  then show ?thesis
    using Inr assms(1-3) transfer_idle_inv [OF assms(2)]
    by (cases p) (simp add: uds_file_transfer_begin_read_def uds_file_transfer_reset_def Let_def)
qed

theorem refused_read_leaves_file_open_witness:
  "\<exists>e w'. uds_file_transfer_begin_read demo_cfg demo_ops ''a'' 0 demo_world = (e, 0, w') \<and> e \<noteq> UDS_OK \<and>
    tw_fs w' = () \<and> \<not> fts_file_open (tw_ft w')"
proof (rule refused_read_leaves_file_open)
  show "fs_open demo_ops ''a'' FS_O_READ (tw_fs demo_world) = (Inr (), ())" by (simp add: demo_ops_def)
  show "\<forall>z. fs_stat demo_ops ''a'' () \<noteq> Inr (FS_DIR_ENTRY_FILE, z)" by (simp add: demo_ops_def)
  show "transfer_inv demo_world" by (simp add: demo_world_def transfer_start_inv)
  show "transfer_idle demo_world"
    by (simp add: demo_world_def transfer_start_def transfer_idle_def ud_init_def ft_init_def)
qed

text \<open>
  The address of the flash itself is not accepted: a download request whose address is the
  flash base is not made relative to it, and is refused as out of range whenever the base plus the
  size does not lie below the size of the flash, although the range is the start of the flash.
\<close>

theorem download_at_flash_base_refused:
  assumes "flash_ready ops (tw_flash w)" and "sz \<noteq> 0"
    and "FLASH_BASE_ADDRESS cfg + sz > FLASH_MAX_SIZE cfg"
  shows "start_download cfg ops (FLASH_BASE_ADDRESS cfg) sz fmt w =
    (UDS_NRC_RequestOutOfRange, Arg_RequestDownload (FLASH_BASE_ADDRESS cfg) sz fmt, w)"
  using assms by (simp add: start_download_def normalize_addr_def)

theorem download_at_flash_base_refused_witness:
  "start_download demo_cfg demo_ops 0x08000000 16 0 demo_world =
    (UDS_NRC_RequestOutOfRange, Arg_RequestDownload 0x08000000 16 0, demo_world)"
  using download_at_flash_base_refused [of demo_ops demo_world 16 demo_cfg 0] demo_works(6) by (simp add: demo_cfg_def)

end
