(* ===== verification/Uds_Dddi.thy ===== *)
theory Uds_Dddi
  imports Uds_Core
begin

text \<open>
  \<^verbatim>\<open>lib/uds/dynamically_define_data_ids.c\<close>: data identifiers that are put together at run time from
  other data identifiers and memory ranges. The lists of the code are on the heap of the model, a
  node at its address, so that the order of allocations, the cleanup after a failed one and a
  second free of a node are what they are in the code. Reading such an identifier calls the event
  callback again; the callback is an argument here, and the server ties the knot.
\<close>

section \<open>The copy buffer\<close>

text \<open>
  What the file needs of the rest of the state: its static buffer, of which the model keeps the
  \<open>temp_buffer_len\<close> bytes in use, and the copy function of the package.
\<close>

record 'x dddi_env =
  temp_buffer :: "'x \<Rightarrow> u8 list"
  set_temp_buffer :: "u8 list \<Rightarrow> 'x \<Rightarrow> 'x"
  lib_copy :: "u8 list \<Rightarrow> 'x \<Rightarrow> UDSErr_t \<times> 'x"

definition uds_copy :: "'x dddi_env \<Rightarrow> u8 list \<Rightarrow> 'x \<Rightarrow> UDSErr_t \<times> 'x" where
  "uds_copy de src x =
     (if length src \<le> 256 - length (temp_buffer de x)
      then (UDS_PositiveResponse, set_temp_buffer de (temp_buffer de x @ src) x)
      else (UDS_NRC_ResponseTooLong, x))"

text \<open>A call through the \<^verbatim>\<open>copy\<close> pointer of an argument structure.\<close>

definition call_copy ::
  "'x dddi_env \<Rightarrow> copy_fn \<Rightarrow> u8 list \<Rightarrow> ('u, 'x) uds_world \<Rightarrow> (UDSErr_t, ('u, 'x) uds_world) outcome" where
  "call_copy de c src w =
     (case (case c of Copy_lib \<Rightarrow> lib_copy de src (env w) | Copy_uds_copy \<Rightarrow> uds_copy de src (env w)) of
        (r, x) \<Rightarrow> Returns r (w\<lparr>env := x\<rparr>))"

section \<open>Reading a dynamic identifier\<close>

definition uds_check_default_dynamically_define_data_ids ::
  "uds_context \<Rightarrow> bool \<Rightarrow> 'w \<Rightarrow> (UDSErr_t \<times> bool, 'w) outcome" where
  "uds_check_default_dynamically_define_data_ids ctx apply_action w =
     (case ctx_arg ctx of
        Arg_DDDI ty _ _ _ \<Rightarrow>
          Returns (UDS_OK,
            if ty = dddi_val UDS_DYNAMICALLY_DEFINED_DATA_IDS__DEFINE_BY_DATA_ID \<or>
               ty = dddi_val UDS_DYNAMICALLY_DEFINED_DATA_IDS__DEFINE_BY_MEMORY_ADDRESS \<or>
               ty = dddi_val UDS_DYNAMICALLY_DEFINED_DATA_IDS__CLEAR
            then True else apply_action) w
      | _ \<Rightarrow> Undefined)"

definition uds_dynamic_data_by_id_read_data_by_id_check ::
  "uds_context \<Rightarrow> bool \<Rightarrow> ('u, 'x) uds_world \<Rightarrow> (UDSErr_t \<times> bool, ('u, 'x) uds_world) outcome" where
  "uds_dynamic_data_by_id_read_data_by_id_check ctx apply_action w =
     (case (ctx_arg ctx, map_option reg_data (deref_reg w (ctx_registration ctx))) of
        (Arg_RDBI dataId _, Some (Reg_data_identifier _ _ data_id _ _ _)) \<Rightarrow>
          Returns (UDS_OK, if data_id = dataId then True else apply_action) w
      | _ \<Rightarrow> Undefined)"

type_synonym ('u, 'x) event_callback =
  "inst \<Rightarrow> UDSEvent_t \<Rightarrow> uds_arg \<Rightarrow> ('u, 'x) uds_world \<Rightarrow> (UDSErr_t \<times> uds_arg, ('u, 'x) uds_world) outcome"

text \<open>One item; \<open>None\<close> goes on with the loop, \<open>Some e\<close> returns \<open>e\<close> from the action.\<close>

fun read_item ::
  "'x dddi_env \<Rightarrow> ('u, 'x) event_callback \<Rightarrow> inst \<Rightarrow> copy_fn \<Rightarrow> uds_dynamically_defined_data \<Rightarrow>
   ('u, 'x) uds_world \<Rightarrow> (UDSErr_t option, ('u, 'x) uds_world) outcome" where
  "read_item de cb i copy (Data_id did pos sz) w =
     obind (cb i UDS_EVT_ReadDataByIdent (Arg_RDBI did Copy_uds_copy) (w\<lparr>env := set_temp_buffer de [] (env w)\<rparr>))
       (\<lambda>(ret, _) w1.
          if ret \<noteq> UDS_PositiveResponse then Returns (Some ret) w1
          else if unat pos + unat sz > length (temp_buffer de (env w1)) then Returns (Some UDS_NRC_GeneralReject) w1
          else
            obind (call_copy de copy (take (unat sz) (drop (unat pos) (temp_buffer de (env w1)))) w1)
              (\<lambda>ret w2. if ret \<noteq> UDS_OK then Returns (Some ret) w2 else Returns None w2))"
| "read_item de cb i copy (Data_memory memAddr memSize) w =
     obind (cb i UDS_EVT_ReadMemByAddr (Arg_ReadMem memAddr memSize copy) w)
       (\<lambda>(ret, _) w1. if ret \<noteq> UDS_PositiveResponse then Returns (Some ret) w1 else Returns None w1)"

text \<open>The loop over the items of the list at address \<open>l\<close>; the next node is read after the body.\<close>

fun read_items ::
  "'x dddi_env \<Rightarrow> ('u, 'x) event_callback \<Rightarrow> inst \<Rightarrow> copy_fn \<Rightarrow> addr \<Rightarrow> nat \<Rightarrow> addr option \<Rightarrow>
   ('u, 'x) uds_world \<Rightarrow> (UDSErr_t option, ('u, 'x) uds_world) outcome" where
  "read_items de cb i copy l fuel None w = Returns None w"
| "read_items de cb i copy l 0 (Some a) w = NoFuel"
| "read_items de cb i copy l (Suc fuel) (Some a) w =
     (case heap w a of
        Some (Cell_data d) \<Rightarrow>
          obind (read_item de cb i copy d w)
            (\<lambda>r w1.
               case r of
                 Some e \<Rightarrow> Returns (Some e) w1
               | None \<Rightarrow>
                   (case (heap w1 l, heap w1 a) of
                      (Some (Cell_slist xs), Some _) \<Rightarrow> read_items de cb i copy l fuel (next_in xs a) w1
                    | _ \<Rightarrow> Undefined))
      | _ \<Rightarrow> Undefined)"

definition uds_dynamic_data_by_id_read_data_by_id_action ::
  "'x dddi_env \<Rightarrow> ('u, 'x) event_callback \<Rightarrow> nat \<Rightarrow> uds_context \<Rightarrow> bool \<Rightarrow> ('u, 'x) uds_world \<Rightarrow>
   (UDSErr_t \<times> bool \<times> uds_arg, ('u, 'x) uds_world) outcome" where
  "uds_dynamic_data_by_id_read_data_by_id_action de cb fuel ctx consume_event w =
     (case (ctx_arg ctx, map_option reg_data (deref_reg w (ctx_registration ctx))) of
        (Arg_RDBI _ copy, Some (Reg_data_identifier _ (Some l) _ _ _ _)) \<Rightarrow>
          (case heap w l of
             Some (Cell_slist xs) \<Rightarrow>
               obind (read_items de cb (ctx_instance ctx) copy l fuel (head_of xs) w)
                 (\<lambda>r w1. case r of
                     Some e \<Rightarrow> Returns (e, consume_event, ctx_arg ctx) w1
                   | None \<Rightarrow> Returns (UDS_OK, True, ctx_arg ctx) w1)
           | _ \<Rightarrow> Undefined)
      | _ \<Rightarrow> Undefined)"

section \<open>Freeing and appending\<close>

fun free_all :: "addr list \<Rightarrow> ('u, 'x) uds_world \<Rightarrow> (unit, ('u, 'x) uds_world) outcome" where
  "free_all [] w = Returns () w"
| "free_all (a # as) w = obind (k_free a w) (\<lambda>_ w1. free_all as w1)"

definition uds_unregister_dynamic_identifier ::
  "addr \<Rightarrow> ('u, 'x) uds_world \<Rightarrow> (c_int, ('u, 'x) uds_world) outcome" where
  "uds_unregister_dynamic_identifier this w =
     (case map_option reg_data (deref_reg w (Dynamic this)) of
        Some (Reg_data_identifier _ (Some l) _ _ _ _) \<Rightarrow>
          (case heap w l of
             Some (Cell_slist xs) \<Rightarrow> obind (free_all xs w) (\<lambda>_ w1. obind (k_free l w1) (\<lambda>_ w2. Returns rc0 w2))
           | _ \<Rightarrow> Undefined)
      | _ \<Rightarrow> Undefined)"

text \<open>\<open>SYS_SLIST_FOR_EACH_NODE_SAFE\<close> with a removal of the node at the head and its free.\<close>

definition clear_data_list :: "addr \<Rightarrow> ('u, 'x) uds_world \<Rightarrow> (unit, ('u, 'x) uds_world) outcome" where
  "clear_data_list l w =
     (case heap w l of
        Some (Cell_slist xs) \<Rightarrow> free_all xs (w\<lparr>heap := (heap w)(l \<mapsto> Cell_slist [])\<rparr>)
      | _ \<Rightarrow> Undefined)"

definition append_data ::
  "uds_dynamically_defined_data \<Rightarrow> addr \<Rightarrow> ('u, 'x) uds_world \<Rightarrow> (UDSErr_t, ('u, 'x) uds_world) outcome" where
  "append_data d data_list w =
     (case k_malloc (Cell_data d) w of
        (None, w1) \<Rightarrow> obind (clear_data_list data_list w1) (\<lambda>_ w2. Returns UDS_NRC_GeneralReject w2)
      | (Some a, w1) \<Rightarrow>
          (case heap w1 data_list of
             Some (Cell_slist xs) \<Rightarrow> Returns UDS_OK (w1\<lparr>heap := (heap w1)(data_list \<mapsto> Cell_slist (xs @ [a]))\<rparr>)
           | _ \<Rightarrow> Undefined))"

definition uds_append_dynamic_data_identifiers_to_registration ::
  "uds_arg \<Rightarrow> addr \<Rightarrow> ('u, 'x) uds_world \<Rightarrow> (UDSErr_t, ('u, 'x) uds_world) outcome" where
  "uds_append_dynamic_data_identifiers_to_registration args data_list w =
     (case args of
        Arg_DDDI _ _ _ (DDDI_by_id did pos sz) \<Rightarrow> append_data (Data_id did pos sz) data_list w
      | _ \<Rightarrow> Undefined)"

definition uds_append_dynamic_memory_addresses_to_registration ::
  "uds_arg \<Rightarrow> addr \<Rightarrow> ('u, 'x) uds_world \<Rightarrow> (UDSErr_t, ('u, 'x) uds_world) outcome" where
  "uds_append_dynamic_memory_addresses_to_registration args data_list w =
     (case args of
        Arg_DDDI _ _ _ (DDDI_by_mem memAddr memSize) \<Rightarrow> append_data (Data_memory memAddr memSize) data_list w
      | _ \<Rightarrow> Undefined)"

section \<open>Defining an identifier\<close>

text \<open>
  Whether one of the items at some addresses remembers an id; the search stops at the first that
  does. \<open>None\<close> if it meets an item that is not live.
\<close>

fun remembers :: "('u, 'x) uds_world \<Rightarrow> u32 \<Rightarrow> addr list \<Rightarrow> bool option" where
  "remembers w n [] = Some False"
| "remembers w n (a # as) =
     (case heap w a of
        Some (Cell_reg_id m) \<Rightarrow> if m = n then Some True else remembers w n as
      | _ \<Rightarrow> None)"

text \<open>The list of dynamic registration ids of a handler, and its replacement.\<close>

definition id_list_of :: "('u, 'x) uds_world \<Rightarrow> reg_ref \<Rightarrow> addr list option" where
  "id_list_of w ref =
     (case map_option reg_data (deref_reg w ref) of
        Some (Reg_dynamically_define_data_ids _ xs _) \<Rightarrow> Some xs
      | _ \<Rightarrow> None)"

fun set_id_list_reg :: "addr list \<Rightarrow> 'u uds_registration_t \<Rightarrow> 'u uds_registration_t" where
  "set_id_list_reg xs r =
     (case reg_data r of
        Reg_dynamically_define_data_ids u _ actor \<Rightarrow> r\<lparr>reg_data := Reg_dynamically_define_data_ids u xs actor\<rparr>
      | _ \<Rightarrow> r)"

fun set_id_list :: "reg_ref \<Rightarrow> addr list \<Rightarrow> ('u, 'x) uds_world \<Rightarrow> ('u, 'x) uds_world" where
  "set_id_list (Static n) xs w = w\<lparr>static_regs := (static_regs w)[n := set_id_list_reg xs (static_regs w ! n)]\<rparr>"
| "set_id_list (Dynamic a) xs w =
     (case heap w a of
        Some (Cell_reg r) \<Rightarrow> w\<lparr>heap := (heap w)(a \<mapsto> Cell_reg (set_id_list_reg xs r))\<rparr>
      | _ \<Rightarrow> w)"

fun find_registration ::
  "u16 \<Rightarrow> addr list \<Rightarrow> addr list \<Rightarrow> ('u, 'x) uds_world \<Rightarrow> (addr option, ('u, 'x) uds_world) outcome" where
  "find_registration data_id items [] w = Returns None w"
| "find_registration data_id items (a # as) w =
     (case deref_reg w (Dynamic a) of
        None \<Rightarrow> Undefined
      | Some r \<Rightarrow>
          (case reg_data r of
             Reg_data_identifier _ _ did _ _ _ \<Rightarrow>
               if did = data_id then
                 (case remembers w (reg_dynamic_id r) items of
                    None \<Rightarrow> Undefined
                  | Some b \<Rightarrow> if b then Returns (Some a) w else find_registration data_id items as w)
               else find_registration data_id items as w
           | _ \<Rightarrow> find_registration data_id items as w))"

definition uds_find_existing_registration_by_data_id ::
  "uds_context \<Rightarrow> u16 \<Rightarrow> ('u, 'x) uds_world \<Rightarrow> (addr option, ('u, 'x) uds_world) outcome" where
  "uds_find_existing_registration_by_data_id ctx data_id w =
     (case id_list_of w (ctx_registration ctx) of
        None \<Rightarrow> Undefined
      | Some items \<Rightarrow> find_registration data_id items (dyn_regs w (ctx_instance ctx)) w)"

definition dynamic_identifier_reg :: "inst \<Rightarrow> u16 \<Rightarrow> addr \<Rightarrow> 'u uds_registration_t" where
  "dynamic_identifier_reg i data_id data_list =
     \<lparr>reg_instance = Some i,
      reg_data = Reg_data_identifier None (Some data_list) data_id
        \<lparr>act_check = Some Fn_dynamic_data_by_id_read_check, act_action = Some Fn_dynamic_data_by_id_read_action\<rparr>
        \<lparr>act_check = None, act_action = None\<rparr> \<lparr>act_check = None, act_action = None\<rparr>,
      reg_dynamic_id = 0, reg_unregister_fn = Some Fn_unregister_dynamic_identifier\<rparr>"

text \<open>\<open>None\<close> stands for the negative returns; the caller treats them alike.\<close>

definition uds_create_new_data_identifier_by_id ::
  "uds_context \<Rightarrow> u16 \<Rightarrow> ('u, 'x) uds_world \<Rightarrow> ((addr \<times> addr) option, ('u, 'x) uds_world) outcome" where
  "uds_create_new_data_identifier_by_id ctx data_id w =
     (case k_malloc (Cell_slist []) w of
        (None, w1) \<Rightarrow> Returns None w1
      | (Some l, w1) \<Rightarrow>
          (case k_malloc (Cell_reg (dynamic_identifier_reg (ctx_instance ctx) data_id l)) w1 of
             (None, w2) \<Rightarrow> obind (k_free l w2) (\<lambda>_ w3. Returns None w3)
           | (Some tmp, w2) \<Rightarrow> Returns (Some (l, tmp)) w2))"

definition uds_register_new_data_by_id_item ::
  "('u, 'x) unregister_sem \<Rightarrow> uds_context \<Rightarrow> addr \<Rightarrow> ('u, 'x) uds_world \<Rightarrow> (UDSErr_t, ('u, 'x) uds_world) outcome" where
  "uds_register_new_data_by_id_item un ctx tmp w =
     (case deref_reg w (Dynamic tmp) of
        None \<Rightarrow> Undefined
      | Some reg \<Rightarrow>
          obind (uds_register_event_handler (ctx_instance ctx) reg w)
            (\<lambda>r w1. case r of
               Inl e \<Rightarrow> Returns (UDS_errno e) w1
             | Inr (dynamic_id, _) \<Rightarrow>
                 (case k_malloc (Cell_reg_id dynamic_id) w1 of
                    (None, w2) \<Rightarrow>
                      obind (uds_unregister_event_handler un (ctx_instance ctx) dynamic_id w2)
                        (\<lambda>_ w3. Returns UDS_NRC_GeneralReject w3)
                  | (Some item, w2) \<Rightarrow>
                      (case id_list_of w2 (ctx_registration ctx) of
                         None \<Rightarrow> Undefined
                       | Some xs \<Rightarrow>
                           obind (k_free tmp (set_id_list (ctx_registration ctx) (xs @ [item]) w2))
                             (\<lambda>_ w3. Returns UDS_OK w3)))))"

text \<open>
  The two functions that add an item differ in the append function they call (\<open>app\<close>). The data list
  is that of the registration found or created; of the latter, \<open>tmp\<close> is the temporary copy.
\<close>

definition add_new_id ::
  "('u, 'x) unregister_sem \<Rightarrow> (uds_arg \<Rightarrow> addr \<Rightarrow> ('u, 'x) uds_world \<Rightarrow> (UDSErr_t, ('u, 'x) uds_world) outcome) \<Rightarrow>
   uds_context \<Rightarrow> bool \<Rightarrow> ('u, 'x) uds_world \<Rightarrow> (UDSErr_t \<times> bool, ('u, 'x) uds_world) outcome" where
  "add_new_id un app ctx consume_event w =
     obind (uds_find_existing_registration_by_data_id ctx (dddi_dynamicDataId (ctx_arg ctx)) w)
       (\<lambda>existing w1. case existing of
          Some a \<Rightarrow>
            (case map_option reg_data (deref_reg w1 (Dynamic a)) of
               Some (Reg_data_identifier _ (Some l) _ _ _ _) \<Rightarrow>
                 obind (app (ctx_arg ctx) l w1)
                   (\<lambda>ret w2. if ret \<noteq> UDS_OK then Returns (ret, consume_event) w2 else Returns (UDS_OK, True) w2)
             | _ \<Rightarrow> Undefined)
        | None \<Rightarrow>
            obind (uds_create_new_data_identifier_by_id ctx (dddi_dynamicDataId (ctx_arg ctx)) w1)
              (\<lambda>created w2. case created of
                 None \<Rightarrow> Returns (UDS_NRC_GeneralReject, consume_event) w2
               | Some (l, tmp) \<Rightarrow>
                   obind (app (ctx_arg ctx) l w2)
                     (\<lambda>ret w3.
                        if ret \<noteq> UDS_OK
                        then obind (k_free l w3) (\<lambda>_ w4. obind (k_free tmp w4) (\<lambda>_ w5. Returns (ret, consume_event) w5))
                        else
                          obind (uds_register_new_data_by_id_item un ctx tmp w3)
                            (\<lambda>ret w4.
                               if ret \<noteq> UDS_OK
                               then obind (clear_data_list l w4)
                                      (\<lambda>_ w5. obind (k_free l w5)
                                         (\<lambda>_ w6. obind (k_free tmp w6) (\<lambda>_ w7. Returns (ret, consume_event) w7)))
                               else Returns (UDS_OK, True) w4))))"

definition uds_dynamicallY_define_data_by_id_add_new_id ::
  "('u, 'x) unregister_sem \<Rightarrow> uds_context \<Rightarrow> bool \<Rightarrow> ('u, 'x) uds_world \<Rightarrow>
   (UDSErr_t \<times> bool, ('u, 'x) uds_world) outcome" where
  "uds_dynamicallY_define_data_by_id_add_new_id un ctx consume_event w =
     add_new_id un uds_append_dynamic_data_identifiers_to_registration ctx consume_event w"

definition uds_dynamicallY_define_data_by_memory_address_add_new_id ::
  "('u, 'x) unregister_sem \<Rightarrow> uds_context \<Rightarrow> bool \<Rightarrow> ('u, 'x) uds_world \<Rightarrow>
   (UDSErr_t \<times> bool, ('u, 'x) uds_world) outcome" where
  "uds_dynamicallY_define_data_by_memory_address_add_new_id un ctx consume_event w =
     add_new_id un uds_append_dynamic_memory_addresses_to_registration ctx consume_event w"

section \<open>Clearing identifiers\<close>

text \<open>The first dynamic registration with a data id.\<close>

fun find_by_data_id ::
  "u16 \<Rightarrow> addr list \<Rightarrow> ('u, 'x) uds_world \<Rightarrow> (u32 option, ('u, 'x) uds_world) outcome" where
  "find_by_data_id data_id [] w = Returns None w"
| "find_by_data_id data_id (a # as) w =
     (case deref_reg w (Dynamic a) of
        None \<Rightarrow> Undefined
      | Some r \<Rightarrow>
          (case reg_data r of
             Reg_data_identifier _ _ did _ _ _ \<Rightarrow>
               if did = data_id then Returns (Some (reg_dynamic_id r)) w else find_by_data_id data_id as w
           | _ \<Rightarrow> find_by_data_id data_id as w))"

text \<open>
  The loops over the remembered ids of one handler (\<open>SAFE\<close>): items that satisfy \<open>P\<close> are unlinked
  and freed.
\<close>

fun purge_items ::
  "(u32 \<Rightarrow> bool) \<Rightarrow> reg_ref \<Rightarrow> addr list \<Rightarrow> ('u, 'x) uds_world \<Rightarrow> (unit, ('u, 'x) uds_world) outcome" where
  "purge_items P ref [] w = Returns () w"
| "purge_items P ref (a # as) w =
     (case heap w a of
        Some (Cell_reg_id n) \<Rightarrow>
          if P n then
            (case id_list_of w ref of
               None \<Rightarrow> Undefined
             | Some xs \<Rightarrow> obind (k_free a (set_id_list ref (slist_remove a xs) w)) (\<lambda>_ w1. purge_items P ref as w1))
          else purge_items P ref as w
      | _ \<Rightarrow> Undefined)"

definition purge_handler ::
  "(u32 \<Rightarrow> bool) \<Rightarrow> reg_ref \<Rightarrow> ('u, 'x) uds_world \<Rightarrow> (unit, ('u, 'x) uds_world) outcome" where
  "purge_handler P ref w =
     (case deref_reg w ref of
        None \<Rightarrow> Undefined
      | Some _ \<Rightarrow> (case id_list_of w ref of None \<Rightarrow> Returns () w | Some xs \<Rightarrow> purge_items P ref xs w))"

fun purge_handlers ::
  "(u32 \<Rightarrow> bool) \<Rightarrow> reg_ref list \<Rightarrow> ('u, 'x) uds_world \<Rightarrow> (unit, ('u, 'x) uds_world) outcome" where
  "purge_handlers P [] w = Returns () w"
| "purge_handlers P (ref # refs) w = obind (purge_handler P ref w) (\<lambda>_ w1. purge_handlers P refs w1)"

definition uds_dynamicallY_define_data_by_id_remove_single_id ::
  "('u, 'x) unregister_sem \<Rightarrow> inst \<Rightarrow> u16 \<Rightarrow> ('u, 'x) uds_world \<Rightarrow> (unit, ('u, 'x) uds_world) outcome" where
  "uds_dynamicallY_define_data_by_id_remove_single_id un i data_id w =
     obind (find_by_data_id data_id (dyn_regs w i) w)
       (\<lambda>found w1.
          obind (case found of
                   None \<Rightarrow> Returns 0 w1
                 | Some n \<Rightarrow> obind (uds_unregister_event_handler un i n w1) (\<lambda>_ w2. Returns n w2))
            (\<lambda>n w2.
               obind (purge_handlers (\<lambda>m. m = n) (map Static [0..<length (static_regs w2)]) w2)
                 (\<lambda>_ w3. purge_handlers (\<lambda>m. m = n) (map Dynamic (dyn_regs w3 i)) w3)))"

text \<open>Unregister every id that one handler remembers; the return of unregistering is only logged.\<close>

fun unregister_items ::
  "('u, 'x) unregister_sem \<Rightarrow> inst \<Rightarrow> addr list \<Rightarrow> ('u, 'x) uds_world \<Rightarrow> (unit, ('u, 'x) uds_world) outcome" where
  "unregister_items un i [] w = Returns () w"
| "unregister_items un i (a # as) w =
     (case heap w a of
        Some (Cell_reg_id n) \<Rightarrow>
          obind (uds_unregister_event_handler un i n w) (\<lambda>_ w1. unregister_items un i as w1)
      | _ \<Rightarrow> Undefined)"

definition unregister_ids_of ::
  "('u, 'x) unregister_sem \<Rightarrow> inst \<Rightarrow> reg_ref \<Rightarrow> ('u, 'x) uds_world \<Rightarrow> (unit, ('u, 'x) uds_world) outcome" where
  "unregister_ids_of un i ref w =
     (case deref_reg w ref of
        None \<Rightarrow> Undefined
      | Some _ \<Rightarrow> (case id_list_of w ref of None \<Rightarrow> Returns () w | Some xs \<Rightarrow> unregister_items un i xs w))"

fun unregister_static ::
  "('u, 'x) unregister_sem \<Rightarrow> inst \<Rightarrow> nat list \<Rightarrow> ('u, 'x) uds_world \<Rightarrow> (unit, ('u, 'x) uds_world) outcome" where
  "unregister_static un i [] w = Returns () w"
| "unregister_static un i (n # ns) w =
     obind (unregister_ids_of un i (Static n) w) (\<lambda>_ w1. unregister_static un i ns w1)"

text \<open>The dynamic list changes while it is walked: the next node is read after the body.\<close>

fun unregister_dynamic ::
  "('u, 'x) unregister_sem \<Rightarrow> inst \<Rightarrow> nat \<Rightarrow> addr option \<Rightarrow> ('u, 'x) uds_world \<Rightarrow> (unit, ('u, 'x) uds_world) outcome" where
  "unregister_dynamic un i fuel None w = Returns () w"
| "unregister_dynamic un i 0 (Some a) w = NoFuel"
| "unregister_dynamic un i (Suc fuel) (Some a) w =
     obind (unregister_ids_of un i (Dynamic a) w)
       (\<lambda>_ w1. if heap w1 a = None then Undefined
               else unregister_dynamic un i fuel (next_in (dyn_regs w1 i) a) w1)"

definition uds_dynamicallY_define_data_by_id_remove_all_ids ::
  "('u, 'x) unregister_sem \<Rightarrow> inst \<Rightarrow> ('u, 'x) uds_world \<Rightarrow> (unit, ('u, 'x) uds_world) outcome" where
  "uds_dynamicallY_define_data_by_id_remove_all_ids un i w =
     obind (unregister_static un i [0..<length (static_regs w)] w)
       (\<lambda>_ w1. obind (unregister_dynamic un i (length (dyn_regs w1 i)) (head_of (dyn_regs w1 i)) w1)
         (\<lambda>_ w2. obind (purge_handlers (\<lambda>_. True) (map Static [0..<length (static_regs w2)]) w2)
           (\<lambda>_ w3. purge_handlers (\<lambda>_. True) (map Dynamic (dyn_regs w3 i)) w3)))"

definition uds_dynamicallY_define_data_by_id_remove_ids ::
  "('u, 'x) unregister_sem \<Rightarrow> uds_context \<Rightarrow> bool \<Rightarrow> ('u, 'x) uds_world \<Rightarrow>
   (UDSErr_t \<times> bool, ('u, 'x) uds_world) outcome" where
  "uds_dynamicallY_define_data_by_id_remove_ids un ctx consume_event w =
     obind (if dddi_allDataIds (ctx_arg ctx)
            then uds_dynamicallY_define_data_by_id_remove_all_ids un (ctx_instance ctx) w
            else uds_dynamicallY_define_data_by_id_remove_single_id un (ctx_instance ctx)
                   (dddi_dynamicDataId (ctx_arg ctx)) w)
       (\<lambda>_ w1. Returns (UDS_OK, True) w1)"

definition uds_action_default_dynamically_define_data_ids ::
  "('u, 'x) unregister_sem \<Rightarrow> uds_context \<Rightarrow> bool \<Rightarrow> ('u, 'x) uds_world \<Rightarrow>
   (UDSErr_t \<times> bool \<times> uds_arg, ('u, 'x) uds_world) outcome" where
  "uds_action_default_dynamically_define_data_ids un ctx consume_event w =
     (case ctx_arg ctx of
        Arg_DDDI ty _ _ _ \<Rightarrow>
          obind
            (if ty = dddi_val UDS_DYNAMICALLY_DEFINED_DATA_IDS__DEFINE_BY_DATA_ID
             then uds_dynamicallY_define_data_by_id_add_new_id un ctx consume_event w
             else if ty = dddi_val UDS_DYNAMICALLY_DEFINED_DATA_IDS__DEFINE_BY_MEMORY_ADDRESS
             then uds_dynamicallY_define_data_by_memory_address_add_new_id un ctx consume_event w
             else if ty = dddi_val UDS_DYNAMICALLY_DEFINED_DATA_IDS__CLEAR
             then uds_dynamicallY_define_data_by_id_remove_ids un ctx consume_event w
             else Returns (UDS_NRC_SubFunctionNotSupported, consume_event) w)
            (\<lambda>(r, c) w1. Returns (r, c, ctx_arg ctx) w1)
      | _ \<Rightarrow> Undefined)"

section \<open>Lemmas: allocation and the states in between\<close>

text \<open>The meaning of the unregister callbacks: the library's own, and those of the application.\<close>

fun run_unregister :: "('u \<Rightarrow> addr \<Rightarrow> ('u, 'x) uds_world \<Rightarrow> (c_int, ('u, 'x) uds_world) outcome) \<Rightarrow>
    ('u, 'x) unregister_sem" where
  "run_unregister user Fn_unregister_dynamic_identifier a w = uds_unregister_dynamic_identifier a w"
| "run_unregister user (Unregister_user f) a w = user f a w"

text \<open>No address at or above the allocation counter is in use.\<close>

definition heap_fresh :: "('u, 'x) uds_world \<Rightarrow> bool" where
  "heap_fresh w \<longleftrightarrow> (\<forall>a \<ge> malloc_cnt w. heap w a = None)"

lemma uds_wf_heap_fresh: "uds_wf w \<Longrightarrow> heap_fresh w"
  unfolding uds_wf_def heap_fresh_def by (metis linorder_not_less)

text \<open>More objects at fresh addresses keep the invariant of the registrations.\<close>

lemma uds_wf_extend:
  assumes "uds_wf w" and "\<And>a. a < malloc_cnt w \<Longrightarrow> h a = heap w a" and "\<And>a. h a \<noteq> None \<Longrightarrow> a < m"
  shows "uds_wf (w\<lparr>heap := h, malloc_cnt := m\<rparr>)"
    and "map (dyn_id (w\<lparr>heap := h, malloc_cnt := m\<rparr>)) (dyn_regs w i) = map (dyn_id w) (dyn_regs w i)"
proof -
  have same: "dyn_id (w\<lparr>heap := h, malloc_cnt := m\<rparr>) a = dyn_id w a" if "a \<in> set (dyn_regs w j)" for a j
    using assms(2) [OF uds_wf_fresh [OF assms(1) that]] by (simp add: dyn_id_def)
  then have ids: "map (dyn_id (w\<lparr>heap := h, malloc_cnt := m\<rparr>)) (dyn_regs w j) = map (dyn_id w) (dyn_regs w j)" for j
    by (intro map_cong) auto
  then show "map (dyn_id (w\<lparr>heap := h, malloc_cnt := m\<rparr>)) (dyn_regs w i) = map (dyn_id w) (dyn_regs w i)" .
  show "uds_wf (w\<lparr>heap := h, malloc_cnt := m\<rparr>)"
    using assms(1,3) by (simp add: uds_wf_def ids del: set_map list.set_map)
qed

text \<open>The dynamic registrations of an instance that define a data id.\<close>

definition has_data_id :: "('u, 'x) uds_world \<Rightarrow> u16 \<Rightarrow> addr \<Rightarrow> bool" where
  "has_data_id w did a \<longleftrightarrow>
     (\<exists>r u d rd wr io. deref_reg w (Dynamic a) = Some r \<and> reg_data r = Reg_data_identifier u d did rd wr io)"

definition defines_id :: "('u, 'x) uds_world \<Rightarrow> inst \<Rightarrow> u16 \<Rightarrow> bool" where
  "defines_id w i did \<longleftrightarrow> (\<exists>a \<in> set (dyn_regs w i). has_data_id w did a)"

lemma no_data_id:
  assumes "dyn_id w a \<noteq> 0" and "\<not> has_data_id w did a"
  obtains r where "deref_reg w (Dynamic a) = Some r" and "\<And>u d rd wr io. reg_data r \<noteq> Reg_data_identifier u d did rd wr io"
  using assms dyn_id_deref [of w a] by (auto simp: has_data_id_def simp del: deref_reg.simps)

lemma find_registration_none:
  "\<forall>a \<in> set as. dyn_id w a \<noteq> 0 \<and> \<not> has_data_id w did a \<Longrightarrow> find_registration did items as w = Returns None w"
proof (induction as)
  case (Cons a as)
  then obtain r where "deref_reg w (Dynamic a) = Some r" "\<And>u d rd wr io. reg_data r \<noteq> Reg_data_identifier u d did rd wr io"
    using no_data_id [of w a did] by auto
  with Cons show ?case by (auto split: uds_registration_data.splits simp del: deref_reg.simps)
qed simp

lemma find_by_data_id_append:
  "\<forall>a \<in> set as. dyn_id w a \<noteq> 0 \<and> \<not> has_data_id w did a \<Longrightarrow>
   find_by_data_id did (as @ bs) w = find_by_data_id did bs w"
proof (induction as)
  case (Cons a as)
  then obtain r where "deref_reg w (Dynamic a) = Some r" "\<And>u d rd wr io. reg_data r \<noteq> Reg_data_identifier u d did rd wr io"
    using no_data_id [of w a did] by auto
  with Cons show ?case by (auto split: uds_registration_data.splits simp del: deref_reg.simps)
qed simp

text \<open>
  The state after the first definition of a data id: the data list at \<open>n\<close> with one item at
  \<open>n + 2\<close>, the registration at \<open>n + 3\<close>, and the item that remembers its id at \<open>n + 4\<close>. The
  temporary registration at \<open>n + 1\<close> is gone.
\<close>

definition dddi_reg :: "inst \<Rightarrow> u16 \<Rightarrow> addr \<Rightarrow> u32 \<Rightarrow> 'u uds_registration_t" where
  "dddi_reg i did l k = (dynamic_identifier_reg i did l)\<lparr>reg_instance := Some i, reg_dynamic_id := k\<rparr>"

definition defined_heap ::
  "inst \<Rightarrow> u16 \<Rightarrow> uds_dynamically_defined_data \<Rightarrow> u32 \<Rightarrow> nat \<Rightarrow> (addr \<rightharpoonup> 'u heap_cell) \<Rightarrow> addr \<rightharpoonup> 'u heap_cell" where
  "defined_heap i did d k n h =
     h(n \<mapsto> Cell_slist [n + 2], n + 2 \<mapsto> Cell_data d, n + 3 \<mapsto> Cell_reg (dddi_reg i did n k), n + 4 \<mapsto> Cell_reg_id k)"

definition defined_world ::
  "inst \<Rightarrow> nat \<Rightarrow> u16 \<Rightarrow> uds_dynamically_defined_data \<Rightarrow> addr list \<Rightarrow> u32 \<Rightarrow> ('u, 'x) uds_world \<Rightarrow> ('u, 'x) uds_world" where
  "defined_world i s did d xs k w =
     w\<lparr>static_regs := (static_regs w)[s := set_id_list_reg (xs @ [malloc_cnt w + 4]) (static_regs w ! s)],
       heap := defined_heap i did d k (malloc_cnt w) (heap w), malloc_cnt := malloc_cnt w + 5,
       dyn_regs := (dyn_regs w)(i := dyn_regs w i @ [malloc_cnt w + 3])\<rparr>"

text \<open>What the handler needs: it is a static handler \<open>s\<close>, and its instance has a free id \<open>k\<close>.\<close>

definition dddi_ready :: "('u, 'x) uds_world \<Rightarrow> inst \<Rightarrow> nat \<Rightarrow> u16 \<Rightarrow> addr list \<Rightarrow> u32 \<Rightarrow> bool" where
  "dddi_ready w i s did xs k \<longleftrightarrow>
     uds_wf w \<and> \<not> defines_id w i did \<and> id_list_of w (Static s) = Some xs \<and>
     k = find_next_from (map (dyn_id w) (dyn_regs w i)) 1 \<and> k \<noteq> 0"

lemma find_existing_none:
  assumes "dddi_ready w i s did xs k" and "ctx_instance ctx = i" and "ctx_registration ctx = Static s"
  shows "uds_find_existing_registration_by_data_id ctx did w = Returns None w"
proof -
  have wf: "uds_wf w" and nd: "\<not> defines_id w i did" and l: "id_list_of w (Static s) = Some xs"
    using assms(1) by (simp_all add: dddi_ready_def)
  have "find_registration did xs (dyn_regs w i) w = Returns None w"
    using nd uds_wf_ids(2) [OF wf] by (intro find_registration_none) (auto simp: defines_id_def)
  then show ?thesis using l assms(2,3) by (simp add: uds_find_existing_registration_by_data_id_def)
qed

text \<open>
  The state in which the registration of a new identifier starts: data list, temporary
  registration and first item are allocated.
\<close>

definition prepared_world ::
  "inst \<Rightarrow> u16 \<Rightarrow> uds_dynamically_defined_data \<Rightarrow> ('u, 'x) uds_world \<Rightarrow> ('u, 'x) uds_world" where
  "prepared_world i did d w =
     w\<lparr>heap := (heap w)(malloc_cnt w \<mapsto> Cell_slist [malloc_cnt w + 2],
                  malloc_cnt w + 1 \<mapsto> Cell_reg (dynamic_identifier_reg i did (malloc_cnt w)),
                  malloc_cnt w + 2 \<mapsto> Cell_data d),
       malloc_cnt := malloc_cnt w + 3\<rparr>"

lemma prepared_world_wf:
  assumes "uds_wf w"
  shows "uds_wf (prepared_world i did d w)"
    and "map (dyn_id (prepared_world i did d w)) (dyn_regs w j) = map (dyn_id w) (dyn_regs w j)"
proof -
  let ?n = "malloc_cnt w"
  let ?h = "(heap w)(?n \<mapsto> Cell_slist [?n + 2], ?n + 1 \<mapsto> Cell_reg (dynamic_identifier_reg i did ?n),
    ?n + 2 \<mapsto> Cell_data d)"
  have low: "?h a = heap w a" if "a < ?n" for a using that by simp
  have up: "a < ?n + 3" if "?h a \<noteq> None" for a
    using that uds_wf_heap_fresh [OF assms] by (auto simp: heap_fresh_def not_less split: if_splits intro: ccontr)
  show "uds_wf (prepared_world i did d w)"
    unfolding prepared_world_def by (rule uds_wf_extend(1) [OF assms low up])
  show "map (dyn_id (prepared_world i did d w)) (dyn_regs w j) = map (dyn_id w) (dyn_regs w j)"
    unfolding prepared_world_def by (rule uds_wf_extend(2) [OF assms low up])
qed

lemma k_malloc_eq:
  "k_malloc c w = (if malloc_ok w (malloc_cnt w)
     then (Some (malloc_cnt w), w\<lparr>heap := (heap w)(malloc_cnt w \<mapsto> c), malloc_cnt := Suc (malloc_cnt w)\<rparr>)
     else (None, w\<lparr>malloc_cnt := Suc (malloc_cnt w)\<rparr>))"
  by (simp add: k_malloc_def Let_def)

text \<open>Updates of the state in a fixed order of the fields.\<close>

lemma world_upd_order:
  fixes w :: "('u, 'x) uds_world"
  shows "w\<lparr>malloc_cnt := m, heap := h\<rparr> = w\<lparr>heap := h, malloc_cnt := m\<rparr>"
    and "w\<lparr>dyn_regs := r, heap := h\<rparr> = w\<lparr>heap := h, dyn_regs := r\<rparr>"
    and "w\<lparr>dyn_regs := r, malloc_cnt := m\<rparr> = w\<lparr>malloc_cnt := m, dyn_regs := r\<rparr>"
    and "w\<lparr>heap := h, static_regs := t\<rparr> = w\<lparr>static_regs := t, heap := h\<rparr>"
    and "w\<lparr>malloc_cnt := m, static_regs := t\<rparr> = w\<lparr>static_regs := t, malloc_cnt := m\<rparr>"
    and "w\<lparr>dyn_regs := r, static_regs := t\<rparr> = w\<lparr>static_regs := t, dyn_regs := r\<rparr>"
  by simp_all

lemma fresh_upd_None: "heap_fresh w \<Longrightarrow> (heap w)(malloc_cnt w + j := None) = heap w"
  by (auto simp: heap_fresh_def fun_eq_iff)

lemmas fresh_upd_simps = fresh_upd_None [of _ 0, simplified] fresh_upd_None [of _ "Suc 0", simplified]
  fresh_upd_None [of _ "Suc (Suc 0)", simplified]

text \<open>Adding an item to an identifier that does not exist, up to its registration.\<close>

lemma add_new_id_prepare:
  assumes "dddi_ready w i s did xs k" and "ctx_instance ctx = i" and "ctx_registration ctx = Static s"
    and "dddi_dynamicDataId (ctx_arg ctx) = did" and "app (ctx_arg ctx) = append_data d"
  shows "add_new_id un app ctx c w =
    (if malloc_ok w (malloc_cnt w) \<and> malloc_ok w (malloc_cnt w + 1) \<and> malloc_ok w (malloc_cnt w + 2) then
       obind (uds_register_new_data_by_id_item un ctx (malloc_cnt w + 1) (prepared_world i did d w))
         (\<lambda>ret w4.
            if ret \<noteq> UDS_OK
            then obind (clear_data_list (malloc_cnt w) w4)
                   (\<lambda>_ w5. obind (k_free (malloc_cnt w) w5)
                      (\<lambda>_ w6. obind (k_free (Suc (malloc_cnt w)) w6) (\<lambda>_ w7. Returns (ret, c) w7)))
            else Returns (UDS_OK, True) w4)
     else Returns (UDS_NRC_GeneralReject, c)
       (w\<lparr>malloc_cnt := malloc_cnt w +
            (if \<not> malloc_ok w (malloc_cnt w) then 1 else if \<not> malloc_ok w (malloc_cnt w + 1) then 2 else 3)\<rparr>))"
proof -
  have fresh: "heap_fresh w" using assms(1) uds_wf_heap_fresh by (auto simp: dddi_ready_def)
  note find_existing_none [OF assms(1-3)]
  then show ?thesis
    using assms(2,4,5) fresh_upd_simps [OF fresh] fresh
    by (simp add: add_new_id_def uds_create_new_data_identifier_by_id_def k_malloc_eq append_data_def
        prepared_world_def clear_data_list_def k_free_def numeral_3_eq_3 fun_upd_twist world_upd_order)
qed

lemma id_list_of_static: "static_regs w' = static_regs w \<Longrightarrow> id_list_of w' (Static s) = id_list_of w (Static s)"
  by (simp add: id_list_of_def)

text \<open>Unregistering the identifier that was registered last.\<close>

lemma unregister_last:
  assumes "dyn_regs w i = as @ [a]" and "\<And>b. b \<in> set as \<Longrightarrow> dyn_id w b \<noteq> 0 \<and> dyn_id w b \<noteq> k" and "a \<notin> set as"
    and "heap w a = Some (Cell_reg (dddi_reg i did l k))" and "heap w l = Some (Cell_slist [e])"
    and "heap w e = Some (Cell_data d)" and "k \<noteq> 0"
  shows "uds_unregister_event_handler (run_unregister user) i k w =
    Returns rc0 (w\<lparr>heap := (heap w)(e := None, l := None, a := None), dyn_regs := (dyn_regs w)(i := as)\<rparr>)"
proof -
  have da: "dyn_id w a = k" using assms(4) by (simp add: dyn_id_def dddi_reg_def)
  have "find (\<lambda>b. dyn_id w b = k) (as @ [a]) = Some a"
    using assms(2) da by (induction as) auto
  then have "find_by_dynamic_id k (dyn_regs w i) w = Returns (Some a) w"
    using find_by_dynamic_id_live [of "dyn_regs w i" w k] assms(1,2,7) da by auto
  moreover have "e \<noteq> l" "a \<noteq> e" "a \<noteq> l" using assms(4-6) by auto
  moreover have "remove1 a (as @ [a]) = as" using assms(3) by (simp add: remove1_append)
  ultimately show ?thesis
    using assms(1,4-6)
    by (simp add: uds_unregister_event_handler_def dddi_reg_def dynamic_identifier_reg_def
        uds_unregister_dynamic_identifier_def k_free_def unlink_and_free_def)
qed

text \<open>The registration of a prepared identifier.\<close>

lemma register_new_prepared:
  fixes w :: "('u, 'x) uds_world"
  assumes "dddi_ready w i s did xs k" and "ctx_instance ctx = i" and "ctx_registration ctx = Static s"
  defines "n \<equiv> malloc_cnt w"
  shows "uds_register_new_data_by_id_item (run_unregister user) ctx (Suc n) (prepared_world i did d w) =
    (if \<not> malloc_ok w (n + 3)
     then Returns (UDS_errno ENOMEM) ((prepared_world i did d w)\<lparr>malloc_cnt := n + 4\<rparr>)
     else if \<not> malloc_ok w (n + 4)
     then Returns UDS_NRC_GeneralReject
       (w\<lparr>heap := (heap w)(Suc n \<mapsto> Cell_reg (dynamic_identifier_reg i did n)), malloc_cnt := n + 5\<rparr>)
     else Returns UDS_OK (defined_world i s did d xs k w))"
proof -
  let ?p = "prepared_world i did d w"
  have wf: "uds_wf w" and k: "k = find_next_from (map (dyn_id w) (dyn_regs w i)) 1" "k \<noteq> 0"
    and xs: "id_list_of w (Static s) = Some xs"
    using assms(1) unfolding dddi_ready_def by blast+
  note wfp = prepared_world_wf [OF wf, of i did d]
  have pr: "dyn_regs ?p = dyn_regs w" "malloc_cnt ?p = n + 3" "malloc_ok ?p = malloc_ok w" "static_regs ?p = static_regs w"
    by (simp_all add: prepared_world_def n_def)
  have reg: "uds_register_event_handler i (dynamic_identifier_reg i did n) ?p =
      (if malloc_ok w (n + 3) then Returns (Inr (k, n + 3)) (registered i (dynamic_identifier_reg i did n) k ?p)
       else Returns (Inl ENOMEM) (?p\<lparr>malloc_cnt := n + 4\<rparr>))"
    unfolding register_eq [OF wfp(1)] pr wfp(2) k(1) [symmetric] by (simp add: Let_def k(2))
  have tmp: "deref_reg ?p (Dynamic (Suc n)) = Some (dynamic_identifier_reg i did n)"
    by (simp add: prepared_world_def n_def)
  have fresh: "heap w (n + j) = None" "heap w (Suc (n + j)) = None" for j
    using uds_wf_heap_fresh [OF wf] by (simp_all add: heap_fresh_def n_def)
  let ?H = "(heap w)(n \<mapsto> Cell_slist [n + 2], n + 1 \<mapsto> Cell_reg (dynamic_identifier_reg i did n),
    n + 2 \<mapsto> Cell_data d, n + 3 \<mapsto> Cell_reg (dddi_reg i did n k))"
  let ?R = "(dyn_regs w)(i := dyn_regs w i @ [n + 3])"
  have regd: "registered i (dynamic_identifier_reg i did n) k ?p = w\<lparr>heap := ?H, malloc_cnt := n + 4, dyn_regs := ?R\<rparr>"
    by (simp add: registered_def prepared_world_def n_def dddi_reg_def world_upd_order)
  have body: "uds_register_new_data_by_id_item (run_unregister user) ctx (Suc n) ?p =
      (if malloc_ok w (n + 3) then
         if malloc_ok w (n + 4) then
           obind (k_free (Suc n) (set_id_list (Static s) (xs @ [n + 4])
             (w\<lparr>heap := ?H(n + 4 \<mapsto> Cell_reg_id k), malloc_cnt := n + 5, dyn_regs := ?R\<rparr>))) (\<lambda>_ w3. Returns UDS_OK w3)
         else obind (uds_unregister_event_handler (run_unregister user) i k
           (w\<lparr>heap := ?H, malloc_cnt := n + 5, dyn_regs := ?R\<rparr>)) (\<lambda>_ w3. Returns UDS_NRC_GeneralReject w3)
       else Returns (UDS_errno ENOMEM) (?p\<lparr>malloc_cnt := n + 4\<rparr>))"
  proof -
    have id: "id_list_of (w\<lparr>heap := h, malloc_cnt := m, dyn_regs := r\<rparr>) (Static s) = Some xs" for h m r
      using xs by (subst id_list_of_static [of _ w]) simp_all
    show ?thesis
      using assms(2,3) tmp id
      by (simp add: uds_register_new_data_by_id_item_def reg regd k_malloc_eq world_upd_order add.commute [of 5]
          del: deref_reg.simps set_id_list.simps)
  qed
  show ?thesis
  proof (cases "malloc_ok w (n + 3) \<and> \<not> malloc_ok w (n + 4)")
    case False
    have "(?H(n + 4 \<mapsto> Cell_reg_id k))(n + 1 := None) = defined_heap i did d k n (heap w)"
      using fresh [of 0] by (auto simp: defined_heap_def fun_eq_iff)
    then show ?thesis
      using False
      by (simp add: body k_free_def defined_world_def n_def [symmetric] world_upd_order del: set_id_list_reg.simps)
  next
    case True
    let ?w2 = "w\<lparr>heap := ?H, malloc_cnt := n + 5, dyn_regs := ?R\<rparr>"
    have lt: "b < n" if "b \<in> set (dyn_regs w i)" for b using uds_wf_fresh [OF wf that] by (simp add: n_def)
    have "dyn_id ?w2 b = dyn_id w b" if "b \<in> set (dyn_regs w i)" for b
      using lt [OF that] by (simp add: dyn_id_def)
    moreover have "k \<notin> set (map (dyn_id w) (dyn_regs w i))"
      using find_next_from_free [OF k(1) [symmetric] k(2)] by simp
    ultimately have "uds_unregister_event_handler (run_unregister user) i k ?w2 =
        Returns rc0 (?w2\<lparr>heap := ?H(n + 2 := None, n := None, n + 3 := None), dyn_regs := ?R(i := dyn_regs w i)\<rparr>)"
      using k(2) uds_wf_ids(2) [OF wf] lt unregister_last [of ?w2 i "dyn_regs w i" "n + 3" k did n "n + 2" d user]
      by fastforce
    moreover have "?H(n + 2 := None, n := None, n + 3 := None) = (heap w)(Suc n \<mapsto> Cell_reg (dynamic_identifier_reg i did n))"
      using fresh [of 0] fresh [of 1] fresh [of 3] by (auto simp: fun_eq_iff)
    ultimately show ?thesis using True by (simp add: body world_upd_order)
  qed
qed

text \<open>The whole request, for every pattern of failing allocations.\<close>

lemma add_new_id_result:
  fixes w :: "('u, 'x) uds_world"
  assumes "dddi_ready w i s did xs k" and "ctx_instance ctx = i" and "ctx_registration ctx = Static s"
    and "dddi_dynamicDataId (ctx_arg ctx) = did" and "app (ctx_arg ctx) = append_data d"
  defines "n \<equiv> malloc_cnt w"
  shows "malloc_ok w n \<Longrightarrow> malloc_ok w (n + 1) \<Longrightarrow> malloc_ok w (n + 2) \<Longrightarrow> malloc_ok w (n + 3) \<Longrightarrow> malloc_ok w (n + 4) \<Longrightarrow>
      add_new_id (run_unregister user) app ctx c w = Returns (UDS_OK, True) (defined_world i s did d xs k w)"
    and "malloc_ok w n \<Longrightarrow> malloc_ok w (n + 1) \<Longrightarrow> malloc_ok w (n + 2) \<Longrightarrow> malloc_ok w (n + 3) \<Longrightarrow> \<not> malloc_ok w (n + 4) \<Longrightarrow>
      add_new_id (run_unregister user) app ctx c w = Undefined"
    and "j < 4 \<Longrightarrow> (\<And>m. m < j \<Longrightarrow> malloc_ok w (n + m)) \<Longrightarrow> \<not> malloc_ok w (n + j) \<Longrightarrow>
      add_new_id (run_unregister user) app ctx c w =
        Returns (if j = 3 then UDS_errno ENOMEM else UDS_NRC_GeneralReject, c) (w\<lparr>malloc_cnt := n + j + 1\<rparr>)"
proof -
  have fresh: "heap w (n + j) = None" "heap w (Suc (n + j)) = None" for j
    using assms(1) uds_wf_heap_fresh [of w] by (simp_all add: heap_fresh_def n_def dddi_ready_def)
  note prep = add_new_id_prepare [where app = app, OF assms(1-5), of "run_unregister user" c, folded n_def]
  note regn = register_new_prepared [OF assms(1-3), of user d, folded n_def]
  show "add_new_id (run_unregister user) app ctx c w = Returns (UDS_OK, True) (defined_world i s did d xs k w)"
    if "malloc_ok w n" "malloc_ok w (n + 1)" "malloc_ok w (n + 2)" "malloc_ok w (n + 3)" "malloc_ok w (n + 4)"
    using that regn by (simp add: prep)
  show "add_new_id (run_unregister user) app ctx c w = Undefined"
    if "malloc_ok w n" "malloc_ok w (n + 1)" "malloc_ok w (n + 2)" "malloc_ok w (n + 3)" "\<not> malloc_ok w (n + 4)"
    using that regn fresh [of 0] by (simp add: prep clear_data_list_def)
  show "add_new_id (run_unregister user) app ctx c w =
      Returns (if j = 3 then UDS_errno ENOMEM else UDS_NRC_GeneralReject, c) (w\<lparr>malloc_cnt := n + j + 1\<rparr>)"
    if j: "j < 4" "\<And>m. m < j \<Longrightarrow> malloc_ok w (n + m)" "\<not> malloc_ok w (n + j)"
  proof (cases "j = 3")
    case True
    have ok: "malloc_ok w n" "malloc_ok w (n + 1)" "malloc_ok w (n + 2)" "\<not> malloc_ok w (n + 3)"
      using j(2) [of 0] j(2) [of 1] j(2) [of 2] j(3) True by simp_all
    have "(heap w)(n := None, Suc n := None, Suc (Suc n) := None) = heap w"
      using fresh [of 0] fresh [of 1] by (auto simp: fun_eq_iff)
    then show ?thesis
      using ok True regn
      by (simp add: prep clear_data_list_def prepared_world_def n_def [symmetric] k_free_def world_upd_order fun_upd_twist)
  next
    case False
    with j(1) consider "j = 0" | "j = 1" | "j = 2" by linarith
    then show ?thesis
      using j(2) [of 0] j(2) [of 1] j(3) by cases (simp_all add: prep n_def)
  qed
qed

section \<open>Lemmas: clearing\<close>

lemma purge_handlers_append:
  "purge_handlers P (as @ bs) w = obind (purge_handlers P as w) (\<lambda>_ w1. purge_handlers P bs w1)"
  by (induction as arbitrary: w) (auto simp: obind_assoc intro: obind_cong)

lemma purge_handlers_none:
  "\<forall>ref \<in> set refs. deref_reg w ref \<noteq> None \<and> id_list_of w ref = None \<Longrightarrow> purge_handlers P refs w = Returns () w"
  by (induction refs) (auto simp: purge_handler_def simp del: deref_reg.simps)

lemma purge_items_append:
  "\<forall>a \<in> set as. \<exists>m. heap w a = Some (Cell_reg_id m) \<and> \<not> P m \<Longrightarrow>
   purge_items P ref (as @ bs) w = purge_items P ref bs w"
  by (induction as) auto

lemma set_id_list_reg_same:
  "id_list_of w (Static s) = Some xs \<Longrightarrow> set_id_list_reg xs (static_regs w ! s) = static_regs w ! s"
  by (auto simp: id_list_of_def split: option.splits if_splits uds_registration_data.splits)

lemma set_id_list_reg_twice: "set_id_list_reg xs (set_id_list_reg ys r) = set_id_list_reg xs r"
  by (auto split: uds_registration_data.splits)

lemma id_list_of_set:
  assumes "id_list_of w (Static s) = Some xs"
    and "static_regs w' = (static_regs w)[s := set_id_list_reg ys (static_regs w ! s)]"
  shows "id_list_of w' (Static s) = Some ys" and "s' \<noteq> s \<Longrightarrow> id_list_of w' (Static s') = id_list_of w (Static s')"
  using assms by (auto simp: id_list_of_def split: option.splits if_splits uds_registration_data.splits)

text \<open>The handler \<open>s\<close> is the only one that defines identifiers, and its items are live.\<close>

definition only_dddi_handler :: "('u, 'x) uds_world \<Rightarrow> inst \<Rightarrow> nat \<Rightarrow> addr list \<Rightarrow> u32 \<Rightarrow> bool" where
  "only_dddi_handler w i s xs k \<longleftrightarrow>
     (\<forall>s' < length (static_regs w). s' \<noteq> s \<longrightarrow> id_list_of w (Static s') = None) \<and>
     (\<forall>a \<in> set (dyn_regs w i). id_list_of w (Dynamic a) = None) \<and>
     (\<forall>a \<in> set xs. \<exists>m. heap w a = Some (Cell_reg_id m) \<and> m \<noteq> k)"

lemma upt_split: "s < n \<Longrightarrow> [0..<n] = [0..<s] @ s # [Suc s..<n]"
proof -
  assume "s < n"
  then have "n = s + (n - s)" by simp
  then have "[0..<n] = [0..<s] @ [s..<n]" by (metis le0 upt_add_eq_append)
  with \<open>s < n\<close> show ?thesis by (simp add: upt_conv_Cons)
qed

text \<open>Purging the item of \<open>k\<close>, the last one of the handler \<open>s\<close>, from all static handlers.\<close>

lemma purge_static_last:
  assumes "s < length (static_regs w)" and "id_list_of w (Static s) = Some (xs @ [e])"
    and "\<forall>s' < length (static_regs w). s' \<noteq> s \<longrightarrow> id_list_of w (Static s') = None"
    and "\<forall>a \<in> set xs. \<exists>m. heap w a = Some (Cell_reg_id m) \<and> m \<noteq> k" and "heap w e = Some (Cell_reg_id k)"
  shows "purge_handlers (\<lambda>m. m = k) (map Static [0..<length (static_regs w)]) w =
    Returns () (w\<lparr>static_regs := (static_regs w)[s := set_id_list_reg xs (static_regs w ! s)], heap := (heap w)(e := None)\<rparr>)"
proof -
  let ?P = "\<lambda>m. m = k" and ?n = "length (static_regs w)"
  let ?w1 = "w\<lparr>static_regs := (static_regs w)[s := set_id_list_reg xs (static_regs w ! s)], heap := (heap w)(e := None)\<rparr>"
  have "e \<notin> set xs" using assms(4,5) by auto
  then have "remove1 e (xs @ [e]) = xs" by (simp add: remove1_append)
  then have here: "purge_handler ?P (Static s) w = Returns () ?w1"
    using assms(1,2,4,5)
    by (simp add: purge_handler_def purge_items_append k_free_def world_upd_order del: set_id_list_reg.simps)
  have before: "purge_handlers ?P (map Static [0..<s]) w = Returns () w"
    using assms(1,3) by (intro purge_handlers_none) auto
  have "id_list_of ?w1 (Static s') = None" if "s' < ?n" "s' \<noteq> s" for s'
    using id_list_of_set(2) [OF assms(2), of ?w1 xs s'] that assms(3) by simp
  then have after: "purge_handlers ?P (map Static [Suc s..<?n]) ?w1 = Returns () ?w1"
    by (intro purge_handlers_none) auto
  have "map Static [0..<?n] = map Static [0..<s] @ Static s # map Static [Suc s..<?n]"
    by (simp add: upt_split [OF assms(1)])
  then show ?thesis using before here after by (simp add: purge_handlers_append)
qed

lemma clear_single_defined:
  fixes w :: "('u, 'x) uds_world"
  assumes "dddi_ready w i s did xs k" and "only_dddi_handler w i s xs k"
  shows "uds_dynamicallY_define_data_by_id_remove_single_id (run_unregister user) i did (defined_world i s did d xs k w) =
    Returns () (w\<lparr>malloc_cnt := malloc_cnt w + 5\<rparr>)"
proof -
  let ?n = "malloc_cnt w" and ?w = "defined_world i s did d xs k w"
  let ?h = "(heap w)(?n + 4 \<mapsto> Cell_reg_id k)"
  let ?t = "(static_regs w)[s := set_id_list_reg (xs @ [?n + 4]) (static_regs w ! s)]"
  let ?w2 = "w\<lparr>static_regs := ?t, heap := ?h, malloc_cnt := ?n + 5\<rparr>"
  have wf: "uds_wf w" and nd: "\<not> defines_id w i did" and xs: "id_list_of w (Static s) = Some xs"
    and k: "k = find_next_from (map (dyn_id w) (dyn_regs w i)) 1" "k \<noteq> 0"
    using assms(1) unfolding dddi_ready_def by blast+
  have s: "s < length (static_regs w)" using xs by (auto simp: id_list_of_def split: if_splits)
  have fresh: "heap w (?n + j) = None" "heap w (Suc (?n + j)) = None" for j
    using uds_wf_heap_fresh [OF wf] by (simp_all add: heap_fresh_def)
  have lt: "a < ?n" if "a \<in> set (dyn_regs w i)" for a by (rule uds_wf_fresh [OF wf that])
  have same: "heap ?w a = heap w a" "?h a = heap w a" if "a < ?n" for a
    using that by (auto simp: defined_world_def defined_heap_def)
  then have old: "dyn_id ?w a = dyn_id w a" "has_data_id ?w did a \<longleftrightarrow> has_data_id w did a" if "a \<in> set (dyn_regs w i)" for a
    using lt [OF that] by (auto simp: dyn_id_def has_data_id_def)
  have regs: "dyn_regs ?w i = dyn_regs w i @ [?n + 3]" by (simp add: defined_world_def)
  have new: "heap ?w (?n + 3) = Some (Cell_reg (dddi_reg i did ?n k))" by (simp add: defined_world_def defined_heap_def)
  have found: "find_by_data_id did (dyn_regs ?w i) ?w = Returns (Some k) ?w"
  proof -
    have "find_by_data_id did (dyn_regs w i @ [?n + 3]) ?w = find_by_data_id did [?n + 3] ?w"
      using nd uds_wf_ids(2) [OF wf] old by (intro find_by_data_id_append) (auto simp: defines_id_def)
    then show ?thesis using new by (simp add: regs dddi_reg_def dynamic_identifier_reg_def)
  qed
  have unreg: "uds_unregister_event_handler (run_unregister user) i k ?w = Returns rc0 ?w2"
  proof -
    have nk: "k \<notin> set (map (dyn_id w) (dyn_regs w i))"
      using find_next_from_free [OF k(1) [symmetric] k(2)] by simp
    have "uds_unregister_event_handler (run_unregister user) i k ?w =
        Returns rc0 (?w\<lparr>heap := (heap ?w)(?n + 2 := None, ?n := None, ?n + 3 := None), dyn_regs := (dyn_regs ?w)(i := dyn_regs w i)\<rparr>)"
    proof (rule unregister_last [OF regs _ _ new])
      show "\<And>b. b \<in> set (dyn_regs w i) \<Longrightarrow> dyn_id ?w b \<noteq> 0 \<and> dyn_id ?w b \<noteq> k"
        using nk uds_wf_ids(2) [OF wf] old(1) by auto
      show "?n + 3 \<notin> set (dyn_regs w i)" using lt by fastforce
      show "heap ?w ?n = Some (Cell_slist [?n + 2])" "heap ?w (?n + 2) = Some (Cell_data d)"
        by (simp_all add: defined_world_def defined_heap_def)
    qed (rule k(2))
    moreover have "(defined_heap i did d k ?n (heap w))(?n + 2 := None, ?n := None, ?n + 3 := None) = ?h"
      using fresh [of 0] fresh [of 1] fresh [of 3] by (auto simp: defined_heap_def fun_eq_iff)
    ultimately show ?thesis by (simp add: defined_world_def world_upd_order)
  qed
  have idl: "id_list_of ?w2 (Static s) = Some (xs @ [?n + 4])"
    by (rule id_list_of_set(1) [OF xs]) simp
  have items: "\<forall>a \<in> set xs. \<exists>m. heap ?w2 a = Some (Cell_reg_id m) \<and> m \<noteq> k"
    using assms(2) fresh [of 4] by (auto simp: only_dddi_handler_def)
  have "purge_handlers (\<lambda>m. m = k) (map Static [0..<length (static_regs ?w2)]) ?w2 =
      Returns () (?w2\<lparr>static_regs := (static_regs ?w2)[s := set_id_list_reg xs (static_regs ?w2 ! s)],
        heap := (heap ?w2)(?n + 4 := None)\<rparr>)"
    using s idl items assms(2) id_list_of_set(2) [OF xs, of ?w2 "xs @ [?n + 4]"]
    by (intro purge_static_last) (simp_all add: only_dddi_handler_def)
  also have "\<dots> = Returns () (w\<lparr>malloc_cnt := ?n + 5\<rparr>)"
    using s set_id_list_reg_same [OF xs] set_id_list_reg_twice [of xs "xs @ [?n + 4]" "static_regs w ! s"] fresh(1) [of 4]
    by (simp add: world_upd_order fun_upd_idem del: set_id_list_reg.simps)
  finally have static: "purge_handlers (\<lambda>m. m = k) (map Static [0..<length (static_regs ?w2)]) ?w2 =
      Returns () (w\<lparr>malloc_cnt := ?n + 5\<rparr>)" .
  have "purge_handlers (\<lambda>m. m = k) (map Dynamic (dyn_regs w i)) (w\<lparr>malloc_cnt := ?n + 5\<rparr>) =
      Returns () (w\<lparr>malloc_cnt := ?n + 5\<rparr>)"
    using assms(2) uds_wf_ids(2) [OF wf] dyn_id_live [of w]
    by (intro purge_handlers_none) (fastforce simp: only_dddi_handler_def id_list_of_def)
  then show ?thesis
    unfolding uds_dynamicallY_define_data_by_id_remove_single_id_def
    using found unreg static by simp
qed

section \<open>Lemmas: reading\<close>

text \<open>
  The sources of an identifier: in the states that satisfy \<open>P\<close>, reading an identifier \<open>j\<close> of \<open>J\<close> with \<open>uds_copy\<close> and
  an empty copy buffer leaves the bytes \<open>src j\<close> in the buffer and the heap and the response as they are, and \<open>lib_copy\<close> appends to
  a response up to the length \<open>L\<close>. Both lead to such a state again.
\<close>

definition sources ::
  "'x dddi_env \<Rightarrow> ('x \<Rightarrow> u8 list) \<Rightarrow> ('u, 'x) event_callback \<Rightarrow> inst \<Rightarrow> (u16 \<Rightarrow> u8 list) \<Rightarrow> u16 set \<Rightarrow> nat \<Rightarrow>
   (('u, 'x) uds_world \<Rightarrow> bool) \<Rightarrow> bool" where
  "sources de resp cb i src J L P \<longleftrightarrow>
     (\<forall>j \<in> J. \<forall>w. P w \<longrightarrow> (\<exists>arg w'.
        cb i UDS_EVT_ReadDataByIdent (Arg_RDBI j Copy_uds_copy) (w\<lparr>env := set_temp_buffer de [] (env w)\<rparr>) =
          Returns (UDS_PositiveResponse, arg) w' \<and>
        P w' \<and> heap w' = heap w \<and> resp (env w') = resp (env w) \<and> temp_buffer de (env w') = src j)) \<and>
     (\<forall>bs w. P w \<and> length (resp (env w)) + length bs \<le> L \<longrightarrow>
        (\<exists>x'. lib_copy de bs (env w) = (UDS_PositiveResponse, x') \<and> resp x' = resp (env w) @ bs \<and> P (w\<lparr>env := x'\<rparr>)))"

definition item_ids :: "uds_dynamically_defined_data list \<Rightarrow> u16 set" where
  "item_ids ds = {j. \<exists>p z. Data_id j p z \<in> set ds}"

definition slice :: "(u16 \<Rightarrow> u8 list) \<Rightarrow> uds_dynamically_defined_data \<Rightarrow> u8 list" where
  "slice src d = (case d of Data_id j p z \<Rightarrow> take (unat z) (drop (unat p) (src j)) | Data_memory _ _ \<Rightarrow> [])"

definition slice_ok :: "(u16 \<Rightarrow> u8 list) \<Rightarrow> uds_dynamically_defined_data \<Rightarrow> bool" where
  "slice_ok src d = (case d of Data_id j p z \<Rightarrow> unat p + unat z \<le> length (src j) | Data_memory _ _ \<Rightarrow> False)"

text \<open>
  The copy buffer is a variable: what is stored in it is what is read from it, and storing to it
  does not change the response \<open>resp\<close> under construction, to which the copy function of the
  package appends.
\<close>

locale dddi_buffer =
  fixes de :: "'x dddi_env" and resp :: "'x \<Rightarrow> u8 list"
  assumes get_set: "temp_buffer de (set_temp_buffer de b x) = b"
    and resp_set: "resp (set_temp_buffer de b x) = resp x"
begin

lemma uds_copy_ok:
  assumes "length (temp_buffer de x) + length bs \<le> 256"
  shows "\<exists>x'. uds_copy de bs x = (UDS_PositiveResponse, x') \<and> temp_buffer de x' = temp_buffer de x @ bs \<and> resp x' = resp x"
  using assms by (simp add: uds_copy_def get_set resp_set)

lemma uds_copy_bound:
  assumes "length (temp_buffer de x) \<le> 256"
  shows "length (temp_buffer de (snd (uds_copy de bs x))) \<le> 256"
  using assms by (auto simp: uds_copy_def get_set)

lemma read_item_slice:
  assumes "sources de resp cb i src J L P" and "slice_ok src d" and "item_ids [d] \<subseteq> J" and "P w"
    and "length (resp (env w)) + length (slice src d) \<le> L"
  shows "\<exists>w'. read_item de cb i Copy_lib d w = Returns None w' \<and> P w' \<and> heap w' = heap w \<and>
    resp (env w') = resp (env w) @ slice src d"
proof (cases d)
  case (Data_id j p z)
  let ?bs = "take (unat z) (drop (unat p) (src j))"
  have "j \<in> J" using assms(3) Data_id by (auto simp: item_ids_def)
  with assms(1,4) obtain arg w1 where w1: "cb i UDS_EVT_ReadDataByIdent (Arg_RDBI j Copy_uds_copy) (w\<lparr>env := set_temp_buffer de [] (env w)\<rparr>) =
      Returns (UDS_PositiveResponse, arg) w1" "P w1"
    "heap w1 = heap w" "resp (env w1) = resp (env w)" "temp_buffer de (env w1) = src j"
    unfolding sources_def by blast
  have "length (resp (env w1)) + length ?bs \<le> L" using assms(5) w1(4) Data_id by (simp add: slice_def)
  with assms(1) w1(2) obtain x' where "lib_copy de ?bs (env w1) = (UDS_PositiveResponse, x')"
    "resp x' = resp (env w1) @ ?bs" "P (w1\<lparr>env := x'\<rparr>)"
    unfolding sources_def by blast
  with w1 assms(2) Data_id show ?thesis by (simp add: call_copy_def slice_def slice_ok_def)
next
  case (Data_memory a z)
  then show ?thesis using assms(2) by (simp add: slice_ok_def)
qed

lemma read_items_concat:
  assumes "sources de resp cb i src J L P" and "distinct (pre @ as)" and "length as = length ds" and "\<forall>d \<in> set ds. slice_ok src d"
    and "heap w l = Some (Cell_slist (pre @ as))" and "\<forall>j < length as. heap w (as ! j) = Some (Cell_data (ds ! j))"
    and "length as \<le> fuel" and "item_ids ds \<subseteq> J" and "P w"
    and "length (resp (env w)) + length (concat (map (slice src) ds)) \<le> L"
  shows "\<exists>w'. read_items de cb i Copy_lib l fuel (head_of as) w = Returns None w' \<and> P w' \<and> heap w' = heap w \<and>
    resp (env w') = resp (env w) @ concat (map (slice src) ds)"
  using assms(2-10)
proof (induction as arbitrary: pre ds w fuel)
  case (Cons a as)
  from Cons.prems(2) obtain d ds' where ds: "ds = d # ds'" by (cases ds) auto
  obtain fuel' where fuel: "fuel = Suc fuel'" using Cons.prems(6) by (cases fuel) auto
  have ids: "item_ids [d] \<subseteq> J" "item_ids ds' \<subseteq> J" using Cons.prems(7) ds by (auto simp: item_ids_def)
  obtain w1 where w1: "read_item de cb i Copy_lib d w = Returns None w1" "P w1" "heap w1 = heap w"
    "resp (env w1) = resp (env w) @ slice src d"
    using read_item_slice [OF assms(1) _ ids(1) Cons.prems(8)] Cons.prems(3,9) ds by auto
  have cell: "heap w a = Some (Cell_data d)" using Cons.prems(5) ds by force
  have rest: "\<forall>j < length as. heap w1 (as ! j) = Some (Cell_data (ds' ! j))"
    using Cons.prems(5) ds w1(3) by (metis length_Cons not_less_eq nth_Cons_Suc)
  have "\<exists>w'. read_items de cb i Copy_lib l fuel' (head_of as) w1 = Returns None w' \<and> P w' \<and> heap w' = heap w1 \<and>
      resp (env w') = resp (env w1) @ concat (map (slice src) ds')"
    by (rule Cons.IH [of "pre @ [a]"]) (use Cons.prems w1 ds fuel rest ids(2) in simp_all)
  moreover have "next_in (pre @ a # as) a = head_of as"
    using Cons.prems(1) by (intro next_in_append) simp
  ultimately show ?case
    using w1 cell Cons.prems(4) by (auto simp: fuel ds)
qed simp

end

section \<open>Properties\<close>

text \<open>A define request to the static handler \<open>s\<close>, by data id or by memory address.\<close>

definition define_ctx :: "inst \<Rightarrow> nat \<Rightarrow> u16 \<Rightarrow> uds_dynamically_defined_data \<Rightarrow> uds_context" where
  "define_ctx i s did d =
     \<lparr>ctx_instance = i, ctx_registration = Static s, ctx_event = UDS_EVT_DynamicDefineDataId,
      ctx_arg = (case d of
         Data_id j p z \<Rightarrow> Arg_DDDI 1 False did (DDDI_by_id j p z)
       | Data_memory a z \<Rightarrow> Arg_DDDI 2 False did (DDDI_by_mem a z))\<rparr>"

definition clear_ctx :: "inst \<Rightarrow> nat \<Rightarrow> u16 \<Rightarrow> uds_context" where
  "clear_ctx i s did =
     \<lparr>ctx_instance = i, ctx_registration = Static s, ctx_event = UDS_EVT_DynamicDefineDataId,
      ctx_arg = Arg_DDDI 3 False did DDDI_none\<rparr>"

definition dddi_append ::
  "uds_dynamically_defined_data \<Rightarrow> uds_arg \<Rightarrow> addr \<Rightarrow> ('u, 'x) uds_world \<Rightarrow> (UDSErr_t, ('u, 'x) uds_world) outcome" where
  "dddi_append d =
     (case d of
        Data_id _ _ _ \<Rightarrow> uds_append_dynamic_data_identifiers_to_registration
      | Data_memory _ _ \<Rightarrow> uds_append_dynamic_memory_addresses_to_registration)"

lemma action_define_eq:
  "uds_action_default_dynamically_define_data_ids un (define_ctx i s did d) c w =
     obind (add_new_id un (dddi_append d) (define_ctx i s did d) c w)
       (\<lambda>(r, b) w1. Returns (r, b, ctx_arg (define_ctx i s did d)) w1)"
  by (cases d) (simp_all add: uds_action_default_dynamically_define_data_ids_def define_ctx_def dddi_append_def
      uds_dynamicallY_define_data_by_id_add_new_id_def
      uds_dynamicallY_define_data_by_memory_address_add_new_id_def)

lemma define_app: "dddi_append d (ctx_arg (define_ctx i s did d)) = append_data d"
  by (cases d) (auto simp: define_ctx_def fun_eq_iff uds_append_dynamic_data_identifiers_to_registration_def
      uds_append_dynamic_memory_addresses_to_registration_def dddi_append_def)

lemma define_ctx_sel [simp]:
  "ctx_instance (define_ctx i s did d) = i" "ctx_registration (define_ctx i s did d) = Static s"
  "dddi_dynamicDataId (ctx_arg (define_ctx i s did d)) = did"
  by (simp_all add: define_ctx_def split: uds_dynamically_defined_data.splits)

lemma all_less_numeral:
  "\<forall>m < (4 :: nat). P (n + m) \<Longrightarrow> P n \<and> P (n + 1) \<and> P (n + 2) \<and> P (n + 3)"
  "\<forall>m < (5 :: nat). P (n + m) \<Longrightarrow> P n \<and> P (n + 1) \<and> P (n + 2) \<and> P (n + 3) \<and> P (n + 4)"
proof -
  show "P n \<and> P (n + 1) \<and> P (n + 2) \<and> P (n + 3)" if "\<forall>m < (4 :: nat). P (n + m)"
    using that [rule_format, of 0] that [rule_format, of 1] that [rule_format, of 2] that [rule_format, of 3] by simp
  show "P n \<and> P (n + 1) \<and> P (n + 2) \<and> P (n + 3) \<and> P (n + 4)" if "\<forall>m < (5 :: nat). P (n + m)"
    using that [rule_format, of 0] that [rule_format, of 1] that [rule_format, of 2] that [rule_format, of 3]
      that [rule_format, of 4] by simp
qed

lemma define_ok:
  assumes "dddi_ready w i s did xs k" and "\<forall>m < 5. malloc_ok w (malloc_cnt w + m)"
  shows "uds_action_default_dynamically_define_data_ids (run_unregister user) (define_ctx i s did d) c w =
    Returns (UDS_OK, True, ctx_arg (define_ctx i s did d)) (defined_world i s did d xs k w)"
  using all_less_numeral(2) [OF assms(2)]
    add_new_id_result(1) [OF assms(1), of "define_ctx i s did d" "dddi_append d" d user c]
  by (simp add: action_define_eq define_app)

lemma define_fails:
  assumes "dddi_ready w i s did xs k" and "j < 4" and "\<forall>m < j. malloc_ok w (malloc_cnt w + m)"
    and "\<not> malloc_ok w (malloc_cnt w + j)"
  shows "uds_action_default_dynamically_define_data_ids (run_unregister user) (define_ctx i s did d) c w =
    Returns (if j = 3 then UDS_errno ENOMEM else UDS_NRC_GeneralReject, c, ctx_arg (define_ctx i s did d))
      (w\<lparr>malloc_cnt := malloc_cnt w + j + 1\<rparr>)"
  using add_new_id_result(3) [OF assms(1), of "define_ctx i s did d" "dddi_append d" d j user c] assms(2-4)
  by (simp add: action_define_eq define_app)

text \<open>A state with one handler for the service, for the witnesses.\<close>

definition demo_dddi_reg :: "nat uds_registration_t" where
  "demo_dddi_reg =
     \<lparr>reg_instance = Some 0,
      reg_data = Reg_dynamically_define_data_ids None []
        \<lparr>act_check = Some Fn_check_default_dynamically_define_data_ids,
         act_action = Some Fn_action_default_dynamically_define_data_ids\<rparr>,
      reg_dynamic_id = 0, reg_unregister_fn = None\<rparr>"

definition demo_dddi_world :: "(nat \<Rightarrow> bool) \<Rightarrow> (nat, unit) uds_world" where
  "demo_dddi_world ok = (boot_world [demo_dddi_reg] ())\<lparr>malloc_ok := ok\<rparr>"

lemma demo_dddi_ready:
  "dddi_ready (demo_dddi_world ok) 0 0 did [] 1" "only_dddi_handler (demo_dddi_world ok) 0 0 [] 1"
    "malloc_cnt (demo_dddi_world ok) = 0" "malloc_ok (demo_dddi_world ok) = ok"
  by (simp_all add: dddi_ready_def demo_dddi_world_def boot_world_def uds_wf_def defines_id_def id_list_of_def
      demo_dddi_reg_def only_dddi_handler_def find_next_from.simps)

text \<open>
  (C4) A define request for a new dynamic identifier makes five allocations. If one of the first
  four fails, the request is refused (GeneralReject, or the errno of the registration), and heap,
  registrations and lists are as before: nothing is leaked. If all succeed, the answer is positive,
  and the instance has one new registration, under the least free id, whose list holds the item.
\<close>

theorem define_identifier_outcome:
  assumes "dddi_ready w i s did xs k"
  shows "(\<forall>j < 4. (\<forall>m < j. malloc_ok w (malloc_cnt w + m)) \<and> \<not> malloc_ok w (malloc_cnt w + j) \<longrightarrow>
      uds_action_default_dynamically_define_data_ids (run_unregister user) (define_ctx i s did d) c w =
        Returns (if j = 3 then UDS_errno ENOMEM else UDS_NRC_GeneralReject, c, ctx_arg (define_ctx i s did d))
          (w\<lparr>malloc_cnt := malloc_cnt w + j + 1\<rparr>)) \<and>
    ((\<forall>m < 5. malloc_ok w (malloc_cnt w + m)) \<longrightarrow>
      uds_action_default_dynamically_define_data_ids (run_unregister user) (define_ctx i s did d) c w =
        Returns (UDS_OK, True, ctx_arg (define_ctx i s did d)) (defined_world i s did d xs k w))"
  using define_ok [OF assms] define_fails [OF assms] by blast

theorem define_identifier_outcome_witness:
  "uds_action_default_dynamically_define_data_ids (run_unregister (\<lambda>u a w. Returns rc0 w))
      (define_ctx 0 0 0xF300 (Data_id 0x1234 0 2)) True (demo_dddi_world (\<lambda>n. n < 3)) =
     Returns (UDS_errno ENOMEM, True, ctx_arg (define_ctx 0 0 0xF300 (Data_id 0x1234 0 2)))
       (demo_dddi_world (\<lambda>n. n < 3)\<lparr>malloc_cnt := 4\<rparr>) \<and>
   uds_action_default_dynamically_define_data_ids (run_unregister (\<lambda>u a w. Returns rc0 w))
      (define_ctx 0 0 0xF300 (Data_id 0x1234 0 2)) True (demo_dddi_world (\<lambda>n. True)) =
     Returns (UDS_OK, True, ctx_arg (define_ctx 0 0 0xF300 (Data_id 0x1234 0 2)))
       (defined_world 0 0 0xF300 (Data_id 0x1234 0 2) [] 1 (demo_dddi_world (\<lambda>n. True)))"
  using define_identifier_outcome [OF demo_dddi_ready(1) [of "\<lambda>n. n < 3" "0xF300"], of "\<lambda>u a w. Returns rc0 w" "Data_id 0x1234 0 2" True,
      THEN conjunct1, rule_format, of 3]
    define_identifier_outcome [OF demo_dddi_ready(1) [of "\<lambda>n. True" "0xF300"], of "\<lambda>u a w. Returns rc0 w" "Data_id 0x1234 0 2" True]
  by (simp add: demo_dddi_ready)

text \<open>
  (C10) Defining a new identifier and clearing it again gives back everything: after the two
  requests, both answered positively, heap, registrations, static handlers and lists are exactly
  what they were before.
\<close>

theorem define_clear_roundtrip:
  assumes "dddi_ready w i s did xs k" and "only_dddi_handler w i s xs k" and "\<forall>m < 5. malloc_ok w (malloc_cnt w + m)"
  shows "\<exists>w1. uds_action_default_dynamically_define_data_ids (run_unregister user) (define_ctx i s did d) c w =
      Returns (UDS_OK, True, ctx_arg (define_ctx i s did d)) w1 \<and>
    uds_action_default_dynamically_define_data_ids (run_unregister user) (clear_ctx i s did) c w1 =
      Returns (UDS_OK, True, ctx_arg (clear_ctx i s did)) (w\<lparr>malloc_cnt := malloc_cnt w + 5\<rparr>)"
  using clear_single_defined [OF assms(1,2), of user d]
  by (simp add: define_ok [OF assms(1,3)])
    (simp add: uds_action_default_dynamically_define_data_ids_def clear_ctx_def
      uds_dynamicallY_define_data_by_id_remove_ids_def)

theorem define_clear_roundtrip_witness:
  "\<exists>w1. uds_action_default_dynamically_define_data_ids (run_unregister (\<lambda>u a w. Returns rc0 w))
      (define_ctx 0 0 0xF300 (Data_memory 0x20000000 4)) True (demo_dddi_world (\<lambda>n. True)) =
      Returns (UDS_OK, True, ctx_arg (define_ctx 0 0 0xF300 (Data_memory 0x20000000 4))) w1 \<and>
    uds_action_default_dynamically_define_data_ids (run_unregister (\<lambda>u a w. Returns rc0 w)) (clear_ctx 0 0 0xF300) True w1 =
      Returns (UDS_OK, True, ctx_arg (clear_ctx 0 0 0xF300))
        (demo_dddi_world (\<lambda>n. True)\<lparr>malloc_cnt := malloc_cnt (demo_dddi_world (\<lambda>n. True)) + 5\<rparr>)"
  by (rule define_clear_roundtrip [OF demo_dddi_ready(1,2)]) (simp add: demo_dddi_ready)

text \<open>
  (C40) When the fifth allocation fails, of the item that remembers the new registration, the cleanup
  frees the data list twice: unregistering the new registration frees list and items, and the caller
  then walks the freed list. The behaviour is undefined.
\<close>

theorem define_double_free:
  assumes "dddi_ready w i s did xs k" and "\<forall>m < 4. malloc_ok w (malloc_cnt w + m)" and "\<not> malloc_ok w (malloc_cnt w + 4)"
  shows "uds_action_default_dynamically_define_data_ids (run_unregister user) (define_ctx i s did d) c w = Undefined"
  using all_less_numeral(1) [OF assms(2)] assms(3)
    add_new_id_result(2) [OF assms(1), of "define_ctx i s did d" "dddi_append d" d user c]
  by (simp add: action_define_eq define_app)

theorem define_double_free_witness:
  "uds_action_default_dynamically_define_data_ids (run_unregister (\<lambda>u a w. Returns rc0 w))
    (define_ctx 0 0 0xF300 (Data_id 0x1234 0 2)) True (demo_dddi_world (\<lambda>n. n < 4)) = Undefined"
  by (rule define_double_free [OF demo_dddi_ready(1)]) (simp_all add: demo_dddi_ready)

end
