(* ===== verification/Uds_Server.thy ===== *)
theory Uds_Server
  imports Uds_Services Uds_Memory Uds_Link Uds_Transfer_Correct Uds_Dddi
begin

text \<open>
  The server: the state of all service files together, the meaning of the function pointers of the
  library, and the event callback that the iso14229 package calls. Handlers of an application are
  arguments, as functions on the whole state. Reading a dynamic identifier calls the event callback
  again, to any depth; the fuel bounds this depth (and the steps of a walk over a list).
\<close>

section \<open>State and configuration\<close>

text \<open>
  \<open>srv_sessionType\<close>, \<open>srv_securityLevel\<close> and \<open>srv_p2_ms\<close> are the members of the package's server
  structure that the library or an application reads, \<open>srv_user_context\<close> is the user context of the instance; the response under construction is in \<open>srv_transfer\<close>. \<open>srv_user\<close> is the state of
  the application.
\<close>

record ('c, 'f, 'fs, 'h, 'r, 'n, 'z) server_env =
  srv_sessionType :: "inst \<Rightarrow> u8"
  srv_securityLevel :: "inst \<Rightarrow> u8"
  srv_p2_ms :: "inst \<Rightarrow> u32"
  srv_user_context :: "inst \<Rightarrow> addr option"
  srv_link :: "'c link_state"
  srv_transfer :: "('f, 'fs, 'h, 'r) transfer_world"
  srv_memory :: memory
  srv_temp_buffer :: "u8 list"
  srv_boot :: 'n
  srv_user :: 'z

type_synonym ('u, 'c, 'f, 'fs, 'h, 'r, 'n, 'z) server_world =
  "('u, ('c, 'f, 'fs, 'h, 'r, 'n, 'z) server_env) uds_world"

record ('u, 'c, 'f, 'fs, 'h, 'r, 'n, 'z) server_cfg =
  sc_layout :: mem_layout
  sc_disable_switch :: bool
  sc_default_bitrate :: u32
  sc_transfer :: transfer_cfg
  sc_can :: "'c can_ops"
  sc_ops :: "('f, 'fs, 'h, 'r) transfer_ops"
  sc_boot :: "'n boot_ops"
  sc_copy :: "u8 list \<Rightarrow> 'r \<Rightarrow> UDSErr_t \<times> 'r"
  sc_user_check :: "'u \<Rightarrow> uds_context \<Rightarrow> bool \<Rightarrow> ('u, 'c, 'f, 'fs, 'h, 'r, 'n, 'z) server_world \<Rightarrow>
    (UDSErr_t \<times> bool, ('u, 'c, 'f, 'fs, 'h, 'r, 'n, 'z) server_world) outcome"
  sc_user_action :: "'u \<Rightarrow> uds_context \<Rightarrow> bool \<Rightarrow> ('u, 'c, 'f, 'fs, 'h, 'r, 'n, 'z) server_world \<Rightarrow>
    (UDSErr_t \<times> bool \<times> uds_arg, ('u, 'c, 'f, 'fs, 'h, 'r, 'n, 'z) server_world) outcome"
  sc_user_unregister :: "'u \<Rightarrow> addr \<Rightarrow> ('u, 'c, 'f, 'fs, 'h, 'r, 'n, 'z) server_world \<Rightarrow>
    (c_int, ('u, 'c, 'f, 'fs, 'h, 'r, 'n, 'z) server_world) outcome"

section \<open>Parts of the state\<close>

definition put_env :: "('x \<Rightarrow> 'x) \<Rightarrow> ('u, 'x) uds_world \<Rightarrow> ('u, 'x) uds_world" where
  "put_env f w = w\<lparr>env := f (env w)\<rparr>"

definition on_link ::
  "('c link_state \<Rightarrow> ('a, 'c link_state) outcome) \<Rightarrow> ('u, 'c, 'f, 'fs, 'h, 'r, 'n, 'z) server_world \<Rightarrow>
   ('a, ('u, 'c, 'f, 'fs, 'h, 'r, 'n, 'z) server_world) outcome" where
  "on_link = olift (\<lambda>w. srv_link (env w)) (\<lambda>s. put_env (\<lambda>x. x\<lparr>srv_link := s\<rparr>))"

definition on_transfer ::
  "(('f, 'fs, 'h, 'r) transfer_world \<Rightarrow> ('a, ('f, 'fs, 'h, 'r) transfer_world) outcome) \<Rightarrow>
   ('u, 'c, 'f, 'fs, 'h, 'r, 'n, 'z) server_world \<Rightarrow> ('a, ('u, 'c, 'f, 'fs, 'h, 'r, 'n, 'z) server_world) outcome" where
  "on_transfer = olift (\<lambda>w. srv_transfer (env w)) (\<lambda>s. put_env (\<lambda>x. x\<lparr>srv_transfer := s\<rparr>))"

definition on_memory ::
  "(memory \<Rightarrow> ('a, memory) outcome) \<Rightarrow> ('u, 'c, 'f, 'fs, 'h, 'r, 'n, 'z) server_world \<Rightarrow>
   ('a, ('u, 'c, 'f, 'fs, 'h, 'r, 'n, 'z) server_world) outcome" where
  "on_memory = olift (\<lambda>w. srv_memory (env w)) (\<lambda>s. put_env (\<lambda>x. x\<lparr>srv_memory := s\<rparr>))"

definition on_boot ::
  "('n \<Rightarrow> ('a, 'n) outcome) \<Rightarrow> ('u, 'c, 'f, 'fs, 'h, 'r, 'n, 'z) server_world \<Rightarrow>
   ('a, ('u, 'c, 'f, 'fs, 'h, 'r, 'n, 'z) server_world) outcome" where
  "on_boot = olift (\<lambda>w. srv_boot (env w)) (\<lambda>s. put_env (\<lambda>x. x\<lparr>srv_boot := s\<rparr>))"

definition server_dddi_env ::
  "('u, 'c, 'f, 'fs, 'h, 'r, 'n, 'z) server_cfg \<Rightarrow> ('c, 'f, 'fs, 'h, 'r, 'n, 'z) server_env dddi_env" where
  "server_dddi_env cfg =
     \<lparr>temp_buffer = srv_temp_buffer, set_temp_buffer = (\<lambda>b x. x\<lparr>srv_temp_buffer := b\<rparr>),
      lib_copy = (\<lambda>bs x. case sc_copy cfg bs (tw_resp (srv_transfer x)) of
        (r, rs) \<Rightarrow> (r, x\<lparr>srv_transfer := (srv_transfer x)\<lparr>tw_resp := rs\<rparr>\<rparr>))\<rparr>"

section \<open>Calls through function pointers\<close>

primrec run_check ::
  "nat \<Rightarrow> ('u, 'c, 'f, 'fs, 'h, 'r, 'n, 'z) server_cfg \<Rightarrow> ('u, ('c, 'f, 'fs, 'h, 'r, 'n, 'z) server_env) check_sem" where
  "run_check 0 cfg = (\<lambda>c ctx b w. NoFuel)"
| "run_check (Suc n) cfg = (\<lambda>c ctx b w.
     case c of
       Check_user u \<Rightarrow> sc_user_check cfg u ctx b w
     | Fn_check_read_with_data_id \<Rightarrow> uds_check_read_with_data_id (run_check n cfg) ctx b w
     | Fn_check_write_with_data_id \<Rightarrow> uds_check_write_with_data_id (run_check n cfg) ctx b w
     | Fn_check_io_control_with_data_id \<Rightarrow> uds_check_io_control_with_data_id (run_check n cfg) ctx b w
     | Fn_check_with_routine_id \<Rightarrow> uds_check_with_routine_id_fn (run_check n cfg) ctx b w
     | Fn_check_with_subfunc \<Rightarrow> uds_check_with_subfunc_fn (run_check n cfg) ctx b w
     | Fn_check_always_apply \<Rightarrow> uds_check_always_apply ctx b w
     | Fn_check_ecu_hard_reset \<Rightarrow> uds_check_ecu_hard_reset ctx b w
     | Fn_check_execute_scheduled_reset \<Rightarrow> uds_check_execute_scheduled_reset ctx b w
     | Fn_check_default_memory_by_addr_read \<Rightarrow> uds_check_default_memory_by_addr_read (sc_layout cfg) ctx b w
     | Fn_check_default_memory_by_addr_write \<Rightarrow> uds_check_default_memory_by_addr_write (sc_layout cfg) ctx b w
     | Fn_check_default_dynamically_define_data_ids \<Rightarrow> uds_check_default_dynamically_define_data_ids ctx b w
     | Fn_dynamic_data_by_id_read_check \<Rightarrow> uds_dynamic_data_by_id_read_data_by_id_check ctx b w
     | Fn_check_default_link_control \<Rightarrow> on_link (uds_check_default_link_control ctx b) w
     | Fn_check_default_link_control_change_diag_session \<Rightarrow>
         uds_check_default_link_control_change_diag_session ctx b w
     | Fn_diag_session_ctrl_check \<Rightarrow> diag_session_ctrl_check ctx b w
     | Fn_diag_session_timeout_check \<Rightarrow> diag_session_timeout_check ctx b w)"

primrec run_action ::
  "nat \<Rightarrow> ('u, 'c, 'f, 'fs, 'h, 'r, 'n, 'z) server_cfg \<Rightarrow> ('u, ('c, 'f, 'fs, 'h, 'r, 'n, 'z) server_env) action_sem" where
  "run_action 0 cfg = (\<lambda>a ctx b w. NoFuel)"
| "run_action (Suc n) cfg = (\<lambda>a ctx b w.
     case a of
       Action_user u \<Rightarrow> sc_user_action cfg u ctx b w
     | Fn_action_ecu_hard_reset \<Rightarrow> uds_action_ecu_hard_reset (srv_p2_ms (env w) (ctx_instance ctx)) ctx b w
     | Fn_action_execute_scheduled_reset \<Rightarrow> uds_action_execute_scheduled_reset ctx b w
     | Fn_action_default_memory_by_addr_read \<Rightarrow>
         uds_action_default_memory_by_addr_read (call_copy (server_dddi_env cfg)) (\<lambda>w. srv_memory (env w)) ctx b w
     | Fn_action_default_memory_by_addr_write \<Rightarrow> on_memory (uds_action_default_memory_by_addr_write ctx b) w
     | Fn_action_default_dynamically_define_data_ids \<Rightarrow>
         uds_action_default_dynamically_define_data_ids (run_unregister (sc_user_unregister cfg)) ctx b w
     | Fn_dynamic_data_by_id_read_action \<Rightarrow>
         uds_dynamic_data_by_id_read_data_by_id_action (server_dddi_env cfg)
           (uds_event_callback (run_check n cfg) (run_action n cfg) uds_handlers n) n ctx b w
     | Fn_action_default_link_control \<Rightarrow>
         on_link (uds_action_default_link_control (sc_can cfg) (srv_sessionType (env w) (ctx_instance ctx)) ctx b) w
     | Fn_action_default_link_control_change_diag_session \<Rightarrow>
         on_link (uds_action_default_link_control_change_diag_session (sc_default_bitrate cfg) (sc_can cfg) ctx b) w
     | Fn_action_upload_download \<Rightarrow>
         on_transfer (uds_action_upload_download (sc_transfer cfg) (sc_ops cfg) ctx b) w
     | Fn_diag_session_ctrl_action \<Rightarrow> on_boot (diag_session_ctrl_action (sc_disable_switch cfg) (sc_boot cfg) ctx b) w
     | Fn_diag_session_timeout_action \<Rightarrow> diag_session_timeout_action ctx b w)"

definition server_event ::
  "nat \<Rightarrow> ('u, 'c, 'f, 'fs, 'h, 'r, 'n, 'z) server_cfg \<Rightarrow> inst \<Rightarrow> UDSEvent_t \<Rightarrow> uds_arg \<Rightarrow>
   ('u, 'c, 'f, 'fs, 'h, 'r, 'n, 'z) server_world \<Rightarrow>
   (UDSErr_t \<times> uds_arg, ('u, 'c, 'f, 'fs, 'h, 'r, 'n, 'z) server_world) outcome" where
  "server_event n cfg = uds_event_callback (run_check n cfg) (run_action n cfg) uds_handlers n"

section \<open>The copy buffer of the server\<close>

interpretation srv_buffer: dddi_buffer "server_dddi_env cfg" "\<lambda>x. tw_resp (srv_transfer x)"
  for cfg :: "('u, 'c, 'f, 'fs, 'h, u8 list, 'n, 'z) server_cfg"
  by unfold_locales (simp_all add: server_dddi_env_def)

section \<open>Walking past handlers\<close>

text \<open>The dispatcher walks past a registration: it is not called, or does not apply, and nothing changes.\<close>

definition skips ::
  "('u, 'x) check_sem \<Rightarrow> ('u, 'x) action_sem \<Rightarrow> inst \<Rightarrow> UDSEvent_t \<Rightarrow> uds_arg \<Rightarrow> 'u uds_event_handler_data \<Rightarrow>
   ('u, 'x) uds_world \<Rightarrow> reg_ref \<Rightarrow> bool" where
  "skips ck ac i ev arg h w ref \<longleftrightarrow>
     (\<forall>found c. uds_check_and_act_on_event ck ac
        \<lparr>ctx_instance = i, ctx_registration = ref, ctx_event = ev, ctx_arg = arg\<rparr> h found c w =
        Returns (UDS_OK, found, False, arg) w)"

lemma skips_type:
  assumes "deref_reg w ref = Some r" and "reg_type r \<noteq> h_registration_type h"
  shows "skips ck ac i ev arg h w ref"
  using assms by (simp add: skips_def uds_check_and_act_on_event_def)

lemma skips_check_false:
  assumes "deref_reg w ref = Some r" and "h_get_check h r = Some c"
    and "ck c \<lparr>ctx_instance = i, ctx_registration = ref, ctx_event = ev, ctx_arg = arg\<rparr> False w = Returns (UDS_OK, False) w"
  shows "skips ck ac i ev arg h w ref"
  using assms by (auto simp: skips_def uds_check_and_act_on_event_def split: option.splits)

lemma handle_static_skip:
  "\<forall>n \<in> set ns. skips ck ac i ev arg h w (Static n) \<Longrightarrow>
   handle_static ck ac i ev h (ns @ ms) found arg w = handle_static ck ac i ev h ms found arg w"
  by (induction ns) (auto simp: skips_def)

lemma handle_dynamic_skip:
  assumes "dyn_regs w i = pre @ as" and "distinct (pre @ as)" and "\<forall>a \<in> set as. heap w a \<noteq> None"
    and "\<forall>a \<in> set as. skips ck ac i ev arg h w (Dynamic a)" and "length as \<le> fuel"
  shows "handle_dynamic ck ac i ev h fuel (head_of as) found arg w = Returns (Inr (found, arg)) w"
  using assms
proof (induction as arbitrary: pre fuel)
  case (Cons a as)
  then obtain fuel' where fuel: "fuel = Suc fuel'" by (cases fuel) auto
  have "next_in (dyn_regs w i) a = head_of as"
    using Cons.prems(1,2) next_in_append [of a pre as] by simp
  moreover have "handle_dynamic ck ac i ev h fuel' (head_of as) found arg w = Returns (Inr (found, arg)) w"
    by (rule Cons.IH [of "pre @ [a]"]) (use Cons.prems fuel in simp_all)
  ultimately show ?case using Cons.prems(3,4) by (auto simp: fuel skips_def)
qed simp

text \<open>The dynamic registrations before the one that answers are walked past as well.\<close>

lemma handle_dynamic_at:
  assumes "dyn_regs w i = pre @ as @ a # post" and "distinct (dyn_regs w i)" and "\<forall>b \<in> set as. heap w b \<noteq> None"
    and "\<forall>b \<in> set as. skips ck ac i ev arg h w (Dynamic b)"
  shows "handle_dynamic ck ac i ev h (length as + fuel) (head_of (as @ [a])) found arg w =
    handle_dynamic ck ac i ev h fuel (Some a) found arg w"
  using assms
proof (induction as arbitrary: pre)
  case (Cons b as)
  have "next_in (dyn_regs w i) b = head_of (as @ a # post)"
    using Cons.prems(1,2) next_in_append [of b pre "as @ a # post"] by simp
  moreover have "handle_dynamic ck ac i ev h (length as + fuel) (head_of (as @ [a])) found arg w =
      handle_dynamic ck ac i ev h fuel (Some a) found arg w"
    by (rule Cons.IH [of "pre @ [b]"]) (use Cons.prems in simp_all)
  ultimately show ?case using Cons.prems(3,4) by (cases as) (auto simp: skips_def)
qed simp

text \<open>Nothing applies: the default answer of the table entry, and no change.\<close>

lemma handle_event_all_skip:
  assumes "uds_wf w" and "\<forall>n < length (static_regs w). skips ck ac i ev arg h w (Static n)"
    and "\<forall>a \<in> set (dyn_regs w i). skips ck ac i ev arg h w (Dynamic a)" and "length (dyn_regs w i) \<le> fuel"
  shows "uds_handle_event ck ac fuel i ev arg h w = Returns (h_default_nrc h, arg) w"
proof -
  have "\<forall>a \<in> set (dyn_regs w i). heap w a \<noteq> None"
    using uds_wf_ids(2) [OF assms(1)] dyn_id_live by fastforce
  then have "handle_dynamic ck ac i ev h fuel (head_of (dyn_regs w i)) False arg w = Returns (Inr (False, arg)) w"
    using assms uds_wf_distinct [OF assms(1)] by (intro handle_dynamic_skip [of w i "[]"]) auto
  then show ?thesis
    using assms(2) handle_static_skip [of "[0..<length (static_regs w)]" ck ac i ev arg h w "[]" False]
    by (simp add: uds_handle_event_def)
qed

lemma find_handler:
  assumes "h \<in> set uds_handlers"
  shows "find (\<lambda>h'. h_event h' = h_event h) uds_handlers = Some h"
proof -
  have "find (\<lambda>h'. h_event h' = h_event h) xs = Some h" if "distinct (map h_event xs)" "h \<in> set xs"
    for xs :: "'a uds_event_handler_data list"
    using that by (induction xs) (auto simp: rev_image_eqI)
  then show ?thesis using assms distinct_handler_events by blast
qed

lemma server_event_handler:
  assumes "h \<in> set uds_handlers"
  shows "server_event n cfg i (h_event h) arg w =
    uds_handle_event (run_check n cfg) (run_action n cfg) n i (h_event h) arg h w"
  using find_handler [OF assms] by (simp add: server_event_def uds_event_callback_def)

text \<open>The static registrations before the one that answers are walked past.\<close>

lemma handle_static_at:
  assumes "n < length (static_regs w)" and "\<forall>m < n. skips ck ac i ev arg h w (Static m)"
  shows "handle_static ck ac i ev h [0..<length (static_regs w)] found arg w =
    handle_static ck ac i ev h (n # [Suc n..<length (static_regs w)]) found arg w"
proof -
  have "[0..<length (static_regs w)] = [0..<n] @ n # [Suc n..<length (static_regs w)]"
    using assms(1) upt_add_eq_append [of 0 n "length (static_regs w) - n"] by (simp add: upt_conv_Cons)
  then show ?thesis using assms(2) handle_static_skip [of "[0..<n]" ck ac i ev arg h w] by simp
qed

lemma first_index:
  assumes "r \<in> set xs"
  obtains n where "n < length xs" and "xs ! n = r" and "\<forall>m < n. xs ! m \<noteq> r"
proof -
  from split_list_first [OF assms] obtain ys zs where "xs = ys @ r # zs" and "r \<notin> set ys" by blast
  then have "length ys < length xs" "xs ! length ys = r" "\<forall>m < length ys. xs ! m \<noteq> r"
    by (auto simp: nth_append)
  then show ?thesis by (rule that)
qed

text \<open>
  One registration answers: it is in the table, all others are walked past, and its action consumes
  the event, or refuses it. Dynamic registrations are not looked at.
\<close>

lemma server_event_consumed:
  fixes w :: "('u, 'c, 'f, 'fs, 'h, 'r, 'n, 'z) server_world"
  assumes "h \<in> set uds_handlers" and "r \<in> set (static_regs w)"
    and others: "\<And>m. m < length (static_regs w) \<Longrightarrow> static_regs w ! m \<noteq> r \<Longrightarrow>
      skips (run_check n cfg) (run_action n cfg) i (h_event h) arg h w (Static m)"
    and answers: "\<And>m. m < length (static_regs w) \<Longrightarrow> static_regs w ! m = r \<Longrightarrow>
      uds_check_and_act_on_event (run_check n cfg) (run_action n cfg)
        \<lparr>ctx_instance = i, ctx_registration = Static m, ctx_event = h_event h, ctx_arg = arg\<rparr> h False True w =
      obind (act m) (\<lambda>(ret, c, arg') w'. Returns (ret, ret = UDS_OK, c, arg') w')"
    and consumes: "\<And>m ret c arg' w'. act m = Returns (ret, c, arg') w' \<Longrightarrow> c \<or> ret \<noteq> UDS_OK"
  shows "\<exists>m < length (static_regs w). static_regs w ! m = r \<and>
    server_event n cfg i (h_event h) arg w = obind (act m) (\<lambda>(ret, c, arg') w'. Returns (ret, arg') w')"
proof -
  obtain m where m: "m < length (static_regs w)" "static_regs w ! m = r" "\<forall>m' < m. static_regs w ! m' \<noteq> r"
    using first_index [OF assms(2)] by blast
  have walk: "handle_static (run_check n cfg) (run_action n cfg) i (h_event h) h [0..<length (static_regs w)] False arg w =
      handle_static (run_check n cfg) (run_action n cfg) i (h_event h) h (m # [Suc m..<length (static_regs w)]) False arg w"
    using m others by (intro handle_static_at) (auto intro: less_trans)
  have "server_event n cfg i (h_event h) arg w = obind (act m) (\<lambda>(ret, c, arg') w'. Returns (ret, arg') w')"
    unfolding server_event_handler [OF assms(1)] uds_handle_event_def walk handle_static.simps answers [OF m(1,2)] obind_assoc
    by (rule obind_cong [OF refl]) (auto dest: consumes split: prod.splits)
  then show ?thesis using m(1,2) by blast
qed

lemma handlers_member:
  "handler_read_data_by_identifier \<in> set uds_handlers" "handler_write_data_by_identifier \<in> set uds_handlers"
  "handler_io_control_by_identifier \<in> set uds_handlers" "handler_ecu_reset \<in> set uds_handlers"
  "handler_upload_download_request_download \<in> set uds_handlers" "handler_upload_download_request_upload \<in> set uds_handlers"
  "handler_upload_download_transfer_data \<in> set uds_handlers"
  "handler_upload_download_request_transfer_exit \<in> set uds_handlers"
  "handler_upload_download_request_file_transfer \<in> set uds_handlers"
  by (simp_all add: uds_handlers_def)

lemma deref_static: "n < length (static_regs w) \<Longrightarrow> deref_reg w (Static n) = Some (static_regs w ! n)"
  by simp

lemma deref_dynamic:
  assumes "uds_wf w" and "a \<in> set (dyn_regs w i)"
  obtains r where "deref_reg w (Dynamic a) = Some r"
  using dyn_id_deref [OF uds_wf_ids(2) [OF assms]] by blast

text \<open>The registrations an event of instance \<open>i\<close> is offered to.\<close>

definition offered :: "inst \<Rightarrow> ('u, 'x) uds_world \<Rightarrow> 'u uds_registration_t set" where
  "offered i w = set (static_regs w) \<union> {r. \<exists>a \<in> set (dyn_regs w i). deref_reg w (Dynamic a) = Some r}"

lemma server_event_default:
  assumes "uds_wf w" and "length (dyn_regs w i) \<le> n" and "h \<in> set uds_handlers"
    and "\<And>ref r. deref_reg w ref = Some r \<Longrightarrow> r \<in> offered i w \<Longrightarrow>
      skips (run_check n cfg) (run_action n cfg) i (h_event h) arg h w ref"
  shows "server_event n cfg i (h_event h) arg w = Returns (h_default_nrc h, arg) w"
  unfolding server_event_handler [OF assms(3)]
proof (rule handle_event_all_skip [OF assms(1) _ _ assms(2)])
  show "\<forall>k < length (static_regs w). skips (run_check n cfg) (run_action n cfg) i (h_event h) arg h w (Static k)"
    using assms(4) deref_static by (auto simp: offered_def)
  show "\<forall>a \<in> set (dyn_regs w i). skips (run_check n cfg) (run_action n cfg) i (h_event h) arg h w (Dynamic a)"
  proof
    fix a assume a: "a \<in> set (dyn_regs w i)"
    then obtain r where "deref_reg w (Dynamic a) = Some r" by (rule deref_dynamic [OF assms(1)])
    then show "skips (run_check n cfg) (run_action n cfg) i (h_event h) arg h w (Dynamic a)"
      using a by (intro assms(4)) (auto simp: offered_def simp del: deref_reg.simps)
  qed
qed

section \<open>The upload and download handlers\<close>

definition upload_download_events :: "UDSEvent_t set" where
  "upload_download_events = {UDS_EVT_RequestDownload, UDS_EVT_RequestUpload, UDS_EVT_TransferData,
     UDS_EVT_RequestTransferExit, UDS_EVT_RequestFileTransfer}"

lemma on_transfer_keeps: "on_transfer f w = Returns x w' \<Longrightarrow> keeps_list i w w'"
  by (auto simp: on_transfer_def olift_def put_env_def keeps_list_def outcome_simps)

text \<open>They leave the registrations alone, so the dispatcher visits every registration once.\<close>

interpretation updown: stable_handlers "run_check n cfg" "run_action n cfg" i handler_upload_download_transfer_data
  for n and cfg :: "('u, 'c, 'f, 'fs, 'h, 'r, 'n, 'z) server_cfg" and i
proof
  fix r :: "'u uds_registration_t" and c :: "'u check_fn" and ctx b and x and w w' :: "('u, 'c, 'f, 'fs, 'h, 'r, 'n, 'z) server_world"
  assume "h_get_check handler_upload_download_transfer_data r = Some c" and "run_check n cfg c ctx b w = Returns x w'"
  then show "keeps_list i w w'"
    by (cases n) (auto simp: handler_upload_download_transfer_data_def get_check_def uds_check_always_apply_def)
next
  fix r :: "'u uds_registration_t" and a :: "'u action_fn" and ctx b y and w w' :: "('u, 'c, 'f, 'fs, 'h, 'r, 'n, 'z) server_world"
  assume "h_get_action handler_upload_download_transfer_data r = Some a" and "run_action n cfg a ctx b w = Returns y w'"
  then show "keeps_list i w w'"
    by (cases n) (auto simp: handler_upload_download_transfer_data_def get_action_def intro: on_transfer_keeps)
qed

lemma upload_download_handler:
  assumes "ev \<in> upload_download_events"
  obtains h :: "'u uds_event_handler_data" where "h \<in> set uds_handlers" "h_event h = ev" "h_get_check h = get_check"
    "h_get_action h = get_action" "h_registration_type h = UDS_REGISTRATION_TYPE__UPLOAD_DOWNLOAD"
    "h_default_nrc h = UDS_NRC_SubFunctionNotSupported"
proof -
  from assms consider "ev = UDS_EVT_RequestDownload" | "ev = UDS_EVT_RequestUpload" | "ev = UDS_EVT_TransferData"
    | "ev = UDS_EVT_RequestTransferExit" | "ev = UDS_EVT_RequestFileTransfer"
    by (auto simp: upload_download_events_def)
  then show ?thesis
  proof cases
    case 1
    then show ?thesis
      using that [OF handlers_member(5)] by (simp add: handler_upload_download_request_download_def)
  next
    case 2
    then show ?thesis
      using that [OF handlers_member(6)] by (simp add: handler_upload_download_request_upload_def)
  next
    case 3
    then show ?thesis
      using that [OF handlers_member(7)] by (simp add: handler_upload_download_transfer_data_def)
  next
    case 4
    then show ?thesis
      using that [OF handlers_member(8)] by (simp add: handler_upload_download_request_transfer_exit_def)
  next
    case 5
    then show ?thesis
      using that [OF handlers_member(9)] by (simp add: handler_upload_download_request_file_transfer_def)
  qed
qed

lemma action_upload_download_consumes:
  "uds_action_upload_download tc ops ctx b w = Returns (r, c, arg) w' \<Longrightarrow> c"
  by (auto simp: uds_action_upload_download_def outcome_simps
      split: if_splits UDSEvent_t.splits uds_arg.splits prod.splits option.splits)

lemma identifier_handler:
  assumes "ev \<in> {UDS_EVT_ReadDataByIdent, UDS_EVT_WriteDataByIdent, UDS_EVT_IOControl}"
  obtains h :: "'u uds_event_handler_data" and f where "h \<in> set uds_handlers" "h_event h = ev"
    "h_default_nrc h = UDS_NRC_RequestOutOfRange" "h_registration_type h = UDS_REGISTRATION_TYPE__DATA_IDENTIFIER"
    "\<forall>r. h_get_check h r = Some f"
    "f \<in> {Fn_check_read_with_data_id, Fn_check_write_with_data_id, Fn_check_io_control_with_data_id}"
proof -
  from assms consider "ev = UDS_EVT_ReadDataByIdent" | "ev = UDS_EVT_WriteDataByIdent" | "ev = UDS_EVT_IOControl"
    by auto
  then show ?thesis
  proof cases
    case 1
    then show ?thesis
      using that [OF handlers_member(1)]
      by (simp add: handler_read_data_by_identifier_def uds_get_check_for_read_data_by_identifier_def)
  next
    case 2
    then show ?thesis
      using that [OF handlers_member(2)]
      by (simp add: handler_write_data_by_identifier_def uds_get_check_for_write_data_by_identifier_def)
  next
    case 3
    then show ?thesis
      using that [OF handlers_member(3)]
      by (simp add: handler_io_control_by_identifier_def uds_get_check_for_io_control_by_identifier_def)
  qed
qed

section \<open>Properties\<close>

text \<open>A server with the demonstration flash and no handlers of its own, for the witnesses.\<close>

definition demo_server_cfg :: "(nat, unit, nat \<Rightarrow> u8, unit, unit, u8 list, unit, unit) server_cfg" where
  "demo_server_cfg =
     \<lparr>sc_layout = board_layout, sc_disable_switch = True, sc_default_bitrate = 500000, sc_transfer = demo_cfg,
      sc_can = \<lparr>can_stop = (\<lambda>c. (rc0, c)), can_set_bitrate = (\<lambda>b c. (rc0, c)), can_start = (\<lambda>c. (rc0, c))\<rparr>,
      sc_ops = demo_ops, sc_boot = \<lparr>retention_write = (\<lambda>off d n. (rc0, n)), bootmode_set = (\<lambda>m n. (rc0, n))\<rparr>,
      sc_copy = (\<lambda>bs r. (UDS_PositiveResponse, r @ bs)),
      sc_user_check = (\<lambda>u ctx b w. Returns (UDS_OK, b) w), sc_user_action = (\<lambda>u ctx b w. Returns (UDS_OK, b, ctx_arg ctx) w),
      sc_user_unregister = (\<lambda>u a w. Returns rc0 w)\<rparr>"

definition demo_server_env :: "(unit, nat \<Rightarrow> u8, unit, unit, u8 list, unit, unit) server_env" where
  "demo_server_env =
     \<lparr>srv_sessionType = (\<lambda>_. 1), srv_securityLevel = (\<lambda>_. 0), srv_p2_ms = (\<lambda>_. 50), srv_user_context = (\<lambda>_. None), srv_link = \<lparr>lk_modifier = 0, lk_modifier_set = False, lk_can = ()\<rparr>,
      srv_transfer = demo_world, srv_memory = (\<lambda>_. 0), srv_temp_buffer = [], srv_boot = (), srv_user = ()\<rparr>"

definition upload_download_registration :: "'u uds_registration_t" where
  "upload_download_registration =
     \<lparr>reg_instance = None, reg_data = Reg_upload_download, reg_dynamic_id = 0, reg_unregister_fn = None\<rparr>"

definition demo_server :: "(nat, unit, nat \<Rightarrow> u8, unit, unit, u8 list, unit, unit) server_world" where
  "demo_server = boot_world [upload_download_registration] demo_server_env"

lemma demo_server_facts:
  "uds_wf demo_server" "dyn_regs demo_server i = []" "static_regs demo_server = [upload_download_registration]"
  "offered i demo_server = {upload_download_registration}" "env demo_server = demo_server_env"
  unfolding demo_server_def by (simp_all add: offered_def) (simp_all add: boot_world_def)

text \<open>
  An event for which the library has no table entry is answered with ServiceNotSupported; an
  event with an entry, but without any registration of its type, with the negative response of the
  entry. In both cases nothing changes.
\<close>

theorem unserved_event_refused:
  fixes w :: "('u, 'c, 'f, 'fs, 'h, 'r, 'n, 'z) server_world"
  assumes "uds_wf w" and "length (dyn_regs w i) \<le> n"
  shows "case find (\<lambda>h. h_event h = ev) (uds_handlers :: 'u uds_event_handler_data list) of
      None \<Rightarrow> server_event n cfg i ev arg w = Returns (UDS_NRC_ServiceNotSupported, arg) w
    | Some h \<Rightarrow> (\<forall>r \<in> offered i w. reg_type r \<noteq> h_registration_type h) \<longrightarrow>
        server_event n cfg i ev arg w = Returns (h_default_nrc h, arg) w"
proof (cases "find (\<lambda>h. h_event h = ev) (uds_handlers :: 'u uds_event_handler_data list)")
  case None
  then show ?thesis by (simp add: server_event_def uds_event_callback_def)
next
  case (Some h)
  then have h: "h \<in> set uds_handlers" "h_event h = ev" by (auto simp: find_Some_iff)
  have "server_event n cfg i ev arg w = Returns (h_default_nrc h, arg) w"
    if "\<forall>r \<in> offered i w. reg_type r \<noteq> h_registration_type h"
    using server_event_default [OF assms h(1), of cfg arg] that h(2) skips_type by blast
  with Some show ?thesis by simp
qed

theorem unserved_event_refused_witness:
  "server_event 0 demo_server_cfg 0 (UDS_EVT_unhandled 7) Arg_other demo_server =
     Returns (UDS_NRC_ServiceNotSupported, Arg_other) demo_server"
proof -
  have "find (\<lambda>h. h_event h = UDS_EVT_unhandled 7) (uds_handlers :: nat uds_event_handler_data list) = None"
    by (simp add: find_None_iff uds_handlers_def handler_defs)
  then show ?thesis
    using unserved_event_refused [OF demo_server_facts(1), where ev = "UDS_EVT_unhandled 7" and n = 0 and i = 0
        and cfg = demo_server_cfg and arg = Arg_other]
    by (simp add: demo_server_facts)
qed

text \<open>
  Reading, writing or controlling a data identifier that no registration has is answered with
  RequestOutOfRange, and nothing changes: no handler of another identifier runs.
\<close>

theorem unknown_identifier_refused:
  fixes w :: "('u, 'c, 'f, 'fs, 'h, 'r, 'n, 'z) server_world"
  assumes "uds_wf w" and "length (dyn_regs w i) \<le> Suc n" and "args_data_id arg = Some did"
    and "ev \<in> {UDS_EVT_ReadDataByIdent, UDS_EVT_WriteDataByIdent, UDS_EVT_IOControl}"
    and "\<forall>r \<in> offered i w. \<forall>u d rd wr io. reg_data r \<noteq> Reg_data_identifier u d did rd wr io"
  shows "server_event (Suc n) cfg i ev arg w = Returns (UDS_NRC_RequestOutOfRange, arg) w"
proof -
  obtain h :: "'u uds_event_handler_data" and f where h: "h \<in> set uds_handlers" "h_event h = ev"
    "h_default_nrc h = UDS_NRC_RequestOutOfRange" "h_registration_type h = UDS_REGISTRATION_TYPE__DATA_IDENTIFIER"
    "\<forall>r. h_get_check h r = Some f"
    and f: "f \<in> {Fn_check_read_with_data_id, Fn_check_write_with_data_id, Fn_check_io_control_with_data_id}"
    by (rule identifier_handler [OF assms(4)])
  have "skips (run_check (Suc n) cfg) (run_action (Suc n) cfg) i (h_event h) arg h w ref"
    if ref: "deref_reg w ref = Some r" "r \<in> offered i w" for ref r
  proof (cases "reg_type r = h_registration_type h")
    case False
    then show ?thesis by (rule skips_type [OF ref(1)])
  next
    case True
    then obtain u d k rd wr io where r: "reg_data r = Reg_data_identifier u d k rd wr io"
      using h(4) by (cases "reg_data r") auto
    with assms(5) ref(2) have k: "did \<noteq> k" by auto
    let ?ctx = "\<lparr>ctx_instance = i, ctx_registration = ref, ctx_event = h_event h, ctx_arg = arg\<rparr>"
    have "run_check (Suc n) cfg f ?ctx False w = Returns (UDS_OK, False) w"
      using f check_read_other_id [of w ?ctx r u d k rd wr io did "run_check n cfg" False] ref(1) r assms(3) k by auto
    then show ?thesis using skips_check_false [OF ref(1)] h(5) by blast
  qed
  then show ?thesis using server_event_default [OF assms(1,2) h(1)] h(2,3) by metis
qed

theorem unknown_identifier_refused_witness:
  "server_event (Suc 0) demo_server_cfg 0 UDS_EVT_WriteDataByIdent (Arg_WDBI 0xF190 [1]) demo_server =
     Returns (UDS_NRC_RequestOutOfRange, Arg_WDBI 0xF190 [1]) demo_server"
  by (rule unknown_identifier_refused [OF demo_server_facts(1), where did = "0xF190"])
    (simp_all add: demo_server_facts upload_download_registration_def)

text \<open>
  The five events of the upload and download service reach the service whatever else is
  registered: with the registration of the service in the table of static registrations, the
  answer of the server is that of the service, and registrations and heap do not change.
\<close>

theorem upload_download_reaches_service:
  assumes "ev \<in> upload_download_events" and "s < length (static_regs w)"
    and "reg_data (static_regs w ! s) = Reg_upload_download"
    and "\<forall>s' < s. reg_data (static_regs w ! s') \<noteq> Reg_upload_download"
  shows "server_event (Suc n) cfg i ev arg w =
    obind (on_transfer (uds_action_upload_download (sc_transfer cfg) (sc_ops cfg)
        \<lparr>ctx_instance = i, ctx_registration = Static s, ctx_event = ev, ctx_arg = arg\<rparr> True) w)
      (\<lambda>(r, _, arg') w'. Returns (r, arg') w')"
proof -
  obtain h :: "'a uds_event_handler_data" where h: "h \<in> set uds_handlers" "h_event h = ev" "h_get_check h = get_check"
    "h_get_action h = get_action" "h_registration_type h = UDS_REGISTRATION_TYPE__UPLOAD_DOWNLOAD"
    by (rule upload_download_handler [OF assms(1)])
  let ?ck = "run_check (Suc n) cfg" and ?ac = "run_action (Suc n) cfg"
  let ?ctx = "\<lparr>ctx_instance = i, ctx_registration = Static s, ctx_event = ev, ctx_arg = arg\<rparr>"
  have "skips ?ck ?ac i ev arg h w (Static s')" if "s' < s" for s'
  proof (rule skips_type)
    show "deref_reg w (Static s') = Some (static_regs w ! s')" using that assms(2) by simp
    show "reg_type (static_regs w ! s') \<noteq> h_registration_type h"
      using assms(4) that h(5) by (cases "reg_data (static_regs w ! s')") auto
  qed
  then have walk: "handle_static ?ck ?ac i ev h [0..<length (static_regs w)] False arg w =
      handle_static ?ck ?ac i ev h (s # [Suc s..<length (static_regs w)]) False arg w"
    using handle_static_skip [of "[0..<s]" ?ck ?ac i ev arg h w "s # [Suc s..<length (static_regs w)]"]
    by (simp add: upt_split [OF assms(2)])
  have act: "uds_check_and_act_on_event ?ck ?ac ?ctx h False True w =
      obind (on_transfer (uds_action_upload_download (sc_transfer cfg) (sc_ops cfg) ?ctx True) w)
        (\<lambda>(r, c, arg') w'. Returns (r, r = UDS_OK, c, arg') w')"
    using assms(2,3) h
    by (auto simp: uds_check_and_act_on_event_def get_check_def get_action_def uds_check_always_apply_def
        intro: obind_cong split: prod.splits)
  have consumed: "c" if "on_transfer (uds_action_upload_download (sc_transfer cfg) (sc_ops cfg) ?ctx True) w = Returns (r, c, arg') w'"
    for r c arg' w'
    using that action_upload_download_consumes by (auto simp: on_transfer_def olift_def outcome_simps)
  show ?thesis
    unfolding server_event_handler [OF h(1), unfolded h(2)] uds_handle_event_def walk handle_static.simps act obind_assoc
    by (rule obind_cong [OF refl]) (auto dest: consumed split: prod.splits)
qed

theorem upload_download_reaches_service_witness:
  "server_event (Suc 0) demo_server_cfg 3 UDS_EVT_RequestTransferExit Arg_other demo_server =
    obind (on_transfer (uds_action_upload_download (sc_transfer demo_server_cfg) (sc_ops demo_server_cfg)
        \<lparr>ctx_instance = 3, ctx_registration = Static 0, ctx_event = UDS_EVT_RequestTransferExit, ctx_arg = Arg_other\<rparr> True)
        demo_server) (\<lambda>(r, _, arg') w'. Returns (r, arg') w')"
  by (rule upload_download_reaches_service)
    (simp_all add: upload_download_events_def demo_server_facts upload_download_registration_def)

lemma read_event_eq:
  "server_event n cfg i UDS_EVT_ReadDataByIdent arg w =
     uds_handle_event (run_check n cfg) (run_action n cfg) n i UDS_EVT_ReadDataByIdent arg handler_read_data_by_identifier w"
  using server_event_handler [OF handlers_member(1)] by (simp add: handler_read_data_by_identifier_def)

text \<open>Registrations of the identifier \<open>did\<close>; the filter of the dispatcher walks past all others.\<close>

definition identifies :: "u16 \<Rightarrow> 'u uds_registration_t \<Rightarrow> bool" where
  "identifies did r \<longleftrightarrow> (case reg_data r of Reg_data_identifier _ _ d _ _ _ \<Rightarrow> d = did | _ \<Rightarrow> False)"

lemma skips_identifier:
  assumes "deref_reg w ref = Some r" and "\<not> identifies did r"
  shows "skips (run_check (Suc n) cfg) ac i ev (Arg_RDBI did c) handler_read_data_by_identifier w ref"
proof (cases "reg_type r = UDS_REGISTRATION_TYPE__DATA_IDENTIFIER")
  case True
  then obtain u l d rd wr io where "reg_data r = Reg_data_identifier u l d rd wr io" by (cases "reg_data r") auto
  with assms show ?thesis
    by (intro skips_check_false [OF assms(1), where c = Fn_check_read_with_data_id])
      (auto simp: handler_read_data_by_identifier_def uds_get_check_for_read_data_by_identifier_def
        uds_check_read_with_data_id_def identifies_def simp del: deref_reg.simps)
qed (auto intro!: skips_type [OF assms(1)] simp: handler_read_data_by_identifier_def)

text \<open>The state \<open>w\<close> with other contents of the copy buffer and of the response.\<close>

definition with_buffers ::
  "u8 list \<Rightarrow> 'r \<Rightarrow> ('u, 'c, 'f, 'fs, 'h, 'r, 'n, 'z) server_world \<Rightarrow> ('u, 'c, 'f, 'fs, 'h, 'r, 'n, 'z) server_world" where
  "with_buffers t r = put_env (\<lambda>x. x\<lparr>srv_temp_buffer := t, srv_transfer := (srv_transfer x)\<lparr>tw_resp := r\<rparr>\<rparr>)"

lemma with_buffers_simps [simp]:
  "heap (with_buffers t r w) = heap w" "dyn_regs (with_buffers t r w) = dyn_regs w" "static_regs (with_buffers t r w) = static_regs w"
  "tw_resp (srv_transfer (env (with_buffers t r w))) = r" "srv_temp_buffer (env (with_buffers t r w)) = t"
  "with_buffers t r (with_buffers t' r' w) = with_buffers t r w"
  "with_buffers (srv_temp_buffer (env w)) (tw_resp (srv_transfer (env w))) w = w"
  by (simp_all add: with_buffers_def put_env_def)

text \<open>
  What a read of identifier \<open>j\<close> by the server gives in the state \<open>w\<close>, for the nested reads of a dynamic identifier: it is answered positively,
  and, whatever the response is so far, copies \<open>bs\<close> to the empty copy buffer and changes nothing else.
\<close>

definition identifier_gives ::
  "nat \<Rightarrow> ('u, 'c, 'f, 'fs, 'h, u8 list, 'n, 'z) server_cfg \<Rightarrow> inst \<Rightarrow> ('u, 'c, 'f, 'fs, 'h, u8 list, 'n, 'z) server_world \<Rightarrow>
   u16 \<Rightarrow> u8 list \<Rightarrow> bool" where
  "identifier_gives n cfg i w j bs \<longleftrightarrow>
     (\<forall>r. \<exists>arg. server_event n cfg i UDS_EVT_ReadDataByIdent (Arg_RDBI j Copy_uds_copy) (with_buffers [] r w) =
        Returns (UDS_PositiveResponse, arg) (with_buffers bs r w))"

text \<open>The copy function of the package appends to a response of at most \<open>L\<close> bytes.\<close>

definition copy_room :: "nat \<Rightarrow> ('u, 'c, 'f, 'fs, 'h, u8 list, 'n, 'z) server_cfg \<Rightarrow> bool" where
  "copy_room L cfg \<longleftrightarrow> (\<forall>bs r. length r + length bs \<le> L \<longrightarrow> sc_copy cfg bs r = (UDS_PositiveResponse, r @ bs))"

lemma server_sources:
  assumes "\<forall>j \<in> J. identifier_gives n cfg i w j (src j)" and "copy_room L cfg"
  shows "sources (server_dddi_env cfg) (\<lambda>x. tw_resp (srv_transfer x)) (server_event n cfg) i src J L (\<lambda>v. \<exists>t r. v = with_buffers t r w)"
  unfolding sources_def
proof (intro conjI ballI allI impI)
  fix j v assume "j \<in> J" and "\<exists>t r. v = with_buffers t r w"
  then obtain t r where v: "v = with_buffers t r w" by blast
  obtain arg where "server_event n cfg i UDS_EVT_ReadDataByIdent (Arg_RDBI j Copy_uds_copy) (with_buffers [] r w) =
      Returns (UDS_PositiveResponse, arg) (with_buffers (src j) r w)"
    using assms(1) \<open>j \<in> J\<close> unfolding identifier_gives_def by blast
  moreover have "v\<lparr>env := set_temp_buffer (server_dddi_env cfg) [] (env v)\<rparr> = with_buffers [] r w"
    by (simp add: v server_dddi_env_def with_buffers_def put_env_def)
  ultimately show "\<exists>arg w'. server_event n cfg i UDS_EVT_ReadDataByIdent (Arg_RDBI j Copy_uds_copy)
        (v\<lparr>env := set_temp_buffer (server_dddi_env cfg) [] (env v)\<rparr>) = Returns (UDS_PositiveResponse, arg) w' \<and>
      (\<exists>t r. w' = with_buffers t r w) \<and> heap w' = heap v \<and> tw_resp (srv_transfer (env w')) = tw_resp (srv_transfer (env v)) \<and>
      temp_buffer (server_dddi_env cfg) (env w') = src j"
    by (intro exI [of _ arg] exI [of _ "with_buffers (src j) r w"]) (auto simp: v server_dddi_env_def)
next
  fix bs :: "u8 list" and v assume "(\<exists>t r. v = with_buffers t r w) \<and> length (tw_resp (srv_transfer (env v))) + length bs \<le> L"
  then obtain t r where v: "v = with_buffers t r w" and "length r + length bs \<le> L" by auto
  then have "lib_copy (server_dddi_env cfg) bs (env v) = (UDS_PositiveResponse, env (with_buffers t (r @ bs) w))"
    using assms(2) by (simp add: server_dddi_env_def copy_room_def with_buffers_def put_env_def)
  moreover have "v\<lparr>env := env (with_buffers t (r @ bs) w)\<rparr> = with_buffers t (r @ bs) w"
    by (simp add: v with_buffers_def put_env_def)
  ultimately show "\<exists>x'. lib_copy (server_dddi_env cfg) bs (env v) = (UDS_PositiveResponse, x') \<and>
      tw_resp (srv_transfer x') = tw_resp (srv_transfer (env v)) @ bs \<and> (\<exists>t r. v\<lparr>env := x'\<rparr> = with_buffers t r w)"
    by (intro exI [of _ "env (with_buffers t (r @ bs) w)"]) (auto simp: v)
qed

text \<open>
  (C21) Reading a dynamic identifier that is made of slices of other identifiers, by the whole server: where no registration before it has
  the identifier, each identifier that it takes a slice from is answered by the server itself, gives at least the
  bytes of the slice, and fits the copy buffer, and the response has room, the request is answered positively, the response gets the
  slices in the order of their definition, and nothing else but the copy buffer changes. The fuel is enough when
  it exceeds the number of items and of registrations before it by two.
\<close>

theorem dynamic_identifier_read:
  fixes w :: "('u, 'c, 'f, 'fs, 'h, u8 list, 'n, 'z) server_world"
  assumes "uds_wf w" and "\<forall>r \<in> set (static_regs w). \<not> identifies did r"
    and "dyn_regs w i = pre @ a # post" and "\<forall>b \<in> set pre. \<forall>r. deref_reg w (Dynamic b) = Some r \<longrightarrow> \<not> identifies did r"
    and "heap w a = Some (Cell_reg (dddi_reg i did l k))"
    and "heap w l = Some (Cell_slist as)" and "distinct as" and "length as = length ds"
    and "\<forall>j < length as. heap w (as ! j) = Some (Cell_data (ds ! j))" and "\<forall>d \<in> set ds. slice_ok src d"
    and "\<forall>j \<in> item_ids ds. identifier_gives (Suc n) cfg i w j (src j)" and "copy_room L cfg"
    and "length (tw_resp (srv_transfer (env w))) + length (concat (map (slice src) ds)) \<le> L"
    and "length as \<le> Suc n" and "length pre \<le> Suc n"
  shows "\<exists>t. server_event (Suc (Suc n)) cfg i UDS_EVT_ReadDataByIdent (Arg_RDBI did Copy_lib) w =
    Returns (UDS_PositiveResponse, Arg_RDBI did Copy_lib)
      (with_buffers t (tw_resp (srv_transfer (env w)) @ concat (map (slice src) ds)) w)"
proof -
  let ?ck = "run_check (Suc (Suc n)) cfg" and ?ac = "run_action (Suc (Suc n)) cfg" and ?h = handler_read_data_by_identifier
  let ?ctx = "\<lparr>ctx_instance = i, ctx_registration = Dynamic a, ctx_event = UDS_EVT_ReadDataByIdent, ctx_arg = Arg_RDBI did Copy_lib\<rparr>"
  let ?resp = "tw_resp (srv_transfer (env w))"
  obtain f where f: "Suc n = length pre + f" using assms(15) le_Suc_ex by blast
  have reg: "deref_reg w (Dynamic a) = Some (dddi_reg i did l k)" using assms(5) by simp
  have here: "\<exists>t r. w = with_buffers t r w" using with_buffers_simps(7) by metis
  obtain t r where items: "read_items (server_dddi_env cfg) (server_event (Suc n) cfg) i Copy_lib l (Suc n) (head_of as) w =
      Returns None (with_buffers t r w)" "r = ?resp @ concat (map (slice src) ds)"
    using srv_buffer.read_items_concat [OF server_sources [OF assms(11,12)], of "[]" as ds w l "Suc n"] assms(6-10,13,14) here
    by auto
  have act: "?ac Fn_dynamic_data_by_id_read_action ?ctx False w =
      Returns (UDS_OK, True, Arg_RDBI did Copy_lib) (with_buffers t (?resp @ concat (map (slice src) ds)) w)"
    using items reg assms(6)
    by (simp add: uds_dynamic_data_by_id_read_data_by_id_action_def dddi_reg_def dynamic_identifier_reg_def server_event_def
        del: deref_reg.simps run_check.simps run_action.simps(1) uds_event_callback_def)
  have ans: "uds_check_and_act_on_event ?ck ?ac ?ctx ?h False False w =
      Returns (UDS_OK, True, True, Arg_RDBI did Copy_lib) (with_buffers t (?resp @ concat (map (slice src) ds)) w)"
    using reg act
    by (simp add: uds_check_and_act_on_event_def handler_read_data_by_identifier_def dddi_reg_def
        dynamic_identifier_reg_def uds_get_check_for_read_data_by_identifier_def uds_check_read_with_data_id_def
        uds_get_action_for_read_data_by_identifier_def uds_dynamic_data_by_id_read_data_by_id_check_def
        del: deref_reg.simps run_action.simps)
  have "handle_static ?ck ?ac i UDS_EVT_ReadDataByIdent ?h [0..<length (static_regs w)] False (Arg_RDBI did Copy_lib) w =
      Returns (Inr (False, Arg_RDBI did Copy_lib)) w"
  proof -
    have "skips ?ck ?ac i UDS_EVT_ReadDataByIdent (Arg_RDBI did Copy_lib) ?h w (Static m)" if "m < length (static_regs w)" for m
      by (rule skips_identifier [OF deref_static [OF that]]) (use assms(2) that in simp)
    then show ?thesis
      using handle_static_skip [of "[0..<length (static_regs w)]" ?ck ?ac i UDS_EVT_ReadDataByIdent "Arg_RDBI did Copy_lib" ?h w "[]" False]
      by (simp del: run_check.simps run_action.simps)
  qed
  moreover have "handle_dynamic ?ck ?ac i UDS_EVT_ReadDataByIdent ?h (Suc (Suc n)) (head_of (dyn_regs w i)) False (Arg_RDBI did Copy_lib) w =
      handle_dynamic ?ck ?ac i UDS_EVT_ReadDataByIdent ?h (Suc f) (Some a) False (Arg_RDBI did Copy_lib) w"
  proof -
    have "b \<in> set (dyn_regs w i)" if "b \<in> set pre" for b using that assms(3) by simp
    then have "\<exists>r. deref_reg w (Dynamic b) = Some r" if "b \<in> set pre" for b using that deref_dynamic [OF assms(1)] by metis
    then have skip: "\<forall>b \<in> set pre. heap w b \<noteq> None \<and> skips ?ck ?ac i UDS_EVT_ReadDataByIdent (Arg_RDBI did Copy_lib) ?h w (Dynamic b)"
      using assms(4) skips_identifier by (fastforce split: option.splits simp del: run_check.simps run_action.simps)
    have "head_of (pre @ a # post) = head_of (pre @ [a])" by (cases pre) simp_all
    moreover have "Suc (Suc n) = length pre + Suc f" by (simp add: f)
    ultimately show ?thesis
      using handle_dynamic_at [of w i "[]" pre a post ?ck ?ac UDS_EVT_ReadDataByIdent "Arg_RDBI did Copy_lib" ?h "Suc f" False]
        uds_wf_distinct [OF assms(1), of i] assms(3) skip by (simp only: append_Nil) blast
  qed
  ultimately show ?thesis
    using ans by (intro exI [of _ t]) (simp add: read_event_eq uds_handle_event_def del: run_check.simps run_action.simps)
qed

text \<open>
  A server with an application that gives the bytes 1, 2, 3 for the identifier 0x0100, and with the dynamic identifier 0xF300 of two slices of it,
  after another dynamic identifier.
\<close>

definition demo_reader_cfg :: "(nat, unit, nat \<Rightarrow> u8, unit, unit, u8 list, unit, unit) server_cfg" where
  "demo_reader_cfg = demo_server_cfg\<lparr>sc_user_check := (\<lambda>u ctx b w. Returns (UDS_OK, True) w),
     sc_user_action := (\<lambda>u ctx b w.
       case ctx_arg ctx of
         Arg_RDBI _ c \<Rightarrow> obind (call_copy (server_dddi_env demo_server_cfg) c [1, 2, 3] w) (\<lambda>r w'. Returns (r, True, ctx_arg ctx) w')
       | _ \<Rightarrow> Undefined)\<rparr>"

definition demo_identifier :: "nat uds_registration_t" where
  "demo_identifier = \<lparr>reg_instance = Some 0, reg_data = Reg_data_identifier None None 0x0100
     \<lparr>act_check = Some (Check_user 0), act_action = Some (Action_user 0)\<rparr> no_actor no_actor,
     reg_dynamic_id = 0, reg_unregister_fn = None\<rparr>"

definition demo_reader :: "(nat, unit, nat \<Rightarrow> u8, unit, unit, u8 list, unit, unit) server_world" where
  "demo_reader = (boot_world [upload_download_registration, demo_identifier] demo_server_env)\<lparr>
     dyn_regs := (\<lambda>_. []) (0 := [5, 2]), malloc_cnt := 6,
     heap := [0 \<mapsto> Cell_slist [1, 3], 1 \<mapsto> Cell_data (Data_id 0x0100 1 2), 2 \<mapsto> Cell_reg (dddi_reg 0 0xF300 0 2),
       3 \<mapsto> Cell_data (Data_id 0x0100 0 1), 4 \<mapsto> Cell_slist [], 5 \<mapsto> Cell_reg (dddi_reg 0 0xF301 4 1)]\<rparr>"

lemma demo_identifier_gives: "identifier_gives (Suc (Suc 0)) demo_reader_cfg 0 demo_reader 0x0100 [1, 2, 3]"
  unfolding identifier_gives_def
  by (simp add: read_event_eq uds_handle_event_def demo_reader_def boot_world_def upload_download_registration_def demo_identifier_def upt_rec
      uds_check_and_act_on_event_def handler_read_data_by_identifier_def uds_get_check_for_read_data_by_identifier_def
      uds_get_action_for_read_data_by_identifier_def uds_check_read_with_data_id_def demo_reader_cfg_def call_copy_def uds_copy_def
      server_dddi_env_def with_buffers_def put_env_def)

theorem dynamic_identifier_read_witness:
  "\<exists>t. server_event 3 demo_reader_cfg 0 UDS_EVT_ReadDataByIdent (Arg_RDBI 0xF300 Copy_lib) demo_reader =
    Returns (UDS_PositiveResponse, Arg_RDBI 0xF300 Copy_lib) (with_buffers t [2, 3, 1] demo_reader)"
proof -
  have "\<exists>t. server_event (Suc (Suc (Suc 0))) demo_reader_cfg 0 UDS_EVT_ReadDataByIdent (Arg_RDBI 0xF300 Copy_lib) demo_reader =
    Returns (UDS_PositiveResponse, Arg_RDBI 0xF300 Copy_lib)
      (with_buffers t (tw_resp (srv_transfer (env demo_reader)) @
        concat (map (slice (\<lambda>_. [1, 2, 3])) [Data_id 0x0100 1 2, Data_id 0x0100 0 1])) demo_reader)"
  proof (rule dynamic_identifier_read [where as = "[1, 3]" and l = 0 and a = 2 and k = 2 and pre = "[5]" and post = "[]" and L = 100])
    show "\<forall>j \<in> item_ids [Data_id 0x0100 1 2, Data_id 0x0100 0 1]. identifier_gives (Suc (Suc 0)) demo_reader_cfg 0 demo_reader j [1, 2, 3]"
      using demo_identifier_gives by (auto simp: item_ids_def)
    show "\<forall>j < length [1 :: nat, 3]. heap demo_reader ([1, 3] ! j) = Some (Cell_data ([Data_id 0x0100 1 2, Data_id 0x0100 0 1] ! j))"
      by (auto simp: demo_reader_def less_Suc_eq)
    show "uds_wf demo_reader"
      by (auto simp: uds_wf_def demo_reader_def boot_world_def dddi_reg_def dyn_id_def)
  qed (simp_all add: demo_reader_def boot_world_def identifies_def upload_download_registration_def demo_identifier_def dddi_reg_def
      dynamic_identifier_reg_def slice_ok_def slice_def copy_room_def demo_reader_cfg_def demo_server_cfg_def demo_server_env_def
      demo_world_def transfer_start_def)
  moreover have "tw_resp (srv_transfer (env demo_reader)) = []"
    by (simp add: demo_reader_def boot_world_def demo_server_env_def demo_world_def transfer_start_def)
  ultimately show ?thesis by (simp add: slice_def numeral_3_eq_3)
qed

lemma static_walk_identifiers:
  assumes "\<forall>r \<in> set (static_regs w). reg_type r \<noteq> UDS_REGISTRATION_TYPE__DATA_IDENTIFIER"
  shows "handle_static ck ac i ev handler_read_data_by_identifier [0..<length (static_regs w)] found arg w =
    Returns (Inr (found, arg)) w"
proof -
  have "skips ck ac i ev arg handler_read_data_by_identifier w (Static n)" if "n < length (static_regs w)" for n
    using assms that by (intro skips_type [OF deref_static]) (auto simp: handler_read_data_by_identifier_def)
  then show ?thesis
    using handle_static_skip [of "[0..<length (static_regs w)]" ck ac i ev arg handler_read_data_by_identifier w "[]" found]
    by simp
qed

definition demo_dynamic_server :: "(nat, unit, nat \<Rightarrow> u8, unit, unit, u8 list, unit, unit) server_world" where
  "demo_dynamic_server = demo_server\<lparr>dyn_regs := (\<lambda>_. []) (0 := [2]), malloc_cnt := 3,
     heap := [0 \<mapsto> Cell_slist [1], 1 \<mapsto> Cell_data (Data_id 0xF300 1 2), 2 \<mapsto> Cell_reg (dddi_reg 0 0xF300 0 1)]\<rparr>"

text \<open>
  A dynamic identifier that contains itself cannot be read: the server calls itself again and
  again, whatever the depth it is given. Nothing in the define request prevents such an identifier.
\<close>

theorem self_reference_never_returns:
  fixes w :: "('u, 'c, 'f, 'fs, 'h, 'r, 'n, 'z) server_world"
  assumes "\<forall>r \<in> set (static_regs w). reg_type r \<noteq> UDS_REGISTRATION_TYPE__DATA_IDENTIFIER"
    and "dyn_regs w i = [a]" and "heap w a = Some (Cell_reg (dddi_reg i did l k))"
    and "heap w l = Some (Cell_slist [e])" and "heap w e = Some (Cell_data (Data_id did p z))"
  shows "server_event n cfg i UDS_EVT_ReadDataByIdent (Arg_RDBI did c) w = NoFuel"
  using assms
proof (induction n arbitrary: w c)
  case 0
  then show ?case
    using static_walk_identifiers [OF 0(1)] by (simp add: read_event_eq uds_handle_event_def)
next
  case (Suc n)
  let ?ctx = "\<lparr>ctx_instance = i, ctx_registration = Dynamic a, ctx_event = UDS_EVT_ReadDataByIdent, ctx_arg = Arg_RDBI did c\<rparr>"
  let ?w = "w\<lparr>env := set_temp_buffer (server_dddi_env cfg) [] (env w)\<rparr>"
  have again: "server_event n cfg i UDS_EVT_ReadDataByIdent (Arg_RDBI did Copy_uds_copy) ?w = NoFuel"
    by (rule Suc.IH) (use Suc.prems in simp_all)
  have reg: "deref_reg w (Dynamic a) = Some (dddi_reg i did l k)" using Suc.prems(3) by simp
  have "uds_check_and_act_on_event (run_check (Suc n) cfg) (run_action (Suc n) cfg) ?ctx
      handler_read_data_by_identifier False False w = NoFuel"
  proof (cases n)
    case 0
    then show ?thesis
      using reg
      by (simp add: uds_check_and_act_on_event_def handler_read_data_by_identifier_def dddi_reg_def
          dynamic_identifier_reg_def uds_get_check_for_read_data_by_identifier_def uds_check_read_with_data_id_def)
  next
    case (Suc m)
    have read: "uds_dynamic_data_by_id_read_data_by_id_action (server_dddi_env cfg)
        (uds_event_callback (run_check n cfg) (run_action n cfg) uds_handlers n) n ?ctx False w = NoFuel"
      using again Suc.prems reg Suc
      by (simp add: uds_dynamic_data_by_id_read_data_by_id_action_def server_event_def dddi_reg_def
          dynamic_identifier_reg_def del: run_check.simps run_action.simps)
    show ?thesis
      using reg read Suc
      by (simp add: uds_check_and_act_on_event_def handler_read_data_by_identifier_def dddi_reg_def
          dynamic_identifier_reg_def uds_get_check_for_read_data_by_identifier_def uds_check_read_with_data_id_def
          uds_get_action_for_read_data_by_identifier_def uds_dynamic_data_by_id_read_data_by_id_check_def)
  qed
  then show ?case
    using static_walk_identifiers [OF Suc.prems(1)] Suc.prems(2) by (simp add: read_event_eq uds_handle_event_def)
qed

theorem self_reference_never_returns_witness:
  "server_event 1000 demo_server_cfg 0 UDS_EVT_ReadDataByIdent (Arg_RDBI 0xF300 Copy_lib) demo_dynamic_server = NoFuel"
  by (rule self_reference_never_returns [where a = 2 and l = 0 and e = 1])
    (simp_all add: demo_dynamic_server_def, simp_all add: demo_server_facts upload_download_registration_def)

text \<open>
  A handler answers the events of every instance: a hard reset request to any instance \<open>i\<close> is
  accepted by the default reset handler, for whatever instance \<open>j\<close> that handler was registered; the
  power down time is that of the server of \<open>i\<close>.
\<close>

theorem registration_instance_ignored:
  fixes w :: "('u, 'c, 'f, 'fs, 'h, 'r, 'n, 'z) server_world"
  assumes "static_regs w = [\<lparr>reg_instance = j, reg_data = Reg_ecu_reset u
        \<lparr>act_check = Some Fn_check_ecu_hard_reset, act_action = Some Fn_action_ecu_hard_reset\<rparr> es ty,
        reg_dynamic_id = d, reg_unregister_fn = f\<rparr>]"
    and "dyn_regs w i = []"
  shows "server_event (Suc n) cfg i UDS_EVT_EcuReset (Arg_ECUReset (ecu_reset_val ECU_RESET__HARD) t) w =
    Returns (UDS_PositiveResponse, Arg_ECUReset (ecu_reset_val ECU_RESET__HARD) (srv_p2_ms (env w) i)) w"
proof -
  have ev: "server_event m cfg i UDS_EVT_EcuReset arg w =
      uds_handle_event (run_check m cfg) (run_action m cfg) m i UDS_EVT_EcuReset arg handler_ecu_reset w" for m arg
    using server_event_handler [OF handlers_member(4)] by (simp add: handler_ecu_reset_def)
  show ?thesis
    using assms
    by (simp add: ev uds_handle_event_def uds_check_and_act_on_event_def handler_ecu_reset_def
        uds_get_check_for_ecu_reset_def uds_get_action_for_ecu_reset_def uds_check_ecu_hard_reset_def
        uds_action_ecu_hard_reset_def)
qed

definition demo_reset_server :: "(nat, unit, nat \<Rightarrow> u8, unit, unit, u8 list, unit, unit) server_world" where
  "demo_reset_server = boot_world [\<lparr>reg_instance = Some 1, reg_data = Reg_ecu_reset None
     \<lparr>act_check = Some Fn_check_ecu_hard_reset, act_action = Some Fn_action_ecu_hard_reset\<rparr> no_actor 0,
     reg_dynamic_id = 0, reg_unregister_fn = None\<rparr>] demo_server_env"

theorem registration_instance_ignored_witness:
  "server_event (Suc 0) demo_server_cfg 7 UDS_EVT_EcuReset (Arg_ECUReset (ecu_reset_val ECU_RESET__HARD) 0) demo_reset_server =
    Returns (UDS_PositiveResponse, Arg_ECUReset (ecu_reset_val ECU_RESET__HARD) (srv_p2_ms (env demo_reset_server) 7)) demo_reset_server"
  by (rule registration_instance_ignored) (simp_all add: demo_reset_server_def boot_world_def)

end
