(* ===== verification/Default_Instance.thy ===== *)
theory Default_Instance
  imports Uds_Macro Iso14229 Uds_Server
begin

text \<open>
  The initialisation of an instance (\<^verbatim>\<open>uds_init\<close> and \<^verbatim>\<open>uds_get_isotp_config\<close> of \<^verbatim>\<open>lib/uds/uds.c\<close>), the
  instance the library defines itself (\<^verbatim>\<open>lib/uds/default_instance.c\<close>) with its registrations, and the
  address provider of the gearshift (\<^verbatim>\<open>lib/gearshift_address_providers\<close>, with the driver
  \<^verbatim>\<open>drivers/binary_encoded_gpio\<close>).
\<close>

section \<open>Initialisation of an instance\<close>

datatype 'u uds_callback_fn = Fn_uds_event_callback | Callback_user 'u

record ('u, 's) uds_instance =
  ui_iso14229 :: "('u uds_callback_fn, 's) iso14229_zephyr_instance"
  ui_user_context :: "addr option"
  ui_has_register :: bool
  ui_has_unregister :: bool

text \<open>
  \<open>k\<close> is the address of the instance, which is the user context of its iso14229 instance; its list
  of dynamic registrations is in the state of the handlers. \<open>set_callback\<close> is called through a pointer.
\<close>

definition uds_init ::
  "('s, 'd) iso14229_ops \<Rightarrow> inst \<Rightarrow> isotp_config \<Rightarrow> addr option \<Rightarrow> ('u, 's) uds_instance \<Rightarrow> 'd \<Rightarrow> ('v, 'x) uds_world \<Rightarrow>
   (c_int \<times> ('u, 's) uds_instance \<times> 'd, ('v, 'x) uds_world) outcome" where
  "uds_init ops k cfg user_context inst d w =
     (let inst = inst\<lparr>ui_user_context := user_context, ui_has_register := True, ui_has_unregister := True\<rparr>;
          w = w\<lparr>dyn_regs := (dyn_regs w)(k := [])\<rparr>
      in case iso14229_zephyr_init ops cfg (Some k) (ui_iso14229 inst) d of (ret, zi, d) \<Rightarrow>
      if rc_neg ret then Returns (ret, inst\<lparr>ui_iso14229 := zi\<rparr>, d) w
      else if \<not> has_set_callback zi then Undefined
      else
        (case iso14229_zephyr_set_callback (Some Fn_uds_event_callback) zi of (ret, zi) \<Rightarrow>
         if rc_neg ret then Returns (ret, inst\<lparr>ui_iso14229 := zi\<rparr>, d) w
         else Returns (rc0, inst\<lparr>ui_iso14229 := zi\<rparr>, d) w))"

text \<open>Null pointers are \<open>None\<close>; the second argument is the structure to be filled.\<close>

definition uds_get_isotp_config ::
  "('u, 's) uds_instance option \<Rightarrow> isotp_config option \<Rightarrow> c_int \<times> isotp_config option" where
  "uds_get_isotp_config inst out =
     (case (inst, out) of
        (Some inst, Some _) \<Rightarrow> (rc0, Some (iso_tp (ui_iso14229 inst)))
      | _ \<Rightarrow> (Inl EINVAL, out))"

section \<open>The default instance\<close>

text \<open>
  The registrations of \<^verbatim>\<open>default_instance.c\<close>, in the order of the file; \<open>link\<close> is
  \<^verbatim>\<open>CONFIG_UDS_USE_LINK_CONTROL\<close>. The linker may place them in any order.
\<close>

definition default_instance_registrations :: "bool \<Rightarrow> inst \<Rightarrow> 'u uds_registration_t list" where
  "default_instance_registrations link k =
     UDS_REGISTER_DIAG_SESSION_CTRL_HANDLER (Some k) (Some Fn_diag_session_ctrl_check) (Some Fn_diag_session_ctrl_action)
       (Some Fn_diag_session_timeout_check) (Some Fn_diag_session_timeout_action) None #
     (if link then UDS_REGISTER_LINK_CONTROL_DEFAULT_HANDLER (Some k) else []) @
     [UDS_REGISTER_ECU_DEFAULT_HARD_RESET_HANDLER (Some k)]"

text \<open>The addresses of the configuration.\<close>

definition uds_default_instance_get_addresses :: "u32 \<Rightarrow> u32 \<Rightarrow> u32 \<Rightarrow> u32 \<Rightarrow> isotp_config" where
  "uds_default_instance_get_addresses sa ta func_sa func_ta =
     \<lparr>source_addr = sa, target_addr = ta, source_addr_func = func_sa, target_addr_func = func_ta\<rparr>"

record 'd can_dev_ops =
  device_is_ready :: "'d \<Rightarrow> bool"
  can_set_mode_normal :: "'d \<Rightarrow> c_int \<times> 'd"
  can_dev_start :: "'d \<Rightarrow> c_int \<times> 'd"

text \<open>The result of \<open>uds_init\<close> is not used; the thread is started through a pointer.\<close>

definition uds_default_instance_init ::
  "('s, 'd) iso14229_ops \<Rightarrow> 'd can_dev_ops \<Rightarrow> inst \<Rightarrow> isotp_config \<Rightarrow> addr option \<Rightarrow> ('u, 's) uds_instance \<Rightarrow> 'd \<Rightarrow>
   ('v, 'x) uds_world \<Rightarrow> (c_int \<times> ('u, 's) uds_instance \<times> 'd, ('v, 'x) uds_world) outcome" where
  "uds_default_instance_init ops can k cfg user_context inst d w =
     obind (uds_init ops k cfg user_context inst d w) (\<lambda>(ret, inst, d) w.
       if \<not> device_is_ready can d then Returns (Inl ENODEV, inst, d) w
       else
         (case can_set_mode_normal can d of (err, d) \<Rightarrow>
          if err \<noteq> rc0 then Returns (err, inst, d) w
          else
            (case can_dev_start can d of (err, d) \<Rightarrow>
             if err \<noteq> rc0 then Returns (err, inst, d) w
             else if \<not> has_thread_start (ui_iso14229 inst) then Undefined
             else
               (case iso14229_zephyr_thread_start ops (ui_iso14229 inst) d of (r, zi, d) \<Rightarrow>
                Returns (rc0, inst\<lparr>ui_iso14229 := zi\<rparr>, d) w))))"

section \<open>Gearshift\<close>

text \<open>
  \<^verbatim>\<open>get_value\<close> of the binary encoded GPIO driver: \<open>pins\<close> is what \<^verbatim>\<open>gpio_pin_get_dt\<close> returns for each
  pin, lowest bit first. At most 31 pins can be configured, so the shift keeps the sign bit clear.
\<close>

fun get_value_from :: "nat \<Rightarrow> nat rc list \<Rightarrow> u32 \<Rightarrow> u32 rc" where
  "get_value_from i [] v = Inr v"
| "get_value_from i (Inl e # ps) v = Inl e"
| "get_value_from i (Inr r # ps) v = get_value_from (Suc i) ps (v OR push_bit i (of_nat r))"

definition get_value :: "nat rc list \<Rightarrow> u32 rc" where
  "get_value pins = get_value_from 0 pins 0"

fun binary_encoded_gpio_init :: "(bool \<times> c_int) list \<Rightarrow> c_int" where
  "binary_encoded_gpio_init [] = rc0"
| "binary_encoded_gpio_init ((ready, conf) # ps) =
     (if \<not> ready then Inl ENODEV else if rc_neg conf then conf else binary_encoded_gpio_init ps)"

definition gearshift_get_addresses :: "u32 \<Rightarrow> u32 \<Rightarrow> u32 \<Rightarrow> u32 rc \<Rightarrow> isotp_config" where
  "gearshift_get_addresses base_sa base_ta noop ret =
     (let cfg = \<lparr>source_addr = base_sa, target_addr = base_ta, source_addr_func = noop, target_addr_func = noop\<rparr> in
      case ret of
        Inl _ \<Rightarrow> cfg
      | Inr v \<Rightarrow> cfg\<lparr>source_addr := source_addr cfg + v, target_addr := target_addr cfg + v\<rparr>)"

definition can_log_get_id :: "u16 \<Rightarrow> u32 rc \<Rightarrow> u16" where
  "can_log_get_id base ret = (case ret of Inl _ \<Rightarrow> base | Inr v \<Rightarrow> ucast (ucast base + v))"

section \<open>Lemmas\<close>

lemma zephyr_init_OK:
  assumes "iso14229_zephyr_init ops cfg ctx i d = (Inr n, i', d')" and "\<forall>c s. fst (UDSISOTpCInit ops c s) = c"
    and "\<forall>d. fst (k_mutex_init ops d) \<in> {rc0} \<union> range Inl"
  shows "n = 0 \<and> iso_tp i' = cfg \<and> iso_user_context i' = ctx \<and> can_phys_msgq i' = [] \<and> can_func_msgq i' = [] \<and>
    has_event_loop_tick i' \<and> has_thread_start i' \<and> has_thread_stop i' \<and> \<not> thread_running i'"
proof -
  have mutex: "k_mutex_init ops d0 = (Inr m, d1) \<Longrightarrow> m = 0" for d0 m d1
    using spec [OF assms(3), of d0] by auto
  have tp: "UDSISOTpCInit ops cfg s0 = (tp, s1) \<Longrightarrow> tp = cfg" for s0 tp s1
    using spec [OF spec [OF assms(2), of cfg], of s0] by simp
  show ?thesis
    using assms(1) by (auto simp: iso14229_zephyr_init_def Let_def split: prod.splits if_splits dest: mutex tp)
qed

lemma zephyr_init_has_set_callback:
  "iso14229_zephyr_init ops cfg ctx i d = (r, i', d') \<Longrightarrow> has_set_callback i'"
  by (auto simp: iso14229_zephyr_init_def Let_def split: prod.splits if_splits)

lemma handlers_member_session:
  "handler_diag_session_ctrl \<in> set uds_handlers" "handler_execute_scheduled_reset \<in> set uds_handlers"
  by (simp_all add: uds_handlers_def)

text \<open>
  One registration decides: it is in the table, all others are walked past, and its action reboots
  or refuses.
\<close>

lemma server_event_decided:
  fixes w :: "('u, 'c, 'f, 'fs, 'h, 'r, 'n, 'z) server_world"
  assumes "h \<in> set uds_handlers" and "r \<in> set (static_regs w)"
    and others: "\<And>m. m < length (static_regs w) \<Longrightarrow> static_regs w ! m \<noteq> r \<Longrightarrow>
      skips (run_check n cfg) (run_action n cfg) i (h_event h) arg h w (Static m)"
    and decides: "\<And>m. m < length (static_regs w) \<Longrightarrow> static_regs w ! m = r \<Longrightarrow>
      uds_check_and_act_on_event (run_check n cfg) (run_action n cfg)
        \<lparr>ctx_instance = i, ctx_registration = Static m, ctx_event = h_event h, ctx_arg = arg\<rparr> h False True w =
      obind (act m) (\<lambda>ret w'. Returns (ret, False, False, arg) w')"
    and refuses: "\<And>m w'. act m \<noteq> Returns UDS_OK w'"
  shows "\<exists>m < length (static_regs w). static_regs w ! m = r \<and>
    server_event n cfg i (h_event h) arg w = obind (act m) (\<lambda>ret w'. Returns (ret, arg) w')"
proof -
  let ?act = "\<lambda>m. obind (act m) (\<lambda>ret w'. Returns (ret, False, arg) w')"
  have "\<exists>m < length (static_regs w). static_regs w ! m = r \<and>
    server_event n cfg i (h_event h) arg w = obind (?act m) (\<lambda>(ret, c, arg') w'. Returns (ret, arg') w')"
  proof (rule server_event_consumed [OF assms(1,2) others])
    fix m assume m: "m < length (static_regs w)" "static_regs w ! m = r"
    show "uds_check_and_act_on_event (run_check n cfg) (run_action n cfg)
        \<lparr>ctx_instance = i, ctx_registration = Static m, ctx_event = h_event h, ctx_arg = arg\<rparr> h False True w =
      obind (?act m) (\<lambda>(ret, c, arg') w'. Returns (ret, ret = UDS_OK, c, arg') w')"
      unfolding decides [OF m] obind_assoc using refuses [of m] by (intro obind_cong) auto
  qed (use refuses in \<open>auto simp: outcome_simps\<close>)
  then show ?thesis by (simp add: obind_assoc)
qed

text \<open>The value of the gearshift pins, bit by bit.\<close>

lemma get_value_from_bits:
  "\<forall>p \<in> set ps. p \<in> {Inr 0, Inr 1} \<Longrightarrow> i + length ps \<le> 32 \<Longrightarrow>
   \<exists>v'. get_value_from i ps v = Inr v' \<and>
     (\<forall>j. bit v' j \<longleftrightarrow> bit v j \<or> (i \<le> j \<and> j < i + length ps \<and> ps ! (j - i) = Inr 1))"
proof (induction ps arbitrary: i v)
  case (Cons p ps)
  then obtain r where p: "p = Inr r" and r: "r = 0 \<or> r = 1" by auto
  obtain v' where v': "get_value_from (Suc i) ps (v OR push_bit i (of_nat r)) = Inr v'"
    and b: "\<forall>j. bit v' j \<longleftrightarrow> bit (v OR push_bit i (of_nat r)) j \<or>
      (Suc i \<le> j \<and> j < Suc i + length ps \<and> ps ! (j - Suc i) = Inr 1)"
    using Cons.IH [of "Suc i" "v OR push_bit i (of_nat r)"] Cons.prems by auto
  have bit_r: "bit (push_bit i (of_nat r) :: u32) j \<longleftrightarrow> j = i \<and> r = 1" for j
    using r Cons.prems(2) by (auto simp: bit_simps)
  have "bit v' j \<longleftrightarrow> bit v j \<or> (i \<le> j \<and> j < i + length (p # ps) \<and> (p # ps) ! (j - i) = Inr 1)" for j
    using b bit_r [of j] r by (cases "j = i") (auto simp: p bit_or_iff nth_Cons' Suc_le_eq)
  then show ?case using v' by (intro exI [of _ v']) (simp add: p)
qed auto

section \<open>Properties\<close>

text \<open>
  A successful \<open>uds_init\<close> leaves an instance that is ready: reading its addresses back gives the
  configuration it was given, the event callback of the library is installed with the instance as its
  context, no handler is registered dynamically, both queues are empty, and the thread can be started
  and is not running.
\<close>

theorem uds_init_ready:
  assumes "uds_init ops k cfg ctx inst d w = Returns (rc0, inst', d') w'"
    and "\<forall>c s. fst (UDSISOTpCInit ops c s) = c" and "\<forall>d. fst (k_mutex_init ops d) \<in> {rc0} \<union> range Inl"
  shows "uds_get_isotp_config (Some inst') (Some out) = (rc0, Some cfg) \<and>
    event_callback (ui_iso14229 inst') = Some Fn_uds_event_callback \<and> iso_user_context (ui_iso14229 inst') = Some k \<and>
    dyn_regs w' k = [] \<and> (\<forall>q. msgq q (ui_iso14229 inst') = []) \<and>
    has_thread_start (ui_iso14229 inst') \<and> \<not> thread_running (ui_iso14229 inst')"
proof -
  obtain ret zi d1 where init: "iso14229_zephyr_init ops cfg (Some k) (ui_iso14229 inst) d = (ret, zi, d1)"
    by (cases "iso14229_zephyr_init ops cfg (Some k) (ui_iso14229 inst) d") auto
  from assms(1) obtain n where "ret = Inr n" and inst': "ui_iso14229 inst' = zi\<lparr>event_callback := Some Fn_uds_event_callback\<rparr>"
    and w': "w' = w\<lparr>dyn_regs := (dyn_regs w)(k := [])\<rparr>"
    by (cases ret) (auto simp: uds_init_def Let_def init iso14229_zephyr_set_callback_def split: if_splits)
  with zephyr_init_OK [OF _ assms(2,3)] init
  have "iso_tp zi = cfg \<and> iso_user_context zi = Some k \<and> can_phys_msgq zi = [] \<and> can_func_msgq zi = [] \<and>
      has_thread_start zi \<and> \<not> thread_running zi" by blast
  moreover have "msgq q (zi\<lparr>event_callback := c\<rparr>) = msgq q zi" for q c by (cases q) simp_all
  moreover have "(\<forall>q. msgq q zi = []) \<longleftrightarrow> can_phys_msgq zi = [] \<and> can_func_msgq zi = []"
    by (metis msgq.simps rx_queue.exhaust)
  ultimately show ?thesis using inst' w' by (simp add: uds_get_isotp_config_def)
qed

definition demo_isotp :: isotp_config where
  "demo_isotp = uds_default_instance_get_addresses 0x7E0 0x7E8 0x7DF 0xFFFFFFFF"

definition demo_instance :: "(unit, (rx_queue \<times> u8 list) list) uds_instance" where
  "demo_instance = \<lparr>ui_iso14229 = blank_inst [], ui_user_context = None, ui_has_register = False, ui_has_unregister = False\<rparr>"

definition demo_initialised :: "(unit, (rx_queue \<times> u8 list) list) uds_instance" where
  "demo_initialised = \<lparr>ui_iso14229 = (blank_inst [])\<lparr>iso_tp := demo_isotp, event_callback := Some Fn_uds_event_callback,
     iso_user_context := Some 5, has_set_callback := True, has_event_loop_tick := True, has_thread_start := True,
     has_thread_stop := True\<rparr>, ui_user_context = None, ui_has_register = True, ui_has_unregister = True\<rparr>"

lemma demo_init:
  "uds_init demo_iso_ops 5 demo_isotp None demo_instance 0 (boot_world [] () :: (nat, unit) uds_world) =
     Returns (rc0, demo_initialised, 0) (boot_world [] ())"
  by (simp add: uds_init_def iso14229_zephyr_init_def iso14229_zephyr_set_callback_def demo_iso_ops_def demo_instance_def
      demo_initialised_def blank_inst_def boot_world_def fun_upd_idem demo_isotp_def uds_default_instance_get_addresses_def)

theorem uds_init_ready_witness:
  "uds_get_isotp_config (Some demo_initialised) (Some demo_isotp) = (rc0, Some demo_isotp) \<and>
   event_callback (ui_iso14229 demo_initialised) = Some Fn_uds_event_callback"
  using uds_init_ready [OF demo_init, of demo_isotp] by (simp add: demo_iso_ops_def)

text \<open>
  The default instance ignores the result of \<open>uds_init\<close>: when the CAN device has no receive filter
  left, the pointer to the start function is never set, and the initialisation calls through a null
  pointer as soon as the CAN controller has started.
\<close>

theorem default_instance_null_call:
  assumes "\<forall>d. \<exists>d'. k_mutex_init ops d = (rc0, d')" and "\<forall>q a m d. \<exists>e d'. can_add_rx_filter ops q a m d = (Inl e, d')"
    and "\<forall>d. device_is_ready can d" and "\<forall>d. \<exists>d'. can_set_mode_normal can d = (rc0, d')"
    and "\<forall>d. \<exists>d'. can_dev_start can d = (rc0, d')" and "\<not> has_thread_start (ui_iso14229 inst)"
  shows "uds_default_instance_init ops can k cfg ctx inst d w = Undefined"
proof -
  obtain d1 where mutex: "k_mutex_init ops d = (rc0, d1)" using assms(1) by blast
  have "\<exists>e zi d2. iso14229_zephyr_init ops cfg (Some k) (ui_iso14229 inst) d = (Inl e, zi, d2) \<and> \<not> has_thread_start zi"
  proof -
    obtain tp s where "UDSISOTpCInit ops cfg (UDSServerInit ops (iso_server (ui_iso14229 inst))) = (tp, s)" by fastforce
    moreover obtain e d2 where "can_add_rx_filter ops Phys (source_addr tp) (CAN_STD_ID_MASK ops) d1 = (Inl e, d2)"
      using assms(2) by blast
    ultimately show ?thesis using mutex assms(6) by (simp add: iso14229_zephyr_init_def)
  qed
  then obtain e zi d2 where init: "iso14229_zephyr_init ops cfg (Some k) (ui_iso14229 inst) d = (Inl e, zi, d2)"
    and none: "\<not> has_thread_start zi" by blast
  obtain d3 where mode: "can_set_mode_normal can d2 = (rc0, d3)" using assms(4) by blast
  obtain d4 where "can_dev_start can d3 = (rc0, d4)" using assms(5) by blast
  with mode assms(3) none show ?thesis by (simp add: uds_default_instance_init_def uds_init_def init)
qed

definition demo_can_dev :: "nat can_dev_ops" where
  "demo_can_dev = \<lparr>device_is_ready = (\<lambda>_. True), can_set_mode_normal = (\<lambda>d. (rc0, d)), can_dev_start = (\<lambda>d. (rc0, d))\<rparr>"

theorem default_instance_null_call_witness:
  "uds_default_instance_init (demo_iso_ops\<lparr>can_add_rx_filter := (\<lambda>q a m d. (Inl ENOSPC, d))\<rparr>) demo_can_dev 0 demo_isotp None
     demo_instance 0 (boot_world [] () :: (nat, unit) uds_world) = Undefined"
  by (rule default_instance_null_call) (simp_all add: demo_iso_ops_def demo_can_dev_def demo_instance_def blank_inst_def)

text \<open>The registration of the session handlers of the default instance.\<close>

abbreviation session_registration :: "nat \<Rightarrow> 'u uds_registration_t" where
  "session_registration k \<equiv> UDS_REGISTER_DIAG_SESSION_CTRL_HANDLER (Some k) (Some Fn_diag_session_ctrl_check) (Some Fn_diag_session_ctrl_action)
     (Some Fn_diag_session_timeout_check) (Some Fn_diag_session_timeout_action) None"

lemma other_registration_skips:
  fixes w :: "('u, 'c, 'f, 'fs, 'h, 'r, 'n, 'z) server_world"
  assumes m: "m < length (static_regs w)" "static_regs w ! m \<noteq> session_registration k"
    and "static_regs w ! m \<in> set (default_instance_registrations link k) \<union> R"
    and "\<forall>r \<in> R. reg_type r \<noteq> UDS_REGISTRATION_TYPE__DIAG_SESSION_CTRL"
  shows "skips (run_check (Suc n) cfg) (run_action (Suc n) cfg) i UDS_EVT_DiagSessCtrl
    (Arg_DiagSessCtrl (session_val UDS_DIAG_SESSION__PROGRAMMING)) handler_diag_session_ctrl w (Static m)"
proof -
  let ?h = "handler_diag_session_ctrl :: 'u uds_event_handler_data"
  consider "reg_type (static_regs w ! m) \<noteq> UDS_REGISTRATION_TYPE__DIAG_SESSION_CTRL"
    | "static_regs w ! m \<in> set (UDS_REGISTER_LINK_CONTROL_DEFAULT_HANDLER (Some k))"
      "reg_type (static_regs w ! m) = UDS_REGISTRATION_TYPE__DIAG_SESSION_CTRL"
    using assms(2-4)
    by (auto simp: default_instance_registrations_def UDS_REGISTER_ECU_DEFAULT_HARD_RESET_HANDLER_def
        UDS_REGISTER_ECU_RESET_HANDLER_def static_reg_def split: if_splits)
  then show ?thesis
  proof cases
    case 1
    then show ?thesis by (intro skips_type [OF deref_static [OF m(1)]]) (simp add: handler_diag_session_ctrl_def)
  next
    case 2
    then have "h_get_check ?h (static_regs w ! m) = Some Fn_check_default_link_control_change_diag_session"
      by (auto simp: UDS_REGISTER_LINK_CONTROL_DEFAULT_HANDLER_def single_reg_defs handler_diag_session_ctrl_def
          uds_get_check_for_diag_session_ctrl_def)
    then show ?thesis
      by (rule skips_check_false [OF deref_static [OF m(1)]]) (simp add: uds_check_default_link_control_change_diag_session_def)
  qed
qed

lemma programming_registration_acts:
  fixes w :: "('u, 'c, 'f, 'fs, 'h, 'r, 'n, 'z) server_world"
  assumes "m < length (static_regs w)" and "static_regs w ! m = session_registration k" and "\<not> sc_disable_switch cfg"
  defines "arg \<equiv> Arg_DiagSessCtrl (session_val UDS_DIAG_SESSION__PROGRAMMING)"
  shows "uds_check_and_act_on_event (run_check (Suc n) cfg) (run_action (Suc n) cfg)
      \<lparr>ctx_instance = i, ctx_registration = Static m, ctx_event = UDS_EVT_DiagSessCtrl, ctx_arg = arg\<rparr> handler_diag_session_ctrl False True w =
    obind (on_boot (uds_switch_to_firmware_loader_with_programming_session (sc_boot cfg)) w) (\<lambda>ret w'. Returns (ret, False, False, arg) w')"
  using assms
  by (cases "uds_switch_to_firmware_loader_with_programming_session (sc_boot cfg) (srv_boot (env w))")
    (auto simp: uds_check_and_act_on_event_def single_reg_defs handler_diag_session_ctrl_def
      uds_get_check_for_diag_session_ctrl_def uds_get_action_for_diag_session_ctrl_def diag_session_ctrl_check_def
      diag_session_ctrl_action_def on_boot_def olift_def
      uds_switch_to_firmware_loader_with_programming_session_def split: prod.splits if_splits)

text \<open>
  (C17) A request for the programming session reaches the switch to the firmware loader: whatever the order
  of the registrations of the default instance, with or without link control, and whatever
  registrations of other services there are, the answer of the server is that of the switch: the board reboots, or
  the request is refused.
\<close>

theorem programming_session_switches:
  fixes w :: "('u, 'c, 'f, 'fs, 'h, 'r, 'n, 'z) server_world"
  assumes "set (static_regs w) = set (default_instance_registrations link k) \<union> R"
    and "\<forall>r \<in> R. reg_type r \<noteq> UDS_REGISTRATION_TYPE__DIAG_SESSION_CTRL" and "\<not> sc_disable_switch cfg"
  shows "server_event (Suc n) cfg i UDS_EVT_DiagSessCtrl (Arg_DiagSessCtrl (session_val UDS_DIAG_SESSION__PROGRAMMING)) w =
    obind (on_boot (uds_switch_to_firmware_loader_with_programming_session (sc_boot cfg)) w)
      (\<lambda>ret w'. Returns (ret, Arg_DiagSessCtrl (session_val UDS_DIAG_SESSION__PROGRAMMING)) w')"
proof -
  let ?h = "handler_diag_session_ctrl :: 'u uds_event_handler_data"
  let ?arg = "Arg_DiagSessCtrl (session_val UDS_DIAG_SESSION__PROGRAMMING)"
  let ?r = "session_registration k :: 'u uds_registration_t"
  let ?act = "on_boot (uds_switch_to_firmware_loader_with_programming_session (sc_boot cfg)) w"
  have ev: "h_event ?h = UDS_EVT_DiagSessCtrl" by (simp add: handler_diag_session_ctrl_def)
  have "\<exists>m < length (static_regs w). static_regs w ! m = ?r \<and>
    server_event (Suc n) cfg i (h_event ?h) ?arg w = obind ?act (\<lambda>ret w'. Returns (ret, ?arg) w')"
  proof (rule server_event_decided [where act = "\<lambda>_. ?act", OF handlers_member_session(1)])
    show "?r \<in> set (static_regs w)" using assms(1) by (simp add: default_instance_registrations_def)
  next
    fix m assume m: "m < length (static_regs w)" "static_regs w ! m \<noteq> ?r"
    then have "static_regs w ! m \<in> set (default_instance_registrations link k) \<union> R" using assms(1) nth_mem by blast
    then show "skips (run_check (Suc n) cfg) (run_action (Suc n) cfg) i (h_event ?h) ?arg ?h w (Static m)"
      unfolding ev by (rule other_registration_skips [OF m _ assms(2)])
  next
    fix m assume "m < length (static_regs w)" and "static_regs w ! m = ?r"
    then show "uds_check_and_act_on_event (run_check (Suc n) cfg) (run_action (Suc n) cfg)
        \<lparr>ctx_instance = i, ctx_registration = Static m, ctx_event = h_event ?h, ctx_arg = ?arg\<rparr> ?h False True w =
      obind ?act (\<lambda>ret w'. Returns (ret, False, False, ?arg) w')"
      unfolding ev using assms(3) by (rule programming_registration_acts)
  next
    fix w' show "?act \<noteq> Returns UDS_OK w'"
      by (auto simp: on_boot_def olift_def outcome_simps
          uds_switch_to_firmware_loader_with_programming_session_def split: prod.splits if_splits)
  qed
  then show ?thesis unfolding ev by blast
qed

definition demo_switch_cfg :: "(nat, unit, nat \<Rightarrow> u8, unit, unit, u8 list, unit, unit) server_cfg" where
  "demo_switch_cfg = demo_server_cfg\<lparr>sc_disable_switch := False\<rparr>"

theorem programming_session_switches_witness:
  "server_event 1 demo_switch_cfg 0 UDS_EVT_DiagSessCtrl (Arg_DiagSessCtrl 2)
     (boot_world (rev (default_instance_registrations True 0)) demo_server_env) =
   obind (on_boot (uds_switch_to_firmware_loader_with_programming_session (sc_boot demo_switch_cfg))
       (boot_world (rev (default_instance_registrations True 0)) demo_server_env))
     (\<lambda>ret w'. Returns (ret, Arg_DiagSessCtrl 2) w')"
  using programming_session_switches [of "boot_world (rev (default_instance_registrations True 0)) demo_server_env"
      True 0 "{}" demo_switch_cfg 0 0]
  by (simp add: boot_world_def demo_switch_cfg_def)

text \<open>
  The gearshift tells boards apart: if the pins are read without error, boards with different
  positions of the gearshift get different physical source addresses and different target addresses.
\<close>

theorem gearshift_addresses_distinct:
  assumes "set ps \<subseteq> {Inr 0, Inr 1}" and "set qs \<subseteq> {Inr 0, Inr 1}" and "length ps = length qs" and "length ps \<le> 31"
    and "ps \<noteq> qs"
  shows "source_addr (gearshift_get_addresses sa ta noop (get_value ps)) \<noteq>
      source_addr (gearshift_get_addresses sa ta noop (get_value qs)) \<and>
    target_addr (gearshift_get_addresses sa ta noop (get_value ps)) \<noteq>
      target_addr (gearshift_get_addresses sa ta noop (get_value qs))"
proof -
  have bits: "\<exists>v. get_value xs = Inr v \<and> (\<forall>j. bit v j \<longleftrightarrow> j < length xs \<and> xs ! j = Inr 1)"
    if "set xs \<subseteq> {Inr 0, Inr 1}" and "length xs \<le> 31" for xs :: "nat rc list"
  proof -
    have "\<forall>p \<in> set xs. p \<in> {Inr 0, Inr 1}" using that(1) by blast
    from get_value_from_bits [OF this, of 0 0] that(2) show ?thesis unfolding get_value_def by simp
  qed
  obtain v where v: "get_value ps = Inr v" "\<forall>j. bit v j \<longleftrightarrow> j < length ps \<and> ps ! j = Inr 1"
    using bits [OF assms(1,4)] by blast
  obtain u where u: "get_value qs = Inr u" "\<forall>j. bit u j \<longleftrightarrow> j < length qs \<and> qs ! j = Inr 1"
    using bits [OF assms(2)] assms(3,4) by auto
  obtain j where j: "j < length ps" "ps ! j \<noteq> qs ! j" using assms(3,5) by (auto simp: list_eq_iff_nth_eq)
  have "ps ! j \<in> {Inr 0, Inr 1}" using assms(1) nth_mem [OF j(1)] by (rule subsetD)
  moreover have "qs ! j \<in> {Inr 0, Inr 1}" using assms(3) j(1) by (intro subsetD [OF assms(2)]) simp
  ultimately have "(ps ! j = Inr 1) \<noteq> (qs ! j = Inr 1)" using j(2) by auto
  then have "bit v j \<noteq> bit u j" using spec [OF v(2), of j] spec [OF u(2), of j] j(1) assms(3) by simp
  then have "v \<noteq> u" by blast
  then show ?thesis by (simp add: gearshift_get_addresses_def v(1) u(1))
qed

theorem gearshift_addresses_distinct_witness:
  "source_addr (gearshift_get_addresses 0x100 0x200 0xFFFFFFFF (get_value [Inr 1, Inr 0])) \<noteq>
   source_addr (gearshift_get_addresses 0x100 0x200 0xFFFFFFFF (get_value [Inr 0, Inr 1]))"
  using gearshift_addresses_distinct [of "[Inr 1, Inr 0]" "[Inr 0, Inr 1]" "0x100" "0x200" "0xFFFFFFFF"] by simp

end
