(* ===== verification/Server_Invariant.thy ===== *)
theory Server_Invariant
  imports Uds_Server
begin

text \<open>
  What the library leaves alone: none of its checks and actions touches the state of the application
  (\<open>srv_user\<close>), and the registration functions and the dynamic identifiers touch nothing of the
  environment but the copy buffer and the response. So an invariant of the application that its own
  handlers keep is kept by the server, however deep reading dynamic identifiers nests its calls.
\<close>

named_theorems env_inv \<open>functions that keep a predicate on the environment\<close>

lemma oholds_True [simp]: "oholds (\<lambda>s. True) m"
  by (cases m) simp_all

section \<open>Registrations and the heap\<close>

lemma k_malloc_env: "k_malloc c w = (r, w') \<Longrightarrow> env w' = env w"
  by (cases r) (auto simp: malloc_simps)

lemma k_free_env [env_inv]: "Q (env w) \<Longrightarrow> oholds (\<lambda>w. Q (env w)) (k_free a w)"
  by (simp add: k_free_def split: option.splits)

lemma set_id_list_env [simp]: "env (set_id_list ref xs w) = env w"
  by (cases ref) (simp_all split: option.splits heap_cell.splits)

lemma find_next_dynamic_id_env [env_inv]: "Q (env w) \<Longrightarrow> oholds (\<lambda>w. Q (env w)) (find_next_dynamic_id i w)"
  by (simp add: find_next_dynamic_id_def split: option.splits)

lemma register_env [env_inv]: "Q (env w) \<Longrightarrow> oholds (\<lambda>w. Q (env w)) (uds_register_event_handler i r w)"
  unfolding uds_register_event_handler_def
  by (auto intro!: oholds_obind env_inv split: prod.splits option.splits dest!: k_malloc_env)

lemma find_by_dynamic_id_env [env_inv]: "Q (env w) \<Longrightarrow> oholds (\<lambda>w. Q (env w)) (find_by_dynamic_id k as w)"
  by (induction as) (auto split: option.splits)

lemma unlink_and_free_env [env_inv]: "Q (env w) \<Longrightarrow> oholds (\<lambda>w. Q (env w)) (unlink_and_free i a w)"
  unfolding unlink_and_free_def by (auto intro!: oholds_obind env_inv)

lemma unregister_env:
  assumes "\<And>f a w. Q (env w) \<Longrightarrow> oholds (\<lambda>w. Q (env w)) (un f a w)" and "Q (env w)"
  shows "oholds (\<lambda>w. Q (env w)) (uds_unregister_event_handler un i k w)"
  unfolding uds_unregister_event_handler_def
  using assms by (auto intro!: oholds_obind env_inv assms(1) split: option.splits)

section \<open>Dynamic identifiers\<close>

lemma free_all_env [env_inv]: "Q (env w) \<Longrightarrow> oholds (\<lambda>w. Q (env w)) (free_all as w)"
  by (induction as arbitrary: w) (auto intro!: oholds_obind env_inv)

lemma unregister_dynamic_identifier_env [env_inv]:
  "Q (env w) \<Longrightarrow> oholds (\<lambda>w. Q (env w)) (uds_unregister_dynamic_identifier a w)"
  unfolding uds_unregister_dynamic_identifier_def
  by (auto intro!: oholds_obind env_inv split: option.splits uds_registration_data.splits heap_cell.splits)

lemma run_unregister_env:
  assumes "\<And>f a w. Q (env w) \<Longrightarrow> oholds (\<lambda>w. Q (env w)) (user f a w)" and "Q (env w)"
  shows "oholds (\<lambda>w. Q (env w)) (run_unregister user f a w)"
  using assms by (cases f) (auto intro: env_inv)

lemma clear_data_list_env [env_inv]: "Q (env w) \<Longrightarrow> oholds (\<lambda>w. Q (env w)) (clear_data_list l w)"
  unfolding clear_data_list_def by (auto intro!: env_inv split: option.splits heap_cell.splits)

lemma append_data_env [env_inv]: "Q (env w) \<Longrightarrow> oholds (\<lambda>w. Q (env w)) (append_data d l w)"
  unfolding append_data_def
  by (auto intro!: oholds_obind env_inv split: prod.splits option.splits heap_cell.splits dest!: k_malloc_env)

lemma append_fns_env [env_inv]:
  "Q (env w) \<Longrightarrow> oholds (\<lambda>w. Q (env w)) (uds_append_dynamic_data_identifiers_to_registration args l w)"
  "Q (env w) \<Longrightarrow> oholds (\<lambda>w. Q (env w)) (uds_append_dynamic_memory_addresses_to_registration args l w)"
  unfolding uds_append_dynamic_data_identifiers_to_registration_def uds_append_dynamic_memory_addresses_to_registration_def
  by (auto intro!: env_inv split: uds_arg.splits dddi_sub_args.splits)

lemma find_registration_env [env_inv]: "Q (env w) \<Longrightarrow> oholds (\<lambda>w. Q (env w)) (find_registration k items as w)"
  by (induction as) (auto split: option.splits uds_registration_data.splits)

lemma find_existing_env [env_inv]:
  "Q (env w) \<Longrightarrow> oholds (\<lambda>w. Q (env w)) (uds_find_existing_registration_by_data_id ctx k w)"
  unfolding uds_find_existing_registration_by_data_id_def by (auto intro!: env_inv split: option.splits)

lemma create_new_env [env_inv]:
  "Q (env w) \<Longrightarrow> oholds (\<lambda>w. Q (env w)) (uds_create_new_data_identifier_by_id ctx k w)"
  unfolding uds_create_new_data_identifier_by_id_def
  by (auto intro!: oholds_obind env_inv split: prod.splits option.splits dest!: k_malloc_env)

lemma find_by_data_id_env [env_inv]: "Q (env w) \<Longrightarrow> oholds (\<lambda>w. Q (env w)) (find_by_data_id k as w)"
  by (induction as) (auto split: option.splits uds_registration_data.splits)

lemma purge_items_env [env_inv]: "Q (env w) \<Longrightarrow> oholds (\<lambda>w. Q (env w)) (purge_items P ref as w)"
  by (induction as arbitrary: w) (auto intro!: oholds_obind env_inv split: option.splits heap_cell.splits)

lemma purge_handlers_env [env_inv]: "Q (env w) \<Longrightarrow> oholds (\<lambda>w. Q (env w)) (purge_handlers P refs w)"
proof (induction refs arbitrary: w)
  case (Cons ref refs)
  have "oholds (\<lambda>w. Q (env w)) (purge_handler P ref w)"
    unfolding purge_handler_def using Cons.prems by (auto intro!: env_inv split: option.splits)
  then show ?case using Cons.IH by (auto intro: oholds_obind)
qed simp

text \<open>With callbacks for unregistering that keep the predicate.\<close>

locale env_unregister =
  fixes un :: "('u, 'x) unregister_sem" and Q :: "'x \<Rightarrow> bool"
  assumes un_env: "Q (env w) \<Longrightarrow> oholds (\<lambda>w. Q (env w)) (un f a w)"
begin

lemmas unregister_inv = unregister_env [where Q = Q, OF un_env]

lemma register_item_env:
  "Q (env w) \<Longrightarrow> oholds (\<lambda>w. Q (env w)) (uds_register_new_data_by_id_item un ctx tmp w)"
  unfolding uds_register_new_data_by_id_item_def
  by (auto intro!: oholds_obind env_inv unregister_inv split: prod.splits option.splits sum.splits dest!: k_malloc_env)

lemma add_new_id_env:
  assumes "\<And>l w. Q (env w) \<Longrightarrow> oholds (\<lambda>w. Q (env w)) (app (ctx_arg ctx) l w)" and "Q (env w)"
  shows "oholds (\<lambda>w. Q (env w)) (add_new_id un app ctx consume w)"
  unfolding add_new_id_def
  using assms by (auto intro!: oholds_obind env_inv register_item_env split: option.splits uds_registration_data.splits)

lemma unregister_items_env: "Q (env w) \<Longrightarrow> oholds (\<lambda>w. Q (env w)) (unregister_items un i as w)"
  by (induction as arbitrary: w) (auto intro!: oholds_obind unregister_inv split: option.splits heap_cell.splits)

lemma unregister_ids_of_env: "Q (env w) \<Longrightarrow> oholds (\<lambda>w. Q (env w)) (unregister_ids_of un i ref w)"
  unfolding unregister_ids_of_def by (auto intro!: unregister_items_env split: option.splits)

lemma unregister_static_env: "Q (env w) \<Longrightarrow> oholds (\<lambda>w. Q (env w)) (unregister_static un i ns w)"
  by (induction ns arbitrary: w) (auto intro!: oholds_obind unregister_ids_of_env)

lemma unregister_dynamic_env: "Q (env w) \<Longrightarrow> oholds (\<lambda>w. Q (env w)) (unregister_dynamic un i fuel a w)"
  by (induction fuel arbitrary: a w; case_tac a) (auto intro!: oholds_obind unregister_ids_of_env)

lemma dddi_action_env:
  "Q (env w) \<Longrightarrow> oholds (\<lambda>w. Q (env w)) (uds_action_default_dynamically_define_data_ids un ctx b w)"
  unfolding uds_action_default_dynamically_define_data_ids_def uds_dynamicallY_define_data_by_id_add_new_id_def
    uds_dynamicallY_define_data_by_memory_address_add_new_id_def uds_dynamicallY_define_data_by_id_remove_ids_def
    uds_dynamicallY_define_data_by_id_remove_single_id_def uds_dynamicallY_define_data_by_id_remove_all_ids_def
  by (auto intro!: oholds_obind env_inv add_new_id_env unregister_static_env unregister_dynamic_env unregister_inv
      split: uds_arg.splits option.splits)

end

section \<open>Reading a dynamic identifier\<close>

lemma read_item_env:
  assumes "\<And>ev arg w. Q (env w) \<Longrightarrow> oholds (\<lambda>w. Q (env w)) (cb i ev arg w)"
    and "\<And>b x. Q x \<Longrightarrow> Q (set_temp_buffer de b x)" and "\<And>bs x. Q x \<Longrightarrow> Q (snd (lib_copy de bs x))" and "Q (env w)"
  shows "oholds (\<lambda>w. Q (env w)) (read_item de cb i copy d w)"
proof -
  have copy: "oholds (\<lambda>w. Q (env w)) (call_copy de c bs w)" if "Q (env w)" for c bs and w :: "('a, 'b) uds_world"
    using that assms(2) [of "env w"] assms(3) [of "env w" bs]
    by (cases c) (auto simp: call_copy_def uds_copy_def split: prod.splits if_splits)
  show ?thesis
    using assms(4) by (cases d) (auto intro!: oholds_obind assms(1,2) copy split: prod.splits)
qed

lemma read_items_env:
  assumes "\<And>d w. Q (env w) \<Longrightarrow> oholds (\<lambda>w. Q (env w)) (read_item de cb i copy d w)"
  shows "Q (env w) \<Longrightarrow> oholds (\<lambda>w. Q (env w)) (read_items de cb i copy l fuel a w)"
proof (induction fuel arbitrary: a w)
  case 0
  then show ?case by (cases a) simp_all
next
  case (Suc fuel)
  then show ?case
    by (cases a) (auto intro!: oholds_obind assms split: option.splits heap_cell.splits)
qed

lemma read_action_env:
  assumes "\<And>copy d w. Q (env w) \<Longrightarrow> oholds (\<lambda>w. Q (env w)) (read_item de cb (ctx_instance ctx) copy d w)"
  shows "Q (env w) \<Longrightarrow> oholds (\<lambda>w. Q (env w)) (uds_dynamic_data_by_id_read_data_by_id_action de cb fuel ctx b w)"
  unfolding uds_dynamic_data_by_id_read_data_by_id_action_def
  by (auto intro!: oholds_obind read_items_env assms
      split: uds_arg.splits option.splits uds_registration_data.splits heap_cell.splits)

section \<open>The server\<close>

text \<open>
  An application: handlers, as part of a server configuration, that keep an invariant \<open>R\<close> of the
  state of the application.
\<close>

locale application =
  fixes cfg :: "('u, 'c, 'f, 'fs, 'h, 'r, 'n, 'z) server_cfg" and R :: "'z \<Rightarrow> bool"
  assumes user_check: "R (srv_user (env w)) \<Longrightarrow> oholds (\<lambda>w. R (srv_user (env w))) (sc_user_check cfg u ctx b w)"
    and user_action: "R (srv_user (env w)) \<Longrightarrow> oholds (\<lambda>w. R (srv_user (env w))) (sc_user_action cfg u ctx b w)"
    and user_unregister: "R (srv_user (env w)) \<Longrightarrow> oholds (\<lambda>w. R (srv_user (env w))) (sc_user_unregister cfg u a w)"

sublocale application \<subseteq> un: env_unregister "run_unregister (sc_user_unregister cfg)" "\<lambda>x. R (srv_user x)"
  by unfold_locales (rule run_unregister_env [where Q = "\<lambda>x. R (srv_user x)", OF user_unregister])

context application
begin

text \<open>A part of the library that works on its own part of the state.\<close>

lemma parts_user:
  fixes w :: "('u, 'c, 'f, 'fs, 'h, 'r, 'n, 'z) server_world"
  assumes "R (srv_user (env w))"
  shows "oholds (\<lambda>w. R (srv_user (env w))) (on_link lf w)" "oholds (\<lambda>w. R (srv_user (env w))) (on_transfer tf w)"
    "oholds (\<lambda>w. R (srv_user (env w))) (on_memory mf w)" "oholds (\<lambda>w. R (srv_user (env w))) (on_boot bf w)"
  unfolding on_link_def on_transfer_def on_memory_def on_boot_def
  using assms by (auto intro!: oholds_olift simp: put_env_def)

lemma copy_user:
  "R (srv_user (env w)) \<Longrightarrow> oholds (\<lambda>w. R (srv_user (env w))) (call_copy (server_dddi_env cfg) c bs w)"
  by (cases c) (auto simp: call_copy_def uds_copy_def server_dddi_env_def split: prod.splits if_splits)

lemma memory_read_user:
  "R (srv_user (env w)) \<Longrightarrow>
   oholds (\<lambda>w. R (srv_user (env w))) (uds_action_default_memory_by_addr_read (call_copy (server_dddi_env cfg)) m ctx b w)"
  unfolding uds_action_default_memory_by_addr_read_def
  by (auto intro!: oholds_obind copy_user split: uds_arg.splits)

lemma filter_checks_user:
  assumes "\<And>c ctx b w. R (srv_user (env w)) \<Longrightarrow> oholds (\<lambda>w. R (srv_user (env w))) (ck c ctx b w)"
    and "R (srv_user (env w))"
  shows "oholds (\<lambda>w. R (srv_user (env w))) (uds_check_read_with_data_id ck ctx b w)"
    "oholds (\<lambda>w. R (srv_user (env w))) (uds_check_write_with_data_id ck ctx b w)"
    "oholds (\<lambda>w. R (srv_user (env w))) (uds_check_io_control_with_data_id ck ctx b w)"
    "oholds (\<lambda>w. R (srv_user (env w))) (uds_check_with_routine_id_fn ck ctx b w)"
    "oholds (\<lambda>w. R (srv_user (env w))) (uds_check_with_subfunc_fn ck ctx b w)"
  unfolding filter_check_defs
  using assms(2) by (auto intro!: assms(1) split: option.splits uds_registration_data.splits uds_arg.splits)

lemma plain_checks_user:
  assumes "R (srv_user (env w))"
  shows "oholds (\<lambda>w. R (srv_user (env w))) (uds_check_ecu_hard_reset ctx b w)"
    "oholds (\<lambda>w. R (srv_user (env w))) (uds_check_execute_scheduled_reset ctx b w)"
    "oholds (\<lambda>w. R (srv_user (env w))) (uds_check_default_memory_by_addr_read lay ctx b w)"
    "oholds (\<lambda>w. R (srv_user (env w))) (uds_check_default_memory_by_addr_write lay ctx b w)"
    "oholds (\<lambda>w. R (srv_user (env w))) (uds_check_default_dynamically_define_data_ids ctx b w)"
    "oholds (\<lambda>w. R (srv_user (env w))) (uds_dynamic_data_by_id_read_data_by_id_check ctx b w)"
    "oholds (\<lambda>w. R (srv_user (env w))) (uds_check_default_link_control_change_diag_session ctx b w)"
    "oholds (\<lambda>w. R (srv_user (env w))) (uds_action_ecu_hard_reset p ctx b w)"
    "oholds (\<lambda>w. R (srv_user (env w))) (uds_action_execute_scheduled_reset ctx b w)"
  unfolding simple_check_defs uds_check_default_memory_by_addr_read_def uds_check_default_memory_by_addr_write_def
    uds_check_default_dynamically_define_data_ids_def uds_dynamic_data_by_id_read_data_by_id_check_def
    uds_check_default_link_control_change_diag_session_def uds_action_ecu_hard_reset_def uds_action_execute_scheduled_reset_def
  using assms by (auto split: option.splits uds_registration_data.splits uds_arg.splits)

lemma server_inv:
  "(\<forall>c ctx b w. R (srv_user (env w)) \<longrightarrow> oholds (\<lambda>w. R (srv_user (env w))) (run_check n cfg c ctx b w)) \<and>
   (\<forall>a ctx b w. R (srv_user (env w)) \<longrightarrow> oholds (\<lambda>w. R (srv_user (env w))) (run_action n cfg a ctx b w))"
proof (induction n)
  case (Suc n)
  have ck: "oholds (\<lambda>w. R (srv_user (env w))) (run_check n cfg c ctx b w)"
    if "R (srv_user (env w))" for c ctx b w
    using Suc that by blast
  have cb: "oholds (\<lambda>w. R (srv_user (env w)))
      (uds_event_callback (run_check n cfg) (run_action n cfg) uds_handlers n i ev arg w)"
    if "R (srv_user (env w))" for i ev arg w
    by (rule invariant_handlers.event_callback_inv [OF invariant_handlers.intro, where P = "\<lambda>w. R (srv_user (env w))"])
      (use Suc that in auto)
  have item: "oholds (\<lambda>w. R (srv_user (env w)))
      (read_item (server_dddi_env cfg) (uds_event_callback (run_check n cfg) (run_action n cfg) uds_handlers n) i copy d w)"
    if "R (srv_user (env w))" for i copy d w
    by (rule read_item_env [where Q = "\<lambda>x. R (srv_user x)"])
      (use that cb in \<open>auto simp: server_dddi_env_def split: prod.splits\<close>)
  have "oholds (\<lambda>w. R (srv_user (env w))) (run_check (Suc n) cfg c ctx b w)"
    if "R (srv_user (env w))" for c ctx b w
    using that by (cases c) (simp_all add: user_check filter_checks_user ck plain_checks_user parts_user
        uds_check_always_apply_def diag_session_ctrl_check_def diag_session_timeout_check_def)
  moreover have "oholds (\<lambda>w. R (srv_user (env w))) (run_action (Suc n) cfg a ctx b w)"
    if "R (srv_user (env w))" for a ctx b w
    using that read_action_env [where Q = "\<lambda>x. R (srv_user x)", OF item]
    by (cases a) (simp_all add: user_action plain_checks_user memory_read_user parts_user un.dddi_action_env
        diag_session_timeout_action_def)
  ultimately show ?case by blast
qed simp

end

sublocale application \<subseteq> handlers: invariant_handlers "run_check n cfg" "run_action n cfg" "\<lambda>w. R (srv_user (env w))" for n
  by unfold_locales (use server_inv in auto)

context application
begin

lemma server_event_user:
  "R (srv_user (env w)) \<Longrightarrow> oholds (\<lambda>w. R (srv_user (env w))) (server_event n cfg i ev arg w)"
  unfolding server_event_def by (rule handlers.event_callback_inv)

end

end
