(* ===== verification/Firmware_Loader.thy ===== *)
theory Firmware_Loader
  imports Default_Instance Server_Invariant
begin

text \<open>
  The firmware loader (\<^verbatim>\<open>firmware_loader/src\<close>): the application that the bootloader starts instead of
  the main application when a programming session was requested. Its handlers for sessions and for the
  erase routine, the work item that erases the flash, and its \<^verbatim>\<open>main\<close>, which continues the session
  across the reboot. The handlers run in the server of the library; the work item runs in between.
\<close>

section \<open>State\<close>

datatype uds_memory_erasure_routine_state =
    UDS_MEMORY_ERASURE_STATE__NOT_STARTED
  | UDS_MEMORY_ERASURE_STATE__IN_PROGRESS
  | UDS_MEMORY_ERASURE_STATE__COMPLETED

text \<open>
  \<open>er_scheduled\<close> and \<open>er_running\<close> are the state of the work item, the latter with the local variable
  \<open>result\<close> of its handler; \<open>er_flash\<close> is the flash that the handler erases.
\<close>

record 'e uds_memory_erasure_routine_status =
  er_state :: uds_memory_erasure_routine_state
  er_result :: UDSErr_t
  er_scheduled :: bool
  er_running :: "UDSErr_t option"
  er_flash :: 'e

definition erasure_status_init :: "'e \<Rightarrow> 'e uds_memory_erasure_routine_status" where
  "erasure_status_init e = \<lparr>er_state = UDS_MEMORY_ERASURE_STATE__NOT_STARTED, er_result = UDS_OK,
     er_scheduled = False, er_running = None, er_flash = e\<rparr>"

type_synonym ('u, 'c, 'f, 'fs, 'h, 'r, 'n, 'e) loader_world =
  "('u, 'c, 'f, 'fs, 'h, 'r, 'n, 'e uds_memory_erasure_routine_status) server_world"

record 'e flash_area_ops =
  flash_area_open :: "'e \<Rightarrow> c_int \<times> 'e"
  flash_area_erase :: "'e \<Rightarrow> c_int \<times> 'e"
  flash_area_close :: "'e \<Rightarrow> 'e"

section \<open>The erase routine\<close>

text \<open>The handler of the work item: what it does before, and what it does under, the mutex.\<close>

definition erase_slot0 :: "'e flash_area_ops \<Rightarrow> 'e \<Rightarrow> UDSErr_t \<times> 'e" where
  "erase_slot0 ops e =
     (case flash_area_open ops e of (rc, e) \<Rightarrow>
      if rc_neg rc then (UDS_NRC_GeneralProgrammingFailure, e)
      else (case flash_area_erase ops e of (rc, e) \<Rightarrow> (UDS_OK, flash_area_close ops e)))"

definition work_begin ::
  "'e flash_area_ops \<Rightarrow> 'e uds_memory_erasure_routine_status \<Rightarrow> 'e uds_memory_erasure_routine_status" where
  "work_begin ops st = (case erase_slot0 ops (er_flash st) of (result, e) \<Rightarrow>
     st\<lparr>er_scheduled := False, er_running := Some result, er_flash := e\<rparr>)"

definition work_end :: "UDSErr_t \<Rightarrow> 'e uds_memory_erasure_routine_status \<Rightarrow> 'e uds_memory_erasure_routine_status" where
  "work_end result st = st\<lparr>er_result := result, er_state := UDS_MEMORY_ERASURE_STATE__COMPLETED, er_running := None\<rparr>"

definition erase_slot0_work_handler ::
  "'e flash_area_ops \<Rightarrow> 'e uds_memory_erasure_routine_status \<Rightarrow> 'e uds_memory_erasure_routine_status" where
  "erase_slot0_work_handler ops st =
     (let st = work_begin ops st in case er_running st of Some result \<Rightarrow> work_end result st | None \<Rightarrow> st)"

text \<open>The address of \<^verbatim>\<open>erasure_status\<close>, which is the user context of the registration.\<close>

definition ERASURE_STATUS :: addr where
  "ERASURE_STATUS = 0"

definition status_of ::
  "uds_context \<Rightarrow> ('u, 'c, 'f, 'fs, 'h, 'r, 'n, 'e) loader_world \<Rightarrow> 'e uds_memory_erasure_routine_status option" where
  "status_of ctx w =
     (case map_option reg_data (deref_reg w (ctx_registration ctx)) of
        Some (Reg_routine_control (Some a) _ _) \<Rightarrow> if a = ERASURE_STATUS then Some (srv_user (env w)) else None
      | _ \<Rightarrow> None)"

definition erase_memory_routine_check ::
  "uds_context \<Rightarrow> bool \<Rightarrow> ('u, 'c, 'f, 'fs, 'h, 'r, 'n, 'e) loader_world \<Rightarrow>
   (UDSErr_t \<times> bool, ('u, 'c, 'f, 'fs, 'h, 'r, 'n, 'e) loader_world) outcome" where
  "erase_memory_routine_check ctx apply_action w =
     (case (ctx_arg ctx, status_of ctx w) of
        (Arg_RoutineCtrl ctrlType _ _, Some status) \<Rightarrow>
          if ctrlType = routine_control_val UDS_ROUTINE_CONTROL__START_ROUTINE \<and>
             er_state status = UDS_MEMORY_ERASURE_STATE__IN_PROGRESS
          then Returns (UDS_NRC_RequestSequenceError, False) w
          else if ctrlType = routine_control_val UDS_ROUTINE_CONTROL__REQUEST_ROUTINE_RESULTS \<and>
             er_state status \<noteq> UDS_MEMORY_ERASURE_STATE__COMPLETED
          then Returns (UDS_NRC_RequestSequenceError, False) w
          else if ctrlType = routine_control_val UDS_ROUTINE_CONTROL__STOP_ROUTINE
          then Returns (UDS_NRC_SubFunctionNotSupported, False) w
          else Returns (UDS_OK, True) w
      | _ \<Rightarrow> Undefined)"

text \<open>
  \<open>copyStatusRecord\<close> is the copy function of the package, \<open>nrc\<close> its numbering of the results.
  \<^verbatim>\<open>k_work_schedule\<close> leaves an item that is scheduled already as it is.
\<close>

definition erase_memory_routine_action ::
  "(UDSErr_t \<Rightarrow> u32) \<Rightarrow>
   (u8 list \<Rightarrow> ('u, 'c, 'f, 'fs, 'h, 'r, 'n, 'e) loader_world \<Rightarrow> (UDSErr_t, ('u, 'c, 'f, 'fs, 'h, 'r, 'n, 'e) loader_world) outcome) \<Rightarrow>
   uds_context \<Rightarrow> bool \<Rightarrow> ('u, 'c, 'f, 'fs, 'h, 'r, 'n, 'e) loader_world \<Rightarrow>
   (UDSErr_t \<times> bool \<times> uds_arg, ('u, 'c, 'f, 'fs, 'h, 'r, 'n, 'e) loader_world) outcome" where
  "erase_memory_routine_action nrc copyStatusRecord ctx consume_event w =
     (case (ctx_arg ctx, status_of ctx w) of
        (Arg_RoutineCtrl ctrlType rid _, Some status) \<Rightarrow>
          if rid \<noteq> 0xFF00 then Returns (UDS_NRC_RequestOutOfRange, False, ctx_arg ctx) w
          else if ctrlType = routine_control_val UDS_ROUTINE_CONTROL__START_ROUTINE then
            Returns (UDS_PositiveResponse, True, ctx_arg ctx)
              (put_env (\<lambda>x. x\<lparr>srv_user := status\<lparr>er_state := UDS_MEMORY_ERASURE_STATE__IN_PROGRESS, er_result := UDS_OK,
                 er_scheduled := True\<rparr>\<rparr>) w)
          else if ctrlType = routine_control_val UDS_ROUTINE_CONTROL__REQUEST_ROUTINE_RESULTS then
            (if er_state status \<noteq> UDS_MEMORY_ERASURE_STATE__COMPLETED
             then Returns (UDS_NRC_RequestSequenceError, True, ctx_arg ctx) w
             else obind (copyStatusRecord (be32 (nrc (er_result status))) w) (\<lambda>r w'. Returns (r, True, ctx_arg ctx) w'))
          else Returns (UDS_NRC_SubFunctionNotSupported, False, ctx_arg ctx) w
      | _ \<Rightarrow> Undefined)"

section \<open>Sessions\<close>

definition on_session_ctrl_check ::
  "uds_context \<Rightarrow> bool \<Rightarrow> 'w \<Rightarrow> (UDSErr_t \<times> bool, 'w) outcome" where
  "on_session_ctrl_check ctx apply_action w = Returns (UDS_OK, True) w"

definition on_session_ctrl_action ::
  "uds_context \<Rightarrow> bool \<Rightarrow> 'w \<Rightarrow> (UDSErr_t \<times> bool \<times> uds_arg, 'w) outcome" where
  "on_session_ctrl_action ctx consume_event w =
     (case ctx_arg ctx of
        Arg_DiagSessCtrl ty \<Rightarrow>
          if ty = session_val UDS_DIAG_SESSION__PROGRAMMING then Returns (UDS_OK, True, ctx_arg ctx) w
          else if ty = session_val UDS_DIAG_SESSION__EXTENDED then Returns (UDS_OK, True, ctx_arg ctx) w
          else Returns (UDS_NRC_SubFunctionNotSupported, True, ctx_arg ctx) w
      | _ \<Rightarrow> Undefined)"

definition on_session_timeout_check ::
  "uds_context \<Rightarrow> bool \<Rightarrow> 'w \<Rightarrow> (UDSErr_t \<times> bool, 'w) outcome" where
  "on_session_timeout_check ctx apply_action w = Returns (UDS_OK, True) w"

definition on_session_timeout_action ::
  "uds_context \<Rightarrow> bool \<Rightarrow> 'w \<Rightarrow> (UDSErr_t \<times> bool \<times> uds_arg, 'w) outcome" where
  "on_session_timeout_action ctx consume_event w = Reboots SYS_REBOOT_COLD w"

section \<open>The application\<close>

datatype loader_fn =
    Fn_on_session_ctrl_check | Fn_on_session_ctrl_action | Fn_on_session_timeout_check | Fn_on_session_timeout_action
  | Fn_erase_memory_routine_check | Fn_erase_memory_routine_action

fun loader_check ::
  "loader_fn \<Rightarrow> uds_context \<Rightarrow> bool \<Rightarrow> (loader_fn, 'c, 'f, 'fs, 'h, 'r, 'n, 'e) loader_world \<Rightarrow>
   (UDSErr_t \<times> bool, (loader_fn, 'c, 'f, 'fs, 'h, 'r, 'n, 'e) loader_world) outcome" where
  "loader_check Fn_on_session_ctrl_check ctx b w = on_session_ctrl_check ctx b w"
| "loader_check Fn_on_session_timeout_check ctx b w = on_session_timeout_check ctx b w"
| "loader_check Fn_erase_memory_routine_check ctx b w = erase_memory_routine_check ctx b w"
| "loader_check _ ctx b w = Undefined"

fun loader_action ::
  "(UDSErr_t \<Rightarrow> u32) \<Rightarrow>
   (u8 list \<Rightarrow> (loader_fn, 'c, 'f, 'fs, 'h, 'r, 'n, 'e) loader_world \<Rightarrow> (UDSErr_t, (loader_fn, 'c, 'f, 'fs, 'h, 'r, 'n, 'e) loader_world) outcome) \<Rightarrow>
   loader_fn \<Rightarrow> uds_context \<Rightarrow> bool \<Rightarrow> (loader_fn, 'c, 'f, 'fs, 'h, 'r, 'n, 'e) loader_world \<Rightarrow>
   (UDSErr_t \<times> bool \<times> uds_arg, (loader_fn, 'c, 'f, 'fs, 'h, 'r, 'n, 'e) loader_world) outcome" where
  "loader_action nrc copy Fn_on_session_ctrl_action ctx b w = on_session_ctrl_action ctx b w"
| "loader_action nrc copy Fn_on_session_timeout_action ctx b w = on_session_timeout_action ctx b w"
| "loader_action nrc copy Fn_erase_memory_routine_action ctx b w = erase_memory_routine_action nrc copy ctx b w"
| "loader_action nrc copy _ ctx b w = Undefined"

text \<open>The loader registers no handler with an unregister function of its own.\<close>

definition loader_cfg ::
  "(UDSErr_t \<Rightarrow> u32) \<Rightarrow> (loader_fn, 'c, 'f, 'fs, 'h, 'r, 'n, 'e uds_memory_erasure_routine_status) server_cfg \<Rightarrow>
   (loader_fn, 'c, 'f, 'fs, 'h, 'r, 'n, 'e uds_memory_erasure_routine_status) server_cfg" where
  "loader_cfg nrc board = board\<lparr>sc_user_check := loader_check,
     sc_user_action := loader_action nrc (call_copy (server_dddi_env board) Copy_lib),
     sc_user_unregister := (\<lambda>_ _ _. Undefined)\<rparr>"

definition loader_registrations :: "inst \<Rightarrow> loader_fn uds_registration_t list" where
  "loader_registrations k =
     [UDS_REGISTER_DIAG_SESSION_CTRL_HANDLER (Some k)
        (Some (Check_user Fn_on_session_ctrl_check)) (Some (Action_user Fn_on_session_ctrl_action))
        (Some (Check_user Fn_on_session_timeout_check)) (Some (Action_user Fn_on_session_timeout_action)) None,
      UDS_REGISTER_ROUTINE_CONTROL_HANDLER (Some k) 0xFF00
        (Some (Check_user Fn_erase_memory_routine_check)) (Some (Action_user Fn_erase_memory_routine_action))
        (Some ERASURE_STATUS)]"

section \<open>main\<close>

text \<open>\<open>retention_read\<close> reads one byte of the retained memory; \<open>mq\<close> are the message queues of the kernel, and \<open>inst\<close> is the default instance.\<close>

definition loader_main ::
  "can_frame msgq_ops \<Rightarrow> 'n boot_ops \<Rightarrow> (nat \<Rightarrow> 'n \<Rightarrow> c_int \<times> u8) \<Rightarrow> ('cb, 's) iso14229_zephyr_instance \<Rightarrow> 'n \<Rightarrow>
   c_int \<times> ('cb, 's) iso14229_zephyr_instance \<times> 'n" where
  "loader_main mq ops retention_read inst n =
     (case retention_read 0 n of (ret, session_type) \<Rightarrow>
      if ret \<noteq> rc0 then (ret, inst, n)
      else
        (case retention_write ops 0 [session_val UDS_DIAG_SESSION__DEFAULT] n of (ret, n) \<Rightarrow>
         if ret \<noteq> rc0 then (ret, inst, n)
         else if session_type = session_val UDS_DIAG_SESSION__PROGRAMMING then
           (let frame = \<lparr>frame_id = 0, frame_dlc = 3, frame_data = [0x02, 0x10, 0x02, 0, 0, 0, 0, 0]\<rparr>;
                (frame, inst) = iso14229_inject_can_frame_rx mq frame False inst
            in (rc0, inst, n))
         else (rc0, inst, n)))"

section \<open>Interleaving\<close>

text \<open>
  The work queue runs the work item, in two steps: it starts the handler of an item that is scheduled, unless
  the handler is running, and it ends a handler that is running. The server answers requests in between.
\<close>

inductive work_queue_step ::
  "'e flash_area_ops \<Rightarrow> (loader_fn, 'c, 'f, 'fs, 'h, 'r, 'n, 'e) loader_world \<Rightarrow>
   (loader_fn, 'c, 'f, 'fs, 'h, 'r, 'n, 'e) loader_world \<Rightarrow> bool" for fops where
  work_starts: "er_scheduled (srv_user (env w)) \<Longrightarrow> er_running (srv_user (env w)) = None \<Longrightarrow>
    work_queue_step fops w (put_env (\<lambda>x. x\<lparr>srv_user := work_begin fops (srv_user x)\<rparr>) w)"
| work_ends: "er_running (srv_user (env w)) = Some result \<Longrightarrow>
    work_queue_step fops w (put_env (\<lambda>x. x\<lparr>srv_user := work_end result (srv_user x)\<rparr>) w)"

inductive loader_step ::
  "(loader_fn, 'c, 'f, 'fs, 'h, 'r, 'n, 'e uds_memory_erasure_routine_status) server_cfg \<Rightarrow> 'e flash_area_ops \<Rightarrow>
   (loader_fn, 'c, 'f, 'fs, 'h, 'r, 'n, 'e) loader_world \<Rightarrow> (loader_fn, 'c, 'f, 'fs, 'h, 'r, 'n, 'e) loader_world \<Rightarrow> bool"
  for cfg fops where
  request: "server_event n cfg i ev arg w = Returns r w' \<Longrightarrow> loader_step cfg fops w w'"
| work: "work_queue_step fops w w' \<Longrightarrow> loader_step cfg fops w w'"

inductive loader_run ::
  "(loader_fn, 'c, 'f, 'fs, 'h, 'r, 'n, 'e uds_memory_erasure_routine_status) server_cfg \<Rightarrow> 'e flash_area_ops \<Rightarrow>
   (loader_fn, 'c, 'f, 'fs, 'h, 'r, 'n, 'e) loader_world \<Rightarrow> (loader_fn, 'c, 'f, 'fs, 'h, 'r, 'n, 'e) loader_world \<Rightarrow> bool"
  for cfg fops where
  run_start: "loader_run cfg fops w w"
| run_step: "loader_run cfg fops w w' \<Longrightarrow> loader_step cfg fops w' w'' \<Longrightarrow> loader_run cfg fops w w''"

section \<open>Lemmas\<close>

text \<open>An erasure that is in progress has its work item; before the first start there is none.\<close>

definition erasure_ok :: "'e uds_memory_erasure_routine_status \<Rightarrow> bool" where
  "erasure_ok st \<longleftrightarrow>
     (er_state st = UDS_MEMORY_ERASURE_STATE__IN_PROGRESS \<longrightarrow> er_scheduled st \<or> er_running st \<noteq> None) \<and>
     (er_state st = UDS_MEMORY_ERASURE_STATE__NOT_STARTED \<longrightarrow> \<not> er_scheduled st \<and> er_running st = None)"

lemma status_of_Some: "status_of ctx w = Some st \<Longrightarrow> st = srv_user (env w)"
  by (auto simp: status_of_def split: option.splits uds_registration_data.splits if_splits)

lemma copy_keeps_user: "call_copy (server_dddi_env cfg) Copy_lib bs w = Returns r w' \<Longrightarrow> srv_user (env w') = srv_user (env w)"
  by (auto simp: call_copy_def server_dddi_env_def split: prod.splits)

lemma erase_check_ok:
  "erasure_ok (srv_user (env w)) \<Longrightarrow> oholds (\<lambda>w. erasure_ok (srv_user (env w))) (erase_memory_routine_check ctx b w)"
  by (auto simp: erase_memory_routine_check_def split: uds_arg.splits option.splits)

lemma erase_action_ok:
  assumes "erasure_ok (srv_user (env w))"
  shows "oholds (\<lambda>w. erasure_ok (srv_user (env w)))
    (erase_memory_routine_action nrc (call_copy (server_dddi_env cfg) Copy_lib) ctx b w)"
proof -
  have "oholds (\<lambda>w. erasure_ok (srv_user (env w))) (call_copy (server_dddi_env cfg) Copy_lib bs w)" for bs
    using assms by (auto simp: call_copy_def server_dddi_env_def split: prod.splits)
  then show ?thesis
    using assms unfolding erase_memory_routine_action_def
    by (auto intro!: oholds_obind simp: erasure_ok_def put_env_def dest: status_of_Some split: uds_arg.splits option.splits)
qed

lemma loader_check_ok:
  "erasure_ok (srv_user (env w)) \<Longrightarrow> oholds (\<lambda>w. erasure_ok (srv_user (env w))) (loader_check u ctx b w)"
  by (cases u) (simp_all add: erase_check_ok on_session_ctrl_check_def on_session_timeout_check_def)

lemma loader_action_ok:
  "erasure_ok (srv_user (env w)) \<Longrightarrow>
   oholds (\<lambda>w. erasure_ok (srv_user (env w))) (loader_action nrc (call_copy (server_dddi_env cfg) Copy_lib) u ctx b w)"
  by (cases u) (auto simp: erase_action_ok on_session_ctrl_action_def on_session_timeout_action_def split: uds_arg.splits)

text \<open>The firmware loader is an application of the server.\<close>

interpretation loader: application "loader_cfg nrc board" erasure_ok
  for nrc and board :: "(loader_fn, 'c, 'f, 'fs, 'h, 'r, 'n, 'e uds_memory_erasure_routine_status) server_cfg"
  by unfold_locales (simp_all add: loader_cfg_def loader_check_ok loader_action_ok)

lemma loader_step_ok:
  assumes "loader_step (loader_cfg nrc board) fops w w'" and "erasure_ok (srv_user (env w))"
  shows "erasure_ok (srv_user (env w'))"
  using assms
proof cases
  case (request n i ev arg r)
  from loader.server_event_user [OF assms(2), where nrc = nrc and board = board and n = n and i = i and ev = ev and arg = arg]
  show ?thesis using request by simp
next
  case work
  then show ?thesis
    using assms(2)
    by cases (auto simp: erasure_ok_def put_env_def work_begin_def work_end_def split: prod.splits)
qed

lemma loader_run_ok:
  "loader_run (loader_cfg nrc board) fops w w' \<Longrightarrow> erasure_ok (srv_user (env w)) \<Longrightarrow> erasure_ok (srv_user (env w'))"
  by (induction rule: loader_run.induct) (auto intro: loader_step_ok)

lemma erasure_ok_init: "erasure_ok (erasure_status_init e)"
  by (simp add: erasure_ok_def erasure_status_init_def)

text \<open>The work item, left alone, completes: the handler that is running ends, and one that is scheduled starts first.\<close>

lemma running_work_ends:
  assumes "er_running (srv_user (env w)) = Some result"
  shows "\<exists>w'. work_queue_step fops w w' \<and> er_state (srv_user (env w')) = UDS_MEMORY_ERASURE_STATE__COMPLETED \<and>
    er_result (srv_user (env w')) = result \<and> er_flash (srv_user (env w')) = er_flash (srv_user (env w))"
  by (rule exI, rule conjI, rule work_ends [OF assms]) (simp add: put_env_def work_end_def)

lemma scheduled_work_ends:
  assumes "er_scheduled (srv_user (env w))" and "er_running (srv_user (env w)) = None"
  shows "\<exists>w'. (work_queue_step fops ^^ 2) w w' \<and> er_state (srv_user (env w')) = UDS_MEMORY_ERASURE_STATE__COMPLETED \<and>
    (er_result (srv_user (env w')), er_flash (srv_user (env w'))) = erase_slot0 fops (er_flash (srv_user (env w)))"
proof -
  obtain result e where er: "erase_slot0 fops (er_flash (srv_user (env w))) = (result, e)" by fastforce
  let ?w1 = "put_env (\<lambda>x. x\<lparr>srv_user := work_begin fops (srv_user x)\<rparr>) w"
  have w1: "er_running (srv_user (env ?w1)) = Some result" "er_flash (srv_user (env ?w1)) = e"
    using er by (simp_all add: put_env_def work_begin_def)
  from running_work_ends [OF w1(1), of fops] obtain w' where "work_queue_step fops ?w1 w'"
    "er_state (srv_user (env w')) = UDS_MEMORY_ERASURE_STATE__COMPLETED"
    "er_result (srv_user (env w')) = result" "er_flash (srv_user (env w')) = e" using w1(2) by auto
  then show ?thesis using work_starts [OF assms, of fops] er by (auto simp: numeral_2_eq_2)
qed

lemma handler_routine_member: "handler_routine_control \<in> set uds_handlers"
  by (simp add: uds_handlers_def)

section \<open>Properties\<close>

text \<open>The registrations of the loader with those of the default instance and the transfer service.\<close>

definition loader_static :: "bool \<Rightarrow> inst \<Rightarrow> loader_fn uds_registration_t list" where
  "loader_static link k = default_instance_registrations link k @ loader_registrations k @ [upload_download_registration]"

definition demo_loader_cfg :: "(loader_fn, unit, nat \<Rightarrow> u8, unit, unit, u8 list, unit, nat uds_memory_erasure_routine_status) server_cfg" where
  "demo_loader_cfg =
     \<lparr>sc_layout = board_layout, sc_disable_switch = True, sc_default_bitrate = 500000, sc_transfer = demo_cfg,
      sc_can = \<lparr>can_stop = (\<lambda>c. (rc0, c)), can_set_bitrate = (\<lambda>b c. (rc0, c)), can_start = (\<lambda>c. (rc0, c))\<rparr>,
      sc_ops = demo_ops, sc_boot = \<lparr>retention_write = (\<lambda>off d n. (rc0, n)), bootmode_set = (\<lambda>m n. (rc0, n))\<rparr>,
      sc_copy = (\<lambda>bs r. (UDS_PositiveResponse, r @ bs)),
      sc_user_check = (\<lambda>u ctx b w. Undefined), sc_user_action = (\<lambda>u ctx b w. Undefined), sc_user_unregister = (\<lambda>u a w. Undefined)\<rparr>"

definition demo_loader_world ::
  "uds_memory_erasure_routine_state \<Rightarrow> bool \<Rightarrow> (loader_fn, unit, nat \<Rightarrow> u8, unit, unit, u8 list, unit, nat) loader_world" where
  "demo_loader_world st sched = boot_world (loader_static True 0)
     \<lparr>srv_sessionType = (\<lambda>_. 1), srv_securityLevel = (\<lambda>_. 0), srv_p2_ms = (\<lambda>_. 50), srv_user_context = (\<lambda>_. None), srv_link = \<lparr>lk_modifier = 0, lk_modifier_set = False, lk_can = ()\<rparr>,
      srv_transfer = demo_world, srv_memory = (\<lambda>_. 0), srv_temp_buffer = [], srv_boot = (),
      srv_user = (erasure_status_init 0)\<lparr>er_state := st, er_scheduled := sched\<rparr>\<rparr>"

text \<open>A flash whose erase fails, and which counts the attempts.\<close>

definition demo_flash_area :: "nat flash_area_ops" where
  "demo_flash_area = \<lparr>flash_area_open = (\<lambda>e. (rc0, e)), flash_area_erase = (\<lambda>e. (Inl EIO, Suc e)), flash_area_close = (\<lambda>e. e)\<rparr>"

lemma demo_erase_start:
  "server_event 2 (loader_cfg (\<lambda>_. 0) demo_loader_cfg) 0 UDS_EVT_RoutineCtrl (Arg_RoutineCtrl 1 0xFF00 [])
      (demo_loader_world UDS_MEMORY_ERASURE_STATE__NOT_STARTED False) = Returns (UDS_OK, Arg_RoutineCtrl 1 0xFF00 [])
       (put_env (\<lambda>x. x\<lparr>srv_user := (srv_user x)\<lparr>er_state := UDS_MEMORY_ERASURE_STATE__IN_PROGRESS, er_result := UDS_OK, er_scheduled := True\<rparr>\<rparr>)
         (demo_loader_world UDS_MEMORY_ERASURE_STATE__NOT_STARTED False))"
proof -
  have ev: "server_event n cfg i UDS_EVT_RoutineCtrl arg w =
      uds_handle_event (run_check n cfg) (run_action n cfg) n i UDS_EVT_RoutineCtrl arg handler_routine_control w" for n cfg i arg w
    using server_event_handler [OF handler_routine_member] by (simp add: handler_routine_control_def)
  show ?thesis
    unfolding ev
    by (simp add: demo_loader_world_def boot_world_def loader_static_def loader_registrations_def default_instance_registrations_def
        UDS_REGISTER_LINK_CONTROL_DEFAULT_HANDLER_def single_reg_defs upload_download_registration_def uds_handle_event_def
        upt_rec numeral_2_eq_2 uds_check_and_act_on_event_def handler_routine_control_def uds_get_check_for_routine_control_def
        uds_get_action_for_routine_control_def uds_check_with_routine_id_fn_def loader_cfg_def erase_memory_routine_check_def
        erase_memory_routine_action_def status_of_def ERASURE_STATUS_def erasure_status_init_def put_env_def)
qed

text \<open>
  (C9) An erasure that was started does not get stuck: in every state the loader can reach from its
  start, by requests of any kind and steps of the work queue, an erasure that is in progress has a work
  item that is scheduled or running, and one or two steps of the work queue, without a request, complete it; where the handler
  was not running yet, these steps erase the flash, and the result is that of opening and erasing it.
\<close>

theorem erasure_completes:
  fixes w w' :: "(loader_fn, 'c, 'f, 'fs, 'h, 'r, 'n, 'e) loader_world"
  assumes "loader_run (loader_cfg nrc board) fops w w'" and "srv_user (env w) = erasure_status_init e"
    and "er_state (srv_user (env w')) = UDS_MEMORY_ERASURE_STATE__IN_PROGRESS"
  shows "(er_scheduled (srv_user (env w')) \<or> er_running (srv_user (env w')) \<noteq> None) \<and>
    (\<exists>k w''. k \<le> 2 \<and> (work_queue_step fops ^^ k) w' w'' \<and> er_state (srv_user (env w'')) = UDS_MEMORY_ERASURE_STATE__COMPLETED \<and>
      (er_running (srv_user (env w')) = None \<longrightarrow>
        (er_result (srv_user (env w'')), er_flash (srv_user (env w''))) = erase_slot0 fops (er_flash (srv_user (env w')))))"
proof -
  have ok: "erasure_ok (srv_user (env w'))"
    using loader_run_ok [OF assms(1)] assms(2) by (simp add: erasure_ok_init)
  then have item: "er_scheduled (srv_user (env w')) \<or> er_running (srv_user (env w')) \<noteq> None"
    using assms(3) by (simp add: erasure_ok_def)
  show ?thesis
  proof (cases "er_running (srv_user (env w'))")
    case None
    then have "er_scheduled (srv_user (env w'))" using item by simp
    from scheduled_work_ends [OF this None, of fops] obtain w'' where "(work_queue_step fops ^^ 2) w' w''"
      "er_state (srv_user (env w'')) = UDS_MEMORY_ERASURE_STATE__COMPLETED"
      "(er_result (srv_user (env w'')), er_flash (srv_user (env w''))) = erase_slot0 fops (er_flash (srv_user (env w')))" by blast
    then show ?thesis by (intro conjI item exI [of _ 2] exI [of _ w'']) simp_all
  next
    case (Some result)
    from running_work_ends [OF this, of fops] obtain w'' where "(work_queue_step fops ^^ 1) w' w''"
      "er_state (srv_user (env w'')) = UDS_MEMORY_ERASURE_STATE__COMPLETED" by auto
    then show ?thesis using Some by (intro conjI item exI [of _ 1] exI [of _ w'']) simp_all
  qed
qed

theorem erasure_completes_witness:
  "\<exists>k w''. k \<le> 2 \<and> (work_queue_step demo_flash_area ^^ k)
       (put_env (\<lambda>x. x\<lparr>srv_user := (srv_user x)\<lparr>er_state := UDS_MEMORY_ERASURE_STATE__IN_PROGRESS, er_result := UDS_OK, er_scheduled := True\<rparr>\<rparr>)
         (demo_loader_world UDS_MEMORY_ERASURE_STATE__NOT_STARTED False)) w'' \<and>
     er_state (srv_user (env w'')) = UDS_MEMORY_ERASURE_STATE__COMPLETED \<and> er_flash (srv_user (env w'')) = 1"
proof -
  let ?w = "put_env (\<lambda>x. x\<lparr>srv_user := (srv_user x)\<lparr>er_state := UDS_MEMORY_ERASURE_STATE__IN_PROGRESS, er_result := UDS_OK, er_scheduled := True\<rparr>\<rparr>)
         (demo_loader_world UDS_MEMORY_ERASURE_STATE__NOT_STARTED False)"
  have st: "srv_user (env ?w) = (erasure_status_init 0)\<lparr>er_state := UDS_MEMORY_ERASURE_STATE__IN_PROGRESS, er_result := UDS_OK, er_scheduled := True\<rparr>"
    by (simp add: demo_loader_world_def boot_world_def put_env_def erasure_status_init_def)
  have "erase_slot0 demo_flash_area 0 = (UDS_OK, 1)" by (simp add: erase_slot0_def demo_flash_area_def)
  moreover have "loader_run (loader_cfg (\<lambda>_. 0) demo_loader_cfg) demo_flash_area
      (demo_loader_world UDS_MEMORY_ERASURE_STATE__NOT_STARTED False) ?w"
    by (rule run_step [OF run_start request [OF demo_erase_start]])
  moreover note erasure_completes [where e = 0, OF this]
  ultimately have "\<exists>k w''. k \<le> 2 \<and> (work_queue_step demo_flash_area ^^ k) ?w w'' \<and>
      er_state (srv_user (env w'')) = UDS_MEMORY_ERASURE_STATE__COMPLETED \<and>
      (er_result (srv_user (env w'')), er_flash (srv_user (env w''))) = (UDS_OK, 1)"
    unfolding st by (simp add: demo_loader_world_def boot_world_def erasure_status_init_def)
  then show ?thesis by (simp only: prod.inject) blast
qed

text \<open>
  While an erasure is in progress, a request to start it again is refused with RequestSequenceError,
  and nothing changes: the flash is never erased twice for one start. The request goes through the
  whole dispatcher, with the registrations in any order.
\<close>

theorem erasure_restart_refused:
  fixes w :: "(loader_fn, 'c, 'f, 'fs, 'h, 'r, 'n, 'e) loader_world"
  assumes "set (static_regs w) = set (loader_static link k)"
    and "er_state (srv_user (env w)) = UDS_MEMORY_ERASURE_STATE__IN_PROGRESS"
  shows "server_event (Suc (Suc n)) (loader_cfg nrc board) i UDS_EVT_RoutineCtrl (Arg_RoutineCtrl 1 0xFF00 opts) w =
    Returns (UDS_NRC_RequestSequenceError, Arg_RoutineCtrl 1 0xFF00 opts) w"
proof -
  let ?h = "handler_routine_control :: loader_fn uds_event_handler_data" and ?arg = "Arg_RoutineCtrl 1 0xFF00 opts"
  let ?cfg = "loader_cfg nrc board"
  let ?r = "UDS_REGISTER_ROUTINE_CONTROL_HANDLER (Some k) 0xFF00 (Some (Check_user Fn_erase_memory_routine_check))
    (Some (Action_user Fn_erase_memory_routine_action)) (Some ERASURE_STATUS)"
  have ev: "h_event ?h = UDS_EVT_RoutineCtrl" by (simp add: handler_routine_control_def)
  have "\<exists>m < length (static_regs w). static_regs w ! m = ?r \<and>
    server_event (Suc (Suc n)) ?cfg i (h_event ?h) ?arg w =
      obind (Returns UDS_NRC_RequestSequenceError w) (\<lambda>ret w'. Returns (ret, ?arg) w')"
  proof (rule server_event_decided [where act = "\<lambda>_. Returns UDS_NRC_RequestSequenceError w", OF handler_routine_member])
    show "?r \<in> set (static_regs w)" using assms(1) by (simp add: loader_static_def loader_registrations_def)
  next
    fix m assume m: "m < length (static_regs w)" "static_regs w ! m \<noteq> ?r"
    then have "static_regs w ! m \<in> set (loader_static link k)" using assms(1) nth_mem by blast
    then have "reg_type (static_regs w ! m) \<noteq> UDS_REGISTRATION_TYPE__ROUTINE_CONTROL"
      using m(2) by (auto simp: loader_static_def loader_registrations_def default_instance_registrations_def
          UDS_REGISTER_LINK_CONTROL_DEFAULT_HANDLER_def single_reg_defs upload_download_registration_def split: if_splits)
    then show "skips (run_check (Suc (Suc n)) ?cfg) (run_action (Suc (Suc n)) ?cfg) i (h_event ?h) ?arg ?h w (Static m)"
      by (intro skips_type [OF deref_static [OF m(1)]]) (simp add: handler_routine_control_def)
  next
    fix m assume "m < length (static_regs w)" and "static_regs w ! m = ?r"
    then show "uds_check_and_act_on_event (run_check (Suc (Suc n)) ?cfg) (run_action (Suc (Suc n)) ?cfg)
        \<lparr>ctx_instance = i, ctx_registration = Static m, ctx_event = h_event ?h, ctx_arg = ?arg\<rparr> ?h False True w =
      obind (Returns UDS_NRC_RequestSequenceError w) (\<lambda>ret w'. Returns (ret, False, False, ?arg) w')"
      using assms(2)
      by (simp add: uds_check_and_act_on_event_def single_reg_defs handler_routine_control_def
          uds_get_check_for_routine_control_def uds_check_with_routine_id_fn_def loader_cfg_def
          erase_memory_routine_check_def status_of_def ERASURE_STATUS_def)
  qed simp
  then show ?thesis unfolding ev by auto
qed

theorem erasure_restart_refused_witness:
  "server_event 2 (loader_cfg (\<lambda>_. 0) demo_loader_cfg) 0 UDS_EVT_RoutineCtrl (Arg_RoutineCtrl 1 0xFF00 [])
     (demo_loader_world UDS_MEMORY_ERASURE_STATE__IN_PROGRESS True) =
   Returns (UDS_NRC_RequestSequenceError, Arg_RoutineCtrl 1 0xFF00 []) (demo_loader_world UDS_MEMORY_ERASURE_STATE__IN_PROGRESS True)"
  using erasure_restart_refused [of "demo_loader_world UDS_MEMORY_ERASURE_STATE__IN_PROGRESS True" True 0 0]
  by (simp add: demo_loader_world_def boot_world_def numeral_2_eq_2)

text \<open>
  A failed erase is reported as a success: when the partition opens but erasing it fails, the
  routine completes with the result \<open>UDS_OK\<close>, and a request for the results is answered positively
  with the bytes of that result.
\<close>

theorem erase_failure_reported_as_success:
  fixes w :: "(loader_fn, 'c, 'f, 'fs, 'h, 'r, 'n, 'e) loader_world"
  assumes "flash_area_open fops (er_flash (srv_user (env w))) = (rc0, e1)" and "flash_area_erase fops e1 = (Inl err, e2)"
    and "deref_reg w (ctx_registration ctx) = Some (loader_registrations k ! 1)" and "ctx_arg ctx = Arg_RoutineCtrl 3 0xFF00 opts"
    and "w' = put_env (\<lambda>x. x\<lparr>srv_user := erase_slot0_work_handler fops (srv_user x)\<rparr>) w"
  shows "er_state (srv_user (env w')) = UDS_MEMORY_ERASURE_STATE__COMPLETED \<and> er_result (srv_user (env w')) = UDS_OK \<and>
    erase_memory_routine_action nrc copy ctx b w' =
      obind (copy (be32 (nrc UDS_OK)) w') (\<lambda>r w''. Returns (r, True, ctx_arg ctx) w'')"
proof -
  have "deref_reg w' ref = deref_reg w ref" for ref
    by (cases ref) (simp_all add: assms(5) put_env_def)
  then have "status_of ctx w' = Some (srv_user (env w'))"
    using assms(3) by (simp add: status_of_def loader_registrations_def single_reg_defs del: deref_reg.simps)
  moreover have "er_state (srv_user (env w')) = UDS_MEMORY_ERASURE_STATE__COMPLETED \<and> er_result (srv_user (env w')) = UDS_OK"
    using assms(1,2) by (simp add: assms(5) put_env_def erase_slot0_work_handler_def work_begin_def erase_slot0_def work_end_def)
  ultimately show ?thesis using assms(4) by (simp add: erase_memory_routine_action_def)
qed

definition demo_failed_world :: "(loader_fn, unit, nat \<Rightarrow> u8, unit, unit, u8 list, unit, nat) loader_world" where
  "demo_failed_world = put_env (\<lambda>x. x\<lparr>srv_user := erase_slot0_work_handler demo_flash_area (srv_user x)\<rparr>)
     (demo_loader_world UDS_MEMORY_ERASURE_STATE__IN_PROGRESS True)"

theorem erase_failure_reported_as_success_witness:
  "er_result (srv_user (env demo_failed_world)) = UDS_OK \<and>
   erase_memory_routine_action (\<lambda>_. 0) (\<lambda>bs w. Returns UDS_OK w)
     \<lparr>ctx_instance = 0, ctx_registration = Static 5, ctx_event = UDS_EVT_RoutineCtrl, ctx_arg = Arg_RoutineCtrl 3 0xFF00 []\<rparr>
     True demo_failed_world =
   Returns (UDS_OK, True, Arg_RoutineCtrl 3 0xFF00 []) demo_failed_world"
proof -
  let ?ctx = "\<lparr>ctx_instance = 0, ctx_registration = Static 5, ctx_event = UDS_EVT_RoutineCtrl, ctx_arg = Arg_RoutineCtrl 3 0xFF00 []\<rparr>"
  have "deref_reg (demo_loader_world UDS_MEMORY_ERASURE_STATE__IN_PROGRESS True) (Static 5) = Some (loader_registrations 0 ! 1)"
    by (simp add: demo_loader_world_def boot_world_def loader_static_def loader_registrations_def default_instance_registrations_def
        UDS_REGISTER_LINK_CONTROL_DEFAULT_HANDLER_def)
  then show ?thesis
    using erase_failure_reported_as_success [OF _ _ _ _ demo_failed_world_def, where ?e1.0 = 0 and err = EIO and ?e2.0 = 1
        and ctx = ?ctx and k = 0 and nrc = "\<lambda>_. 0" and copy = "\<lambda>bs w. Returns UDS_OK w" and b = True]
    by (simp add: demo_flash_area_def demo_loader_world_def boot_world_def erasure_status_init_def)
qed

text \<open>
  (C18) A programming session survives the reboot into the loader: if the application's switch reboots the
  board, then the \<open>main\<close> of the loader finds the session, puts the request for the programming session
  at the end of the queue of its instance, under the physical address of the instance, and forgets the session: a second
  start of the loader changes nothing. The retained memory is supposed to take every write and to give back what was
  written, not to overlap with the boot mode, and the queue of the instance to keep the contract of the kernel and to have room.
\<close>

theorem programming_session_survives_reboot:
  fixes inst :: "('cb, 's) iso14229_zephyr_instance"
  assumes "uds_switch_to_firmware_loader_with_programming_session ops n = Reboots SYS_REBOOT_WARM n2"
    and "\<forall>b n n'. retention_write ops 0 [b] n = (rc0, n') \<longrightarrow> retention_read 0 n' = (rc0, b)"
    and "\<forall>m n r n'. bootmode_set ops m n = (r, n') \<longrightarrow> retention_read 0 n' = retention_read 0 n"
    and "\<forall>b n. \<exists>n'. retention_write ops 0 [b] n = (rc0, n')" and "msgq_contract mq" and "length (can_phys_msgq inst) < 25"
  shows "\<exists>inst' n3 n4. loader_main mq ops retention_read inst n2 = (rc0, inst', n3) \<and>
    can_phys_msgq inst' = can_phys_msgq inst @
      [\<lparr>frame_id = source_addr (iso_tp inst), frame_dlc = 3, frame_data = [0x02, 0x10, 0x02, 0, 0, 0, 0, 0]\<rparr>] \<and>
    loader_main mq ops retention_read inst' n3 = (rc0, inst', n4)"
proof -
  obtain n1 where w1: "retention_write ops 0 [2] n = (rc0, n1)" and b: "bootmode_set ops BOOT_MODE_TYPE_BOOTLOADER n1 = (rc0, n2)"
    using assms(1) by (auto simp: uds_switch_to_firmware_loader_with_programming_session_def split: prod.splits if_splits)
  have r2: "retention_read 0 n2 = (rc0, 2)" using assms(2,3) w1 b by metis
  obtain n3 where w3: "retention_write ops 0 [1] n2 = (rc0, n3)" using assms(4) by blast
  obtain n4 where w4: "retention_write ops 0 [1] n3 = (rc0, n4)" using assms(4) by blast
  have r3: "retention_read 0 n3 = (rc0, 1)" using assms(2) w3 by blast
  have main3: "loader_main mq ops retention_read inst0 n3 = (rc0, inst0, n4)" for inst0 :: "('cb, 's) iso14229_zephyr_instance"
    by (simp add: loader_main_def r3 w4)
  let ?f = "\<lparr>frame_id = source_addr (iso_tp inst), frame_dlc = 3, frame_data = [0x02, 0x10, 0x02, 0, 0, 0, 0, 0]\<rparr>"
  have "loader_main mq ops retention_read inst n2 = (rc0, can_rx_cb mq Phys ?f inst, n3)"
    by (simp add: loader_main_def r2 w3 iso14229_inject_can_frame_rx_def Let_def)
  moreover have "can_phys_msgq (can_rx_cb mq Phys ?f inst) = can_phys_msgq inst @ [?f]"
    using assms(6) by (simp add: can_rx_cb_def msgq_put_iff [OF assms(5)] MSGQ_FRAMES_def)
  ultimately show ?thesis using main3 by blast
qed

text \<open>A retained memory of one byte and a boot mode.\<close>

definition demo_boot :: "(u8 \<times> boot_mode) boot_ops" where
  "demo_boot = \<lparr>retention_write = (\<lambda>off bs n. (rc0, hd bs, snd n)), bootmode_set = (\<lambda>m n. (rc0, fst n, m))\<rparr>"

theorem programming_session_survives_reboot_witness:
  "\<exists>inst' n3 n4. loader_main demo_msgq demo_boot (\<lambda>off n. (rc0, fst n)) (blank_inst () :: (unit, unit) iso14229_zephyr_instance)
      (2, BOOT_MODE_TYPE_BOOTLOADER) = (rc0, inst', n3) \<and>
    can_phys_msgq inst' = [\<lparr>frame_id = 0, frame_dlc = 3, frame_data = [0x02, 0x10, 0x02, 0, 0, 0, 0, 0]\<rparr>] \<and>
    loader_main demo_msgq demo_boot (\<lambda>off n. (rc0, fst n)) inst' n3 = (rc0, inst', n4)"
proof -
  have "uds_switch_to_firmware_loader_with_programming_session demo_boot (1, BOOT_MODE_TYPE_NORMAL) =
      Reboots SYS_REBOOT_WARM (2, BOOT_MODE_TYPE_BOOTLOADER)"
    by (simp add: uds_switch_to_firmware_loader_with_programming_session_def demo_boot_def)
  from programming_session_survives_reboot [OF this, of "\<lambda>off n. (rc0, fst n)" demo_msgq "blank_inst () :: (unit, unit) iso14229_zephyr_instance"]
  show ?thesis by (simp add: demo_boot_def blank_inst_def)
qed

end
