(* ===== verification/Usb.thy ===== *)
theory Usb
  imports Firmware_Loader
begin

text \<open>
  The USB devices of an application (\<^verbatim>\<open>lib/ardep_usb/ardep_usb.c\<close>) and of the firmware loader
  (\<^verbatim>\<open>firmware_loader/src/usb_dfu.c\<close>), and the hooks of the external ISO-TP library
  (\<^verbatim>\<open>modules/iso14229/drv.c\<close>). \<open>'b\<close> is the state of Zephyr's USB device stack.
\<close>

section \<open>The USB device stack\<close>

datatype usb_speed = USBD_SPEED_FS | USBD_SPEED_HS | USBD_SPEED_other
datatype usb_descriptor = Desc_lang | Desc_mfr | Desc_product

datatype usb_call =
    usbd_add_descriptor usb_descriptor
  | usbd_add_configuration usb_speed
  | usbd_register_all_classes usb_speed nat "string list"
  | usbd_register_class string usb_speed nat
  | usbd_device_set_code_triple usb_speed
  | usbd_init
  | usbd_msg_register_cb
  | usbd_enable
  | usbd_disable
  | usbd_shutdown

record 'b usb_stack =
  usbd_call :: "usb_call \<Rightarrow> 'b \<Rightarrow> c_int \<times> 'b"
  usbd_caps_speed :: "'b \<Rightarrow> usb_speed"

text \<open>A call whose failure ends the function, and one whose result is not looked at.\<close>

definition usb_try :: "'b usb_stack \<Rightarrow> usb_call \<Rightarrow> ('b \<Rightarrow> c_int \<times> 'b) \<Rightarrow> 'b \<Rightarrow> c_int \<times> 'b" where
  "usb_try st c f b = (case usbd_call st c b of (err, b') \<Rightarrow> if err \<noteq> rc0 then (err, b') else f b')"

definition usb_do :: "'b usb_stack \<Rightarrow> usb_call \<Rightarrow> 'b \<Rightarrow> 'b" where
  "usb_do st c b = snd (usbd_call st c b)"

section \<open>The application\<close>

definition blacklist_class_names :: "string list" where
  "blacklist_class_names = [''dfu_dfu'']"

definition ardep_usb_init :: "'b usb_stack \<Rightarrow> 'b \<Rightarrow> c_int \<times> 'b" where
  "ardep_usb_init st =
     usb_try st (usbd_add_descriptor Desc_lang) (
     usb_try st (usbd_add_descriptor Desc_mfr) (
     usb_try st (usbd_add_descriptor Desc_product) (\<lambda>b.
     (let rest =
            usb_try st (usbd_add_configuration USBD_SPEED_FS) (
            usb_try st (usbd_register_all_classes USBD_SPEED_FS 1 blacklist_class_names) (
            usb_try st usbd_init (
            usb_try st usbd_msg_register_cb (
            usb_try st usbd_enable (\<lambda>b. (rc0, b))))))
      in if usbd_caps_speed st b = USBD_SPEED_HS then
           usb_try st (usbd_add_configuration USBD_SPEED_HS) (
           usb_try st (usbd_register_all_classes USBD_SPEED_HS 1 blacklist_class_names) rest) b
         else rest b))))"

datatype usb_msg = USBD_MSG_DFU_APP_DETACH | USBD_MSG_DFU_DOWNLOAD_COMPLETED | USBD_MSG_other nat

text \<open>The message callback of the application; \<open>'n\<close> holds the boot mode and the retained memory.\<close>

definition ardep_usb_msg_cb :: "'b usb_stack \<Rightarrow> 'n boot_ops \<Rightarrow> usb_msg \<Rightarrow> 'b \<times> 'n \<Rightarrow> (unit, 'b \<times> 'n) outcome" where
  "ardep_usb_msg_cb st ops msg = (\<lambda>(b, n).
     (case msg of
        USBD_MSG_DFU_APP_DETACH \<Rightarrow>
          (let b = usb_do st usbd_shutdown (usb_do st usbd_disable b) in
           case bootmode_set ops BOOT_MODE_TYPE_BOOTLOADER n of (_, n) \<Rightarrow> Reboots SYS_REBOOT_WARM (b, n))
      | _ \<Rightarrow> Returns () (b, n)))"

section \<open>The firmware loader\<close>

definition firmware_loader_usb_init :: "'b usb_stack \<Rightarrow> 'b \<Rightarrow> c_int \<times> 'b" where
  "firmware_loader_usb_init st =
     usb_try st (usbd_add_descriptor Desc_lang) (
     usb_try st (usbd_add_descriptor Desc_mfr) (
     usb_try st (usbd_add_descriptor Desc_product) (\<lambda>b.
     (let rest =
            usb_try st (usbd_add_configuration USBD_SPEED_FS) (
            usb_try st (usbd_register_class ''dfu_dfu'' USBD_SPEED_FS 1) (\<lambda>b.
            usb_try st usbd_init (
            usb_try st usbd_msg_register_cb (
            usb_try st usbd_enable (\<lambda>b. (rc0, b)))) (usb_do st (usbd_device_set_code_triple USBD_SPEED_FS) b)))
      in if usbd_caps_speed st b = USBD_SPEED_HS then
           usb_try st (usbd_add_configuration USBD_SPEED_HS) (
           usb_try st (usbd_register_class ''dfu_dfu'' USBD_SPEED_HS 1) (\<lambda>b.
             rest (usb_do st (usbd_device_set_code_triple USBD_SPEED_HS) b))) b
         else rest b))))"

text \<open>
  The message callback of the loader, with the work item \<^verbatim>\<open>reset_work\<close>; \<open>reboot_after\<close> is
  \<^verbatim>\<open>CONFIG_FIRMWARE_LOADER_USB_DFU_REBOOT_AFTER_COMPLETION\<close>.
\<close>

definition loader_usb_msg_cb :: "bool \<Rightarrow> 'b usb_stack \<Rightarrow> usb_msg \<Rightarrow> 'b \<times> bool \<Rightarrow> 'b \<times> bool" where
  "loader_usb_msg_cb reboot_after st msg = (\<lambda>(b, reset_work).
     (case msg of
        USBD_MSG_DFU_APP_DETACH \<Rightarrow>
          (let b = usb_do st usbd_shutdown (usb_do st usbd_disable b) in (snd (firmware_loader_usb_init st b), reset_work))
      | USBD_MSG_DFU_DOWNLOAD_COMPLETED \<Rightarrow> (b, if reboot_after then True else reset_work)
      | _ \<Rightarrow> (b, reset_work)))"

definition reset_work_handler :: "'w \<Rightarrow> (unit, 'w) outcome" where
  "reset_work_handler w = Reboots SYS_REBOOT_COLD w"

section \<open>Hooks of the ISO-TP library\<close>

datatype isotp_ret = ISOTP_RET_OK | ISOTP_RET_ERROR

text \<open>\<open>stack\<close> are the bytes that the local frame has before it is filled.\<close>

definition isotp_user_send_can ::
  "(can_frame \<Rightarrow> 'd \<Rightarrow> c_int \<times> 'd) \<Rightarrow> u8 list \<Rightarrow> u32 \<Rightarrow> u8 list \<Rightarrow> u8 \<Rightarrow> 'd \<Rightarrow> (isotp_ret, 'd) outcome" where
  "isotp_user_send_can can_send stack arbitration_id data sz dev =
     (if unat sz > length stack \<or> unat sz > length data then Undefined
      else
        (case can_send \<lparr>frame_id = arbitration_id, frame_dlc = sz,
             frame_data = take (unat sz) data @ drop (unat sz) stack\<rparr> dev of
           (ret, dev) \<Rightarrow> Returns (if ret \<noteq> rc0 then ISOTP_RET_ERROR else ISOTP_RET_OK) dev))"

text \<open>\<open>uptime\<close> is the time since the start of the board in milliseconds.\<close>

definition k_uptime_get_32 :: "nat \<Rightarrow> u32" where
  "k_uptime_get_32 uptime = of_nat uptime"

definition isotp_user_get_us :: "nat \<Rightarrow> u32" where
  "isotp_user_get_us uptime = k_uptime_get_32 uptime * 1000"

definition UDSMillis :: "nat \<Rightarrow> u32" where
  "UDSMillis uptime = k_uptime_get_32 uptime"

section \<open>Initialisation\<close>

text \<open>
  The reference: the calls in order, up to the first one that fails. The result of the code triple is not
  looked at.
\<close>

definition ignored :: "usb_call \<Rightarrow> bool" where
  "ignored c \<longleftrightarrow> (\<exists>s. c = usbd_device_set_code_triple s)"

fun run_calls :: "'b usb_stack \<Rightarrow> usb_call list \<Rightarrow> 'b \<Rightarrow> c_int \<times> 'b" where
  "run_calls st [] b = (rc0, b)"
| "run_calls st (c # cs) b =
     (case usbd_call st c b of (err, b') \<Rightarrow> if err \<noteq> rc0 \<and> \<not> ignored c then (err, b') else run_calls st cs b')"

definition descriptor_calls :: "usb_call list" where
  "descriptor_calls = map usbd_add_descriptor [Desc_lang, Desc_mfr, Desc_product]"

definition final_calls :: "usb_call list" where
  "final_calls = [usbd_init, usbd_msg_register_cb, usbd_enable]"

definition application_calls :: "usb_speed \<Rightarrow> usb_call list" where
  "application_calls sp =
     concat (map (\<lambda>s. [usbd_add_configuration s, usbd_register_all_classes s 1 [''dfu_dfu'']])
       (if sp = USBD_SPEED_HS then [USBD_SPEED_HS, USBD_SPEED_FS] else [USBD_SPEED_FS])) @ final_calls"

definition loader_calls :: "usb_speed \<Rightarrow> usb_call list" where
  "loader_calls sp =
     concat (map (\<lambda>s. [usbd_add_configuration s, usbd_register_class ''dfu_dfu'' s 1, usbd_device_set_code_triple s])
       (if sp = USBD_SPEED_HS then [USBD_SPEED_HS, USBD_SPEED_FS] else [USBD_SPEED_FS])) @ final_calls"

definition run_init :: "'b usb_stack \<Rightarrow> (usb_speed \<Rightarrow> usb_call list) \<Rightarrow> 'b \<Rightarrow> c_int \<times> 'b" where
  "run_init st calls b =
     (case run_calls st descriptor_calls b of
        (err, b) \<Rightarrow> if err \<noteq> rc0 then (err, b) else run_calls st (calls (usbd_caps_speed st b)) b)"

lemma ignored_simps [simp]:
  "\<not> ignored (usbd_add_descriptor d)" "\<not> ignored (usbd_add_configuration s)" "\<not> ignored (usbd_register_all_classes s k ns)"
  "\<not> ignored (usbd_register_class cn s k)" "ignored (usbd_device_set_code_triple s)" "\<not> ignored usbd_init"
  "\<not> ignored usbd_msg_register_cb" "\<not> ignored usbd_enable"
  by (auto simp: ignored_def)

lemma run_calls_try: "\<not> ignored c \<Longrightarrow> run_calls st (c # cs) = usb_try st c (run_calls st cs)"
  by (rule ext) (simp add: usb_try_def split: prod.split)

lemma run_calls_ignored: "ignored c \<Longrightarrow> run_calls st (c # cs) = (\<lambda>b. run_calls st cs (usb_do st c b))"
  by (rule ext) (simp add: usb_do_def split: prod.split)

lemma run_calls_nil: "run_calls st [] = (\<lambda>b. (rc0, b))"
  by (rule ext) simp

lemma run_init_try:
  "run_init st calls = usb_try st (usbd_add_descriptor Desc_lang) (usb_try st (usbd_add_descriptor Desc_mfr)
     (usb_try st (usbd_add_descriptor Desc_product) (\<lambda>b. run_calls st (calls (usbd_caps_speed st b)) b)))"
  by (rule ext) (simp add: run_init_def usb_try_def descriptor_calls_def split: prod.split)

text \<open>
  The USB devices of the application and of the loader are set up by the same plan: the descriptors, a configuration and
  its classes for each speed of the controller, then initialisation, message callback and enabling, up to the first
  call that fails.
\<close>

lemma usb_init_plan:
  "ardep_usb_init st = run_init st application_calls" "firmware_loader_usb_init st = run_init st loader_calls"
  unfolding run_init_try ardep_usb_init_def firmware_loader_usb_init_def application_calls_def loader_calls_def final_calls_def Let_def
    blacklist_class_names_def
  by (rule arg_cong [where f = "usb_try st _"], rule arg_cong [where f = "usb_try st _"], rule arg_cong [where f = "usb_try st _"],
      rule ext, simp add: run_calls_try run_calls_ignored run_calls_nil del: run_calls.simps)+

text \<open>The calls that are made, with their results.\<close>

definition traced :: "'b usb_stack \<Rightarrow> ('b \<times> (usb_call \<times> c_int) list) usb_stack" where
  "traced st = \<lparr>usbd_call = (\<lambda>c (b, log). case usbd_call st c b of (e, b') \<Rightarrow> (e, b', log @ [(c, e)])),
     usbd_caps_speed = (\<lambda>(b, log). usbd_caps_speed st b)\<rparr>"

definition good :: "usb_call \<times> c_int \<Rightarrow> bool" where
  "good x \<longleftrightarrow> snd x = rc0 \<or> ignored (fst x)"

lemma run_calls_traced:
  assumes "run_calls (traced st) cs (b, log) = (r, b', log')"
  shows "\<exists>new rest. log' = log @ new \<and> cs = map fst new @ rest \<and>
    (if r = rc0 then rest = [] \<and> list_all good new else new \<noteq> [] \<and> snd (last new) = r \<and> \<not> good (last new) \<and> list_all good (butlast new))"
  using assms
proof (induction cs arbitrary: b log)
  case (Cons c cs)
  obtain e b1 where c: "usbd_call st c b = (e, b1)" by fastforce
  show ?case
  proof (cases "e \<noteq> rc0 \<and> \<not> ignored c")
    case True
    then show ?thesis using Cons.prems c by (intro exI [of _ "[(c, e)]"]) (auto simp: traced_def good_def)
  next
    case False
    then have "run_calls (traced st) cs (b1, log @ [(c, e)]) = (r, b', log')" using Cons.prems c by (auto simp: traced_def)
    from Cons.IH [OF this] obtain new rest where n: "log' = (log @ [(c, e)]) @ new" "cs = map fst new @ rest"
      "if r = rc0 then rest = [] \<and> list_all good new else new \<noteq> [] \<and> snd (last new) = r \<and> \<not> good (last new) \<and> list_all good (butlast new)"
      by blast
    moreover have "good (c, e)" using False by (auto simp: good_def)
    ultimately show ?thesis by (intro exI [of _ "(c, e) # new"] exI [of _ rest]) (auto split: if_splits)
  qed
qed simp

lemma caps_traced: "usbd_caps_speed (traced st) (b, log) = usbd_caps_speed st b"
  by (simp add: traced_def)

lemma run_init_traced:
  assumes "run_init (traced st) calls (b, []) = (r, b', log)"
  shows "\<exists>sp rest. descriptor_calls @ calls sp = map fst log @ rest \<and>
    (if r = rc0 then rest = [] \<and> list_all good log else log \<noteq> [] \<and> snd (last log) = r \<and> \<not> good (last log) \<and> list_all good (butlast log))"
proof -
  obtain r1 b1 log1 where d: "run_calls (traced st) descriptor_calls (b, []) = (r1, b1, log1)" by (metis prod_cases3)
  note d1 = run_calls_traced [OF d]
  show ?thesis
  proof (cases "r1 = rc0")
    case False
    then have "r = r1 \<and> log = log1" using assms d by (simp add: run_init_def)
    moreover obtain rest where "descriptor_calls = map fst log1 @ rest" using d1 False by auto
    then have "descriptor_calls @ calls sp = map fst log1 @ (rest @ calls sp)" for sp by simp
    ultimately show ?thesis using d1 False by fastforce
  next
    case True
    then have c: "run_calls (traced st) (calls (usbd_caps_speed st b1)) (b1, log1) = (r, b', log)"
      using assms d by (simp add: run_init_def caps_traced)
    have log1: "descriptor_calls = map fst log1 \<and> list_all good log1" using d1 True by auto
    obtain new rest where n: "log = log1 @ new" "calls (usbd_caps_speed st b1) = map fst new @ rest"
      "if r = rc0 then rest = [] \<and> list_all good new else new \<noteq> [] \<and> snd (last new) = r \<and> \<not> good (last new) \<and> list_all good (butlast new)"
      using run_calls_traced [OF c] by blast
    then show ?thesis
      using log1 by (intro exI [of _ "usbd_caps_speed st b1"] exI [of _ rest]) (auto simp: butlast_append split: if_splits)
  qed
qed

lemma plan_ends:
  "\<exists>p. descriptor_calls @ application_calls sp = p @ [usbd_enable] \<and> usbd_enable \<notin> set p"
  "\<exists>p. descriptor_calls @ loader_calls sp = p @ [usbd_enable] \<and> usbd_enable \<notin> set p"
  by (rule exI [of _ "butlast (descriptor_calls @ application_calls sp)"],
      simp add: descriptor_calls_def application_calls_def final_calls_def butlast_append)
    (rule exI [of _ "butlast (descriptor_calls @ loader_calls sp)"],
      simp add: descriptor_calls_def loader_calls_def final_calls_def butlast_append)

lemma enabled_iff:
  assumes plan: "map fst log @ rest = p @ [c]" "c \<notin> set p" and "\<not> ignored c"
    and log: "if r = rc0 then rest = [] \<and> list_all good log
      else log \<noteq> [] \<and> snd (last log) = r \<and> \<not> good (last log) \<and> list_all good (butlast log)"
  shows "r = rc0 \<longleftrightarrow> (c, rc0) \<in> set log"
proof
  assume "r = rc0"
  then have l: "map fst log = p @ [c]" "list_all good log" using plan log by auto
  then obtain e where "(c, e) \<in> set log" by (metis append_is_Nil_conv in_set_conv_decomp list.set_map imageE prod.collapse)
  moreover from this have "e = rc0" using l(2) assms(3) by (auto simp: list_all_iff good_def)
  ultimately show "(c, rc0) \<in> set log" by simp
next
  assume c: "(c, rc0) \<in> set log"
  show "r = rc0"
  proof (rule ccontr)
    assume r: "r \<noteq> rc0"
    then have l: "log \<noteq> []" "\<not> good (last log)" using log by auto
    have "rest = []"
    proof (rule ccontr)
      assume "rest \<noteq> []"
      then have "p = map fst log @ butlast rest" using plan(1) by (metis butlast_append butlast_snoc)
      then show False using c plan(2) by force
    qed
    then have m: "map fst log = p @ [c]" using plan by simp
    then have "fst (last log) = c" using l(1) by (metis last_map last_snoc)
    moreover have "(c, rc0) \<notin> set (butlast log)" using m plan(2) by (metis butlast_snoc fst_conv imageI image_set map_butlast)
    then have "last log = (c, rc0)" using c l(1) by (metis append_butlast_last_id in_set_conv_decomp set_ConsD rotate1.simps(2) set_rotate1)
    then show False using l(2) by (simp add: good_def)
  qed
qed

text \<open>
  (C36) The USB device is enabled exactly when its setup reports success: of the calls that are made every one but the last
  has succeeded or has a result without meaning, the setup returns 0 exactly if the device was enabled, and otherwise
  returns the error of the last call. This holds for the application and for the loader.
\<close>

theorem usb_enabled_iff_success:
  assumes "init = ardep_usb_init (traced st) \<or> init = firmware_loader_usb_init (traced st)" and "init (b, []) = (r, b', log)"
  shows "(r = rc0 \<longleftrightarrow> (usbd_enable, rc0) \<in> set log) \<and> list_all good (butlast log) \<and> (r \<noteq> rc0 \<longrightarrow> snd (last log) = r)"
proof -
  obtain calls where calls: "init = run_init (traced st) calls" "calls = application_calls \<or> calls = loader_calls"
    using assms(1) usb_init_plan by metis
  then obtain sp rest where l: "descriptor_calls @ calls sp = map fst log @ rest"
    "if r = rc0 then rest = [] \<and> list_all good log else log \<noteq> [] \<and> snd (last log) = r \<and> \<not> good (last log) \<and> list_all good (butlast log)"
    using run_init_traced assms(2) by metis
  obtain p where "descriptor_calls @ calls sp = p @ [usbd_enable]" "usbd_enable \<notin> set p" using plan_ends calls(2) by metis
  then have "r = rc0 \<longleftrightarrow> (usbd_enable, rc0) \<in> set log" using enabled_iff [of log rest p usbd_enable r] l by simp
  then show ?thesis using l(2) by (auto simp: list_all_iff dest: in_set_butlastD split: if_splits)
qed

theorem usb_enabled_iff_success_witness:
  "\<exists>log. ardep_usb_init (traced \<lparr>usbd_call = (\<lambda>c b. (if c = usbd_enable then Inl EIO else rc0, b)), usbd_caps_speed = (\<lambda>_. USBD_SPEED_HS)\<rparr>) ((), []) =
      (Inl EIO, (), log) \<and> (usbd_enable, rc0) \<notin> set log \<and> length log = 10"
proof -
  let ?st = "\<lparr>usbd_call = (\<lambda>c b. (if c = usbd_enable then Inl EIO else rc0, b)), usbd_caps_speed = (\<lambda>_. USBD_SPEED_HS)\<rparr> :: unit usb_stack"
  obtain log where l: "ardep_usb_init (traced ?st) ((), []) = (Inl EIO, (), log)" "length log = 10"
    by (simp add: ardep_usb_init_def usb_try_def traced_def)
  then show ?thesis using usb_enabled_iff_success [OF disjI1 [OF refl] l(1)] by auto
qed

text \<open>
  A detach request over USB reboots the board with the boot mode of the loader, and the loader does not
  enter a programming session: only the UDS switch stores one in the retained memory.
\<close>

theorem usb_detach_starts_loader:
  assumes "\<forall>m n r n'. bootmode_set ops m n = (r, n') \<longrightarrow> retention_read 0 n' = retention_read 0 n"
    and "\<forall>b n. \<exists>n'. retention_write ops 0 [b] n = (rc0, n')" and "retention_read 0 n = (rc0, s)" and "s \<noteq> 2"
  shows "\<exists>b' n' n''. ardep_usb_msg_cb st ops USBD_MSG_DFU_APP_DETACH (b, n) = Reboots SYS_REBOOT_WARM (b', n') \<and>
    n' = snd (bootmode_set ops BOOT_MODE_TYPE_BOOTLOADER n) \<and> loader_main mq ops retention_read inst n' = (rc0, inst, n'')"
proof -
  obtain r n' where b: "bootmode_set ops BOOT_MODE_TYPE_BOOTLOADER n = (r, n')" by fastforce
  have "retention_read 0 n' = (rc0, s)" using assms(1,3) b by metis
  moreover obtain n'' where "retention_write ops 0 [1] n' = (rc0, n'')" using assms(2) by blast
  ultimately have "loader_main mq ops retention_read inst n' = (rc0, inst, n'')" using assms(4) by (simp add: loader_main_def)
  then show ?thesis using b by (simp add: ardep_usb_msg_cb_def Let_def)
qed

theorem usb_detach_starts_loader_witness:
  "\<exists>b' n' n''. ardep_usb_msg_cb \<lparr>usbd_call = (\<lambda>c b. (rc0, b)), usbd_caps_speed = (\<lambda>_. USBD_SPEED_FS)\<rparr> demo_boot USBD_MSG_DFU_APP_DETACH
      ((), (1, BOOT_MODE_TYPE_NORMAL)) = Reboots SYS_REBOOT_WARM (b', n') \<and> n' = (1, BOOT_MODE_TYPE_BOOTLOADER) \<and>
    loader_main demo_msgq demo_boot (\<lambda>off n. (rc0, fst n)) (blank_inst () :: (unit, unit) iso14229_zephyr_instance) n' = (rc0, blank_inst (), n'')"
  using usb_detach_starts_loader [of demo_boot "\<lambda>off n. (rc0, fst n)" "(1, BOOT_MODE_TYPE_NORMAL)" 1
      "\<lparr>usbd_call = (\<lambda>c b. (rc0, b)), usbd_caps_speed = (\<lambda>_. USBD_SPEED_FS)\<rparr>" "()"
      demo_msgq "blank_inst () :: (unit, unit) iso14229_zephyr_instance"]
  by (simp add: demo_boot_def)

section \<open>Time\<close>

text \<open>
  The microseconds of the ISO-TP library are right as differences: although both the milliseconds and their product wrap
  around, the difference of two readings is the time between them as long as that fits into 32 bits.
\<close>

theorem elapsed_microseconds:
  assumes "t1 \<le> t2" and "1000 * (t2 - t1) < 2 ^ 32"
  shows "unat (isotp_user_get_us t2 - isotp_user_get_us t1) = 1000 * (t2 - t1)"
proof -
  have "isotp_user_get_us t2 - isotp_user_get_us t1 = of_nat (1000 * (t2 - t1))"
    using assms(1) by (simp add: isotp_user_get_us_def k_uptime_get_32_def of_nat_diff algebra_simps)
  then show ?thesis using unat_of_nat_u32 [OF assms(2)] by (simp only:)
qed

theorem elapsed_microseconds_witness:
  "unat (isotp_user_get_us 4294967300 - isotp_user_get_us 4294967290) = 10000"
  using elapsed_microseconds [of 4294967290 4294967300] by simp

end
