(* ===== verification/Sample_State.thy ===== *)
theory Sample_State
  imports Default_Instance Server_Invariant
begin

text \<open>
  The state of the UDS sample application (\<^verbatim>\<open>samples/uds/src\<close>): the variables of its source files, and the
  parts of Zephyr and of the PSA crypto interface that its handlers call. \<open>'g\<close> is the state of the LED
  pin, \<open>'p\<close> that of the random number generator, of the crypto library and of the work queue.
\<close>

section \<open>Variables\<close>

text \<open>
  \<^verbatim>\<open>data_by_id.c\<close>. \<open>led_mutex_held\<close>: the update thread has ended without giving its mutex back. Otherwise
  no one holds the mutex between the steps of the model. \<open>led_configured\<close>: the thread runs its loop.
\<close>

record 'g led_data =
  led_state :: u8
  io_control_led_state :: u8
  io_control_active :: bool
  led_mutex_held :: bool
  led_configured :: bool
  led_gpio :: 'g

text \<open>\<^verbatim>\<open>authentication.c\<close> and \<^verbatim>\<open>security_access.c\<close>.\<close>

record authentication_data =
  authenticated :: bool
  seeed :: "u8 list"
  algorithm_authenticator :: "u8 list"

record security_access_state =
  current_seed :: u32
  seed_requested :: bool

text \<open>\<^verbatim>\<open>dtc_information.c\<close>; \<open>dtc_reactivate_pending\<close>: the work item for the reactivation is scheduled.\<close>

record DtcRecord =
  dtc :: "u8 list"
  dtc_status :: u8
  is_active :: bool
  is_frozen :: bool

record dtc_state =
  dtc_records :: "DtcRecord list"
  dtc_reactivate_pending :: bool

text \<open>
  \<^verbatim>\<open>routine_control.c\<close>; \<open>aw_scheduled\<close> and \<open>aw_running\<close> are the state of the work item, the latter with
  the local variable \<open>i\<close> of its loop.
\<close>

datatype async_work_status =
    ASYNC_WORK_STATUS_IDLE | ASYNC_WORK_STATUS_SUCCESS | ASYNC_WORK_STATUS_STOPPED | ASYNC_WORK_STATUS_RUNNING

fun async_work_status_val :: "async_work_status \<Rightarrow> u8" where
  "async_work_status_val ASYNC_WORK_STATUS_IDLE = 0"
| "async_work_status_val ASYNC_WORK_STATUS_SUCCESS = 1"
| "async_work_status_val ASYNC_WORK_STATUS_STOPPED = 2"
| "async_work_status_val ASYNC_WORK_STATUS_RUNNING = 3"

record uds_async_work_data =
  current_progress :: u32
  aw_status :: async_work_status
  force_stop :: bool
  aw_scheduled :: bool
  aw_running :: "nat option"

record ('g, 'p) sample_state =
  primitive_type :: u16
  sm_led :: "'g led_data"
  sm_auth :: authentication_data
  sm_security :: security_access_state
  sm_dtc :: dtc_state
  sm_async :: uds_async_work_data
  fake_memory :: "u8 list"
  sm_platform :: 'p

type_synonym ('u, 'c, 'f, 'fs, 'h, 'r, 'n, 'g, 'p) sample_world =
  "('u, 'c, 'f, 'fs, 'h, 'r, 'n, ('g, 'p) sample_state) server_world"

section \<open>Constants\<close>

definition primitive_type_id :: u16 where "primitive_type_id = 0x50"
definition string_id :: u16 where "string_id = 0x100"
definition authenticated_type_id :: u16 where "authenticated_type_id = 0x150"
definition led_id :: u16 where "led_id = 0x200"
definition secure_data_id :: u16 where "secure_data_id = 0x300"

lemmas data_id_defs = primitive_type_id_def string_id_def authenticated_type_id_def led_id_def secure_data_id_def

text \<open>The strings with their terminator, as bytes; nothing writes to them.\<close>

definition bytes_of_string :: "string \<Rightarrow> u8 list" where
  "bytes_of_string s = map (\<lambda>c. of_nat (of_char c)) s @ [0]"

definition string_data :: "u8 list" where
  "string_data = bytes_of_string ''Hello from UDS''"

definition authenticated_type :: u8 where
  "authenticated_type = 0x42"

definition secure_data :: "u8 list" where
  "secure_data = bytes_of_string ''Secret Data Protected by Security Access''"

definition uds_aes_key :: "u8 list" where
  "uds_aes_key = [0xc3, 0x6a, 0xd3, 0x5c, 0xa2, 0xb7, 0x0e, 0x82, 0xf7, 0xc3, 0x7a, 0xfa, 0x62, 0xad, 0xae, 0xc2]"

definition auth_data_init :: authentication_data where
  "auth_data_init = \<lparr>authenticated = False, seeed = replicate 16 0,
     algorithm_authenticator = [0x06, 0x09, 0x60, 0x86, 0x48, 0x01, 0x65, 0x03, 0x04, 0x01, 0x02, 0, 0, 0, 0, 0]\<rparr>"

definition dtc_records_init :: "DtcRecord list" where
  "dtc_records_init =
     [\<lparr>dtc = [0x0A, 0x9B, 0x17], dtc_status = 0x24, is_active = True, is_frozen = False\<rparr>,
      \<lparr>dtc = [0x80, 0x51, 0x11], dtc_status = 0x2F, is_active = True, is_frozen = False\<rparr>]"

definition dtc_status_availability_mask :: u8 where
  "dtc_status_availability_mask = 0x7F"

definition fake_memory_start_addr :: u32 where
  "fake_memory_start_addr = 0x00001000"

definition fake_memory_init :: "u8 list" where
  "fake_memory_init = [0x01, 0x02, 0x03, 0x04, 0x05, 0x05] @ map of_nat [0x07..<0x65]"

definition sample_init :: "'g \<Rightarrow> 'p \<Rightarrow> ('g, 'p) sample_state" where
  "sample_init g p =
     \<lparr>primitive_type = 5,
      sm_led = \<lparr>led_state = 0, io_control_led_state = 0, io_control_active = False, led_mutex_held = False,
        led_configured = False, led_gpio = g\<rparr>,
      sm_auth = auth_data_init, sm_security = \<lparr>current_seed = 0, seed_requested = False\<rparr>,
      sm_dtc = \<lparr>dtc_records = dtc_records_init, dtc_reactivate_pending = False\<rparr>,
      sm_async = \<lparr>current_progress = 0, aw_status = ASYNC_WORK_STATUS_IDLE, force_stop = False,
        aw_scheduled = False, aw_running = None\<rparr>,
      fake_memory = fake_memory_init, sm_platform = p\<rparr>"

text \<open>The addresses of the objects that the registrations point to.\<close>

definition AUTH_DATA :: addr where "AUTH_DATA = 1"
definition PRIMITIVE_TYPE :: addr where "PRIMITIVE_TYPE = 2"
definition PRIMITIVE_TYPE_SIZE :: addr where "PRIMITIVE_TYPE_SIZE = 3"
definition STRING :: addr where "STRING = 4"
definition STRING_SIZE :: addr where "STRING_SIZE = 5"
definition AUTHENTICATED_TYPE :: addr where "AUTHENTICATED_TYPE = 6"
definition AUTHENTICATED_TYPE_SIZE :: addr where "AUTHENTICATED_TYPE_SIZE = 7"
definition LED_STATE :: addr where "LED_STATE = 8"
definition LED_DATA :: addr where "LED_DATA = 9"
definition SECURE_DATA :: addr where "SECURE_DATA = 10"
definition SECURE_DATA_SIZE :: addr where "SECURE_DATA_SIZE = 11"
definition ASYNC_ROUTINE_DATA :: addr where "ASYNC_ROUTINE_DATA = 12"

lemmas address_defs = AUTH_DATA_def PRIMITIVE_TYPE_def PRIMITIVE_TYPE_SIZE_def STRING_def STRING_SIZE_def
  AUTHENTICATED_TYPE_def AUTHENTICATED_TYPE_SIZE_def LED_STATE_def LED_DATA_def SECURE_DATA_def
  SECURE_DATA_SIZE_def ASYNC_ROUTINE_DATA_def

section \<open>What the handlers call\<close>

text \<open>
  The GPIO functions for the LED pin. Of the crypto interface, a status is true for \<^verbatim>\<open>PSA_SUCCESS\<close>; a
  function that fills a buffer gets its contents and returns the new contents, whatever its status, and
  a cipher operation also the length of its output. \<open>set_auth_state\<close> is the function of the package that
  an authentication handler calls, on the response under construction.
\<close>

record 'g led_ops =
  gpio_pin_get_dt :: "'g \<Rightarrow> c_int"
  gpio_pin_configure_dt :: "'g \<Rightarrow> c_int \<times> 'g"
  gpio_pin_set_dt :: "u8 \<Rightarrow> 'g \<Rightarrow> 'g"

record ('p, 'k) psa_ops =
  psa_crypto_init :: "'p \<Rightarrow> bool \<times> 'p"
  psa_import_key :: "bool \<Rightarrow> u8 list \<Rightarrow> 'p \<Rightarrow> bool \<times> 'k \<times> 'p"
  psa_cipher_encrypt :: "'k \<Rightarrow> u8 list \<Rightarrow> u8 list \<Rightarrow> 'p \<Rightarrow> bool \<times> u8 list \<times> nat \<times> 'p"
  psa_cipher_decrypt :: "'k \<Rightarrow> u8 list \<Rightarrow> u8 list \<Rightarrow> 'p \<Rightarrow> bool \<times> u8 list \<times> nat \<times> 'p"
  psa_destroy_key :: "'k \<Rightarrow> 'p \<Rightarrow> 'p"
  psa_generate_random :: "u8 list \<Rightarrow> 'p \<Rightarrow> bool \<times> u8 list \<times> 'p"

record ('g, 'p, 'k, 'r) sample_ops =
  so_led :: "'g led_ops"
  so_psa :: "('p, 'k) psa_ops"
  sys_rand32_get :: "'p \<Rightarrow> u32 \<times> 'p"
  k_work_schedule :: "'p \<Rightarrow> c_int \<times> 'p"
  set_auth_state :: "uds_auth_state \<Rightarrow> 'r \<Rightarrow> UDSErr_t \<times> 'r"

text \<open>The copy function of an argument structure, as a function on the state.\<close>

type_synonym 'w copy_sem = "copy_fn \<Rightarrow> u8 list \<Rightarrow> 'w \<Rightarrow> (UDSErr_t, 'w) outcome"

section \<open>Access to the variables\<close>

definition upd_user :: "('z \<Rightarrow> 'z) \<Rightarrow> ('u, 'c, 'f, 'fs, 'h, 'r, 'n, 'z) server_world \<Rightarrow> ('u, 'c, 'f, 'fs, 'h, 'r, 'n, 'z) server_world" where
  "upd_user f = put_env (\<lambda>x. x\<lparr>srv_user := f (srv_user x)\<rparr>)"

abbreviation user :: "('u, 'c, 'f, 'fs, 'h, 'r, 'n, 'z) server_world \<Rightarrow> 'z" where
  "user w \<equiv> srv_user (env w)"

lemma user_upd [simp]: "user (upd_user f w) = f (user w)"
  by (simp add: upd_user_def put_env_def)

lemma upd_user_keeps [simp]:
  "static_regs (upd_user f w) = static_regs w" "heap (upd_user f w) = heap w" "dyn_regs (upd_user f w) = dyn_regs w"
  "srv_transfer (env (upd_user f w)) = srv_transfer (env w)" "srv_user_context (env (upd_user f w)) = srv_user_context (env w)"
  "srv_securityLevel (env (upd_user f w)) = srv_securityLevel (env w)"
  by (simp_all add: upd_user_def put_env_def)

lemma deref_upd_user [simp]: "deref_reg (upd_user f w) ref = deref_reg w ref"
  by (cases ref) simp_all

lemma upd_user_compose: "upd_user f (upd_user g w) = upd_user (\<lambda>z. f (g z)) w"
  by (simp add: upd_user_def put_env_def)

text \<open>The data of the registration of a context.\<close>

definition reg_data_of :: "uds_context \<Rightarrow> ('u, 'x) uds_world \<Rightarrow> 'u uds_registration_data option" where
  "reg_data_of ctx w = map_option reg_data (deref_reg w (ctx_registration ctx))"

lemma reg_data_of_upd_user [simp]: "reg_data_of ctx (upd_user f w) = reg_data_of ctx w"
  by (simp add: reg_data_of_def)

end
