(* ===== verification/Sample_Data.thy ===== *)
theory Sample_Data
  imports Sample_State
begin

text \<open>
  \<^verbatim>\<open>samples/uds/src/data_by_id.c\<close>: the data identifiers of the sample, and the LED with its update thread.
  The handlers lock the mutex of the LED data where the code does; when the thread has ended with the
  mutex, they wait for ever, which is the outcome \<open>NoFuel\<close>.
\<close>

section \<open>Data identifiers\<close>

definition read_data_by_id_check ::
  "uds_context \<Rightarrow> bool \<Rightarrow> ('u, 'c, 'f, 'fs, 'h, 'r, 'n, 'g, 'p) sample_world \<Rightarrow>
   (UDSErr_t \<times> bool, ('u, 'c, 'f, 'fs, 'h, 'r, 'n, 'g, 'p) sample_world) outcome" where
  "read_data_by_id_check ctx apply_action w =
     (case ctx_arg ctx of
        Arg_RDBI dataId _ \<Rightarrow>
          if dataId = authenticated_type_id then
            (if srv_user_context (env w) (ctx_instance ctx) \<noteq> Some AUTH_DATA then Undefined
             else if \<not> authenticated (sm_auth (user w)) then Returns (UDS_NRC_ConditionsNotCorrect, apply_action) w
             else Returns (UDS_OK, True) w)
          else Returns (UDS_OK, True) w
      | _ \<Rightarrow> Undefined)"

text \<open>The 16 bit value at the user context of a registration, and the bytes at its data pointer.\<close>

definition size_at :: "addr \<Rightarrow> u16 option" where
  "size_at a =
     (if a = PRIMITIVE_TYPE_SIZE then Some 2
      else if a = STRING_SIZE then Some (of_nat (length string_data))
      else if a = AUTHENTICATED_TYPE_SIZE then Some 1
      else None)"

definition bytes_at :: "addr \<Rightarrow> u8 list option" where
  "bytes_at a =
     (if a = STRING then Some string_data
      else if a = AUTHENTICATED_TYPE then Some [authenticated_type]
      else None)"

text \<open>\<^verbatim>\<open>memcpy\<close> to the start of a buffer, from an object that has to be long enough.\<close>

definition memcpy_front :: "u8 list \<Rightarrow> u8 list \<Rightarrow> nat \<Rightarrow> u8 list option" where
  "memcpy_front dst src n = (if n \<le> length dst \<and> n \<le> length src then Some (take n src @ drop n dst) else None)"

definition read_data_by_id_action ::
  "('u, 'c, 'f, 'fs, 'h, 'r, 'n, 'g, 'p) sample_world copy_sem \<Rightarrow>
   uds_context \<Rightarrow> bool \<Rightarrow> ('u, 'c, 'f, 'fs, 'h, 'r, 'n, 'g, 'p) sample_world \<Rightarrow>
   (UDSErr_t \<times> bool \<times> uds_arg, ('u, 'c, 'f, 'fs, 'h, 'r, 'n, 'g, 'p) sample_world) outcome" where
  "read_data_by_id_action copy ctx consume_event w =
     (case (ctx_arg ctx, reg_data_of ctx w) of
        (Arg_RDBI dataId c, Some (Reg_data_identifier (Some uc) (Some d) _ _ _ _)) \<Rightarrow>
          (case size_at uc of
             None \<Rightarrow> Undefined
           | Some sz \<Rightarrow>
               let temp = replicate 50 0;
                   temp' =
                     (if dataId = primitive_type_id then
                        (if d = PRIMITIVE_TYPE then memcpy_front temp (be16 (primitive_type (user w))) 2 else None)
                      else if dataId = string_id \<or> dataId = authenticated_type_id then
                        Option.bind (bytes_at d) (\<lambda>bs. memcpy_front temp bs (unat sz))
                      else Some temp)
               in case temp' of
                    None \<Rightarrow> Undefined
                  | Some temp \<Rightarrow>
                      if unat sz > 50 then Undefined
                      else obind (copy c (take (unat sz) temp) w) (\<lambda>r w'. Returns (r, True, ctx_arg ctx) w'))
      | _ \<Rightarrow> Undefined)"

definition write_primitive_data_by_id_check ::
  "uds_context \<Rightarrow> bool \<Rightarrow> 'w \<Rightarrow> (UDSErr_t \<times> bool, 'w) outcome" where
  "write_primitive_data_by_id_check ctx apply_action w = Returns (UDS_OK, True) w"

text \<open>Two bytes are read from the request, whatever its length.\<close>

definition write_primitive_data_by_id_action ::
  "uds_context \<Rightarrow> bool \<Rightarrow> ('u, 'c, 'f, 'fs, 'h, 'r, 'n, 'g, 'p) sample_world \<Rightarrow>
   (UDSErr_t \<times> bool \<times> uds_arg, ('u, 'c, 'f, 'fs, 'h, 'r, 'n, 'g, 'p) sample_world) outcome" where
  "write_primitive_data_by_id_action ctx consume_event w =
     (case (ctx_arg ctx, reg_data_of ctx w) of
        (Arg_WDBI _ bytes, Some (Reg_data_identifier _ (Some d) _ _ _ _)) \<Rightarrow>
          (case of_be16 bytes of
             None \<Rightarrow> Undefined
           | Some v \<Rightarrow>
               if d \<noteq> PRIMITIVE_TYPE then Undefined
               else Returns (UDS_PositiveResponse, True, ctx_arg ctx) (upd_user (\<lambda>z. z\<lparr>primitive_type := v\<rparr>) w))
      | _ \<Rightarrow> Undefined)"

section \<open>The LED\<close>

definition read_led_check :: "uds_context \<Rightarrow> bool \<Rightarrow> 'w \<Rightarrow> (UDSErr_t \<times> bool, 'w) outcome" where
  "read_led_check ctx apply_action w = Returns (UDS_OK, True) w"

definition read_led_action ::
  "'g led_ops \<Rightarrow> ('u, 'c, 'f, 'fs, 'h, 'r, 'n, 'g, 'p) sample_world copy_sem \<Rightarrow>
   uds_context \<Rightarrow> bool \<Rightarrow> ('u, 'c, 'f, 'fs, 'h, 'r, 'n, 'g, 'p) sample_world \<Rightarrow>
   (UDSErr_t \<times> bool \<times> uds_arg, ('u, 'c, 'f, 'fs, 'h, 'r, 'n, 'g, 'p) sample_world) outcome" where
  "read_led_action led copy ctx consume_event w =
     (case gpio_pin_get_dt led (led_gpio (sm_led (user w))) of
        Inl _ \<Rightarrow> Returns (UDS_NRC_ConditionsNotCorrect, consume_event, ctx_arg ctx) w
      | Inr v \<Rightarrow>
          (case ctx_arg ctx of
             Arg_RDBI _ c \<Rightarrow> obind (copy c [of_nat v] w) (\<lambda>r w'. Returns (r, True, ctx_arg ctx) w')
           | _ \<Rightarrow> Undefined))"

definition write_led_check :: "uds_context \<Rightarrow> bool \<Rightarrow> 'w \<Rightarrow> (UDSErr_t \<times> bool, 'w) outcome" where
  "write_led_check ctx apply_action w = Returns (UDS_OK, True) w"

text \<open>What runs between \<^verbatim>\<open>k_mutex_lock(&led_data_mutex, K_FOREVER)\<close> and the unlock.\<close>

definition with_led_mutex ::
  "('u, 'c, 'f, 'fs, 'h, 'r, 'n, 'g, 'p) sample_world \<Rightarrow>
   ('a, ('u, 'c, 'f, 'fs, 'h, 'r, 'n, 'g, 'p) sample_world) outcome \<Rightarrow>
   ('a, ('u, 'c, 'f, 'fs, 'h, 'r, 'n, 'g, 'p) sample_world) outcome" where
  "with_led_mutex w body = (if led_mutex_held (sm_led (user w)) then NoFuel else body)"

definition upd_led ::
  "('g led_data \<Rightarrow> 'g led_data) \<Rightarrow> ('u, 'c, 'f, 'fs, 'h, 'r, 'n, 'g, 'p) sample_world \<Rightarrow>
   ('u, 'c, 'f, 'fs, 'h, 'r, 'n, 'g, 'p) sample_world" where
  "upd_led f = upd_user (\<lambda>z. z\<lparr>sm_led := f (sm_led z)\<rparr>)"

definition write_led_action ::
  "uds_context \<Rightarrow> bool \<Rightarrow> ('u, 'c, 'f, 'fs, 'h, 'r, 'n, 'g, 'p) sample_world \<Rightarrow>
   (UDSErr_t \<times> bool \<times> uds_arg, ('u, 'c, 'f, 'fs, 'h, 'r, 'n, 'g, 'p) sample_world) outcome" where
  "write_led_action ctx consume_event w =
     (case ctx_arg ctx of
        Arg_WDBI _ [] \<Rightarrow> Returns (UDS_NRC_IncorrectMessageLengthOrInvalidFormat, consume_event, ctx_arg ctx) w
      | Arg_WDBI _ (new_led_state # _) \<Rightarrow>
          with_led_mutex w (Returns (UDS_PositiveResponse, True, ctx_arg ctx) (upd_led (\<lambda>l. l\<lparr>led_state := new_led_state\<rparr>) w))
      | _ \<Rightarrow> Undefined)"

definition io_ctrl_led_check :: "uds_context \<Rightarrow> bool \<Rightarrow> 'w \<Rightarrow> (UDSErr_t \<times> bool, 'w) outcome" where
  "io_ctrl_led_check ctx apply_action w = Returns (UDS_OK, True) w"

definition io_ctrl_led_action ::
  "'g led_ops \<Rightarrow> ('u, 'c, 'f, 'fs, 'h, 'r, 'n, 'g, 'p) sample_world copy_sem \<Rightarrow>
   uds_context \<Rightarrow> bool \<Rightarrow> ('u, 'c, 'f, 'fs, 'h, 'r, 'n, 'g, 'p) sample_world \<Rightarrow>
   (UDSErr_t \<times> bool \<times> uds_arg, ('u, 'c, 'f, 'fs, 'h, 'r, 'n, 'g, 'p) sample_world) outcome" where
  "io_ctrl_led_action led copy ctx consume_event w =
     (case ctx_arg ctx of
        Arg_IOCtrl _ ioCtrlParam ctrlStateAndMask c \<Rightarrow>
          let answer = (\<lambda>state w. obind (copy c [state] w) (\<lambda>r w'. Returns (r, consume_event, ctx_arg ctx) w')) in
          if ucast ioCtrlParam = io_control_val UDS_IO_CONTROL__SHORT_TERM_ADJUSTMENT \<and> ctrlStateAndMask \<noteq> [] then
            with_led_mutex w
              (case gpio_pin_get_dt led (led_gpio (sm_led (user w))) of
                 Inl _ \<Rightarrow> Returns (UDS_NRC_ConditionsNotCorrect, consume_event, ctx_arg ctx) w
               | Inr current \<Rightarrow>
                   answer (of_nat current)
                     (upd_led (\<lambda>l. l\<lparr>io_control_active := True, io_control_led_state := hd ctrlStateAndMask\<rparr>) w))
          else if ucast ioCtrlParam = io_control_val UDS_IO_CONTROL__RESET_TO_DEFAULT then
            with_led_mutex w (answer 0 (upd_led (\<lambda>l. l\<lparr>io_control_led_state := 0, led_state := 0\<rparr>) w))
          else if ucast ioCtrlParam = io_control_val UDS_IO_CONTROL__RETURN_CONTROL_TO_ECU then
            with_led_mutex w (answer (led_state (sm_led (user w))) (upd_led (\<lambda>l. l\<lparr>io_control_active := False\<rparr>) w))
          else Returns (UDS_NRC_RequestOutOfRange, consume_event, ctx_arg ctx) w
      | _ \<Rightarrow> Undefined)"

text \<open>
  The update thread: what it does before its loop, where it ends with the mutex if the pin cannot be
  configured, and one pass of the loop.
\<close>

definition led_thread_start :: "'g led_ops \<Rightarrow> 'g led_data \<Rightarrow> 'g led_data" where
  "led_thread_start led l =
     (case gpio_pin_configure_dt led (led_gpio l) of (ret, g) \<Rightarrow>
      if rc_neg ret then l\<lparr>led_mutex_held := True, led_gpio := g\<rparr>
      else l\<lparr>led_state := 0, io_control_active := False, io_control_led_state := 0, led_configured := True, led_gpio := g\<rparr>)"

definition led_thread_pass :: "'g led_ops \<Rightarrow> 'g led_data \<Rightarrow> 'g led_data" where
  "led_thread_pass led l =
     l\<lparr>led_gpio := gpio_pin_set_dt led (if io_control_active l then io_control_led_state l else led_state l) (led_gpio l)\<rparr>"

end
