(* ===== verification/Sample_Security.thy ===== *)
theory Sample_Security
  imports Sample_State
begin

text \<open>
  \<^verbatim>\<open>samples/uds/src/security_access.c\<close> and \<^verbatim>\<open>samples/uds/src/authentication.c\<close>: the two challenge and
  response protocols of the sample, and the data that the first of them protects.
\<close>

section \<open>Security access\<close>

definition security_access_request_seed_check ::
  "uds_context \<Rightarrow> bool \<Rightarrow> 'w \<Rightarrow> (UDSErr_t \<times> bool, 'w) outcome" where
  "security_access_request_seed_check ctx apply_action w =
     (case ctx_arg ctx of
        Arg_SecAccessRequestSeed level _ \<Rightarrow>
          if level \<noteq> 1 then Returns (UDS_OK, apply_action) w else Returns (UDS_OK, True) w
      | _ \<Rightarrow> Undefined)"

definition security_access_request_seed_action ::
  "('p \<Rightarrow> u32 \<times> 'p) \<Rightarrow> ('u, 'c, 'f, 'fs, 'h, 'r, 'n, 'g, 'p) sample_world copy_sem \<Rightarrow>
   uds_context \<Rightarrow> bool \<Rightarrow> ('u, 'c, 'f, 'fs, 'h, 'r, 'n, 'g, 'p) sample_world \<Rightarrow>
   (UDSErr_t \<times> bool \<times> uds_arg, ('u, 'c, 'f, 'fs, 'h, 'r, 'n, 'g, 'p) sample_world) outcome" where
  "security_access_request_seed_action rand copy ctx consume_event w =
     (case rand (sm_platform (user w)) of (seed, p) \<Rightarrow>
      obind (copy Copy_lib (be32 seed)
               (upd_user (\<lambda>z. z\<lparr>sm_security := \<lparr>current_seed = seed, seed_requested = True\<rparr>, sm_platform := p\<rparr>) w))
        (\<lambda>r w'. Returns (r, True, ctx_arg ctx) w'))"

definition security_access_validate_key_check ::
  "uds_context \<Rightarrow> bool \<Rightarrow> 'w \<Rightarrow> (UDSErr_t \<times> bool, 'w) outcome" where
  "security_access_validate_key_check ctx apply_action w =
     (case ctx_arg ctx of
        Arg_SecAccessValidateKey level _ \<Rightarrow>
          if level \<noteq> 1 then Returns (UDS_OK, apply_action) w else Returns (UDS_OK, True) w
      | _ \<Rightarrow> Undefined)"

definition security_access_validate_key_action ::
  "uds_context \<Rightarrow> bool \<Rightarrow> ('u, 'c, 'f, 'fs, 'h, 'r, 'n, 'g, 'p) sample_world \<Rightarrow>
   (UDSErr_t \<times> bool \<times> uds_arg, ('u, 'c, 'f, 'fs, 'h, 'r, 'n, 'g, 'p) sample_world) outcome" where
  "security_access_validate_key_action ctx consume_event w =
     (case ctx_arg ctx of
        Arg_SecAccessValidateKey _ key \<Rightarrow>
          let sec = sm_security (user w);
              w' = upd_user (\<lambda>z. z\<lparr>sm_security := (sm_security z)\<lparr>seed_requested := False\<rparr>\<rparr>) w in
          if \<not> seed_requested sec then Returns (UDS_NRC_RequestSequenceError, True, ctx_arg ctx) w
          else if length key \<noteq> 4 then Returns (UDS_NRC_IncorrectMessageLengthOrInvalidFormat, True, ctx_arg ctx) w
          else if of_be32 key = Some (NOT (current_seed sec)) then Returns (UDS_PositiveResponse, True, ctx_arg ctx) w'
          else Returns (UDS_NRC_InvalidKey, True, ctx_arg ctx) w'
      | _ \<Rightarrow> Undefined)"

definition read_secure_data_check ::
  "uds_context \<Rightarrow> bool \<Rightarrow> ('u, 'c, 'f, 'fs, 'h, 'r, 'n, 'g, 'p) sample_world \<Rightarrow>
   (UDSErr_t \<times> bool, ('u, 'c, 'f, 'fs, 'h, 'r, 'n, 'g, 'p) sample_world) outcome" where
  "read_secure_data_check ctx apply_action w =
     (case ctx_arg ctx of
        Arg_RDBI dataId _ \<Rightarrow>
          if dataId \<noteq> secure_data_id then Returns (UDS_OK, apply_action) w
          else if srv_securityLevel (env w) (ctx_instance ctx) < 1 then Returns (UDS_NRC_SecurityAccessDenied, True) w
          else Returns (UDS_OK, True) w
      | _ \<Rightarrow> Undefined)"

definition read_secure_data_action ::
  "('u, 'c, 'f, 'fs, 'h, 'r, 'n, 'g, 'p) sample_world copy_sem \<Rightarrow>
   uds_context \<Rightarrow> bool \<Rightarrow> ('u, 'c, 'f, 'fs, 'h, 'r, 'n, 'g, 'p) sample_world \<Rightarrow>
   (UDSErr_t \<times> bool \<times> uds_arg, ('u, 'c, 'f, 'fs, 'h, 'r, 'n, 'g, 'p) sample_world) outcome" where
  "read_secure_data_action copy ctx consume_event w =
     (case ctx_arg ctx of
        Arg_RDBI _ c \<Rightarrow> obind (copy c secure_data w) (\<lambda>r w'. Returns (r, True, ctx_arg ctx) w')
      | _ \<Rightarrow> Undefined)"

section \<open>AES\<close>

text \<open>\<open>None\<close> is the result \<open>-1\<close>; otherwise the contents of the output buffer. Buffers and keys have 16 bytes.\<close>

definition aes_ecb_crypt ::
  "('p, 'k) psa_ops \<Rightarrow> u8 list \<Rightarrow> u8 list \<Rightarrow> u8 list \<Rightarrow> bool \<Rightarrow> 'p \<Rightarrow> u8 list option \<times> 'p" where
  "aes_ecb_crypt psa key input buf encrypt p =
     (case psa_crypto_init psa p of (ok, p) \<Rightarrow>
      if \<not> ok then (None, p)
      else
        (case psa_import_key psa encrypt key p of (ok, key_id, p) \<Rightarrow>
         if \<not> ok then (None, p)
         else
           (case (if encrypt then psa_cipher_encrypt psa key_id input buf p else psa_cipher_decrypt psa key_id input buf p) of
              (ok, out, output_len, p) \<Rightarrow>
                (if ok \<and> output_len = 16 then Some out else None, psa_destroy_key psa key_id p))))"

definition aes_encrypt_ecb ::
  "('p, 'k) psa_ops \<Rightarrow> u8 list \<Rightarrow> u8 list \<Rightarrow> u8 list \<Rightarrow> 'p \<Rightarrow> u8 list option \<times> 'p" where
  "aes_encrypt_ecb psa key input buf p = aes_ecb_crypt psa key input buf True p"

definition aes_decrypt_ecb ::
  "('p, 'k) psa_ops \<Rightarrow> u8 list \<Rightarrow> u8 list \<Rightarrow> u8 list \<Rightarrow> 'p \<Rightarrow> u8 list option \<times> 'p" where
  "aes_decrypt_ecb psa key input buf p = aes_ecb_crypt psa key input buf False p"

definition generate_random_seed :: "('p, 'k) psa_ops \<Rightarrow> u8 list \<Rightarrow> 'p \<Rightarrow> bool \<times> u8 list \<times> 'p" where
  "generate_random_seed psa seed p =
     (case psa_crypto_init psa p of (ok, p) \<Rightarrow>
      if \<not> ok then (False, seed, p) else psa_generate_random psa seed p)"

section \<open>Authentication\<close>

definition auth_check :: "uds_context \<Rightarrow> bool \<Rightarrow> 'w \<Rightarrow> (UDSErr_t \<times> bool, 'w) outcome" where
  "auth_check ctx apply_action w = Returns (UDS_OK, True) w"

definition call_set_auth_state ::
  "(uds_auth_state \<Rightarrow> 'r \<Rightarrow> UDSErr_t \<times> 'r) \<Rightarrow> uds_auth_state \<Rightarrow> ('u, 'c, 'f, 'fs, 'h, 'r, 'n, 'z) server_world \<Rightarrow>
   (UDSErr_t, ('u, 'c, 'f, 'fs, 'h, 'r, 'n, 'z) server_world) outcome" where
  "call_set_auth_state setf st w =
     (case setf st (tw_resp (srv_transfer (env w))) of
        (r, resp) \<Rightarrow> Returns r (put_env (\<lambda>x. x\<lparr>srv_transfer := (srv_transfer x)\<lparr>tw_resp := resp\<rparr>\<rparr>) w))"

text \<open>The results of the three copies are not looked at.\<close>

definition auth_request_challenge ::
  "('g, 'p, 'k, 'r) sample_ops \<Rightarrow> ('u, 'c, 'f, 'fs, 'h, 'r, 'n, 'g, 'p) sample_world copy_sem \<Rightarrow> u8 list \<Rightarrow>
   ('u, 'c, 'f, 'fs, 'h, 'r, 'n, 'g, 'p) sample_world \<Rightarrow>
   (UDSErr_t, ('u, 'c, 'f, 'fs, 'h, 'r, 'n, 'g, 'p) sample_world) outcome" where
  "auth_request_challenge ops copy algoInd w =
     (let auth = sm_auth (user w) in
      if length algoInd < 16 then Undefined
      else if take 16 algoInd \<noteq> algorithm_authenticator auth then Returns UDS_NRC_ConditionsNotCorrect w
      else
        (case generate_random_seed (so_psa ops) (seeed auth) (sm_platform (user w)) of (ok, seed, p) \<Rightarrow>
         let w = upd_user (\<lambda>z. z\<lparr>sm_auth := (sm_auth z)\<lparr>seeed := seed\<rparr>, sm_platform := p\<rparr>) w in
         if \<not> ok then Returns UDS_NRC_GeneralReject w
         else
           obind (copy Copy_lib [0x00, 0x10] w) (\<lambda>_ w.
           obind (copy Copy_lib seed w) (\<lambda>_ w.
           obind (copy Copy_lib [0x00, 0x00] w) (\<lambda>_ w.
           call_set_auth_state (set_auth_state ops) UDS_AT_RA w)))))"

definition auth_verify_proof ::
  "('g, 'p, 'k, 'r) sample_ops \<Rightarrow> ('u, 'c, 'f, 'fs, 'h, 'r, 'n, 'g, 'p) sample_world copy_sem \<Rightarrow> u8 list \<Rightarrow> u8 list \<Rightarrow>
   ('u, 'c, 'f, 'fs, 'h, 'r, 'n, 'g, 'p) sample_world \<Rightarrow>
   (UDSErr_t, ('u, 'c, 'f, 'fs, 'h, 'r, 'n, 'g, 'p) sample_world) outcome" where
  "auth_verify_proof ops copy algoInd pown w =
     (let auth = sm_auth (user w) in
      if length algoInd < 16 then Undefined
      else if take 16 algoInd \<noteq> algorithm_authenticator auth then Returns UDS_NRC_ConditionsNotCorrect w
      else if length pown \<noteq> 16 then Returns UDS_NRC_IncorrectMessageLengthOrInvalidFormat w
      else
        (case aes_decrypt_ecb (so_psa ops) uds_aes_key pown (replicate 16 0) (sm_platform (user w)) of (decrypted, p) \<Rightarrow>
         let w = upd_user (\<lambda>z. z\<lparr>sm_platform := p\<rparr>) w in
         case decrypted of
           None \<Rightarrow> Returns UDS_NRC_GeneralReject w
         | Some decrypted_proof \<Rightarrow>
             if decrypted_proof \<noteq> seeed auth then
               Returns UDS_NRC_InvalidKey (upd_user (\<lambda>z. z\<lparr>sm_auth := (sm_auth z)\<lparr>authenticated := False\<rparr>\<rparr>) w)
             else
               obind (copy Copy_lib [0x00, 0x00] (upd_user (\<lambda>z. z\<lparr>sm_auth := (sm_auth z)\<lparr>authenticated := True\<rparr>\<rparr>) w)) (\<lambda>_ w.
               call_set_auth_state (set_auth_state ops) UDS_AT_OVAC w)))"

definition auth_de_authenticate ::
  "('g, 'p, 'k, 'r) sample_ops \<Rightarrow> ('u, 'c, 'f, 'fs, 'h, 'r, 'n, 'g, 'p) sample_world \<Rightarrow>
   (UDSErr_t, ('u, 'c, 'f, 'fs, 'h, 'r, 'n, 'g, 'p) sample_world) outcome" where
  "auth_de_authenticate ops w =
     call_set_auth_state (set_auth_state ops) UDS_AT_DAS (upd_user (\<lambda>z. z\<lparr>sm_auth := (sm_auth z)\<lparr>authenticated := False\<rparr>\<rparr>) w)"

text \<open>The registration points to the authentication data; \<open>consume_event\<close> is left as it is.\<close>

definition auth_action ::
  "('g, 'p, 'k, 'r) sample_ops \<Rightarrow> ('u, 'c, 'f, 'fs, 'h, 'r, 'n, 'g, 'p) sample_world copy_sem \<Rightarrow>
   uds_context \<Rightarrow> bool \<Rightarrow> ('u, 'c, 'f, 'fs, 'h, 'r, 'n, 'g, 'p) sample_world \<Rightarrow>
   (UDSErr_t \<times> bool \<times> uds_arg, ('u, 'c, 'f, 'fs, 'h, 'r, 'n, 'g, 'p) sample_world) outcome" where
  "auth_action ops copy ctx consume_event w =
     obind
       (case (ctx_arg ctx, reg_data_of ctx w) of
          (Arg_Auth ty args, Some (Reg_auth uc _ _)) \<Rightarrow>
            (case ty of
               UDS_LEV_AT_RCFA \<Rightarrow>
                 (case args of
                    Auth_reqChallenge algoInd \<Rightarrow>
                      if uc = Some AUTH_DATA then auth_request_challenge ops copy algoInd w else Undefined
                  | _ \<Rightarrow> Undefined)
             | UDS_LEV_AT_VPOWNU \<Rightarrow>
                 (case args of
                    Auth_verifyPown algoInd pown \<Rightarrow>
                      if uc = Some AUTH_DATA then auth_verify_proof ops copy algoInd pown w else Undefined
                  | _ \<Rightarrow> Undefined)
             | UDS_LEV_AT_DA \<Rightarrow> if uc = Some AUTH_DATA then auth_de_authenticate ops w else Undefined
             | UDS_LEV_AT_other _ \<Rightarrow> Returns UDS_NRC_SubFunctionNotSupported w)
        | _ \<Rightarrow> Undefined)
       (\<lambda>r w'. Returns (r, consume_event, ctx_arg ctx) w')"

definition auth_timeout_check :: "uds_context \<Rightarrow> bool \<Rightarrow> 'w \<Rightarrow> (UDSErr_t \<times> bool, 'w) outcome" where
  "auth_timeout_check ctx apply_action w = Returns (UDS_OK, True) w"

definition auth_timeout_action ::
  "uds_context \<Rightarrow> bool \<Rightarrow> ('u, 'c, 'f, 'fs, 'h, 'r, 'n, 'g, 'p) sample_world \<Rightarrow>
   (UDSErr_t \<times> bool \<times> uds_arg, ('u, 'c, 'f, 'fs, 'h, 'r, 'n, 'g, 'p) sample_world) outcome" where
  "auth_timeout_action ctx consume_event w =
     (case reg_data_of ctx w of
        Some (Reg_auth uc _ _) \<Rightarrow>
          if uc = Some AUTH_DATA
          then Returns (UDS_PositiveResponse, True, ctx_arg ctx)
                 (upd_user (\<lambda>z. z\<lparr>sm_auth := (sm_auth z)\<lparr>authenticated := False\<rparr>\<rparr>) w)
          else Undefined
      | _ \<Rightarrow> Undefined)"

end
