(* ===== verification/Sample_Diag.thy ===== *)
theory Sample_Diag
  imports Sample_State
begin

text \<open>
  The other handlers of the UDS sample: trouble codes (\<^verbatim>\<open>dtc_information.c\<close>), routines
  (\<^verbatim>\<open>routine_control.c\<close>), memory (\<^verbatim>\<open>mem_by_address.c\<close>) and sessions (\<^verbatim>\<open>diag_session_ctrl.c\<close>), with the work
  items of the first two. A handler runs to its end between two steps of a work item: what a work item
  does under its mutex is one step.
\<close>

section \<open>Trouble codes\<close>

abbreviation upd_dtc ::
  "(dtc_state \<Rightarrow> dtc_state) \<Rightarrow> ('u, 'c, 'f, 'fs, 'h, 'r, 'n, 'g, 'p) sample_world \<Rightarrow>
   ('u, 'c, 'f, 'fs, 'h, 'r, 'n, 'g, 'p) sample_world" where
  "upd_dtc f \<equiv> upd_user (\<lambda>z. z\<lparr>sm_dtc := f (sm_dtc z)\<rparr>)"

definition read_dtc_info_check :: "uds_context \<Rightarrow> bool \<Rightarrow> 'w \<Rightarrow> (UDSErr_t \<times> bool, 'w) outcome" where
  "read_dtc_info_check ctx apply_action w = Returns (UDS_OK, True) w"

text \<open>The loop over the records; it ends at the first copy that fails.\<close>

fun copy_dtc_records ::
  "'w copy_sem \<Rightarrow> u8 \<Rightarrow> DtcRecord list \<Rightarrow> 'w \<Rightarrow> (UDSErr_t, 'w) outcome" where
  "copy_dtc_records copy msk [] w = Returns UDS_OK w"
| "copy_dtc_records copy msk (d # ds) w =
     (if dtc_status d AND msk \<noteq> 0 \<and> is_active d then
        obind (copy Copy_lib (dtc d) w) (\<lambda>ret w.
          if ret \<noteq> UDS_OK then Returns ret w
          else
            obind (copy Copy_lib [dtc_status d] w) (\<lambda>ret w.
              if ret \<noteq> UDS_OK then Returns ret w else copy_dtc_records copy msk ds w))
      else copy_dtc_records copy msk ds w)"

definition read_dtc_info_action ::
  "('u, 'c, 'f, 'fs, 'h, 'r, 'n, 'g, 'p) sample_world copy_sem \<Rightarrow>
   uds_context \<Rightarrow> bool \<Rightarrow> ('u, 'c, 'f, 'fs, 'h, 'r, 'n, 'g, 'p) sample_world \<Rightarrow>
   (UDSErr_t \<times> bool \<times> uds_arg, ('u, 'c, 'f, 'fs, 'h, 'r, 'n, 'g, 'p) sample_world) outcome" where
  "read_dtc_info_action copy ctx consume_event w =
     (case ctx_arg ctx of
        Arg_RDTCI _ msk \<Rightarrow>
          obind (copy Copy_lib [dtc_status_availability_mask] w) (\<lambda>ret w.
            if ret \<noteq> UDS_OK then Returns (ret, consume_event, ctx_arg ctx) w
            else
              obind (copy_dtc_records copy msk (dtc_records (sm_dtc (user w))) w) (\<lambda>ret w.
                if ret \<noteq> UDS_OK then Returns (ret, consume_event, ctx_arg ctx) w
                else Returns (UDS_PositiveResponse, True, ctx_arg ctx) w))
      | _ \<Rightarrow> Undefined)"

definition dtc_reactivate_work_handler :: "dtc_state \<Rightarrow> dtc_state" where
  "dtc_reactivate_work_handler s =
     s\<lparr>dtc_records := map (\<lambda>d. d\<lparr>is_active := True\<rparr>) (dtc_records s), dtc_reactivate_pending := False\<rparr>"

definition clear_diag_info_check :: "uds_context \<Rightarrow> bool \<Rightarrow> 'w \<Rightarrow> (UDSErr_t \<times> bool, 'w) outcome" where
  "clear_diag_info_check ctx apply_action w = Returns (UDS_OK, True) w"

text \<open>A pending reactivation is cancelled and scheduled again, so that it is pending in the end.\<close>

definition clear_diag_info_act ::
  "uds_context \<Rightarrow> bool \<Rightarrow> ('u, 'c, 'f, 'fs, 'h, 'r, 'n, 'g, 'p) sample_world \<Rightarrow>
   (UDSErr_t \<times> bool \<times> uds_arg, ('u, 'c, 'f, 'fs, 'h, 'r, 'n, 'g, 'p) sample_world) outcome" where
  "clear_diag_info_act ctx consume_event w =
     (let w = upd_dtc (\<lambda>s. s\<lparr>dtc_records := map (\<lambda>d. d\<lparr>is_active := False\<rparr>) (dtc_records s)\<rparr>) w;
          w = (if dtc_reactivate_pending (sm_dtc (user w)) then upd_dtc (\<lambda>s. s\<lparr>dtc_reactivate_pending := False\<rparr>) w else w)
      in Returns (UDS_PositiveResponse, True, ctx_arg ctx) (upd_dtc (\<lambda>s. s\<lparr>dtc_reactivate_pending := True\<rparr>) w))"

definition control_dtc_setting_check :: "uds_context \<Rightarrow> bool \<Rightarrow> 'w \<Rightarrow> (UDSErr_t \<times> bool, 'w) outcome" where
  "control_dtc_setting_check ctx apply_action w = Returns (UDS_OK, True) w"

definition set_frozen :: "bool \<Rightarrow> dtc_state \<Rightarrow> dtc_state" where
  "set_frozen b s = s\<lparr>dtc_records := map (\<lambda>d. d\<lparr>is_frozen := b\<rparr>) (dtc_records s)\<rparr>"

definition control_dtc_setting_action ::
  "uds_context \<Rightarrow> bool \<Rightarrow> ('u, 'c, 'f, 'fs, 'h, 'r, 'n, 'g, 'p) sample_world \<Rightarrow>
   (UDSErr_t \<times> bool \<times> uds_arg, ('u, 'c, 'f, 'fs, 'h, 'r, 'n, 'g, 'p) sample_world) outcome" where
  "control_dtc_setting_action ctx consume_event w =
     (case ctx_arg ctx of
        Arg_ControlDTCSetting ty _ \<Rightarrow>
          if ty = 0x01 then Returns (UDS_PositiveResponse, True, ctx_arg ctx) (upd_dtc (set_frozen False) w)
          else if ty = 0x02 then Returns (UDS_PositiveResponse, True, ctx_arg ctx) (upd_dtc (set_frozen True) w)
          else Returns (UDS_NRC_SubFunctionNotSupported, False, ctx_arg ctx) w
      | _ \<Rightarrow> Undefined)"

text \<open>It schedules itself again, so it runs for ever, every 50 ms, from \<^verbatim>\<open>dtc_status_init\<close> on.\<close>

definition dtc_status_increment_work_handler :: "dtc_state \<Rightarrow> dtc_state" where
  "dtc_status_increment_work_handler s =
     s\<lparr>dtc_records := map (\<lambda>d. if \<not> is_frozen d then d\<lparr>dtc_status := (dtc_status d + 1) AND 0xFF\<rparr> else d) (dtc_records s)\<rparr>"

section \<open>Routines\<close>

abbreviation upd_async ::
  "(uds_async_work_data \<Rightarrow> uds_async_work_data) \<Rightarrow> ('u, 'c, 'f, 'fs, 'h, 'r, 'n, 'g, 'p) sample_world \<Rightarrow>
   ('u, 'c, 'f, 'fs, 'h, 'r, 'n, 'g, 'p) sample_world" where
  "upd_async f \<equiv> upd_user (\<lambda>z. z\<lparr>sm_async := f (sm_async z)\<rparr>)"

definition SYNCHRONOUS_ROUTINE_ID :: u16 where "SYNCHRONOUS_ROUTINE_ID = 0x1234"
definition ASYNCHRONOUS_ROUTINE_ID :: u16 where "ASYNCHRONOUS_ROUTINE_ID = 0x5678"

definition sync_routine_control_check :: "uds_context \<Rightarrow> bool \<Rightarrow> 'w \<Rightarrow> (UDSErr_t \<times> bool, 'w) outcome" where
  "sync_routine_control_check ctx apply_action w =
     (case ctx_arg ctx of
        Arg_RoutineCtrl _ _ opts \<Rightarrow>
          if length opts \<noteq> 4 then Returns (UDS_NRC_IncorrectMessageLengthOrInvalidFormat, apply_action) w
          else Returns (UDS_OK, True) w
      | _ \<Rightarrow> Undefined)"

definition sync_action :: "u32 \<Rightarrow> u32" where
  "sync_action input = NOT input"

definition sync_routine_control_action ::
  "'w copy_sem \<Rightarrow> uds_context \<Rightarrow> bool \<Rightarrow> 'w \<Rightarrow> (UDSErr_t \<times> bool \<times> uds_arg, 'w) outcome" where
  "sync_routine_control_action copy ctx consume_event w =
     (case ctx_arg ctx of
        Arg_RoutineCtrl _ _ opts \<Rightarrow>
          (case of_be32 opts of
             None \<Rightarrow> Undefined
           | Some input \<Rightarrow> obind (copy Copy_lib (be32 (sync_action input)) w) (\<lambda>r w'. Returns (r, True, ctx_arg ctx) w'))
      | _ \<Rightarrow> Undefined)"

text \<open>
  \<^verbatim>\<open>async_action\<close>, the handler of the work item, in the parts that run under the mutex: before the loop, a
  pass of the loop, and after the loop.
\<close>

definition async_begin :: "uds_async_work_data \<Rightarrow> uds_async_work_data" where
  "async_begin a =
     (if aw_status a = ASYNC_WORK_STATUS_RUNNING then a\<lparr>aw_scheduled := False\<rparr>
      else a\<lparr>aw_scheduled := False, aw_status := ASYNC_WORK_STATUS_RUNNING, current_progress := 0, force_stop := False,
        aw_running := Some 0\<rparr>)"

definition async_pass :: "nat \<Rightarrow> uds_async_work_data \<Rightarrow> uds_async_work_data" where
  "async_pass i a =
     (if force_stop a then a\<lparr>aw_status := ASYNC_WORK_STATUS_STOPPED, aw_running := None\<rparr>
      else a\<lparr>current_progress := current_progress a + 1, aw_running := Some (Suc i)\<rparr>)"

definition async_end :: "uds_async_work_data \<Rightarrow> uds_async_work_data" where
  "async_end a = a\<lparr>aw_status := ASYNC_WORK_STATUS_SUCCESS, aw_running := None\<rparr>"

text \<open>One step of the work item, if there is one; the loop runs 3000 times.\<close>

definition async_work_step :: "uds_async_work_data \<Rightarrow> uds_async_work_data option" where
  "async_work_step a =
     (case aw_running a of
        Some i \<Rightarrow> Some (if i < 3000 then async_pass i a else async_end a)
      | None \<Rightarrow> if aw_scheduled a then Some (async_begin a) else None)"

definition async_routine_control_check :: "uds_context \<Rightarrow> bool \<Rightarrow> 'w \<Rightarrow> (UDSErr_t \<times> bool, 'w) outcome" where
  "async_routine_control_check ctx apply_action w = Returns (UDS_OK, True) w"

text \<open>
  A work item is pending while it is scheduled and while it runs. Cancelling it takes it off the
  schedule and lets a handler that runs already run on.
\<close>

definition async_pending :: "uds_async_work_data \<Rightarrow> bool" where
  "async_pending a \<longleftrightarrow> aw_scheduled a \<or> aw_running a \<noteq> None"

definition async_start ::
  "('p \<Rightarrow> c_int \<times> 'p) \<Rightarrow> ('u, 'c, 'f, 'fs, 'h, 'r, 'n, 'g, 'p) sample_world \<Rightarrow>
   UDSErr_t \<times> ('u, 'c, 'f, 'fs, 'h, 'r, 'n, 'g, 'p) sample_world" where
  "async_start schedule w =
     (let a = sm_async (user w) in
      if async_pending a then (UDS_NRC_RequestSequenceError, w)
      else if aw_status a = ASYNC_WORK_STATUS_RUNNING then (UDS_NRC_RequestSequenceError, w)
      else
        (case schedule (sm_platform (user w)) of (ret, p) \<Rightarrow>
         if rc_neg ret then (UDS_NRC_ConditionsNotCorrect, upd_user (\<lambda>z. z\<lparr>sm_platform := p\<rparr>) w)
         else (UDS_PositiveResponse, upd_user (\<lambda>z. z\<lparr>sm_platform := p, sm_async := (sm_async z)\<lparr>aw_scheduled := True\<rparr>\<rparr>) w)))"

definition async_routine_control_action ::
  "('p \<Rightarrow> c_int \<times> 'p) \<Rightarrow> ('u, 'c, 'f, 'fs, 'h, 'r, 'n, 'g, 'p) sample_world copy_sem \<Rightarrow>
   uds_context \<Rightarrow> bool \<Rightarrow> ('u, 'c, 'f, 'fs, 'h, 'r, 'n, 'g, 'p) sample_world \<Rightarrow>
   (UDSErr_t \<times> bool \<times> uds_arg, ('u, 'c, 'f, 'fs, 'h, 'r, 'n, 'g, 'p) sample_world) outcome" where
  "async_routine_control_action schedule copy ctx consume_event w =
     (case (ctx_arg ctx, reg_data_of ctx w) of
        (Arg_RoutineCtrl ctrlType _ _, Some (Reg_routine_control uc _ _)) \<Rightarrow>
          let a = sm_async (user w);
              answer = (\<lambda>bs w. obind (copy Copy_lib bs w) (\<lambda>r w'. Returns (r, True, ctx_arg ctx) w')) in
          if ctrlType \<in> range routine_control_val \<and> uc \<noteq> Some ASYNC_ROUTINE_DATA then Undefined
          else if ctrlType = routine_control_val UDS_ROUTINE_CONTROL__START_ROUTINE then
            (case async_start schedule w of (r, w') \<Rightarrow> Returns (r, True, ctx_arg ctx) w')
          else if ctrlType = routine_control_val UDS_ROUTINE_CONTROL__STOP_ROUTINE then
            (if aw_status a \<noteq> ASYNC_WORK_STATUS_RUNNING then Returns (UDS_NRC_RequestSequenceError, True, ctx_arg ctx) w
             else answer [async_work_status_val ASYNC_WORK_STATUS_STOPPED]
                    (upd_async (\<lambda>a. a\<lparr>force_stop := True, aw_scheduled := False\<rparr>) w))
          else if ctrlType = routine_control_val UDS_ROUTINE_CONTROL__REQUEST_ROUTINE_RESULTS then
            answer (async_work_status_val (aw_status a) # be32 (current_progress a)) w
          else Returns (UDS_NRC_SubFunctionNotSupported, True, ctx_arg ctx) w
      | _ \<Rightarrow> Undefined)"

section \<open>Memory\<close>

text \<open>The test of both checks, with 32 bit arithmetic.\<close>

definition fake_memory_refuses :: "u32 \<Rightarrow> u32 \<Rightarrow> bool" where
  "fake_memory_refuses a n \<longleftrightarrow>
     a < fake_memory_start_addr \<or> a + n \<ge> fake_memory_start_addr + of_nat (length fake_memory_init)"

definition read_mem_by_address_check :: "uds_context \<Rightarrow> bool \<Rightarrow> 'w \<Rightarrow> (UDSErr_t \<times> bool, 'w) outcome" where
  "read_mem_by_address_check ctx apply_action w =
     (case ctx_arg ctx of
        Arg_ReadMem a n _ \<Rightarrow> Returns (UDS_OK, if fake_memory_refuses a n then apply_action else True) w
      | _ \<Rightarrow> Undefined)"

text \<open>
  The count of the copy function is a \<open>uint16_t\<close>: the size is cut to its low 16 bits when it is called. A
  range that leaves the array has no outcome here.
\<close>

definition read_mem_by_address_action ::
  "('u, 'c, 'f, 'fs, 'h, 'r, 'n, 'g, 'p) sample_world copy_sem \<Rightarrow>
   uds_context \<Rightarrow> bool \<Rightarrow> ('u, 'c, 'f, 'fs, 'h, 'r, 'n, 'g, 'p) sample_world \<Rightarrow>
   (UDSErr_t \<times> bool \<times> uds_arg, ('u, 'c, 'f, 'fs, 'h, 'r, 'n, 'g, 'p) sample_world) outcome" where
  "read_mem_by_address_action copy ctx consume_event w =
     (case ctx_arg ctx of
        Arg_ReadMem a n c \<Rightarrow>
          let off = unat (a - fake_memory_start_addr); count = unat (ucast n :: u16); m = fake_memory (user w) in
          if off + count > length m then Undefined
          else obind (copy c (take count (drop off m)) w) (\<lambda>r w'. Returns (r, consume_event, ctx_arg ctx) w')
      | _ \<Rightarrow> Undefined)"

definition write_mem_by_address_check :: "uds_context \<Rightarrow> bool \<Rightarrow> 'w \<Rightarrow> (UDSErr_t \<times> bool, 'w) outcome" where
  "write_mem_by_address_check ctx apply_action w =
     (case ctx_arg ctx of
        Arg_WriteMem a n _ \<Rightarrow> Returns (UDS_OK, if fake_memory_refuses a n then apply_action else True) w
      | _ \<Rightarrow> Undefined)"

definition write_mem_by_address_action ::
  "uds_context \<Rightarrow> bool \<Rightarrow> ('u, 'c, 'f, 'fs, 'h, 'r, 'n, 'g, 'p) sample_world \<Rightarrow>
   (UDSErr_t \<times> bool \<times> uds_arg, ('u, 'c, 'f, 'fs, 'h, 'r, 'n, 'g, 'p) sample_world) outcome" where
  "write_mem_by_address_action ctx consume_event w =
     (case ctx_arg ctx of
        Arg_WriteMem a n bytes \<Rightarrow>
          let off = unat (a - fake_memory_start_addr); m = fake_memory (user w) in
          if off + unat n > length m \<or> length bytes < unat n then Undefined
          else Returns (UDS_PositiveResponse, consume_event, ctx_arg ctx)
                 (upd_user (\<lambda>z. z\<lparr>fake_memory := take off m @ take (unat n) bytes @ drop (off + unat n) m\<rparr>) w)
      | _ \<Rightarrow> Undefined)"

section \<open>Sessions\<close>

definition sample_session_ctrl_check :: "uds_context \<Rightarrow> bool \<Rightarrow> 'w \<Rightarrow> (UDSErr_t \<times> bool, 'w) outcome" where
  "sample_session_ctrl_check ctx apply_action w = Returns (UDS_OK, True) w"

definition sample_session_ctrl_action :: "uds_context \<Rightarrow> bool \<Rightarrow> 'w \<Rightarrow> (UDSErr_t \<times> bool \<times> uds_arg, 'w) outcome" where
  "sample_session_ctrl_action ctx consume_event w = Returns (UDS_PositiveResponse, False, ctx_arg ctx) w"

definition sample_session_timeout_check :: "uds_context \<Rightarrow> bool \<Rightarrow> 'w \<Rightarrow> (UDSErr_t \<times> bool, 'w) outcome" where
  "sample_session_timeout_check ctx apply_action w = Returns (UDS_OK, True) w"

definition sample_session_timeout_action :: "uds_context \<Rightarrow> bool \<Rightarrow> 'w \<Rightarrow> (UDSErr_t \<times> bool \<times> uds_arg, 'w) outcome" where
  "sample_session_timeout_action ctx consume_event w = Returns (UDS_PositiveResponse, False, ctx_arg ctx) w"

end
