(* ===== verification/Uds_Sample.thy ===== *)
theory Uds_Sample
  imports Sample_Data Sample_Security Sample_Diag
begin

text \<open>
  The UDS sample as an application of the server: its registrations, the meaning of its handlers, and
  the interleaving of requests with the LED thread and the work items. The registrations of the default
  instance and of the transfer service are linked to it.
\<close>

section \<open>Handlers\<close>

datatype sample_fn =
    Fn_read_data_by_id_check | Fn_read_data_by_id_action
  | Fn_write_primitive_data_by_id_check | Fn_write_primitive_data_by_id_action
  | Fn_read_led_check | Fn_read_led_action | Fn_write_led_check | Fn_write_led_action
  | Fn_io_ctrl_led_check | Fn_io_ctrl_led_action
  | Fn_security_access_request_seed_check | Fn_security_access_request_seed_action
  | Fn_security_access_validate_key_check | Fn_security_access_validate_key_action
  | Fn_read_secure_data_check | Fn_read_secure_data_action
  | Fn_auth_check | Fn_auth_action | Fn_auth_timeout_check | Fn_auth_timeout_action
  | Fn_read_dtc_info_check | Fn_read_dtc_info_action | Fn_clear_diag_info_check | Fn_clear_diag_info_act
  | Fn_control_dtc_setting_check | Fn_control_dtc_setting_action
  | Fn_sync_routine_control_check | Fn_sync_routine_control_action
  | Fn_async_routine_control_check | Fn_async_routine_control_action
  | Fn_read_mem_by_address_check | Fn_read_mem_by_address_action
  | Fn_write_mem_by_address_check | Fn_write_mem_by_address_action
  | Fn_sample_session_ctrl_check | Fn_sample_session_ctrl_action
  | Fn_sample_session_timeout_check | Fn_sample_session_timeout_action

fun sample_check ::
  "sample_fn \<Rightarrow> uds_context \<Rightarrow> bool \<Rightarrow> (sample_fn, 'c, 'f, 'fs, 'h, 'r, 'n, 'g, 'p) sample_world \<Rightarrow>
   (UDSErr_t \<times> bool, (sample_fn, 'c, 'f, 'fs, 'h, 'r, 'n, 'g, 'p) sample_world) outcome" where
  "sample_check Fn_read_data_by_id_check ctx b w = read_data_by_id_check ctx b w"
| "sample_check Fn_write_primitive_data_by_id_check ctx b w = write_primitive_data_by_id_check ctx b w"
| "sample_check Fn_read_led_check ctx b w = read_led_check ctx b w"
| "sample_check Fn_write_led_check ctx b w = write_led_check ctx b w"
| "sample_check Fn_io_ctrl_led_check ctx b w = io_ctrl_led_check ctx b w"
| "sample_check Fn_security_access_request_seed_check ctx b w = security_access_request_seed_check ctx b w"
| "sample_check Fn_security_access_validate_key_check ctx b w = security_access_validate_key_check ctx b w"
| "sample_check Fn_read_secure_data_check ctx b w = read_secure_data_check ctx b w"
| "sample_check Fn_auth_check ctx b w = auth_check ctx b w"
| "sample_check Fn_auth_timeout_check ctx b w = auth_timeout_check ctx b w"
| "sample_check Fn_read_dtc_info_check ctx b w = read_dtc_info_check ctx b w"
| "sample_check Fn_clear_diag_info_check ctx b w = clear_diag_info_check ctx b w"
| "sample_check Fn_control_dtc_setting_check ctx b w = control_dtc_setting_check ctx b w"
| "sample_check Fn_sync_routine_control_check ctx b w = sync_routine_control_check ctx b w"
| "sample_check Fn_async_routine_control_check ctx b w = async_routine_control_check ctx b w"
| "sample_check Fn_read_mem_by_address_check ctx b w = read_mem_by_address_check ctx b w"
| "sample_check Fn_write_mem_by_address_check ctx b w = write_mem_by_address_check ctx b w"
| "sample_check Fn_sample_session_ctrl_check ctx b w = sample_session_ctrl_check ctx b w"
| "sample_check Fn_sample_session_timeout_check ctx b w = sample_session_timeout_check ctx b w"
| "sample_check _ ctx b w = Undefined"

fun sample_action ::
  "('g, 'p, 'k, 'r) sample_ops \<Rightarrow> (sample_fn, 'c, 'f, 'fs, 'h, 'r, 'n, 'g, 'p) sample_world copy_sem \<Rightarrow>
   sample_fn \<Rightarrow> uds_context \<Rightarrow> bool \<Rightarrow> (sample_fn, 'c, 'f, 'fs, 'h, 'r, 'n, 'g, 'p) sample_world \<Rightarrow>
   (UDSErr_t \<times> bool \<times> uds_arg, (sample_fn, 'c, 'f, 'fs, 'h, 'r, 'n, 'g, 'p) sample_world) outcome" where
  "sample_action ops copy Fn_read_data_by_id_action ctx b w = read_data_by_id_action copy ctx b w"
| "sample_action ops copy Fn_write_primitive_data_by_id_action ctx b w = write_primitive_data_by_id_action ctx b w"
| "sample_action ops copy Fn_read_led_action ctx b w = read_led_action (so_led ops) copy ctx b w"
| "sample_action ops copy Fn_write_led_action ctx b w = write_led_action ctx b w"
| "sample_action ops copy Fn_io_ctrl_led_action ctx b w = io_ctrl_led_action (so_led ops) copy ctx b w"
| "sample_action ops copy Fn_security_access_request_seed_action ctx b w =
     security_access_request_seed_action (sys_rand32_get ops) copy ctx b w"
| "sample_action ops copy Fn_security_access_validate_key_action ctx b w = security_access_validate_key_action ctx b w"
| "sample_action ops copy Fn_read_secure_data_action ctx b w = read_secure_data_action copy ctx b w"
| "sample_action ops copy Fn_auth_action ctx b w = auth_action ops copy ctx b w"
| "sample_action ops copy Fn_auth_timeout_action ctx b w = auth_timeout_action ctx b w"
| "sample_action ops copy Fn_read_dtc_info_action ctx b w = read_dtc_info_action copy ctx b w"
| "sample_action ops copy Fn_clear_diag_info_act ctx b w = clear_diag_info_act ctx b w"
| "sample_action ops copy Fn_control_dtc_setting_action ctx b w = control_dtc_setting_action ctx b w"
| "sample_action ops copy Fn_sync_routine_control_action ctx b w = sync_routine_control_action copy ctx b w"
| "sample_action ops copy Fn_async_routine_control_action ctx b w =
     async_routine_control_action (k_work_schedule ops) copy ctx b w"
| "sample_action ops copy Fn_read_mem_by_address_action ctx b w = read_mem_by_address_action copy ctx b w"
| "sample_action ops copy Fn_write_mem_by_address_action ctx b w = write_mem_by_address_action ctx b w"
| "sample_action ops copy Fn_sample_session_ctrl_action ctx b w = sample_session_ctrl_action ctx b w"
| "sample_action ops copy Fn_sample_session_timeout_action ctx b w = sample_session_timeout_action ctx b w"
| "sample_action ops copy _ ctx b w = Undefined"

text \<open>The sample registers no handler with an unregister function of its own.\<close>

definition sample_cfg ::
  "('g, 'p, 'k, 'r) sample_ops \<Rightarrow> (sample_fn, 'c, 'f, 'fs, 'h, 'r, 'n, ('g, 'p) sample_state) server_cfg \<Rightarrow>
   (sample_fn, 'c, 'f, 'fs, 'h, 'r, 'n, ('g, 'p) sample_state) server_cfg" where
  "sample_cfg ops board = board\<lparr>sc_user_check := sample_check,
     sc_user_action := sample_action ops (call_copy (server_dddi_env board)),
     sc_user_unregister := (\<lambda>_ _ _. Undefined)\<rparr>"

section \<open>Registrations\<close>

definition reg_primitive :: "inst \<Rightarrow> sample_fn uds_registration_t" where
  "reg_primitive k = UDS_REGISTER_DATA_BY_IDENTIFIER_HANDLER (Some k) primitive_type_id (Some PRIMITIVE_TYPE)
     (Some (Check_user Fn_read_data_by_id_check)) (Some (Action_user Fn_read_data_by_id_action))
     (Some (Check_user Fn_write_primitive_data_by_id_check)) (Some (Action_user Fn_write_primitive_data_by_id_action))
     None None (Some PRIMITIVE_TYPE_SIZE)"

definition reg_string :: "inst \<Rightarrow> sample_fn uds_registration_t" where
  "reg_string k = UDS_REGISTER_DATA_BY_IDENTIFIER_HANDLER (Some k) string_id (Some STRING)
     (Some (Check_user Fn_read_data_by_id_check)) (Some (Action_user Fn_read_data_by_id_action))
     None None None None (Some STRING_SIZE)"

definition reg_authenticated :: "inst \<Rightarrow> sample_fn uds_registration_t" where
  "reg_authenticated k = UDS_REGISTER_DATA_BY_IDENTIFIER_HANDLER (Some k) authenticated_type_id (Some AUTHENTICATED_TYPE)
     (Some (Check_user Fn_read_data_by_id_check)) (Some (Action_user Fn_read_data_by_id_action))
     None None None None (Some AUTHENTICATED_TYPE_SIZE)"

definition reg_led :: "inst \<Rightarrow> sample_fn uds_registration_t" where
  "reg_led k = UDS_REGISTER_DATA_BY_IDENTIFIER_HANDLER (Some k) led_id (Some LED_STATE)
     (Some (Check_user Fn_read_led_check)) (Some (Action_user Fn_read_led_action))
     (Some (Check_user Fn_write_led_check)) (Some (Action_user Fn_write_led_action))
     (Some (Check_user Fn_io_ctrl_led_check)) (Some (Action_user Fn_io_ctrl_led_action)) (Some LED_DATA)"

definition reg_secure :: "inst \<Rightarrow> sample_fn uds_registration_t" where
  "reg_secure k = UDS_REGISTER_DATA_BY_IDENTIFIER_HANDLER (Some k) secure_data_id (Some SECURE_DATA)
     (Some (Check_user Fn_read_secure_data_check)) (Some (Action_user Fn_read_secure_data_action))
     None None None None (Some SECURE_DATA_SIZE)"

definition reg_security_access :: "inst \<Rightarrow> sample_fn uds_registration_t" where
  "reg_security_access k = UDS_REGISTER_SECURITY_ACCESS_HANDLER (Some k)
     (Some (Check_user Fn_security_access_request_seed_check)) (Some (Action_user Fn_security_access_request_seed_action))
     (Some (Check_user Fn_security_access_validate_key_check)) (Some (Action_user Fn_security_access_validate_key_action)) None"

definition reg_authentication :: "inst \<Rightarrow> sample_fn uds_registration_t" where
  "reg_authentication k = UDS_REGISTER_AUTHENTICATION_HANDLER (Some k)
     (Some (Check_user Fn_auth_check)) (Some (Action_user Fn_auth_action))
     (Some (Check_user Fn_auth_timeout_check)) (Some (Action_user Fn_auth_timeout_action)) (Some AUTH_DATA)"

definition reg_dtc_read :: "inst \<Rightarrow> sample_fn uds_registration_t" where
  "reg_dtc_read k = UDS_REGISTER_READ_DTC_INFO_HANDLER (Some k)
     (Some (Check_user Fn_read_dtc_info_check)) (Some (Action_user Fn_read_dtc_info_action))
     (read_dtc_info_val UDS_READ_DTC_INFO_SUBFUNC__DTC_BY_STATUS_MASK) None"

definition reg_dtc_clear :: "inst \<Rightarrow> sample_fn uds_registration_t" where
  "reg_dtc_clear k = UDS_REGISTER_CLEAR_DIAG_INFO_HANDLER (Some k)
     (Some (Check_user Fn_clear_diag_info_check)) (Some (Action_user Fn_clear_diag_info_act)) None"

definition reg_dtc_setting :: "inst \<Rightarrow> sample_fn uds_registration_t" where
  "reg_dtc_setting k = UDS_REGISTER_CONTROL_DTC_SETTING_HANDLER (Some k)
     (Some (Check_user Fn_control_dtc_setting_check)) (Some (Action_user Fn_control_dtc_setting_action)) None"

definition reg_sync_routine :: "inst \<Rightarrow> sample_fn uds_registration_t" where
  "reg_sync_routine k = UDS_REGISTER_ROUTINE_CONTROL_HANDLER (Some k) SYNCHRONOUS_ROUTINE_ID
     (Some (Check_user Fn_sync_routine_control_check)) (Some (Action_user Fn_sync_routine_control_action)) None"

definition reg_async_routine :: "inst \<Rightarrow> sample_fn uds_registration_t" where
  "reg_async_routine k = UDS_REGISTER_ROUTINE_CONTROL_HANDLER (Some k) ASYNCHRONOUS_ROUTINE_ID
     (Some (Check_user Fn_async_routine_control_check)) (Some (Action_user Fn_async_routine_control_action))
     (Some ASYNC_ROUTINE_DATA)"

definition reg_memory :: "inst \<Rightarrow> sample_fn uds_registration_t" where
  "reg_memory k = UDS_REGISTER_MEMORY_HANDLER (Some k)
     (Some (Check_user Fn_read_mem_by_address_check)) (Some (Action_user Fn_read_mem_by_address_action))
     (Some (Check_user Fn_write_mem_by_address_check)) (Some (Action_user Fn_write_mem_by_address_action)) None"

definition reg_session :: "inst \<Rightarrow> sample_fn uds_registration_t" where
  "reg_session k = UDS_REGISTER_DIAG_SESSION_CTRL_HANDLER (Some k)
     (Some (Check_user Fn_sample_session_ctrl_check)) (Some (Action_user Fn_sample_session_ctrl_action))
     (Some (Check_user Fn_sample_session_timeout_check)) (Some (Action_user Fn_sample_session_timeout_action)) None"

definition sample_registrations :: "inst \<Rightarrow> sample_fn uds_registration_t list" where
  "sample_registrations k =
     [reg_authentication k, reg_primitive k, reg_string k, reg_authenticated k, reg_led k, reg_session k, reg_dtc_read k,
      reg_dtc_clear k, reg_dtc_setting k, reg_memory k, reg_sync_routine k, reg_async_routine k, reg_security_access k,
      reg_secure k]"

lemmas sample_reg_defs = reg_primitive_def reg_string_def reg_authenticated_def reg_led_def reg_secure_def
  reg_security_access_def reg_authentication_def reg_dtc_read_def reg_dtc_clear_def reg_dtc_setting_def
  reg_sync_routine_def reg_async_routine_def reg_memory_def reg_session_def

definition sample_static :: "bool \<Rightarrow> inst \<Rightarrow> sample_fn uds_registration_t list" where
  "sample_static link k = default_instance_registrations link k @ sample_registrations k @ [upload_download_registration]"

text \<open>\<^verbatim>\<open>main.c\<close>: the user context of the default instance.\<close>

definition uds_default_instance_user_context :: "addr option" where
  "uds_default_instance_user_context = Some AUTH_DATA"

section \<open>Interleaving\<close>

text \<open>
  A step of the sample: a request, which the event callback answers, or a step of a thread or work item.
  After a request the package may set the security level of the server; \<open>level_after\<close> is what it sets,
  from the event, the argument, the answer and the level before.
\<close>

type_synonym level_sem = "UDSEvent_t \<Rightarrow> uds_arg \<Rightarrow> UDSErr_t \<Rightarrow> u8 \<Rightarrow> u8"

definition set_level :: "inst \<Rightarrow> u8 \<Rightarrow> ('u, 'c, 'f, 'fs, 'h, 'r, 'n, 'z) server_world \<Rightarrow> ('u, 'c, 'f, 'fs, 'h, 'r, 'n, 'z) server_world" where
  "set_level i v = put_env (\<lambda>x. x\<lparr>srv_securityLevel := (srv_securityLevel x)(i := v)\<rparr>)"

datatype sample_event = Request inst UDSEvent_t uds_arg UDSErr_t | Background

inductive sample_step ::
  "(sample_fn, 'c, 'f, 'fs, 'h, 'r, 'n, ('g, 'p) sample_state) server_cfg \<Rightarrow> 'g led_ops \<Rightarrow> level_sem \<Rightarrow>
   (sample_fn, 'c, 'f, 'fs, 'h, 'r, 'n, 'g, 'p) sample_world \<Rightarrow> sample_event \<Rightarrow>
   (sample_fn, 'c, 'f, 'fs, 'h, 'r, 'n, 'g, 'p) sample_world \<Rightarrow> bool"
  for cfg led level_after where
  request: "server_event (Suc n) cfg i ev arg w = Returns (r, arg') w' \<Longrightarrow>
    sample_step cfg led level_after w (Request i ev arg r)
      (set_level i (level_after ev arg r (srv_securityLevel (env w') i)) w')"
| led_starts: "\<not> led_configured (sm_led (user w)) \<Longrightarrow> \<not> led_mutex_held (sm_led (user w)) \<Longrightarrow>
    sample_step cfg led level_after w Background (upd_led (led_thread_start led) w)"
| led_passes: "led_configured (sm_led (user w)) \<Longrightarrow>
    sample_step cfg led level_after w Background (upd_led (led_thread_pass led) w)"
| dtc_reactivates: "dtc_reactivate_pending (sm_dtc (user w)) \<Longrightarrow>
    sample_step cfg led level_after w Background (upd_dtc dtc_reactivate_work_handler w)"
| dtc_increments: "sample_step cfg led level_after w Background (upd_dtc dtc_status_increment_work_handler w)"
| async_works: "async_work_step (sm_async (user w)) = Some a \<Longrightarrow>
    sample_step cfg led level_after w Background (upd_async (\<lambda>_. a) w)"

text \<open>Runs, with the requests they answer, the latest first.\<close>

inductive sample_run ::
  "(sample_fn, 'c, 'f, 'fs, 'h, 'r, 'n, ('g, 'p) sample_state) server_cfg \<Rightarrow> 'g led_ops \<Rightarrow> level_sem \<Rightarrow>
   (sample_fn, 'c, 'f, 'fs, 'h, 'r, 'n, 'g, 'p) sample_world \<Rightarrow> sample_event list \<Rightarrow>
   (sample_fn, 'c, 'f, 'fs, 'h, 'r, 'n, 'g, 'p) sample_world \<Rightarrow> bool"
  for cfg led level_after w0 where
  sample_start: "sample_run cfg led level_after w0 [] w0"
| sample_more: "sample_run cfg led level_after w0 tr w \<Longrightarrow> sample_step cfg led level_after w e w' \<Longrightarrow>
    sample_run cfg led level_after w0 (e # tr) w'"

inductive_cases sample_stepE: "sample_step cfg led level_after w e w'"

end
