(* ===== verification/Sample_Frame.thy ===== *)
theory Sample_Frame
  imports Uds_Sample
begin

text \<open>
  What a request leaves alone in the UDS sample: the registrations, and every part of the state of the sample that
  none of the actions registered for the event writes to.
\<close>

section \<open>Registrations and what requests leave alone\<close>

text \<open>
  The registrations of the sample in some order, none registered at run time, and the user context of
  the instance. No handler of the sample allocates memory or registers anything.
\<close>

definition sample_wf :: "bool \<Rightarrow> inst \<Rightarrow> (sample_fn, 'c, 'f, 'fs, 'h, 'r, 'n, 'g, 'p) sample_world \<Rightarrow> bool" where
  "sample_wf link k w \<longleftrightarrow> set (static_regs w) = set (sample_static link k) \<and> heap w = Map.empty \<and>
     (\<forall>i. dyn_regs w i = []) \<and> srv_user_context (env w) k = Some AUTH_DATA"

lemma sample_wf_put_env:
  "(\<And>x. srv_user_context (f x) = srv_user_context x) \<Longrightarrow> sample_wf link k (put_env f w) \<longleftrightarrow> sample_wf link k w"
  by (simp add: sample_wf_def put_env_def)

lemma sample_wf_simps [simp]:
  "sample_wf link k (upd_user g w) \<longleftrightarrow> sample_wf link k w"
  "sample_wf link k (upd_led l w) \<longleftrightarrow> sample_wf link k w"
  "sample_wf link k (set_level i v w) \<longleftrightarrow> sample_wf link k w"
  by (simp_all add: upd_led_def upd_user_def set_level_def sample_wf_put_env)

lemma sample_wf_static:
  "sample_wf link k w \<Longrightarrow> deref_reg w ref = Some r \<Longrightarrow> \<exists>m < length (static_regs w). ref = Static m \<and> r = static_regs w ! m \<and>
     r \<in> set (sample_static link k)"
  by (cases ref) (auto simp: sample_wf_def split: if_splits)

text \<open>A predicate on the security level and the state of the sample that is kept together with the registrations.\<close>

definition sample_keeps ::
  "bool \<Rightarrow> inst \<Rightarrow> ((inst \<Rightarrow> u8) \<Rightarrow> ('g, 'p) sample_state \<Rightarrow> bool) \<Rightarrow> (sample_fn, 'c, 'f, 'fs, 'h, 'r, 'n, 'g, 'p) sample_world \<Rightarrow> bool" where
  "sample_keeps link k Q w \<longleftrightarrow> sample_wf link k w \<and> Q (srv_securityLevel (env w)) (user w)"

lemma parts_keep:
  fixes w :: "(sample_fn, 'c, 'f, 'fs, 'h, 'r, 'n, 'g, 'p) sample_world"
  assumes "sample_keeps link k Q w"
  shows "oholds (sample_keeps link k Q) (on_link lf w)" "oholds (sample_keeps link k Q) (on_transfer tf w)"
    "oholds (sample_keeps link k Q) (on_boot bf w)"
  unfolding on_link_def on_transfer_def on_boot_def
  using assms by (auto intro!: oholds_olift simp: sample_keeps_def sample_wf_put_env) (simp_all add: put_env_def)

lemma copy_keeps:
  "sample_keeps link k Q w \<Longrightarrow> oholds (sample_keeps link k Q) (call_copy (server_dddi_env cfg) c bs w)"
  by (cases c) (auto simp: call_copy_def uds_copy_def server_dddi_env_def sample_keeps_def sample_wf_def split: prod.splits if_splits)

text \<open>A check leaves everything as it is.\<close>

lemma sample_check_same: "oholds (\<lambda>w'. w' = w) (sample_check u ctx b w)"
  by (cases u)
    (auto simp: read_data_by_id_check_def write_primitive_data_by_id_check_def read_led_check_def write_led_check_def
      io_ctrl_led_check_def security_access_request_seed_check_def security_access_validate_key_check_def
      read_secure_data_check_def auth_check_def auth_timeout_check_def read_dtc_info_check_def clear_diag_info_check_def
      control_dtc_setting_check_def sync_routine_control_check_def async_routine_control_check_def
      read_mem_by_address_check_def write_mem_by_address_check_def sample_session_ctrl_check_def
      sample_session_timeout_check_def split: uds_arg.splits)

lemma on_link_check_same: "oholds (\<lambda>w'. w' = w) (on_link (uds_check_default_link_control ctx b) w)"
  by (auto simp: on_link_def olift_def uds_check_default_link_control_def put_env_def
      split: uds_arg.splits list.splits)

lemma run_check_same: "oholds (\<lambda>w'. w' = w) (run_check n (sample_cfg ops board) c ctx b w)"
proof (induction n arbitrary: c)
  case (Suc n)
  show ?case
    by (cases c) (auto simp: sample_cfg_def sample_check_same on_link_check_same filter_check_defs simple_check_defs
        Suc.IH [unfolded sample_cfg_def]
        uds_check_default_memory_by_addr_read_def uds_check_default_memory_by_addr_write_def
        uds_check_default_dynamically_define_data_ids_def uds_dynamic_data_by_id_read_data_by_id_check_def
        uds_check_default_link_control_change_diag_session_def
        split: option.splits uds_registration_data.splits uds_arg.splits)
qed simp

text \<open>The event for which an action of the sample is registered.\<close>

fun action_event :: "sample_fn \<Rightarrow> UDSEvent_t option" where
  "action_event Fn_read_data_by_id_action = Some UDS_EVT_ReadDataByIdent"
| "action_event Fn_read_led_action = Some UDS_EVT_ReadDataByIdent"
| "action_event Fn_read_secure_data_action = Some UDS_EVT_ReadDataByIdent"
| "action_event Fn_write_primitive_data_by_id_action = Some UDS_EVT_WriteDataByIdent"
| "action_event Fn_write_led_action = Some UDS_EVT_WriteDataByIdent"
| "action_event Fn_io_ctrl_led_action = Some UDS_EVT_IOControl"
| "action_event Fn_security_access_request_seed_action = Some UDS_EVT_SecAccessRequestSeed"
| "action_event Fn_security_access_validate_key_action = Some UDS_EVT_SecAccessValidateKey"
| "action_event Fn_auth_action = Some UDS_EVT_Auth"
| "action_event Fn_auth_timeout_action = Some UDS_EVT_AuthTimeout"
| "action_event Fn_read_dtc_info_action = Some UDS_EVT_ReadDTCInformation"
| "action_event Fn_clear_diag_info_act = Some UDS_EVT_ClearDiagnosticInfo"
| "action_event Fn_control_dtc_setting_action = Some UDS_EVT_ControlDTCSetting"
| "action_event Fn_sync_routine_control_action = Some UDS_EVT_RoutineCtrl"
| "action_event Fn_async_routine_control_action = Some UDS_EVT_RoutineCtrl"
| "action_event Fn_read_mem_by_address_action = Some UDS_EVT_ReadMemByAddr"
| "action_event Fn_write_mem_by_address_action = Some UDS_EVT_WriteMemByAddr"
| "action_event Fn_sample_session_ctrl_action = Some UDS_EVT_DiagSessCtrl"
| "action_event Fn_sample_session_timeout_action = Some UDS_EVT_SessionTimeout"
| "action_event _ = None"

definition sample_library_actions :: "sample_fn action_fn set" where
  "sample_library_actions = {Fn_action_ecu_hard_reset, Fn_action_execute_scheduled_reset, Fn_action_default_link_control,
     Fn_action_default_link_control_change_diag_session, Fn_action_upload_download, Fn_diag_session_ctrl_action,
     Fn_diag_session_timeout_action}"

lemmas selector_defs = uds_get_check_for_ecu_reset_def uds_get_action_for_ecu_reset_def
  uds_get_check_for_execute_scheduled_reset_def uds_get_action_for_execute_scheduled_reset_def
  uds_get_check_for_diag_session_ctrl_def uds_get_action_for_diag_session_ctrl_def
  uds_get_check_for_session_timeout_def uds_get_action_for_session_timeout_def
  uds_get_check_for_security_access_request_seed_def uds_get_action_for_security_access_request_seed_def
  uds_get_check_for_security_access_validate_key_def uds_get_action_for_security_access_validate_key_def
  uds_get_check_for_auth_def uds_get_action_for_auth_def uds_get_check_for_auth_timeout_def uds_get_action_for_auth_timeout_def
  uds_get_check_for_communication_control_def uds_get_action_for_communication_control_def
  uds_get_check_for_control_dtc_setting_def uds_get_action_for_control_dtc_setting_def
  uds_get_check_for_clear_diag_info_def uds_get_action_for_clear_diag_info_def
  uds_get_check_for_read_memory_by_addr_def uds_get_action_for_read_memory_by_addr_def
  uds_get_check_for_write_memory_by_addr_def uds_get_action_for_write_memory_by_addr_def
  uds_get_check_for_dynamically_define_data_ids_def uds_get_action_for_dynamically_define_data_ids_def
  uds_get_check_for_link_control_def uds_get_action_for_link_control_def
  uds_get_check_for_read_data_by_identifier_def uds_get_action_for_read_data_by_identifier_def
  uds_get_check_for_write_data_by_identifier_def uds_get_action_for_write_data_by_identifier_def
  uds_get_check_for_io_control_by_identifier_def uds_get_action_for_io_control_by_identifier_def
  uds_get_check_for_routine_control_def uds_get_action_for_routine_control_def
  uds_get_check_for_read_dtc_info_def uds_get_action_for_read_dtc_info_def get_check_def get_action_def

lemmas sample_static_defs = sample_static_def sample_registrations_def default_instance_registrations_def
  UDS_REGISTER_LINK_CONTROL_DEFAULT_HANDLER_def upload_download_registration_def

lemma registered_action:
  assumes "h \<in> set uds_handlers" and "r \<in> set (sample_static link k)" and "reg_type r = h_registration_type h"
    and "h_get_action h r = Some a"
  shows "a \<in> sample_library_actions \<or> (\<exists>u. a = Action_user u \<and> action_event u = Some (h_event h))"
proof -
  from assms(1) have h: "list_ex (\<lambda>h'. h = h') uds_handlers" by (simp add: list_ex_iff)
  from assms(2) consider "r \<in> set (default_instance_registrations link k)" | "r \<in> set (sample_registrations k)"
    | "r = upload_download_registration" by (auto simp: sample_static_def)
  then show ?thesis
  proof cases
    case 1
    then show ?thesis
      using h assms(3,4)
      by (auto simp: uds_handlers_def handler_defs selector_defs sample_static_defs single_reg_defs
          sample_library_actions_def split: if_splits)
  next
    case 2
    then show ?thesis
      using h assms(3,4)
      by (auto simp: uds_handlers_def handler_defs selector_defs sample_registrations_def sample_reg_defs single_reg_defs)
  next
    case 3
    then show ?thesis
      using h assms(3,4)
      by (auto simp: uds_handlers_def handler_defs selector_defs upload_download_registration_def sample_library_actions_def)
  qed
qed

lemma library_action_keeps:
  "a \<in> sample_library_actions \<Longrightarrow> sample_keeps link k Q w \<Longrightarrow>
   oholds (sample_keeps link k Q) (run_action n (sample_cfg ops board) a ctx b w)"
  by (cases n) (auto simp: sample_library_actions_def parts_keep uds_action_ecu_hard_reset_def
      uds_action_execute_scheduled_reset_def diag_session_timeout_action_def split: uds_arg.splits)

text \<open>What the actions for an event keep, a request for the event keeps.\<close>

lemma visit_keeps:
  assumes h: "h \<in> set uds_handlers"
    and user: "\<And>u ctx b w. action_event u = Some (h_event h) \<Longrightarrow> sample_keeps link k Q w \<Longrightarrow>
      oholds (sample_keeps link k Q) (sample_action ops (call_copy (server_dddi_env board)) u ctx b w)"
    and w: "sample_keeps link k Q w"
  shows "oholds (sample_keeps link k Q)
    (uds_check_and_act_on_event (run_check n (sample_cfg ops board)) (run_action n (sample_cfg ops board)) ctx h found consume w)"
proof -
  let ?cfg = "sample_cfg ops board"
  have act: "oholds (sample_keeps link k Q) (run_action n ?cfg a ctx consume w)"
    if r: "deref_reg w (ctx_registration ctx) = Some r" "reg_type r = h_registration_type h" "h_get_action h r = Some a" for r a
  proof -
    from sample_wf_static [OF _ r(1)] w have "r \<in> set (sample_static link k)"
      unfolding sample_keeps_def by blast
    from registered_action [OF h this r(2,3)] show ?thesis
    proof
      assume "\<exists>u. a = Action_user u \<and> action_event u = Some (h_event h)"
      then show ?thesis using user [OF _ w] by (cases n) (auto simp: sample_cfg_def)
    qed (rule library_action_keeps [OF _ w])
  qed
  have check: "run_check n ?cfg c ctx False w = Returns x w' \<Longrightarrow> w' = w" for c x w'
    using run_check_same [of w n ops board c ctx False] by simp
  have check2: "oholds (sample_keeps link k Q) (run_check n ?cfg c ctx False w)" for c
    using w by (intro oholds_weaken [OF run_check_same]) simp
  show ?thesis
    unfolding uds_check_and_act_on_event_def
    using w by (auto intro!: oholds_obind check2 act dest!: check split: option.splits prod.splits)
qed

lemma request_keeps:
  assumes user: "\<And>u ctx b w. action_event u = Some ev \<Longrightarrow> sample_keeps link k Q w \<Longrightarrow>
      oholds (sample_keeps link k Q) (sample_action ops (call_copy (server_dddi_env board)) u ctx b w)"
    and w: "sample_keeps link k Q w"
  shows "oholds (sample_keeps link k Q) (server_event n (sample_cfg ops board) i ev arg w)"
proof (cases "find (\<lambda>h. h_event h = ev) (uds_handlers :: sample_fn uds_event_handler_data list)")
  case None
  then show ?thesis using w by (simp add: server_event_def uds_event_callback_def)
next
  case (Some h)
  then have h: "h \<in> set uds_handlers" "h_event h = ev" by (auto simp: find_Some_iff)
  have "dispatch_invariant (run_check n (sample_cfg ops board)) (run_action n (sample_cfg ops board)) i ev h (sample_keeps link k Q)"
    by unfold_locales (use visit_keeps [OF h(1)] user h(2) in blast)
  then show ?thesis
    using Some w by (simp add: server_event_def uds_event_callback_def dispatch_invariant.handle_event_inv)
qed

text \<open>What an action of the sample can change of the state of the sample.\<close>

fun changes :: "sample_fn \<Rightarrow> ('g, 'p) sample_state \<Rightarrow> ('g, 'p) sample_state \<Rightarrow> bool" where
  "changes Fn_write_primitive_data_by_id_action z z' \<longleftrightarrow> z'\<lparr>primitive_type := primitive_type z\<rparr> = z"
| "changes Fn_write_led_action z z' \<longleftrightarrow> z'\<lparr>sm_led := sm_led z\<rparr> = z"
| "changes Fn_io_ctrl_led_action z z' \<longleftrightarrow> z'\<lparr>sm_led := sm_led z\<rparr> = z"
| "changes Fn_security_access_request_seed_action z z' \<longleftrightarrow>
     z'\<lparr>sm_security := sm_security z, sm_platform := sm_platform z\<rparr> = z"
| "changes Fn_security_access_validate_key_action z z' \<longleftrightarrow> z'\<lparr>sm_security := sm_security z\<rparr> = z"
| "changes Fn_auth_action z z' \<longleftrightarrow> z'\<lparr>sm_auth := sm_auth z, sm_platform := sm_platform z\<rparr> = z"
| "changes Fn_auth_timeout_action z z' \<longleftrightarrow> z'\<lparr>sm_auth := sm_auth z\<rparr> = z"
| "changes Fn_clear_diag_info_act z z' \<longleftrightarrow> z'\<lparr>sm_dtc := sm_dtc z\<rparr> = z"
| "changes Fn_control_dtc_setting_action z z' \<longleftrightarrow> z'\<lparr>sm_dtc := sm_dtc z\<rparr> = z"
| "changes Fn_async_routine_control_action z z' \<longleftrightarrow> z'\<lparr>sm_async := sm_async z, sm_platform := sm_platform z\<rparr> = z"
| "changes Fn_write_mem_by_address_action z z' \<longleftrightarrow> z'\<lparr>fake_memory := fake_memory z\<rparr> = z"
| "changes _ z z' \<longleftrightarrow> z' = z"

definition effect ::
  "sample_fn \<Rightarrow> ('u, 'c, 'f, 'fs, 'h, 'r, 'n, 'g, 'p) sample_world \<Rightarrow> (inst \<Rightarrow> u8) \<Rightarrow> ('g, 'p) sample_state \<Rightarrow> bool" where
  "effect u w l z \<longleftrightarrow> l = srv_securityLevel (env w) \<and> changes u (user w) z"

lemma set_auth_keeps: "sample_keeps link k Q w \<Longrightarrow> oholds (sample_keeps link k Q) (call_set_auth_state setf st w)"
  by (auto simp: call_set_auth_state_def sample_keeps_def sample_wf_put_env split: prod.splits) (simp add: put_env_def)

lemma keeps_upd_user: "sample_wf link k w \<Longrightarrow> Q (srv_securityLevel (env w)) (f (user w)) \<Longrightarrow> sample_keeps link k Q (upd_user f w)"
  by (simp add: sample_keeps_def)

lemma copy_dtc_records_keeps:
  "sample_keeps link k Q w \<Longrightarrow> oholds (sample_keeps link k Q) (copy_dtc_records (call_copy (server_dddi_env cfg)) msk ds w)"
  by (induction ds arbitrary: w) (auto intro!: oholds_obind copy_keeps)

lemma auth_action_changes:
  assumes "sample_wf link k w"
  shows "oholds (sample_keeps link k (effect Fn_auth_action w))
    (auth_action ops (call_copy (server_dddi_env board)) ctx b w)"
proof -
  let ?K = "sample_keeps link k (effect Fn_auth_action w)"
  have same: "?K w" using assms by (simp add: sample_keeps_def effect_def)
  have challenge: "oholds ?K (auth_request_challenge ops (call_copy (server_dddi_env board)) algo w)" for algo
    unfolding auth_request_challenge_def Let_def
    using assms same by (auto intro!: oholds_obind copy_keeps set_auth_keeps keeps_upd_user simp: effect_def split: prod.splits)
  have verify: "oholds ?K (auth_verify_proof ops (call_copy (server_dddi_env board)) algo pown w)" for algo pown
    unfolding auth_verify_proof_def Let_def
    using assms same by (auto intro!: oholds_obind copy_keeps set_auth_keeps keeps_upd_user simp: effect_def split: prod.splits option.splits)
  have "oholds ?K (auth_de_authenticate ops w)"
    unfolding auth_de_authenticate_def using assms by (auto intro!: set_auth_keeps keeps_upd_user simp: effect_def)
  then show ?thesis
    unfolding auth_action_def
    using same challenge verify
    by (auto intro!: oholds_obind
        split: uds_arg.splits uds_auth_type.splits auth_sub_args.splits option.splits uds_registration_data.splits)
qed

lemma data_actions_change:
  assumes "sample_wf link k w"
  shows "oholds (sample_keeps link k (effect Fn_read_data_by_id_action w))
      (read_data_by_id_action (call_copy (server_dddi_env board)) ctx b w)"
    "oholds (sample_keeps link k (effect Fn_write_primitive_data_by_id_action w)) (write_primitive_data_by_id_action ctx b w)"
    "oholds (sample_keeps link k (effect Fn_read_secure_data_action w))
      (read_secure_data_action (call_copy (server_dddi_env board)) ctx b w)"
  unfolding read_data_by_id_action_def write_primitive_data_by_id_action_def read_secure_data_action_def Let_def
  using assms
  by (auto intro!: oholds_obind copy_keeps keeps_upd_user simp: effect_def sample_keeps_def [of _ _ _ w]
      split: uds_arg.splits option.splits uds_registration_data.splits)

lemma led_actions_change:
  assumes "sample_wf link k w"
  shows "oholds (sample_keeps link k (effect Fn_read_led_action w))
      (read_led_action led (call_copy (server_dddi_env board)) ctx b w)"
    "oholds (sample_keeps link k (effect Fn_write_led_action w)) (write_led_action ctx b w)"
    "oholds (sample_keeps link k (effect Fn_io_ctrl_led_action w))
      (io_ctrl_led_action led (call_copy (server_dddi_env board)) ctx b w)"
  unfolding read_led_action_def write_led_action_def io_ctrl_led_action_def with_led_mutex_def upd_led_def Let_def
  using assms
  by (auto intro!: oholds_obind copy_keeps keeps_upd_user simp: effect_def sample_keeps_def [of _ _ _ w]
      split: uds_arg.splits sum.splits list.splits)

lemma security_actions_change:
  assumes "sample_wf link k w"
  shows "oholds (sample_keeps link k (effect Fn_security_access_request_seed_action w))
      (security_access_request_seed_action rand (call_copy (server_dddi_env board)) ctx b w)"
    "oholds (sample_keeps link k (effect Fn_security_access_validate_key_action w))
      (security_access_validate_key_action ctx b w)"
    "oholds (sample_keeps link k (effect Fn_auth_timeout_action w)) (auth_timeout_action ctx b w)"
  unfolding security_access_request_seed_action_def security_access_validate_key_action_def auth_timeout_action_def Let_def
  using assms
  by (auto intro!: oholds_obind copy_keeps keeps_upd_user simp: effect_def sample_keeps_def [of _ _ _ w]
      split: uds_arg.splits prod.splits option.splits uds_registration_data.splits)

lemma dtc_actions_change:
  assumes "sample_wf link k w"
  shows "oholds (sample_keeps link k (effect Fn_read_dtc_info_action w))
      (read_dtc_info_action (call_copy (server_dddi_env board)) ctx b w)"
    "oholds (sample_keeps link k (effect Fn_clear_diag_info_act w)) (clear_diag_info_act ctx b w)"
    "oholds (sample_keeps link k (effect Fn_control_dtc_setting_action w)) (control_dtc_setting_action ctx b w)"
  unfolding read_dtc_info_action_def clear_diag_info_act_def control_dtc_setting_action_def Let_def
  using assms
  by (auto intro!: oholds_obind copy_keeps copy_dtc_records_keeps keeps_upd_user
      simp: effect_def sample_keeps_def [of _ _ _ w] upd_user_compose split: uds_arg.splits)

lemma routine_actions_change:
  assumes "sample_wf link k w"
  shows "oholds (sample_keeps link k (effect Fn_sync_routine_control_action w))
      (sync_routine_control_action (call_copy (server_dddi_env board)) ctx b w)"
    "oholds (sample_keeps link k (effect Fn_async_routine_control_action w))
      (async_routine_control_action sched (call_copy (server_dddi_env board)) ctx b w)"
  unfolding sync_routine_control_action_def async_routine_control_action_def async_start_def Let_def
  using assms
  by (auto intro!: oholds_obind copy_keeps keeps_upd_user simp: effect_def sample_keeps_def [of _ _ _ w]
      split: uds_arg.splits option.splits prod.splits uds_registration_data.splits)

lemma memory_actions_change:
  assumes "sample_wf link k w"
  shows "oholds (sample_keeps link k (effect Fn_read_mem_by_address_action w))
      (read_mem_by_address_action (call_copy (server_dddi_env board)) ctx b w)"
    "oholds (sample_keeps link k (effect Fn_write_mem_by_address_action w)) (write_mem_by_address_action ctx b w)"
  unfolding read_mem_by_address_action_def write_mem_by_address_action_def Let_def
  using assms
  by (auto intro!: oholds_obind copy_keeps keeps_upd_user simp: effect_def sample_keeps_def [of _ _ _ w] split: uds_arg.splits)

lemma sample_action_changes:
  "sample_wf link k w \<Longrightarrow>
   oholds (sample_keeps link k (effect u w)) (sample_action ops (call_copy (server_dddi_env board)) u ctx b w)"
  using data_actions_change led_actions_change security_actions_change dtc_actions_change routine_actions_change
    memory_actions_change auth_action_changes
  by (cases u) (simp_all add: sample_session_ctrl_action_def sample_session_timeout_action_def effect_def sample_keeps_def [of _ _ _ w])

text \<open>A part of the state of the sample is left alone by the events whose actions do not change it.\<close>

lemma request_keeps_part:
  fixes w :: "(sample_fn, 'c, 'f, 'fs, 'h, 'r, 'n, 'g, 'p) sample_world"
  assumes "\<And>u z z'. action_event u = Some ev \<Longrightarrow> changes u z z' \<Longrightarrow> part z' = part z"
    and "sample_wf link k w" and "server_event n (sample_cfg ops board) i ev arg w = Returns x w'"
  shows "sample_wf link k w' \<and> part (user w') = part (user w) \<and> srv_securityLevel (env w') = srv_securityLevel (env w)"
proof -
  let ?Q = "\<lambda>l z. part z = part (user w) \<and> l = srv_securityLevel (env w)"
  have "oholds (sample_keeps link k ?Q) (server_event n (sample_cfg ops board) i ev arg w)"
  proof (rule request_keeps)
    fix u ctx b and w1 :: "(sample_fn, 'c, 'f, 'fs, 'h, 'r, 'n, 'g, 'p) sample_world"
    assume u: "action_event u = Some ev" and w1: "sample_keeps link k ?Q w1"
    then have "oholds (sample_keeps link k (effect u w1)) (sample_action ops (call_copy (server_dddi_env board)) u ctx b w1)"
      by (intro sample_action_changes) (simp add: sample_keeps_def)
    then show "oholds (sample_keeps link k ?Q) (sample_action ops (call_copy (server_dddi_env board)) u ctx b w1)"
      by (rule oholds_weaken) (use w1 assms(1) [OF u] in \<open>auto simp: sample_keeps_def effect_def\<close>)
  qed (use assms(2) in \<open>simp add: sample_keeps_def\<close>)
  then show ?thesis using assms(3) by (simp add: sample_keeps_def)
qed

end
