(* ===== verification/Sample_Correct.thy ===== *)
theory Sample_Correct
  imports Sample_Frame
begin

text \<open>
  The UDS sample on the server: which registration answers an event, and the properties of the sample
  over all its runs.
\<close>

section \<open>The registration that answers\<close>

lemma sample_uds_wf: "sample_wf link k w \<Longrightarrow> uds_wf w"
  by (simp add: sample_wf_def uds_wf_def)

abbreviation ctx_for :: "inst \<Rightarrow> nat \<Rightarrow> UDSEvent_t \<Rightarrow> uds_arg \<Rightarrow> uds_context" where
  "ctx_for i m ev arg \<equiv> \<lparr>ctx_instance = i, ctx_registration = Static m, ctx_event = ev, ctx_arg = arg\<rparr>"

text \<open>
  One registration of the sample answers: the others are walked past, and its check either applies
  or refuses. Then the answer is that of the check, or of the action.
\<close>

lemma sample_answers:
  fixes w :: "(sample_fn, 'c, 'f, 'fs, 'h, 'r, 'n, 'g, 'p) sample_world"
    and ops :: "('g, 'p, 'k, 'r) sample_ops" and board
  defines "cfg \<equiv> sample_cfg ops board" and "copy \<equiv> call_copy (server_dddi_env board)"
  assumes wf: "sample_wf link k w" and h: "h \<in> set uds_handlers" and ev: "h_event h = ev" and r: "r \<in> set (sample_static link k)"
    and others: "\<And>m. m < length (static_regs w) \<Longrightarrow> static_regs w ! m \<noteq> r \<Longrightarrow>
      skips (run_check (Suc n) cfg) (run_action (Suc n) cfg) i ev arg h w (Static m)"
    and sel: "reg_type r = h_registration_type h" "h_get_check h r = Some c" "h_get_action h r = Some (Action_user a)"
    and check: "\<And>m. m < length (static_regs w) \<Longrightarrow> static_regs w ! m = r \<Longrightarrow>
      run_check (Suc n) cfg c (ctx_for i m ev arg) False w = chk"
    and action: "\<And>m. m < length (static_regs w) \<Longrightarrow> static_regs w ! m = r \<Longrightarrow>
      sample_action ops copy a (ctx_for i m ev arg) True w = act"
    and applies: "\<And>ret ap w1. chk = Returns (ret, ap) w1 \<Longrightarrow> ret \<noteq> UDS_OK \<or> ap"
    and consumes: "\<And>ret c' arg' w'. act = Returns (ret, c', arg') w' \<Longrightarrow> c' \<or> ret \<noteq> UDS_OK"
  shows "server_event (Suc n) cfg i ev arg w =
    obind chk (\<lambda>(ret, ap) w1. if ret \<noteq> UDS_OK then Returns (ret, arg) w
      else obind act (\<lambda>(ret, c', arg') w'. Returns (ret, arg') w'))"
proof -
  let ?act = "obind chk (\<lambda>(ret, ap) w1. if ret \<noteq> UDS_OK then Returns (ret, False, arg) w else act)"
  have "\<exists>m < length (static_regs w). static_regs w ! m = r \<and>
    server_event (Suc n) cfg i (h_event h) arg w = obind ?act (\<lambda>(ret, c', arg') w'. Returns (ret, arg') w')"
  proof (rule server_event_consumed [OF h])
    show "r \<in> set (static_regs w)" using wf r by (simp add: sample_wf_def)
    fix m assume m: "m < length (static_regs w)" "static_regs w ! m = r"
    have user: "run_action (Suc n) cfg (Action_user a) (ctx_for i m ev arg) True w = act"
      using action [OF m] by (simp add: cfg_def sample_cfg_def copy_def)
    show "uds_check_and_act_on_event (run_check (Suc n) cfg) (run_action (Suc n) cfg) (ctx_for i m (h_event h) arg) h False True w =
      obind ?act (\<lambda>(ret, c', arg') w'. Returns (ret, ret = UDS_OK, c', arg') w')"
    proof (cases chk)
      case (Returns x w1)
      obtain ret ap where x: "x = (ret, ap)" by (cases x)
      have "w1 = w"
        using run_check_same [of w "Suc n" ops board c "ctx_for i m ev arg" False] check [OF m] Returns unfolding cfg_def by simp
      moreover have "ret \<noteq> UDS_OK \<or> ap" using applies Returns x by blast
      ultimately show ?thesis
        using sel m user check [OF m] Returns x unfolding ev
        by (auto simp: uds_check_and_act_on_event_def intro!: obind_cong simp del: run_check.simps run_action.simps split: prod.splits)
    qed (use sel m check [OF m] in \<open>auto simp: uds_check_and_act_on_event_def ev simp del: run_check.simps\<close>)
  next
    fix m ret c' arg' w'
    assume "?act = Returns (ret, c', arg') w'"
    then show "c' \<or> ret \<noteq> UDS_OK"
      using consumes [of ret c' arg' w'] by (auto simp: outcome_simps split: if_splits)
  qed (unfold ev, rule others)
  moreover have "obind ?act (\<lambda>(ret, c', arg') w'. Returns (ret, arg') w') =
    obind chk (\<lambda>(ret, ap) w1. if ret \<noteq> UDS_OK then Returns (ret, arg) w
      else obind act (\<lambda>(ret, c', arg') w'. Returns (ret, arg') w'))"
    by (cases chk) auto
  ultimately show ?thesis by (auto simp: ev)
qed

text \<open>A registration that is the only one of its type.\<close>

lemma skip_other_type:
  assumes "sample_wf link k w" and "m < length (static_regs w)" and "static_regs w ! m \<noteq> r"
    and "\<And>r'. r' \<in> set (sample_static link k) \<Longrightarrow> r' \<noteq> r \<Longrightarrow> reg_type r' \<noteq> h_registration_type h"
  shows "skips ck ac i ev arg h w (Static m)"
proof (rule skips_type [OF deref_static [OF assms(2)]])
  have "static_regs w ! m \<in> set (sample_static link k)" using assms(1,2) nth_mem by (auto simp: sample_wf_def)
  then show "reg_type (static_regs w ! m) \<noteq> h_registration_type h" using assms(3,4) by blast
qed

text \<open>A check of the only registration that does not apply: the default answer.\<close>

lemma sample_unapplied:
  assumes wf: "sample_wf link k w" and h: "h \<in> set uds_handlers" and ev: "h_event h = ev"
    and others: "\<And>r'. r' \<in> set (sample_static link k) \<Longrightarrow> r' \<noteq> r \<Longrightarrow> reg_type r' \<noteq> h_registration_type h"
    and sel: "h_get_check h r = Some c"
    and check: "\<And>m. m < length (static_regs w) \<Longrightarrow> static_regs w ! m = r \<Longrightarrow>
      run_check n (sample_cfg ops board) c (ctx_for i m ev arg) False w = Returns (UDS_OK, False) w"
  shows "server_event n (sample_cfg ops board) i ev arg w = Returns (h_default_nrc h, arg) w"
proof -
  have "server_event n (sample_cfg ops board) i (h_event h) arg w = Returns (h_default_nrc h, arg) w"
  proof (rule server_event_default [OF sample_uds_wf [OF wf] _ h])
    show "length (dyn_regs w i) \<le> n" using wf by (simp add: sample_wf_def)
    fix ref r' assume r': "deref_reg w ref = Some r'"
    then obtain m where m: "m < length (static_regs w)" "ref = Static m" "r' = static_regs w ! m"
      using sample_wf_static [OF wf] by blast
    show "skips (run_check n (sample_cfg ops board)) (run_action n (sample_cfg ops board)) i (h_event h) arg h w ref"
    proof (cases "r' = r")
      case True
      then show ?thesis
        using m sel check [OF m(1)] skips_check_false [OF r'] by (auto simp: ev simp del: deref_reg.simps)
    next
      case False
      then show ?thesis using m skip_other_type [OF wf m(1) _ others] by simp
    qed
  qed
  then show ?thesis by (simp add: ev)
qed

lemma static_type_cases:
  assumes "r \<in> set (sample_static link k)"
  shows "reg_type r = UDS_REGISTRATION_TYPE__SECURITY_ACCESS \<longleftrightarrow> r = reg_security_access k"
    "reg_type r = UDS_REGISTRATION_TYPE__AUTHENTICATION \<longleftrightarrow> r = reg_authentication k"
    "reg_type r = UDS_REGISTRATION_TYPE__MEMORY \<longleftrightarrow> r = reg_memory k"
    "reg_type r = UDS_REGISTRATION_TYPE__READ_DTC_INFO \<longleftrightarrow> r = reg_dtc_read k"
    "reg_type r = UDS_REGISTRATION_TYPE__CLEAR_DIAG_INFO \<longleftrightarrow> r = reg_dtc_clear k"
    "reg_type r = UDS_REGISTRATION_TYPE__CONTROL_DTC_SETTING \<longleftrightarrow> r = reg_dtc_setting k"
    "reg_type r = UDS_REGISTRATION_TYPE__ROUTINE_CONTROL \<longleftrightarrow> r \<in> {reg_sync_routine k, reg_async_routine k}"
    "reg_type r = UDS_REGISTRATION_TYPE__DATA_IDENTIFIER \<longleftrightarrow>
       r \<in> {reg_primitive k, reg_string k, reg_authenticated k, reg_led k, reg_secure k}"
  using assms by (auto simp: sample_static_defs sample_reg_defs single_reg_defs split: if_splits)

section \<open>Security access\<close>

lemma security_handlers_member:
  "handler_security_access_request_seed \<in> set uds_handlers" "handler_security_access_validate_key \<in> set uds_handlers"
  by (simp_all add: uds_handlers_def)

lemmas security_handler_simps = handler_security_access_request_seed_def handler_security_access_validate_key_def
  uds_get_check_for_security_access_request_seed_def uds_get_action_for_security_access_request_seed_def
  uds_get_check_for_security_access_validate_key_def uds_get_action_for_security_access_validate_key_def

lemma reg_security_access_member: "reg_security_access k \<in> set (sample_static link k)"
  by (simp add: sample_static_def sample_registrations_def)

lemma skip_not_security:
  assumes "sample_wf link k w" and "m < length (static_regs w)" and "static_regs w ! m \<noteq> reg_security_access k"
    and "h_registration_type h = UDS_REGISTRATION_TYPE__SECURITY_ACCESS"
  shows "skips ck ac i ev arg h w (Static m)"
  by (rule skip_other_type [OF assms(1-3)]) (simp add: assms(4) static_type_cases)

lemma seed_request_eq:
  fixes w :: "(sample_fn, 'c, 'f, 'fs, 'h, 'r, 'n, 'g, 'p) sample_world"
  assumes "sample_wf link k w"
  shows "server_event (Suc n) (sample_cfg ops board) i UDS_EVT_SecAccessRequestSeed (Arg_SecAccessRequestSeed l d) w =
    (if l = 1 then
       case sys_rand32_get ops (sm_platform (user w)) of (seed, p) \<Rightarrow>
         obind (call_copy (server_dddi_env board) Copy_lib (be32 seed)
             (upd_user (\<lambda>z. z\<lparr>sm_security := \<lparr>current_seed = seed, seed_requested = True\<rparr>, sm_platform := p\<rparr>) w))
           (\<lambda>r w'. Returns (r, Arg_SecAccessRequestSeed l d) w')
     else Returns (UDS_NRC_ConditionsNotCorrect, Arg_SecAccessRequestSeed l d) w)"
proof (cases "l = 1")
  case True
  let ?ctx = "ctx_for i 0 UDS_EVT_SecAccessRequestSeed (Arg_SecAccessRequestSeed l d)"
  from True show ?thesis
    by (subst sample_answers [OF assms security_handlers_member(1) _ reg_security_access_member skip_not_security [OF assms],
          where chk = "Returns (UDS_OK, True) w" and act = "security_access_request_seed_action (sys_rand32_get ops)
            (call_copy (server_dddi_env board)) ?ctx True w"])
      (auto simp: security_handler_simps reg_security_access_def single_reg_defs sample_cfg_def
        security_access_request_seed_check_def security_access_request_seed_action_def outcome_simps obind_assoc split: prod.splits)
next
  case False
  then show ?thesis
    by (subst sample_unapplied [OF assms security_handlers_member(1), where r = "reg_security_access k"
          and c = "Check_user Fn_security_access_request_seed_check"])
      (auto simp: security_handler_simps static_type_cases reg_security_access_def single_reg_defs sample_cfg_def
        security_access_request_seed_check_def)
qed

lemma key_request_eq:
  fixes w :: "(sample_fn, 'c, 'f, 'fs, 'h, 'r, 'n, 'g, 'p) sample_world"
  assumes "sample_wf link k w"
  shows "server_event (Suc n) (sample_cfg ops board) i UDS_EVT_SecAccessValidateKey (Arg_SecAccessValidateKey l key) w =
    (if l \<noteq> 1 then Returns (UDS_NRC_ConditionsNotCorrect, Arg_SecAccessValidateKey l key) w
     else if \<not> seed_requested (sm_security (user w))
     then Returns (UDS_NRC_RequestSequenceError, Arg_SecAccessValidateKey l key) w
     else if length key \<noteq> 4
     then Returns (UDS_NRC_IncorrectMessageLengthOrInvalidFormat, Arg_SecAccessValidateKey l key) w
     else Returns (if of_be32 key = Some (NOT (current_seed (sm_security (user w)))) then UDS_PositiveResponse else UDS_NRC_InvalidKey,
         Arg_SecAccessValidateKey l key) (upd_user (\<lambda>z. z\<lparr>sm_security := (sm_security z)\<lparr>seed_requested := False\<rparr>\<rparr>) w))"
proof (cases "l = 1")
  case True
  let ?ctx = "ctx_for i 0 UDS_EVT_SecAccessValidateKey (Arg_SecAccessValidateKey l key)"
  from True show ?thesis
    by (subst sample_answers [OF assms security_handlers_member(2) _ reg_security_access_member skip_not_security [OF assms],
          where chk = "Returns (UDS_OK, True) w" and act = "security_access_validate_key_action ?ctx True w"])
      (auto simp: security_handler_simps reg_security_access_def single_reg_defs sample_cfg_def Let_def
        security_access_validate_key_check_def security_access_validate_key_action_def split: if_splits)
next
  case False
  then show ?thesis
    by (subst sample_unapplied [OF assms security_handlers_member(2), where r = "reg_security_access k"
          and c = "Check_user Fn_security_access_validate_key_check"])
      (auto simp: security_handler_simps static_type_cases reg_security_access_def single_reg_defs sample_cfg_def
        security_access_validate_key_check_def)
qed

lemma wrong_security_argument:
  assumes "sample_wf link k w"
  shows "\<forall>l d. arg \<noteq> Arg_SecAccessRequestSeed l d \<Longrightarrow>
      server_event (Suc n) (sample_cfg ops board) i UDS_EVT_SecAccessRequestSeed arg w = Undefined"
    "\<forall>l d. arg \<noteq> Arg_SecAccessValidateKey l d \<Longrightarrow>
      server_event (Suc n) (sample_cfg ops board) i UDS_EVT_SecAccessValidateKey arg w = Undefined"
proof -
  have seed: "security_access_request_seed_check (ctx_for i m ev arg) False w = Undefined"
    if "\<forall>l d. arg \<noteq> Arg_SecAccessRequestSeed l d" for m ev
    using that by (cases arg) (simp_all add: security_access_request_seed_check_def)
  have key: "security_access_validate_key_check (ctx_for i m ev arg) False w = Undefined"
    "security_access_validate_key_action (ctx_for i m ev arg) True w = Undefined"
    if "\<forall>l d. arg \<noteq> Arg_SecAccessValidateKey l d" for m ev
    using that by (cases arg; simp add: security_access_validate_key_check_def security_access_validate_key_action_def)+
  show "server_event (Suc n) (sample_cfg ops board) i UDS_EVT_SecAccessRequestSeed arg w = Undefined"
    if "\<forall>l d. arg \<noteq> Arg_SecAccessRequestSeed l d"
    by (subst sample_answers [OF assms security_handlers_member(1) _ reg_security_access_member skip_not_security [OF assms],
          where chk = Undefined and act = "security_access_request_seed_action (sys_rand32_get ops)
            (call_copy (server_dddi_env board)) (ctx_for i 0 UDS_EVT_SecAccessRequestSeed arg) True w"])
      (auto simp: security_handler_simps reg_security_access_def single_reg_defs sample_cfg_def outcome_simps
        seed [OF that] security_access_request_seed_action_def split: prod.splits)
  show "server_event (Suc n) (sample_cfg ops board) i UDS_EVT_SecAccessValidateKey arg w = Undefined"
    if "\<forall>l d. arg \<noteq> Arg_SecAccessValidateKey l d"
    by (subst sample_answers [OF assms security_handlers_member(2) _ reg_security_access_member skip_not_security [OF assms],
          where chk = Undefined and act = Undefined])
      (auto simp: security_handler_simps reg_security_access_def single_reg_defs sample_cfg_def key [OF that])
qed

text \<open>
  Requests for a seed of level 1, and keys of four bytes for it. The handler refuses a key of another length
  before it looks at it, and such a key leaves the seed as it is.
\<close>

definition asks_seed :: "sample_event \<Rightarrow> bool" where
  "asks_seed e \<longleftrightarrow> (case e of Request _ UDS_EVT_SecAccessRequestSeed (Arg_SecAccessRequestSeed l _) _ \<Rightarrow> l = 1 | _ \<Rightarrow> False)"

definition tries_key :: "sample_event \<Rightarrow> bool" where
  "tries_key e \<longleftrightarrow>
     (case e of Request _ UDS_EVT_SecAccessValidateKey (Arg_SecAccessValidateKey l key) _ \<Rightarrow> l = 1 \<and> length key = 4 | _ \<Rightarrow> False)"

lemma changes_security:
  "changes u z z' \<Longrightarrow> u \<notin> {Fn_security_access_request_seed_action, Fn_security_access_validate_key_action} \<Longrightarrow>
   sm_security z' = sm_security z"
  by (cases u) (auto dest: arg_cong [where f = sm_security])

lemma set_level_simps [simp]:
  "user (set_level i v w) = user w" "srv_transfer (env (set_level i v w)) = srv_transfer (env w)"
  "srv_securityLevel (env (set_level i v w)) = (srv_securityLevel (env w))(i := v)"
  by (simp_all add: set_level_def put_env_def)

lemma upd_led_simps [simp]:
  "user (upd_led f w) = (user w)\<lparr>sm_led := f (sm_led (user w))\<rparr>" "srv_transfer (env (upd_led f w)) = srv_transfer (env w)"
  "srv_securityLevel (env (upd_led f w)) = srv_securityLevel (env w)"
  by (simp_all add: upd_led_def)

text \<open>What one step does to the state of the security access.\<close>

lemma seed_step:
  assumes "server_event (Suc n) (sample_cfg ops board) i UDS_EVT_SecAccessRequestSeed arg w = Returns (r, arg') w'" and "sample_wf link k w"
  shows "sample_wf link k w' \<and> srv_securityLevel (env w') = srv_securityLevel (env w) \<and>
    (if asks_seed (Request i UDS_EVT_SecAccessRequestSeed arg r)
     then seed_requested (sm_security (user w')) \<and> tw_resp (srv_transfer (env w')) =
       snd (sc_copy board (be32 (current_seed (sm_security (user w')))) (tw_resp (srv_transfer (env w))))
     else sm_security (user w') = sm_security (user w))"
proof -
  obtain l d where arg: "arg = Arg_SecAccessRequestSeed l d"
    using wrong_security_argument(1) [OF assms(2)] assms(1) by (metis outcome.distinct(3))
  show ?thesis
    using assms unfolding arg seed_request_eq [OF assms(2)]
    by (auto simp: asks_seed_def outcome_simps call_copy_def server_dddi_env_def sample_wf_def upd_user_def put_env_def
        split: if_splits prod.splits)
qed

lemma key_step:
  assumes "server_event (Suc n) (sample_cfg ops board) i UDS_EVT_SecAccessValidateKey arg w = Returns (r, arg') w'" and "sample_wf link k w"
  shows "sample_wf link k w' \<and> srv_securityLevel (env w') = srv_securityLevel (env w) \<and>
    (if tries_key (Request i UDS_EVT_SecAccessValidateKey arg r) then \<not> seed_requested (sm_security (user w'))
     else sm_security (user w') = sm_security (user w)) \<and>
    (r = UDS_PositiveResponse \<longrightarrow> seed_requested (sm_security (user w)) \<and>
      (\<exists>key. arg = Arg_SecAccessValidateKey 1 key \<and> length key = 4 \<and> of_be32 key = Some (NOT (current_seed (sm_security (user w))))))"
proof -
  obtain l key where arg: "arg = Arg_SecAccessValidateKey l key"
    using wrong_security_argument(2) [OF assms(2)] assms(1) by (metis outcome.distinct(3))
  show ?thesis
    using assms unfolding arg key_request_eq [OF assms(2)]
    by (auto simp: tries_key_def split: if_splits)
qed

lemma other_step:
  assumes "server_event (Suc n) (sample_cfg ops board) i ev arg w = Returns (r, arg') w'" and "sample_wf link k w"
    and "ev \<notin> {UDS_EVT_SecAccessRequestSeed, UDS_EVT_SecAccessValidateKey}"
  shows "sample_wf link k w' \<and> sm_security (user w') = sm_security (user w) \<and>
    srv_securityLevel (env w') = srv_securityLevel (env w) \<and> \<not> asks_seed (Request i ev arg r) \<and> \<not> tries_key (Request i ev arg r)"
proof -
  have "sample_wf link k w' \<and> sm_security (user w') = sm_security (user w) \<and> srv_securityLevel (env w') = srv_securityLevel (env w)"
    by (rule request_keeps_part [OF _ assms(2,1)]) (use assms(3) in \<open>auto elim!: changes_security\<close>)
  then show ?thesis using assms(3) by (auto simp: asks_seed_def tries_key_def split: UDSEvent_t.splits)
qed

text \<open>The background steps leave it alone, and are neither of the two requests.\<close>

lemma background_step:
  "sample_step cfg led level_after w Background w' \<Longrightarrow> sample_wf link k w \<Longrightarrow>
   sample_wf link k w' \<and> sm_security (user w') = sm_security (user w) \<and> sm_auth (user w') = sm_auth (user w) \<and>
   srv_securityLevel (env w') = srv_securityLevel (env w)"
  by (auto elim!: sample_stepE)

lemma security_step:
  fixes w w' :: "(sample_fn, 'c, 'f, 'fs, 'h, 'r, 'n, 'g, 'p) sample_world"
  assumes "sample_step (sample_cfg ops board) led level_after w e w'" and "sample_wf link k w"
  shows "sample_wf link k w' \<and> (\<not> asks_seed e \<longrightarrow> \<not> tries_key e \<longrightarrow> sm_security (user w') = sm_security (user w)) \<and>
    (asks_seed e \<longrightarrow> seed_requested (sm_security (user w')) \<and>
      tw_resp (srv_transfer (env w')) = snd (sc_copy board (be32 (current_seed (sm_security (user w')))) (tw_resp (srv_transfer (env w))))) \<and>
    (tries_key e \<longrightarrow> \<not> seed_requested (sm_security (user w')))"
proof (cases e)
  case (Request i ev arg r)
  with assms(1) obtain n arg' w1 where ev: "server_event (Suc n) (sample_cfg ops board) i ev arg w = Returns (r, arg') w1"
    and w': "w' = set_level i (level_after ev arg r (srv_securityLevel (env w1) i)) w1"
    by (auto elim: sample_stepE)
  consider "ev = UDS_EVT_SecAccessRequestSeed" | "ev = UDS_EVT_SecAccessValidateKey"
    | "ev \<notin> {UDS_EVT_SecAccessRequestSeed, UDS_EVT_SecAccessValidateKey}" by blast
  then show ?thesis
  proof cases
    case 1
    then show ?thesis using seed_step [OF ev [unfolded 1] assms(2)]
      by (auto simp: w' Request tries_key_def split: if_splits)
  next
    case 2
    then show ?thesis using key_step [OF ev [unfolded 2] assms(2)]
      by (auto simp: w' Request asks_seed_def split: if_splits)
  next
    case 3
    then show ?thesis using other_step [OF ev assms(2)] by (auto simp: w' Request)
  qed
next
  case Background
  then show ?thesis using background_step assms by (fastforce simp: asks_seed_def tries_key_def)
qed

lemma sample_run_wf:
  "sample_run (sample_cfg ops board) led level_after w0 tr w \<Longrightarrow> sample_wf link k w0 \<Longrightarrow> sample_wf link k w"
  by (induction rule: sample_run.induct) (auto dest: security_step)

text \<open>
  A seed that is outstanding after a run: the run has a request for a seed, whose answer carried it, and since
  then neither another seed was asked for nor a key of four bytes tried.
\<close>

definition seed_outstanding where
  "seed_outstanding ops board led level_after w0 tr w seed \<longleftrightarrow>
     (\<exists>tr2 e tr1 w1 w2. tr = tr2 @ e # tr1 \<and> sample_run (sample_cfg ops board) led level_after w0 tr1 w1 \<and>
        asks_seed e \<and> sample_step (sample_cfg ops board) led level_after w1 e w2 \<and>
        tw_resp (srv_transfer (env w2)) = snd (sc_copy board (be32 seed) (tw_resp (srv_transfer (env w1)))) \<and>
        sample_run (sample_cfg ops board) led level_after w2 tr2 w \<and> (\<forall>e' \<in> set tr2. \<not> asks_seed e' \<and> \<not> tries_key e'))"

lemma seed_outstanding_start:
  assumes "sample_run (sample_cfg ops board) led level_after w0 tr w" and "sample_wf link k w"
    and "sample_step (sample_cfg ops board) led level_after w e w'" and "asks_seed e"
  shows "seed_outstanding ops board led level_after w0 (e # tr) w' (current_seed (sm_security (user w')))"
  unfolding seed_outstanding_def
  using assms security_step [OF assms(3,2)] sample_start [of "sample_cfg ops board" led level_after w']
  by (intro exI [of _ "[]"] exI [of _ e] exI [of _ tr] exI [of _ w] exI [of _ w']) auto

lemma seed_outstanding_more:
  assumes "seed_outstanding ops board led level_after w0 tr w seed"
    and "sample_step (sample_cfg ops board) led level_after w e w'" and "\<not> asks_seed e" and "\<not> tries_key e"
  shows "seed_outstanding ops board led level_after w0 (e # tr) w' seed"
proof -
  obtain tr2 e0 tr1 w1 w2 where run: "tr = tr2 @ e0 # tr1" "sample_run (sample_cfg ops board) led level_after w0 tr1 w1" "asks_seed e0"
    "sample_step (sample_cfg ops board) led level_after w1 e0 w2"
    "tw_resp (srv_transfer (env w2)) = snd (sc_copy board (be32 seed) (tw_resp (srv_transfer (env w1))))"
    "sample_run (sample_cfg ops board) led level_after w2 tr2 w" "\<forall>e' \<in> set tr2. \<not> asks_seed e' \<and> \<not> tries_key e'"
    using assms(1) unfolding seed_outstanding_def by blast
  have "sample_run (sample_cfg ops board) led level_after w2 (e # tr2) w'" by (rule sample_more [OF run(6) assms(2)])
  then show ?thesis
    unfolding seed_outstanding_def using run assms(3,4)
    by (intro exI [of _ "e # tr2"] exI [of _ e0] exI [of _ tr1] exI [of _ w1] exI [of _ w2]) auto
qed

lemma requested_seed_outstanding:
  assumes "sample_run (sample_cfg ops board) led level_after w0 tr w" and "sample_wf link k w0"
    and "\<not> seed_requested (sm_security (user w0))" and "seed_requested (sm_security (user w))"
  shows "seed_outstanding ops board led level_after w0 tr w (current_seed (sm_security (user w)))"
  using assms(1,4)
proof (induction rule: sample_run.induct)
  case sample_start
  then show ?case using assms(3) by simp
next
  case (sample_more tr w e w')
  have wf: "sample_wf link k w" by (rule sample_run_wf [OF sample_more(1) assms(2)])
  note step = security_step [OF sample_more(2) wf]
  show ?case
  proof (cases "asks_seed e")
    case True
    then show ?thesis by (rule seed_outstanding_start [OF sample_more(1) wf sample_more(2)])
  next
    case False
    with step sample_more(4) have "\<not> tries_key e" "sm_security (user w') = sm_security (user w)" by auto
    then show ?thesis
      using sample_more(3,4) seed_outstanding_more [OF _ sample_more(2) False] by auto
  qed
qed

text \<open>
  The documented behaviour of the package: it raises the security level of a server only when a key was
  answered positively.
\<close>

definition level_rises_by_key :: "level_sem \<Rightarrow> bool" where
  "level_rises_by_key level_after \<longleftrightarrow>
     (\<forall>ev arg r l. level_after ev arg r l \<noteq> 0 \<longrightarrow> l \<noteq> 0 \<or> ev = UDS_EVT_SecAccessValidateKey \<and> r = UDS_PositiveResponse)"

text \<open>
  A server of the sample that is unlocked was unlocked by the key of a seed: in every run from a state
  without seed and with security level 0, if the level of an instance is not 0, then the run has a key,
  sent to this instance and answered positively, that is the complement of a seed that was outstanding
  then: the server had sent this seed, and since then had not been asked for another seed, nor been
  sent another key of four bytes.
\<close>

theorem unlocked_by_key_of_seed:
  fixes w0 w :: "(sample_fn, 'c, 'f, 'fs, 'h, 'r, 'n, 'g, 'p) sample_world"
  assumes "sample_run (sample_cfg ops board) led level_after w0 tr w" and "level_rises_by_key level_after"
    and "sample_wf link k w0" and "\<not> seed_requested (sm_security (user w0))" and "srv_securityLevel (env w0) i = 0"
    and "srv_securityLevel (env w) i \<noteq> 0"
  shows "\<exists>tr2 tr1 w1 seed key.
    tr = tr2 @ Request i UDS_EVT_SecAccessValidateKey (Arg_SecAccessValidateKey 1 key) UDS_PositiveResponse # tr1 \<and>
    sample_run (sample_cfg ops board) led level_after w0 tr1 w1 \<and>
    seed_outstanding ops board led level_after w0 tr1 w1 seed \<and> key = be32 (NOT seed)"
  using assms(1,6)
proof (induction rule: sample_run.induct)
  case sample_start
  then show ?case using assms(5) by simp
next
  case (sample_more tr w e w')
  have wf: "sample_wf link k w" by (rule sample_run_wf [OF sample_more(1) assms(3)])
  show ?case
  proof (cases "srv_securityLevel (env w) i = 0")
    case False
    from sample_more(3) [OF False] obtain tr2 tr1 w1 seed key where
      "tr = tr2 @ Request i UDS_EVT_SecAccessValidateKey (Arg_SecAccessValidateKey 1 key) UDS_PositiveResponse # tr1"
      "sample_run (sample_cfg ops board) led level_after w0 tr1 w1" "seed_outstanding ops board led level_after w0 tr1 w1 seed"
      "key = be32 (NOT seed)" by blast
    then show ?thesis
      by (intro exI [of _ "e # tr2"] exI [of _ tr1] exI [of _ w1] exI [of _ seed] exI [of _ key]) simp
  next
    case True
    from sample_more(2) show ?thesis
    proof cases
      case (request n j ev arg r arg' w1)
      have same: "srv_securityLevel (env w1) = srv_securityLevel (env w)"
        using seed_step [OF _ wf] key_step [OF _ wf] other_step [OF request(3) wf] request(3) by blast
      have i: "i = j" "ev = UDS_EVT_SecAccessValidateKey" "r = UDS_PositiveResponse"
        using assms(2) sample_more(4) True same unfolding request(2) level_rises_by_key_def by (auto split: if_splits)
      from key_step [OF request(3) [unfolded i(2)] wf] i(3) obtain key where
        req: "seed_requested (sm_security (user w))" and key: "arg = Arg_SecAccessValidateKey 1 key" "length key = 4"
        "of_be32 key = Some (NOT (current_seed (sm_security (user w))))" by auto
      have "seed_outstanding ops board led level_after w0 tr w (current_seed (sm_security (user w)))"
        by (rule requested_seed_outstanding [OF sample_more(1) assms(3,4) req])
      moreover have "key = be32 (NOT (current_seed (sm_security (user w))))"
        by (rule be32_of_be32 [OF key(2,3)])
      ultimately show ?thesis
        using sample_more(1) i key(1) unfolding request(1)
        by (intro exI [of _ "[]"] exI [of _ tr] exI [of _ w] exI [of _ "current_seed (sm_security (user w))"] exI [of _ key]) simp
    qed (use sample_more(4) True in auto)
  qed
qed

text \<open>Two keys that are accepted have a request for a seed between them.\<close>

lemma sample_run_append:
  assumes "sample_run cfg led level_after w0 (tr2 @ tr1) w"
  shows "\<exists>w1. sample_run cfg led level_after w0 tr1 w1 \<and> sample_run cfg led level_after w1 tr2 w"
  using assms
proof (induction tr2 arbitrary: w)
  case Nil
  then show ?case using sample_start by fastforce
next
  case (Cons e tr2)
  from Cons.prems obtain w2 where "sample_run cfg led level_after w0 (tr2 @ tr1) w2" "sample_step cfg led level_after w2 e w"
    by (auto elim: sample_run.cases)
  then show ?case using Cons.IH sample_more by blast
qed

lemma no_seed_without_request:
  assumes "sample_run (sample_cfg ops board) led level_after w tr w'" and "sample_wf link k w"
    and "\<not> seed_requested (sm_security (user w))" and "\<forall>e \<in> set tr. \<not> asks_seed e"
  shows "\<not> seed_requested (sm_security (user w'))"
  using assms(1,4)
proof (induction rule: sample_run.induct)
  case sample_start
  show ?case by (rule assms(3))
next
  case (sample_more tr w1 e w2)
  then have "\<not> seed_requested (sm_security (user w1))" "\<not> asks_seed e" by simp_all
  then show ?case using security_step [OF sample_more(2) sample_run_wf [OF sample_more(1) assms(2)]] by auto
qed

lemma accepted_key_step:
  fixes w w' :: "(sample_fn, 'c, 'f, 'fs, 'h, 'r, 'n, 'g, 'p) sample_world"
  assumes "sample_step (sample_cfg ops board) led level_after w (Request i UDS_EVT_SecAccessValidateKey arg UDS_PositiveResponse) w'"
    and "sample_wf link k w"
  shows "seed_requested (sm_security (user w)) \<and> \<not> seed_requested (sm_security (user w'))"
proof -
  from assms(1) obtain n arg' w1 where
    ev: "server_event (Suc n) (sample_cfg ops board) i UDS_EVT_SecAccessValidateKey arg w = Returns (UDS_PositiveResponse, arg') w1"
    by (auto elim: sample_stepE)
  then have "seed_requested (sm_security (user w))" "tries_key (Request i UDS_EVT_SecAccessValidateKey arg UDS_PositiveResponse)"
    using key_step [OF ev assms(2)] by (auto simp: tries_key_def)
  then show ?thesis using security_step [OF assms] by simp
qed

lemma accepted_keys_apart:
  fixes w0 w :: "(sample_fn, 'c, 'f, 'fs, 'h, 'r, 'n, 'g, 'p) sample_world"
  assumes "sample_run (sample_cfg ops board) led level_after w0 tr w" and "sample_wf link k w0"
    and "tr = tr3 @ Request i UDS_EVT_SecAccessValidateKey a UDS_PositiveResponse # tr2 @
      Request j UDS_EVT_SecAccessValidateKey b UDS_PositiveResponse # tr1"
  shows "\<exists>e \<in> set tr2. asks_seed e"
proof (rule ccontr)
  assume none: "\<not> (\<exists>e \<in> set tr2. asks_seed e)"
  let ?ea = "Request i UDS_EVT_SecAccessValidateKey a UDS_PositiveResponse"
  let ?eb = "Request j UDS_EVT_SecAccessValidateKey b UDS_PositiveResponse"
  from sample_run_append [OF assms(1) [unfolded assms(3)]] obtain w1 where
    "sample_run (sample_cfg ops board) led level_after w0 (?ea # tr2 @ ?eb # tr1) w1" by blast
  then obtain w2 where r2: "sample_run (sample_cfg ops board) led level_after w0 (tr2 @ ?eb # tr1) w2"
    and sa: "sample_step (sample_cfg ops board) led level_after w2 ?ea w1" by (auto elim: sample_run.cases)
  from sample_run_append [OF r2] obtain w3 where r3: "sample_run (sample_cfg ops board) led level_after w0 (?eb # tr1) w3"
    and mid: "sample_run (sample_cfg ops board) led level_after w3 tr2 w2" by blast
  from r3 obtain w4 where r4: "sample_run (sample_cfg ops board) led level_after w0 tr1 w4"
    and sb: "sample_step (sample_cfg ops board) led level_after w4 ?eb w3" by (auto elim: sample_run.cases)
  have "\<not> seed_requested (sm_security (user w3))"
    using accepted_key_step [OF sb sample_run_wf [OF r4 assms(2)]] by simp
  then have "\<not> seed_requested (sm_security (user w2))"
    using no_seed_without_request [OF mid sample_run_wf [OF r3 assms(2)]] none by blast
  then show False using accepted_key_step [OF sa sample_run_wf [OF r2 assms(2)]] by simp
qed

end
