(* ===== verification/Sample_Access.thy ===== *)
theory Sample_Access
  imports Sample_Correct
begin

text \<open>
  Access to the data of the UDS sample: reading and writing its identifiers through the server, and what
  has to go before a read of the protected identifiers is answered.
\<close>

section \<open>Data identifiers\<close>

lemma data_reg_ids:
  "reg_data (reg_primitive k) = Reg_data_identifier (Some PRIMITIVE_TYPE_SIZE) (Some PRIMITIVE_TYPE) primitive_type_id
     \<lparr>act_check = Some (Check_user Fn_read_data_by_id_check), act_action = Some (Action_user Fn_read_data_by_id_action)\<rparr>
     \<lparr>act_check = Some (Check_user Fn_write_primitive_data_by_id_check), act_action = Some (Action_user Fn_write_primitive_data_by_id_action)\<rparr>
     \<lparr>act_check = None, act_action = None\<rparr>"
  "reg_data (reg_string k) = Reg_data_identifier (Some STRING_SIZE) (Some STRING) string_id
     \<lparr>act_check = Some (Check_user Fn_read_data_by_id_check), act_action = Some (Action_user Fn_read_data_by_id_action)\<rparr>
     \<lparr>act_check = None, act_action = None\<rparr> \<lparr>act_check = None, act_action = None\<rparr>"
  "reg_data (reg_authenticated k) = Reg_data_identifier (Some AUTHENTICATED_TYPE_SIZE) (Some AUTHENTICATED_TYPE) authenticated_type_id
     \<lparr>act_check = Some (Check_user Fn_read_data_by_id_check), act_action = Some (Action_user Fn_read_data_by_id_action)\<rparr>
     \<lparr>act_check = None, act_action = None\<rparr> \<lparr>act_check = None, act_action = None\<rparr>"
  "reg_data (reg_led k) = Reg_data_identifier (Some LED_DATA) (Some LED_STATE) led_id
     \<lparr>act_check = Some (Check_user Fn_read_led_check), act_action = Some (Action_user Fn_read_led_action)\<rparr>
     \<lparr>act_check = Some (Check_user Fn_write_led_check), act_action = Some (Action_user Fn_write_led_action)\<rparr>
     \<lparr>act_check = Some (Check_user Fn_io_ctrl_led_check), act_action = Some (Action_user Fn_io_ctrl_led_action)\<rparr>"
  "reg_data (reg_secure k) = Reg_data_identifier (Some SECURE_DATA_SIZE) (Some SECURE_DATA) secure_data_id
     \<lparr>act_check = Some (Check_user Fn_read_secure_data_check), act_action = Some (Action_user Fn_read_secure_data_action)\<rparr>
     \<lparr>act_check = None, act_action = None\<rparr> \<lparr>act_check = None, act_action = None\<rparr>"
  by (simp_all add: sample_reg_defs single_reg_defs)

definition data_regs :: "inst \<Rightarrow> sample_fn uds_registration_t set" where
  "data_regs k = {reg_primitive k, reg_string k, reg_authenticated k, reg_led k, reg_secure k}"

lemma data_regs_member: "r \<in> data_regs k \<Longrightarrow> r \<in> set (sample_static link k)"
  by (auto simp: data_regs_def sample_static_def sample_registrations_def)

lemma data_regs_other:
  assumes "r \<in> data_regs k" and "r' \<in> data_regs k" and "r \<noteq> r'"
  shows "di_data_id (reg_data r) \<noteq> di_data_id (reg_data r')"
  using assms by (auto simp: data_regs_def data_reg_ids data_id_defs)

text \<open>The three handler entries for data identifiers, and the filter of each.\<close>

definition data_handlers :: "(sample_fn uds_event_handler_data \<times> sample_fn check_fn) set" where
  "data_handlers = {(handler_read_data_by_identifier, Fn_check_read_with_data_id),
     (handler_write_data_by_identifier, Fn_check_write_with_data_id),
     (handler_io_control_by_identifier, Fn_check_io_control_with_data_id)}"

lemma data_handlers_facts:
  assumes "(h, f) \<in> data_handlers"
  shows "h \<in> set uds_handlers" "h_registration_type h = UDS_REGISTRATION_TYPE__DATA_IDENTIFIER" "h_get_check h r = Some f"
  using assms by (auto simp: data_handlers_def uds_handlers_def handler_read_data_by_identifier_def
      handler_write_data_by_identifier_def handler_io_control_by_identifier_def selector_defs)

lemma skip_identifier:
  assumes wf: "sample_wf link k w" and m: "m < length (static_regs w)"
    and h: "(h, f) \<in> data_handlers" and arg: "args_data_id arg = Some did"
    and other: "static_regs w ! m \<in> data_regs k \<Longrightarrow> did \<noteq> di_data_id (reg_data (static_regs w ! m))"
  shows "skips (run_check (Suc n) cfg) ac i ev arg h w (Static m)"
proof (cases "reg_type (static_regs w ! m) = UDS_REGISTRATION_TYPE__DATA_IDENTIFIER")
  case False
  then show ?thesis using skips_type [OF deref_static [OF m]] data_handlers_facts(2) [OF h] by metis
next
  case True
  have "static_regs w ! m \<in> set (sample_static link k)" using wf m nth_mem by (auto simp: sample_wf_def)
  with True have "static_regs w ! m \<in> data_regs k" by (simp add: static_type_cases data_regs_def)
  note other = other [OF this]
  obtain u d j rd wr io where reg: "reg_data (static_regs w ! m) = Reg_data_identifier u d j rd wr io"
    using True by (cases "reg_data (static_regs w ! m)") auto
  let ?ctx = "ctx_for i m ev arg"
  have "run_check (Suc n) cfg f ?ctx False w = Returns (UDS_OK, False) w"
    using h check_read_other_id [of w ?ctx "static_regs w ! m" u d j rd wr io did "run_check n cfg" False]
      reg other arg m by (auto simp: data_handlers_def)
  then show ?thesis using skips_check_false [OF deref_static [OF m] data_handlers_facts(3) [OF h]] by blast
qed

lemma skip_other_identifier:
  assumes "sample_wf link k w" and "m < length (static_regs w)" and "static_regs w ! m \<noteq> r"
    and "(h, f) \<in> data_handlers" and "r \<in> data_regs k" and "args_data_id arg = Some (di_data_id (reg_data r))"
  shows "skips (run_check (Suc n) cfg) ac i ev arg h w (Static m)"
  using skip_identifier [OF assms(1,2,4,6)] data_regs_other [OF assms(5)] assms(3) by metis

text \<open>An identifier that no registration has, and an argument without one.\<close>

lemma unknown_identifier:
  assumes "sample_wf link k w" and "(h, f) \<in> data_handlers" and "h_event h = ev" and "args_data_id arg = Some did"
    and "did \<notin> (di_data_id \<circ> reg_data) ` data_regs k"
  shows "server_event (Suc n) (sample_cfg ops board) i ev arg w = Returns (h_default_nrc h, arg) w"
proof -
  have "server_event (Suc n) (sample_cfg ops board) i (h_event h) arg w = Returns (h_default_nrc h, arg) w"
  proof (rule server_event_default [OF sample_uds_wf [OF assms(1)] _ data_handlers_facts(1) [OF assms(2)]])
    show "length (dyn_regs w i) \<le> Suc n" using assms(1) by (simp add: sample_wf_def)
    fix ref r assume "deref_reg w ref = Some r"
    then obtain m where m: "m < length (static_regs w)" "ref = Static m" using sample_wf_static [OF assms(1)] by blast
    show "skips (run_check (Suc n) (sample_cfg ops board)) (run_action (Suc n) (sample_cfg ops board)) i (h_event h) arg h w ref"
      unfolding m(2) by (rule skip_identifier [OF assms(1) m(1) assms(2,4)]) (use assms(5) in auto)
  qed
  then show ?thesis by (simp add: assms(3))
qed

lemma no_identifier:
  assumes wf: "sample_wf link k w" and h: "(h, f) \<in> data_handlers" "h_event h = ev" and arg: "args_data_id arg = None"
  shows "server_event (Suc n) (sample_cfg ops board) i ev arg w = Undefined"
proof -
  let ?data = "\<lambda>m. m < length (static_regs w) \<and> reg_type (static_regs w ! m) = UDS_REGISTRATION_TYPE__DATA_IDENTIFIER"
  have "reg_string k \<in> set (static_regs w)" using wf data_regs_member [of "reg_string k"] by (auto simp: sample_wf_def data_regs_def)
  then obtain m where m: "?data m" by (auto simp: in_set_conv_nth data_reg_ids intro: that)
  define m0 where "m0 = (LEAST m. ?data m)"
  have m0: "?data m0" "\<And>m. m < m0 \<Longrightarrow> \<not> ?data m"
    unfolding m0_def by (rule LeastI [of ?data, OF m], rule not_less_Least)
  obtain u d j rd wr io where reg: "reg_data (static_regs w ! m0) = Reg_data_identifier u d j rd wr io"
    using m0(1) by (cases "reg_data (static_regs w ! m0)") auto
  have skip: "\<forall>m < m0. skips (run_check (Suc n) (sample_cfg ops board)) (run_action (Suc n) (sample_cfg ops board)) i (h_event h) arg h w (Static m)"
    using m0 data_handlers_facts(2) [OF h(1)] by (auto intro!: skips_type [OF deref_static])
  have "run_check (Suc n) (sample_cfg ops board) f (ctx_for i m0 (h_event h) arg) False w = Undefined"
    using h(1) m0(1) arg by (auto simp: data_handlers_def filter_check_defs)
  then show ?thesis
    unfolding h(2) [symmetric] server_event_handler [OF data_handlers_facts(1) [OF h(1)]] uds_handle_event_def
    using handle_static_at [OF conjunct1 [OF m0(1)] skip] m0(1) data_handlers_facts(2,3) [OF h(1)]
    by (simp add: uds_check_and_act_on_event_def del: run_check.simps run_action.simps)
qed

text \<open>The answer for an identifier: that of the check of its registration, or of its action.\<close>

lemma identifier_answers:
  fixes w :: "(sample_fn, 'c, 'f, 'fs, 'h, 'r, 'n, 'g, 'p) sample_world"
    and ops :: "('g, 'p, 'k, 'r) sample_ops" and board
  defines "cfg \<equiv> sample_cfg ops board" and "copy \<equiv> call_copy (server_dddi_env board)"
  assumes wf: "sample_wf link k w" and h: "(h, f) \<in> data_handlers" "h_event h = ev"
    and r: "r \<in> data_regs k" "args_data_id arg = Some (di_data_id (reg_data r))" "h_get_action h r = Some (Action_user a)"
    and check: "\<And>m. m < length (static_regs w) \<Longrightarrow> static_regs w ! m = r \<Longrightarrow>
      run_check (Suc n) cfg f (ctx_for i m ev arg) False w = chk"
    and action: "\<And>m. m < length (static_regs w) \<Longrightarrow> static_regs w ! m = r \<Longrightarrow>
      sample_action ops copy a (ctx_for i m ev arg) True w = act"
    and applies: "\<And>ret ap w1. chk = Returns (ret, ap) w1 \<Longrightarrow> ret \<noteq> UDS_OK \<or> ap"
    and consumes: "\<And>ret c' arg' w'. act = Returns (ret, c', arg') w' \<Longrightarrow> c' \<or> ret \<noteq> UDS_OK"
  shows "server_event (Suc n) cfg i ev arg w =
    obind chk (\<lambda>(ret, ap) w1. if ret \<noteq> UDS_OK then Returns (ret, arg) w
      else obind act (\<lambda>(ret, c', arg') w'. Returns (ret, arg') w'))"
  unfolding cfg_def
proof (rule sample_answers [OF wf data_handlers_facts(1) [OF h(1)] h(2) data_regs_member [OF r(1)]])
  show "h_get_check h r = Some f" by (rule data_handlers_facts(3) [OF h(1)])
  show "reg_type r = h_registration_type h"
    using r(1) data_handlers_facts(2) [OF h(1)] by (auto simp: data_regs_def data_reg_ids)
  show "h_get_action h r = Some (Action_user a)" by (rule r(3))
qed (use skip_other_identifier [OF wf _ _ h(1) r(1,2)] check action applies consumes in \<open>auto simp: cfg_def copy_def\<close>)

lemmas read_handler_simps = handler_read_data_by_identifier_def uds_get_action_for_read_data_by_identifier_def
  uds_check_read_with_data_id_def
lemmas write_handler_simps = handler_write_data_by_identifier_def uds_get_action_for_write_data_by_identifier_def
  uds_check_write_with_data_id_def
lemmas io_handler_simps = handler_io_control_by_identifier_def uds_get_action_for_io_control_by_identifier_def
  uds_check_io_control_with_data_id_def

text \<open>The answer of a check behind the filter for identifiers, which takes one more unit of fuel.\<close>

abbreviation filtered :: "nat \<Rightarrow> 'w \<Rightarrow> (UDSErr_t \<times> bool, 'w) outcome" where
  "filtered n w \<equiv> (if n = 0 then NoFuel else Returns (UDS_OK, True) w)"

lemma run_check_user: "run_check n (sample_cfg ops board) (Check_user u) ctx b w = (if n = 0 then NoFuel else sample_check u ctx b w)"
  by (cases n) (simp_all add: sample_cfg_def)

lemma read_primitive_eq:
  assumes "sample_wf link k w"
  shows "server_event (Suc (Suc n)) (sample_cfg ops board) i UDS_EVT_ReadDataByIdent (Arg_RDBI primitive_type_id c) w =
    obind (call_copy (server_dddi_env board) c (be16 (primitive_type (user w))) w)
      (\<lambda>r w'. Returns (r, Arg_RDBI primitive_type_id c) w')"
proof -
  let ?arg = "Arg_RDBI primitive_type_id c"
  have "server_event (Suc (Suc n)) (sample_cfg ops board) i UDS_EVT_ReadDataByIdent ?arg w =
    obind (Returns (UDS_OK, True) w) (\<lambda>(ret, ap) w1. if ret \<noteq> UDS_OK then Returns (ret, ?arg) w
      else obind (obind (call_copy (server_dddi_env board) c (be16 (primitive_type (user w))) w)
        (\<lambda>r w'. Returns (r, True, ?arg) w')) (\<lambda>(ret, c', arg') w'. Returns (ret, arg') w'))"
    by (rule identifier_answers [OF assms, where r = "reg_primitive k" and h = handler_read_data_by_identifier
          and f = Fn_check_read_with_data_id and a = Fn_read_data_by_id_action])
      (auto simp: data_handlers_def data_regs_def read_handler_simps data_reg_ids sample_cfg_def read_data_by_id_check_def
        read_data_by_id_action_def reg_data_of_def size_at_def memcpy_front_def Let_def data_id_defs address_defs outcome_simps)
  then show ?thesis by (simp add: obind_assoc)
qed

lemma read_authenticated_eq:
  assumes "sample_wf link k w"
  shows "server_event (Suc (Suc n)) (sample_cfg ops board) k UDS_EVT_ReadDataByIdent (Arg_RDBI authenticated_type_id c) w =
    (if authenticated (sm_auth (user w))
     then obind (call_copy (server_dddi_env board) c [authenticated_type] w) (\<lambda>r w'. Returns (r, Arg_RDBI authenticated_type_id c) w')
     else Returns (UDS_NRC_ConditionsNotCorrect, Arg_RDBI authenticated_type_id c) w)"
proof -
  let ?arg = "Arg_RDBI authenticated_type_id c"
  let ?chk = "Returns (if authenticated (sm_auth (user w)) then (UDS_OK, True) else (UDS_NRC_ConditionsNotCorrect, False)) w"
  have ctx: "srv_user_context (env w) k = Some AUTH_DATA" using assms by (simp add: sample_wf_def)
  have "server_event (Suc (Suc n)) (sample_cfg ops board) k UDS_EVT_ReadDataByIdent ?arg w =
    obind ?chk (\<lambda>(ret, ap) w1. if ret \<noteq> UDS_OK then Returns (ret, ?arg) w
      else obind (obind (call_copy (server_dddi_env board) c [authenticated_type] w)
        (\<lambda>r w'. Returns (r, True, ?arg) w')) (\<lambda>(ret, c', arg') w'. Returns (ret, arg') w'))"
    by (rule identifier_answers [OF assms, where r = "reg_authenticated k" and h = handler_read_data_by_identifier
          and f = Fn_check_read_with_data_id and a = Fn_read_data_by_id_action])
      (auto simp: data_handlers_def data_regs_def read_handler_simps data_reg_ids sample_cfg_def read_data_by_id_check_def
        read_data_by_id_action_def reg_data_of_def size_at_def bytes_at_def memcpy_front_def Let_def data_id_defs ctx
        outcome_simps address_defs split: if_splits)
  then show ?thesis by (simp add: obind_assoc)
qed

lemma read_secure_eq:
  assumes "sample_wf link k w"
  shows "server_event (Suc (Suc n)) (sample_cfg ops board) i UDS_EVT_ReadDataByIdent (Arg_RDBI secure_data_id c) w =
    (if srv_securityLevel (env w) i = 0 then Returns (UDS_NRC_SecurityAccessDenied, Arg_RDBI secure_data_id c) w
     else obind (call_copy (server_dddi_env board) c secure_data w) (\<lambda>r w'. Returns (r, Arg_RDBI secure_data_id c) w'))"
proof -
  let ?arg = "Arg_RDBI secure_data_id c"
  let ?chk = "Returns (if srv_securityLevel (env w) i < 1 then UDS_NRC_SecurityAccessDenied else UDS_OK, True) w"
  have "server_event (Suc (Suc n)) (sample_cfg ops board) i UDS_EVT_ReadDataByIdent ?arg w =
    obind ?chk (\<lambda>(ret, ap) w1. if ret \<noteq> UDS_OK then Returns (ret, ?arg) w
      else obind (obind (call_copy (server_dddi_env board) c secure_data w)
        (\<lambda>r w'. Returns (r, True, ?arg) w')) (\<lambda>(ret, c', arg') w'. Returns (ret, arg') w'))"
    by (rule identifier_answers [OF assms, where r = "reg_secure k" and h = handler_read_data_by_identifier
          and f = Fn_check_read_with_data_id and a = Fn_read_secure_data_action])
      (auto simp: data_handlers_def data_regs_def read_handler_simps data_reg_ids sample_cfg_def read_secure_data_check_def
        read_secure_data_action_def outcome_simps)
  then show ?thesis by (auto simp: obind_assoc word_less_1)
qed

lemma write_primitive_answer:
  assumes "sample_wf link k w" and "args_data_id arg = Some primitive_type_id"
  shows "server_event (Suc n) (sample_cfg ops board) i UDS_EVT_WriteDataByIdent arg w =
    (if n = 0 then NoFuel
     else
       case arg of
         Arg_WDBI _ bs \<Rightarrow>
           (case of_be16 bs of
              None \<Rightarrow> Undefined
            | Some v \<Rightarrow> Returns (UDS_PositiveResponse, arg) (upd_user (\<lambda>z. z\<lparr>primitive_type := v\<rparr>) w))
       | _ \<Rightarrow> Undefined)"
proof -
  let ?act = "case arg of Arg_WDBI _ bs \<Rightarrow> (case of_be16 bs of None \<Rightarrow> Undefined
    | Some v \<Rightarrow> Returns (UDS_PositiveResponse, True, arg) (upd_user (\<lambda>z. z\<lparr>primitive_type := v\<rparr>) w)) | _ \<Rightarrow> Undefined"
  have "server_event (Suc n) (sample_cfg ops board) i UDS_EVT_WriteDataByIdent arg w =
    obind (filtered n w) (\<lambda>(ret, ap) w1. if ret \<noteq> UDS_OK then Returns (ret, arg) w
      else obind ?act (\<lambda>(ret, c', arg') w'. Returns (ret, arg') w'))"
    by (rule identifier_answers [OF assms(1), where r = "reg_primitive k" and h = handler_write_data_by_identifier
          and f = Fn_check_write_with_data_id and a = Fn_write_primitive_data_by_id_action])
      (use assms(2) in \<open>auto simp: run_check_user data_handlers_def data_regs_def write_handler_simps data_reg_ids
        write_primitive_data_by_id_check_def write_primitive_data_by_id_action_def reg_data_of_def
        split: option.splits uds_arg.splits if_splits\<close>)
  then show ?thesis by (simp split: option.split uds_arg.split)
qed

lemma identifier_undefined:
  assumes wf: "sample_wf link k w" and h: "(h, f) \<in> data_handlers" "h_event h = ev"
    and r: "r \<in> data_regs k" "args_data_id arg = Some (di_data_id (reg_data r))"
    and check: "\<And>m. m < length (static_regs w) \<Longrightarrow> static_regs w ! m = r \<Longrightarrow>
      run_check (Suc n) (sample_cfg ops board) f (ctx_for i m ev arg) False w = Undefined"
  shows "server_event (Suc n) (sample_cfg ops board) i ev arg w = Undefined"
proof -
  have "\<exists>m < length (static_regs w). static_regs w ! m = r \<and>
    server_event (Suc n) (sample_cfg ops board) i (h_event h) arg w =
      obind Undefined (\<lambda>(ret, c :: bool, arg') w'. Returns (ret, arg') w')"
  proof (rule server_event_consumed [OF data_handlers_facts(1) [OF h(1)]])
    show "r \<in> set (static_regs w)" using wf data_regs_member [OF r(1)] by (simp add: sample_wf_def)
    fix m assume m: "m < length (static_regs w)" "static_regs w ! m = r"
    then show "uds_check_and_act_on_event (run_check (Suc n) (sample_cfg ops board)) (run_action (Suc n) (sample_cfg ops board))
        (ctx_for i m (h_event h) arg) h False True w = obind Undefined (\<lambda>(ret, c, arg') w'. Returns (ret, ret = UDS_OK, c, arg') w')"
      using check [OF m] r(1) data_handlers_facts(2,3) [OF h(1)] h(2)
      by (auto simp: uds_check_and_act_on_event_def data_regs_def data_reg_ids simp del: run_check.simps)
  qed (use skip_other_identifier [OF wf _ _ h(1) r] in auto)
  then show ?thesis by (auto simp: h(2))
qed

text \<open>The read-only identifiers have no check for writing, and only the LED has one for input and output control.\<close>

lemma read_only_undefined:
  assumes "sample_wf link k w" and "args_data_id arg = Some did"
  shows "did \<in> {string_id, authenticated_type_id, secure_data_id} \<Longrightarrow>
      server_event (Suc n) (sample_cfg ops board) i UDS_EVT_WriteDataByIdent arg w = Undefined"
    and "did \<in> {primitive_type_id, string_id, authenticated_type_id, secure_data_id} \<Longrightarrow>
      server_event (Suc n) (sample_cfg ops board) i UDS_EVT_IOControl arg w = Undefined"
proof -
  show "server_event (Suc n) (sample_cfg ops board) i UDS_EVT_WriteDataByIdent arg w = Undefined"
    if "did \<in> {string_id, authenticated_type_id, secure_data_id}"
  proof -
    from that have "\<exists>r \<in> {reg_string k, reg_authenticated k, reg_secure k}. did = di_data_id (reg_data r)"
      by (auto simp: data_reg_ids)
    then obtain r where r: "r \<in> {reg_string k, reg_authenticated k, reg_secure k}" "did = di_data_id (reg_data r)"
      by blast
    show ?thesis
      by (rule identifier_undefined [OF assms(1), where r = r and h = handler_write_data_by_identifier and f = Fn_check_write_with_data_id])
        (use r assms(2) in \<open>auto simp: data_handlers_def data_regs_def write_handler_simps data_reg_ids\<close>)
  qed
  show "server_event (Suc n) (sample_cfg ops board) i UDS_EVT_IOControl arg w = Undefined"
    if "did \<in> {primitive_type_id, string_id, authenticated_type_id, secure_data_id}"
  proof -
    from that have "\<exists>r \<in> {reg_primitive k, reg_string k, reg_authenticated k, reg_secure k}. did = di_data_id (reg_data r)"
      by (auto simp: data_reg_ids)
    then obtain r where r: "r \<in> {reg_primitive k, reg_string k, reg_authenticated k, reg_secure k}" "did = di_data_id (reg_data r)"
      by blast
    show ?thesis
      by (rule identifier_undefined [OF assms(1), where r = r and h = handler_io_control_by_identifier and f = Fn_check_io_control_with_data_id])
        (use r assms(2) in \<open>auto simp: data_handlers_def data_regs_def io_handler_simps data_reg_ids\<close>)
  qed
qed

section \<open>Authentication\<close>

text \<open>What the action does for an argument, with the registration of the sample.\<close>

definition auth_body where
  "auth_body ops copy arg w =
     (case arg of
        Arg_Auth UDS_LEV_AT_RCFA (Auth_reqChallenge algoInd) \<Rightarrow> auth_request_challenge ops copy algoInd w
      | Arg_Auth UDS_LEV_AT_VPOWNU (Auth_verifyPown algoInd pown) \<Rightarrow> auth_verify_proof ops copy algoInd pown w
      | Arg_Auth UDS_LEV_AT_DA _ \<Rightarrow> auth_de_authenticate ops w
      | Arg_Auth (UDS_LEV_AT_other _) _ \<Rightarrow> Returns UDS_NRC_SubFunctionNotSupported w
      | _ \<Rightarrow> Undefined)"

lemma auth_action_body:
  assumes "m < length (static_regs w)" and "static_regs w ! m = reg_authentication k"
  shows "auth_action ops copy (ctx_for i m ev arg) b w = obind (auth_body ops copy arg w) (\<lambda>r w'. Returns (r, b, arg) w')"
  using assms
  by (auto simp: auth_action_def auth_body_def reg_data_of_def reg_authentication_def single_reg_defs
      split: uds_arg.split uds_auth_type.split auth_sub_args.split)

lemma auth_handlers_member: "handler_auth \<in> set uds_handlers" "handler_auth_timeout \<in> set uds_handlers"
  by (simp_all add: uds_handlers_def)

lemma reg_authentication_member: "reg_authentication k \<in> set (sample_static link k)"
  by (simp add: sample_static_def sample_registrations_def)

lemma skip_not_authentication:
  assumes "sample_wf link k w" and "m < length (static_regs w)" and "static_regs w ! m \<noteq> reg_authentication k"
    and "h_registration_type h = UDS_REGISTRATION_TYPE__AUTHENTICATION"
  shows "skips ck ac i ev arg h w (Static m)"
  by (rule skip_other_type [OF assms(1-3)]) (simp add: assms(4) static_type_cases)

lemma auth_event_eq:
  assumes "sample_wf link k w"
  shows "server_event (Suc n) (sample_cfg ops board) i UDS_EVT_Auth arg w =
    obind (auth_body ops (call_copy (server_dddi_env board)) arg w) (\<lambda>r w'. Returns (r, arg) w')"
proof -
  have "server_event (Suc n) (sample_cfg ops board) i UDS_EVT_Auth arg w =
    obind (Returns (UDS_OK, True) w) (\<lambda>(ret, ap) w1. if ret \<noteq> UDS_OK then Returns (ret, arg) w
      else obind (obind (auth_body ops (call_copy (server_dddi_env board)) arg w) (\<lambda>r w'. Returns (r, True, arg) w'))
        (\<lambda>(ret, c', arg') w'. Returns (ret, arg') w'))"
    by (rule sample_answers [OF assms auth_handlers_member(1) _ reg_authentication_member skip_not_authentication [OF assms],
          where c = "Check_user Fn_auth_check" and a = Fn_auth_action])
      (auto simp: handler_auth_def uds_get_check_for_auth_def uds_get_action_for_auth_def reg_authentication_def
        single_reg_defs sample_cfg_def auth_check_def auth_action_body [unfolded reg_authentication_def single_reg_defs]
        outcome_simps)
  then show ?thesis by (simp add: obind_assoc)
qed

lemma auth_timeout_eq:
  assumes "sample_wf link k w"
  shows "server_event (Suc n) (sample_cfg ops board) i UDS_EVT_AuthTimeout arg w =
    Returns (UDS_PositiveResponse, arg) (upd_user (\<lambda>z. z\<lparr>sm_auth := (sm_auth z)\<lparr>authenticated := False\<rparr>\<rparr>) w)"
proof -
  let ?act = "Returns (UDS_PositiveResponse, True, arg) (upd_user (\<lambda>z. z\<lparr>sm_auth := (sm_auth z)\<lparr>authenticated := False\<rparr>\<rparr>) w)"
  have "server_event (Suc n) (sample_cfg ops board) i UDS_EVT_AuthTimeout arg w =
    obind (Returns (UDS_OK, True) w) (\<lambda>(ret, ap) w1. if ret \<noteq> UDS_OK then Returns (ret, arg) w
      else obind ?act (\<lambda>(ret, c', arg') w'. Returns (ret, arg') w'))"
    by (rule sample_answers [OF assms auth_handlers_member(2) _ reg_authentication_member skip_not_authentication [OF assms],
          where c = "Check_user Fn_auth_timeout_check" and a = Fn_auth_timeout_action])
      (auto simp: handler_auth_timeout_def uds_get_check_for_auth_timeout_def uds_get_action_for_auth_timeout_def
        reg_authentication_def single_reg_defs sample_cfg_def auth_timeout_check_def auth_timeout_action_def reg_data_of_def)
  then show ?thesis by simp
qed

text \<open>The requests that end an authentication.\<close>

definition ends_auth :: "sample_event \<Rightarrow> bool" where
  "ends_auth e \<longleftrightarrow>
     (case e of
        Request _ UDS_EVT_AuthTimeout _ _ \<Rightarrow> True
      | Request _ UDS_EVT_Auth (Arg_Auth UDS_LEV_AT_DA _) _ \<Rightarrow> True
      | _ \<Rightarrow> False)"

text \<open>A proof of ownership that decrypts to the seed, in a state.\<close>

definition proof_valid where
  "proof_valid ops pown z \<longleftrightarrow> length pown = 16 \<and>
     fst (aes_decrypt_ecb (so_psa ops) uds_aes_key pown (replicate 16 0) (sm_platform z)) = Some (seeed (sm_auth z))"

lemma copy_same_user: "call_copy (server_dddi_env board) c bs w = Returns r w' \<Longrightarrow> user w' = user w"
  by (cases c) (auto simp: call_copy_def uds_copy_def server_dddi_env_def split: prod.splits if_splits)

lemma set_auth_user: "call_set_auth_state setf st w = Returns r w' \<Longrightarrow> user w' = user w"
  by (auto simp: call_set_auth_state_def put_env_def split: prod.splits)

lemma auth_body_authenticated:
  assumes "auth_body ops (call_copy (server_dddi_env board)) arg w = Returns r w'"
  shows "authenticated (sm_auth (user w')) \<Longrightarrow> authenticated (sm_auth (user w)) \<or>
      (\<exists>algo pown. arg = Arg_Auth UDS_LEV_AT_VPOWNU (Auth_verifyPown algo pown) \<and> proof_valid ops pown (user w))"
    and "arg = Arg_Auth UDS_LEV_AT_DA args \<Longrightarrow> \<not> authenticated (sm_auth (user w'))"
  using assms
  by (auto simp: auth_body_def auth_request_challenge_def auth_verify_proof_def auth_de_authenticate_def proof_valid_def
      outcome_simps Let_def dest!: copy_same_user set_auth_user
      split: uds_arg.splits uds_auth_type.splits auth_sub_args.splits if_splits prod.splits option.splits)

lemma changes_auth:
  "changes u z z' \<Longrightarrow> u \<notin> {Fn_auth_action, Fn_auth_timeout_action} \<Longrightarrow> sm_auth z' = sm_auth z"
  by (cases u) (auto dest: arg_cong [where f = sm_auth])

abbreviation proof_request :: "inst \<Rightarrow> u8 list \<Rightarrow> u8 list \<Rightarrow> UDSErr_t \<Rightarrow> sample_event" where
  "proof_request i algo pown r \<equiv> Request i UDS_EVT_Auth (Arg_Auth UDS_LEV_AT_VPOWNU (Auth_verifyPown algo pown)) r"

lemma auth_step:
  fixes w w' :: "(sample_fn, 'c, 'f, 'fs, 'h, 'r, 'n, 'g, 'p) sample_world"
  assumes step: "sample_step (sample_cfg ops board) led level_after w e w'" and wf: "sample_wf link k w"
    and auth: "authenticated (sm_auth (user w'))"
  shows "\<not> ends_auth e \<and> (authenticated (sm_auth (user w)) \<or>
    (\<exists>i algo pown r. e = proof_request i algo pown r \<and> proof_valid ops pown (user w)))"
proof (cases e)
  case (Request i ev arg r)
  with step obtain n arg' w1 where ev: "server_event (Suc n) (sample_cfg ops board) i ev arg w = Returns (r, arg') w1"
    and w': "w' = set_level i (level_after ev arg r (srv_securityLevel (env w1) i)) w1"
    by (auto elim: sample_stepE)
  have auth1: "authenticated (sm_auth (user w1))" using auth by (simp add: w')
  consider "ev = UDS_EVT_Auth" | "ev = UDS_EVT_AuthTimeout" | "ev \<notin> {UDS_EVT_Auth, UDS_EVT_AuthTimeout}" by blast
  then show ?thesis
  proof cases
    case 1
    have body: "auth_body ops (call_copy (server_dddi_env board)) arg w = Returns r w1"
      using ev unfolding 1 auth_event_eq [OF wf] by (auto simp: outcome_simps)
    have "\<not> ends_auth e"
      using auth_body_authenticated(2) [OF body] auth1 unfolding Request 1 ends_auth_def
      by (cases arg) (auto split: uds_auth_type.splits)
    then show ?thesis using auth_body_authenticated(1) [OF body auth1] by (auto simp: Request 1)
  next
    case 2
    then show ?thesis using ev auth1 unfolding 2 auth_timeout_eq [OF wf] by auto
  next
    case 3
    have "sample_wf link k w1 \<and> sm_auth (user w1) = sm_auth (user w) \<and> srv_securityLevel (env w1) = srv_securityLevel (env w)"
      by (rule request_keeps_part [OF _ wf ev]) (use 3 in \<open>auto elim!: changes_auth\<close>)
    then show ?thesis using auth1 3 by (auto simp: Request ends_auth_def split: UDSEvent_t.splits)
  qed
next
  case Background
  then show ?thesis using background_step [OF _ wf] step auth by (auto simp: ends_auth_def)
qed

lemma authenticated_by_proof:
  assumes "sample_run (sample_cfg ops board) led level_after w0 tr w" and "sample_wf link k w0"
    and "\<not> authenticated (sm_auth (user w0))" and "authenticated (sm_auth (user w))"
  shows "\<exists>tr2 tr1 w1 i algo pown r. tr = tr2 @ proof_request i algo pown r # tr1 \<and>
    sample_run (sample_cfg ops board) led level_after w0 tr1 w1 \<and> proof_valid ops pown (user w1) \<and>
    (\<forall>e \<in> set tr2. \<not> ends_auth e)"
  using assms(1,4)
proof (induction rule: sample_run.induct)
  case sample_start
  then show ?case using assms(3) by simp
next
  case (sample_more tr w e w')
  have wf: "sample_wf link k w" by (rule sample_run_wf [OF sample_more(1) assms(2)])
  have step: "\<not> ends_auth e" "authenticated (sm_auth (user w)) \<or>
      (\<exists>i algo pown r. e = proof_request i algo pown r \<and> proof_valid ops pown (user w))"
    using auth_step [OF sample_more(2) wf sample_more(4)] by auto
  from step(2) show ?case
  proof
    assume "authenticated (sm_auth (user w))"
    from sample_more(3) [OF this] obtain tr2 tr1 w1 i algo pown r where "tr = tr2 @ proof_request i algo pown r # tr1"
      "sample_run (sample_cfg ops board) led level_after w0 tr1 w1" "proof_valid ops pown (user w1)" "\<forall>e \<in> set tr2. \<not> ends_auth e"
      by blast
    then show ?thesis
      using step(1) by (intro exI [of _ "e # tr2"] exI [of _ tr1] exI [of _ w1] exI [of _ i] exI [of _ algo] exI [of _ pown] exI [of _ r]) auto
  next
    assume "\<exists>i algo pown r. e = proof_request i algo pown r \<and> proof_valid ops pown (user w)"
    then obtain i algo pown r where "e = proof_request i algo pown r" "proof_valid ops pown (user w)" by blast
    then show ?thesis
      using sample_more(1) by (intro exI [of _ "[]"] exI [of _ tr] exI [of _ w] exI [of _ i] exI [of _ algo] exI [of _ pown] exI [of _ r]) auto
  qed
qed

section \<open>A sample for the witnesses\<close>

text \<open>
  The pin of the LED holds a byte, the random numbers are constant, and the cipher complements each byte;
  the response is the list of the bytes that were copied.
\<close>

definition demo_sample_ops :: "(u8, unit, unit, u8 list) sample_ops" where
  "demo_sample_ops =
     \<lparr>so_led = \<lparr>gpio_pin_get_dt = (\<lambda>g. Inr (unat g)), gpio_pin_configure_dt = (\<lambda>g. (rc0, g)), gpio_pin_set_dt = (\<lambda>v g. v)\<rparr>,
      so_psa = \<lparr>psa_crypto_init = (\<lambda>p. (True, p)), psa_import_key = (\<lambda>e key p. (True, (), p)),
        psa_cipher_encrypt = (\<lambda>key i out p. (True, map (\<lambda>b. NOT b) i, 16, p)),
        psa_cipher_decrypt = (\<lambda>key i out p. (True, map (\<lambda>b. NOT b) i, 16, p)),
        psa_destroy_key = (\<lambda>key p. p), psa_generate_random = (\<lambda>buf p. (True, replicate (length buf) 7, p))\<rparr>,
      sys_rand32_get = (\<lambda>p. (0xCAFE, p)), k_work_schedule = (\<lambda>p. (rc0, p)), set_auth_state = (\<lambda>st r. (UDS_PositiveResponse, r))\<rparr>"

type_synonym demo_state = "(u8, unit) sample_state"

definition demo_board :: "(sample_fn, unit, nat \<Rightarrow> u8, unit, unit, u8 list, unit, demo_state) server_cfg" where
  "demo_board =
     \<lparr>sc_layout = board_layout, sc_disable_switch = True, sc_default_bitrate = 500000, sc_transfer = demo_cfg,
      sc_can = \<lparr>can_stop = (\<lambda>c. (rc0, c)), can_set_bitrate = (\<lambda>b c. (rc0, c)), can_start = (\<lambda>c. (rc0, c))\<rparr>,
      sc_ops = demo_ops, sc_boot = \<lparr>retention_write = (\<lambda>off d n. (rc0, n)), bootmode_set = (\<lambda>m n. (rc0, n))\<rparr>,
      sc_copy = (\<lambda>bs r. (UDS_PositiveResponse, r @ bs)),
      sc_user_check = (\<lambda>u ctx b w. Undefined), sc_user_action = (\<lambda>u ctx b w. Undefined), sc_user_unregister = (\<lambda>u a w. Undefined)\<rparr>"

definition demo_sample :: "demo_state \<Rightarrow> (sample_fn, unit, nat \<Rightarrow> u8, unit, unit, u8 list, unit, u8, unit) sample_world" where
  "demo_sample z = boot_world (rev (sample_static True 0))
     \<lparr>srv_sessionType = (\<lambda>_. 1), srv_securityLevel = (\<lambda>_. 0), srv_p2_ms = (\<lambda>_. 50),
      srv_user_context = (\<lambda>_. uds_default_instance_user_context),
      srv_link = \<lparr>lk_modifier = 0, lk_modifier_set = False, lk_can = ()\<rparr>,
      srv_transfer = demo_world, srv_memory = (\<lambda>_. 0), srv_temp_buffer = [], srv_boot = (), srv_user = z\<rparr>"

lemma demo_sample_facts [simp]:
  "sample_wf True 0 (demo_sample z)" "user (demo_sample z) = z" "srv_securityLevel (env (demo_sample z)) i = 0"
  "tw_resp (srv_transfer (env (demo_sample z))) = tw_resp demo_world"
  by (simp_all add: demo_sample_def sample_wf_def boot_world_def uds_default_instance_user_context_def)

lemma demo_copy:
  "call_copy (server_dddi_env demo_board) Copy_lib bs w = Returns UDS_PositiveResponse
     (put_env (\<lambda>x. x\<lparr>srv_transfer := (srv_transfer x)\<lparr>tw_resp := tw_resp (srv_transfer x) @ bs\<rparr>\<rparr>) w)"
  by (simp add: call_copy_def server_dddi_env_def demo_board_def put_env_def)

abbreviation demo_sample_cfg :: "(sample_fn, unit, nat \<Rightarrow> u8, unit, unit, u8 list, unit, demo_state) server_cfg" where
  "demo_sample_cfg \<equiv> sample_cfg demo_sample_ops demo_board"

text \<open>A package that sets the level of an accepted key.\<close>

definition demo_level :: level_sem where
  "demo_level ev arg r l =
     (if ev = UDS_EVT_SecAccessValidateKey \<and> r = UDS_PositiveResponse then vk_level arg else l)"

lemma demo_level_rises: "level_rises_by_key demo_level"
  by (simp add: level_rises_by_key_def demo_level_def)

section \<open>Properties\<close>

text \<open>
  (C11) The secret of the sample is given out only after an unlocking: if, after any run from a state without
  seed and with security level 0, a read of the secure identifier is answered positively by an instance,
  then the run has a key, sent to this instance and answered positively, that is the complement of a seed that
  was outstanding: the server had sent this seed, and since then had neither been asked for another seed of level 1
  nor been sent another key of four bytes for it (a key of another length is refused and leaves the seed valid). Every unlocking takes
  a seed of its own: between two keys of the run that were answered positively a seed was asked for. The package is supposed to raise
  the level of an instance only when a key was answered positively.
\<close>

theorem secure_data_needs_key:
  fixes w0 w :: "(sample_fn, 'c, 'f, 'fs, 'h, 'r, 'n, 'g, 'p) sample_world"
  assumes "sample_run (sample_cfg ops board) led level_after w0 tr w" and "level_rises_by_key level_after"
    and "sample_wf link k w0" and "\<not> seed_requested (sm_security (user w0))" and "srv_securityLevel (env w0) i = 0"
    and "server_event (Suc (Suc n)) (sample_cfg ops board) i UDS_EVT_ReadDataByIdent (Arg_RDBI secure_data_id c) w =
      Returns (UDS_PositiveResponse, arg') w'"
  shows "(\<exists>tr2 tr1 w1 seed.
      tr = tr2 @ Request i UDS_EVT_SecAccessValidateKey (Arg_SecAccessValidateKey 1 (be32 (NOT seed))) UDS_PositiveResponse # tr1 \<and>
      sample_run (sample_cfg ops board) led level_after w0 tr1 w1 \<and> seed_outstanding ops board led level_after w0 tr1 w1 seed) \<and>
    (\<forall>tr3 j a tr2 j' b tr1.
      tr = tr3 @ Request j UDS_EVT_SecAccessValidateKey a UDS_PositiveResponse # tr2 @
        Request j' UDS_EVT_SecAccessValidateKey b UDS_PositiveResponse # tr1 \<longrightarrow> (\<exists>e \<in> set tr2. asks_seed e))"
proof (intro conjI allI impI)
  have "srv_securityLevel (env w) i \<noteq> 0"
    using assms(6) unfolding read_secure_eq [OF sample_run_wf [OF assms(1,3)]] by (auto split: if_splits)
  from unlocked_by_key_of_seed [OF assms(1-5) this]
  show "\<exists>tr2 tr1 w1 seed.
    tr = tr2 @ Request i UDS_EVT_SecAccessValidateKey (Arg_SecAccessValidateKey 1 (be32 (NOT seed))) UDS_PositiveResponse # tr1 \<and>
    sample_run (sample_cfg ops board) led level_after w0 tr1 w1 \<and> seed_outstanding ops board led level_after w0 tr1 w1 seed" by blast
qed (rule accepted_keys_apart [OF assms(1,3)])

theorem secure_data_needs_key_witness:
  "\<exists>tr w w'. sample_run demo_sample_cfg (so_led demo_sample_ops) demo_level (demo_sample (sample_init 0 ())) tr w \<and>
     server_event 2 demo_sample_cfg 0 UDS_EVT_ReadDataByIdent (Arg_RDBI secure_data_id Copy_lib) w =
       Returns (UDS_PositiveResponse, Arg_RDBI secure_data_id Copy_lib) w' \<and>
     (\<exists>tr2 tr1 w1 seed.
       tr = tr2 @ Request 0 UDS_EVT_SecAccessValidateKey (Arg_SecAccessValidateKey 1 (be32 (NOT seed))) UDS_PositiveResponse # tr1 \<and>
       sample_run demo_sample_cfg (so_led demo_sample_ops) demo_level (demo_sample (sample_init 0 ())) tr1 w1 \<and>
       seed_outstanding demo_sample_ops demo_board (so_led demo_sample_ops) demo_level (demo_sample (sample_init 0 ())) tr1 w1 seed)"
proof -
  let ?w0 = "demo_sample (sample_init 0 ())" and ?led = "so_led demo_sample_ops"
  let ?seed = "Arg_SecAccessRequestSeed 1 []" and ?key = "Arg_SecAccessValidateKey 1 (be32 (NOT 0xCAFE))"
  have init: "\<not> seed_requested (sm_security (user ?w0))" by (simp add: sample_init_def)
  obtain w1 where seed: "server_event (Suc 0) demo_sample_cfg 0 UDS_EVT_SecAccessRequestSeed ?seed ?w0 = Returns (UDS_PositiveResponse, ?seed) w1"
    and w1: "sm_security (user w1) = \<lparr>current_seed = 0xCAFE, seed_requested = True\<rparr>"
    by (simp add: seed_request_eq [OF demo_sample_facts(1)] demo_copy demo_sample_ops_def put_env_def upd_user_def)
  have run1: "sample_run demo_sample_cfg ?led demo_level ?w0 [Request 0 UDS_EVT_SecAccessRequestSeed ?seed UDS_PositiveResponse]
      (set_level 0 (demo_level UDS_EVT_SecAccessRequestSeed ?seed UDS_PositiveResponse (srv_securityLevel (env w1) 0)) w1)" (is "sample_run _ _ _ _ _ ?w1")
    by (rule sample_more [OF sample_start request [OF seed]])
  have wf1: "sample_wf True 0 ?w1" by (rule sample_run_wf [OF run1 demo_sample_facts(1)])
  let ?w2 = "upd_user (\<lambda>z. z\<lparr>sm_security := (sm_security z)\<lparr>seed_requested := False\<rparr>\<rparr>) ?w1"
  have key: "server_event (Suc 0) demo_sample_cfg 0 UDS_EVT_SecAccessValidateKey ?key ?w1 = Returns (UDS_PositiveResponse, ?key) ?w2"
    using w1 by (simp add: key_request_eq [OF wf1])
  note run2 = sample_more [OF run1 request [OF key]]
  let ?w3 = "set_level 0 (demo_level UDS_EVT_SecAccessValidateKey ?key UDS_PositiveResponse (srv_securityLevel (env ?w2) 0)) ?w2"
  have wf3: "sample_wf True 0 ?w3" by (rule sample_run_wf [OF run2 demo_sample_facts(1)])
  obtain w' where read: "server_event (Suc (Suc 0)) demo_sample_cfg 0 UDS_EVT_ReadDataByIdent (Arg_RDBI secure_data_id Copy_lib) ?w3 =
      Returns (UDS_PositiveResponse, Arg_RDBI secure_data_id Copy_lib) w'"
    unfolding read_secure_eq [OF wf3] by (simp add: demo_level_def demo_copy)
  note needs = secure_data_needs_key [OF run2 demo_level_rises demo_sample_facts(1) init demo_sample_facts(3) read]
  from run2 read needs show ?thesis unfolding numeral_2_eq_2 by blast
qed

text \<open>
  (C12) The authenticated identifier of the sample is given out only after a valid proof: if, after any run from
  a state that is not authenticated, a read of it is answered positively, then the run has a proof of
  ownership that decrypted, under the key of the sample, to the seed that the sample had stored then, and
  after it the authentication was not ended.
\<close>

theorem authenticated_data_needs_proof:
  fixes w0 w :: "(sample_fn, 'c, 'f, 'fs, 'h, 'r, 'n, 'g, 'p) sample_world"
  assumes "sample_run (sample_cfg ops board) led level_after w0 tr w" and "sample_wf link k w0"
    and "\<not> authenticated (sm_auth (user w0))"
    and "server_event (Suc (Suc n)) (sample_cfg ops board) k UDS_EVT_ReadDataByIdent (Arg_RDBI authenticated_type_id c) w =
      Returns (UDS_PositiveResponse, arg') w'"
  shows "\<exists>tr2 tr1 w1 i algo pown r.
    tr = tr2 @ Request i UDS_EVT_Auth (Arg_Auth UDS_LEV_AT_VPOWNU (Auth_verifyPown algo pown)) r # tr1 \<and>
    sample_run (sample_cfg ops board) led level_after w0 tr1 w1 \<and> length pown = 16 \<and>
    fst (aes_decrypt_ecb (so_psa ops) uds_aes_key pown (replicate 16 0) (sm_platform (user w1))) = Some (seeed (sm_auth (user w1))) \<and>
    (\<forall>e \<in> set tr2. \<not> ends_auth e)"
proof -
  have "authenticated (sm_auth (user w))"
    using assms(4) unfolding read_authenticated_eq [OF sample_run_wf [OF assms(1,2)]] by (auto split: if_splits)
  from authenticated_by_proof [OF assms(1-3) this] show ?thesis unfolding proof_valid_def by blast
qed

theorem authenticated_data_needs_proof_witness:
  "\<exists>tr w w'. sample_run demo_sample_cfg (so_led demo_sample_ops) demo_level (demo_sample (sample_init 0 ())) tr w \<and>
     server_event 2 demo_sample_cfg 0 UDS_EVT_ReadDataByIdent (Arg_RDBI authenticated_type_id Copy_lib) w =
       Returns (UDS_PositiveResponse, Arg_RDBI authenticated_type_id Copy_lib) w' \<and>
     (\<exists>tr2 tr1 w1 i algo pown r.
       tr = tr2 @ Request i UDS_EVT_Auth (Arg_Auth UDS_LEV_AT_VPOWNU (Auth_verifyPown algo pown)) r # tr1 \<and>
       sample_run demo_sample_cfg (so_led demo_sample_ops) demo_level (demo_sample (sample_init 0 ())) tr1 w1 \<and> length pown = 16 \<and>
       fst (aes_decrypt_ecb (so_psa demo_sample_ops) uds_aes_key pown (replicate 16 0) (sm_platform (user w1))) =
         Some (seeed (sm_auth (user w1))) \<and> (\<forall>e \<in> set tr2. \<not> ends_auth e))"
proof -
  let ?w0 = "demo_sample (sample_init 0 ())" and ?led = "so_led demo_sample_ops"
  let ?arg = "Arg_Auth UDS_LEV_AT_VPOWNU (Auth_verifyPown (algorithm_authenticator auth_data_init) (replicate 16 0xFF))"
  obtain w1 where auth: "server_event (Suc 0) demo_sample_cfg 0 UDS_EVT_Auth ?arg ?w0 = Returns (UDS_PositiveResponse, ?arg) w1"
    and w1: "authenticated (sm_auth (user w1))"
    by (simp add: auth_event_eq [OF demo_sample_facts(1)] auth_body_def auth_verify_proof_def sample_init_def auth_data_init_def
        aes_decrypt_ecb_def aes_ecb_crypt_def demo_sample_ops_def demo_copy call_set_auth_state_def Let_def upd_user_compose)
      (simp add: put_env_def upd_user_def)
  note run = sample_more [OF sample_start request [OF auth], where led = ?led and level_after = demo_level]
  let ?w1 = "set_level 0 (demo_level UDS_EVT_Auth ?arg UDS_PositiveResponse (srv_securityLevel (env w1) 0)) w1"
  have wf: "sample_wf True 0 ?w1" by (rule sample_run_wf [OF run demo_sample_facts(1)])
  obtain w' where read: "server_event (Suc (Suc 0)) demo_sample_cfg 0 UDS_EVT_ReadDataByIdent (Arg_RDBI authenticated_type_id Copy_lib) ?w1 =
      Returns (UDS_PositiveResponse, Arg_RDBI authenticated_type_id Copy_lib) w'"
    using w1 by (simp add: read_authenticated_eq [OF wf] demo_copy)
  have init: "\<not> authenticated (sm_auth (user ?w0))" by (simp add: sample_init_def auth_data_init_def)
  note needs = authenticated_data_needs_proof [OF run demo_sample_facts(1) init read]
  from run read needs show ?thesis unfolding numeral_2_eq_2 by blast
qed

text \<open>
  A proof of ownership can be used again: a proof that decrypts to the stored seed is accepted, the seed
  stays as it is, and after the authentication has timed out the same proof is accepted again, without a
  new challenge.
\<close>

theorem auth_proof_replayed:
  fixes w :: "(sample_fn, 'c, 'f, 'fs, 'h, 'r, 'n, 'g, 'p) sample_world"
  assumes "sample_wf link k w" and "take 16 algo = algorithm_authenticator (sm_auth (user w))" and "16 \<le> length algo"
    and "length pown = 16" and "\<forall>p. fst (aes_decrypt_ecb (so_psa ops) uds_aes_key pown (replicate 16 0) p) = Some (seeed (sm_auth (user w)))"
  shows "\<exists>r1 w1 w2 r3 w3.
    server_event (Suc n) (sample_cfg ops board) i UDS_EVT_Auth (Arg_Auth UDS_LEV_AT_VPOWNU (Auth_verifyPown algo pown)) w =
      Returns (r1, Arg_Auth UDS_LEV_AT_VPOWNU (Auth_verifyPown algo pown)) w1 \<and> authenticated (sm_auth (user w1)) \<and>
    server_event (Suc n) (sample_cfg ops board) i UDS_EVT_AuthTimeout arg w1 = Returns (UDS_PositiveResponse, arg) w2 \<and>
    \<not> authenticated (sm_auth (user w2)) \<and>
    server_event (Suc n) (sample_cfg ops board) i UDS_EVT_Auth (Arg_Auth UDS_LEV_AT_VPOWNU (Auth_verifyPown algo pown)) w2 =
      Returns (r3, Arg_Auth UDS_LEV_AT_VPOWNU (Auth_verifyPown algo pown)) w3 \<and> authenticated (sm_auth (user w3))"
proof -
  let ?arg = "Arg_Auth UDS_LEV_AT_VPOWNU (Auth_verifyPown algo pown)"
  have accept: "\<exists>r w'. server_event (Suc n) (sample_cfg ops board) i UDS_EVT_Auth ?arg v = Returns (r, ?arg) w' \<and>
      sm_auth (user w') = (sm_auth (user w))\<lparr>authenticated := True\<rparr> \<and> sample_wf link k w'"
    if v: "sample_wf link k v" "sm_auth (user v) = (sm_auth (user w))\<lparr>authenticated := b\<rparr>" for v b
  proof -
    obtain p where dec: "aes_decrypt_ecb (so_psa ops) uds_aes_key pown (replicate 16 0) (sm_platform (user v)) =
        (Some (seeed (sm_auth (user w))), p)"
      using assms(5) by (metis prod.collapse)
    let ?v = "upd_user (\<lambda>z. z\<lparr>sm_platform := p, sm_auth := (sm_auth z)\<lparr>authenticated := True\<rparr>\<rparr>) v"
    have "server_event (Suc n) (sample_cfg ops board) i UDS_EVT_Auth ?arg v =
        obind (call_copy (server_dddi_env board) Copy_lib [0x00, 0x00] ?v) (\<lambda>_ w. obind (call_set_auth_state (set_auth_state ops) UDS_AT_OVAC w)
          (\<lambda>r w'. Returns (r, ?arg) w'))"
      unfolding auth_event_eq [OF v(1)] using v(2) assms(2-4) dec
      by (simp add: auth_body_def auth_verify_proof_def Let_def obind_assoc upd_user_compose)
    then show ?thesis
      using v by (auto simp: call_copy_def server_dddi_env_def call_set_auth_state_def put_env_def sample_wf_def upd_user_def split: prod.splits)
  qed
  obtain r1 w1 where w1: "server_event (Suc n) (sample_cfg ops board) i UDS_EVT_Auth ?arg w = Returns (r1, ?arg) w1"
    "sm_auth (user w1) = (sm_auth (user w))\<lparr>authenticated := True\<rparr>" "sample_wf link k w1"
    using accept [OF assms(1), of "authenticated (sm_auth (user w))"] by auto
  let ?w2 = "upd_user (\<lambda>z. z\<lparr>sm_auth := (sm_auth z)\<lparr>authenticated := False\<rparr>\<rparr>) w1"
  obtain r3 w3 where w3: "server_event (Suc n) (sample_cfg ops board) i UDS_EVT_Auth ?arg ?w2 = Returns (r3, ?arg) w3"
    "sm_auth (user w3) = (sm_auth (user w))\<lparr>authenticated := True\<rparr>"
    using accept [of ?w2 False] w1 by auto
  show ?thesis
    using w1 w3 auth_timeout_eq [OF w1(3), where ops = ops and board = board and n = n and i = i and arg = arg]
    by (intro exI [of _ r1] exI [of _ w1] exI [of _ ?w2] exI [of _ r3] exI [of _ w3]) simp
qed

theorem auth_proof_replayed_witness:
  "\<exists>r1 w1 w2 r3 w3.
    server_event 1 demo_sample_cfg 0 UDS_EVT_Auth
        (Arg_Auth UDS_LEV_AT_VPOWNU (Auth_verifyPown (algorithm_authenticator auth_data_init) (replicate 16 0xFF))) (demo_sample (sample_init 0 ())) =
      Returns (r1, Arg_Auth UDS_LEV_AT_VPOWNU (Auth_verifyPown (algorithm_authenticator auth_data_init) (replicate 16 0xFF))) w1 \<and>
    authenticated (sm_auth (user w1)) \<and>
    server_event 1 demo_sample_cfg 0 UDS_EVT_AuthTimeout Arg_other w1 = Returns (UDS_PositiveResponse, Arg_other) w2 \<and>
    \<not> authenticated (sm_auth (user w2)) \<and>
    server_event 1 demo_sample_cfg 0 UDS_EVT_Auth
        (Arg_Auth UDS_LEV_AT_VPOWNU (Auth_verifyPown (algorithm_authenticator auth_data_init) (replicate 16 0xFF))) w2 =
      Returns (r3, Arg_Auth UDS_LEV_AT_VPOWNU (Auth_verifyPown (algorithm_authenticator auth_data_init) (replicate 16 0xFF))) w3 \<and>
    authenticated (sm_auth (user w3))"
  unfolding One_nat_def
  by (rule auth_proof_replayed [OF demo_sample_facts(1)])
    (simp_all add: sample_init_def auth_data_init_def aes_decrypt_ecb_def aes_ecb_crypt_def demo_sample_ops_def)

text \<open>
  What is written to the primitive identifier is read back: a write of two bytes through the server is
  answered positively, and a read in any later state of the same value copies these two bytes.
\<close>

theorem primitive_write_read:
  fixes w :: "(sample_fn, 'c, 'f, 'fs, 'h, 'r, 'n, 'g, 'p) sample_world"
  assumes "sample_wf link k w" and "length bs = 2"
  shows "\<exists>w'. server_event (Suc (Suc n)) (sample_cfg ops board) i UDS_EVT_WriteDataByIdent (Arg_WDBI primitive_type_id bs) w =
      Returns (UDS_PositiveResponse, Arg_WDBI primitive_type_id bs) w' \<and>
    server_event (Suc (Suc n)) (sample_cfg ops board) j UDS_EVT_ReadDataByIdent (Arg_RDBI primitive_type_id c) w' =
      obind (call_copy (server_dddi_env board) c bs w') (\<lambda>r w''. Returns (r, Arg_RDBI primitive_type_id c) w'')"
proof -
  obtain v where v: "of_be16 bs = Some v" "be16 v = bs" using be16_of_be16 [OF assms(2)] by blast
  let ?w = "upd_user (\<lambda>z. z\<lparr>primitive_type := v\<rparr>) w"
  have "sample_wf link k ?w" using assms(1) by simp
  then show ?thesis
    using v by (simp add: write_primitive_answer [OF assms(1)] read_primitive_eq)
qed

theorem primitive_write_read_witness:
  "\<exists>w'. server_event 2 demo_sample_cfg 0 UDS_EVT_WriteDataByIdent (Arg_WDBI primitive_type_id [0x12, 0x34]) (demo_sample (sample_init 0 ())) =
      Returns (UDS_PositiveResponse, Arg_WDBI primitive_type_id [0x12, 0x34]) w' \<and>
    server_event 2 demo_sample_cfg 0 UDS_EVT_ReadDataByIdent (Arg_RDBI primitive_type_id Copy_lib) w' =
      obind (call_copy (server_dddi_env demo_board) Copy_lib [0x12, 0x34] w') (\<lambda>r w''. Returns (r, Arg_RDBI primitive_type_id Copy_lib) w'')"
  unfolding numeral_2_eq_2 by (rule primitive_write_read [OF demo_sample_facts(1)]) simp

text \<open>
  A write to one of the read-only identifiers of the sample calls a function through a null pointer: their
  registrations have no check for writing, and the filter of the library calls it all the same. So does a
  request for input and output control of one of them.
\<close>

theorem read_only_write_undefined:
  fixes w :: "(sample_fn, 'c, 'f, 'fs, 'h, 'r, 'n, 'g, 'p) sample_world"
  assumes "sample_wf link k w" and "did \<in> {string_id, authenticated_type_id, secure_data_id}"
  shows "server_event (Suc n) (sample_cfg ops board) i UDS_EVT_WriteDataByIdent (Arg_WDBI did bs) w = Undefined \<and>
    server_event (Suc n) (sample_cfg ops board) i UDS_EVT_IOControl (Arg_IOCtrl did p m c) w = Undefined"
  using assms(2) by (intro conjI read_only_undefined [OF assms(1)]) auto

theorem read_only_write_undefined_witness:
  "server_event 1 demo_sample_cfg 0 UDS_EVT_WriteDataByIdent (Arg_WDBI string_id [0x41]) (demo_sample (sample_init 0 ())) = Undefined \<and>
   server_event 1 demo_sample_cfg 0 UDS_EVT_IOControl (Arg_IOCtrl string_id 3 [1] Copy_lib) (demo_sample (sample_init 0 ())) = Undefined"
  unfolding One_nat_def by (rule read_only_write_undefined [OF demo_sample_facts(1)]) simp

end
