(* ===== verification/Sample_Device.thy ===== *)
theory Sample_Device
  imports Sample_Access
begin

text \<open>
  The LED and the memory of the UDS sample: what requests and the update thread make of the LED, and which
  bytes a request for the memory reads and writes.
\<close>

section \<open>The LED\<close>

lemma led_reg: "reg_led k \<in> data_regs k" "args_data_id arg = Some led_id \<Longrightarrow> args_data_id arg = Some (di_data_id (reg_data (reg_led k)))"
  by (simp_all add: data_regs_def data_reg_ids)

lemma write_led_eq:
  assumes "sample_wf link k w" and "args_data_id arg = Some led_id"
  shows "server_event (Suc n) (sample_cfg ops board) i UDS_EVT_WriteDataByIdent arg w =
    obind (filtered n w) (\<lambda>_ _. obind (write_led_action (ctx_for i 0 UDS_EVT_WriteDataByIdent arg) True w)
      (\<lambda>(ret, c, arg') w'. Returns (ret, arg') w'))"
proof -
  have "server_event (Suc n) (sample_cfg ops board) i UDS_EVT_WriteDataByIdent arg w =
    obind (filtered n w) (\<lambda>(ret, ap) w1. if ret \<noteq> UDS_OK then Returns (ret, arg) w
      else obind (write_led_action (ctx_for i 0 UDS_EVT_WriteDataByIdent arg) True w) (\<lambda>(ret, c', arg') w'. Returns (ret, arg') w'))"
    by (rule identifier_answers [OF assms(1), where r = "reg_led k" and h = handler_write_data_by_identifier
          and f = Fn_check_write_with_data_id and a = Fn_write_led_action])
      (use assms(2) in \<open>auto simp: run_check_user data_handlers_def led_reg write_handler_simps data_reg_ids write_led_check_def
        write_led_action_def with_led_mutex_def split: uds_arg.splits list.splits if_splits\<close>)
  then show ?thesis by auto
qed

lemma io_led_eq:
  assumes "sample_wf link k w" and "args_data_id arg = Some led_id"
  shows "server_event (Suc n) (sample_cfg ops board) i UDS_EVT_IOControl arg w =
    obind (filtered n w) (\<lambda>_ _. obind (io_ctrl_led_action (so_led ops) (call_copy (server_dddi_env board)) (ctx_for i 0 UDS_EVT_IOControl arg) True w)
      (\<lambda>(ret, c, arg') w'. Returns (ret, arg') w'))"
proof -
  have "server_event (Suc n) (sample_cfg ops board) i UDS_EVT_IOControl arg w =
    obind (filtered n w) (\<lambda>(ret, ap) w1. if ret \<noteq> UDS_OK then Returns (ret, arg) w
      else obind (io_ctrl_led_action (so_led ops) (call_copy (server_dddi_env board)) (ctx_for i 0 UDS_EVT_IOControl arg) True w)
        (\<lambda>(ret, c', arg') w'. Returns (ret, arg') w'))"
    by (rule identifier_answers [OF assms(1), where r = "reg_led k" and h = handler_io_control_by_identifier
          and f = Fn_check_io_control_with_data_id and a = Fn_io_ctrl_led_action])
      (use assms(2) in \<open>auto simp: run_check_user data_handlers_def led_reg io_handler_simps data_reg_ids io_ctrl_led_check_def
        io_ctrl_led_action_def with_led_mutex_def outcome_simps Let_def split: uds_arg.splits sum.splits if_splits\<close>)
  then show ?thesis by auto
qed

lemma read_led_eq:
  assumes "sample_wf link k w"
  shows "server_event (Suc (Suc n)) (sample_cfg ops board) i UDS_EVT_ReadDataByIdent (Arg_RDBI led_id c) w =
    (case gpio_pin_get_dt (so_led ops) (led_gpio (sm_led (user w))) of
       Inl _ \<Rightarrow> Returns (UDS_NRC_ConditionsNotCorrect, Arg_RDBI led_id c) w
     | Inr v \<Rightarrow> obind (call_copy (server_dddi_env board) c [of_nat v] w) (\<lambda>r w'. Returns (r, Arg_RDBI led_id c) w'))"
proof -
  let ?arg = "Arg_RDBI led_id c"
  have "server_event (Suc (Suc n)) (sample_cfg ops board) i UDS_EVT_ReadDataByIdent ?arg w =
    obind (Returns (UDS_OK, True) w) (\<lambda>(ret, ap) w1. if ret \<noteq> UDS_OK then Returns (ret, ?arg) w
      else obind (read_led_action (so_led ops) (call_copy (server_dddi_env board)) (ctx_for i 0 UDS_EVT_ReadDataByIdent ?arg) True w)
        (\<lambda>(ret, c', arg') w'. Returns (ret, arg') w'))"
    by (rule identifier_answers [OF assms, where r = "reg_led k" and h = handler_read_data_by_identifier
          and f = Fn_check_read_with_data_id and a = Fn_read_led_action])
      (auto simp: data_handlers_def led_reg read_handler_simps data_reg_ids sample_cfg_def read_led_check_def
        read_led_action_def outcome_simps split: sum.splits)
  then show ?thesis by (simp add: read_led_action_def obind_assoc split: sum.splits)
qed

text \<open>What a request for writing or for input and output control does to the state of the LED.\<close>

definition led_written :: "uds_arg \<Rightarrow> 'g led_data \<Rightarrow> 'g led_data" where
  "led_written arg l =
     (case arg of Arg_WDBI did (b # _) \<Rightarrow> if did = led_id then l\<lparr>led_state := b\<rparr> else l | _ \<Rightarrow> l)"

definition led_controlled :: "uds_arg \<Rightarrow> 'g led_data \<Rightarrow> 'g led_data" where
  "led_controlled arg l =
     (case arg of
        Arg_IOCtrl did p m _ \<Rightarrow>
          if did \<noteq> led_id then l
          else if p = 3 \<and> m \<noteq> [] then l\<lparr>io_control_active := True, io_control_led_state := hd m\<rparr>
          else if p = 1 then l\<lparr>io_control_led_state := 0, led_state := 0\<rparr>
          else if p = 0 then l\<lparr>io_control_active := False\<rparr>
          else l
      | _ \<Rightarrow> l)"

lemma data_id_cases:
  assumes "r \<in> data_regs k"
  shows "di_data_id (reg_data r) \<in> {primitive_type_id, string_id, authenticated_type_id, led_id, secure_data_id}"
  using assms by (auto simp: data_regs_def data_reg_ids)

text \<open>Requests that no registration for identifiers answers change nothing.\<close>

lemma unanswered_identifier:
  assumes "sample_wf link k w" and "(h, f) \<in> data_handlers" and "h_event h = ev"
    and "server_event (Suc n) (sample_cfg ops board) i ev arg w = Returns (r, arg') w'"
    and "args_data_id arg \<notin> Some ` {primitive_type_id, string_id, authenticated_type_id, led_id, secure_data_id}"
  shows "w' = w"
proof (cases "args_data_id arg")
  case None
  have "server_event (Suc n) (sample_cfg ops board) i ev arg w = Undefined"
    by (rule no_identifier [OF assms(1-3) None])
  then show ?thesis using assms(4) by simp
next
  case (Some did)
  have "server_event (Suc n) (sample_cfg ops board) i ev arg w = Returns (h_default_nrc h, arg) w"
    by (rule unknown_identifier [OF assms(1-3) Some]) (use assms(5) Some data_id_cases in fastforce)
  then show ?thesis using assms(4) by simp
qed

lemma write_event_led:
  assumes "sample_wf link k w" and "server_event (Suc n) (sample_cfg ops board) i UDS_EVT_WriteDataByIdent arg w = Returns (r, arg') w'"
  shows "sm_led (user w') = led_written arg (sm_led (user w))"
proof -
  consider (led) "args_data_id arg = Some led_id" | (prim) "args_data_id arg = Some primitive_type_id"
    | (ro) did where "args_data_id arg = Some did" "did \<in> {string_id, authenticated_type_id, secure_data_id}"
    | (none) "args_data_id arg \<notin> Some ` {primitive_type_id, string_id, authenticated_type_id, led_id, secure_data_id}"
    by blast
  then show ?thesis
  proof cases
    case led
    then show ?thesis
      using assms(2) unfolding write_led_eq [OF assms(1) led]
      by (auto simp: write_led_action_def with_led_mutex_def led_written_def outcome_simps
          split: uds_arg.splits list.splits if_splits)
  next
    case prim
    then show ?thesis
      using assms(2) unfolding write_primitive_answer [OF assms(1) prim]
      by (auto simp: led_written_def data_id_defs split: uds_arg.splits option.splits if_splits list.splits)
  next
    case ro
    then show ?thesis using assms(2) unfolding read_only_undefined(1) [OF assms(1) ro] by simp
  next
    case none
    have "w' = w" by (rule unanswered_identifier [OF assms(1) _ _ assms(2) none, of handler_write_data_by_identifier])
      (auto simp: data_handlers_def write_handler_simps)
    then show ?thesis using none by (auto simp: led_written_def split: uds_arg.splits list.splits)
  qed
qed

lemma io_param_u8 [simp]: "(ucast (p :: u8) :: u16) = 3 \<longleftrightarrow> p = 3" "(ucast (p :: u8) :: u16) = 1 \<longleftrightarrow> p = 1"
  "(ucast (p :: u8) :: u16) = 0 \<longleftrightarrow> p = 0"
  by (transfer, simp add: take_bit_eq_mod)+

lemma io_event_led:
  assumes "sample_wf link k w" and "server_event (Suc n) (sample_cfg ops board) i UDS_EVT_IOControl arg w = Returns (r, arg') w'"
    and "\<And>g. \<exists>v. gpio_pin_get_dt (so_led ops) g = Inr v"
  shows "sm_led (user w') = led_controlled arg (sm_led (user w))"
proof -
  consider (led) "args_data_id arg = Some led_id"
    | (ro) did where "args_data_id arg = Some did" "did \<in> {primitive_type_id, string_id, authenticated_type_id, secure_data_id}"
    | (none) "args_data_id arg \<notin> Some ` {primitive_type_id, string_id, authenticated_type_id, led_id, secure_data_id}"
    by blast
  then show ?thesis
  proof cases
    case led
    obtain v where v: "gpio_pin_get_dt (so_led ops) (led_gpio (sm_led (user w))) = Inr v" using assms(3) by blast
    show ?thesis
      using assms(2) v led unfolding write_led_eq [OF assms(1) led] io_led_eq [OF assms(1) led]
      by (auto simp: io_ctrl_led_action_def with_led_mutex_def led_controlled_def outcome_simps Let_def dest!: copy_same_user
          split: uds_arg.splits if_splits)
  next
    case ro
    then show ?thesis using assms(2) unfolding read_only_undefined(2) [OF assms(1) ro] by simp
  next
    case none
    have "w' = w" by (rule unanswered_identifier [OF assms(1) _ _ assms(2) none, of handler_io_control_by_identifier])
      (auto simp: data_handlers_def io_handler_simps)
    then show ?thesis using none by (auto simp: led_controlled_def split: uds_arg.splits)
  qed
qed

lemma changes_led:
  "changes u z z' \<Longrightarrow> u \<notin> {Fn_write_led_action, Fn_io_ctrl_led_action} \<Longrightarrow> sm_led z' = sm_led z"
  by (cases u) (auto dest: arg_cong [where f = sm_led])

text \<open>
  The abstract LED: the state that was written, and the override of input and output control. The trace of
  the requests determines both.
\<close>

definition led_abs :: "'g led_data \<Rightarrow> u8 \<times> u8 option" where
  "led_abs l = (led_state l, if io_control_active l then Some (io_control_led_state l) else None)"

definition led_shown :: "u8 \<times> u8 option \<Rightarrow> u8" where
  "led_shown a = (case snd a of Some v \<Rightarrow> v | None \<Rightarrow> fst a)"

definition led_spec :: "sample_event \<Rightarrow> u8 \<times> u8 option \<Rightarrow> u8 \<times> u8 option" where
  "led_spec e a =
     (case e of
        Request _ UDS_EVT_WriteDataByIdent (Arg_WDBI did (b # _)) _ \<Rightarrow> if did = led_id then (b, snd a) else a
      | Request _ UDS_EVT_IOControl (Arg_IOCtrl did p m _) _ \<Rightarrow>
          if did \<noteq> led_id then a
          else if p = 3 \<and> m \<noteq> [] then (fst a, Some (hd m))
          else if p = 1 then (0, map_option (\<lambda>_. 0) (snd a))
          else if p = 0 then (fst a, None)
          else a
      | _ \<Rightarrow> a)"

lemma led_abs_written: "led_abs (led_written arg l) = led_spec (Request i UDS_EVT_WriteDataByIdent arg r) (led_abs l)"
  by (auto simp: led_abs_def led_written_def led_spec_def split: uds_arg.split list.split)

lemma led_abs_controlled: "led_abs (led_controlled arg l) = led_spec (Request i UDS_EVT_IOControl arg r) (led_abs l)"
  by (auto simp: led_abs_def led_controlled_def led_spec_def split: uds_arg.split)

lemma led_frame:
  "led_configured (led_written arg l) = led_configured l" "led_configured (led_controlled arg l) = led_configured l"
  by (auto simp: led_written_def led_controlled_def split: uds_arg.split list.split)

lemma led_step:
  fixes w w' :: "(sample_fn, 'c, 'f, 'fs, 'h, 'r, 'n, 'g, 'p) sample_world"
  assumes step: "sample_step (sample_cfg ops board) (so_led ops) level_after w e w'" and wf: "sample_wf link k w"
    and led: "led_configured (sm_led (user w))" "\<And>g. \<exists>v. gpio_pin_get_dt (so_led ops) g = Inr v"
  shows "led_configured (sm_led (user w')) \<and> led_abs (sm_led (user w')) = led_spec e (led_abs (sm_led (user w)))"
  using step
proof cases
  case (request n i ev arg r arg' w1)
  consider "ev = UDS_EVT_WriteDataByIdent" | "ev = UDS_EVT_IOControl" | "ev \<notin> {UDS_EVT_WriteDataByIdent, UDS_EVT_IOControl}"
    by blast
  then show ?thesis
  proof cases
    case 1
    show ?thesis
      using write_event_led [OF wf request(3) [unfolded 1]] led by (simp add: request 1 led_frame led_abs_written [symmetric])
  next
    case 2
    show ?thesis
      using io_event_led [OF wf request(3) [unfolded 2] led(2)] led by (simp add: request 2 led_frame led_abs_controlled [symmetric])
  next
    case 3
    have "sample_wf link k w1 \<and> sm_led (user w1) = sm_led (user w) \<and> srv_securityLevel (env w1) = srv_securityLevel (env w)"
      by (rule request_keeps_part [OF _ wf request(3)]) (use 3 in \<open>auto elim!: changes_led\<close>)
    then show ?thesis using 3 led by (auto simp: request led_spec_def split: UDSEvent_t.split)
  qed
qed (use led in \<open>auto simp: led_spec_def led_abs_def led_thread_pass_def\<close>)

lemma led_run:
  assumes "sample_run (sample_cfg ops board) (so_led ops) level_after w0 tr w" and "sample_wf link k w0"
    and "led_configured (sm_led (user w0))" and "\<And>g. \<exists>v. gpio_pin_get_dt (so_led ops) g = Inr v"
  shows "led_configured (sm_led (user w)) \<and> led_abs (sm_led (user w)) = foldr led_spec tr (led_abs (sm_led (user w0)))"
  using assms(1)
proof (induction rule: sample_run.induct)
  case (sample_more tr w e w')
  have "sample_wf link k w" by (rule sample_run_wf [OF sample_more(1) assms(2)])
  from led_step [OF sample_more(2) this _ assms(4)] sample_more(3) show ?case by simp
qed (use assms(3) in simp)

section \<open>Memory\<close>

lemma memory_handlers_member:
  "handler_read_memory_by_addr \<in> set uds_handlers" "handler_write_memory_by_addr \<in> set uds_handlers"
  by (simp_all add: uds_handlers_def)

lemmas memory_handler_simps = handler_read_memory_by_addr_def handler_write_memory_by_addr_def selector_defs

lemma reg_memory_member: "reg_memory k \<in> set (sample_static link k)"
  by (simp add: sample_static_def sample_registrations_def)

lemma skip_not_memory:
  assumes "sample_wf link k w" and "m < length (static_regs w)" and "static_regs w ! m \<noteq> reg_memory k"
    and "h_registration_type h = UDS_REGISTRATION_TYPE__MEMORY"
  shows "skips ck ac i ev arg h w (Static m)"
  by (rule skip_other_type [OF assms(1-3)]) (simp add: assms(4) static_type_cases)

abbreviation mem_offset :: "u32 \<Rightarrow> nat" where
  "mem_offset a \<equiv> unat (a - fake_memory_start_addr)"

lemma read_memory_eq:
  assumes "sample_wf link k w"
  shows "server_event (Suc n) (sample_cfg ops board) i UDS_EVT_ReadMemByAddr (Arg_ReadMem a sz c) w =
    (if fake_memory_refuses a sz then Returns (UDS_NRC_ConditionsNotCorrect, Arg_ReadMem a sz c) w
     else if mem_offset a + unat (ucast sz :: u16) > length (fake_memory (user w)) then Undefined
     else obind (call_copy (server_dddi_env board) c (take (unat (ucast sz :: u16)) (drop (mem_offset a) (fake_memory (user w)))) w)
       (\<lambda>r w'. Returns (r, Arg_ReadMem a sz c) w'))"
proof (cases "fake_memory_refuses a sz")
  case True
  then show ?thesis
    by (subst sample_unapplied [OF assms memory_handlers_member(1), where r = "reg_memory k"
          and c = "Check_user Fn_read_mem_by_address_check"])
      (auto simp: memory_handler_simps static_type_cases reg_memory_def single_reg_defs sample_cfg_def
        read_mem_by_address_check_def)
next
  case False
  let ?ctx = "ctx_for i 0 UDS_EVT_ReadMemByAddr (Arg_ReadMem a sz c)"
  from False show ?thesis
    by (subst sample_answers [OF assms memory_handlers_member(1) _ reg_memory_member skip_not_memory [OF assms],
          where chk = "Returns (UDS_OK, True) w" and act = "read_mem_by_address_action (call_copy (server_dddi_env board)) ?ctx True w"])
      (auto simp: memory_handler_simps reg_memory_def single_reg_defs sample_cfg_def read_mem_by_address_check_def
        read_mem_by_address_action_def outcome_simps obind_assoc Let_def split: if_splits)
qed

lemma write_memory_eq:
  assumes "sample_wf link k w"
  shows "server_event (Suc n) (sample_cfg ops board) i UDS_EVT_WriteMemByAddr (Arg_WriteMem a sz bs) w =
    (if fake_memory_refuses a sz then Returns (UDS_NRC_ConditionsNotCorrect, Arg_WriteMem a sz bs) w
     else if mem_offset a + unat sz > length (fake_memory (user w)) \<or> length bs < unat sz then Undefined
     else Returns (UDS_PositiveResponse, Arg_WriteMem a sz bs)
       (upd_user (\<lambda>z. z\<lparr>fake_memory := take (mem_offset a) (fake_memory (user w)) @ take (unat sz) bs @
          drop (mem_offset a + unat sz) (fake_memory (user w))\<rparr>) w))"
proof (cases "fake_memory_refuses a sz")
  case True
  then show ?thesis
    by (subst sample_unapplied [OF assms memory_handlers_member(2), where r = "reg_memory k"
          and c = "Check_user Fn_write_mem_by_address_check"])
      (auto simp: memory_handler_simps static_type_cases reg_memory_def single_reg_defs sample_cfg_def
        write_mem_by_address_check_def)
next
  case False
  let ?ctx = "ctx_for i 0 UDS_EVT_WriteMemByAddr (Arg_WriteMem a sz bs)"
  from False show ?thesis
    by (subst sample_answers [OF assms memory_handlers_member(2) _ reg_memory_member skip_not_memory [OF assms],
          where chk = "Returns (UDS_OK, True) w" and act = "write_mem_by_address_action ?ctx True w"])
      (auto simp: memory_handler_simps reg_memory_def single_reg_defs sample_cfg_def write_mem_by_address_check_def
        write_mem_by_address_action_def outcome_simps Let_def split: if_splits)
qed

text \<open>The window that the checks leave open ends one byte before the end of the memory.\<close>

lemma length_fake_memory_init: "length fake_memory_init = 100"
  by (simp add: fake_memory_init_def del: upt_rec_numeral)

lemma refuses_unat: "fake_memory_refuses a sz \<longleftrightarrow> unat a < 0x1000 \<or> 0x1064 \<le> unat (a + sz)"
  by (simp add: fake_memory_refuses_def length_fake_memory_init fake_memory_start_addr_def word_less_nat_alt word_le_nat_alt)

lemma refuses_no_wrap:
  assumes "unat a + unat sz < 2 ^ 32"
  shows "fake_memory_refuses a sz \<longleftrightarrow> \<not> (0x1000 \<le> unat a \<and> unat a + unat sz < 0x1064)"
proof -
  have "unat (a + sz) = unat a + unat sz" using assms by (simp add: unat_add_no_overflow)
  then show ?thesis
    by (auto simp: refuses_unat)
qed

lemma refuses_wrap:
  assumes "2 ^ 32 \<le> unat a + unat sz"
  shows "fake_memory_refuses a sz \<longleftrightarrow> \<not> (0x1000 \<le> unat a \<and> unat a + unat sz < 2 ^ 32 + 0x1064)"
proof -
  have "unat (a + sz) = unat a + unat sz - 2 ^ 32"
  proof -
    have "unat (a + sz) = (unat a + unat sz) mod 2 ^ 32" by (simp add: unat_word_ariths)
    also have "\<dots> = (unat a + unat sz - 2 ^ 32) mod 2 ^ 32" by (rule le_mod_geq [OF assms])
    also have "\<dots> = unat a + unat sz - 2 ^ 32"
      by (rule mod_less) (use unat_u32_less [of a] unat_u32_less [of sz] in \<open>simp del: unat_u32_less unsigned_less\<close>)
    finally show ?thesis .
  qed
  then show ?thesis
    using assms unat_u32_less [of a] unat_u32_less [of sz]
    by (auto simp: refuses_unat)
qed

lemma mem_offset_eq:
  assumes "0x1000 \<le> unat a"
  shows "mem_offset a = unat a - 0x1000"
  using assms by (simp add: fake_memory_start_addr_def unat_sub_if' )

text \<open>A range in the window keeps its size when it is cut to 16 bits; one whose end wrapped around leaves the array.\<close>

lemma window_count:
  assumes "unat a + unat sz < 0x1064"
  shows "unat (ucast (sz :: u32) :: u16) = unat sz"
  using assms by (simp add: unat_ucast_u32_u16)

lemma wrapped_read_leaves_memory:
  assumes "0x1000 \<le> unat a" and "2 ^ 32 \<le> unat a + unat sz"
  shows "100 < mem_offset a + unat (ucast (sz :: u32) :: u16)"
proof (cases "unat a \<le> 0x1064")
  case True
  then have "0xFFFF0000 \<le> unat sz" using assms(2) by simp
  then obtain r where r: "unat sz = 0xFFFF * 65536 + r" using le_Suc_ex by fastforce
  then have "r < 65536" using unat_u32_less [of sz] by simp
  then have "unat (ucast sz :: u16) = r" by (simp only: unat_ucast_u32_u16 r mod_mult_self3 mod_less)
  then show ?thesis using True assms(2) r by simp
next
  case False
  then show ?thesis using assms(1) by (simp add: mem_offset_eq)
qed

section \<open>Properties\<close>

text \<open>
  (C15) The LED shows what the requests ask for: once the update thread is in its loop, and as long as the pin can be
  read, after any run of requests and background steps the next pass of the thread sets the pin to the override, where there is
  one, and otherwise to the written state. Both are determined by the requests alone: a write of the LED identifier sets the state to its
  first byte; a short term adjustment with a value sets the override to it; a reset to default sets the state to 0, and an override
  too, which it does not end; returning control ends the override; nothing else changes either.
\<close>

theorem led_shows_last_command:
  fixes w0 w :: "(sample_fn, 'c, 'f, 'fs, 'h, 'r, 'n, 'g, 'p) sample_world"
  assumes "sample_run (sample_cfg ops board) (so_led ops) level_after w0 tr w" and "sample_wf link k w0"
    and "led_configured (sm_led (user w0))" and "\<And>g. \<exists>v. gpio_pin_get_dt (so_led ops) g = Inr v"
  shows "led_abs (sm_led (user w)) = foldr led_spec tr (led_abs (sm_led (user w0))) \<and>
    sample_step (sample_cfg ops board) (so_led ops) level_after w Background (upd_led (led_thread_pass (so_led ops)) w) \<and>
    led_gpio (led_thread_pass (so_led ops) (sm_led (user w))) =
      gpio_pin_set_dt (so_led ops) (led_shown (foldr led_spec tr (led_abs (sm_led (user w0))))) (led_gpio (sm_led (user w)))"
proof -
  note run = led_run [OF assms]
  have "led_gpio (led_thread_pass (so_led ops) (sm_led (user w))) =
      gpio_pin_set_dt (so_led ops) (led_shown (led_abs (sm_led (user w)))) (led_gpio (sm_led (user w)))"
    by (simp add: led_thread_pass_def led_shown_def led_abs_def)
  then show ?thesis using run by (simp add: led_passes)
qed

definition demo_led :: demo_state where
  "demo_led = (sample_init 0 ())\<lparr>sm_led := led_thread_start (so_led demo_sample_ops) (sm_led (sample_init 0 ()))\<rparr>"

lemma demo_led_facts: "sm_led demo_led = \<lparr>led_state = 0, io_control_led_state = 0, io_control_active = False, led_mutex_held = False,
    led_configured = True, led_gpio = 0\<rparr>"
  by (simp add: demo_led_def led_thread_start_def demo_sample_ops_def sample_init_def)

theorem led_shows_last_command_witness:
  "\<exists>w. sample_run demo_sample_cfg (so_led demo_sample_ops) demo_level (demo_sample demo_led)
       [Request 0 UDS_EVT_IOControl (Arg_IOCtrl led_id 3 [1] Copy_lib) UDS_PositiveResponse,
        Request 0 UDS_EVT_WriteDataByIdent (Arg_WDBI led_id [5]) UDS_PositiveResponse] w \<and>
     led_gpio (led_thread_pass (so_led demo_sample_ops) (sm_led (user w))) = 1"
proof -
  let ?w0 = "demo_sample demo_led" and ?led = "so_led demo_sample_ops"
  let ?wr = "Arg_WDBI led_id [5]" and ?io = "Arg_IOCtrl led_id 3 [1] Copy_lib"
  have pin: "\<exists>v. gpio_pin_get_dt ?led g = Inr v" for g by (simp add: demo_sample_ops_def)
  let ?w1 = "upd_led (\<lambda>l. l\<lparr>led_state := 5\<rparr>) ?w0"
  have "args_data_id ?wr = Some led_id" by simp
  have "server_event (Suc (Suc 0)) demo_sample_cfg 0 UDS_EVT_WriteDataByIdent ?wr ?w0 = Returns (UDS_PositiveResponse, ?wr) ?w1"
    unfolding write_led_eq [OF demo_sample_facts(1) \<open>args_data_id ?wr = Some led_id\<close>]
    by (simp add: write_led_action_def with_led_mutex_def demo_led_facts)
  note run1 = sample_more [OF sample_start request [OF this], where led = ?led and level_after = demo_level]
  let ?w2 = "set_level 0 (demo_level UDS_EVT_WriteDataByIdent ?wr UDS_PositiveResponse (srv_securityLevel (env ?w1) 0)) ?w1"
  have wf: "sample_wf True 0 ?w2" by simp
  have io: "args_data_id ?io = Some led_id" by simp
  obtain w3 where "server_event (Suc (Suc 0)) demo_sample_cfg 0 UDS_EVT_IOControl ?io ?w2 = Returns (UDS_PositiveResponse, ?io) w3"
    unfolding io_led_eq [OF wf io]
    by (simp add: io_ctrl_led_action_def with_led_mutex_def demo_led_facts demo_copy) (simp add: demo_sample_ops_def demo_copy)
  note run2 = sample_more [OF run1 request [OF this]]
  from led_shows_last_command [OF run2 demo_sample_facts(1) _ pin] run2 show ?thesis
    by (simp add: demo_led_facts led_abs_def led_spec_def led_shown_def) (auto simp: demo_sample_ops_def)
qed

text \<open>
  When the pin of the LED cannot be configured, the update thread ends without giving back the mutex, and
  from then on every request to write the LED or to control it waits for ever: whatever fuel the model is
  given, there is no answer.
\<close>

theorem led_failure_blocks_requests:
  fixes w :: "(sample_fn, 'c, 'f, 'fs, 'h, 'r, 'n, 'g, 'p) sample_world"
  assumes "sample_wf link k w" and "rc_neg (fst (gpio_pin_configure_dt (so_led ops) (led_gpio (sm_led (user w)))))"
    and "bs \<noteq> []" and "p \<in> {0, 1} \<or> p = 3 \<and> m \<noteq> []"
  shows "server_event (Suc n) (sample_cfg ops board) i UDS_EVT_WriteDataByIdent (Arg_WDBI led_id bs)
      (upd_led (led_thread_start (so_led ops)) w) = NoFuel \<and>
    server_event (Suc n) (sample_cfg ops board) i UDS_EVT_IOControl (Arg_IOCtrl led_id p m c)
      (upd_led (led_thread_start (so_led ops)) w) = NoFuel"
proof -
  let ?w = "upd_led (led_thread_start (so_led ops)) w"
  have wf: "sample_wf link k ?w" using assms(1) by simp
  have held: "led_mutex_held (sm_led (user ?w))" using assms(2) by (auto simp: led_thread_start_def split: prod.split)
  have ids: "args_data_id (Arg_WDBI led_id bs) = Some led_id" "args_data_id (Arg_IOCtrl led_id p m c) = Some led_id" by simp_all
  show ?thesis
    unfolding write_led_eq [OF wf ids(1)] io_led_eq [OF wf ids(2)]
    using held assms(3,4) by (auto simp: write_led_action_def io_ctrl_led_action_def with_led_mutex_def Let_def split: list.splits)
qed

definition demo_broken_ops :: "(u8, unit, unit, u8 list) sample_ops" where
  "demo_broken_ops = demo_sample_ops\<lparr>so_led := (so_led demo_sample_ops)\<lparr>gpio_pin_configure_dt := (\<lambda>g. (Inl EIO, g))\<rparr>\<rparr>"

theorem led_failure_blocks_requests_witness:
  "server_event 9 (sample_cfg demo_broken_ops demo_board) 0 UDS_EVT_WriteDataByIdent (Arg_WDBI led_id [1])
      (upd_led (led_thread_start (so_led demo_broken_ops)) (demo_sample (sample_init 0 ()))) = NoFuel \<and>
   server_event 9 (sample_cfg demo_broken_ops demo_board) 0 UDS_EVT_IOControl (Arg_IOCtrl led_id 3 [1] Copy_lib)
      (upd_led (led_thread_start (so_led demo_broken_ops)) (demo_sample (sample_init 0 ()))) = NoFuel"
  using led_failure_blocks_requests [OF demo_sample_facts(1), where ops = demo_broken_ops and n = 8 and bs = "[1]" and p = 3 and m = "[1]"]
  by (simp add: demo_broken_ops_def)

text \<open>
  (C38) A read of the memory of the sample, for every address and size: the bytes of the range are handed to the copy function
  when it lies in the memory and leaves out its last byte; when the end of the range wraps around 32 bits into or below
  the memory, the check accepts it, and the range that is handed to the copy function, of the size cut to 16 bits, leaves the array, for
  which there is no outcome; every other range is refused. So the last byte of the memory can never be read, although it is
  part of the range, while an address far outside of it is accepted.
\<close>

theorem sample_memory_read_window:
  fixes w :: "(sample_fn, 'c, 'f, 'fs, 'h, 'r, 'n, 'g, 'p) sample_world"
  assumes "sample_wf link k w" and "length (fake_memory (user w)) = 100"
  shows "server_event (Suc n) (sample_cfg ops board) i UDS_EVT_ReadMemByAddr (Arg_ReadMem a sz c) w =
    (if 0x1000 \<le> unat a \<and> unat a + unat sz < 0x1064
     then obind (call_copy (server_dddi_env board) c (take (unat sz) (drop (unat a - 0x1000) (fake_memory (user w)))) w)
       (\<lambda>r w'. Returns (r, Arg_ReadMem a sz c) w')
     else if 0x1000 \<le> unat a \<and> 2 ^ 32 \<le> unat a + unat sz \<and> unat a + unat sz < 2 ^ 32 + 0x1064 then Undefined
     else Returns (UDS_NRC_ConditionsNotCorrect, Arg_ReadMem a sz c) w)"
proof (cases "unat a + unat sz < 2 ^ 32")
  case True
  show ?thesis
    unfolding read_memory_eq [OF assms(1)] refuses_no_wrap [OF True]
    using True assms(2) by (auto simp: mem_offset_eq window_count)
next
  case False
  then have wrap: "2 ^ 32 \<le> unat a + unat sz" by simp
  show ?thesis
    unfolding read_memory_eq [OF assms(1)] refuses_wrap [OF wrap]
    using wrap assms(2) wrapped_read_leaves_memory [OF _ wrap] by auto
qed

theorem sample_memory_read_window_witness:
  "server_event 1 demo_sample_cfg 0 UDS_EVT_ReadMemByAddr (Arg_ReadMem 0x1000 4 Copy_lib) (demo_sample (sample_init 0 ())) =
     obind (call_copy (server_dddi_env demo_board) Copy_lib [1, 2, 3, 4] (demo_sample (sample_init 0 ())))
       (\<lambda>r w'. Returns (r, Arg_ReadMem 0x1000 4 Copy_lib) w') \<and>
   server_event 1 demo_sample_cfg 0 UDS_EVT_ReadMemByAddr (Arg_ReadMem 0x1063 1 Copy_lib) (demo_sample (sample_init 0 ())) =
     Returns (UDS_NRC_ConditionsNotCorrect, Arg_ReadMem 0x1063 1 Copy_lib) (demo_sample (sample_init 0 ())) \<and>
   server_event 1 demo_sample_cfg 0 UDS_EVT_ReadMemByAddr (Arg_ReadMem 0xFFFFFFFF 1 Copy_lib) (demo_sample (sample_init 0 ())) = Undefined"
proof -
  let ?w = "demo_sample (sample_init 0 ())"
  have mem: "fake_memory (user ?w) = fake_memory_init" by (simp add: sample_init_def)
  have len: "length (fake_memory (user ?w)) = 100" by (simp only: mem length_fake_memory_init)
  have "take 4 fake_memory_init = [1, 2, 3, 4]" by (simp add: fake_memory_init_def del: upt_rec_numeral)
  then show ?thesis
    unfolding One_nat_def sample_memory_read_window [OF demo_sample_facts(1) len] mem by simp
qed

text \<open>
  What is written to the memory of the sample is read back: a write to a range in the window is answered
  positively, it changes exactly the bytes of the range, and a read of the range then copies the
  bytes that were written.
\<close>

theorem sample_memory_write_read:
  fixes w :: "(sample_fn, 'c, 'f, 'fs, 'h, 'r, 'n, 'g, 'p) sample_world"
  assumes "sample_wf link k w" and "length (fake_memory (user w)) = 100"
    and "0x1000 \<le> unat a" and "unat a + length bs < 0x1064" and "unat sz = length bs"
  shows "\<exists>w'. server_event (Suc n) (sample_cfg ops board) i UDS_EVT_WriteMemByAddr (Arg_WriteMem a sz bs) w =
      Returns (UDS_PositiveResponse, Arg_WriteMem a sz bs) w' \<and>
    length (fake_memory (user w')) = 100 \<and>
    (\<forall>j < 100. fake_memory (user w') ! j =
       (if unat a - 0x1000 \<le> j \<and> j < unat a - 0x1000 + length bs then bs ! (j - (unat a - 0x1000)) else fake_memory (user w) ! j)) \<and>
    server_event (Suc n) (sample_cfg ops board) i' UDS_EVT_ReadMemByAddr (Arg_ReadMem a sz c) w' =
      obind (call_copy (server_dddi_env board) c bs w') (\<lambda>r w''. Returns (r, Arg_ReadMem a sz c) w'')"
proof -
  let ?m = "fake_memory (user w)" and ?o = "unat a - 0x1000"
  let ?m' = "take ?o ?m @ bs @ drop (?o + length bs) ?m"
  let ?w' = "upd_user (\<lambda>z. z\<lparr>fake_memory := ?m'\<rparr>) w"
  have nowrap: "unat a + unat sz < 2 ^ 32" using assms(4,5) by simp
  have off: "?o + length bs < 100" using assms(3,4) by linarith
  have len: "length (fake_memory (user ?w')) = 100" using off assms(2) by simp
  have wf': "sample_wf link k ?w'" using assms(1) by simp
  have wr: "server_event (Suc n) (sample_cfg ops board) i UDS_EVT_WriteMemByAddr (Arg_WriteMem a sz bs) w =
      Returns (UDS_PositiveResponse, Arg_WriteMem a sz bs) ?w'"
    unfolding write_memory_eq [OF assms(1)] refuses_no_wrap [OF nowrap]
    using assms(2-5) off by (simp add: mem_offset_eq)
  have read: "server_event (Suc n) (sample_cfg ops board) i' UDS_EVT_ReadMemByAddr (Arg_ReadMem a sz c) ?w' =
      obind (call_copy (server_dddi_env board) c bs ?w') (\<lambda>r w''. Returns (r, Arg_ReadMem a sz c) w'')"
    unfolding read_memory_eq [OF wf'] refuses_no_wrap [OF nowrap]
    using assms(2-5) off by (simp add: mem_offset_eq min_absorb2 window_count)
  have bytes: "?m' ! j = (if ?o \<le> j \<and> j < ?o + length bs then bs ! (j - ?o) else ?m ! j)" if "j < 100" for j
    using that off assms(2) by (auto simp: nth_append min_absorb2)
  from wr len bytes read show ?thesis by (intro exI [of _ ?w']) simp
qed

theorem sample_memory_write_read_witness:
  "\<exists>w'. server_event 1 demo_sample_cfg 0 UDS_EVT_WriteMemByAddr (Arg_WriteMem 0x1010 2 [0xAA, 0xBB]) (demo_sample (sample_init 0 ())) =
      Returns (UDS_PositiveResponse, Arg_WriteMem 0x1010 2 [0xAA, 0xBB]) w' \<and>
    fake_memory (user w') ! 0x11 = 0xBB \<and>
    server_event 1 demo_sample_cfg 0 UDS_EVT_ReadMemByAddr (Arg_ReadMem 0x1010 2 Copy_lib) w' =
      obind (call_copy (server_dddi_env demo_board) Copy_lib [0xAA, 0xBB] w') (\<lambda>r w''. Returns (r, Arg_ReadMem 0x1010 2 Copy_lib) w'')"
proof -
  have "length (fake_memory (user (demo_sample (sample_init 0 ())))) = 100" by (simp add: sample_init_def length_fake_memory_init)
  from sample_memory_write_read [OF demo_sample_facts(1) this, where a = "0x1010" and bs = "[0xAA, 0xBB]" and sz = 2
      and ops = demo_sample_ops and board = demo_board and n = 0 and i = 0 and i' = 0 and c = Copy_lib]
  obtain w' where w': "server_event (Suc 0) demo_sample_cfg 0 UDS_EVT_WriteMemByAddr (Arg_WriteMem 0x1010 2 [0xAA, 0xBB]) (demo_sample (sample_init 0 ())) =
      Returns (UDS_PositiveResponse, Arg_WriteMem 0x1010 2 [0xAA, 0xBB]) w'"
    "\<forall>j < 100. fake_memory (user w') ! j = (if 16 \<le> j \<and> j < 16 + 2 then [0xAA, 0xBB] ! (j - 16) else fake_memory (user (demo_sample (sample_init 0 ()))) ! j)"
    "server_event (Suc 0) demo_sample_cfg 0 UDS_EVT_ReadMemByAddr (Arg_ReadMem 0x1010 2 Copy_lib) w' =
      obind (call_copy (server_dddi_env demo_board) Copy_lib [0xAA, 0xBB] w') (\<lambda>r w''. Returns (r, Arg_ReadMem 0x1010 2 Copy_lib) w'')"
    by auto
  have "fake_memory (user w') ! 0x11 = 0xBB" using spec [OF w'(2), of "0x11"] by simp
  with w'(1,3) show ?thesis unfolding One_nat_def by blast
qed

end
