(* ===== verification/Sample_Work.thy ===== *)
theory Sample_Work
  imports Sample_Access
begin

text \<open>
  The trouble codes and the routines of the UDS sample, whose requests work together with work items: what a
  report of the trouble codes lists, that cleared codes come back and frozen ones stay as they are, and that the
  asynchronous routine ends.
\<close>

section \<open>Requests for trouble codes\<close>

lemma dtc_handlers_member:
  "handler_read_dtc_info \<in> set uds_handlers" "handler_clear_diag_info \<in> set uds_handlers"
  "handler_control_dtc_setting \<in> set uds_handlers" "handler_routine_control \<in> set uds_handlers"
  by (simp_all add: uds_handlers_def)

lemma dtc_regs_member:
  "reg_dtc_read k \<in> set (sample_static link k)" "reg_dtc_clear k \<in> set (sample_static link k)"
  "reg_dtc_setting k \<in> set (sample_static link k)" "reg_async_routine k \<in> set (sample_static link k)"
  "reg_sync_routine k \<in> set (sample_static link k)"
  by (simp_all add: sample_static_def sample_registrations_def)

lemmas dtc_handler_simps = handler_read_dtc_info_def handler_clear_diag_info_def handler_control_dtc_setting_def
  handler_routine_control_def selector_defs

lemma clear_event_eq:
  assumes "sample_wf link k w"
  shows "server_event (Suc n) (sample_cfg ops board) i UDS_EVT_ClearDiagnosticInfo arg w =
    Returns (UDS_PositiveResponse, arg)
      (upd_dtc (\<lambda>s. s\<lparr>dtc_records := map (\<lambda>d. d\<lparr>is_active := False\<rparr>) (dtc_records s), dtc_reactivate_pending := True\<rparr>) w)"
proof -
  have "server_event (Suc n) (sample_cfg ops board) i UDS_EVT_ClearDiagnosticInfo arg w =
    obind (Returns (UDS_OK, True) w) (\<lambda>(ret, ap) w1. if ret \<noteq> UDS_OK then Returns (ret, arg) w
      else obind (clear_diag_info_act (ctx_for i 0 UDS_EVT_ClearDiagnosticInfo arg) True w) (\<lambda>(ret, c', arg') w'. Returns (ret, arg') w'))"
    by (rule sample_answers [OF assms dtc_handlers_member(2) _ dtc_regs_member(2) skip_other_type [OF assms],
          where c = "Check_user Fn_clear_diag_info_check" and a = Fn_clear_diag_info_act])
      (auto simp: dtc_handler_simps reg_dtc_clear_def single_reg_defs static_type_cases [unfolded reg_dtc_clear_def single_reg_defs]
        sample_cfg_def clear_diag_info_check_def clear_diag_info_act_def Let_def)
  then show ?thesis by (simp add: clear_diag_info_act_def Let_def upd_user_compose)
qed

lemma setting_event_eq:
  assumes "sample_wf link k w"
  shows "server_event (Suc n) (sample_cfg ops board) i UDS_EVT_ControlDTCSetting arg w =
    obind (control_dtc_setting_action (ctx_for i 0 UDS_EVT_ControlDTCSetting arg) True w) (\<lambda>(ret, c', arg') w'. Returns (ret, arg') w')"
proof -
  have "server_event (Suc n) (sample_cfg ops board) i UDS_EVT_ControlDTCSetting arg w =
    obind (Returns (UDS_OK, True) w) (\<lambda>(ret, ap) w1. if ret \<noteq> UDS_OK then Returns (ret, arg) w
      else obind (control_dtc_setting_action (ctx_for i 0 UDS_EVT_ControlDTCSetting arg) True w) (\<lambda>(ret, c', arg') w'. Returns (ret, arg') w'))"
    by (rule sample_answers [OF assms dtc_handlers_member(3) _ dtc_regs_member(3) skip_other_type [OF assms],
          where c = "Check_user Fn_control_dtc_setting_check" and a = Fn_control_dtc_setting_action])
      (auto simp: dtc_handler_simps reg_dtc_setting_def single_reg_defs static_type_cases [unfolded reg_dtc_setting_def single_reg_defs]
        sample_cfg_def control_dtc_setting_check_def control_dtc_setting_action_def split: uds_arg.splits if_splits)
  then show ?thesis by simp
qed

lemma read_dtc_at: "read_dtc_info_action copy (ctx_for i m ev arg) b w = read_dtc_info_action copy (ctx_for i 0 ev arg) b w"
  by (simp only: read_dtc_info_action_def uds_context.simps)

lemma read_dtc_consumes: "read_dtc_info_action copy ctx True w = Returns (ret, c, arg') w' \<Longrightarrow> c"
  by (auto simp: read_dtc_info_action_def outcome_simps split: uds_arg.splits if_splits)

lemma read_dtc_event_eq:
  assumes "sample_wf link k w"
  shows "server_event (Suc (Suc n)) (sample_cfg ops board) i UDS_EVT_ReadDTCInformation
      (Arg_RDTCI (read_dtc_info_val UDS_READ_DTC_INFO_SUBFUNC__DTC_BY_STATUS_MASK) msk) w =
    obind (read_dtc_info_action (call_copy (server_dddi_env board)) (ctx_for i 0 UDS_EVT_ReadDTCInformation
        (Arg_RDTCI (read_dtc_info_val UDS_READ_DTC_INFO_SUBFUNC__DTC_BY_STATUS_MASK) msk)) True w)
      (\<lambda>(ret, c', arg') w'. Returns (ret, arg') w')"
proof -
  let ?arg = "Arg_RDTCI (read_dtc_info_val UDS_READ_DTC_INFO_SUBFUNC__DTC_BY_STATUS_MASK) msk"
  have "server_event (Suc (Suc n)) (sample_cfg ops board) i UDS_EVT_ReadDTCInformation ?arg w =
    obind (Returns (UDS_OK, True) w) (\<lambda>(ret, ap) w1. if ret \<noteq> UDS_OK then Returns (ret, ?arg) w
      else obind (read_dtc_info_action (call_copy (server_dddi_env board)) (ctx_for i 0 UDS_EVT_ReadDTCInformation ?arg) True w)
        (\<lambda>(ret, c', arg') w'. Returns (ret, arg') w'))"
    by (rule sample_answers [OF assms dtc_handlers_member(1) _ dtc_regs_member(1) skip_other_type [OF assms],
          where c = Fn_check_with_subfunc and a = Fn_read_dtc_info_action])
      (auto simp: dtc_handler_simps reg_dtc_read_def single_reg_defs static_type_cases [unfolded reg_dtc_read_def single_reg_defs]
        sample_cfg_def uds_check_with_subfunc_fn_def read_dtc_info_check_def intro: read_dtc_at dest: read_dtc_consumes)
  then show ?thesis by simp
qed

section \<open>Invariants of runs\<close>

text \<open>
  A property of the state of the sample that its actions, its threads and its work items keep holds after
  every run.
\<close>

locale sample_invariant =
  fixes ops :: "('g, 'p, 'k, 'r) sample_ops"
    and board :: "(sample_fn, 'c, 'f, 'fs, 'h, 'r, 'n, ('g, 'p) sample_state) server_cfg"
    and link :: bool and k :: inst and Q :: "('g, 'p) sample_state \<Rightarrow> bool"
  assumes action_keeps: "sample_keeps link k (\<lambda>_. Q) w \<Longrightarrow>
      oholds (sample_keeps link k (\<lambda>_. Q)) (sample_action ops (call_copy (server_dddi_env board)) u ctx b w)"
    and led_keeps: "Q z \<Longrightarrow> Q (z\<lparr>sm_led := led_thread_start (so_led ops) (sm_led z)\<rparr>)"
      "Q z \<Longrightarrow> Q (z\<lparr>sm_led := led_thread_pass (so_led ops) (sm_led z)\<rparr>)"
    and dtc_keeps: "Q z \<Longrightarrow> Q (z\<lparr>sm_dtc := dtc_reactivate_work_handler (sm_dtc z)\<rparr>)"
      "Q z \<Longrightarrow> Q (z\<lparr>sm_dtc := dtc_status_increment_work_handler (sm_dtc z)\<rparr>)"
    and work_keeps: "Q z \<Longrightarrow> async_work_step (sm_async z) = Some a \<Longrightarrow> Q (z\<lparr>sm_async := a\<rparr>)"
begin

lemma event_keeps_part:
  assumes "sample_wf link k w" and "Q (user w)" and "server_event n (sample_cfg ops board) i ev arg w = Returns x w'"
  shows "sample_wf link k w' \<and> Q (user w')"
  using request_keeps [OF action_keeps, of ev w n i arg] assms by (simp add: sample_keeps_def)

lemma step_keeps:
  assumes "sample_step (sample_cfg ops board) (so_led ops) level_after w e w'" and "sample_wf link k w" and "Q (user w)"
  shows "sample_wf link k w' \<and> Q (user w')"
  using assms(1)
proof cases
  case (request n i ev arg r arg' w1)
  then show ?thesis using event_keeps_part [OF assms(2,3) request(3)] by simp
qed (use assms(2,3) led_keeps dtc_keeps work_keeps in simp_all)

lemma run_keeps:
  assumes "sample_run (sample_cfg ops board) (so_led ops) level_after w0 tr w" and "sample_wf link k w0" and "Q (user w0)"
  shows "sample_wf link k w \<and> Q (user w)"
  using assms by (induction rule: sample_run.induct) (auto dest: step_keeps)

end

text \<open>An action that does not change a part keeps what is said of this part.\<close>

lemma unchanged_part_keeps:
  assumes "\<And>z z'. changes u z z' \<Longrightarrow> part z' = part z" and "sample_keeps link k (\<lambda>_ z. P (part z)) w"
  shows "oholds (sample_keeps link k (\<lambda>_ z. P (part z))) (sample_action ops (call_copy (server_dddi_env board)) u ctx b w)"
proof -
  have "sample_wf link k w" "P (part (user w))" using assms(2) by (simp_all add: sample_keeps_def)
  then show ?thesis
    using sample_action_changes [of link k w u ops board ctx b] assms(1)
    by (auto elim!: oholds_weaken simp: sample_keeps_def effect_def)
qed

section \<open>Trouble codes over runs\<close>

text \<open>The codes are those of the source, and a code that is not active will be active again.\<close>

definition dtc_ok :: "dtc_state \<Rightarrow> bool" where
  "dtc_ok s \<longleftrightarrow> map dtc (dtc_records s) = map dtc dtc_records_init \<and>
     (dtc_reactivate_pending s \<or> (\<forall>d \<in> set (dtc_records s). is_active d))"

lemma changes_dtc:
  "changes u z z' \<Longrightarrow> u \<notin> {Fn_clear_diag_info_act, Fn_control_dtc_setting_action} \<Longrightarrow> sm_dtc z' = sm_dtc z"
  by (cases u) (auto dest: arg_cong [where f = sm_dtc])

lemma map_dtc_update [simp]:
  "map (dtc \<circ> is_active_update f) ds = map dtc ds" "map (dtc \<circ> is_frozen_update f) ds = map dtc ds"
  "dtc (if c then d\<lparr>dtc_status := x\<rparr> else d) = dtc d"
  by simp_all

interpretation dtc_inv: sample_invariant ops board link k "\<lambda>z. dtc_ok (sm_dtc z)"
  for ops :: "('g, 'p, 'k, 'r) sample_ops"
    and board :: "(sample_fn, 'c, 'f, 'fs, 'h, 'r, 'n, ('g, 'p) sample_state) server_cfg" and link k
proof
  fix w :: "(sample_fn, 'c, 'f, 'fs, 'h, 'r, 'n, 'g, 'p) sample_world" and u ctx b
  assume w: "sample_keeps link k (\<lambda>_ z. dtc_ok (sm_dtc z)) w"
  consider "u = Fn_clear_diag_info_act" | "u = Fn_control_dtc_setting_action"
    | "u \<notin> {Fn_clear_diag_info_act, Fn_control_dtc_setting_action}" by blast
  then show "oholds (sample_keeps link k (\<lambda>_ z. dtc_ok (sm_dtc z))) (sample_action ops (call_copy (server_dddi_env board)) u ctx b w)"
  proof cases
    case 1
    then show ?thesis
      using w by (auto simp: sample_keeps_def clear_diag_info_act_def Let_def dtc_ok_def)
  next
    case 2
    then show ?thesis
      using w by (auto simp: sample_keeps_def control_dtc_setting_action_def set_frozen_def dtc_ok_def split: uds_arg.split)
  next
    case 3
    show ?thesis by (rule unchanged_part_keeps [where part = sm_dtc, OF _ w]) (rule changes_dtc [OF _ 3])
  qed
qed (auto simp: dtc_ok_def dtc_reactivate_work_handler_def dtc_status_increment_work_handler_def comp_def)

text \<open>A request that switches the updates of the trouble codes on.\<close>

definition dtc_setting_on :: "sample_event \<Rightarrow> bool" where
  "dtc_setting_on e \<longleftrightarrow> (case e of Request _ UDS_EVT_ControlDTCSetting (Arg_ControlDTCSetting ty _) _ \<Rightarrow> ty = 1 | _ \<Rightarrow> False)"

lemma frozen_step:
  fixes w w' :: "(sample_fn, 'c, 'f, 'fs, 'h, 'r, 'n, 'g, 'p) sample_world"
  assumes step: "sample_step (sample_cfg ops board) led level_after w e w'" and wf: "sample_wf link k w"
    and frozen: "\<forall>d \<in> set (dtc_records (sm_dtc (user w))). is_frozen d" and e: "\<not> dtc_setting_on e"
  shows "(\<forall>d \<in> set (dtc_records (sm_dtc (user w'))). is_frozen d) \<and>
    map (\<lambda>d. (dtc d, dtc_status d)) (dtc_records (sm_dtc (user w'))) = map (\<lambda>d. (dtc d, dtc_status d)) (dtc_records (sm_dtc (user w)))"
  using step
proof cases
  case (request n i ev arg r arg' w1)
  consider "ev = UDS_EVT_ClearDiagnosticInfo" | "ev = UDS_EVT_ControlDTCSetting"
    | "ev \<notin> {UDS_EVT_ClearDiagnosticInfo, UDS_EVT_ControlDTCSetting}" by blast
  then show ?thesis
  proof cases
    case 1
    show ?thesis
      using request(3) frozen unfolding 1 clear_event_eq [OF wf] by (auto simp: request(2))
  next
    case 2
    show ?thesis
      using request(3) frozen e unfolding 2 setting_event_eq [OF wf] request(1)
      by (auto simp: request(2) control_dtc_setting_action_def set_frozen_def dtc_setting_on_def split: uds_arg.splits if_splits)
  next
    case 3
    have "sample_wf link k w1 \<and> sm_dtc (user w1) = sm_dtc (user w) \<and> srv_securityLevel (env w1) = srv_securityLevel (env w)"
      by (rule request_keeps_part [OF _ wf request(3)]) (use 3 in \<open>auto elim!: changes_dtc\<close>)
    then show ?thesis using frozen by (simp add: request(2))
  qed
qed (use frozen in \<open>auto simp: dtc_reactivate_work_handler_def dtc_status_increment_work_handler_def\<close>)

lemma frozen_run:
  assumes "sample_run (sample_cfg ops board) led level_after w0 tr w" and "sample_wf link k w0"
    and "\<forall>d \<in> set (dtc_records (sm_dtc (user w0))). is_frozen d" and "\<forall>e \<in> set tr. \<not> dtc_setting_on e"
  shows "(\<forall>d \<in> set (dtc_records (sm_dtc (user w))). is_frozen d) \<and>
    map (\<lambda>d. (dtc d, dtc_status d)) (dtc_records (sm_dtc (user w))) = map (\<lambda>d. (dtc d, dtc_status d)) (dtc_records (sm_dtc (user w0)))"
  using assms(1,4)
proof (induction rule: sample_run.induct)
  case (sample_more tr w e w')
  have "sample_wf link k w" by (rule sample_run_wf [OF sample_more(1) assms(2)])
  with sample_more(3,4) frozen_step [OF sample_more(2) this] show ?case by simp
qed (use assms(3) in simp)

section \<open>The report of trouble codes\<close>

text \<open>A package that appends what it is given to the response.\<close>

definition appends :: "('u, 'c, 'f, 'fs, 'h, u8 list, 'n, 'z) server_cfg \<Rightarrow> bool" where
  "appends board \<longleftrightarrow> sc_copy board = (\<lambda>bs r. (UDS_PositiveResponse, r @ bs))"

definition add_resp :: "u8 list \<Rightarrow> ('u, 'c, 'f, 'fs, 'h, u8 list, 'n, 'z) server_world \<Rightarrow> ('u, 'c, 'f, 'fs, 'h, u8 list, 'n, 'z) server_world" where
  "add_resp bs = put_env (\<lambda>x. x\<lparr>srv_transfer := (srv_transfer x)\<lparr>tw_resp := tw_resp (srv_transfer x) @ bs\<rparr>\<rparr>)"

lemma add_resp_simps [simp]:
  "user (add_resp bs w) = user w" "add_resp cs (add_resp bs w) = add_resp (bs @ cs) w" "add_resp [] w = w"
  "tw_resp (srv_transfer (env (add_resp bs w))) = tw_resp (srv_transfer (env w)) @ bs"
  "sample_wf link k (add_resp bs v) \<longleftrightarrow> sample_wf link k v"
  by (simp_all add: add_resp_def put_env_def sample_wf_def)

lemma copy_appends_resp: "appends board \<Longrightarrow> call_copy (server_dddi_env board) Copy_lib bs w = Returns UDS_OK (add_resp bs w)"
  by (simp add: appends_def call_copy_def server_dddi_env_def add_resp_def put_env_def)

definition dtc_report :: "u8 \<Rightarrow> DtcRecord list \<Rightarrow> u8 list" where
  "dtc_report msk ds =
     dtc_status_availability_mask # concat (map (\<lambda>d. dtc d @ [dtc_status d]) (filter (\<lambda>d. dtc_status d AND msk \<noteq> 0 \<and> is_active d) ds))"

lemma copy_dtc_records_appends:
  "appends board \<Longrightarrow> copy_dtc_records (call_copy (server_dddi_env board)) msk ds w =
     Returns UDS_OK (add_resp (concat (map (\<lambda>d. dtc d @ [dtc_status d]) (filter (\<lambda>d. dtc_status d AND msk \<noteq> 0 \<and> is_active d) ds))) w)"
  by (induction ds arbitrary: w) (simp_all add: copy_appends_resp)

abbreviation by_status_mask :: "u8 \<Rightarrow> uds_arg" where
  "by_status_mask msk \<equiv> Arg_RDTCI (read_dtc_info_val UDS_READ_DTC_INFO_SUBFUNC__DTC_BY_STATUS_MASK) msk"

lemma dtc_report_answer:
  assumes "sample_wf link k w" and "appends board"
  shows "server_event (Suc (Suc n)) (sample_cfg ops board) i UDS_EVT_ReadDTCInformation (by_status_mask msk) w =
    Returns (UDS_PositiveResponse, by_status_mask msk) (add_resp (dtc_report msk (dtc_records (sm_dtc (user w)))) w)"
  unfolding read_dtc_event_eq [OF assms(1)]
  by (simp add: read_dtc_info_action_def copy_appends_resp [OF assms(2)] copy_dtc_records_appends [OF assms(2)] dtc_report_def)

section \<open>The asynchronous routine\<close>

text \<open>While the work item is in its loop, the status says so and the progress counts the passes.\<close>

definition async_ok :: "uds_async_work_data \<Rightarrow> bool" where
  "async_ok a \<longleftrightarrow>
     (case aw_running a of
        Some i \<Rightarrow> aw_status a = ASYNC_WORK_STATUS_RUNNING \<and> current_progress a = of_nat i \<and> i \<le> 3000 \<and> \<not> aw_scheduled a
      | None \<Rightarrow> aw_status a \<noteq> ASYNC_WORK_STATUS_RUNNING)"

lemma changes_async:
  "changes u z z' \<Longrightarrow> u \<noteq> Fn_async_routine_control_action \<Longrightarrow> sm_async z' = sm_async z"
  by (cases u) (auto dest: arg_cong [where f = sm_async])

lemma async_start_ok: "async_ok (sm_async (user w)) \<Longrightarrow> async_start sched w = (r, w') \<Longrightarrow> async_ok (sm_async (user w'))"
  by (auto simp: async_start_def async_ok_def async_pending_def Let_def split: if_splits prod.splits option.splits)

lemma async_start_wf: "async_start sched w = (r, w') \<Longrightarrow> sample_wf link k w' \<longleftrightarrow> sample_wf link k w"
  by (auto simp: async_start_def Let_def split: if_splits prod.splits)

lemma async_stop_ok: "async_ok a \<Longrightarrow> async_ok (a\<lparr>force_stop := True, aw_scheduled := False\<rparr>)"
  by (auto simp: async_ok_def split: option.splits)

lemma async_work_ok: "async_ok a \<Longrightarrow> async_work_step a = Some a' \<Longrightarrow> async_ok a'"
  by (auto simp: async_ok_def async_work_step_def async_begin_def async_pass_def async_end_def split: option.splits if_splits)

interpretation async_inv: sample_invariant ops board link k "\<lambda>z. async_ok (sm_async z)"
  for ops :: "('g, 'p, 'k, 'r) sample_ops"
    and board :: "(sample_fn, 'c, 'f, 'fs, 'h, 'r, 'n, ('g, 'p) sample_state) server_cfg" and link k
proof
  fix w :: "(sample_fn, 'c, 'f, 'fs, 'h, 'r, 'n, 'g, 'p) sample_world" and u ctx b
  let ?K = "sample_keeps link k (\<lambda>_ z. async_ok (sm_async z))"
  assume w: "?K w"
  show "oholds ?K (sample_action ops (call_copy (server_dddi_env board)) u ctx b w)"
  proof (cases "u = Fn_async_routine_control_action")
    case True
    have wf: "sample_wf link k w" "async_ok (sm_async (user w))" using w by (simp_all add: sample_keeps_def)
    have stop: "?K (upd_async (\<lambda>a. a\<lparr>force_stop := True, aw_scheduled := False\<rparr>) w)"
      using wf by (simp add: sample_keeps_def async_stop_ok)
    have start: "?K w'" if "async_start (k_work_schedule ops) w = (r, w')" for r w'
      using wf async_start_ok [OF _ that] async_start_wf [OF that] by (simp add: sample_keeps_def)
    show ?thesis
      unfolding True sample_action.simps async_routine_control_action_def Let_def
      using w stop start
      by (auto intro!: oholds_obind copy_keeps split: uds_arg.splits option.splits uds_registration_data.splits prod.splits)
  next
    case False
    show ?thesis by (rule unchanged_part_keeps [where part = sm_async, OF _ w]) (rule changes_async [OF _ False])
  qed
qed (auto intro: async_work_ok)

text \<open>The work item on its own, for a number of steps.\<close>

fun async_run :: "nat \<Rightarrow> uds_async_work_data \<Rightarrow> uds_async_work_data" where
  "async_run 0 a = a"
| "async_run (Suc n) a = (case async_work_step a of None \<Rightarrow> a | Some a' \<Rightarrow> async_run n a')"

lemma async_run_idle: "\<not> async_pending a \<Longrightarrow> async_run n a = a"
  by (cases n) (auto simp: async_pending_def async_work_step_def split: option.splits)

lemma async_run_add: "async_run (m + n) a = async_run n (async_run m a)"
proof (induction m arbitrary: a)
  case (Suc m)
  show ?case
  proof (cases "async_work_step a")
    case None
    then have "\<not> async_pending a" by (auto simp: async_pending_def async_work_step_def split: option.splits if_splits)
    then show ?thesis by (simp add: None async_run_idle)
  qed (simp add: Suc.IH)
qed simp

lemma async_loop:
  "aw_running a = Some i \<Longrightarrow> \<not> force_stop a \<Longrightarrow> i + m \<le> 3000 \<Longrightarrow>
   async_run m a = a\<lparr>current_progress := current_progress a + of_nat m, aw_running := Some (i + m)\<rparr>"
proof (induction m arbitrary: a i)
  case (Suc m)
  have "async_work_step a = Some (a\<lparr>current_progress := current_progress a + 1, aw_running := Some (Suc i)\<rparr>)"
    using Suc.prems by (simp add: async_work_step_def async_pass_def)
  then show ?case using Suc.prems by (simp add: Suc.IH [where i = "Suc i"] add.assoc)
qed simp

lemma async_loop_ends:
  assumes "async_ok a" and "aw_running a = Some i" and "\<not> force_stop a"
  shows "async_run (3001 - i) a = a\<lparr>current_progress := 3000, aw_status := ASYNC_WORK_STATUS_SUCCESS, aw_running := None\<rparr>"
proof -
  have i: "i \<le> 3000" "current_progress a = of_nat i" using assms by (auto simp: async_ok_def)
  have "async_run (3001 - i) a = async_run 1 (async_run (3000 - i) a)" 
    using async_run_add [of "3000 - i" 1 a] i(1) by (simp add: Suc_diff_le [symmetric])
  also have "async_run (3000 - i) a = a\<lparr>current_progress := 3000, aw_running := Some 3000\<rparr>"
    using i assms(2,3) async_loop [of a i "3000 - i"] by (simp add: of_nat_diff)
  finally show ?thesis by (simp add: async_work_step_def async_end_def)
qed

lemma async_ends:
  assumes "async_ok a" and "async_pending a"
  shows "\<exists>m \<le> 3002. \<not> async_pending (async_run m a) \<and>
    (if aw_running a \<noteq> None \<and> aw_running a \<noteq> Some 3000 \<and> force_stop a
     then aw_status (async_run m a) = ASYNC_WORK_STATUS_STOPPED \<and> current_progress (async_run m a) = current_progress a
     else aw_status (async_run m a) = ASYNC_WORK_STATUS_SUCCESS \<and> current_progress (async_run m a) = 3000)"
proof (cases "aw_running a")
  case (Some i)
  have i: "i \<le> 3000" "\<not> aw_scheduled a" "current_progress a = of_nat i" using assms(1) Some by (auto simp: async_ok_def)
  show ?thesis
  proof (cases "force_stop a")
    case True
    then show ?thesis
      using Some i by (intro exI [of _ 1])
        (auto simp: async_work_step_def async_pass_def async_end_def async_pending_def)
  next
    case False
    then show ?thesis
      using i by (intro exI [of _ "3001 - i"]) (simp add: async_loop_ends [OF assms(1) Some False] async_pending_def)
  qed
next
  case None
  then have "aw_scheduled a" "aw_status a \<noteq> ASYNC_WORK_STATUS_RUNNING" using assms by (auto simp: async_ok_def async_pending_def)
  let ?a = "a\<lparr>aw_scheduled := False, aw_status := ASYNC_WORK_STATUS_RUNNING, current_progress := 0, force_stop := False, aw_running := Some 0\<rparr>"
  have first: "async_run 1 a = ?a" using None \<open>aw_scheduled a\<close> \<open>aw_status a \<noteq> _\<close> by (simp add: async_work_step_def async_begin_def)
  have "async_run 3002 a = async_run 3001 ?a" using async_run_add [of 1 3001 a] first by simp
  also have "\<dots> = ?a\<lparr>current_progress := 3000, aw_status := ASYNC_WORK_STATUS_SUCCESS, aw_running := None\<rparr>"
    using async_loop_ends [of ?a 0] by (simp add: async_ok_def)
  finally show ?thesis using None by (intro exI [of _ 3002]) (simp add: async_pending_def)
qed

section \<open>Requests for routines\<close>

lemma routine_regs:
  "reg_data (reg_sync_routine k) = Reg_routine_control None SYNCHRONOUS_ROUTINE_ID
     \<lparr>act_check = Some (Check_user Fn_sync_routine_control_check), act_action = Some (Action_user Fn_sync_routine_control_action)\<rparr>"
  "reg_data (reg_async_routine k) = Reg_routine_control (Some ASYNC_ROUTINE_DATA) ASYNCHRONOUS_ROUTINE_ID
     \<lparr>act_check = Some (Check_user Fn_async_routine_control_check), act_action = Some (Action_user Fn_async_routine_control_action)\<rparr>"
  by (simp_all add: sample_reg_defs single_reg_defs)

lemma skip_other_routine:
  assumes wf: "sample_wf link k w" and m: "m < length (static_regs w)" "static_regs w ! m \<noteq> r"
    and r: "(r, rid) \<in> {(reg_sync_routine k, SYNCHRONOUS_ROUTINE_ID), (reg_async_routine k, ASYNCHRONOUS_ROUTINE_ID)}"
  shows "skips (run_check (Suc n) cfg) ac i ev (Arg_RoutineCtrl ct rid opts) handler_routine_control w (Static m)"
proof (cases "reg_type (static_regs w ! m) = UDS_REGISTRATION_TYPE__ROUTINE_CONTROL")
  case False
  then show ?thesis using skips_type [OF deref_static [OF m(1)]] by (simp add: handler_routine_control_def)
next
  case True
  have "static_regs w ! m \<in> set (sample_static link k)" using wf m(1) nth_mem by (auto simp: sample_wf_def)
  with True have "static_regs w ! m \<in> {reg_sync_routine k, reg_async_routine k}" using static_type_cases(7) by blast
  then have "run_check (Suc n) cfg Fn_check_with_routine_id (ctx_for i m ev (Arg_RoutineCtrl ct rid opts)) False w = Returns (UDS_OK, False) w"
    using r m by (auto simp: uds_check_with_routine_id_fn_def routine_regs SYNCHRONOUS_ROUTINE_ID_def ASYNCHRONOUS_ROUTINE_ID_def)
  then show ?thesis
    using skips_check_false [OF deref_static [OF m(1)], of handler_routine_control Fn_check_with_routine_id]
    by (simp add: handler_routine_control_def uds_get_check_for_routine_control_def)
qed

lemma sync_event_eq:
  assumes "sample_wf link k w"
  shows "server_event (Suc (Suc n)) (sample_cfg ops board) i UDS_EVT_RoutineCtrl (Arg_RoutineCtrl ct SYNCHRONOUS_ROUTINE_ID opts) w =
    (if length opts \<noteq> 4
     then Returns (UDS_NRC_IncorrectMessageLengthOrInvalidFormat, Arg_RoutineCtrl ct SYNCHRONOUS_ROUTINE_ID opts) w
     else obind (sync_routine_control_action (call_copy (server_dddi_env board)) (ctx_for i 0 UDS_EVT_RoutineCtrl (Arg_RoutineCtrl ct SYNCHRONOUS_ROUTINE_ID opts)) True w)
       (\<lambda>(ret, c', arg') w'. Returns (ret, arg') w'))"
proof -
  let ?arg = "Arg_RoutineCtrl ct SYNCHRONOUS_ROUTINE_ID opts"
  have "server_event (Suc (Suc n)) (sample_cfg ops board) i UDS_EVT_RoutineCtrl ?arg w =
    obind (if length opts \<noteq> 4 then Returns (UDS_NRC_IncorrectMessageLengthOrInvalidFormat, False) w else Returns (UDS_OK, True) w)
      (\<lambda>(ret, ap) w1. if ret \<noteq> UDS_OK then Returns (ret, ?arg) w
        else obind (sync_routine_control_action (call_copy (server_dddi_env board)) (ctx_for i 0 UDS_EVT_RoutineCtrl ?arg) True w)
          (\<lambda>(ret, c', arg') w'. Returns (ret, arg') w'))"
    by (rule sample_answers [OF assms dtc_handlers_member(4) _ dtc_regs_member(5) skip_other_routine [OF assms],
          where c = Fn_check_with_routine_id and a = Fn_sync_routine_control_action])
      (auto simp: handler_routine_control_def uds_get_check_for_routine_control_def uds_get_action_for_routine_control_def
        routine_regs sample_cfg_def uds_check_with_routine_id_fn_def sync_routine_control_check_def sync_routine_control_action_def
        outcome_simps split: option.splits if_splits)
  then show ?thesis by auto
qed

lemma async_event_eq:
  assumes "sample_wf link k w"
  shows "server_event (Suc (Suc n)) (sample_cfg ops board) i UDS_EVT_RoutineCtrl (Arg_RoutineCtrl ct ASYNCHRONOUS_ROUTINE_ID opts) w =
    (if ct = 1 then
       case async_start (k_work_schedule ops) w of (r, w') \<Rightarrow> Returns (r, Arg_RoutineCtrl ct ASYNCHRONOUS_ROUTINE_ID opts) w'
     else if ct = 2 then
       (if aw_status (sm_async (user w)) \<noteq> ASYNC_WORK_STATUS_RUNNING
        then Returns (UDS_NRC_RequestSequenceError, Arg_RoutineCtrl ct ASYNCHRONOUS_ROUTINE_ID opts) w
        else obind (call_copy (server_dddi_env board) Copy_lib [async_work_status_val ASYNC_WORK_STATUS_STOPPED]
            (upd_async (\<lambda>a. a\<lparr>force_stop := True, aw_scheduled := False\<rparr>) w))
          (\<lambda>r w'. Returns (r, Arg_RoutineCtrl ct ASYNCHRONOUS_ROUTINE_ID opts) w'))
     else if ct = 3 then
       obind (call_copy (server_dddi_env board) Copy_lib
           (async_work_status_val (aw_status (sm_async (user w))) # be32 (current_progress (sm_async (user w)))) w)
         (\<lambda>r w'. Returns (r, Arg_RoutineCtrl ct ASYNCHRONOUS_ROUTINE_ID opts) w')
     else Returns (UDS_NRC_SubFunctionNotSupported, Arg_RoutineCtrl ct ASYNCHRONOUS_ROUTINE_ID opts) w)"
proof -
  let ?arg = "Arg_RoutineCtrl ct ASYNCHRONOUS_ROUTINE_ID opts"
  let ?act = "if ct = 1 then case async_start (k_work_schedule ops) w of (r, w') \<Rightarrow> Returns (r, True, ?arg) w'
    else if ct = 2 then
      (if aw_status (sm_async (user w)) \<noteq> ASYNC_WORK_STATUS_RUNNING then Returns (UDS_NRC_RequestSequenceError, True, ?arg) w
       else obind (call_copy (server_dddi_env board) Copy_lib [async_work_status_val ASYNC_WORK_STATUS_STOPPED]
           (upd_async (\<lambda>a. a\<lparr>force_stop := True, aw_scheduled := False\<rparr>) w)) (\<lambda>r w'. Returns (r, True, ?arg) w'))
    else if ct = 3 then
      obind (call_copy (server_dddi_env board) Copy_lib
          (async_work_status_val (aw_status (sm_async (user w))) # be32 (current_progress (sm_async (user w)))) w)
        (\<lambda>r w'. Returns (r, True, ?arg) w')
    else Returns (UDS_NRC_SubFunctionNotSupported, True, ?arg) w"
  have "server_event (Suc (Suc n)) (sample_cfg ops board) i UDS_EVT_RoutineCtrl ?arg w =
    obind (Returns (UDS_OK, True) w) (\<lambda>(ret, ap) w1. if ret \<noteq> UDS_OK then Returns (ret, ?arg) w
      else obind ?act (\<lambda>(ret, c', arg') w'. Returns (ret, arg') w'))"
    by (rule sample_answers [OF assms dtc_handlers_member(4) _ dtc_regs_member(4) skip_other_routine [OF assms],
          where c = Fn_check_with_routine_id and a = Fn_async_routine_control_action])
      (auto simp: handler_routine_control_def uds_get_check_for_routine_control_def uds_get_action_for_routine_control_def
        routine_regs sample_cfg_def uds_check_with_routine_id_fn_def async_routine_control_check_def async_routine_control_action_def
        reg_data_of_def outcome_simps Let_def split: if_splits prod.splits)
  then show ?thesis by (simp add: obind_assoc split: prod.split)
qed

text \<open>The steps of the work item are steps of the sample.\<close>

lemma async_run_steps:
  "\<exists>j \<le> m. sample_run cfg led level_after w (replicate j Background) (upd_async (\<lambda>_. async_run m (sm_async (user w))) w)"
proof (induction m)
  case 0
  have "upd_async (\<lambda>_. sm_async (user w)) w = w" by (simp add: upd_user_def put_env_def)
  then show ?case using sample_start [of cfg led level_after w] by auto
next
  case (Suc m)
  then obtain j where j: "j \<le> m" and run: "sample_run cfg led level_after w (replicate j Background) (upd_async (\<lambda>_. async_run m (sm_async (user w))) w)"
    by blast
  let ?a = "async_run m (sm_async (user w))"
  have next_a: "async_run (Suc m) (sm_async (user w)) = (case async_work_step ?a of None \<Rightarrow> ?a | Some a' \<Rightarrow> a')"
    using async_run_add [of m 1 "sm_async (user w)"] by (auto split: option.split)
  show ?case
  proof (cases "async_work_step ?a")
    case None
    then show ?thesis using run j by (intro exI [of _ j]) (simp add: next_a del: async_run.simps)
  next
    case (Some a')
    let ?w = "upd_async (\<lambda>_. ?a) w"
    have "sample_step cfg led level_after ?w Background (upd_async (\<lambda>_. a') ?w)" by (rule async_works) (simp add: Some)
    moreover have "upd_async (\<lambda>_. a') ?w = upd_async (\<lambda>_. a') w" by (simp add: upd_user_compose)
    ultimately have "sample_run cfg led level_after w (Background # replicate j Background) (upd_async (\<lambda>_. a') w)"
      using sample_more [OF run] by simp
    then show ?thesis using j by (intro exI [of _ "Suc j"]) (simp add: next_a Some del: async_run.simps)
  qed
qed

section \<open>Properties\<close>

text \<open>
  A report of trouble codes lists exactly the codes that are active and whose status shares a bit with the
  mask of the request, in the order of the table, each with its status, after the byte of the supported
  status bits. The request changes nothing but the response.
\<close>

theorem dtc_report_exact:
  fixes w :: "(sample_fn, 'c, 'f, 'fs, 'h, u8 list, 'n, 'g, 'p) sample_world"
  assumes "sample_wf link k w" and "appends board"
  shows "\<exists>w'. server_event (Suc (Suc n)) (sample_cfg ops board) i UDS_EVT_ReadDTCInformation (by_status_mask msk) w =
      Returns (UDS_PositiveResponse, by_status_mask msk) w' \<and>
    tw_resp (srv_transfer (env w')) = tw_resp (srv_transfer (env w)) @ 0x7F #
      concat (map (\<lambda>d. dtc d @ [dtc_status d]) (filter (\<lambda>d. dtc_status d AND msk \<noteq> 0 \<and> is_active d) (dtc_records (sm_dtc (user w))))) \<and>
    user w' = user w"
  using dtc_report_answer [OF assms, where ops = ops and n = n and i = i and msk = msk]
  by (simp add: dtc_report_def dtc_status_availability_mask_def)

lemma demo_appends: "appends demo_board"
  by (simp add: appends_def demo_board_def)

theorem dtc_report_exact_witness:
  "\<exists>w'. server_event 2 demo_sample_cfg 0 UDS_EVT_ReadDTCInformation (by_status_mask 0x04) (demo_sample (sample_init 0 ())) =
      Returns (UDS_PositiveResponse, by_status_mask 0x04) w' \<and>
    tw_resp (srv_transfer (env w')) = tw_resp demo_world @ [0x7F, 0x0A, 0x9B, 0x17, 0x24, 0x80, 0x51, 0x11, 0x2F]"
proof -
  from dtc_report_exact [OF demo_sample_facts(1) [of "sample_init 0 ()"] demo_appends, where n = 0 and i = 0 and msk = "0x04"
      and ops = demo_sample_ops]
  obtain w' where "server_event (Suc (Suc 0)) demo_sample_cfg 0 UDS_EVT_ReadDTCInformation (by_status_mask 0x04) (demo_sample (sample_init 0 ())) =
      Returns (UDS_PositiveResponse, by_status_mask 0x04) w'"
    "tw_resp (srv_transfer (env w')) = tw_resp demo_world @ [0x7F, 0x0A, 0x9B, 0x17, 0x24, 0x80, 0x51, 0x11, 0x2F]"
    by (auto simp: sample_init_def dtc_records_init_def)
  then show ?thesis unfolding numeral_2_eq_2 by blast
qed

text \<open>
  Cleared trouble codes come back: in every state that a run reaches from the start of the sample, the
  codes are those of the source, and if one of them is not active, then the work item that
  reactivates them is scheduled, and the step of this work item makes all of them active again.
\<close>

theorem cleared_codes_return:
  fixes w0 w :: "(sample_fn, 'c, 'f, 'fs, 'h, 'r, 'n, 'g, 'p) sample_world"
  assumes "sample_run (sample_cfg ops board) (so_led ops) level_after w0 tr w" and "sample_wf link k w0" and "user w0 = sample_init g p"
  shows "map dtc (dtc_records (sm_dtc (user w))) = [[0x0A, 0x9B, 0x17], [0x80, 0x51, 0x11]] \<and>
    ((\<forall>d \<in> set (dtc_records (sm_dtc (user w))). is_active d) \<or>
     (\<exists>w'. sample_step (sample_cfg ops board) (so_led ops) level_after w Background w' \<and>
        sm_dtc (user w') = dtc_reactivate_work_handler (sm_dtc (user w)) \<and> (\<forall>d \<in> set (dtc_records (sm_dtc (user w'))). is_active d)))"
proof -
  have "dtc_ok (sm_dtc (user w0))" by (simp add: assms(3) sample_init_def dtc_ok_def dtc_records_init_def)
  from dtc_inv.run_keeps [OF assms(1,2) this] have ok: "dtc_ok (sm_dtc (user w))" by blast
  have "\<exists>w'. sample_step (sample_cfg ops board) (so_led ops) level_after w Background w' \<and>
      sm_dtc (user w') = dtc_reactivate_work_handler (sm_dtc (user w)) \<and> (\<forall>d \<in> set (dtc_records (sm_dtc (user w'))). is_active d)"
    if "dtc_reactivate_pending (sm_dtc (user w))"
    by (intro exI conjI, rule dtc_reactivates [OF that]) (simp_all add: dtc_reactivate_work_handler_def)
  with ok show ?thesis by (auto simp: dtc_ok_def dtc_records_init_def)
qed

theorem cleared_codes_return_witness:
  "\<exists>w w'. sample_run demo_sample_cfg (so_led demo_sample_ops) demo_level (demo_sample (sample_init 0 ()))
      [Request 0 UDS_EVT_ClearDiagnosticInfo (Arg_CDI 0xFFFFFF) UDS_PositiveResponse] w \<and>
    \<not> (\<exists>d \<in> set (dtc_records (sm_dtc (user w))). is_active d) \<and>
    sample_step demo_sample_cfg (so_led demo_sample_ops) demo_level w Background w' \<and> (\<forall>d \<in> set (dtc_records (sm_dtc (user w'))). is_active d)"
proof -
  let ?w0 = "demo_sample (sample_init 0 ())" and ?arg = "Arg_CDI 0xFFFFFF"
  note run = sample_more [OF sample_start request [OF clear_event_eq [OF demo_sample_facts(1) [of "sample_init 0 ()"], where n = 0 and i = 0 and ops = demo_sample_ops
        and board = demo_board and arg = ?arg]], where led = "so_led demo_sample_ops" and level_after = demo_level]
  let ?v = "set_level 0 (demo_level UDS_EVT_ClearDiagnosticInfo ?arg UDS_PositiveResponse 0) (upd_dtc (\<lambda>s. s\<lparr>dtc_records :=
      map (\<lambda>d. d\<lparr>is_active := False\<rparr>) (dtc_records s), dtc_reactivate_pending := True\<rparr>) ?w0)"
  have inactive: "\<not> (\<exists>d \<in> set (dtc_records (sm_dtc (user ?v))). is_active d)"
    "\<not> (\<forall>d \<in> set (dtc_records (sm_dtc (user ?v))). is_active d)"
    by (simp_all add: sample_init_def dtc_records_init_def)
  have step: "sample_run demo_sample_cfg (so_led demo_sample_ops) demo_level ?w0 [Request 0 UDS_EVT_ClearDiagnosticInfo ?arg UDS_PositiveResponse] ?v"
    using run by simp
  from cleared_codes_return [OF step demo_sample_facts(1,2)] inactive(2)
  obtain w' where "sample_step demo_sample_cfg (so_led demo_sample_ops) demo_level ?v Background w'"
    "\<forall>d \<in> set (dtc_records (sm_dtc (user w'))). is_active d" by blast
  with step inactive(1) show ?thesis by blast
qed

text \<open>
  While the updates of the trouble codes are switched off, their statuses do not change: after the
  request that switches them off, over any run without a request that switches them on again, whatever else is
  asked for and however often the work item for the statuses runs, every code has the status that it had before.
\<close>

theorem frozen_statuses_stay:
  fixes w0 w1 w :: "(sample_fn, 'c, 'f, 'fs, 'h, 'r, 'n, 'g, 'p) sample_world"
  assumes "sample_wf link k w0"
    and "server_event (Suc n) (sample_cfg ops board) i UDS_EVT_ControlDTCSetting (Arg_ControlDTCSetting 2 data) w0 = Returns x w1"
    and "sample_run (sample_cfg ops board) led level_after w1 tr w" and "\<forall>e \<in> set tr. \<not> dtc_setting_on e"
  shows "map (\<lambda>d. (dtc d, dtc_status d)) (dtc_records (sm_dtc (user w))) = map (\<lambda>d. (dtc d, dtc_status d)) (dtc_records (sm_dtc (user w0)))"
proof -
  have w1: "w1 = upd_dtc (set_frozen True) w0"
    using assms(2) unfolding setting_event_eq [OF assms(1)] by (simp add: control_dtc_setting_action_def)
  have "sample_wf link k w1" "\<forall>d \<in> set (dtc_records (sm_dtc (user w1))). is_frozen d"
    using assms(1) by (simp_all add: w1 set_frozen_def)
  from frozen_run [OF assms(3) this assms(4)] show ?thesis by (simp add: w1 set_frozen_def comp_def)
qed

theorem frozen_statuses_stay_witness:
  "\<exists>x w1. server_event 1 demo_sample_cfg 0 UDS_EVT_ControlDTCSetting (Arg_ControlDTCSetting 2 []) (demo_sample (sample_init 0 ())) = Returns x w1 \<and>
     (\<exists>w. sample_run demo_sample_cfg (so_led demo_sample_ops) demo_level w1 [Background] w \<and>
       sm_dtc (user w) = dtc_status_increment_work_handler (sm_dtc (user w1)) \<and>
       map (\<lambda>d. (dtc d, dtc_status d)) (dtc_records (sm_dtc (user w))) = [([0x0A, 0x9B, 0x17], 0x24), ([0x80, 0x51, 0x11], 0x2F)])"
proof -
  let ?w0 = "demo_sample (sample_init 0 ())" and ?arg = "Arg_ControlDTCSetting 2 []"
  let ?v = "upd_dtc (set_frozen True) ?w0"
  have off: "server_event (Suc 0) demo_sample_cfg 0 UDS_EVT_ControlDTCSetting ?arg ?w0 = Returns (UDS_PositiveResponse, ?arg) ?v"
    unfolding setting_event_eq [OF demo_sample_facts(1)] by (simp add: control_dtc_setting_action_def)
  have run: "sample_run demo_sample_cfg (so_led demo_sample_ops) demo_level ?v [Background] (upd_dtc dtc_status_increment_work_handler ?v)"
    by (rule sample_more [OF sample_start dtc_increments])
  have "map (\<lambda>d. (dtc d, dtc_status d)) (dtc_records (sm_dtc (user (upd_dtc dtc_status_increment_work_handler ?v)))) =
      map (\<lambda>d. (dtc d, dtc_status d)) (dtc_records (sm_dtc (user ?w0)))"
    by (rule frozen_statuses_stay [OF demo_sample_facts(1) off run]) (simp add: dtc_setting_on_def)
  also have "\<dots> = [([0x0A, 0x9B, 0x17], 0x24), ([0x80, 0x51, 0x11], 0x2F)]" by (simp add: sample_init_def dtc_records_init_def)
  finally have "map (\<lambda>d. (dtc d, dtc_status d)) (dtc_records (sm_dtc (user (upd_dtc dtc_status_increment_work_handler ?v)))) =
      [([0x0A, 0x9B, 0x17], 0x24), ([0x80, 0x51, 0x11], 0x2F)]" .
  with off run show ?thesis
    unfolding One_nat_def by (intro exI [of _ "(UDS_PositiveResponse, ?arg)"] exI [of _ ?v] conjI
        exI [of _ "upd_dtc dtc_status_increment_work_handler ?v"]) simp_all
qed

text \<open>
  (C14) The asynchronous routine ends: in every state that a run reaches from the start of the sample, if the routine was
  started, then at most 3002 steps of its work item alone, which are steps of the sample, lead to a state in
  which it is no longer pending. Its result is then the status stopped with the progress so far, if it was told to stop and was not
  past its last pass, and otherwise success with the full progress; and a request for the results gets
  exactly this.
\<close>

theorem async_routine_ends:
  fixes w0 w :: "(sample_fn, 'c, 'f, 'fs, 'h, 'r, 'n, 'g, 'p) sample_world"
  assumes "sample_run (sample_cfg ops board) (so_led ops) level_after w0 tr w" and "sample_wf link k w0" and "user w0 = sample_init g p"
    and "async_pending (sm_async (user w))"
  shows "\<exists>j w' st progress. j \<le> 3002 \<and> sample_run (sample_cfg ops board) (so_led ops) level_after w (replicate j Background) w' \<and>
    \<not> async_pending (sm_async (user w')) \<and>
    (if aw_running (sm_async (user w)) \<notin> {None, Some 3000} \<and> force_stop (sm_async (user w))
     then st = ASYNC_WORK_STATUS_STOPPED \<and> progress = current_progress (sm_async (user w))
     else st = ASYNC_WORK_STATUS_SUCCESS \<and> progress = 3000) \<and>
    server_event (Suc (Suc n)) (sample_cfg ops board) i UDS_EVT_RoutineCtrl (Arg_RoutineCtrl 3 ASYNCHRONOUS_ROUTINE_ID opts) w' =
      obind (call_copy (server_dddi_env board) Copy_lib (async_work_status_val st # be32 progress) w')
        (\<lambda>r w''. Returns (r, Arg_RoutineCtrl 3 ASYNCHRONOUS_ROUTINE_ID opts) w'')"
proof -
  have "async_ok (sm_async (user w0))" by (simp add: assms(3) sample_init_def async_ok_def)
  from async_inv.run_keeps [OF assms(1,2) this] have ok: "sample_wf link k w" "async_ok (sm_async (user w))" by blast+
  from async_ends [OF ok(2) assms(4)] obtain m where m: "m \<le> 3002" "\<not> async_pending (async_run m (sm_async (user w)))"
    "if aw_running (sm_async (user w)) \<noteq> None \<and> aw_running (sm_async (user w)) \<noteq> Some 3000 \<and> force_stop (sm_async (user w))
     then aw_status (async_run m (sm_async (user w))) = ASYNC_WORK_STATUS_STOPPED \<and>
       current_progress (async_run m (sm_async (user w))) = current_progress (sm_async (user w))
     else aw_status (async_run m (sm_async (user w))) = ASYNC_WORK_STATUS_SUCCESS \<and>
       current_progress (async_run m (sm_async (user w))) = 3000" by blast
  let ?w' = "upd_async (\<lambda>_. async_run m (sm_async (user w))) w"
  obtain j where j: "j \<le> m" "sample_run (sample_cfg ops board) (so_led ops) level_after w (replicate j Background) ?w'"
    using async_run_steps by blast
  have wf': "sample_wf link k ?w'" using ok(1) by simp
  show ?thesis
    using m j
    by (intro exI [of _ j] exI [of _ ?w'] exI [of _ "aw_status (async_run m (sm_async (user w)))"]
        exI [of _ "current_progress (async_run m (sm_async (user w)))"]) (simp add: async_event_eq [OF wf'])
qed

lemma demo_start:
  obtains w where "sample_run demo_sample_cfg (so_led demo_sample_ops) demo_level (demo_sample (sample_init 0 ()))
      [Request 0 UDS_EVT_RoutineCtrl (Arg_RoutineCtrl 1 ASYNCHRONOUS_ROUTINE_ID []) UDS_PositiveResponse] w"
    and "sample_wf True 0 w" and "sm_async (user w) = \<lparr>current_progress = 0, aw_status = ASYNC_WORK_STATUS_IDLE, force_stop = False,
        aw_scheduled = True, aw_running = None\<rparr>"
proof -
  let ?w0 = "demo_sample (sample_init 0 ())" and ?arg = "Arg_RoutineCtrl 1 ASYNCHRONOUS_ROUTINE_ID []"
  obtain w where w: "server_event (Suc (Suc 0)) demo_sample_cfg 0 UDS_EVT_RoutineCtrl ?arg ?w0 = Returns (UDS_PositiveResponse, ?arg) w"
    "sm_async (user w) = (sm_async (user ?w0))\<lparr>aw_scheduled := True\<rparr>"
    unfolding async_event_eq [OF demo_sample_facts(1)]
    by (simp add: async_start_def async_pending_def sample_init_def demo_sample_ops_def)
  note run = sample_more [OF sample_start request [OF w(1)], where led = "so_led demo_sample_ops" and level_after = demo_level]
  show ?thesis
    by (rule that [OF run sample_run_wf [OF run demo_sample_facts(1)]]) (simp add: w(2) sample_init_def)
qed

theorem async_routine_ends_witness:
  "\<exists>w j w'. sample_run demo_sample_cfg (so_led demo_sample_ops) demo_level (demo_sample (sample_init 0 ()))
      [Request 0 UDS_EVT_RoutineCtrl (Arg_RoutineCtrl 1 ASYNCHRONOUS_ROUTINE_ID []) UDS_PositiveResponse] w \<and>
    sample_run demo_sample_cfg (so_led demo_sample_ops) demo_level w (replicate j Background) w' \<and> j \<le> 3002 \<and>
    server_event 2 demo_sample_cfg 0 UDS_EVT_RoutineCtrl (Arg_RoutineCtrl 3 ASYNCHRONOUS_ROUTINE_ID []) w' =
      obind (call_copy (server_dddi_env demo_board) Copy_lib (1 # be32 3000) w')
        (\<lambda>r w''. Returns (r, Arg_RoutineCtrl 3 ASYNCHRONOUS_ROUTINE_ID []) w'')"
proof -
  obtain w where run: "sample_run demo_sample_cfg (so_led demo_sample_ops) demo_level (demo_sample (sample_init 0 ()))
      [Request 0 UDS_EVT_RoutineCtrl (Arg_RoutineCtrl 1 ASYNCHRONOUS_ROUTINE_ID []) UDS_PositiveResponse] w"
    and "sample_wf True 0 w" and w: "sm_async (user w) = \<lparr>current_progress = 0, aw_status = ASYNC_WORK_STATUS_IDLE, force_stop = False,
        aw_scheduled = True, aw_running = None\<rparr>"
    by (rule demo_start)
  have "async_pending (sm_async (user w))" by (simp add: w async_pending_def)
  from async_routine_ends [OF run demo_sample_facts(1,2) this, where n = 0 and i = 0 and opts = "[]"] w
  obtain j w' where "j \<le> 3002" "sample_run demo_sample_cfg (so_led demo_sample_ops) demo_level w (replicate j Background) w'"
    "server_event (Suc (Suc 0)) demo_sample_cfg 0 UDS_EVT_RoutineCtrl (Arg_RoutineCtrl 3 ASYNCHRONOUS_ROUTINE_ID []) w' =
      obind (call_copy (server_dddi_env demo_board) Copy_lib (1 # be32 3000) w')
        (\<lambda>r w''. Returns (r, Arg_RoutineCtrl 3 ASYNCHRONOUS_ROUTINE_ID []) w'')"
    by auto
  with run show ?thesis unfolding numeral_2_eq_2 by blast
qed

text \<open>
  A routine that is stopped can end with success: after its last pass the work item does not look at the
  stop flag any more, but its status is still running. A request to stop it then is acknowledged with the status
  stopped, and the next step of the work item sets the status to success.
\<close>

theorem async_stop_comes_late:
  fixes w :: "(sample_fn, 'c, 'f, 'fs, 'h, u8 list, 'n, 'g, 'p) sample_world"
  assumes "sample_wf link k w" and "appends board"
    and "aw_running (sm_async (user w)) = Some 3000" and "aw_status (sm_async (user w)) = ASYNC_WORK_STATUS_RUNNING"
  shows "\<exists>w1 a. server_event (Suc (Suc n)) (sample_cfg ops board) i UDS_EVT_RoutineCtrl (Arg_RoutineCtrl 2 ASYNCHRONOUS_ROUTINE_ID opts) w =
      Returns (UDS_PositiveResponse, Arg_RoutineCtrl 2 ASYNCHRONOUS_ROUTINE_ID opts) w1 \<and>
    tw_resp (srv_transfer (env w1)) = tw_resp (srv_transfer (env w)) @ [async_work_status_val ASYNC_WORK_STATUS_STOPPED] \<and>
    async_work_step (sm_async (user w1)) = Some a \<and> force_stop a \<and> aw_status a = ASYNC_WORK_STATUS_SUCCESS"
  unfolding async_event_eq [OF assms(1)] copy_appends_resp [OF assms(2)]
  using assms(3,4) by (simp add: async_work_step_def async_end_def)

theorem async_stop_comes_late_witness:
  "\<exists>tr w w1 a. sample_run demo_sample_cfg (so_led demo_sample_ops) demo_level (demo_sample (sample_init 0 ())) tr w \<and>
    server_event 2 demo_sample_cfg 0 UDS_EVT_RoutineCtrl (Arg_RoutineCtrl 2 ASYNCHRONOUS_ROUTINE_ID []) w =
      Returns (UDS_PositiveResponse, Arg_RoutineCtrl 2 ASYNCHRONOUS_ROUTINE_ID []) w1 \<and>
    async_work_step (sm_async (user w1)) = Some a \<and> force_stop a \<and> aw_status a = ASYNC_WORK_STATUS_SUCCESS"
proof -
  obtain w where run: "sample_run demo_sample_cfg (so_led demo_sample_ops) demo_level (demo_sample (sample_init 0 ()))
      [Request 0 UDS_EVT_RoutineCtrl (Arg_RoutineCtrl 1 ASYNCHRONOUS_ROUTINE_ID []) UDS_PositiveResponse] w"
    and wf: "sample_wf True 0 w" and w: "sm_async (user w) = \<lparr>current_progress = 0, aw_status = ASYNC_WORK_STATUS_IDLE, force_stop = False,
        aw_scheduled = True, aw_running = None\<rparr>"
    by (rule demo_start)
  let ?v = "upd_async (\<lambda>_. async_run 3001 (sm_async (user w))) w"
  have "async_run 3001 (sm_async (user w)) = async_run 3000 (async_run 1 (sm_async (user w)))"
    using async_run_add [of 1 3000] by simp
  then have late: "aw_running (async_run 3001 (sm_async (user w))) = Some 3000"
    "aw_status (async_run 3001 (sm_async (user w))) = ASYNC_WORK_STATUS_RUNNING"
    by (simp_all add: w async_work_step_def async_begin_def async_loop [where i = 0])
  obtain j where "sample_run demo_sample_cfg (so_led demo_sample_ops) demo_level w (replicate j Background) ?v"
    using async_run_steps by blast
  then have more: "sample_run demo_sample_cfg (so_led demo_sample_ops) demo_level (demo_sample (sample_init 0 ()))
      (replicate j Background @ [Request 0 UDS_EVT_RoutineCtrl (Arg_RoutineCtrl 1 ASYNCHRONOUS_ROUTINE_ID []) UDS_PositiveResponse]) ?v"
    by (induction rule: sample_run.induct) (auto intro: run sample_more)
  have wf': "sample_wf True 0 ?v" using wf by simp
  from async_stop_comes_late [OF wf' demo_appends, where ops = demo_sample_ops and n = 0 and i = 0 and opts = "[]"] late
  obtain w1 a where "server_event (Suc (Suc 0)) demo_sample_cfg 0 UDS_EVT_RoutineCtrl (Arg_RoutineCtrl 2 ASYNCHRONOUS_ROUTINE_ID []) ?v =
      Returns (UDS_PositiveResponse, Arg_RoutineCtrl 2 ASYNCHRONOUS_ROUTINE_ID []) w1"
    "async_work_step (sm_async (user w1)) = Some a" "force_stop a" "aw_status a = ASYNC_WORK_STATUS_SUCCESS" by auto
  with more show ?thesis unfolding numeral_2_eq_2 by blast
qed

end
