(* ===== verification/Sample_Types.thy ===== *)
theory Sample_Types
  imports Sample_Device Sample_Work
begin

text \<open>
  Type soundness of the UDS sample: the arrays keep their sizes over every run, and a request whose argument
  has the type and the lengths that the handlers rely on is answered.
\<close>

section \<open>Sizes\<close>

definition sample_typed :: "('g, 'p) sample_state \<Rightarrow> bool" where
  "sample_typed z \<longleftrightarrow> length (seeed (sm_auth z)) = 16 \<and> length (algorithm_authenticator (sm_auth z)) = 16 \<and>
     length (fake_memory z) = 100 \<and> map (length \<circ> dtc) (dtc_records (sm_dtc z)) = [3, 3] \<and> \<not> led_mutex_held (sm_led z)"

text \<open>What is relied on: the random number generator fills the buffer it is given, and the LED pin can be configured.\<close>

definition platform_ok :: "('g, 'p, 'k, 'r) sample_ops \<Rightarrow> bool" where
  "platform_ok ops \<longleftrightarrow>
     (\<forall>buf p. length (fst (snd (psa_generate_random (so_psa ops) buf p))) = length buf) \<and>
     (\<forall>g. \<not> rc_neg (fst (gpio_pin_configure_dt (so_led ops) g)))"

lemma seed_size:
  assumes "platform_ok ops" and "generate_random_seed (so_psa ops) seed p = (ok, seed', p')"
  shows "length seed' = length seed"
proof -
  have "length (fst (snd (psa_generate_random (so_psa ops) seed q))) = length seed" for q
    using assms(1) by (simp add: platform_ok_def)
  from this [of "snd (psa_crypto_init (so_psa ops) p)"] show ?thesis
    using assms(2) by (auto simp: generate_random_seed_def split: prod.splits if_splits)
qed

lemma changes_typed:
  "changes u z z' \<Longrightarrow> u \<notin> {Fn_auth_action, Fn_auth_timeout_action, Fn_write_mem_by_address_action, Fn_clear_diag_info_act,
     Fn_control_dtc_setting_action, Fn_write_led_action, Fn_io_ctrl_led_action} \<Longrightarrow>
   (sm_auth z', fake_memory z', sm_dtc z', sm_led z') = (sm_auth z, fake_memory z, sm_dtc z, sm_led z)"
  by (cases u) (auto dest: arg_cong [where f = "\<lambda>z. (sm_auth z, fake_memory z, sm_dtc z, sm_led z)"])

abbreviation typed_world :: "bool \<Rightarrow> inst \<Rightarrow> (sample_fn, 'c, 'f, 'fs, 'h, 'r, 'n, 'g, 'p) sample_world \<Rightarrow> bool" where
  "typed_world link k \<equiv> sample_keeps link k (\<lambda>_. sample_typed)"

lemma auth_action_typed:
  assumes "platform_ok ops" and "typed_world link k w"
  shows "oholds (typed_world link k) (auth_action ops (call_copy (server_dddi_env board)) ctx b w)"
proof -
  note typed = assms(2) [unfolded sample_keeps_def]
  have challenge: "oholds (typed_world link k) (auth_request_challenge ops (call_copy (server_dddi_env board)) algo w)" for algo
    unfolding auth_request_challenge_def Let_def
    using assms typed seed_size [OF assms(1)]
    by (auto intro!: oholds_obind copy_keeps set_auth_keeps keeps_upd_user simp: sample_typed_def split: prod.splits)
  have verify: "oholds (typed_world link k) (auth_verify_proof ops (call_copy (server_dddi_env board)) algo pown w)" for algo pown
    unfolding auth_verify_proof_def Let_def
    using assms typed
    by (auto intro!: oholds_obind copy_keeps set_auth_keeps keeps_upd_user simp: sample_typed_def split: prod.splits option.splits)
  have "oholds (typed_world link k) (auth_de_authenticate ops w)"
    unfolding auth_de_authenticate_def using typed by (auto intro!: set_auth_keeps keeps_upd_user simp: sample_typed_def)
  then show ?thesis
    unfolding auth_action_def
    using assms(2) challenge verify
    by (auto intro!: oholds_obind split: uds_arg.splits uds_auth_type.splits auth_sub_args.splits option.splits uds_registration_data.splits)
qed

lemma other_actions_typed:
  assumes "typed_world link k w"
  shows "oholds (typed_world link k) (auth_timeout_action ctx b w)"
    "oholds (typed_world link k) (write_mem_by_address_action ctx b w)"
    "oholds (typed_world link k) (clear_diag_info_act ctx b w)"
    "oholds (typed_world link k) (control_dtc_setting_action ctx b w)"
    "oholds (typed_world link k) (write_led_action ctx b w)"
    "oholds (typed_world link k) (io_ctrl_led_action led (call_copy (server_dddi_env board)) ctx b w)"
  unfolding auth_timeout_action_def write_mem_by_address_action_def clear_diag_info_act_def control_dtc_setting_action_def
    write_led_action_def io_ctrl_led_action_def with_led_mutex_def upd_led_def set_frozen_def Let_def
  using assms
  by (auto intro!: oholds_obind copy_keeps keeps_upd_user simp: sample_keeps_def [of _ _ _ w] sample_typed_def comp_def upd_user_compose
      split: uds_arg.splits option.splits uds_registration_data.splits sum.splits list.splits)

lemma typed_invariant:
  fixes ops :: "('g, 'p, 'k, 'r) sample_ops" and board :: "(sample_fn, 'c, 'f, 'fs, 'h, 'r, 'n, ('g, 'p) sample_state) server_cfg"
  assumes "platform_ok ops"
  shows "sample_invariant ops board link k sample_typed"
proof
  fix w :: "(sample_fn, 'c, 'f, 'fs, 'h, 'r, 'n, 'g, 'p) sample_world" and u ctx b
  assume w: "typed_world link k w"
  show "oholds (typed_world link k) (sample_action ops (call_copy (server_dddi_env board)) u ctx b w)"
  proof (cases "u \<in> {Fn_auth_action, Fn_auth_timeout_action, Fn_write_mem_by_address_action, Fn_clear_diag_info_act,
      Fn_control_dtc_setting_action, Fn_write_led_action, Fn_io_ctrl_led_action}")
    case True
    then show ?thesis using auth_action_typed [OF assms w] other_actions_typed [OF w] by auto
  next
    case False
    let ?P = "\<lambda>(a, m, d, l). length (seeed a) = 16 \<and> length (algorithm_authenticator a) = 16 \<and>
       length m = 100 \<and> map (length \<circ> dtc) (dtc_records d) = [3, 3] \<and> \<not> led_mutex_held l"
    have eq: "sample_typed z \<longleftrightarrow> ?P (sm_auth z, fake_memory z, sm_dtc z, sm_led z)" for z :: "('g, 'p) sample_state"
      by (simp add: sample_typed_def)
    show ?thesis
      unfolding eq
      by (rule unchanged_part_keeps [where part = "\<lambda>z. (sm_auth z, fake_memory z, sm_dtc z, sm_led z)" and P = ?P])
        (use changes_typed [OF _ False] w in \<open>auto simp: eq sample_keeps_def\<close>)
  qed
next
  fix z :: "('g, 'p) sample_state"
  assume "sample_typed z"
  then show "sample_typed (z\<lparr>sm_led := led_thread_start (so_led ops) (sm_led z)\<rparr>)"
    using assms by (auto simp: sample_typed_def led_thread_start_def platform_ok_def split: prod.splits) (metis fst_conv)
qed (auto simp: sample_typed_def led_thread_pass_def dtc_reactivate_work_handler_def dtc_status_increment_work_handler_def comp_def)

section \<open>Requests\<close>

text \<open>
  The arguments that the handlers of the sample rely on, for the events that the sample has handlers for (sessions apart): the structure
  of the event; the lengths that are not checked; no write and no input and output control of an identifier that is registered without
  handlers for it; and no range of memory that the checks accept because its end wraps around.
\<close>

definition wraps_into_memory :: "u32 \<Rightarrow> u32 \<Rightarrow> bool" where
  "wraps_into_memory a sz \<longleftrightarrow> 0x1000 \<le> unat a \<and> 2 ^ 32 \<le> unat a + unat sz \<and> unat a + unat sz < 2 ^ 32 + 0x1064"

definition request_fits :: "UDSEvent_t \<Rightarrow> uds_arg \<Rightarrow> bool" where
  "request_fits ev arg \<longleftrightarrow>
     (case ev of
        UDS_EVT_ReadDataByIdent \<Rightarrow> (case arg of Arg_RDBI _ _ \<Rightarrow> True | _ \<Rightarrow> False)
      | UDS_EVT_WriteDataByIdent \<Rightarrow>
          (case arg of
             Arg_WDBI did bs \<Rightarrow> did \<notin> {string_id, authenticated_type_id, secure_data_id} \<and> (did = primitive_type_id \<longrightarrow> 2 \<le> length bs)
           | _ \<Rightarrow> False)
      | UDS_EVT_IOControl \<Rightarrow>
          (case arg of
             Arg_IOCtrl did _ _ _ \<Rightarrow> did \<notin> {primitive_type_id, string_id, authenticated_type_id, secure_data_id}
           | _ \<Rightarrow> False)
      | UDS_EVT_SecAccessRequestSeed \<Rightarrow> (case arg of Arg_SecAccessRequestSeed _ _ \<Rightarrow> True | _ \<Rightarrow> False)
      | UDS_EVT_SecAccessValidateKey \<Rightarrow> (case arg of Arg_SecAccessValidateKey _ _ \<Rightarrow> True | _ \<Rightarrow> False)
      | UDS_EVT_Auth \<Rightarrow>
          (case arg of
             Arg_Auth UDS_LEV_AT_RCFA (Auth_reqChallenge algo) \<Rightarrow> 16 \<le> length algo
           | Arg_Auth UDS_LEV_AT_VPOWNU (Auth_verifyPown algo _) \<Rightarrow> 16 \<le> length algo
           | Arg_Auth UDS_LEV_AT_DA _ \<Rightarrow> True
           | Arg_Auth (UDS_LEV_AT_other _) _ \<Rightarrow> True
           | _ \<Rightarrow> False)
      | UDS_EVT_AuthTimeout \<Rightarrow> True
      | UDS_EVT_ClearDiagnosticInfo \<Rightarrow> (case arg of Arg_CDI _ \<Rightarrow> True | _ \<Rightarrow> False)
      | UDS_EVT_ControlDTCSetting \<Rightarrow> (case arg of Arg_ControlDTCSetting _ _ \<Rightarrow> True | _ \<Rightarrow> False)
      | UDS_EVT_ReadDTCInformation \<Rightarrow> (case arg of Arg_RDTCI _ _ \<Rightarrow> True | _ \<Rightarrow> False)
      | UDS_EVT_RoutineCtrl \<Rightarrow> (case arg of Arg_RoutineCtrl _ _ _ \<Rightarrow> True | _ \<Rightarrow> False)
      | UDS_EVT_ReadMemByAddr \<Rightarrow> (case arg of Arg_ReadMem a sz _ \<Rightarrow> \<not> wraps_into_memory a sz | _ \<Rightarrow> False)
      | UDS_EVT_WriteMemByAddr \<Rightarrow>
          (case arg of Arg_WriteMem a sz bs \<Rightarrow> \<not> wraps_into_memory a sz \<and> unat sz \<le> length bs | _ \<Rightarrow> False)
      | _ \<Rightarrow> False)"

text \<open>The outcome is an answer.\<close>

definition answers :: "('a, 'w) outcome \<Rightarrow> bool" where
  "answers m \<longleftrightarrow> (\<exists>a w. m = Returns a w)"

lemma answers_simps [simp]: "answers (Returns a w)" "\<not> answers Undefined" "\<not> answers NoFuel" "\<not> answers (Reboots r w)"
  by (simp_all add: answers_def)

lemma answers_obind: "answers m \<Longrightarrow> (\<And>a w. m = Returns a w \<Longrightarrow> answers (f a w)) \<Longrightarrow> answers (obind m f)"
  by (auto simp: answers_def)

lemma answers_copy [simp]: "answers (call_copy de c bs w)"
  by (auto simp: answers_def call_copy_def split: prod.split)

lemma answers_copy_then: "(\<And>r w'. answers (f r w')) \<Longrightarrow> answers (obind (call_copy de c bs w) f)"
  by (intro answers_obind) simp_all

lemma answers_set_auth [simp]: "answers (call_set_auth_state setf st w)"
  by (auto simp: answers_def call_set_auth_state_def split: prod.split)

lemma answers_dtc_records: "answers (copy_dtc_records (call_copy de) msk ds w)"
  by (induction ds arbitrary: w) (auto intro!: answers_copy_then)

lemma read_string_eq:
  assumes "sample_wf link k w"
  shows "server_event (Suc (Suc n)) (sample_cfg ops board) i UDS_EVT_ReadDataByIdent (Arg_RDBI string_id c) w =
    obind (call_copy (server_dddi_env board) c string_data w) (\<lambda>r w'. Returns (r, Arg_RDBI string_id c) w')"
proof -
  let ?arg = "Arg_RDBI string_id c"
  have sz: "unat (of_nat (length string_data) :: u16) = length string_data" "length string_data \<le> 50"
    by (simp_all add: string_data_def bytes_of_string_def)
  have "server_event (Suc (Suc n)) (sample_cfg ops board) i UDS_EVT_ReadDataByIdent ?arg w =
    obind (Returns (UDS_OK, True) w) (\<lambda>(ret, ap) w1. if ret \<noteq> UDS_OK then Returns (ret, ?arg) w
      else obind (obind (call_copy (server_dddi_env board) c string_data w)
        (\<lambda>r w'. Returns (r, True, ?arg) w')) (\<lambda>(ret, c', arg') w'. Returns (ret, arg') w'))"
    by (rule identifier_answers [OF assms, where r = "reg_string k" and h = handler_read_data_by_identifier
          and f = Fn_check_read_with_data_id and a = Fn_read_data_by_id_action])
      (use sz in \<open>auto simp: data_handlers_def data_regs_def read_handler_simps data_reg_ids sample_cfg_def read_data_by_id_check_def
        read_data_by_id_action_def reg_data_of_def size_at_def bytes_at_def memcpy_front_def Let_def data_id_defs address_defs outcome_simps\<close>)
  then show ?thesis by (simp add: obind_assoc)
qed

lemma read_answers:
  assumes "sample_wf link k w"
  shows "answers (server_event (Suc (Suc n)) (sample_cfg ops board) k UDS_EVT_ReadDataByIdent (Arg_RDBI did c) w)"
proof (cases "did \<in> {primitive_type_id, string_id, authenticated_type_id, led_id, secure_data_id}")
  case True
  then show ?thesis
    by (auto simp: read_primitive_eq [OF assms] read_string_eq [OF assms] read_authenticated_eq [OF assms] read_led_eq [OF assms]
        read_secure_eq [OF assms] intro!: answers_copy_then split: sum.split)
next
  case False
  have "server_event (Suc (Suc n)) (sample_cfg ops board) k UDS_EVT_ReadDataByIdent (Arg_RDBI did c) w =
      Returns (h_default_nrc (handler_read_data_by_identifier :: sample_fn uds_event_handler_data), Arg_RDBI did c) w"
    by (rule unknown_identifier [OF assms, where f = Fn_check_read_with_data_id])
      (use False data_id_cases [of _ k] in \<open>auto simp: data_handlers_def handler_read_data_by_identifier_def\<close>)
  then show ?thesis by simp
qed

lemma write_answers:
  assumes "sample_wf link k w" and "\<not> led_mutex_held (sm_led (user w))" and "request_fits UDS_EVT_WriteDataByIdent (Arg_WDBI did bs)"
  shows "answers (server_event (Suc (Suc n)) (sample_cfg ops board) i UDS_EVT_WriteDataByIdent (Arg_WDBI did bs) w)"
proof -
  consider "did = primitive_type_id" | "did = led_id"
    | "did \<notin> {primitive_type_id, string_id, authenticated_type_id, led_id, secure_data_id}"
    using assms(3) by (auto simp: request_fits_def)
  then show ?thesis
  proof cases
    case 1
    then have id: "args_data_id (Arg_WDBI did bs) = Some primitive_type_id" by simp
    show ?thesis
      unfolding write_primitive_answer [OF assms(1) id]
      using assms(3) 1 by (cases bs rule: of_be16.cases) (auto simp: request_fits_def)
  next
    case 2
    then have id: "args_data_id (Arg_WDBI did bs) = Some led_id" by simp
    show ?thesis
      unfolding write_led_eq [OF assms(1) id]
      using assms(2) by (simp add: write_led_action_def with_led_mutex_def split: list.split)
  next
    case 3
    have "server_event (Suc (Suc n)) (sample_cfg ops board) i UDS_EVT_WriteDataByIdent (Arg_WDBI did bs) w =
        Returns (h_default_nrc (handler_write_data_by_identifier :: sample_fn uds_event_handler_data), Arg_WDBI did bs) w"
      by (rule unknown_identifier [OF assms(1), where f = Fn_check_write_with_data_id])
        (use 3 data_id_cases [of _ k] in \<open>auto simp: data_handlers_def handler_write_data_by_identifier_def\<close>)
    then show ?thesis by simp
  qed
qed

lemma io_answers:
  assumes "sample_wf link k w" and "\<not> led_mutex_held (sm_led (user w))" and "request_fits UDS_EVT_IOControl (Arg_IOCtrl did p m c)"
  shows "answers (server_event (Suc (Suc n)) (sample_cfg ops board) i UDS_EVT_IOControl (Arg_IOCtrl did p m c) w)"
proof (cases "did = led_id")
  case True
  then have id: "args_data_id (Arg_IOCtrl did p m c) = Some led_id" by simp
  show ?thesis
    unfolding io_led_eq [OF assms(1) id]
    using assms(2) by (auto simp: io_ctrl_led_action_def with_led_mutex_def Let_def obind_assoc intro!: answers_copy_then split: sum.split)
next
  case False
  then have 3: "did \<notin> {primitive_type_id, string_id, authenticated_type_id, led_id, secure_data_id}"
    using assms(3) by (auto simp: request_fits_def)
  have "server_event (Suc (Suc n)) (sample_cfg ops board) i UDS_EVT_IOControl (Arg_IOCtrl did p m c) w =
      Returns (h_default_nrc (handler_io_control_by_identifier :: sample_fn uds_event_handler_data), Arg_IOCtrl did p m c) w"
    by (rule unknown_identifier [OF assms(1), where f = Fn_check_io_control_with_data_id])
      (use 3 data_id_cases [of _ k] in \<open>auto simp: data_handlers_def handler_io_control_by_identifier_def\<close>)
  then show ?thesis by simp
qed

lemma security_answers:
  assumes "sample_wf link k w"
  shows "answers (server_event (Suc n) (sample_cfg ops board) i UDS_EVT_SecAccessRequestSeed (Arg_SecAccessRequestSeed l d) w)"
    and "answers (server_event (Suc n) (sample_cfg ops board) i UDS_EVT_SecAccessValidateKey (Arg_SecAccessValidateKey l key) w)"
  by (auto simp: seed_request_eq [OF assms] key_request_eq [OF assms] intro!: answers_copy_then split: prod.split)

lemma auth_answers:
  assumes "sample_wf link k w" and "request_fits UDS_EVT_Auth arg"
  shows "answers (server_event (Suc n) (sample_cfg ops board) i UDS_EVT_Auth arg w)"
proof -
  have "answers (auth_body ops (call_copy (server_dddi_env board)) arg w)"
    using assms(2)
    by (auto simp: request_fits_def auth_body_def auth_request_challenge_def auth_verify_proof_def auth_de_authenticate_def Let_def
        intro!: answers_copy_then split: uds_arg.splits uds_auth_type.splits auth_sub_args.splits prod.splits option.splits)
  then show ?thesis unfolding auth_event_eq [OF assms(1)] by (intro answers_obind) simp_all
qed

lemma read_dtc_answers:
  assumes "sample_wf link k w"
  shows "answers (server_event (Suc (Suc n)) (sample_cfg ops board) i UDS_EVT_ReadDTCInformation (Arg_RDTCI sub msk) w)"
proof (cases "sub = read_dtc_info_val UDS_READ_DTC_INFO_SUBFUNC__DTC_BY_STATUS_MASK")
  case True
  show ?thesis
    unfolding True read_dtc_event_eq [OF assms]
    by (auto simp: read_dtc_info_action_def obind_assoc intro!: answers_copy_then answers_obind [OF answers_dtc_records])
next
  case False
  then have "server_event (Suc (Suc n)) (sample_cfg ops board) i UDS_EVT_ReadDTCInformation (Arg_RDTCI sub msk) w =
      Returns (h_default_nrc (handler_read_dtc_info :: sample_fn uds_event_handler_data), Arg_RDTCI sub msk) w"
    by (intro sample_unapplied [OF assms dtc_handlers_member(1), where r = "reg_dtc_read k" and c = Fn_check_with_subfunc])
      (auto simp: dtc_handler_simps static_type_cases uds_check_with_subfunc_fn_def reg_dtc_read_def single_reg_defs)
  then show ?thesis by simp
qed

lemma setting_answers:
  assumes "sample_wf link k w"
  shows "answers (server_event (Suc n) (sample_cfg ops board) i UDS_EVT_ControlDTCSetting (Arg_ControlDTCSetting ty d) w)"
  unfolding setting_event_eq [OF assms] by (simp add: control_dtc_setting_action_def)

lemma routine_answers:
  assumes "sample_wf link k w"
  shows "answers (server_event (Suc (Suc n)) (sample_cfg ops board) i UDS_EVT_RoutineCtrl (Arg_RoutineCtrl ct rid opts) w)"
proof -
  consider "rid = SYNCHRONOUS_ROUTINE_ID" | "rid = ASYNCHRONOUS_ROUTINE_ID"
    | "rid \<notin> {SYNCHRONOUS_ROUTINE_ID, ASYNCHRONOUS_ROUTINE_ID}" by blast
  then show ?thesis
  proof cases
    case 1
    show ?thesis
      unfolding 1 sync_event_eq [OF assms]
      by (cases opts rule: of_be32.cases) (auto simp: sync_routine_control_action_def obind_assoc intro!: answers_copy_then)
  next
    case 2
    show ?thesis
      unfolding 2 async_event_eq [OF assms] by (auto intro!: answers_copy_then split: prod.split)
  next
    case 3
    have skip: "skips (run_check (Suc (Suc n)) (sample_cfg ops board)) (run_action (Suc (Suc n)) (sample_cfg ops board)) i ev
        (Arg_RoutineCtrl ct rid opts) handler_routine_control w ref" if r: "deref_reg w ref = Some r" for ref r ev
    proof (cases "reg_type r = UDS_REGISTRATION_TYPE__ROUTINE_CONTROL")
      case False
      then show ?thesis using skips_type [OF r] by (simp add: handler_routine_control_def)
    next
      case True
      from sample_wf_static [OF assms r] obtain m where m: "m < length (static_regs w)" "ref = Static m" "r = static_regs w ! m"
        "r \<in> set (sample_static link k)" by blast
      with True have "r \<in> {reg_sync_routine k, reg_async_routine k}" using static_type_cases(7) by blast
      with 3 m have "run_check (Suc (Suc n)) (sample_cfg ops board) Fn_check_with_routine_id (ctx_for i m ev (Arg_RoutineCtrl ct rid opts)) False w =
          Returns (UDS_OK, False) w"
        by (auto simp: uds_check_with_routine_id_fn_def routine_regs)
      then show ?thesis
        using skips_check_false [OF r, of handler_routine_control Fn_check_with_routine_id] m(2)
        by (simp add: handler_routine_control_def uds_get_check_for_routine_control_def)
    qed
    have "server_event (Suc (Suc n)) (sample_cfg ops board) i (h_event (handler_routine_control :: sample_fn uds_event_handler_data))
        (Arg_RoutineCtrl ct rid opts) w =
        Returns (h_default_nrc (handler_routine_control :: sample_fn uds_event_handler_data), Arg_RoutineCtrl ct rid opts) w"
      by (rule server_event_default [OF sample_uds_wf [OF assms] _ dtc_handlers_member(4) skip]) (use assms in \<open>simp_all add: sample_wf_def\<close>)
    then show ?thesis by (simp add: handler_routine_control_def)
  qed
qed

lemma memory_answers:
  assumes "sample_wf link k w" and "length (fake_memory (user w)) = 100" and "\<not> wraps_into_memory a sz"
  shows "answers (server_event (Suc n) (sample_cfg ops board) i UDS_EVT_ReadMemByAddr (Arg_ReadMem a sz c) w)"
    and "unat sz \<le> length bs \<Longrightarrow> answers (server_event (Suc n) (sample_cfg ops board) i UDS_EVT_WriteMemByAddr (Arg_WriteMem a sz bs) w)"
proof -
  have fits: "mem_offset a + unat sz \<le> 100 \<and> unat (ucast sz :: u16) = unat sz" if "\<not> fake_memory_refuses a sz"
  proof (cases "unat a + unat sz < 2 ^ 32")
    case True
    then show ?thesis using that unfolding refuses_no_wrap [OF True] by (auto simp: mem_offset_eq window_count)
  next
    case False
    then have "2 ^ 32 \<le> unat a + unat sz" by simp
    from refuses_wrap [OF this] show ?thesis using that assms(3) False by (auto simp: wraps_into_memory_def)
  qed
  show "answers (server_event (Suc n) (sample_cfg ops board) i UDS_EVT_ReadMemByAddr (Arg_ReadMem a sz c) w)"
    unfolding read_memory_eq [OF assms(1)] using fits assms(2) by (cases "fake_memory_refuses a sz") (auto intro!: answers_copy_then)
  show "answers (server_event (Suc n) (sample_cfg ops board) i UDS_EVT_WriteMemByAddr (Arg_WriteMem a sz bs) w)"
    if "unat sz \<le> length bs"
    unfolding write_memory_eq [OF assms(1)] using fits assms(2) that by (cases "fake_memory_refuses a sz") auto
qed

lemma typed_request_answered:
  assumes "sample_wf link k w" and "sample_typed (user w)" and "request_fits ev arg"
  shows "answers (server_event (Suc (Suc n)) (sample_cfg ops board) k ev arg w)"
proof -
  have typed: "length (fake_memory (user w)) = 100" "\<not> led_mutex_held (sm_led (user w))" using assms(2) by (simp_all add: sample_typed_def)
  note fits = assms(3)
  show ?thesis
  proof (cases ev)
    case UDS_EVT_ReadDataByIdent
    then show ?thesis using fits by (cases arg) (auto simp: request_fits_def intro!: read_answers [OF assms(1)])
  next
    case UDS_EVT_WriteDataByIdent
    then show ?thesis using fits by (cases arg) (auto simp: request_fits_def intro!: write_answers [OF assms(1) typed(2)])
  next
    case UDS_EVT_IOControl
    then show ?thesis using fits by (cases arg) (auto simp: request_fits_def intro!: io_answers [OF assms(1) typed(2)])
  next
    case UDS_EVT_SecAccessRequestSeed
    then show ?thesis using fits by (cases arg) (auto simp: request_fits_def intro!: security_answers(1) [OF assms(1)])
  next
    case UDS_EVT_SecAccessValidateKey
    then show ?thesis using fits by (cases arg) (auto simp: request_fits_def intro!: security_answers(2) [OF assms(1)])
  next
    case UDS_EVT_Auth
    then show ?thesis using fits by (simp add: auth_answers [OF assms(1)])
  next
    case UDS_EVT_AuthTimeout
    then show ?thesis by (simp add: auth_timeout_eq [OF assms(1)])
  next
    case UDS_EVT_ClearDiagnosticInfo
    then show ?thesis by (simp add: clear_event_eq [OF assms(1)])
  next
    case UDS_EVT_ControlDTCSetting
    then show ?thesis using fits by (cases arg) (auto simp: request_fits_def intro!: setting_answers [OF assms(1)])
  next
    case UDS_EVT_ReadDTCInformation
    then show ?thesis using fits by (cases arg) (auto simp: request_fits_def intro!: read_dtc_answers [OF assms(1)])
  next
    case UDS_EVT_RoutineCtrl
    then show ?thesis using fits by (cases arg) (auto simp: request_fits_def intro!: routine_answers [OF assms(1)])
  next
    case UDS_EVT_ReadMemByAddr
    then show ?thesis using fits by (cases arg) (auto simp: request_fits_def intro!: memory_answers(1) [OF assms(1) typed(1)])
  next
    case UDS_EVT_WriteMemByAddr
    then show ?thesis using fits by (cases arg) (auto simp: request_fits_def intro!: memory_answers(2) [OF assms(1) typed(1)])
  qed (use fits in \<open>simp_all add: request_fits_def\<close>)
qed

section \<open>Properties\<close>

text \<open>
  (C13) Well typed requests do not go wrong, and which ones do: from the start of the sample on, over any run of requests and
  background steps, the arrays of the sample keep their sizes and the mutex of the LED is free between requests. Then a request of the events
  for identifiers, security access, authentication, trouble codes, routines and memory, of the structure of its event and with
  at least the bytes the handlers read without a check, is answered: no array is overrun and nothing blocks, with two exceptions.
  A write or an input and output control of an identifier that is registered without handlers for it goes
  wrong, in every state, because a null pointer is called; a range of memory whose end wraps around into or below the memory is
  left out, and so are the events of the library alone. The platform is supposed to fill the buffers it is given and to be able to configure the LED pin.
\<close>

theorem sample_type_soundness:
  fixes w0 w :: "(sample_fn, 'c, 'f, 'fs, 'h, 'r, 'n, 'g, 'p) sample_world"
  assumes "sample_run (sample_cfg ops board) (so_led ops) level_after w0 tr w" and "sample_wf link k w0" and "user w0 = sample_init g p"
    and "platform_ok ops"
  shows "sample_typed (user w) \<and>
    (request_fits ev arg \<longrightarrow> (\<exists>r arg' w'. server_event (Suc (Suc n)) (sample_cfg ops board) k ev arg w = Returns (r, arg') w')) \<and>
    (did \<in> {string_id, authenticated_type_id, secure_data_id} \<longrightarrow>
       server_event (Suc n) (sample_cfg ops board) k UDS_EVT_WriteDataByIdent (Arg_WDBI did bs) w = Undefined) \<and>
    (did \<in> {primitive_type_id, string_id, authenticated_type_id, secure_data_id} \<longrightarrow>
       server_event (Suc n) (sample_cfg ops board) k UDS_EVT_IOControl (Arg_IOCtrl did param msk c) w = Undefined)"
proof -
  have "sample_typed (user w0)"
    by (simp add: assms(3) sample_typed_def sample_init_def auth_data_init_def dtc_records_init_def length_fake_memory_init)
  from sample_invariant.run_keeps [OF typed_invariant [OF assms(4)] assms(1,2) this]
  have w: "sample_wf link k w" "sample_typed (user w)" by blast+
  have "request_fits ev arg \<longrightarrow> (\<exists>r arg' w'. server_event (Suc (Suc n)) (sample_cfg ops board) k ev arg w = Returns (r, arg') w')"
    using typed_request_answered [OF w, where ops = ops and board = board and n = n and ev = ev and arg = arg]
    by (auto simp: answers_def)
  moreover have "args_data_id (Arg_WDBI did bs) = Some did" "args_data_id (Arg_IOCtrl did param msk c) = Some did" by simp_all
  ultimately show ?thesis
    using w(2) read_only_undefined(1) [OF w(1), where arg = "Arg_WDBI did bs" and did = did]
      read_only_undefined(2) [OF w(1), where arg = "Arg_IOCtrl did param msk c" and did = did] by blast
qed

theorem sample_type_soundness_witness:
  "\<exists>w. sample_run demo_sample_cfg (so_led demo_sample_ops) demo_level (demo_sample (sample_init 0 ()))
      [Request 0 UDS_EVT_ClearDiagnosticInfo (Arg_CDI 0xFFFFFF) UDS_PositiveResponse] w \<and> sample_typed (user w) \<and>
    (\<exists>r arg' w'. server_event 2 demo_sample_cfg 0 UDS_EVT_WriteMemByAddr (Arg_WriteMem 0x1000 2 [1, 2]) w = Returns (r, arg') w')"
proof -
  have run: "sample_run demo_sample_cfg (so_led demo_sample_ops) demo_level (demo_sample (sample_init 0 ()))
      [Request 0 UDS_EVT_ClearDiagnosticInfo (Arg_CDI 0xFFFFFF) UDS_PositiveResponse]
      (set_level 0 (demo_level UDS_EVT_ClearDiagnosticInfo (Arg_CDI 0xFFFFFF) UDS_PositiveResponse 0)
        (upd_dtc (\<lambda>s. s\<lparr>dtc_records := map (\<lambda>d. d\<lparr>is_active := False\<rparr>) (dtc_records s), dtc_reactivate_pending := True\<rparr>)
          (demo_sample (sample_init 0 ()))))" (is "sample_run _ _ _ _ _ ?v")
    using sample_more [OF sample_start request [OF clear_event_eq [OF demo_sample_facts(1) [of "sample_init 0 ()"], where n = 0 and i = 0
            and ops = demo_sample_ops and board = demo_board and arg = "Arg_CDI 0xFFFFFF"]],
        where led = "so_led demo_sample_ops" and level_after = demo_level] by simp
  have ok: "platform_ok demo_sample_ops"
    by (simp add: platform_ok_def demo_sample_ops_def)
  from sample_type_soundness [OF run demo_sample_facts(1,2) ok, where ev = UDS_EVT_WriteMemByAddr and arg = "Arg_WriteMem 0x1000 2 [1, 2]" and n = 0]
  have "sample_typed (user ?v)"
    "\<exists>r arg' w'. server_event (Suc (Suc 0)) demo_sample_cfg 0 UDS_EVT_WriteMemByAddr (Arg_WriteMem 0x1000 2 [1, 2]) ?v = Returns (r, arg') w'"
    by (simp_all add: request_fits_def wraps_into_memory_def)
  with run show ?thesis unfolding numeral_2_eq_2 by blast
qed

end
