(* ===== verification/Uds_Bus.thy ===== *)
theory Uds_Bus
  imports Default_Instance Server_Invariant
begin

text \<open>
  The bus sample (\<^verbatim>\<open>samples/uds_bus_sample/src\<close>): a board that works as a link of a chain, which signs the
  frames it receives and passes them on (\<^verbatim>\<open>worker.c\<close>), and as the controller that sends a frame through the chain
  (\<^verbatim>\<open>controller.c\<close>). Both are configured and started over UDS. \<open>'c\<close> is the state of the CAN controller.
\<close>

section \<open>State\<close>

text \<open>The callbacks that are given to the CAN driver, and the functions of the driver and of the work queue.\<close>

datatype bus_cb = Cb_can_rx_cb | Cb_controller_routine_rx

record 'c bus_can_ops =
  bus_add_rx_filter :: "bus_cb \<Rightarrow> u16 \<Rightarrow> 'c \<Rightarrow> c_int \<times> 'c"
  bus_remove_rx_filter :: "c_int \<Rightarrow> 'c \<Rightarrow> 'c"
  bus_can_send :: "can_frame \<Rightarrow> 'c \<Rightarrow> c_int \<times> 'c"
  bus_k_work_submit :: "'c \<Rightarrow> c_int \<times> 'c"

text \<open>
  \<^verbatim>\<open>worker.c\<close>; the filter id \<open>-1\<close>, for no filter, is the negative errno \<open>EPERM\<close>. \<open>rx_work_pending\<close>: the work item is
  submitted.
\<close>

record bus_worker =
  can_receive_addr :: u16
  can_send_addr :: u16
  receive_can_filter_id :: c_int
  received_can_frame :: can_frame
  rx_work_pending :: bool

text \<open>
  \<^verbatim>\<open>controller.c\<close>, with the position of the work item: not submitted, submitted, waiting for the response, or between the end
  of the wait and the removal of its filter. There it has local variables: the id of its filter, the frame on its
  stack, which has no value at first, and after the wait whether it ended with a timeout.
\<close>

datatype ctl_pc = Ctl_idle | Ctl_submitted | Ctl_waiting c_int "can_frame option" | Ctl_waited c_int "can_frame option" bool

record bus_controller =
  ctl_running :: bool
  routine_result :: "u8 list"
  controller_receive_sem :: bool
  ctl_work :: ctl_pc

record 'c bus_state =
  bus_worker :: bus_worker
  bus_controller :: bus_controller
  bus_can :: 'c

definition bus_init :: "'c \<Rightarrow> 'c bus_state" where
  "bus_init c =
     \<lparr>bus_worker = \<lparr>can_receive_addr = 0, can_send_addr = 0, receive_can_filter_id = Inl EPERM,
        received_can_frame = \<lparr>frame_id = 0, frame_dlc = 0, frame_data = replicate 8 0\<rparr>, rx_work_pending = False\<rparr>,
      bus_controller = \<lparr>ctl_running = False, routine_result = replicate 9 0, controller_receive_sem = False, ctl_work = Ctl_idle\<rparr>,
      bus_can = c\<rparr>"

section \<open>The worker\<close>

definition CAN_MAX_DLC :: nat where "CAN_MAX_DLC = 8"

definition worker_can_rx_cb :: "can_frame \<Rightarrow> 'c bus_state \<Rightarrow> 'c bus_state" where
  "worker_can_rx_cb frame s = s\<lparr>bus_worker := (bus_worker s)\<lparr>received_can_frame := frame, rx_work_pending := True\<rparr>\<rparr>"

text \<open>
  The handler of the work item. \<open>inst\<close> is the default instance, \<open>cfg\<close> the local variable that its configuration is
  copied to. The data of a frame are an array of eight bytes.
\<close>

definition can_rx_cb_work_handler ::
  "'c bus_can_ops \<Rightarrow> ('u, 's) uds_instance \<Rightarrow> isotp_config \<Rightarrow> 'c bus_state \<Rightarrow> (unit, 'c bus_state) outcome" where
  "can_rx_cb_work_handler ops inst cfg s =
     (let s = s\<lparr>bus_worker := (bus_worker s)\<lparr>rx_work_pending := False\<rparr>\<rparr>;
          received = received_can_frame (bus_worker s) in
      if unat (frame_dlc received) + 1 > CAN_MAX_DLC then
        (case bus_can_send ops received (bus_can s) of (_, c) \<Rightarrow> Returns () (s\<lparr>bus_can := c\<rparr>))
      else
        (case uds_get_isotp_config (Some inst) (Some cfg) of
           (_, Some isotp_config) \<Rightarrow>
             if length (frame_data received) \<noteq> 8 then Undefined
             else
               let signature = hd (frame_data received) XOR ucast (source_addr isotp_config AND 0xff);
                   to_send = received\<lparr>frame_id := ucast (can_send_addr (bus_worker s)), frame_dlc := frame_dlc received + 1,
                     frame_data := (frame_data received)[unat (frame_dlc received) := signature]\<rparr>
               in case bus_can_send ops to_send (bus_can s) of (_, c) \<Rightarrow> Returns () (s\<lparr>bus_can := c\<rparr>)
         | _ \<Rightarrow> Undefined))"

text \<open>Writing the two addresses; the bytes are in the order of the CPU, the least significant first.\<close>

definition set_receive_addr :: "'c bus_can_ops \<Rightarrow> u8 list \<Rightarrow> 'c bus_state \<Rightarrow> UDSErr_t \<times> 'c bus_state" where
  "set_receive_addr ops bytes s =
     (case bytes of
        [lo, hi] \<Rightarrow>
          let a = u16_of_bytes lo hi;
              s = s\<lparr>bus_worker := (bus_worker s)\<lparr>can_receive_addr := a\<rparr>\<rparr>;
              old = receive_can_filter_id (bus_worker s);
              c = (if old \<noteq> Inl EPERM then bus_remove_rx_filter ops old (bus_can s) else bus_can s)
          in case bus_add_rx_filter ops Cb_can_rx_cb a c of
               (filter_id, c) \<Rightarrow>
                 let s = s\<lparr>bus_worker := (bus_worker s)\<lparr>receive_can_filter_id := filter_id\<rparr>, bus_can := c\<rparr> in
                 if rc_neg filter_id then (UDS_NRC_ConditionsNotCorrect, s) else (UDS_PositiveResponse, s)
      | _ \<Rightarrow> (UDS_NRC_IncorrectMessageLengthOrInvalidFormat, s))"

definition set_send_addr :: "u8 list \<Rightarrow> 'c bus_state \<Rightarrow> UDSErr_t \<times> 'c bus_state" where
  "set_send_addr bytes s =
     (case bytes of
        [lo, hi] \<Rightarrow> (UDS_PositiveResponse, s\<lparr>bus_worker := (bus_worker s)\<lparr>can_send_addr := u16_of_bytes lo hi\<rparr>\<rparr>)
      | _ \<Rightarrow> (UDS_NRC_IncorrectMessageLengthOrInvalidFormat, s))"

section \<open>The controller\<close>

definition CONTROLLER_CAN_SEND_ADDR :: u32 where "CONTROLLER_CAN_SEND_ADDR = 0x001"
definition CONTROLLER_CAN_RECEIVE_ADDR :: u16 where "CONTROLLER_CAN_RECEIVE_ADDR = 0x000"

datatype controller_routine_status =
    CONTROLLER_ROUTINE_STATUS__SUCCESS | CONTROLLER_ROUTINE_STATUS__ERROR | CONTROLLER_ROUTINE_STATUS__NOT_COMPLETED

fun controller_routine_status_val :: "controller_routine_status \<Rightarrow> u8" where
  "controller_routine_status_val CONTROLLER_ROUTINE_STATUS__SUCCESS = 0x00"
| "controller_routine_status_val CONTROLLER_ROUTINE_STATUS__ERROR = 0x01"
| "controller_routine_status_val CONTROLLER_ROUTINE_STATUS__NOT_COMPLETED = 0xFF"

abbreviation upd_ctl :: "(bus_controller \<Rightarrow> bus_controller) \<Rightarrow> 'c bus_state \<Rightarrow> 'c bus_state" where
  "upd_ctl f s \<equiv> s\<lparr>bus_controller := f (bus_controller s)\<rparr>"

text \<open>The callback writes to the local variable of the work item; once the work item has returned, there is none.\<close>

definition controller_routine_rx :: "can_frame \<Rightarrow> 'c bus_state \<Rightarrow> (unit, 'c bus_state) outcome" where
  "controller_routine_rx frame s =
     (case ctl_work (bus_controller s) of
        Ctl_waiting filter_id _ \<Rightarrow>
          Returns () (upd_ctl (\<lambda>c. c\<lparr>ctl_work := Ctl_waiting filter_id (Some frame), controller_receive_sem := True\<rparr>) s)
      | Ctl_waited filter_id _ timeout \<Rightarrow>
          Returns () (upd_ctl (\<lambda>c. c\<lparr>ctl_work := Ctl_waited filter_id (Some frame) timeout, controller_receive_sem := True\<rparr>) s)
      | _ \<Rightarrow> Undefined)"

text \<open>
  The work item \<^verbatim>\<open>controller_routine\<close>: up to the wait for the semaphore, the end of the wait, and the rest from the removal of
  the filter on. Frames may arrive in between.
\<close>

definition controller_routine_begin :: "'c bus_can_ops \<Rightarrow> 'c bus_state \<Rightarrow> 'c bus_state" where
  "controller_routine_begin ops s =
     (let s = upd_ctl (\<lambda>c. c\<lparr>ctl_running := True\<rparr>) s in
      case bus_add_rx_filter ops Cb_controller_routine_rx CONTROLLER_CAN_RECEIVE_ADDR (bus_can s) of (filter_id, c) \<Rightarrow>
      case bus_can_send ops
          \<lparr>frame_id = CONTROLLER_CAN_SEND_ADDR, frame_dlc = 1, frame_data = [0xde, 0, 0, 0, 0, 0, 0, 0]\<rparr> c of (ret, c) \<Rightarrow>
      let s = s\<lparr>bus_can := c\<rparr> in
      if ret \<noteq> rc0 then
        upd_ctl (\<lambda>c. c\<lparr>routine_result := (routine_result c)[0 := controller_routine_status_val CONTROLLER_ROUTINE_STATUS__ERROR],
          ctl_running := False, ctl_work := Ctl_idle\<rparr>) s
      else upd_ctl (\<lambda>c. c\<lparr>ctl_work := Ctl_waiting filter_id None\<rparr>) s)"

text \<open>The end of the wait: the semaphore is taken, or the time is over without it.\<close>

definition controller_routine_wake :: "'c bus_state \<Rightarrow> 'c bus_state option" where
  "controller_routine_wake s =
     (case ctl_work (bus_controller s) of
        Ctl_waiting filter_id received \<Rightarrow>
          if controller_receive_sem (bus_controller s)
          then Some (upd_ctl (\<lambda>c. c\<lparr>controller_receive_sem := False, ctl_work := Ctl_waited filter_id received False\<rparr>) s)
          else None
      | _ \<Rightarrow> None)"

definition controller_routine_timeout :: "'c bus_state \<Rightarrow> 'c bus_state option" where
  "controller_routine_timeout s =
     (case ctl_work (bus_controller s) of
        Ctl_waiting filter_id received \<Rightarrow>
          if controller_receive_sem (bus_controller s) then None
          else Some (upd_ctl (\<lambda>c. c\<lparr>ctl_work := Ctl_waited filter_id received True\<rparr>) s)
      | _ \<Rightarrow> None)"

text \<open>From the removal of the filter on no frame reaches the work item any more.\<close>

definition controller_routine_end :: "'c bus_can_ops \<Rightarrow> 'c bus_state \<Rightarrow> (unit, 'c bus_state) outcome option" where
  "controller_routine_end ops s =
     (case ctl_work (bus_controller s) of
        Ctl_waited filter_id received timeout \<Rightarrow> Some
          (let s = s\<lparr>bus_can := bus_remove_rx_filter ops filter_id (bus_can s)\<rparr>;
               finish = upd_ctl (\<lambda>c. c\<lparr>ctl_running := False, ctl_work := Ctl_idle\<rparr>) in
           if timeout then
             Returns () (finish (upd_ctl (\<lambda>c. c\<lparr>routine_result :=
               (routine_result c)[0 := controller_routine_status_val CONTROLLER_ROUTINE_STATUS__ERROR]\<rparr>) s))
           else
             (case received of
                None \<Rightarrow> Undefined
              | Some frame \<Rightarrow>
                  let n = min (unat (frame_dlc frame)) 8 in
                  if length (frame_data frame) < n \<or> length (routine_result (bus_controller s)) < 1 + n then Undefined
                  else Returns () (finish (upd_ctl (\<lambda>c. c\<lparr>routine_result :=
                    controller_routine_status_val CONTROLLER_ROUTINE_STATUS__SUCCESS #
                      take n (frame_data frame) @ drop (1 + n) (routine_result c)\<rparr>) s))))
      | _ \<Rightarrow> None)"

text \<open>Starting the routine: the work item is pending while it is submitted and while it runs.\<close>

definition start_controller_routine :: "'c bus_can_ops \<Rightarrow> 'c bus_state \<Rightarrow> UDSErr_t \<times> 'c bus_state" where
  "start_controller_routine ops s =
     (let c = bus_controller s in
      if ctl_work c \<noteq> Ctl_idle then (UDS_NRC_RequestSequenceError, s)
      else if ctl_running c then (UDS_NRC_RequestSequenceError, s)
      else
        let s = upd_ctl (\<lambda>c. c\<lparr>routine_result :=
              (routine_result c)[0 := controller_routine_status_val CONTROLLER_ROUTINE_STATUS__NOT_COMPLETED]\<rparr>) s
        in case bus_k_work_submit ops (bus_can s) of
             (ret, c) \<Rightarrow>
               let s = s\<lparr>bus_can := c\<rparr> in
               if rc_neg ret then (UDS_NRC_ConditionsNotCorrect, s)
               else (UDS_PositiveResponse, upd_ctl (\<lambda>c. c\<lparr>ctl_work := Ctl_submitted\<rparr>) s))"

section \<open>Handlers\<close>

type_synonym ('u, 'c0, 'f, 'fs, 'h, 'r, 'n, 'c) bus_world = "('u, 'c0, 'f, 'fs, 'h, 'r, 'n, 'c bus_state) server_world"

definition upd_bus ::
  "('c bus_state \<Rightarrow> 'c bus_state) \<Rightarrow> ('u, 'c0, 'f, 'fs, 'h, 'r, 'n, 'c) bus_world \<Rightarrow> ('u, 'c0, 'f, 'fs, 'h, 'r, 'n, 'c) bus_world" where
  "upd_bus f = put_env (\<lambda>x. x\<lparr>srv_user := f (srv_user x)\<rparr>)"

abbreviation bus_of :: "('u, 'c0, 'f, 'fs, 'h, 'r, 'n, 'c) bus_world \<Rightarrow> 'c bus_state" where
  "bus_of w \<equiv> srv_user (env w)"

definition rw_data_by_id_check :: "uds_context \<Rightarrow> bool \<Rightarrow> 'w \<Rightarrow> (UDSErr_t \<times> bool, 'w) outcome" where
  "rw_data_by_id_check ctx apply_action w = Returns (UDS_OK, True) w"

text \<open>The result of the copy is not looked at.\<close>

definition r_data_by_id_action ::
  "(copy_fn \<Rightarrow> u8 list \<Rightarrow> ('u, 'c0, 'f, 'fs, 'h, 'r, 'n, 'c) bus_world \<Rightarrow> (UDSErr_t, ('u, 'c0, 'f, 'fs, 'h, 'r, 'n, 'c) bus_world) outcome) \<Rightarrow>
   uds_context \<Rightarrow> bool \<Rightarrow> ('u, 'c0, 'f, 'fs, 'h, 'r, 'n, 'c) bus_world \<Rightarrow>
   (UDSErr_t \<times> bool \<times> uds_arg, ('u, 'c0, 'f, 'fs, 'h, 'r, 'n, 'c) bus_world) outcome" where
  "r_data_by_id_action copy ctx consume_event w =
     (case ctx_arg ctx of
        Arg_RDBI dataId c \<Rightarrow>
          let answer = (\<lambda>v. obind (copy c [lo_byte v, hi_byte v] w) (\<lambda>_ w'. Returns (UDS_PositiveResponse, True, ctx_arg ctx) w')) in
          if dataId = 0x1100 then answer (can_receive_addr (bus_worker (bus_of w)))
          else if dataId = 0x1101 then answer (can_send_addr (bus_worker (bus_of w)))
          else Returns (UDS_OK, False, ctx_arg ctx) w
      | _ \<Rightarrow> Undefined)"

definition w_data_by_id_action ::
  "'c bus_can_ops \<Rightarrow> uds_context \<Rightarrow> bool \<Rightarrow> ('u, 'c0, 'f, 'fs, 'h, 'r, 'n, 'c) bus_world \<Rightarrow>
   (UDSErr_t \<times> bool \<times> uds_arg, ('u, 'c0, 'f, 'fs, 'h, 'r, 'n, 'c) bus_world) outcome" where
  "w_data_by_id_action ops ctx consume_event w =
     (case ctx_arg ctx of
        Arg_WDBI dataId bytes \<Rightarrow>
          if dataId = 0x1100 then
            (case set_receive_addr ops bytes (bus_of w) of
               (r, s) \<Rightarrow> Returns (r, if r = UDS_PositiveResponse then True else consume_event, ctx_arg ctx) (upd_bus (\<lambda>_. s) w))
          else if dataId = 0x1101 then
            (case set_send_addr bytes (bus_of w) of
               (r, s) \<Rightarrow> Returns (r, if r = UDS_PositiveResponse then True else consume_event, ctx_arg ctx) (upd_bus (\<lambda>_. s) w))
          else Returns (UDS_OK, False, ctx_arg ctx) w
      | _ \<Rightarrow> Undefined)"

definition bus_routine_control_check :: "uds_context \<Rightarrow> bool \<Rightarrow> 'w \<Rightarrow> (UDSErr_t \<times> bool, 'w) outcome" where
  "bus_routine_control_check ctx apply_action w = Returns (UDS_OK, True) w"

definition bus_routine_control_action ::
  "'c bus_can_ops \<Rightarrow>
   (copy_fn \<Rightarrow> u8 list \<Rightarrow> ('u, 'c0, 'f, 'fs, 'h, 'r, 'n, 'c) bus_world \<Rightarrow> (UDSErr_t, ('u, 'c0, 'f, 'fs, 'h, 'r, 'n, 'c) bus_world) outcome) \<Rightarrow>
   uds_context \<Rightarrow> bool \<Rightarrow> ('u, 'c0, 'f, 'fs, 'h, 'r, 'n, 'c) bus_world \<Rightarrow>
   (UDSErr_t \<times> bool \<times> uds_arg, ('u, 'c0, 'f, 'fs, 'h, 'r, 'n, 'c) bus_world) outcome" where
  "bus_routine_control_action ops copy ctx consume_event w =
     (case ctx_arg ctx of
        Arg_RoutineCtrl ctrlType _ _ \<Rightarrow>
          if ctrlType = routine_control_val UDS_ROUTINE_CONTROL__START_ROUTINE then
            (case start_controller_routine ops (bus_of w) of (r, s) \<Rightarrow> Returns (r, True, ctx_arg ctx) (upd_bus (\<lambda>_. s) w))
          else if ctrlType = routine_control_val UDS_ROUTINE_CONTROL__STOP_ROUTINE then
            Returns (UDS_NRC_SubFunctionNotSupported, True, ctx_arg ctx) w
          else if ctrlType = routine_control_val UDS_ROUTINE_CONTROL__REQUEST_ROUTINE_RESULTS then
            obind (copy Copy_lib (routine_result (bus_controller (bus_of w))) w) (\<lambda>r w'. Returns (r, True, ctx_arg ctx) w')
          else Returns (UDS_NRC_SubFunctionNotSupported, True, ctx_arg ctx) w
      | _ \<Rightarrow> Undefined)"

section \<open>The sample as an application of the server\<close>

datatype bus_fn =
    Fn_rw_data_by_id_check | Fn_r_data_by_id_action | Fn_w_data_by_id_action
  | Fn_bus_routine_control_check | Fn_bus_routine_control_action

fun bus_check ::
  "bus_fn \<Rightarrow> uds_context \<Rightarrow> bool \<Rightarrow> (bus_fn, 'c0, 'f, 'fs, 'h, 'r, 'n, 'c) bus_world \<Rightarrow>
   (UDSErr_t \<times> bool, (bus_fn, 'c0, 'f, 'fs, 'h, 'r, 'n, 'c) bus_world) outcome" where
  "bus_check Fn_rw_data_by_id_check ctx b w = rw_data_by_id_check ctx b w"
| "bus_check Fn_bus_routine_control_check ctx b w = bus_routine_control_check ctx b w"
| "bus_check _ ctx b w = Undefined"

fun bus_action ::
  "'c bus_can_ops \<Rightarrow>
   (copy_fn \<Rightarrow> u8 list \<Rightarrow> (bus_fn, 'c0, 'f, 'fs, 'h, 'r, 'n, 'c) bus_world \<Rightarrow> (UDSErr_t, (bus_fn, 'c0, 'f, 'fs, 'h, 'r, 'n, 'c) bus_world) outcome) \<Rightarrow>
   bus_fn \<Rightarrow> uds_context \<Rightarrow> bool \<Rightarrow> (bus_fn, 'c0, 'f, 'fs, 'h, 'r, 'n, 'c) bus_world \<Rightarrow>
   (UDSErr_t \<times> bool \<times> uds_arg, (bus_fn, 'c0, 'f, 'fs, 'h, 'r, 'n, 'c) bus_world) outcome" where
  "bus_action ops copy Fn_r_data_by_id_action ctx b w = r_data_by_id_action copy ctx b w"
| "bus_action ops copy Fn_w_data_by_id_action ctx b w = w_data_by_id_action ops ctx b w"
| "bus_action ops copy Fn_bus_routine_control_action ctx b w = bus_routine_control_action ops copy ctx b w"
| "bus_action ops copy _ ctx b w = Undefined"

definition bus_cfg ::
  "'c bus_can_ops \<Rightarrow> (bus_fn, 'c0, 'f, 'fs, 'h, 'r, 'n, 'c bus_state) server_cfg \<Rightarrow> (bus_fn, 'c0, 'f, 'fs, 'h, 'r, 'n, 'c bus_state) server_cfg" where
  "bus_cfg ops board = board\<lparr>sc_user_check := bus_check, sc_user_action := bus_action ops (call_copy (server_dddi_env board)),
     sc_user_unregister := (\<lambda>_ _ _. Undefined)\<rparr>"

definition reg_address :: "inst \<Rightarrow> u16 \<Rightarrow> bus_fn uds_registration_t" where
  "reg_address k did = UDS_REGISTER_DATA_BY_IDENTIFIER_HANDLER (Some k) did None
     (Some (Check_user Fn_rw_data_by_id_check)) (Some (Action_user Fn_r_data_by_id_action))
     (Some (Check_user Fn_rw_data_by_id_check)) (Some (Action_user Fn_w_data_by_id_action)) None None None"

definition reg_controller :: "inst \<Rightarrow> bus_fn uds_registration_t" where
  "reg_controller k = UDS_REGISTER_ROUTINE_CONTROL_HANDLER (Some k) 0x0000
     (Some (Check_user Fn_bus_routine_control_check)) (Some (Action_user Fn_bus_routine_control_action)) None"

definition bus_static :: "bool \<Rightarrow> inst \<Rightarrow> bus_fn uds_registration_t list" where
  "bus_static link k = default_instance_registrations link k @ [reg_controller k, reg_address k 0x1100, reg_address k 0x1101]"

end
