(* ===== verification/Bus_Ring.thy ===== *)
theory Bus_Ring
  imports Uds_Bus
begin

text \<open>
  Boards with the bus sample on one CAN bus: the interleaving of their work items with the delivery of frames, and
  what comes back to the controller.
\<close>

section \<open>The bus\<close>

text \<open>
  The bus on which the chain is shown to work: a CAN controller has its filters and the frames it has to send, there is room for
  every filter and every frame, a frame that was sent reaches all other nodes at some time, and submitting a
  work item succeeds. On a bus that loses frames the controller ends with its timeout.
\<close>

record ring_can =
  rc_filters :: "(nat \<times> bus_cb \<times> u16) list"
  rc_tx :: "can_frame list"

definition ring_ops :: "ring_can bus_can_ops" where
  "ring_ops =
     \<lparr>bus_add_rx_filter = (\<lambda>cb a c. let i = Suc (foldr max (map fst (rc_filters c)) 0) in (Inr i, c\<lparr>rc_filters := rc_filters c @ [(i, cb, a)]\<rparr>)),
      bus_remove_rx_filter = (\<lambda>r c. case r of Inr i \<Rightarrow> c\<lparr>rc_filters := filter (\<lambda>x. fst x \<noteq> i) (rc_filters c)\<rparr> | Inl _ \<Rightarrow> c),
      bus_can_send = (\<lambda>f c. (rc0, c\<lparr>rc_tx := rc_tx c @ [f]\<rparr>)), bus_k_work_submit = (\<lambda>c. (rc0, c))\<rparr>"

definition filter_matches :: "can_frame \<Rightarrow> u16 \<Rightarrow> bool" where
  "filter_matches f a \<longleftrightarrow> frame_id f AND 0x7FF = ucast a AND 0x7FF"

fun rx_callbacks :: "can_frame \<Rightarrow> (nat \<times> bus_cb \<times> u16) list \<Rightarrow> 'c bus_state \<Rightarrow> (unit, 'c bus_state) outcome" where
  "rx_callbacks f [] s = Returns () s"
| "rx_callbacks f ((_, cb, a) # fs) s =
     (if filter_matches f a then
        obind (case cb of Cb_can_rx_cb \<Rightarrow> Returns () (worker_can_rx_cb f s) | Cb_controller_routine_rx \<Rightarrow> controller_routine_rx f s)
          (\<lambda>_ s. rx_callbacks f fs s)
      else rx_callbacks f fs s)"

definition receive_frame :: "can_frame \<Rightarrow> ring_can bus_state \<Rightarrow> (unit, ring_can bus_state) outcome" where
  "receive_frame f s = rx_callbacks f (rc_filters (bus_can s)) s"

text \<open>\<open>insts\<close> are the default instances of the nodes, \<open>out\<close> is the local variable of the worker.\<close>

inductive net_step ::
  "(nat \<Rightarrow> ('u, 's) uds_instance) \<Rightarrow> isotp_config \<Rightarrow> ring_can bus_state list \<Rightarrow> ring_can bus_state list \<Rightarrow> bool"
  for insts out where
  net_deliver: "i < length ns \<Longrightarrow> rc_tx (bus_can (ns ! i)) = f # rest \<Longrightarrow> length ns' = length ns \<Longrightarrow>
    ns' ! i = (ns ! i)\<lparr>bus_can := (bus_can (ns ! i))\<lparr>rc_tx := rest\<rparr>\<rparr> \<Longrightarrow>
    (\<And>j. j < length ns \<Longrightarrow> j \<noteq> i \<Longrightarrow> receive_frame f (ns ! j) = Returns () (ns' ! j)) \<Longrightarrow> net_step insts out ns ns'"
| net_sign: "i < length ns \<Longrightarrow> rx_work_pending (bus_worker (ns ! i)) \<Longrightarrow>
    can_rx_cb_work_handler ring_ops (insts i) out (ns ! i) = Returns () s \<Longrightarrow> net_step insts out ns (ns[i := s])"
| net_begin: "i < length ns \<Longrightarrow> ctl_work (bus_controller (ns ! i)) = Ctl_submitted \<Longrightarrow>
    net_step insts out ns (ns[i := controller_routine_begin ring_ops (ns ! i)])"
| net_wake: "i < length ns \<Longrightarrow> controller_routine_wake (ns ! i) = Some s \<Longrightarrow> net_step insts out ns (ns[i := s])"
| net_timeout: "i < length ns \<Longrightarrow> controller_routine_timeout (ns ! i) = Some s \<Longrightarrow> net_step insts out ns (ns[i := s])"
| net_end: "i < length ns \<Longrightarrow> controller_routine_end ring_ops (ns ! i) = Some (Returns () s) \<Longrightarrow> net_step insts out ns (ns[i := s])"

abbreviation net_run where
  "net_run insts out \<equiv> (net_step insts out)\<^sup>*\<^sup>*"

section \<open>The chain\<close>

text \<open>
  The configuration that the client writes: node 0 is the controller, node \<open>i\<close> receives at \<open>recv i\<close> and
  sends to \<open>recv (i + 1)\<close>, from the address of the controller to the address that it receives at.
\<close>

definition chain_addresses :: "(nat \<Rightarrow> u16) \<Rightarrow> nat \<Rightarrow> bool" where
  "chain_addresses recv n \<longleftrightarrow> recv 1 = 1 \<and> recv (Suc n) = 0 \<and> inj_on (\<lambda>i. recv i AND 0x7FF) {1..Suc n} \<and> n \<le> 7"

definition signature :: "('u, 's) uds_instance \<Rightarrow> u8" where
  "signature inst = 0xDE XOR ucast (source_addr (iso_tp (ui_iso14229 inst)) AND 0xff)"

definition signed_data :: "(nat \<Rightarrow> ('u, 's) uds_instance) \<Rightarrow> nat \<Rightarrow> u8 list" where
  "signed_data insts j = 0xDE # map (\<lambda>i. signature (insts i)) [1..<Suc j] @ replicate (7 - j) 0"

definition hop :: "(nat \<Rightarrow> ('u, 's) uds_instance) \<Rightarrow> (nat \<Rightarrow> u16) \<Rightarrow> nat \<Rightarrow> can_frame" where
  "hop insts recv j = \<lparr>frame_id = ucast (recv (Suc j)), frame_dlc = of_nat (Suc j), frame_data = signed_data insts j\<rparr>"

text \<open>A node in the middle of the chain, and the controller before it starts.\<close>

definition worker_node :: "(nat \<Rightarrow> u16) \<Rightarrow> nat \<Rightarrow> ring_can bus_state \<Rightarrow> bool" where
  "worker_node recv i s \<longleftrightarrow> can_send_addr (bus_worker s) = recv (Suc i) \<and> (\<exists>x. rc_filters (bus_can s) = [(x, Cb_can_rx_cb, recv i)]) \<and>
     ctl_work (bus_controller s) = Ctl_idle"

definition silent :: "ring_can bus_state \<Rightarrow> bool" where
  "silent s \<longleftrightarrow> rc_tx (bus_can s) = [] \<and> \<not> rx_work_pending (bus_worker s)"

definition chain_started :: "(nat \<Rightarrow> u16) \<Rightarrow> nat \<Rightarrow> ring_can bus_state list \<Rightarrow> bool" where
  "chain_started recv n ns \<longleftrightarrow> length ns = Suc n \<and> (\<forall>i \<in> {1..n}. worker_node recv i (ns ! i)) \<and> (\<forall>i \<le> n. silent (ns ! i)) \<and>
     rc_filters (bus_can (ns ! 0)) = [] \<and> ctl_work (bus_controller (ns ! 0)) = Ctl_submitted \<and>
     \<not> controller_receive_sem (bus_controller (ns ! 0)) \<and> length (routine_result (bus_controller (ns ! 0))) = 9"

section \<open>One frame in the chain\<close>

text \<open>The frame waits to be sent by a node, or to be signed by a node, or is nowhere.\<close>

datatype token = Nowhere | Sending nat | Signing nat

definition token_ok :: "nat \<Rightarrow> token \<Rightarrow> bool" where
  "token_ok n t \<longleftrightarrow> (case t of Nowhere \<Rightarrow> True | Sending j \<Rightarrow> j \<le> n | Signing j \<Rightarrow> 1 \<le> j \<and> j \<le> n)"

definition holds_token where
  "holds_token insts recv t i s \<longleftrightarrow> rc_tx (bus_can s) = (if t = Sending i then [hop insts recv i] else []) \<and>
     (rx_work_pending (bus_worker s) \<longleftrightarrow> t = Signing i) \<and> (t = Signing i \<longrightarrow> received_can_frame (bus_worker s) = hop insts recv (i - 1))"

text \<open>
  The controller: not started, waiting, waiting with the semaphore given, woken with the frame, at the timeout, and done
  with the signatures or with an error. A frame that comes after the timeout leaves the semaphore given.
\<close>

definition ctl_phase where
  "ctl_phase insts recv n t s \<longleftrightarrow>
     (let c = bus_controller s; fs = rc_filters (bus_can s) in
      length (routine_result c) = 9 \<and>
      (ctl_work c = Ctl_submitted \<and> fs = [] \<and> \<not> controller_receive_sem c \<and> t = Nowhere \<or>
       (\<exists>x. ctl_work c = Ctl_waiting (Inr x) None \<and> fs = [(x, Cb_controller_routine_rx, 0)] \<and> \<not> controller_receive_sem c \<and> t \<noteq> Nowhere) \<or>
       (\<exists>x. ctl_work c = Ctl_waiting (Inr x) (Some (hop insts recv n)) \<and> fs = [(x, Cb_controller_routine_rx, 0)] \<and>
          controller_receive_sem c \<and> t = Nowhere) \<or>
       (\<exists>x. ctl_work c = Ctl_waited (Inr x) (Some (hop insts recv n)) False \<and> fs = [(x, Cb_controller_routine_rx, 0)] \<and> t = Nowhere) \<or>
       (\<exists>x m. ctl_work c = Ctl_waited (Inr x) m True \<and> fs = [(x, Cb_controller_routine_rx, 0)]) \<or>
       ctl_work c = Ctl_idle \<and> fs = [] \<and> \<not> ctl_running c \<and>
         (t = Nowhere \<and> take (n + 2) (routine_result c) = 0 # take (Suc n) (signed_data insts n) \<or> hd (routine_result c) = 1)))"

definition ring_inv where
  "ring_inv insts recv n t ns \<longleftrightarrow> length ns = Suc n \<and> (\<forall>i \<in> {1..n}. worker_node recv i (ns ! i)) \<and>
     token_ok n t \<and> (\<forall>i \<le> n. holds_token insts recv t i (ns ! i)) \<and> ctl_phase insts recv n t (ns ! 0)"

lemma ring_inv_start: "chain_started recv n ns \<Longrightarrow> ring_inv insts recv n Nowhere ns"
  unfolding ring_inv_def chain_started_def
  by (auto simp: token_ok_def holds_token_def ctl_phase_def silent_def Let_def)

lemma signed_data_length: "j \<le> 7 \<Longrightarrow> length (signed_data insts j) = 8"
  by (simp add: signed_data_def del: upt_Suc)

text \<open>Which filters the frame of a hop passes.\<close>

lemma unat_std_id: "unat ((ucast (a :: u16) :: u32) AND 0x7FF) = unat (a AND 0x7FF)"
proof -
  have "unat a < 2 ^ 16" using unsigned_less [of a, where ?'a = nat] by simp
  then have "unat a < 2 ^ 32" by (rule less_le_trans) simp
  then have "take_bit 32 (unat a) = unat a" by (rule take_bit_nat_eq_self)
  then show ?thesis by (simp add: unsigned_and_eq unsigned_ucast_eq)
qed

lemma ucast_and_std: "((ucast (a :: u16) :: u32) AND 0x7FF = ucast (b :: u16) AND 0x7FF) \<longleftrightarrow> a AND 0x7FF = b AND 0x7FF"
  by (metis unat_std_id unsigned_word_eqI)

lemma hop_matches:
  assumes "chain_addresses recv n" and "j \<le> n" and "1 \<le> i" and "i \<le> Suc n"
  shows "filter_matches (hop insts recv j) (recv i) \<longleftrightarrow> i = Suc j"
proof -
  have "recv (Suc j) AND 0x7FF = recv i AND 0x7FF \<longleftrightarrow> Suc j = i"
    using assms inj_on_eq_iff [of "\<lambda>i. recv i AND 0x7FF" "{1..Suc n}" "Suc j" i] by (simp add: chain_addresses_def)
  then show ?thesis by (auto simp: filter_matches_def hop_def ucast_and_std)
qed

text \<open>How the nodes take the frame of a hop.\<close>

lemma receive_worker:
  assumes "chain_addresses recv n" and "worker_node recv j s" and "j \<in> {1..n}" and "i \<le> n"
  shows "receive_frame (hop insts recv i) s = Returns () (if j = Suc i then worker_can_rx_cb (hop insts recv i) s else s)"
proof -
  obtain x where "rc_filters (bus_can s) = [(x, Cb_can_rx_cb, recv j)]" using assms(2) by (auto simp: worker_node_def)
  moreover have "filter_matches (hop insts recv i) (recv j) \<longleftrightarrow> j = Suc i" using assms by (intro hop_matches) auto
  ultimately show ?thesis by (simp add: receive_frame_def)
qed

lemma receive_none: "rc_filters (bus_can s) = [] \<Longrightarrow> receive_frame f s = Returns () s"
  by (simp add: receive_frame_def)

lemma receive_controller:
  assumes "chain_addresses recv n" and "i \<le> n" and "rc_filters (bus_can s) = [(x, Cb_controller_routine_rx, 0)]"
  shows "ctl_work (bus_controller s) = Ctl_waiting r m \<Longrightarrow> receive_frame (hop insts recv i) s = Returns () (if i = n then
           upd_ctl (\<lambda>c. c\<lparr>ctl_work := Ctl_waiting r (Some (hop insts recv n)), controller_receive_sem := True\<rparr>) s else s)"
    and "ctl_work (bus_controller s) = Ctl_waited r m b \<Longrightarrow> receive_frame (hop insts recv i) s = Returns () (if i = n then
           upd_ctl (\<lambda>c. c\<lparr>ctl_work := Ctl_waited r (Some (hop insts recv n)) b, controller_receive_sem := True\<rparr>) s else s)"
proof -
  have "filter_matches (hop insts recv i) 0 \<longleftrightarrow> i = n"
    using assms hop_matches [of recv n i "Suc n" insts] by (auto simp: chain_addresses_def)
  then show
    "ctl_work (bus_controller s) = Ctl_waiting r m \<Longrightarrow> receive_frame (hop insts recv i) s = Returns () (if i = n then
       upd_ctl (\<lambda>c. c\<lparr>ctl_work := Ctl_waiting r (Some (hop insts recv n)), controller_receive_sem := True\<rparr>) s else s)"
    "ctl_work (bus_controller s) = Ctl_waited r m b \<Longrightarrow> receive_frame (hop insts recv i) s = Returns () (if i = n then
       upd_ctl (\<lambda>c. c\<lparr>ctl_work := Ctl_waited r (Some (hop insts recv n)) b, controller_receive_sem := True\<rparr>) s else s)"
    using assms by (simp_all add: receive_frame_def controller_routine_rx_def)
qed

text \<open>A node signs: the frame of a hop becomes the frame of the next hop.\<close>

lemma signed_data_next:
  assumes "1 \<le> i" and "i \<le> 7"
  shows "(signed_data insts (i - 1))[i := signature (insts i)] = signed_data insts i"
proof -
  obtain k where i: "i = Suc k" using assms by (cases i) auto
  have "7 - k = Suc (7 - i)" using assms i by simp
  then show ?thesis by (simp add: signed_data_def i list_update_append)
qed

lemma sign_hop:
  assumes "received_can_frame (bus_worker s) = hop insts recv (i - 1)" and "can_send_addr (bus_worker s) = recv (Suc i)"
    and "1 \<le> i" and "i \<le> 7"
  shows "can_rx_cb_work_handler ring_ops (insts i) out s =
    Returns () (s\<lparr>bus_worker := (bus_worker s)\<lparr>rx_work_pending := False\<rparr>,
      bus_can := (bus_can s)\<lparr>rc_tx := rc_tx (bus_can s) @ [hop insts recv i]\<rparr>\<rparr>)"
proof -
  have dlc: "unat (frame_dlc (hop insts recv (i - 1))) = i" using assms by (simp add: hop_def unat_of_nat)
  have len: "length (frame_data (hop insts recv (i - 1))) = 8" using assms by (simp add: hop_def signed_data_length)
  have "hop insts recv i = (hop insts recv (i - 1))\<lparr>frame_id := ucast (recv (Suc i)),
      frame_dlc := frame_dlc (hop insts recv (i - 1)) + 1,
      frame_data := (frame_data (hop insts recv (i - 1)))[i := signature (insts i)]\<rparr>"
    using assms signed_data_next [of i insts] by (simp add: hop_def)
  then show ?thesis
    using assms dlc len unfolding can_rx_cb_work_handler_def
    by (simp add: CAN_MAX_DLC_def ring_ops_def uds_get_isotp_config_def signature_def Let_def hop_def signed_data_def)
qed

section \<open>The invariant\<close>

lemma ring_invI:
  assumes "length ns = Suc n" and "\<And>i. i \<in> {1..n} \<Longrightarrow> worker_node recv i (ns ! i)" and "token_ok n t"
    and "\<And>i. i \<le> n \<Longrightarrow> holds_token insts recv t i (ns ! i)" and "ctl_phase insts recv n t (ns ! 0)"
  shows "ring_inv insts recv n t ns"
  using assms by (auto simp: ring_inv_def)

lemma ring_invD:
  assumes "ring_inv insts recv n t ns"
  shows "length ns = Suc n" and "i \<in> {1..n} \<Longrightarrow> worker_node recv i (ns ! i)" and "token_ok n t"
    and "i < length ns \<Longrightarrow> holds_token insts recv t i (ns ! i)" and "ctl_phase insts recv n t (ns ! 0)"
  using assms by (auto simp: ring_inv_def)

text \<open>Only the controller and its filters matter to the phase; the token only as far as there is one.\<close>

lemma ctl_phase_cong:
  "bus_controller s' = bus_controller s \<Longrightarrow> rc_filters (bus_can s') = rc_filters (bus_can s) \<Longrightarrow> (t' = Nowhere) = (t = Nowhere) \<Longrightarrow>
   ctl_phase insts recv n t' s' = ctl_phase insts recv n t s"
  by (simp add: ctl_phase_def)

definition next_token :: "nat \<Rightarrow> nat \<Rightarrow> token" where
  "next_token n i = (if i = n then Nowhere else Signing (Suc i))"

lemma ctl_phase_receive:
  assumes "chain_addresses recv n" and "i \<le> n" and "ctl_phase insts recv n (Sending i) s" and "receive_frame (hop insts recv i) s = Returns () s'"
  shows "ctl_phase insts recv n (next_token n i) s' \<and> rc_tx (bus_can s') = rc_tx (bus_can s) \<and> bus_worker s' = bus_worker s"
proof -
  from assms(3) consider
      (waiting) x where "ctl_work (bus_controller s) = Ctl_waiting (Inr x) None" "rc_filters (bus_can s) = [(x, Cb_controller_routine_rx, 0)]"
    | (late) x m where "ctl_work (bus_controller s) = Ctl_waited (Inr x) m True" "rc_filters (bus_can s) = [(x, Cb_controller_routine_rx, 0)]"
    | (over) "ctl_work (bus_controller s) = Ctl_idle" "rc_filters (bus_can s) = []" "hd (routine_result (bus_controller s)) = 1"
    by (auto simp: ctl_phase_def Let_def)
  then show ?thesis
  proof cases
    case waiting
    then show ?thesis
      using assms receive_controller(1) [OF assms(1,2) waiting(2,1), of insts]
      by (cases "i = n") (auto simp: ctl_phase_def Let_def next_token_def)
  next
    case late
    then show ?thesis
      using assms receive_controller(2) [OF assms(1,2) late(2,1), of insts]
      by (cases "i = n") (auto simp: ctl_phase_def Let_def next_token_def)
  next
    case over
    then show ?thesis using assms by (auto simp: ctl_phase_def Let_def next_token_def receive_none)
  qed
qed

lemma sending_token: "holds_token insts recv t i s \<Longrightarrow> rc_tx (bus_can s) = f # rest \<Longrightarrow> t = Sending i \<and> f = hop insts recv i \<and> rest = []"
  by (simp add: holds_token_def split: if_splits)

lemma ring_deliver:
  assumes addr: "chain_addresses recv n" and inv: "ring_inv insts recv n t ns" and i: "i < length ns"
    and tx: "rc_tx (bus_can (ns ! i)) = f # rest" and len: "length ns' = length ns"
    and sender: "ns' ! i = (ns ! i)\<lparr>bus_can := (bus_can (ns ! i))\<lparr>rc_tx := rest\<rparr>\<rparr>"
    and others: "\<And>j. j < length ns \<Longrightarrow> j \<noteq> i \<Longrightarrow> receive_frame f (ns ! j) = Returns () (ns' ! j)"
  shows "t = Sending i" and "ring_inv insts recv n (next_token n i) ns'"
proof -
  note l = ring_invD(1) [OF inv] and w = ring_invD(2) [OF inv] and h = ring_invD(4) [OF inv] and c = ring_invD(5) [OF inv]
  show t: "t = Sending i" using sending_token [OF h tx] i by simp
  have f: "f = hop insts recv i" and rest: "rest = []" using sending_token [OF h tx] i by auto
  have i': "i \<le> n" using i l by simp
  have worker: "ns' ! j = (if j = i then (ns ! i)\<lparr>bus_can := (bus_can (ns ! i))\<lparr>rc_tx := []\<rparr>\<rparr>
      else if j = Suc i then worker_can_rx_cb f (ns ! j) else ns ! j)" if "j \<in> {1..n}" for j
  proof (cases "j = i")
    case False
    then show ?thesis using others [of j] that l receive_worker [OF addr w [OF that] that i', of insts] f by auto
  qed (use sender rest in simp)
  have ctl: "ctl_phase insts recv n (next_token n i) (ns' ! 0) \<and> rc_tx (bus_can (ns' ! 0)) = [] \<and>
      (rx_work_pending (bus_worker (ns' ! 0)) \<longleftrightarrow> rx_work_pending (bus_worker (ns ! 0)))"
  proof (cases "i = 0")
    case True
    then have "i \<noteq> n" using addr by (cases n) (auto simp: chain_addresses_def)
    then show ?thesis
      using True sender rest c t h [of 0] ctl_phase_cong [of "ns' ! 0" "ns ! 0" "next_token n i" t insts recv n] by (simp add: next_token_def)
  next
    case False
    then have "receive_frame (hop insts recv i) (ns ! 0) = Returns () (ns' ! 0)" using others [of 0] l f by simp
    then show ?thesis using ctl_phase_receive [OF addr i', of insts "ns ! 0" "ns' ! 0"] c t h [of 0] l False by (simp add: holds_token_def)
  qed
  show "ring_inv insts recv n (next_token n i) ns'"
  proof (rule ring_invI)
    fix j assume j: "j \<in> {1..n}"
    show "worker_node recv j (ns' ! j)" using worker [OF j] w [OF j] by (auto simp: worker_node_def worker_can_rx_cb_def)
  next
    fix j assume j: "j \<le> n"
    show "holds_token insts recv (next_token n i) j (ns' ! j)"
    proof (cases "j = 0")
      case True
      then show ?thesis using ctl h [of 0] t l by (simp add: holds_token_def next_token_def)
    next
      case False
      then have "j \<in> {1..n}" using j by simp
      then show ?thesis
        using worker [of j] h [of j] t f i' j l by (auto simp: holds_token_def next_token_def worker_can_rx_cb_def)
    qed
  qed (use l len ctl i' in \<open>auto simp: token_ok_def next_token_def\<close>)
qed

lemma ring_update:
  assumes inv: "ring_inv insts recv n t ns" and i: "i \<le> n" and t': "token_ok n t'" and new: "holds_token insts recv t' i s"
    and only: "\<And>j. j \<noteq> i \<Longrightarrow> t \<notin> {Sending j, Signing j} \<and> t' \<notin> {Sending j, Signing j}"
    and c: "if i = 0 then ctl_phase insts recv n t' s else (t' = Nowhere) = (t = Nowhere) \<and> worker_node recv i s"
  shows "ring_inv insts recv n t' (ns[i := s])"
proof (rule ring_invI)
  note inv' = ring_invD [OF inv]
  show "worker_node recv j (ns[i := s] ! j)" if "j \<in> {1..n}" for j
    using that c inv'(1) inv'(2) [OF that] i by (cases "j = i") auto
  show "holds_token insts recv t' j (ns[i := s] ! j)" if "j \<le> n" for j
    using that new only [of j] inv'(1) inv'(4) [of j] i by (cases "j = i") (auto simp: holds_token_def)
  show "ctl_phase insts recv n t' (ns[i := s] ! 0)"
    using c inv'(1,5) ctl_phase_cong [of "ns ! 0" "ns ! 0" t' t insts recv n] by (cases "i = 0") auto
qed (use t' ring_invD(1) [OF inv] in auto)

lemma ring_sign:
  assumes "chain_addresses recv n" and inv: "ring_inv insts recv n t ns" and "i < length ns" and "rx_work_pending (bus_worker (ns ! i))"
    and "can_rx_cb_work_handler ring_ops (insts i) out (ns ! i) = Returns () s"
  shows "t = Signing i" and "ring_inv insts recv n (Sending i) (ns[i := s])"
proof -
  note inv' = ring_invD [OF inv]
  show t: "t = Signing i" using inv'(4) [OF assms(3)] assms(4) by (simp add: holds_token_def)
  have i: "i \<in> {1..n}" "i \<le> 7" using inv'(3) t assms(1) by (auto simp: token_ok_def chain_addresses_def)
  have s: "s = (ns ! i)\<lparr>bus_worker := (bus_worker (ns ! i))\<lparr>rx_work_pending := False\<rparr>,
      bus_can := (bus_can (ns ! i))\<lparr>rc_tx := rc_tx (bus_can (ns ! i)) @ [hop insts recv i]\<rparr>\<rparr>"
    using sign_hop [of "ns ! i" insts recv i out] assms(5) inv'(4) [OF assms(3)] inv'(2) [OF i(1)] i t
    by (simp add: holds_token_def worker_node_def)
  show "ring_inv insts recv n (Sending i) (ns[i := s])"
    using i inv'(2) [OF i(1)] inv'(4) [OF assms(3)]
    by (intro ring_update [OF inv]) (auto simp: t holds_token_def token_ok_def worker_node_def s)
qed

text \<open>The work item of the controller runs on node 0 only.\<close>

lemma controller_is_first:
  assumes "ring_inv insts recv n t ns" and "i < length ns" and "ctl_work (bus_controller (ns ! i)) \<noteq> Ctl_idle"
  shows "i = 0"
  using ring_invD(1) [OF assms(1)] ring_invD(2) [OF assms(1), of i] assms(2,3) by (cases i) (auto simp: worker_node_def)

lemma begin_hop:
  assumes "chain_addresses recv n" and "rc_filters (bus_can s) = []"
  shows "controller_routine_begin ring_ops s =
    upd_ctl (\<lambda>c. c\<lparr>ctl_running := True, ctl_work := Ctl_waiting (Inr 1) None\<rparr>)
      (s\<lparr>bus_can := (bus_can s)\<lparr>rc_filters := [(1, Cb_controller_routine_rx, 0)], rc_tx := rc_tx (bus_can s) @ [hop insts recv 0]\<rparr>\<rparr>)"
  using assms by (simp add: controller_routine_begin_def ring_ops_def chain_addresses_def hop_def signed_data_def Let_def
      CONTROLLER_CAN_SEND_ADDR_def CONTROLLER_CAN_RECEIVE_ADDR_def eval_nat_numeral)

lemma ring_begin:
  assumes "chain_addresses recv n" and inv: "ring_inv insts recv n t ns" and "ctl_work (bus_controller (ns ! 0)) = Ctl_submitted"
  shows "ring_inv insts recv n (Sending 0) (ns[0 := controller_routine_begin ring_ops (ns ! 0)])"
proof -
  have c: "rc_filters (bus_can (ns ! 0)) = []" "t = Nowhere" "length (routine_result (bus_controller (ns ! 0))) = 9"
      "\<not> controller_receive_sem (bus_controller (ns ! 0))"
    using ring_invD(5) [OF inv] assms(3) by (auto simp: ctl_phase_def Let_def)
  show ?thesis
    unfolding begin_hop [OF assms(1) c(1), of insts] using c ring_invD(4) [OF inv, of 0] ring_invD(1) [OF inv]
    by (intro ring_update [OF inv]) (auto simp: token_ok_def holds_token_def ctl_phase_def Let_def)
qed

lemma waited_end:
  assumes "ctl_work (bus_controller s) = Ctl_waited (Inr x) (Some (hop insts recv n)) False"
    and "rc_filters (bus_can s) = [(x, Cb_controller_routine_rx, 0)]" and "length (routine_result (bus_controller s)) = 9" and "n \<le> 7"
  shows "controller_routine_end ring_ops s = Some (Returns () (upd_ctl (\<lambda>c. c\<lparr>ctl_running := False,
      ctl_work := Ctl_idle, routine_result := 0 # take (Suc n) (signed_data insts n) @ drop (n + 2) (routine_result c)\<rparr>)
    (s\<lparr>bus_can := (bus_can s)\<lparr>rc_filters := []\<rparr>\<rparr>)))"
proof -
  have n: "unat (of_nat (Suc n) :: u8) = Suc n" using assms(4) by (simp add: unat_of_nat del: of_nat_Suc)
  have "frame_dlc (hop insts recv n) = of_nat (Suc n)" by (simp add: hop_def)
  then have "min (unat (frame_dlc (hop insts recv n))) 8 = Suc n" using n assms(4) by (simp del: of_nat_Suc)
  moreover have "frame_data (hop insts recv n) = signed_data insts n" by (simp add: hop_def)
  ultimately show ?thesis
    using assms signed_data_length [of n insts]
    by (simp add: controller_routine_end_def ring_ops_def Let_def del: of_nat_Suc)
qed

lemma timeout_end:
  assumes "ctl_work (bus_controller s) = Ctl_waited (Inr x) m True" and "rc_filters (bus_can s) = [(x, Cb_controller_routine_rx, 0)]"
  shows "controller_routine_end ring_ops s = Some (Returns () (upd_ctl (\<lambda>c. c\<lparr>ctl_running := False, ctl_work := Ctl_idle,
      routine_result := (routine_result c)[0 := 1]\<rparr>) (s\<lparr>bus_can := (bus_can s)\<lparr>rc_filters := []\<rparr>\<rparr>)))"
  using assms by (simp add: controller_routine_end_def ring_ops_def Let_def)

text \<open>A step of the work item leaves the frame where it is.\<close>

lemma ring_controller:
  assumes inv: "ring_inv insts recv n t ns" and "ctl_phase insts recv n t s" and "rc_tx (bus_can s) = rc_tx (bus_can (ns ! 0))"
    and "bus_worker s = bus_worker (ns ! 0)"
  shows "ring_inv insts recv n t (ns[0 := s])"
proof -
  have "holds_token insts recv t i ((ns[0 := s]) ! i)" if "i \<le> n" for i
    using ring_invD(1) [OF inv] ring_invD(4) [OF inv, of i] that assms(3,4) by (cases i) (auto simp: holds_token_def)
  then show ?thesis using ring_invD(1-3) [OF inv] assms(2) by (intro ring_invI) auto
qed

lemma ring_wake:
  assumes inv: "ring_inv insts recv n t ns" and wake: "controller_routine_wake (ns ! 0) = Some s"
  shows "ring_inv insts recv n t (ns[0 := s])" and "\<exists>r m. ctl_work (bus_controller s) = Ctl_waited r m False"
proof -
  obtain r m where c: "ctl_work (bus_controller (ns ! 0)) = Ctl_waiting r m" "controller_receive_sem (bus_controller (ns ! 0))"
    and s: "s = upd_ctl (\<lambda>c. c\<lparr>controller_receive_sem := False, ctl_work := Ctl_waited r m False\<rparr>) (ns ! 0)"
    using wake by (auto simp: controller_routine_wake_def split: ctl_pc.splits if_splits)
  then show "\<exists>r m. ctl_work (bus_controller s) = Ctl_waited r m False" by simp
  have "ctl_phase insts recv n t s" using ring_invD(5) [OF inv] c by (auto simp: ctl_phase_def Let_def s)
  then show "ring_inv insts recv n t (ns[0 := s])" by (rule ring_controller [OF inv]) (simp_all add: s)
qed

lemma ring_timeout:
  assumes inv: "ring_inv insts recv n t ns" and timeout: "controller_routine_timeout (ns ! 0) = Some s"
  shows "ring_inv insts recv n t (ns[0 := s])" and "\<exists>r m. ctl_work (bus_controller s) = Ctl_waited r m True"
proof -
  obtain r m where c: "ctl_work (bus_controller (ns ! 0)) = Ctl_waiting r m"
    and s: "s = upd_ctl (\<lambda>c. c\<lparr>ctl_work := Ctl_waited r m True\<rparr>) (ns ! 0)"
    using timeout by (auto simp: controller_routine_timeout_def split: ctl_pc.splits if_splits)
  then show "\<exists>r m. ctl_work (bus_controller s) = Ctl_waited r m True" by simp
  have "ctl_phase insts recv n t s" using ring_invD(5) [OF inv] c by (auto simp: ctl_phase_def Let_def s)
  then show "ring_inv insts recv n t (ns[0 := s])" by (rule ring_controller [OF inv]) (simp_all add: s)
qed

lemma ctl_phase_waited:
  assumes "ctl_phase insts recv n t s" and "ctl_work (bus_controller s) = Ctl_waited r m b"
  obtains x where "r = Inr x" and "rc_filters (bus_can s) = [(x, Cb_controller_routine_rx, 0)]"
    and "length (routine_result (bus_controller s)) = 9" and "b \<or> m = Some (hop insts recv n) \<and> t = Nowhere"
  using assms by (auto simp: ctl_phase_def Let_def)

lemma ring_end:
  assumes "n \<le> 7" and inv: "ring_inv insts recv n t ns" and c: "ctl_work (bus_controller (ns ! 0)) = Ctl_waited r m b"
  obtains s where "controller_routine_end ring_ops (ns ! 0) = Some (Returns () s)" and "ring_inv insts recv n t (ns[0 := s])"
    and "ctl_work (bus_controller s) = Ctl_idle"
    and "\<not> b \<Longrightarrow> take (n + 2) (routine_result (bus_controller s)) = 0 # take (Suc n) (signed_data insts n)"
proof -
  obtain x where x: "r = Inr x" "rc_filters (bus_can (ns ! 0)) = [(x, Cb_controller_routine_rx, 0)]"
      "length (routine_result (bus_controller (ns ! 0))) = 9" "b \<or> m = Some (hop insts recv n) \<and> t = Nowhere"
    by (rule ctl_phase_waited [OF ring_invD(5) [OF inv] c])
  show thesis
  proof (cases b)
    case True
    let ?s = "upd_ctl (\<lambda>c. c\<lparr>ctl_running := False, ctl_work := Ctl_idle, routine_result := (routine_result c)[0 := 1]\<rparr>)
      ((ns ! 0)\<lparr>bus_can := (bus_can (ns ! 0))\<lparr>rc_filters := []\<rparr>\<rparr>)"
    have "hd ((routine_result (bus_controller (ns ! 0)))[0 := 1]) = 1" using x(3) by (cases "routine_result (bus_controller (ns ! 0))") auto
    then have "ctl_phase insts recv n t ?s" using x by (simp add: ctl_phase_def Let_def)
    then have "ring_inv insts recv n t (ns[0 := ?s])" by (rule ring_controller [OF inv]) simp_all
    then show thesis using that [of ?s] timeout_end [of "ns ! 0" x m] True c x by simp
  next
    case False
    let ?s = "upd_ctl (\<lambda>c. c\<lparr>ctl_running := False, ctl_work := Ctl_idle,
      routine_result := 0 # take (Suc n) (signed_data insts n) @ drop (n + 2) (routine_result c)\<rparr>)
      ((ns ! 0)\<lparr>bus_can := (bus_can (ns ! 0))\<lparr>rc_filters := []\<rparr>\<rparr>)"
    have res: "take (n + 2) (routine_result (bus_controller ?s)) = 0 # take (Suc n) (signed_data insts n)"
      using signed_data_length [OF assms(1), of insts] assms(1) by simp
    then have "ctl_phase insts recv n t ?s"
      using x False signed_data_length [OF assms(1), of insts] assms(1) by (simp add: ctl_phase_def Let_def)
    then have "ring_inv insts recv n t (ns[0 := ?s])" by (rule ring_controller [OF inv]) simp_all
    then show thesis using that [of ?s] waited_end [of "ns ! 0" x insts recv n] False c x assms(1) res by simp
  qed
qed

section \<open>Every run ends\<close>

definition hops_left :: "nat \<Rightarrow> token \<Rightarrow> nat" where
  "hops_left n t = (case t of Nowhere \<Rightarrow> 0 | Sending j \<Rightarrow> 2 * (n - j) + 1 | Signing j \<Rightarrow> 2 * (n - j) + 2)"

definition ctl_left :: "nat \<Rightarrow> 'c bus_state \<Rightarrow> nat" where
  "ctl_left n s = (case ctl_work (bus_controller s) of Ctl_submitted \<Rightarrow> 2 * n + 5 | Ctl_waiting _ _ \<Rightarrow> 2 | Ctl_waited _ _ _ \<Rightarrow> 1 | Ctl_idle \<Rightarrow> 0)"

definition steps_left :: "nat \<Rightarrow> token \<Rightarrow> 'c bus_state list \<Rightarrow> nat" where
  "steps_left n t ns = hops_left n t + ctl_left n (ns ! 0)"

definition failed :: "'c bus_state \<Rightarrow> bool" where
  "failed s \<longleftrightarrow> ctl_work (bus_controller s) = Ctl_idle \<and> hd (routine_result (bus_controller s)) = 1 \<or>
     (\<exists>r m. ctl_work (bus_controller s) = Ctl_waited r m True)"

text \<open>Receiving a frame does not move the work item of the controller.\<close>

lemma rx_callbacks_ctl:
  "rx_callbacks f fs s = Returns () s' \<Longrightarrow> ctl_left n s' = ctl_left n s \<and> failed s' = failed s"
proof (induction f fs s arbitrary: s' rule: rx_callbacks.induct)
  case (2 f i cb a fs s)
  then show ?case
    by (fastforce simp: worker_can_rx_cb_def controller_routine_rx_def ctl_left_def failed_def
        split: if_splits bus_cb.splits ctl_pc.splits outcome.splits)
qed simp

lemma receive_frame_ctl: "receive_frame f s = Returns () s' \<Longrightarrow> ctl_left n s' = ctl_left n s \<and> failed s' = failed s"
  unfolding receive_frame_def by (rule rx_callbacks_ctl)

lemma next_token_left: "i \<le> n \<Longrightarrow> hops_left n (next_token n i) < hops_left n (Sending i)"
  by (auto simp: hops_left_def next_token_def)

lemma deliver_ctl:
  assumes "i < length ns" and "ns' ! i = (ns ! i)\<lparr>bus_can := c\<rparr>"
    and "\<And>j. j < length ns \<Longrightarrow> j \<noteq> i \<Longrightarrow> receive_frame f (ns ! j) = Returns () (ns' ! j)"
  shows "ctl_left n (ns' ! 0) = ctl_left n (ns ! 0) \<and> failed (ns' ! 0) = failed (ns ! 0)"
proof (cases "i = 0")
  case True
  then show ?thesis using assms(2) by (simp add: ctl_left_def failed_def)
next
  case False
  moreover have "0 < length ns" using assms(1) by (rule le_less_trans [OF le0])
  ultimately show ?thesis using receive_frame_ctl [OF assms(3) [of 0], of n] by simp
qed

lemma ring_step:
  assumes "net_step insts out ns ns'" and addr: "chain_addresses recv n" and inv: "ring_inv insts recv n t ns"
  shows "\<exists>t'. ring_inv insts recv n t' ns' \<and> steps_left n t' ns' < steps_left n t ns"
  using assms(1)
proof cases
  case (net_deliver i f rest)
  note d = ring_deliver [OF addr inv net_deliver]
  have "i \<le> n" using net_deliver(1) ring_invD(1) [OF inv] by simp
  then show ?thesis
    using d next_token_left [of i n] deliver_ctl [OF net_deliver(1,4,5), of n]
    by (intro exI [of _ "next_token n i"]) (auto simp: steps_left_def)
next
  case (net_sign i s)
  note d = ring_sign [OF addr inv net_sign(2-4)]
  then have "i \<noteq> 0" using ring_invD(3) [OF inv] by (auto simp: token_ok_def)
  then show ?thesis using d net_sign(1) by (intro exI [of _ "Sending i"]) (auto simp: steps_left_def hops_left_def)
next
  case (net_begin i)
  have i: "i = 0" using controller_is_first [OF inv net_begin(2)] net_begin(3) by simp
  note d = ring_begin [OF addr inv]
  have c: "ctl_work (bus_controller (ns ! 0)) = Ctl_submitted" using net_begin(3) i by simp
  then have "rc_filters (bus_can (ns ! 0)) = []" using ring_invD(5) [OF inv] by (auto simp: ctl_phase_def Let_def)
  then have "ctl_left n (controller_routine_begin ring_ops (ns ! 0)) = 2"
    using begin_hop [OF addr, of "ns ! 0" insts] by (simp add: ctl_left_def)
  then show ?thesis
    using d [OF c] c net_begin(1,2) i by (intro exI [of _ "Sending 0"]) (auto simp: steps_left_def hops_left_def ctl_left_def)
next
  case (net_wake i s)
  then have i: "i = 0"
    using controller_is_first [OF inv net_wake(2)] by (auto simp: controller_routine_wake_def split: ctl_pc.splits)
  have "ctl_left n (ns ! 0) = 2"
    using net_wake(3) i by (auto simp: controller_routine_wake_def ctl_left_def split: ctl_pc.splits)
  then show ?thesis
    using net_wake i ring_wake [OF inv, of s] by (intro exI [of _ t]) (auto simp: steps_left_def ctl_left_def)
next
  case (net_timeout i s)
  then have i: "i = 0"
    using controller_is_first [OF inv net_timeout(2)] by (auto simp: controller_routine_timeout_def split: ctl_pc.splits)
  have "ctl_left n (ns ! 0) = 2"
    using net_timeout(3) i by (auto simp: controller_routine_timeout_def ctl_left_def split: ctl_pc.splits)
  then show ?thesis
    using net_timeout i ring_timeout [OF inv, of s] by (intro exI [of _ t]) (auto simp: steps_left_def ctl_left_def)
next
  case (net_end i s)
  then obtain r m b where c: "ctl_work (bus_controller (ns ! i)) = Ctl_waited r m b"
    by (auto simp: controller_routine_end_def split: ctl_pc.splits)
  then have i: "i = 0" using controller_is_first [OF inv net_end(2)] by simp
  have "n \<le> 7" using addr by (simp add: chain_addresses_def)
  then show ?thesis
    by (rule ring_end [OF _ inv c [unfolded i]]) (use net_end c i in \<open>auto intro!: exI [of _ t] simp: steps_left_def ctl_left_def\<close>)
qed

section \<open>Every run goes on until the controller is idle\<close>

lemma ring_receives:
  assumes addr: "chain_addresses recv n" and inv: "ring_inv insts recv n (Sending i) ns" and j: "j < length ns"
  shows "\<exists>s. receive_frame (hop insts recv i) (ns ! j) = Returns () s"
proof -
  have i: "i \<le> n" using ring_invD(3) [OF inv] by (simp add: token_ok_def)
  show ?thesis
  proof (cases "j = 0")
    case False
    then have "j \<in> {1..n}" using j ring_invD(1) [OF inv] by simp
    then show ?thesis using receive_worker [OF addr ring_invD(2) [OF inv] _ i] by blast
  next
    case True
    from ring_invD(5) [OF inv] consider
        x where "ctl_work (bus_controller (ns ! 0)) = Ctl_waiting (Inr x) None" "rc_filters (bus_can (ns ! 0)) = [(x, Cb_controller_routine_rx, 0)]"
      | x m where "ctl_work (bus_controller (ns ! 0)) = Ctl_waited (Inr x) m True" "rc_filters (bus_can (ns ! 0)) = [(x, Cb_controller_routine_rx, 0)]"
      | "rc_filters (bus_can (ns ! 0)) = []"
      by (auto simp: ctl_phase_def Let_def)
    then show ?thesis unfolding True by cases (use receive_controller [OF addr i] receive_none in metis)+
  qed
qed

lemma ring_delivers:
  assumes addr: "chain_addresses recv n" and inv: "ring_inv insts recv n (Sending i) ns"
  shows "\<exists>ns'. net_step insts out ns ns' \<and> failed (ns' ! 0) = failed (ns ! 0)"
proof -
  define f where "f = hop insts recv i"
  have i: "i < length ns" using ring_invD(1,3) [OF inv] by (simp add: token_ok_def)
  have tx: "rc_tx (bus_can (ns ! i)) = f # []" using ring_invD(4) [OF inv i] by (simp add: holds_token_def f_def)
  obtain g where g: "\<And>j. j < length ns \<Longrightarrow> receive_frame f (ns ! j) = Returns () (g j)"
    using ring_receives [OF addr inv] unfolding f_def by metis
  define ns' where "ns' = map (\<lambda>j. if j = i then (ns ! i)\<lparr>bus_can := (bus_can (ns ! i))\<lparr>rc_tx := []\<rparr>\<rparr> else g j) [0..<length ns]"
  have sender: "ns' ! i = (ns ! i)\<lparr>bus_can := (bus_can (ns ! i))\<lparr>rc_tx := []\<rparr>\<rparr>" using i by (simp add: ns'_def)
  have others: "receive_frame f (ns ! j) = Returns () (ns' ! j)" if "j < length ns" "j \<noteq> i" for j
    using that g by (simp add: ns'_def)
  have "length ns' = length ns" by (simp add: ns'_def)
  then show ?thesis
    using net_step.net_deliver [OF i tx _ sender others] deliver_ctl [OF i sender others, of n] by blast
qed

lemma ring_signs:
  assumes addr: "chain_addresses recv n" and inv: "ring_inv insts recv n (Signing i) ns"
  shows "\<exists>ns'. net_step insts out ns ns' \<and> failed (ns' ! 0) = failed (ns ! 0)"
proof -
  have i: "i \<in> {1..n}" "i < length ns" "i \<le> 7" using ring_invD(1,3) [OF inv] addr by (auto simp: token_ok_def chain_addresses_def)
  obtain s where "can_rx_cb_work_handler ring_ops (insts i) out (ns ! i) = Returns () s"
    using sign_hop [of "ns ! i" insts recv i out] ring_invD(4) [OF inv i(2)] ring_invD(2) [OF inv i(1)] i
    by (auto simp: holds_token_def worker_node_def)
  moreover have "rx_work_pending (bus_worker (ns ! i))" using ring_invD(4) [OF inv i(2)] by (simp add: holds_token_def)
  ultimately have "net_step insts out ns (ns[i := s])" by (intro net_step.net_sign i(2))
  then show ?thesis using i by force
qed

lemma ring_progress:
  assumes addr: "chain_addresses recv n" and inv: "ring_inv insts recv n t ns"
    and busy: "t \<noteq> Nowhere \<or> ctl_work (bus_controller (ns ! 0)) \<noteq> Ctl_idle"
  shows "\<exists>ns'. net_step insts out ns ns' \<and> (failed (ns' ! 0) \<longrightarrow> failed (ns ! 0))"
proof (cases t)
  case (Sending i)
  then show ?thesis using ring_delivers [OF addr] inv by blast
next
  case (Signing i)
  then show ?thesis using ring_signs [OF addr] inv by blast
next
  case Nowhere
  have l: "0 < length ns" using ring_invD(1) [OF inv] by simp
  from ring_invD(5) [OF inv] busy Nowhere consider
      (start) "ctl_work (bus_controller (ns ! 0)) = Ctl_submitted" "rc_filters (bus_can (ns ! 0)) = []"
    | (woken) x where "ctl_work (bus_controller (ns ! 0)) = Ctl_waiting (Inr x) (Some (hop insts recv n))"
        "controller_receive_sem (bus_controller (ns ! 0))"
    | (waited) r m b where "ctl_work (bus_controller (ns ! 0)) = Ctl_waited r m b"
    by (auto simp: ctl_phase_def Let_def)
  then show ?thesis
  proof cases
    case start
    then show ?thesis
      using net_step.net_begin [OF l start(1), of insts out] begin_hop [OF addr start(2), of insts] l by (force simp: failed_def)
  next
    case woken
    then obtain s where s: "controller_routine_wake (ns ! 0) = Some s" by (simp add: controller_routine_wake_def)
    then show ?thesis
      using net_step.net_wake [OF l s, of insts out] ring_wake(2) [OF inv s] l by (force simp: failed_def)
  next
    case waited
    have n: "n \<le> 7" using addr by (simp add: chain_addresses_def)
    obtain s where s: "controller_routine_end ring_ops (ns ! 0) = Some (Returns () s)" and idle: "ctl_work (bus_controller s) = Ctl_idle"
      and res: "\<not> b \<Longrightarrow> take (n + 2) (routine_result (bus_controller s)) = 0 # take (Suc n) (signed_data insts n)"
      using ring_end [OF n inv waited] by metis
    have "failed s \<longrightarrow> failed (ns ! 0)"
      using idle res waited by (cases "routine_result (bus_controller s)"; cases b) (auto simp: failed_def)
    then show ?thesis using net_step.net_end [OF l s, of insts out] l by force
  qed
qed

section \<open>The configured chain\<close>

text \<open>Boards after the requests of the client: both addresses of each link are written, and the routine is started.\<close>

definition le_bytes :: "u16 \<Rightarrow> u8 list" where
  "le_bytes a = [lo_byte a, hi_byte a]"

definition configured :: "(nat \<Rightarrow> u16) \<Rightarrow> nat \<Rightarrow> ring_can bus_state" where
  "configured recv i = snd (set_send_addr (le_bytes (recv (Suc i)))
     (snd (set_receive_addr ring_ops (le_bytes (recv i)) (bus_init \<lparr>rc_filters = [], rc_tx = []\<rparr>))))"

definition started_chain :: "(nat \<Rightarrow> u16) \<Rightarrow> nat \<Rightarrow> ring_can bus_state list" where
  "started_chain recv n =
     snd (start_controller_routine ring_ops (bus_init \<lparr>rc_filters = [], rc_tx = []\<rparr>)) # map (configured recv) [1..<Suc n]"

lemma configured_node: "worker_node recv i (configured recv i) \<and> silent (configured recv i)"
  by (simp add: configured_def set_send_addr_def set_receive_addr_def le_bytes_def bus_init_def ring_ops_def worker_node_def
      silent_def Let_def)

lemma chain_is_started: "chain_started recv n (started_chain recv n)"
proof -
  have "started_chain recv n ! i = configured recv i" if "i \<in> {1..n}" for i
    using that by (cases i) (auto simp: started_chain_def nth_append simp del: upt_Suc)
  then have "worker_node recv i (started_chain recv n ! i) \<and> silent (started_chain recv n ! i)" if "i \<in> {1..n}" for i
    using that configured_node by simp
  moreover have "silent (started_chain recv n ! 0)"
    by (simp add: started_chain_def start_controller_routine_def bus_init_def ring_ops_def silent_def Let_def)
  ultimately have "silent (started_chain recv n ! i)" if "i \<le> n" for i
    using that by (cases "i = 0") (auto simp: Suc_le_eq)
  then show ?thesis
    using \<open>\<And>i. i \<in> {1..n} \<Longrightarrow> worker_node recv i (started_chain recv n ! i) \<and> silent (started_chain recv n ! i)\<close>
    by (simp add: chain_started_def started_chain_def start_controller_routine_def bus_init_def ring_ops_def Let_def eval_nat_numeral
        del: upt_Suc)
qed

definition all_signed :: "(nat \<Rightarrow> ('u, 's) uds_instance) \<Rightarrow> nat \<Rightarrow> ring_can bus_state \<Rightarrow> bool" where
  "all_signed insts n s \<longleftrightarrow>
     take (n + 2) (routine_result (bus_controller s)) = controller_routine_status_val CONTROLLER_ROUTINE_STATUS__SUCCESS # 0xDE #
       map (\<lambda>i. signature (insts i)) [1..<Suc n]"

definition reports_error :: "ring_can bus_state \<Rightarrow> bool" where
  "reports_error s \<longleftrightarrow> hd (routine_result (bus_controller s)) = controller_routine_status_val CONTROLLER_ROUTINE_STATUS__ERROR"

lemma idle_result:
  assumes "ring_inv insts recv n t ns" and "ctl_work (bus_controller (ns ! 0)) = Ctl_idle"
  shows "all_signed insts n (ns ! 0) \<or> reports_error (ns ! 0)"
  using ring_invD(5) [OF assms(1)] assms(2)
  by (auto simp: ctl_phase_def Let_def all_signed_def reports_error_def signed_data_def simp del: upt_Suc)

lemma ring_run:
  assumes "net_run insts out ns ns'" and "chain_addresses recv n" and "ring_inv insts recv n t ns"
  shows "\<exists>t'. ring_inv insts recv n t' ns'"
  using assms(1,3) by (induction arbitrary: t rule: converse_rtranclp_induct) (blast dest: ring_step [OF _ assms(2)])+

lemma ring_run_bound:
  assumes "(net_step insts out ^^ k) ns ns'" and "chain_addresses recv n" and "ring_inv insts recv n t ns"
  shows "k \<le> steps_left n t ns"
  using assms(1,3)
proof (induction k arbitrary: ns t)
  case (Suc k)
  obtain ns1 where s: "net_step insts out ns ns1" "(net_step insts out ^^ k) ns1 ns'" using relpowp_Suc_D2 [OF Suc.prems(1)] by blast
  obtain t1 where "ring_inv insts recv n t1 ns1" "steps_left n t1 ns1 < steps_left n t ns"
    using ring_step [OF s(1) assms(2) Suc.prems(2)] by blast
  then show ?case using Suc.IH [OF s(2)] by force
qed simp

lemma ring_succeeds:
  assumes "chain_addresses recv n" and "ring_inv insts recv n t ns" and "\<not> failed (ns ! 0)"
  shows "\<exists>ns'. net_run insts out ns ns' \<and> ctl_work (bus_controller (ns' ! 0)) = Ctl_idle \<and> all_signed insts n (ns' ! 0)"
  using assms(2,3)
proof (induction "steps_left n t ns" arbitrary: t ns rule: less_induct)
  case less
  show ?case
  proof (cases "ctl_work (bus_controller (ns ! 0)) = Ctl_idle")
    case True
    then show ?thesis using idle_result [OF less.prems(1)] less.prems(2) by (auto simp: failed_def reports_error_def)
  next
    case False
    then obtain ns1 where s: "net_step insts out ns ns1" "\<not> failed (ns1 ! 0)"
      using ring_progress [OF assms(1) less.prems(1)] less.prems(2) by blast
    obtain t1 where "ring_inv insts recv n t1 ns1" "steps_left n t1 ns1 < steps_left n t ns"
      using ring_step [OF s(1) assms(1) less.prems(1)] by blast
    then show ?thesis using less.hyps s by (blast intro: converse_rtranclp_into_rtranclp)
  qed
qed

text \<open>
  (C31) The bus sample, from the configuration of the addresses over the interrupts and work items of all boards to the
  result that the client reads: in every interleaving the controller ends with the signatures of all links in their
  order, or with the error of its timeout, and there is a run that ends with the signatures. The bus takes every frame and
  every filter and delivers each frame to all other boards, at any later time; there are at most seven links.
\<close>

theorem chain_collects_signatures:
  assumes "chain_addresses recv n"
  shows "(net_run insts out (started_chain recv n) ns \<and> ctl_work (bus_controller (ns ! 0)) = Ctl_idle \<longrightarrow>
      all_signed insts n (ns ! 0) \<or> reports_error (ns ! 0)) \<and>
    (\<exists>ns'. net_run insts out (started_chain recv n) ns' \<and> ctl_work (bus_controller (ns' ! 0)) = Ctl_idle \<and> all_signed insts n (ns' ! 0))"
proof -
  note start = ring_inv_start [OF chain_is_started, where insts = insts]
  have "\<not> failed (started_chain recv n ! 0)"
    by (simp add: started_chain_def start_controller_routine_def bus_init_def ring_ops_def Let_def failed_def)
  then show ?thesis
    using ring_succeeds [OF assms start] ring_run [OF _ assms start] idle_result by metis
qed

lemma idle_startable:
  assumes "ring_inv insts recv n t ns" and "ctl_work (bus_controller (ns ! 0)) = Ctl_idle"
  shows "fst (start_controller_routine ring_ops (ns ! 0)) = UDS_PositiveResponse \<and>
    ctl_work (bus_controller (snd (start_controller_routine ring_ops (ns ! 0)))) = Ctl_submitted"
  using ring_invD(5) [OF assms(1)] assms(2) by (auto simp: ctl_phase_def start_controller_routine_def ring_ops_def Let_def)

text \<open>
  (C37) The exchange of the bus sample ends, whatever the boards do first, and can be repeated: on a bus that takes every frame and delivers
  it at some time, a run has at most \<open>2 n + 5\<close> steps; where none is left the work item of the controller has ended; and whenever
  it has ended, a request to start the routine is answered positively and submits the work item again.
\<close>

theorem chain_ends:
  assumes "chain_addresses recv n"
  shows "((net_step insts out ^^ k) (started_chain recv n) ns \<longrightarrow> k \<le> 2 * n + 5) \<and>
    (net_run insts out (started_chain recv n) ns \<and> (\<nexists>ns'. net_step insts out ns ns') \<longrightarrow> ctl_work (bus_controller (ns ! 0)) = Ctl_idle) \<and>
    (net_run insts out (started_chain recv n) ns \<and> ctl_work (bus_controller (ns ! 0)) = Ctl_idle \<longrightarrow>
      fst (start_controller_routine ring_ops (ns ! 0)) = UDS_PositiveResponse \<and>
      ctl_work (bus_controller (snd (start_controller_routine ring_ops (ns ! 0)))) = Ctl_submitted)"
proof -
  note start = ring_inv_start [OF chain_is_started, where insts = insts]
  have "steps_left n Nowhere (started_chain recv n) = 2 * n + 5"
    by (simp add: steps_left_def hops_left_def ctl_left_def started_chain_def start_controller_routine_def bus_init_def ring_ops_def Let_def)
  then show ?thesis
    using ring_run_bound [OF _ assms start] ring_run [OF _ assms start] ring_progress [OF assms] idle_startable by metis
qed

definition demo_recv :: "nat \<Rightarrow> u16" where
  "demo_recv i = (if i = 3 then 0 else of_nat i)"

definition demo_link :: "nat \<Rightarrow> (unit, (rx_queue \<times> u8 list) list) uds_instance" where
  "demo_link i = demo_initialised\<lparr>ui_iso14229 := (ui_iso14229 demo_initialised)\<lparr>iso_tp :=
     uds_default_instance_get_addresses (0x7E0 + of_nat i) 0x7E8 0x7DF 0xFFFFFFFF\<rparr>\<rparr>"

lemma demo_chain: "chain_addresses demo_recv 2"
proof -
  have "{1..Suc 2} = {1, 2, 3 :: nat}" by auto
  then show ?thesis by (simp add: chain_addresses_def demo_recv_def)
qed

theorem chain_collects_signatures_witness:
  "\<exists>ns'. net_run demo_link demo_isotp (started_chain demo_recv 2) ns' \<and> ctl_work (bus_controller (ns' ! 0)) = Ctl_idle \<and>
     take 4 (routine_result (bus_controller (ns' ! 0))) = [0, 0xDE, 0x3F, 0x3C]"
proof -
  have s: "map (\<lambda>i. signature (demo_link i)) [1..<Suc 2] = [0x3F, 0x3C]"
    by (simp add: signature_def demo_link_def uds_default_instance_get_addresses_def numeral_2_eq_2 [symmetric] upt_rec)
  show ?thesis
    using chain_collects_signatures [OF demo_chain, of demo_link demo_isotp] unfolding all_signed_def s by auto
qed

theorem chain_ends_witness:
  "(\<nexists>ns. (net_step demo_link demo_isotp ^^ 10) (started_chain demo_recv 2) ns) \<and>
   (\<exists>ns. net_run demo_link demo_isotp (started_chain demo_recv 2) ns \<and>
     fst (start_controller_routine ring_ops (ns ! 0)) = UDS_PositiveResponse)"
proof -
  note start = ring_inv_start [OF chain_is_started, where insts = demo_link and recv = demo_recv and n = 2]
  have "\<not> failed (started_chain demo_recv 2 ! 0)"
    by (simp add: started_chain_def start_controller_routine_def bus_init_def ring_ops_def Let_def failed_def)
  then obtain ns where "net_run demo_link demo_isotp (started_chain demo_recv 2) ns" "ctl_work (bus_controller (ns ! 0)) = Ctl_idle"
    using ring_succeeds [OF demo_chain start] by blast
  then show ?thesis
    using chain_ends [OF demo_chain, where insts = demo_link and out = demo_isotp and k = 10]
      chain_ends [OF demo_chain, where insts = demo_link and out = demo_isotp and ns = ns] by auto
qed

section \<open>Outside the chain\<close>

text \<open>The addresses that the client writes are the ones that it reads.\<close>

lemma address_round_trip:
  assumes "ctx_arg ctx = Arg_WDBI did bytes" and "did = 0x1100 \<or> did = 0x1101"
    and "w_data_by_id_action ops ctx b w = Returns (UDS_PositiveResponse, b', a) w'" and "ctx_arg ctx' = Arg_RDBI did c"
  shows "r_data_by_id_action copy ctx' b'' w' = obind (copy c bytes w') (\<lambda>_ w''. Returns (UDS_PositiveResponse, True, Arg_RDBI did c) w'')"
  using assms
  by (auto simp: w_data_by_id_action_def r_data_by_id_action_def set_receive_addr_def set_send_addr_def Let_def upd_bus_def put_env_def
      split: list.splits prod.splits if_splits)

text \<open>A frame that is full is passed on with the identifier it was received with, not to the next link.\<close>

lemma full_frame_keeps_identifier:
  assumes "frame_dlc (received_can_frame (bus_worker s)) = 8"
  shows "can_rx_cb_work_handler ring_ops inst out s = Returns () (s\<lparr>bus_worker := (bus_worker s)\<lparr>rx_work_pending := False\<rparr>,
    bus_can := (bus_can s)\<lparr>rc_tx := rc_tx (bus_can s) @ [received_can_frame (bus_worker s)]\<rparr>\<rparr>)"
  using assms by (simp add: can_rx_cb_work_handler_def ring_ops_def CAN_MAX_DLC_def Let_def)

text \<open>
  A response between the timeout and the removal of the filter leaves the semaphore given. The next routine then does not
  wait for a response, and copies from a frame that was never written.
\<close>

theorem late_response_breaks_next_routine:
  assumes "ctl_work (bus_controller s) = Ctl_waited (Inr x) m True" and "rc_filters (bus_can s) = [(x, Cb_controller_routine_rx, 0)]"
    and "frame_id f = 0"
  shows "\<exists>s1 s2 s3. receive_frame f s = Returns () s1 \<and> controller_routine_end ring_ops s1 = Some (Returns () s2) \<and>
    fst (start_controller_routine ring_ops s2) = UDS_PositiveResponse \<and>
    controller_routine_wake (controller_routine_begin ring_ops (snd (start_controller_routine ring_ops s2))) = Some s3 \<and>
    controller_routine_end ring_ops s3 = Some Undefined"
  using assms
  by (simp add: receive_frame_def filter_matches_def controller_routine_rx_def controller_routine_end_def start_controller_routine_def
      controller_routine_begin_def controller_routine_wake_def ring_ops_def Let_def)

definition late_controller :: "ring_can bus_state" where
  "late_controller = upd_ctl (\<lambda>c. c\<lparr>ctl_running := True, ctl_work := Ctl_waited (Inr 1) None True\<rparr>)
     (bus_init \<lparr>rc_filters = [(1, Cb_controller_routine_rx, 0)], rc_tx = []\<rparr>)"

theorem late_response_breaks_next_routine_witness:
  "\<exists>s1. receive_frame \<lparr>frame_id = 0, frame_dlc = 1, frame_data = [0xde, 0, 0, 0, 0, 0, 0, 0]\<rparr> late_controller = Returns () s1"
  using late_response_breaks_next_routine [of late_controller 1 None "\<lparr>frame_id = 0, frame_dlc = 1, frame_data = [0xde, 0, 0, 0, 0, 0, 0, 0]\<rparr>"]
  by (auto simp: late_controller_def bus_init_def)

text \<open>When the first frame cannot be sent, the filter of the controller stays, and the next frame to it is written to a stack that is gone.\<close>

lemma failed_send_leaves_filter:
  assumes "rc_filters (bus_can s) = []" and "filter_matches f CONTROLLER_CAN_RECEIVE_ADDR"
  shows "receive_frame f (controller_routine_begin (ring_ops\<lparr>bus_can_send := (\<lambda>_ c. (Inl EIO, c))\<rparr>) s) = Undefined"
  using assms by (simp add: receive_frame_def controller_routine_begin_def ring_ops_def controller_routine_rx_def Let_def)

end
