(* ===== verification/Gpio_Expander.thy ===== *)
theory Gpio_Expander
  imports Iso14229
begin

text \<open>
  The GPIO expander (\<^verbatim>\<open>samples/gpio_expander/src/main.c\<close>): a client configures and writes the pins of a board with two
  CAN frames, and the board sends their levels ten times a second. \<open>'g\<close> is the state of the GPIO and CAN drivers;
  \<open>n\<close> is the number of pins in the device tree, \<^verbatim>\<open>ARRAY_SIZE(gpios)\<close>.
\<close>

section \<open>State and drivers\<close>

datatype ex_cb = Cb_receive_config | Cb_receive_write

record 'g expander_ops =
  ex_pin_configure :: "nat \<Rightarrow> bool \<Rightarrow> 'g \<Rightarrow> c_int \<times> 'g"
  ex_pin_set :: "nat \<Rightarrow> nat \<Rightarrow> 'g \<Rightarrow> c_int \<times> 'g"
  ex_pin_get :: "nat \<Rightarrow> 'g \<Rightarrow> c_int \<times> 'g"
  ex_device_is_ready :: "'g \<Rightarrow> bool"
  ex_can_start :: "'g \<Rightarrow> c_int \<times> 'g"
  ex_can_add_rx_filter :: "ex_cb \<Rightarrow> u32 \<Rightarrow> 'g \<Rightarrow> c_int \<times> 'g"
  ex_can_send :: "can_frame \<Rightarrow> 'g \<Rightarrow> c_int \<times> 'g"

text \<open>The second argument of \<open>ex_pin_configure\<close> tells \<^verbatim>\<open>GPIO_OUTPUT\<close> from \<^verbatim>\<open>GPIO_INPUT\<close>.\<close>

record 'g expander_state =
  config_frame_data :: "u8 list"
  write_frame_data :: "u8 list"
  configure_gpios_work :: bool
  write_gpios_work :: bool
  ex_drivers :: 'g

definition expander_init :: "'g \<Rightarrow> 'g expander_state" where
  "expander_init g = \<lparr>config_frame_data = replicate 8 0, write_frame_data = replicate 8 0, configure_gpios_work = False,
     write_gpios_work = False, ex_drivers = g\<rparr>"

definition GPIO_CONFIG_FRAME_ID :: u32 where "GPIO_CONFIG_FRAME_ID = 1"
definition GPIO_WRITE_FRAME_ID :: u32 where "GPIO_WRITE_FRAME_ID = 2"
definition GPIO_STATE_FRAME_ID :: u32 where "GPIO_STATE_FRAME_ID = 3"

section \<open>Operations\<close>

text \<open>The bit of a pin in the eight bytes of a frame; there is none for a pin from 64 on.\<close>

definition frame_pin :: "u8 list \<Rightarrow> nat \<Rightarrow> nat option" where
  "frame_pin d pin = (if pin div 8 < length d then Some (unat (drop_bit (pin mod 8) (d ! (pin div 8)) AND 0x01)) else None)"

definition is_gpio_output :: "'g expander_state \<Rightarrow> nat \<Rightarrow> bool option" where
  "is_gpio_output s pin = map_option (\<lambda>b. b \<noteq> 0) (frame_pin (config_frame_data s) pin)"

definition output_level :: "'g expander_state \<Rightarrow> nat \<Rightarrow> nat option" where
  "output_level s pin = frame_pin (write_frame_data s) pin"

definition expander_init_can :: "'g expander_ops \<Rightarrow> 'g expander_state \<Rightarrow> c_int \<times> 'g expander_state" where
  "expander_init_can ops s =
     (if \<not> ex_device_is_ready ops (ex_drivers s) then (Inl ENODEV, s)
      else case ex_can_start ops (ex_drivers s) of (err, g) \<Rightarrow> (if err \<noteq> rc0 then err else rc0, s\<lparr>ex_drivers := g\<rparr>))"

text \<open>The loop of \<^verbatim>\<open>send_state_update_frame\<close> over the pins, with the data of the frame.\<close>

fun collect_pins :: "'g expander_ops \<Rightarrow> nat list \<Rightarrow> u8 list \<Rightarrow> 'g expander_state \<Rightarrow> (errno + u8 list, 'g expander_state) outcome" where
  "collect_pins ops [] d s = Returns (Inr d) s"
| "collect_pins ops (i # is) d s =
     (case (is_gpio_output s i, output_level s i) of
        (Some out, Some level) \<Rightarrow>
          if out then collect_pins ops is (d[i div 8 := d ! (i div 8) OR push_bit (i mod 8) (of_nat level)]) s
          else
            (case ex_pin_get ops i (ex_drivers s) of
               (Inl e, g) \<Rightarrow> Returns (Inl e) (s\<lparr>ex_drivers := g\<rparr>)
             | (Inr v, g) \<Rightarrow>
                 collect_pins ops is (d[i div 8 := d ! (i div 8) OR push_bit (i mod 8) (of_nat v)]) (s\<lparr>ex_drivers := g\<rparr>))
      | _ \<Rightarrow> Undefined)"

definition send_state_update_frame :: "'g expander_ops \<Rightarrow> nat \<Rightarrow> 'g expander_state \<Rightarrow> (c_int, 'g expander_state) outcome" where
  "send_state_update_frame ops n s =
     obind (collect_pins ops [0..<n] (replicate 8 0) s) (\<lambda>r s.
       case r of
         Inl e \<Rightarrow> Returns (Inl e) s
       | Inr d \<Rightarrow>
           (case ex_can_send ops \<lparr>frame_id = GPIO_STATE_FRAME_ID, frame_dlc = 8, frame_data = d\<rparr> (ex_drivers s) of
              (r, g) \<Rightarrow> Returns r (s\<lparr>ex_drivers := g\<rparr>)))"

text \<open>\<^verbatim>\<open>memcpy\<close> of \<open>dlc\<close> bytes from the data of the frame to an array of eight bytes.\<close>

definition copy_frame :: "can_frame \<Rightarrow> u8 list \<Rightarrow> u8 list option" where
  "copy_frame f d = (let k = unat (frame_dlc f) in
     if k > length d \<or> k > length (frame_data f) then None else Some (take k (frame_data f) @ drop k d))"

definition receive_config_callback :: "can_frame \<Rightarrow> 'g expander_state \<Rightarrow> (unit, 'g expander_state) outcome" where
  "receive_config_callback f s =
     (case copy_frame f (config_frame_data s) of
        None \<Rightarrow> Undefined
      | Some d \<Rightarrow> Returns () (s\<lparr>config_frame_data := d, configure_gpios_work := True\<rparr>))"

definition receive_write_callback :: "can_frame \<Rightarrow> 'g expander_state \<Rightarrow> (unit, 'g expander_state) outcome" where
  "receive_write_callback f s =
     (case copy_frame f (write_frame_data s) of
        None \<Rightarrow> Undefined
      | Some d \<Rightarrow> Returns () (s\<lparr>write_frame_data := d, write_gpios_work := True\<rparr>))"

fun configure_pins :: "'g expander_ops \<Rightarrow> nat list \<Rightarrow> 'g expander_state \<Rightarrow> (unit, 'g expander_state) outcome" where
  "configure_pins ops [] s = Returns () s"
| "configure_pins ops (i # is) s =
     (case is_gpio_output s i of
        None \<Rightarrow> Undefined
      | Some out \<Rightarrow>
          (case ex_pin_configure ops i out (ex_drivers s) of
             (err, g) \<Rightarrow> if err \<noteq> rc0 then Returns () (s\<lparr>ex_drivers := g\<rparr>) else configure_pins ops is (s\<lparr>ex_drivers := g\<rparr>)))"

definition configure_gpios :: "'g expander_ops \<Rightarrow> nat \<Rightarrow> 'g expander_state \<Rightarrow> (unit, 'g expander_state) outcome" where
  "configure_gpios ops n s = configure_pins ops [0..<n] (s\<lparr>configure_gpios_work := False\<rparr>)"

fun write_pins :: "'g expander_ops \<Rightarrow> nat list \<Rightarrow> 'g expander_state \<Rightarrow> (unit, 'g expander_state) outcome" where
  "write_pins ops [] s = Returns () s"
| "write_pins ops (i # is) s =
     (case (is_gpio_output s i, output_level s i) of
        (Some out, Some level) \<Rightarrow>
          if \<not> out then write_pins ops is s
          else
            (case ex_pin_set ops i level (ex_drivers s) of
               (err, g) \<Rightarrow> if err \<noteq> rc0 then Returns () (s\<lparr>ex_drivers := g\<rparr>) else write_pins ops is (s\<lparr>ex_drivers := g\<rparr>))
      | _ \<Rightarrow> Undefined)"

definition write_gpios :: "'g expander_ops \<Rightarrow> nat \<Rightarrow> 'g expander_state \<Rightarrow> (unit, 'g expander_state) outcome" where
  "write_gpios ops n s = write_pins ops [0..<n] (s\<lparr>write_gpios_work := False\<rparr>)"

definition configure_receive_filters :: "'g expander_ops \<Rightarrow> 'g expander_state \<Rightarrow> c_int \<times> 'g expander_state" where
  "configure_receive_filters ops s =
     (case ex_can_add_rx_filter ops Cb_receive_config GPIO_CONFIG_FRAME_ID (ex_drivers s) of (filter_id, g) \<Rightarrow>
      if rc_neg filter_id then (filter_id, s\<lparr>ex_drivers := g\<rparr>)
      else
        case ex_can_add_rx_filter ops Cb_receive_write GPIO_WRITE_FRAME_ID g of (filter_id, g) \<Rightarrow>
        (if rc_neg filter_id then filter_id else rc0, s\<lparr>ex_drivers := g\<rparr>))"

definition expander_main_init :: "'g expander_ops \<Rightarrow> nat \<Rightarrow> 'g expander_state \<Rightarrow> (c_int, 'g expander_state) outcome" where
  "expander_main_init ops n s =
     obind (configure_gpios ops n s) (\<lambda>_ s.
       case expander_init_can ops s of (err, s) \<Rightarrow>
         if err \<noteq> rc0 then Returns err s
         else case configure_receive_filters ops s of (err, s) \<Rightarrow> Returns (if err \<noteq> rc0 then err else rc0) s)"

section \<open>Steps of the board\<close>

text \<open>
  A frame that the driver delivers to a callback, a work item that is submitted, and a round of the main loop.
\<close>

datatype ex_event = Config_frame can_frame | Write_frame can_frame | Configure_work | Write_work | Main_loop

fun expander_event :: "'g expander_ops \<Rightarrow> nat \<Rightarrow> ex_event \<Rightarrow> 'g expander_state \<Rightarrow> (unit, 'g expander_state) outcome option" where
  "expander_event ops n (Config_frame f) s = Some (receive_config_callback f s)"
| "expander_event ops n (Write_frame f) s = Some (receive_write_callback f s)"
| "expander_event ops n Configure_work s = (if configure_gpios_work s then Some (configure_gpios ops n s) else None)"
| "expander_event ops n Write_work s = (if write_gpios_work s then Some (write_gpios ops n s) else None)"
| "expander_event ops n Main_loop s = Some (obind (send_state_update_frame ops n s) (\<lambda>_. Returns ()))"

inductive expander_run :: "'g expander_ops \<Rightarrow> nat \<Rightarrow> 'g expander_state \<Rightarrow> ex_event list \<Rightarrow> 'g expander_state \<Rightarrow> bool" for ops n where
  expander_start: "expander_run ops n s [] s"
| expander_more: "expander_run ops n s es s' \<Longrightarrow> expander_event ops n e s' = Some (Returns () s'') \<Longrightarrow> expander_run ops n s (es @ [e]) s''"

section \<open>Bits of a frame\<close>

definition frame_bit :: "u8 list \<Rightarrow> nat \<Rightarrow> bool" where
  "frame_bit d j = bit (d ! (j div 8)) (j mod 8)"

lemma frame_pin_eq: "length d = 8 \<Longrightarrow> i < 64 \<Longrightarrow> frame_pin d i = Some (of_bool (frame_bit d i))"
proof -
  assume "length d = 8" and "i < 64"
  then have "i div 8 < length d" by simp
  moreover have "drop_bit (i mod 8) (d ! (i div 8)) AND 1 = of_bool (frame_bit d i)"
    by (simp add: frame_bit_def and_one_eq mod_2_eq_odd bit_iff_odd_drop_bit)
  ultimately show ?thesis by (simp add: frame_pin_def)
qed

lemma frame_bit_set:
  assumes "length d = 8" and "i < 64" and "j < 64"
  shows "frame_bit (d[i div 8 := d ! (i div 8) OR push_bit (i mod 8) (of_bool b)]) j \<longleftrightarrow> frame_bit d j \<or> j = i \<and> b"
proof (cases "j div 8 = i div 8")
  case True
  then have "j = i \<longleftrightarrow> j mod 8 = i mod 8" by (metis mod_div_mult_eq)
  then show ?thesis
    using True assms by (auto simp: frame_bit_def bit_simps)
next
  case False
  then show ?thesis using assms by (auto simp: frame_bit_def)
qed

section \<open>Pins that work\<close>

text \<open>
  What an application sees of the drivers: the direction of a pin, the level it is driven with, the level on its line
  while it is an input, and the frames that were sent.
\<close>

record pins_view =
  pv_dir :: "nat \<Rightarrow> bool"
  pv_drv :: "nat \<Rightarrow> bool"
  pv_line :: "nat \<Rightarrow> bool"
  pv_sent :: "can_frame list"

definition pin_level :: "pins_view \<Rightarrow> nat \<Rightarrow> bool" where
  "pin_level v i = (if pv_dir v i then pv_drv v i else pv_line v i)"

text \<open>
  What the refinement supposes of the drivers, for the state \<open>view\<close> of the pins: every call on a pin succeeds and does what its name
  says, \<open>can_send\<close> accepts every frame, and the level that is applied to an input from outside does not change during a run.
\<close>

definition pins_work :: "'g expander_ops \<Rightarrow> nat \<Rightarrow> ('g \<Rightarrow> pins_view) \<Rightarrow> bool" where
  "pins_work ops n view \<longleftrightarrow>
     (\<forall>i out g. i < n \<longrightarrow> (\<exists>g'. ex_pin_configure ops i out g = (rc0, g') \<and> view g' = (view g)\<lparr>pv_dir := (pv_dir (view g))(i := out)\<rparr>)) \<and>
     (\<forall>i l g. i < n \<longrightarrow> (\<exists>g'. ex_pin_set ops i l g = (rc0, g') \<and> view g' = (view g)\<lparr>pv_drv := (pv_drv (view g))(i := l \<noteq> 0)\<rparr>)) \<and>
     (\<forall>i g. i < n \<longrightarrow> (\<exists>g'. ex_pin_get ops i g = (Inr (of_bool (pin_level (view g) i)), g') \<and> view g' = view g)) \<and>
     (\<forall>f g. \<exists>g'. ex_can_send ops f g = (rc0, g') \<and> view g' = (view g)\<lparr>pv_sent := pv_sent (view g) @ [f]\<rparr>) \<and>
     (\<forall>g. view (snd (ex_can_start ops g)) = view g) \<and> (\<forall>cb a g. view (snd (ex_can_add_rx_filter ops cb a g)) = view g)"

definition frames_wf :: "'g expander_state \<Rightarrow> bool" where
  "frames_wf s \<longleftrightarrow> length (config_frame_data s) = 8 \<and> length (write_frame_data s) = 8"

abbreviation cfg_bit :: "'g expander_state \<Rightarrow> nat \<Rightarrow> bool" where
  "cfg_bit s \<equiv> frame_bit (config_frame_data s)"

abbreviation write_bit :: "'g expander_state \<Rightarrow> nat \<Rightarrow> bool" where
  "write_bit s \<equiv> frame_bit (write_frame_data s)"

lemma output_bits:
  assumes "frames_wf s" and "i < 64"
  shows "is_gpio_output s i = Some (cfg_bit s i)" and "output_level s i = Some (of_bool (write_bit s i))"
  using assms by (auto simp: is_gpio_output_def output_level_def frames_wf_def frame_pin_eq)

lemma collect_pins_eq:
  assumes "pins_work ops n view" and "frames_wf s" and "\<forall>i \<in> set is. i < n" and "n \<le> 64" and "length d = 8"
  shows "\<exists>d' g'. collect_pins ops is d s = Returns (Inr d') (s\<lparr>ex_drivers := g'\<rparr>) \<and> view g' = view (ex_drivers s) \<and> length d' = 8 \<and>
    (\<forall>j < 64. frame_bit d' j \<longleftrightarrow> frame_bit d j \<or> j \<in> set is \<and> (if cfg_bit s j then write_bit s j else pin_level (view (ex_drivers s)) j))"
  using assms(2,3,5)
proof (induction "is" arbitrary: d s)
  case Nil
  then show ?case by (auto intro!: exI [of _ "ex_drivers s"])
next
  case (Cons i "is")
  have i: "i < n" "i < 64" using Cons.prems(2) assms(4) by auto
  note o = output_bits [OF Cons.prems(1) i(2)]
  define v where "v = (if cfg_bit s i then write_bit s i else pin_level (view (ex_drivers s)) i)"
  define d1 where "d1 = d[i div 8 := d ! (i div 8) OR push_bit (i mod 8) (of_bool v)]"
  obtain g where g: "collect_pins ops (i # is) d s = collect_pins ops is d1 (s\<lparr>ex_drivers := g\<rparr>)" "view g = view (ex_drivers s)"
  proof (cases "cfg_bit s i")
    case True
    then show ?thesis using that [of "ex_drivers s"] o by (simp add: d1_def v_def)
  next
    case False
    obtain g where "ex_pin_get ops i (ex_drivers s) = (Inr (of_bool (pin_level (view (ex_drivers s)) i)), g)" "view g = view (ex_drivers s)"
      using assms(1) i(1) unfolding pins_work_def by meson
    then show ?thesis using that [of g] o False by (simp add: d1_def v_def)
  qed
  have len: "length d1 = 8" using Cons.prems(3) by (simp add: d1_def)
  have "\<exists>d' g'. collect_pins ops is d1 (s\<lparr>ex_drivers := g\<rparr>) = Returns (Inr d') (s\<lparr>ex_drivers := g'\<rparr>) \<and> view g' = view (ex_drivers s) \<and>
      length d' = 8 \<and> (\<forall>j < 64. frame_bit d' j \<longleftrightarrow> frame_bit d1 j \<or> j \<in> set is \<and> (if cfg_bit s j then write_bit s j else pin_level (view (ex_drivers s)) j))"
    using Cons.IH [of "s\<lparr>ex_drivers := g\<rparr>" d1] Cons.prems g(2) len by (simp add: frames_wf_def cong: if_cong)
  moreover have "frame_bit d1 j \<longleftrightarrow> frame_bit d j \<or> j = i \<and> v" if "j < 64" for j
    unfolding d1_def by (rule frame_bit_set [OF Cons.prems(3) i(2) that])
  ultimately show ?case unfolding g(1) v_def by fastforce
qed

lemma configure_pins_eq:
  assumes "pins_work ops n view" and "frames_wf s" and "\<forall>i \<in> set is. i < n" and "n \<le> 64"
  shows "\<exists>g'. configure_pins ops is s = Returns () (s\<lparr>ex_drivers := g'\<rparr>) \<and>
    view g' = (view (ex_drivers s))\<lparr>pv_dir := \<lambda>i. if i \<in> set is then cfg_bit s i else pv_dir (view (ex_drivers s)) i\<rparr>"
  using assms(2,3)
proof (induction "is" arbitrary: s)
  case Nil
  then show ?case by (auto intro!: exI [of _ "ex_drivers s"])
next
  case (Cons i "is")
  have i: "i < n" "i < 64" using Cons.prems(2) assms(4) by auto
  define v where "v = view (ex_drivers s)"
  obtain g where g: "ex_pin_configure ops i (cfg_bit s i) (ex_drivers s) = (rc0, g)"
      "view g = v\<lparr>pv_dir := (pv_dir v)(i := cfg_bit s i)\<rparr>"
    using assms(1) i(1) unfolding pins_work_def v_def by meson
  have "\<exists>g'. configure_pins ops is (s\<lparr>ex_drivers := g\<rparr>) = Returns () (s\<lparr>ex_drivers := g'\<rparr>) \<and>
      view g' = (view g)\<lparr>pv_dir := \<lambda>i. if i \<in> set is then cfg_bit s i else pv_dir (view g) i\<rparr>"
    using Cons.IH [of "s\<lparr>ex_drivers := g\<rparr>"] Cons.prems by (simp add: frames_wf_def cong: if_cong)
  moreover have "(view g)\<lparr>pv_dir := \<lambda>i. if i \<in> set is then cfg_bit s i else pv_dir (view g) i\<rparr> =
      v\<lparr>pv_dir := \<lambda>j. if j \<in> set (i # is) then cfg_bit s j else pv_dir v j\<rparr>"
    unfolding g(2) by (auto intro!: arg_cong [where f = "\<lambda>x. pv_dir_update (\<lambda>_. x) v"])
  moreover have "configure_pins ops (i # is) s = configure_pins ops is (s\<lparr>ex_drivers := g\<rparr>)"
    using output_bits(1) [OF Cons.prems(1) i(2)] g(1) by simp
  ultimately show ?case unfolding v_def [symmetric] by (simp only:)
qed

lemma write_pins_eq:
  assumes "pins_work ops n view" and "frames_wf s" and "\<forall>i \<in> set is. i < n" and "n \<le> 64"
  shows "\<exists>g'. write_pins ops is s = Returns () (s\<lparr>ex_drivers := g'\<rparr>) \<and>
    view g' = (view (ex_drivers s))\<lparr>pv_drv := \<lambda>i. if i \<in> set is \<and> cfg_bit s i then write_bit s i else pv_drv (view (ex_drivers s)) i\<rparr>"
  using assms(2,3)
proof (induction "is" arbitrary: s)
  case Nil
  then show ?case by (auto intro!: exI [of _ "ex_drivers s"])
next
  case (Cons i "is")
  have i: "i < n" "i < 64" using Cons.prems(2) assms(4) by auto
  define v where "v = view (ex_drivers s)"
  obtain g where g: "write_pins ops (i # is) s = write_pins ops is (s\<lparr>ex_drivers := g\<rparr>)"
      "view g = (if cfg_bit s i then v\<lparr>pv_drv := (pv_drv v)(i := write_bit s i)\<rparr> else v)"
  proof (cases "cfg_bit s i")
    case False
    then show ?thesis using that [of "ex_drivers s"] output_bits [OF Cons.prems(1) i(2)] by (simp add: v_def)
  next
    case True
    obtain g where "ex_pin_set ops i (of_bool (write_bit s i)) (ex_drivers s) = (rc0, g)"
        "view g = v\<lparr>pv_drv := (pv_drv v)(i := of_bool (write_bit s i) \<noteq> (0 :: nat))\<rparr>"
      using assms(1) i(1) unfolding pins_work_def v_def by meson
    then show ?thesis using that [of g] output_bits [OF Cons.prems(1) i(2)] True by simp
  qed
  have "\<exists>g'. write_pins ops is (s\<lparr>ex_drivers := g\<rparr>) = Returns () (s\<lparr>ex_drivers := g'\<rparr>) \<and>
      view g' = (view g)\<lparr>pv_drv := \<lambda>i. if i \<in> set is \<and> cfg_bit s i then write_bit s i else pv_drv (view g) i\<rparr>"
    using Cons.IH [of "s\<lparr>ex_drivers := g\<rparr>"] Cons.prems by (simp add: frames_wf_def cong: if_cong)
  moreover have "(view g)\<lparr>pv_drv := \<lambda>i. if i \<in> set is \<and> cfg_bit s i then write_bit s i else pv_drv (view g) i\<rparr> =
      v\<lparr>pv_drv := \<lambda>j. if j \<in> set (i # is) \<and> cfg_bit s j then write_bit s j else pv_drv v j\<rparr>"
    unfolding g(2) by (auto intro!: arg_cong [where f = "\<lambda>x. pv_drv_update (\<lambda>_. x) v"])
  ultimately show ?case unfolding g(1) v_def [symmetric] by (simp only:)
qed

section \<open>What the expander promises\<close>

text \<open>
  The expander as a machine over functions from pins to levels: the direction and the level that were requested for each pin, and
  the pins themselves. A frame replaces the bits it carries.
\<close>

record expander_abs =
  ea_config :: "nat \<Rightarrow> bool"
  ea_write :: "nat \<Rightarrow> bool"
  ea_config_due :: bool
  ea_write_due :: bool
  ea_pins :: pins_view

definition frame_over :: "can_frame \<Rightarrow> (nat \<Rightarrow> bool) \<Rightarrow> nat \<Rightarrow> bool" where
  "frame_over f b j = (if j < 8 * unat (frame_dlc f) then frame_bit (frame_data f) j else b j)"

definition bytes_of :: "(nat \<Rightarrow> bool) \<Rightarrow> u8 list" where
  "bytes_of b = map (\<lambda>k. horner_sum of_bool 2 (map (\<lambda>j. b (8 * k + j)) [0..<8])) [0..<8]"

definition report :: "nat \<Rightarrow> expander_abs \<Rightarrow> can_frame" where
  "report n a = \<lparr>frame_id = GPIO_STATE_FRAME_ID, frame_dlc = 8,
     frame_data = bytes_of (\<lambda>j. j < n \<and> (if ea_config a j then ea_write a j else pin_level (ea_pins a) j))\<rparr>"

fun expander_spec :: "nat \<Rightarrow> ex_event \<Rightarrow> expander_abs \<Rightarrow> expander_abs" where
  "expander_spec n (Config_frame f) a = a\<lparr>ea_config := frame_over f (ea_config a), ea_config_due := True\<rparr>"
| "expander_spec n (Write_frame f) a = a\<lparr>ea_write := frame_over f (ea_write a), ea_write_due := True\<rparr>"
| "expander_spec n Configure_work a =
     a\<lparr>ea_config_due := False, ea_pins := (ea_pins a)\<lparr>pv_dir := \<lambda>i. if i < n then ea_config a i else pv_dir (ea_pins a) i\<rparr>\<rparr>"
| "expander_spec n Write_work a =
     a\<lparr>ea_write_due := False,
       ea_pins := (ea_pins a)\<lparr>pv_drv := \<lambda>i. if i < n \<and> ea_config a i then ea_write a i else pv_drv (ea_pins a) i\<rparr>\<rparr>"
| "expander_spec n Main_loop a = a\<lparr>ea_pins := (ea_pins a)\<lparr>pv_sent := pv_sent (ea_pins a) @ [report n a]\<rparr>\<rparr>"

definition abs_expander :: "('g \<Rightarrow> pins_view) \<Rightarrow> 'g expander_state \<Rightarrow> expander_abs" where
  "abs_expander view s = \<lparr>ea_config = (\<lambda>j. j < 64 \<and> cfg_bit s j), ea_write = (\<lambda>j. j < 64 \<and> write_bit s j),
     ea_config_due = configure_gpios_work s, ea_write_due = write_gpios_work s, ea_pins = view (ex_drivers s)\<rparr>"

lemma frame_bit_bytes_of: "j < 64 \<Longrightarrow> frame_bit (bytes_of b) j = b j"
  by (simp add: frame_bit_def bytes_of_def bit_horner_sum_bit_word_iff)

lemma bytes_eqI:
  assumes "length d = 8" and "length e = 8" and "\<And>j. j < 64 \<Longrightarrow> frame_bit d j = frame_bit e j"
  shows "d = e"
proof (rule nth_equalityI)
  fix k assume k: "k < length d"
  show "d ! k = e ! k"
  proof (rule bit_word_eqI)
    fix m assume "m < LENGTH(8)"
    then show "bit (d ! k) m = bit (e ! k) m" using assms(3) [of "8 * k + m"] k assms(1) by (simp add: frame_bit_def)
  qed
qed (use assms in simp)

definition frame_fits :: "can_frame \<Rightarrow> bool" where
  "frame_fits f \<longleftrightarrow> unat (frame_dlc f) \<le> 8 \<and> length (frame_data f) = 8"

lemma copy_frame_bits:
  assumes "frame_fits f" and "length d = 8"
  shows "\<exists>d'. copy_frame f d = Some d' \<and> length d' = 8 \<and> (\<forall>j < 64. frame_bit d' j = frame_over f (frame_bit d) j)"
proof -
  define k where "k = unat (frame_dlc f)"
  have k: "k \<le> 8" "length (frame_data f) = 8" using assms(1) by (auto simp: frame_fits_def k_def)
  have "frame_bit (take k (frame_data f) @ drop k d) j = frame_over f (frame_bit d) j" if "j < 64" for j
  proof -
    have "j < 8 * k \<longleftrightarrow> j div 8 < k" by auto
    then show ?thesis using k assms(2) by (simp add: frame_bit_def frame_over_def nth_append k_def [symmetric])
  qed
  then show ?thesis using k assms(2) by (simp add: copy_frame_def Let_def k_def [symmetric])
qed

section \<open>Refinement\<close>

fun event_fits :: "ex_event \<Rightarrow> 'g expander_state \<Rightarrow> bool" where
  "event_fits (Config_frame f) s = frame_fits f"
| "event_fits (Write_frame f) s = frame_fits f"
| "event_fits Configure_work s = configure_gpios_work s"
| "event_fits Write_work s = write_gpios_work s"
| "event_fits Main_loop s = True"

lemma frame_over_64: "(\<lambda>j. j < 64 \<and> frame_over f b j) = frame_over f (\<lambda>j. j < 64 \<and> b j)" if "frame_fits f"
  using that by (auto simp: frame_over_def frame_fits_def)

lemma received_bits:
  assumes "frame_fits f" and "length d = 8"
  obtains d' where "copy_frame f d = Some d'" and "length d' = 8"
    and "(\<lambda>j. j < 64 \<and> frame_bit d' j) = frame_over f (\<lambda>j. j < 64 \<and> frame_bit d j)"
proof -
  obtain d' where "copy_frame f d = Some d'" "length d' = 8" "\<forall>j < 64. frame_bit d' j = frame_over f (frame_bit d) j"
    using copy_frame_bits [OF assms] by blast
  moreover from this have "(\<lambda>j. j < 64 \<and> frame_bit d' j) = frame_over f (\<lambda>j. j < 64 \<and> frame_bit d j)"
    unfolding frame_over_64 [OF assms(1), symmetric] by auto
  ultimately show ?thesis using that by blast
qed

lemma report_sent:
  assumes "pins_work ops n view" and "n \<le> 64" and "frames_wf s"
  shows "\<exists>g'. send_state_update_frame ops n s = Returns rc0 (s\<lparr>ex_drivers := g'\<rparr>) \<and>
    view g' = (view (ex_drivers s))\<lparr>pv_sent := pv_sent (view (ex_drivers s)) @ [report n (abs_expander view s)]\<rparr>"
proof -
  obtain d g where d: "collect_pins ops [0..<n] (replicate 8 0) s = Returns (Inr d) (s\<lparr>ex_drivers := g\<rparr>)" "view g = view (ex_drivers s)"
    "length d = 8" "\<forall>j < 64. frame_bit d j \<longleftrightarrow> frame_bit (replicate 8 0) j \<or>
        j \<in> set [0..<n] \<and> (if cfg_bit s j then write_bit s j else pin_level (view (ex_drivers s)) j)"
    using collect_pins_eq [OF assms(1,3) _ assms(2), of "[0..<n]" "replicate 8 0"] by auto
  have "d = frame_data (report n (abs_expander view s))"
  proof (rule bytes_eqI)
    fix j :: nat assume "j < 64"
    then show "frame_bit d j = frame_bit (frame_data (report n (abs_expander view s))) j"
      using d(4) by (simp add: report_def frame_bit_bytes_of abs_expander_def frame_bit_def [of "replicate 8 0"])
  qed (use d(3) in \<open>simp_all add: report_def bytes_of_def\<close>)
  then have r: "\<lparr>frame_id = GPIO_STATE_FRAME_ID, frame_dlc = 8, frame_data = d\<rparr> = report n (abs_expander view s)"
    by (simp add: report_def)
  obtain g' where "ex_can_send ops (report n (abs_expander view s)) g = (rc0, g')"
      "view g' = (view g)\<lparr>pv_sent := pv_sent (view g) @ [report n (abs_expander view s)]\<rparr>"
    using assms(1) unfolding pins_work_def by meson
  then show ?thesis using d(1,2) r by (intro exI [of _ g']) (simp add: send_state_update_frame_def)
qed

text \<open>
  Each event of the board returns, and changes the requested levels and the pins as the machine over pins does.
\<close>

lemma event_refines:
  assumes "pins_work ops n view" and "n \<le> 64" and "frames_wf s" and "event_fits e s"
  shows "\<exists>s'. expander_event ops n e s = Some (Returns () s') \<and> frames_wf s' \<and>
    abs_expander view s' = expander_spec n e (abs_expander view s)"
proof (cases e)
  case (Config_frame f)
  then obtain d where "copy_frame f (config_frame_data s) = Some d" "length d = 8"
      "(\<lambda>j. j < 64 \<and> frame_bit d j) = frame_over f (\<lambda>j. j < 64 \<and> cfg_bit s j)"
    using received_bits [of f "config_frame_data s"] assms(3,4) by (auto simp: frames_wf_def)
  then show ?thesis using Config_frame assms(3) by (simp add: receive_config_callback_def frames_wf_def abs_expander_def)
next
  case (Write_frame f)
  then obtain d where "copy_frame f (write_frame_data s) = Some d" "length d = 8"
      "(\<lambda>j. j < 64 \<and> frame_bit d j) = frame_over f (\<lambda>j. j < 64 \<and> write_bit s j)"
    using received_bits [of f "write_frame_data s"] assms(3,4) by (auto simp: frames_wf_def)
  then show ?thesis using Write_frame assms(3) by (simp add: receive_write_callback_def frames_wf_def abs_expander_def)
next
  case Configure_work
  let ?s = "s\<lparr>configure_gpios_work := False\<rparr>"
  have "frames_wf ?s" using assms(3) by (simp add: frames_wf_def)
  from configure_pins_eq [OF assms(1) this, of "[0..<n]"] obtain g' where
    "configure_gpios ops n s = Returns () (?s\<lparr>ex_drivers := g'\<rparr>)"
    "view g' = (view (ex_drivers s))\<lparr>pv_dir := \<lambda>i. if i < n then cfg_bit s i else pv_dir (view (ex_drivers s)) i\<rparr>"
    using assms(2) by (auto simp: configure_gpios_def cong: if_cong)
  then show ?thesis
    using Configure_work assms by (auto simp: frames_wf_def abs_expander_def intro!: arg_cong [where f = "\<lambda>x. pv_dir_update (\<lambda>_. x) _"])
next
  case Write_work
  let ?s = "s\<lparr>write_gpios_work := False\<rparr>"
  have "frames_wf ?s" using assms(3) by (simp add: frames_wf_def)
  from write_pins_eq [OF assms(1) this, of "[0..<n]"] obtain g' where
    "write_gpios ops n s = Returns () (?s\<lparr>ex_drivers := g'\<rparr>)"
    "view g' = (view (ex_drivers s))\<lparr>pv_drv := \<lambda>i. if i < n \<and> cfg_bit s i then write_bit s i else pv_drv (view (ex_drivers s)) i\<rparr>"
    using assms(2) by (auto simp: write_gpios_def cong: if_cong)
  then show ?thesis
    using Write_work assms by (auto simp: frames_wf_def abs_expander_def intro!: arg_cong [where f = "\<lambda>x. pv_drv_update (\<lambda>_. x) _"])
next
  case Main_loop
  then show ?thesis using report_sent [OF assms(1-3)] assms(3) by (auto simp: frames_wf_def abs_expander_def)
qed

section \<open>Runs\<close>

definition frames_fit :: "ex_event list \<Rightarrow> bool" where
  "frames_fit es \<longleftrightarrow> (\<forall>f. Config_frame f \<in> set es \<or> Write_frame f \<in> set es \<longrightarrow> frame_fits f)"

text \<open>Once no configuration is due, the pins have the directions that were requested.\<close>

definition settled :: "nat \<Rightarrow> expander_abs \<Rightarrow> bool" where
  "settled n a \<longleftrightarrow> (\<not> ea_config_due a \<longrightarrow> (\<forall>i < n. pv_dir (ea_pins a) i = ea_config a i))"

lemma settled_step: "settled n a \<Longrightarrow> settled n (expander_spec n e a)"
  by (cases e) (auto simp: settled_def)

lemma expander_event_fits:
  "expander_event ops n e s = Some r \<Longrightarrow> frames_fit [e] \<Longrightarrow> event_fits e s"
  by (cases e) (auto simp: frames_fit_def split: if_splits)

lemma expander_run_inv:
  assumes "expander_run ops n s es s'" and "pins_work ops n view" and "n \<le> 64" and "frames_fit es"
    and "frames_wf s" and "settled n (abs_expander view s)"
  shows "frames_wf s' \<and> settled n (abs_expander view s') \<and> abs_expander view s' = fold (expander_spec n) es (abs_expander view s)"
  using assms(1,4-6)
proof induction
  case (expander_more s es s' e s'')
  then have "frames_fit es" and e: "frames_fit [e]" by (auto simp: frames_fit_def)
  then have IH: "frames_wf s'" "settled n (abs_expander view s')" "abs_expander view s' = fold (expander_spec n) es (abs_expander view s)"
    using expander_more by auto
  have "frames_wf s'' \<and> abs_expander view s'' = expander_spec n e (abs_expander view s')"
    using event_refines [OF assms(2,3) IH(1) expander_event_fits [OF expander_more(2) e]] expander_more(2) by auto
  then show ?case using settled_step [OF IH(2)] IH(3) by simp
qed simp

text \<open>\<^verbatim>\<open>main\<close> goes on whatever \<^verbatim>\<open>init\<close> returns.\<close>

lemma main_init_settled:
  assumes "pins_work ops n view" and "n \<le> 64" and "expander_main_init ops n (expander_init g) = Returns r s"
  shows "frames_wf s \<and> settled n (abs_expander view s)"
proof -
  let ?s = "expander_init g :: _ expander_state"
  have wf: "frames_wf (?s\<lparr>configure_gpios_work := False\<rparr>)" by (simp add: frames_wf_def expander_init_def)
  obtain g' where c: "configure_gpios ops n ?s = Returns () (?s\<lparr>ex_drivers := g'\<rparr>)" "\<forall>i < n. pv_dir (view g') i = cfg_bit ?s i"
    using configure_pins_eq [OF assms(1) wf _ assms(2), of "[0..<n]"] by (auto simp: configure_gpios_def expander_init_def)
  have start: "view (snd (ex_can_start ops x)) = view x" "view (snd (ex_can_add_rx_filter ops cb a x)) = view x" for cb a x
    using assms(1) by (auto simp: pins_work_def)
  have "\<exists>g''. s = ?s\<lparr>ex_drivers := g''\<rparr> \<and> view g'' = view g'"
    using assms(3) c(1) start(1) [of g'] start(2)
    by (auto simp: expander_main_init_def expander_init_can_def configure_receive_filters_def expander_init_def split: prod.splits if_splits)
      (metis snd_conv)+
  then show ?thesis using c(2) assms(2) by (auto simp: frames_wf_def settled_def abs_expander_def expander_init_def)
qed

text \<open>
  (C32) The GPIO expander refines the machine over pins, with drivers that never fail and for input lines that keep their level: from its start on, every sequence of frames, work items and rounds of the main
  loop leaves the requested levels, the pins and the sent frames as the machine does, in which a report carries the
  requested level of every output and the level of every input; and once no configuration is due, the pins have the
  requested directions.
\<close>

theorem expander_refines_pins:
  assumes "pins_work ops n view" and "n \<le> 64" and "expander_main_init ops n (expander_init g) = Returns r s0"
    and "expander_run ops n s0 es s" and "frames_fit es"
  shows "abs_expander view s = fold (expander_spec n) es (abs_expander view s0) \<and>
    (\<not> configure_gpios_work s \<longrightarrow> (\<forall>i < n. pv_dir (view (ex_drivers s)) i = cfg_bit s i))"
proof -
  have "settled n (abs_expander view s)" and abs: "abs_expander view s = fold (expander_spec n) es (abs_expander view s0)"
    using expander_run_inv [OF assms(4,1,2,5)] main_init_settled [OF assms(1-3)] by auto
  then show ?thesis using assms(2) by (auto simp: settled_def abs_expander_def)
qed

text \<open>
  A write that the GPIO expander takes while no configuration is due is driven and reported: after its frame, its work item and
  a round of the main loop every output has the level of the frame, and the last report is the level of every
  pin.
\<close>

theorem expander_write_is_reported:
  assumes "pins_work ops n view" and "n \<le> 64" and "expander_main_init ops n (expander_init g) = Returns r s0"
    and "expander_run ops n s0 es s" and "frames_fit es" and "\<not> configure_gpios_work s" and "frame_fits f"
  shows "\<exists>s'. expander_run ops n s [Write_frame f, Write_work, Main_loop] s' \<and>
    (\<forall>i < n. frame_bit (frame_data (last (pv_sent (view (ex_drivers s'))))) i = pin_level (view (ex_drivers s')) i \<and>
      (cfg_bit s i \<longrightarrow> pin_level (view (ex_drivers s')) i = frame_over f (write_bit s) i))"
proof -
  note step = event_refines [OF assms(1,2)]
  have inv: "frames_wf s" "settled n (abs_expander view s)"
    using expander_run_inv [OF assms(4,1,2,5)] main_init_settled [OF assms(1-3)] by auto
  obtain s1 where s1: "expander_event ops n (Write_frame f) s = Some (Returns () s1)" "frames_wf s1"
      "abs_expander view s1 = expander_spec n (Write_frame f) (abs_expander view s)"
    using step [OF inv(1), of "Write_frame f"] assms(7) by auto
  then have "write_gpios_work s1" by (simp add: abs_expander_def)
  then obtain s2 where s2: "expander_event ops n Write_work s1 = Some (Returns () s2)" "frames_wf s2"
      "abs_expander view s2 = expander_spec n Write_work (abs_expander view s1)"
    using step [OF s1(2), of Write_work] by (metis event_fits.simps(4))
  obtain s3 where s3: "expander_event ops n Main_loop s2 = Some (Returns () s3)"
      "abs_expander view s3 = expander_spec n Main_loop (abs_expander view s2)"
    using step [OF s2(2), of Main_loop] by auto
  have "expander_run ops n s [Write_frame f, Write_work, Main_loop] s3"
    using expander_more [OF expander_more [OF expander_more [OF expander_start s1(1)] s2(1)] s3(1)] by simp
  moreover have "ea_pins (abs_expander view s3) = view (ex_drivers s3)" by (simp add: abs_expander_def)
  then have v: "view (ex_drivers s3) =
      ea_pins (expander_spec n Main_loop (expander_spec n Write_work (expander_spec n (Write_frame f) (abs_expander view s))))"
    by (simp only: s3(2) s2(3) s1(3))
  have "pv_dir (view (ex_drivers s)) i = cfg_bit s i" if "i < n" for i
    using inv(2) that assms(2,6) by (auto simp: settled_def abs_expander_def)
  then have "frame_bit (frame_data (last (pv_sent (view (ex_drivers s3))))) i = pin_level (view (ex_drivers s3)) i \<and>
      (cfg_bit s i \<longrightarrow> pin_level (view (ex_drivers s3)) i = frame_over f (write_bit s) i)" if "i < n" for i
    using that assms(2) by (auto simp: v report_def frame_bit_bytes_of pin_level_def abs_expander_def frame_over_def)
  ultimately show ?thesis by blast
qed

text \<open>Drivers that do as they are told.\<close>

definition demo_pins :: "pins_view expander_ops" where
  "demo_pins = \<lparr>ex_pin_configure = (\<lambda>i out g. (rc0, g\<lparr>pv_dir := (pv_dir g)(i := out)\<rparr>)),
     ex_pin_set = (\<lambda>i l g. (rc0, g\<lparr>pv_drv := (pv_drv g)(i := l \<noteq> 0)\<rparr>)),
     ex_pin_get = (\<lambda>i g. (Inr (of_bool (pin_level g i)), g)), ex_device_is_ready = (\<lambda>_. True), ex_can_start = (\<lambda>g. (rc0, g)),
     ex_can_add_rx_filter = (\<lambda>_ _ g. (rc0, g)), ex_can_send = (\<lambda>f g. (rc0, g\<lparr>pv_sent := pv_sent g @ [f]\<rparr>))\<rparr>"

definition demo_lines :: pins_view where
  "demo_lines = \<lparr>pv_dir = (\<lambda>_. False), pv_drv = (\<lambda>_. False), pv_line = (\<lambda>i. i = 1), pv_sent = []\<rparr>"

definition demo_frame :: "u8 \<Rightarrow> can_frame" where
  "demo_frame b = \<lparr>frame_id = 0, frame_dlc = 1, frame_data = b # replicate 7 0\<rparr>"

lemma demo_pins_work: "pins_work demo_pins n (\<lambda>g. g)"
  by (simp add: pins_work_def demo_pins_def)

lemma demo_frame_fits: "frame_fits (demo_frame b)"
  by (simp add: frame_fits_def demo_frame_def)

definition demo_expander :: "pins_view expander_state" where
  "demo_expander = (expander_init demo_lines)\<lparr>ex_drivers := demo_lines\<lparr>pv_dir := (\<lambda>_. False)(0 := False, 1 := False)\<rparr>\<rparr>"

lemma demo_main_init: "expander_main_init demo_pins 2 (expander_init demo_lines) = Returns rc0 demo_expander"
  by (simp add: expander_main_init_def configure_gpios_def expander_init_can_def configure_receive_filters_def expander_init_def demo_pins_def
      is_gpio_output_def frame_pin_def demo_expander_def demo_lines_def numeral_2_eq_2)

definition demo_configured :: "pins_view expander_state" where
  "demo_configured = demo_expander\<lparr>config_frame_data := 1 # replicate 7 0, ex_drivers := demo_lines\<lparr>pv_dir := \<lambda>i. i = 0\<rparr>\<rparr>"

lemma demo_configure: "expander_run demo_pins 2 demo_expander [Config_frame (demo_frame 1), Configure_work] demo_configured"
proof -
  let ?s = "demo_expander\<lparr>config_frame_data := 1 # replicate 7 0, configure_gpios_work := True\<rparr>"
  have c: "expander_event demo_pins 2 (Config_frame (demo_frame 1)) demo_expander = Some (Returns () ?s)"
    by (simp add: receive_config_callback_def copy_frame_def demo_frame_def demo_expander_def expander_init_def Let_def eval_nat_numeral)
  have "(\<lambda>_. False)(0 := True, Suc 0 := False) = (\<lambda>i. i = 0)" by (simp add: fun_eq_iff)
  then have w: "expander_event demo_pins 2 Configure_work ?s = Some (Returns () demo_configured)"
    by (simp add: configure_gpios_def is_gpio_output_def frame_pin_def demo_pins_def demo_configured_def demo_expander_def demo_lines_def
        expander_init_def numeral_2_eq_2)
  show ?thesis using expander_more [OF expander_more [OF expander_start c] w] by simp
qed

theorem expander_write_is_reported_witness:
  "\<exists>s'. expander_run demo_pins 2 demo_configured [Write_frame (demo_frame 1), Write_work, Main_loop] s' \<and> pin_level (ex_drivers s') 0"
proof -
  have "frames_fit [Config_frame (demo_frame 1), Configure_work]" by (simp add: frames_fit_def demo_frame_fits)
  from expander_write_is_reported [OF demo_pins_work _ demo_main_init demo_configure this _ demo_frame_fits, of 1]
  show ?thesis
    by (auto simp: demo_configured_def demo_expander_def expander_init_def frame_bit_def frame_over_def demo_frame_def)
qed

theorem expander_refines_pins_witness:
  "abs_expander (\<lambda>g. g) demo_configured =
    fold (expander_spec 2) [Config_frame (demo_frame 1), Configure_work] (abs_expander (\<lambda>g. g) demo_expander)"
  using expander_refines_pins [OF demo_pins_work _ demo_main_init demo_configure] by (simp add: frames_fit_def demo_frame_fits)

text \<open>
  The other order is not driven: a level that is written before the pin becomes an output is reported
  as its level from then on, while the pin keeps the level it was driven with last.
\<close>

lemma late_output_not_driven:
  assumes "i < n" and "n \<le> 64" and "ea_config a i" and "ea_write a i" and "\<not> pv_drv (ea_pins a) i"
  shows "frame_bit (frame_data (report n (expander_spec n Configure_work a))) i \<and>
    \<not> pin_level (ea_pins (expander_spec n Configure_work a)) i"
  using assms by (simp add: report_def frame_bit_bytes_of pin_level_def)

end
