(* ===== verification/Hw_Command.thy ===== *)
theory Hw_Command
  imports Msgq
begin

text \<open>
  The command interface of the two hardware test programs (\<^verbatim>\<open>samples/hardware_test/src/main.c\<close> and
  \<^verbatim>\<open>samples/hardware_tester/src/main.c\<close>, which differ in names only): one thread reads lines from the console, a second
  one executes them, with a queue of four commands and a mutex between them. \<open>'s\<close> is what the tests work on; \<open>run\<close> runs
  a test, and \<open>mq\<close> are the message queues of the kernel.
\<close>

section \<open>State\<close>

definition COMMAND_MAX_LEN :: nat where "COMMAND_MAX_LEN = 64"
definition COMMAND_QUEUE_LEN :: nat where "COMMAND_QUEUE_LEN = 4"

datatype hw_test = Test_log_hardware_info | Test_gpio | Test_can | Test_lin | Test_uart
datatype hw_thread = Receiver | Dispatcher

text \<open>What the threads log, and where they are: at the calls that wait.\<close>

datatype hw_log = Log_start string | Log_stop string | Log_unknown string | Log_idle bool | Log_truncated
datatype receiver_pc = Rx_getline | Rx_unlock | Rx_put string
datatype dispatch_pc = Disp_get | Disp_lock string | Disp_execute string | Disp_unlock

record 's hw_state =
  command_queue :: "string list"
  command_mutex :: "hw_thread option"
  receiver_at :: receiver_pc
  dispatch_at :: dispatch_pc
  hw_console :: "hw_log list"
  hw_world :: 's

definition hw_boot :: "'s \<Rightarrow> 's hw_state" where
  "hw_boot x = \<lparr>command_queue = [], command_mutex = None, receiver_at = Rx_getline, dispatch_at = Disp_get, hw_console = [], hw_world = x\<rparr>"

section \<open>Operations\<close>

definition test_of :: "string \<Rightarrow> hw_test option" where
  "test_of command =
     (if command = ''hwInfo start'' then Some Test_log_hardware_info
      else if command = ''gpio start'' then Some Test_gpio
      else if command = ''can start'' then Some Test_can
      else if command = ''lin start'' then Some Test_lin
      else if command = ''uart start'' then Some Test_uart
      else None)"

definition execute_command :: "(hw_test \<Rightarrow> 's \<Rightarrow> 's) \<Rightarrow> string \<Rightarrow> 's hw_state \<Rightarrow> 's hw_state" where
  "execute_command run command s =
     (case test_of command of
        Some t \<Rightarrow> s\<lparr>hw_console := hw_console s @ [Log_start command, Log_stop command], hw_world := run t (hw_world s)\<rparr>
      | None \<Rightarrow> s\<lparr>hw_console := hw_console s @ [Log_unknown command]\<rparr>)"

text \<open>Taking a mutex without waiting, and giving it back: nothing happens if another thread has it.\<close>

definition mutex_try :: "hw_thread \<Rightarrow> 's hw_state \<Rightarrow> bool \<times> 's hw_state" where
  "mutex_try t s = (if command_mutex s = None then (True, s\<lparr>command_mutex := Some t\<rparr>) else (False, s))"

definition mutex_unlock :: "hw_thread \<Rightarrow> 's hw_state \<Rightarrow> 's hw_state" where
  "mutex_unlock t s = (if command_mutex s = Some t then s\<lparr>command_mutex := None\<rparr> else s)"

text \<open>
  \<^verbatim>\<open>handle_console_input\<close>, up to the point where it waits: for a place in the queue, or between the two calls
  on the mutex. A line is a C string; the command is its first 63 characters.
\<close>

definition handle_console_input :: "string option \<Rightarrow> 's hw_state \<Rightarrow> 's hw_state" where
  "handle_console_input input s =
     (case input of
        None \<Rightarrow> s
      | Some line \<Rightarrow>
          let s = (if length line \<ge> COMMAND_MAX_LEN then s\<lparr>hw_console := hw_console s @ [Log_truncated]\<rparr> else s);
              command = take (COMMAND_MAX_LEN - 1) line
          in if command = ''idle'' then
               (case mutex_try Receiver s of
                  (idle, s) \<Rightarrow> s\<lparr>hw_console := hw_console s @ [Log_idle idle], receiver_at := Rx_unlock\<rparr>)
             else s\<lparr>receiver_at := Rx_put command\<rparr>)"

section \<open>Threads\<close>

text \<open>A line of the console, and the steps of \<^verbatim>\<open>command_receiver_thread\<close> and \<^verbatim>\<open>command_dispatch_thread\<close>.\<close>

datatype hw_event = Line "string option" | Receiver_step | Dispatcher_step

fun command_receiver_thread :: "string msgq_ops \<Rightarrow> 's hw_state \<Rightarrow> 's hw_state option" where
  "command_receiver_thread mq s =
     (case receiver_at s of
        Rx_getline \<Rightarrow> None
      | Rx_unlock \<Rightarrow> Some ((mutex_unlock Receiver s)\<lparr>receiver_at := Rx_getline\<rparr>)
      | Rx_put command \<Rightarrow>
          (case k_msgq_put mq COMMAND_QUEUE_LEN command (command_queue s) of
             (err, q) \<Rightarrow> if err = rc0 then Some (s\<lparr>command_queue := q, receiver_at := Rx_getline\<rparr>) else None))"

text \<open>\<^verbatim>\<open>dispatch_command\<close> waits for the mutex, executes the command and gives the mutex back.\<close>

fun command_dispatch_thread :: "string msgq_ops \<Rightarrow> (hw_test \<Rightarrow> 's \<Rightarrow> 's) \<Rightarrow> 's hw_state \<Rightarrow> 's hw_state option" where
  "command_dispatch_thread mq run s =
     (case dispatch_at s of
        Disp_get \<Rightarrow> (case k_msgq_get mq (command_queue s) of None \<Rightarrow> None | Some (c, cs) \<Rightarrow> Some (s\<lparr>command_queue := cs, dispatch_at := Disp_lock c\<rparr>))
      | Disp_lock c \<Rightarrow> (case mutex_try Dispatcher s of (True, s) \<Rightarrow> Some (s\<lparr>dispatch_at := Disp_execute c\<rparr>) | _ \<Rightarrow> None)
      | Disp_execute c \<Rightarrow> Some ((execute_command run c s)\<lparr>dispatch_at := Disp_unlock\<rparr>)
      | Disp_unlock \<Rightarrow> Some ((mutex_unlock Dispatcher s)\<lparr>dispatch_at := Disp_get\<rparr>))"

fun hw_step :: "string msgq_ops \<Rightarrow> (hw_test \<Rightarrow> 's \<Rightarrow> 's) \<Rightarrow> hw_event \<Rightarrow> 's hw_state \<Rightarrow> 's hw_state option" where
  "hw_step mq run (Line input) s = (if receiver_at s = Rx_getline then Some (handle_console_input input s) else None)"
| "hw_step mq run Receiver_step s = command_receiver_thread mq s"
| "hw_step mq run Dispatcher_step s = command_dispatch_thread mq run s"

fun hw_run :: "string msgq_ops \<Rightarrow> (hw_test \<Rightarrow> 's \<Rightarrow> 's) \<Rightarrow> hw_event list \<Rightarrow> 's hw_state \<Rightarrow> 's hw_state option" where
  "hw_run mq run [] s = Some s"
| "hw_run mq run (e # es) s = (case hw_step mq run e s of None \<Rightarrow> None | Some s' \<Rightarrow> hw_run mq run es s')"

section \<open>Commands are executed once and in order\<close>

fun executed_log :: "hw_log \<Rightarrow> string list" where
  "executed_log (Log_start c) = [c]"
| "executed_log (Log_unknown c) = [c]"
| "executed_log _ = []"

definition executed :: "'s hw_state \<Rightarrow> string list" where
  "executed s = concat (map executed_log (hw_console s))"

fun put_pending :: "receiver_pc \<Rightarrow> string list" where
  "put_pending (Rx_put c) = [c]"
| "put_pending _ = []"

fun dispatch_pending :: "dispatch_pc \<Rightarrow> string list" where
  "dispatch_pending (Disp_lock c) = [c]"
| "dispatch_pending (Disp_execute c) = [c]"
| "dispatch_pending _ = []"

definition waiting :: "'s hw_state \<Rightarrow> string list" where
  "waiting s = dispatch_pending (dispatch_at s) @ command_queue s @ put_pending (receiver_at s)"

fun command_of :: "hw_event \<Rightarrow> string list" where
  "command_of (Line (Some l)) = (if take 63 l = ''idle'' then [] else [take 63 l])"
| "command_of _ = []"

lemma hw_step_commands:
  assumes mq: "msgq_contract mq"
  shows "hw_step mq run e s = Some s' \<Longrightarrow> executed s' @ waiting s' = executed s @ waiting s @ command_of e"
proof (cases e)
  case (Line l)
  assume "hw_step mq run e s = Some s'"
  then show ?thesis
    using Line
    by (cases l) (auto simp: handle_console_input_def mutex_try_def executed_def waiting_def COMMAND_MAX_LEN_def Let_def split: if_splits)
next
  case Receiver_step
  assume "hw_step mq run e s = Some s'"
  then show ?thesis
    using Receiver_step by (auto simp: msgq_case [OF mq] executed_def waiting_def mutex_unlock_def split: receiver_pc.splits if_splits)
next
  case Dispatcher_step
  assume "hw_step mq run e s = Some s'"
  then show ?thesis
    using Dispatcher_step
    by (auto simp: msgq_case [OF mq] executed_def waiting_def mutex_unlock_def mutex_try_def execute_command_def
        split: dispatch_pc.splits list.splits if_splits option.splits)
qed

lemma hw_run_commands:
  assumes mq: "msgq_contract mq"
  shows "hw_run mq run es s = Some s' \<Longrightarrow> executed s' @ waiting s' = executed s @ waiting s @ concat (map command_of es)"
  by (induction es arbitrary: s) (auto dest: hw_step_commands [OF mq] split: option.splits)

text \<open>Who has the mutex: the dispatcher while it executes a command, the receiver at most between its two calls.\<close>

definition mutex_ok :: "'s hw_state \<Rightarrow> bool" where
  "mutex_ok s \<longleftrightarrow> length (command_queue s) \<le> COMMAND_QUEUE_LEN \<and>
     (command_mutex s = Some Dispatcher \<longleftrightarrow> (case dispatch_at s of Disp_execute _ \<Rightarrow> True | Disp_unlock \<Rightarrow> True | _ \<Rightarrow> False)) \<and>
     (command_mutex s = Some Receiver \<longrightarrow> receiver_at s = Rx_unlock)"

lemma mutex_ok_boot: "mutex_ok (hw_boot x)"
  by (simp add: mutex_ok_def hw_boot_def)

lemma mutex_ok_step:
  assumes mq: "msgq_contract mq"
  shows "hw_step mq run e s = Some s' \<Longrightarrow> mutex_ok s \<Longrightarrow> mutex_ok s'"
proof (cases e)
  case (Line l)
  assume "hw_step mq run e s = Some s'" "mutex_ok s"
  then show ?thesis
    using Line
    by (cases l) (auto simp: handle_console_input_def mutex_try_def mutex_ok_def Let_def split: if_splits dispatch_pc.splits)
next
  case Receiver_step
  assume "hw_step mq run e s = Some s'" "mutex_ok s"
  then show ?thesis
    using Receiver_step by (auto simp: msgq_case [OF mq] mutex_ok_def mutex_unlock_def split: receiver_pc.splits dispatch_pc.splits if_splits)
next
  case Dispatcher_step
  assume "hw_step mq run e s = Some s'" "mutex_ok s"
  then show ?thesis
    using Dispatcher_step
    by (auto simp: msgq_case [OF mq] mutex_ok_def mutex_unlock_def mutex_try_def execute_command_def
        split: dispatch_pc.splits list.splits if_splits option.splits)
qed

lemma mutex_ok_run:
  assumes mq: "msgq_contract mq"
  shows "hw_run mq run es s = Some s' \<Longrightarrow> mutex_ok s \<Longrightarrow> mutex_ok s'"
  by (induction es arbitrary: s) (auto dest: mutex_ok_step [OF mq] split: option.splits)

section \<open>Every command is executed\<close>

fun receiver_left :: "receiver_pc \<Rightarrow> nat" where
  "receiver_left Rx_getline = 0"
| "receiver_left Rx_unlock = 1"
| "receiver_left (Rx_put c) = 5"

fun dispatch_left :: "dispatch_pc \<Rightarrow> nat" where
  "dispatch_left Disp_get = 0"
| "dispatch_left (Disp_lock c) = 3"
| "dispatch_left (Disp_execute c) = 2"
| "dispatch_left Disp_unlock = 1"

definition work_left :: "'s hw_state \<Rightarrow> nat" where
  "work_left s = receiver_left (receiver_at s) + 4 * length (command_queue s) + dispatch_left (dispatch_at s)"

definition internal :: "hw_event \<Rightarrow> bool" where
  "internal e \<longleftrightarrow> e = Receiver_step \<or> e = Dispatcher_step"

lemma internal_decreases:
  assumes mq: "msgq_contract mq"
  shows "hw_step mq run e s = Some s' \<Longrightarrow> internal e \<Longrightarrow> work_left s' < work_left s"
  by (auto simp: msgq_case [OF mq] internal_def work_left_def mutex_unlock_def mutex_try_def execute_command_def
      split: receiver_pc.splits dispatch_pc.splits list.splits if_splits option.splits)

lemma internal_bound:
  assumes mq: "msgq_contract mq"
  shows "hw_run mq run es s = Some s' \<Longrightarrow> list_all internal es \<Longrightarrow> length es + work_left s' \<le> work_left s"
proof (induction es arbitrary: s)
  case (Cons e es)
  then obtain s1 where s1: "hw_step mq run e s = Some s1" "hw_run mq run es s1 = Some s'" by (auto split: option.splits)
  then show ?case using internal_decreases [OF mq s1(1)] Cons.IH [OF s1(2)] Cons.prems(2) by simp
qed simp

text \<open>As long as a command waits, one of the threads can go on.\<close>

lemma not_stuck:
  assumes mq: "msgq_contract mq" and ok: "mutex_ok s" and rx_blocked: "hw_step mq run Receiver_step s = None" and dp_blocked: "hw_step mq run Dispatcher_step s = None"
  shows "waiting s = []"
proof (rule ccontr)
  assume w: "waiting s \<noteq> []"
  have rx: "receiver_at s = Rx_getline \<or> (\<exists>c. receiver_at s = Rx_put c \<and> length (command_queue s) = 4)"
    using ok rx_blocked by (auto simp: msgq_case [OF mq] mutex_ok_def COMMAND_QUEUE_LEN_def split: receiver_pc.splits if_splits)
  show False
  proof (cases "dispatch_at s")
    case Disp_get
    then have "command_queue s = []" using dp_blocked by (auto simp: msgq_case [OF mq] split: list.splits)
    then show False using rx w Disp_get by (auto simp: waiting_def)
  next
    case (Disp_lock c)
    then have "command_mutex s \<noteq> None" using dp_blocked by (auto simp: mutex_try_def split: if_splits)
    then have "command_mutex s = Some Receiver" using ok Disp_lock by (auto simp: mutex_ok_def intro: hw_thread.exhaust)
    then show False using ok rx by (auto simp: mutex_ok_def)
  qed (use dp_blocked in auto)
qed

text \<open>The commands of the programs and the tests that they name.\<close>

definition command_tests :: "(string \<times> hw_test) list" where
  "command_tests =
     [(''hwInfo start'', Test_log_hardware_info), (''gpio start'', Test_gpio), (''can start'', Test_can),
      (''lin start'', Test_lin), (''uart start'', Test_uart)]"

definition tests_of :: "string list \<Rightarrow> hw_test list" where
  "tests_of commands = List.map_filter (map_of command_tests) commands"

lemma tests_of_simps [simp]:
  "tests_of [] = []" "tests_of (cs @ ds) = tests_of cs @ tests_of ds"
  "tests_of [c] = (case map_of command_tests c of None \<Rightarrow> [] | Some t \<Rightarrow> [t])"
  by (simp_all add: tests_of_def map_filter_simps map_filter_def split: option.splits)

lemma test_of_eq: "test_of c = map_of command_tests c"
  by (simp add: test_of_def command_tests_def)

text \<open>A step changes what the tests work on by the test of the command that it executes and by nothing else.\<close>

lemma hw_step_tests:
  assumes mq: "msgq_contract mq" and "hw_step mq run e s = Some s'" and "hw_world s = fold run (tests_of (executed s)) x"
  shows "hw_world s' = fold run (tests_of (executed s')) x"
proof (cases e)
  case (Line l)
  then show ?thesis
    using assms(2,3) by (cases l) (auto simp: handle_console_input_def mutex_try_def executed_def Let_def split: if_splits)
next
  case Receiver_step
  then show ?thesis
    using assms(2,3) by (auto simp: msgq_case [OF mq] executed_def mutex_unlock_def split: receiver_pc.splits if_splits)
next
  case Dispatcher_step
  then show ?thesis
    using assms(2,3)
    by (auto simp: msgq_case [OF mq] executed_def mutex_unlock_def mutex_try_def execute_command_def test_of_eq
        split: dispatch_pc.splits list.splits if_splits option.splits)
qed

lemma hw_run_tests:
  assumes mq: "msgq_contract mq"
  shows "hw_run mq run es s = Some s' \<Longrightarrow> hw_world s = fold run (tests_of (executed s)) x \<Longrightarrow>
    hw_world s' = fold run (tests_of (executed s')) x"
  by (induction es arbitrary: s) (auto dest: hw_step_tests [OF mq] split: option.splits)

text \<open>
  (C34) Commands of the hardware test programs are executed once, in the order of the console and none is lost: with a message queue
  that keeps the contract of the kernel, after every interleaving of lines and threads the commands whose execution was logged, the
  one that is being dispatched, the queue and the one that waits for a place in it are together the commands that were
  entered, each cut to 63 characters; the tests that ran are exactly the ones that the logged commands name (the hardware information, GPIO, CAN,
  LIN and UART test), in that order, and an unknown command runs none; the queue holds at most four commands; and a test runs only while the
  dispatcher has the mutex.
\<close>

theorem hw_commands_fifo:
  assumes "msgq_contract mq" and "hw_run mq run es (hw_boot x) = Some s"
  shows "executed s @ waiting s = concat (map command_of es) \<and>
    hw_world s = fold run (List.map_filter (map_of
      [(''hwInfo start'', Test_log_hardware_info), (''gpio start'', Test_gpio), (''can start'', Test_can),
       (''lin start'', Test_lin), (''uart start'', Test_uart)]) (executed s)) x \<and>
    length (command_queue s) \<le> 4 \<and>
    (\<forall>c. dispatch_at s = Disp_execute c \<longrightarrow> command_mutex s = Some Dispatcher)"
proof -
  have boot: "executed (hw_boot x) = []" "waiting (hw_boot x) = []" "hw_world (hw_boot x) = x"
    by (simp_all add: executed_def waiting_def hw_boot_def)
  then have "hw_world s = fold run (tests_of (executed s)) x" using hw_run_tests [OF assms, of x] by simp
  then show ?thesis
    using hw_run_commands [OF assms] boot mutex_ok_run [OF assms mutex_ok_boot]
    by (simp add: mutex_ok_def COMMAND_QUEUE_LEN_def tests_of_def command_tests_def)
qed

text \<open>
  Every command that was entered gets executed: when no line comes in, the threads take at most as many steps as the work
  that is left, and when neither can take another step, all commands have been executed.
\<close>

theorem hw_commands_executed:
  assumes mq: "msgq_contract mq" and run1: "hw_run mq run es (hw_boot x) = Some s" and run2: "hw_run mq run fs s = Some s'" and internals: "list_all internal fs"
  shows "length fs \<le> work_left s \<and>
    (hw_step mq run Receiver_step s' = None \<and> hw_step mq run Dispatcher_step s' = None \<longrightarrow> executed s' = concat (map command_of es))"
proof -
  have ok: "mutex_ok s'" using mutex_ok_run [OF mq run2 mutex_ok_run [OF mq run1 mutex_ok_boot]] .
  have "concat (map command_of fs) = []" using internals by (auto simp: list_all_iff internal_def)
  moreover have "executed (hw_boot x) = []" "waiting (hw_boot x) = []" by (simp_all add: executed_def waiting_def hw_boot_def)
  ultimately have "executed s' @ waiting s' = concat (map command_of es)"
    using hw_run_commands [OF mq run2] hw_run_commands [OF mq run1] by (simp del: concat_eq_Nil_conv)
  then show ?thesis using internal_bound [OF mq run2 internals] not_stuck [OF mq ok, of run] by auto
qed

definition demo_hw_run :: "hw_event list" where
  "demo_hw_run = [Line (Some ''can start''), Receiver_step, Line (Some ''foo''), Receiver_step] @ replicate 4 Dispatcher_step"

definition demo_hw_state :: "hw_test list hw_state" where
  "demo_hw_state = (hw_boot [Test_can])\<lparr>command_queue := [''foo''], hw_console := [Log_start ''can start'', Log_stop ''can start'']\<rparr>"

lemma demo_hw: "hw_run demo_msgq (\<lambda>t x. x @ [t]) demo_hw_run (hw_boot []) = Some demo_hw_state"
  by (simp add: demo_hw_run_def demo_hw_state_def hw_boot_def handle_console_input_def COMMAND_MAX_LEN_def COMMAND_QUEUE_LEN_def Let_def
      demo_msgq_def mutex_try_def mutex_unlock_def execute_command_def test_of_def eval_nat_numeral)

theorem hw_commands_fifo_witness:
  "executed demo_hw_state @ waiting demo_hw_state = [''can start'', ''foo''] \<and>
   hw_world demo_hw_state = fold (\<lambda>t x. x @ [t]) [Test_can] []"
  using hw_commands_fifo [OF demo_msgq_contract demo_hw]
  by (simp add: demo_hw_run_def demo_hw_state_def hw_boot_def executed_def map_filter_simps)

theorem hw_commands_executed_witness:
  "\<exists>s'. hw_run demo_msgq (\<lambda>t x. x @ [t]) (replicate 4 Dispatcher_step) demo_hw_state = Some s' \<and> executed s' = [''can start'', ''foo'']"
proof -
  obtain s' where s': "hw_run demo_msgq (\<lambda>t x. x @ [t]) (replicate 4 Dispatcher_step) demo_hw_state = Some s'" "receiver_at s' = Rx_getline"
      "dispatch_at s' = Disp_get" "command_queue s' = []"
    by (simp add: demo_hw_state_def hw_boot_def demo_msgq_def mutex_try_def mutex_unlock_def execute_command_def test_of_def eval_nat_numeral)
  then show ?thesis
    using hw_commands_executed [OF demo_msgq_contract demo_hw s'(1)]
    by (simp add: demo_hw_run_def internal_def list_all_iff demo_msgq_def)
qed

text \<open>The answer to \<open>idle\<close> tells whether a command holds the mutex; it is true while commands wait in the queue.\<close>

lemma idle_while_commands_wait:
  assumes "command_mutex s = None" and "receiver_at s = Rx_getline"
  shows "\<exists>s'. hw_step mq run (Line (Some ''idle'')) s = Some s' \<and> last (hw_console s') = Log_idle True \<and> command_queue s' = command_queue s"
  using assms by (simp add: handle_console_input_def COMMAND_MAX_LEN_def mutex_try_def Let_def)

section \<open>The identifier of the board\<close>

text \<open>
  \<^verbatim>\<open>log_hardware_info\<close> of both programs (\<^verbatim>\<open>hw_info.c\<close>): \<open>hwinfo_get_device_id\<close> fills the buffer of 60 bytes and returns the length of
  the identifier, or an error, for which the array of characters has no valid size.
\<close>

definition hex_digit :: "nat \<Rightarrow> char" where
  "hex_digit n = ''0123456789ABCDEF'' ! n"

definition hex_byte :: "u8 \<Rightarrow> string" where
  "hex_byte b = [hex_digit (unat b div 16), hex_digit (unat b mod 16)]"

definition log_hardware_info :: "(nat \<Rightarrow> c_int \<times> u8 list) \<Rightarrow> (string, u8 list) outcome" where
  "log_hardware_info hwinfo_get_device_id =
     (case hwinfo_get_device_id 60 of
        (Inl _, _) \<Rightarrow> Undefined
      | (Inr n, hw_info) \<Rightarrow>
          if n > length hw_info then Undefined
          else Returns (concat (map hex_byte (take n hw_info))) (replicate 60 0))"

lemma hex_digit_inj: "m < 16 \<Longrightarrow> n < 16 \<Longrightarrow> hex_digit m = hex_digit n \<Longrightarrow> m = n"
proof -
  have "distinct ''0123456789ABCDEF''" by simp
  then show "m < 16 \<Longrightarrow> n < 16 \<Longrightarrow> hex_digit m = hex_digit n \<Longrightarrow> m = n"
    unfolding hex_digit_def by (subst (asm) nth_eq_iff_index_eq) auto
qed

lemma hex_byte_inj: "hex_byte a = hex_byte b \<Longrightarrow> a = b"
proof -
  assume "hex_byte a = hex_byte b"
  then have "unat a div 16 = unat b div 16" "unat a mod 16 = unat b mod 16"
    using unat_u8_less [of a] unat_u8_less [of b] by (auto simp: hex_byte_def less_mult_imp_div_less intro!: hex_digit_inj simp del: unat_u8_less)
  then have "unat a = unat b" by (metis mod_div_mult_eq)
  then show "a = b" by (rule unsigned_word_eqI)
qed

text \<open>Boards with different identifiers log different lines.\<close>

lemma hex_bytes_inj: "length xs = length ys \<Longrightarrow> concat (map hex_byte xs) = concat (map hex_byte ys) \<Longrightarrow> xs = ys"
proof (induction xs ys rule: list_induct2)
  case (Cons x xs y ys)
  then have "hex_byte x = hex_byte y \<and> concat (map hex_byte xs) = concat (map hex_byte ys)" by (simp add: hex_byte_def)
  then show ?case using Cons.IH hex_byte_inj by simp
qed simp

end
