(* ===== verification/Hw_Gpio.thy ===== *)
theory Hw_Gpio
  imports Prelude
begin

text \<open>
  The GPIO test with two boards that are wired pin to pin: the board under test
  (\<^verbatim>\<open>samples/hardware_test/src/gpio.c\<close>) switches its pins on and off one after the other, and the tester
  (\<^verbatim>\<open>samples/hardware_tester/src/gpio.c\<close>) watches them. Time is in milliseconds and passes in the calls of
  \<^verbatim>\<open>k_msleep\<close>: \<open>sleep ms t\<close> is the time at which a call with \<open>ms\<close> at the time \<open>t\<close> returns, for the clock of a board. \<open>n\<close> is the number
  of pins. The delays have the values of the Kconfig files.
\<close>

section \<open>The board under test\<close>

definition SUT_GPIO_PRE_TEST_DELAY_MS :: nat where "SUT_GPIO_PRE_TEST_DELAY_MS = 300"
definition GPIO_TOGGLE_DELAY_MS :: nat where "GPIO_TOGGLE_DELAY_MS = 10"
definition GPIO_POST_TEST_DELAY_MS :: nat where "GPIO_POST_TEST_DELAY_MS = 100"

text \<open>A change of a pin: when, which pin, and its level.\<close>

type_synonym pin_change = "nat \<times> nat \<times> bool"

definition gpio_initialize :: "nat \<Rightarrow> nat \<Rightarrow> pin_change list" where
  "gpio_initialize n t = map (\<lambda>i. (t, i, False)) [0..<n]"

fun gpio_toggle :: "(nat \<Rightarrow> nat \<Rightarrow> nat) \<Rightarrow> nat list \<Rightarrow> nat \<Rightarrow> pin_change list \<times> nat" where
  "gpio_toggle sleep [] t = ([], t)"
| "gpio_toggle sleep (i # is) t =
     (let t' = sleep GPIO_TOGGLE_DELAY_MS t in
      case gpio_toggle sleep is (sleep GPIO_TOGGLE_DELAY_MS t') of
        (cs, t'') \<Rightarrow> ((t, i, True) # (t', i, False) # cs, t''))"

definition disable_gpios :: "nat \<Rightarrow> nat \<Rightarrow> pin_change list" where
  "disable_gpios n t = map (\<lambda>i. (t, i, False)) [0..<n]"

definition sut_gpio_test :: "(nat \<Rightarrow> nat \<Rightarrow> nat) \<Rightarrow> nat \<Rightarrow> nat \<Rightarrow> pin_change list" where
  "sut_gpio_test sleep n t =
     (case gpio_toggle sleep [0..<n] (sleep SUT_GPIO_PRE_TEST_DELAY_MS t) of
        (cs, t') \<Rightarrow> gpio_initialize n t @ cs @ disable_gpios n (sleep GPIO_POST_TEST_DELAY_MS t'))"

section \<open>The tester\<close>

definition GPIO_PRE_TEST_DELAY_MS :: nat where "GPIO_PRE_TEST_DELAY_MS = 100"
definition GPIO_PIN_CHECK_DELAY_MS :: nat where "GPIO_PIN_CHECK_DELAY_MS = 1"
definition GPIO_PIN_ACTIVE_DELAY_MS :: nat where "GPIO_PIN_ACTIVE_DELAY_MS = 3"
definition GPIO_PIN_TIMEOUT_MS :: u32 where "GPIO_PIN_TIMEOUT_MS = 600"

text \<open>The lines that the tester logs: a pin that did not get active, and a pin that is active while another one is tested.\<close>

datatype pin_error = Not_active nat | Is_active nat

text \<open>
  The loop that waits for a pin, at the time \<open>t\<close>, for \<open>line i t\<close> the level of pin \<open>i\<close>; the clock is a counter of 32
  bits. The result is the time at the end and whether the pin got active.
\<close>

partial_function (option) wait_active ::
  "(nat \<Rightarrow> nat \<Rightarrow> nat) \<Rightarrow> (nat \<Rightarrow> nat \<Rightarrow> bool) \<Rightarrow> nat \<Rightarrow> nat \<Rightarrow> nat \<Rightarrow> (nat \<times> bool) option" where
  "wait_active sleep line i start t =
     (if line i t then Some (t, True)
      else
        let t = sleep GPIO_PIN_CHECK_DELAY_MS t in
        if (of_nat t :: u32) - of_nat start > GPIO_PIN_TIMEOUT_MS then Some (t, False) else wait_active sleep line i start t)"

definition test_pin :: "(nat \<Rightarrow> nat \<Rightarrow> nat) \<Rightarrow> (nat \<Rightarrow> nat \<Rightarrow> bool) \<Rightarrow> nat \<Rightarrow> nat \<Rightarrow> nat \<Rightarrow> (pin_error list \<times> nat) option" where
  "test_pin sleep line n i t =
     (case wait_active sleep line i t t of
        None \<Rightarrow> None
      | Some (t, active) \<Rightarrow>
          let t = sleep GPIO_PIN_ACTIVE_DELAY_MS t in
          Some ((if active then [] else [Not_active i]) @ map Is_active (filter (\<lambda>j. j \<noteq> i \<and> line j t) [0..<n]), t))"

fun execute_test ::
  "(nat \<Rightarrow> nat \<Rightarrow> nat) \<Rightarrow> (nat \<Rightarrow> nat \<Rightarrow> bool) \<Rightarrow> nat \<Rightarrow> nat list \<Rightarrow> nat \<Rightarrow> (pin_error list \<times> nat) option" where
  "execute_test sleep line n [] t = Some ([], t)"
| "execute_test sleep line n (i # is) t =
     (case test_pin sleep line n i t of
        None \<Rightarrow> None
      | Some (es, t) \<Rightarrow> (case execute_test sleep line n is t of None \<Rightarrow> None | Some (es', t) \<Rightarrow> Some (es @ es', t)))"

definition tester_gpio_test :: "(nat \<Rightarrow> nat \<Rightarrow> nat) \<Rightarrow> (nat \<Rightarrow> nat \<Rightarrow> bool) \<Rightarrow> nat \<Rightarrow> nat \<Rightarrow> (pin_error list \<times> nat) option" where
  "tester_gpio_test sleep line n t = execute_test sleep line n [0..<n] (sleep GPIO_PRE_TEST_DELAY_MS t)"

section \<open>Clocks\<close>

text \<open>A board that sleeps sleeps at least as long as it asked for, and at most \<open>J\<close> milliseconds longer.\<close>

definition sleeps :: "nat \<Rightarrow> (nat \<Rightarrow> nat \<Rightarrow> nat) \<Rightarrow> bool" where
  "sleeps J sleep \<longleftrightarrow> (\<forall>ms t. t + ms \<le> sleep ms t \<and> sleep ms t \<le> t + ms + J)"

lemma sleepsD: "sleeps J sleep \<Longrightarrow> t + ms \<le> sleep ms t" "sleeps J sleep \<Longrightarrow> sleep ms t \<le> t + ms + J"
  by (simp_all add: sleeps_def)

lemma timed_out: "start \<le> t \<Longrightarrow> t - start < 2 ^ 32 \<Longrightarrow> (of_nat t :: u32) - of_nat start > GPIO_PIN_TIMEOUT_MS \<longleftrightarrow> t > start + 600"
proof -
  assume "start \<le> t" and less: "t - start < 2 ^ 32"
  then obtain e where t: "t = start + e" using le_Suc_ex by blast
  then have "unat (of_nat e :: u32) = e" using less by (intro unat_of_nat_u32) simp
  moreover have "(of_nat (start + e) :: u32) - of_nat start = of_nat e" by simp
  ultimately show ?thesis unfolding t by (simp add: word_less_nat_alt GPIO_PIN_TIMEOUT_MS_def)
qed

section \<open>The tester always ends\<close>

lemma wait_active_ends:
  assumes k: "sleeps J sleep" and J: "J < 2 ^ 31"
  shows "start \<le> t \<Longrightarrow> t \<le> start + 600 \<Longrightarrow>
    \<exists>s b. wait_active sleep line i start t = Some (s, b) \<and> t \<le> s \<and> s \<le> start + 601 + J \<and> (b \<longrightarrow> line i s)"
proof (induction "start + 600 - t" arbitrary: t rule: less_induct)
  case less
  note unfold = wait_active.simps [of sleep line i start t]
  define t' where "t' = sleep GPIO_PIN_CHECK_DELAY_MS t"
  have t': "t + 1 \<le> t'" "t' \<le> t + 1 + J" using sleepsD(1) [OF k, of t 1] sleepsD(2) [OF k, of 1 t] by (simp_all add: t'_def GPIO_PIN_CHECK_DELAY_MS_def)
  then have late: "(of_nat t' :: u32) - of_nat start > GPIO_PIN_TIMEOUT_MS \<longleftrightarrow> t' > start + 600"
    using less.prems J by (intro timed_out) auto
  show ?case
  proof (cases "line i t")
    case True
    then show ?thesis using unfold less.prems by auto
  next
    case low: False
    show ?thesis
    proof (cases "t' > start + 600")
      case True
      then have "wait_active sleep line i start t = Some (t', False)" using unfold low late by (simp add: t'_def)
      then show ?thesis using t' less.prems by auto
    next
      case False
      then have "wait_active sleep line i start t = wait_active sleep line i start t'" using unfold low late by (simp add: t'_def)
      moreover have "\<exists>s b. wait_active sleep line i start t' = Some (s, b) \<and> t' \<le> s \<and> s \<le> start + 601 + J \<and> (b \<longrightarrow> line i s)"
        using False t' less.prems by (intro less.hyps) auto
      ultimately show ?thesis using t'(1) by auto
    qed
  qed
qed

definition pin_seen :: "(nat \<Rightarrow> nat \<Rightarrow> bool) \<Rightarrow> nat \<Rightarrow> nat \<Rightarrow> nat \<Rightarrow> nat \<Rightarrow> bool" where
  "pin_seen line n i s s' \<longleftrightarrow> line i s \<and> s + 3 \<le> s' \<and> (\<forall>j < n. j \<noteq> i \<longrightarrow> \<not> line j s')"

lemma test_pin_ends:
  assumes "sleeps J sleep" and "J < 2 ^ 31"
  shows "\<exists>es t'. test_pin sleep line n i t = Some (es, t') \<and> t \<le> t' \<and> t' \<le> t + 604 + 2 * J \<and>
    (es = [] \<longrightarrow> (\<exists>s s'. t \<le> s \<and> pin_seen line n i s s'))"
proof -
  obtain s b where w: "wait_active sleep line i t t = Some (s, b)" "t \<le> s" "s \<le> t + 601 + J" "b \<longrightarrow> line i s"
    using wait_active_ends [OF assms, of t t line i] by auto
  define s' where "s' = sleep 3 s"
  have s': "s + 3 \<le> s'" "s' \<le> s + 3 + J" using sleepsD [OF assms(1)] by (simp_all add: s'_def)
  define es where "es = (if b then [] else [Not_active i]) @ map Is_active (filter (\<lambda>j. j \<noteq> i \<and> line j s') [0..<n])"
  have "test_pin sleep line n i t = Some (es, s')" by (simp add: test_pin_def w(1) GPIO_PIN_ACTIVE_DELAY_MS_def Let_def es_def s'_def)
  moreover have "pin_seen line n i s s'" if "es = []"
    using that w(4) s' by (auto simp: es_def pin_seen_def filter_empty_conv split: if_splits)
  ultimately show ?thesis using w(2,3) s' by fastforce
qed

lemma execute_test_ends:
  assumes "sleeps J sleep" and "J < 2 ^ 31"
  shows "\<exists>es t'. execute_test sleep line n is t = Some (es, t') \<and> t' \<le> t + (604 + 2 * J) * length is \<and>
    (es = [] \<longrightarrow> (\<forall>i \<in> set is. \<exists>s s'. t \<le> s \<and> pin_seen line n i s s'))"
proof (induction "is" arbitrary: t)
  case (Cons i "is")
  obtain es t1 where p: "test_pin sleep line n i t = Some (es, t1)" "t \<le> t1" "t1 \<le> t + 604 + 2 * J"
      "es = [] \<longrightarrow> (\<exists>s s'. t \<le> s \<and> pin_seen line n i s s')"
    using test_pin_ends [OF assms, of line n i t] by blast
  obtain es' t' where "execute_test sleep line n is t1 = Some (es', t')" "t' \<le> t1 + (604 + 2 * J) * length is"
      "es' = [] \<longrightarrow> (\<forall>i \<in> set is. \<exists>s s'. t1 \<le> s \<and> pin_seen line n i s s')"
    using Cons.IH by blast
  moreover from this(3) have "es' = [] \<longrightarrow> (\<forall>i \<in> set is. \<exists>s s'. t \<le> s \<and> pin_seen line n i s s')" using p(2) by (meson order_trans)
  ultimately show ?case using p by auto
qed simp

section \<open>The wave of the board under test\<close>

text \<open>
  The level of a pin after the changes up to a time. Before the board under test drives a line for the first time, the line has
  any level \<open>undriven\<close>: high with the pull-ups that \<^verbatim>\<open>boards/ardep.overlay\<close> of the tester configures.
\<close>

definition change :: "nat \<Rightarrow> nat \<Rightarrow> pin_change \<Rightarrow> bool \<Rightarrow> bool" where
  "change p \<tau> c l = (if fst (snd c) = p \<and> fst c \<le> \<tau> then snd (snd c) else l)"

lemma change_apply [simp]: "change p \<tau> (t, q, v) l = (if q = p \<and> t \<le> \<tau> then v else l)"
  by (simp add: change_def)

definition wave :: "(nat \<Rightarrow> bool) \<Rightarrow> pin_change list \<Rightarrow> nat \<Rightarrow> nat \<Rightarrow> bool" where
  "wave undriven cs p \<tau> = fold (change p \<tau>) cs (undriven p)"

text \<open>When pin \<open>i\<close> is switched on, for a wave that begins at \<open>t\<close>.\<close>

fun pin_on :: "(nat \<Rightarrow> nat \<Rightarrow> nat) \<Rightarrow> nat \<Rightarrow> nat \<Rightarrow> nat" where
  "pin_on sleep t 0 = t"
| "pin_on sleep t (Suc i) = sleep 10 (sleep 10 (pin_on sleep t i))"

definition pin_off :: "(nat \<Rightarrow> nat \<Rightarrow> nat) \<Rightarrow> nat \<Rightarrow> nat \<Rightarrow> nat" where
  "pin_off sleep t i = sleep 10 (pin_on sleep t i)"

lemma pin_times:
  assumes "sleeps J sleep"
  shows "pin_on sleep t i + 10 \<le> pin_off sleep t i" and "pin_off sleep t i + 10 \<le> pin_on sleep t (Suc i)"
    and "pin_on sleep t (Suc i) \<le> pin_on sleep t i + 20 + 2 * J"
  using sleepsD(1) [OF assms, of "pin_on sleep t i" 10] sleepsD(1) [OF assms, of "sleep 10 (pin_on sleep t i)" 10]
    sleepsD(2) [OF assms, of 10 "pin_on sleep t i"] sleepsD(2) [OF assms, of 10 "sleep 10 (pin_on sleep t i)"]
  by (simp_all add: pin_off_def)

lemma pin_order:
  assumes "sleeps J sleep" and "i < j"
  shows "pin_off sleep t i + 10 \<le> pin_on sleep t j"
  using assms(2)
proof (induction j)
  case (Suc j)
  then show ?case using pin_times [OF assms(1), of t j] pin_times(2) [OF assms(1), of t i] by (cases "i = j") auto
qed simp

lemma toggle_Cons:
  "fst (gpio_toggle sleep (i # is) t) = (t, i, True) # (sleep 10 t, i, False) # fst (gpio_toggle sleep is (sleep 10 (sleep 10 t)))"
  by (simp add: GPIO_TOGGLE_DELAY_MS_def Let_def split: prod.splits)

lemma toggle_end: "snd (gpio_toggle sleep [a..<n] (pin_on sleep t a)) = pin_on sleep t (max a n)"
proof (induction "n - a" arbitrary: a)
  case (Suc k)
  then have "[a..<n] = a # [Suc a..<n]" "max (Suc a) n = max a n" by (simp_all add: upt_conv_Cons)
  then show ?case using Suc.hyps(1) [of "Suc a"] Suc.hyps(2) by (simp add: GPIO_TOGGLE_DELAY_MS_def Let_def split_beta)
qed simp

lemma fold_low: "\<forall>c \<in> set cs. \<not> snd (snd c) \<Longrightarrow> fold (change p \<tau>) cs False = False"
proof (induction cs)
  case (Cons c cs)
  then have "change p \<tau> c False = False" by (auto simp: change_def)
  then show ?case using Cons by simp
qed simp

lemma fold_late: "\<forall>c \<in> set cs. \<not> fst c \<le> \<tau> \<Longrightarrow> fold (change p \<tau>) cs l = l"
proof (induction cs)
  case (Cons c cs)
  then have "change p \<tau> c l = l" by (auto simp: change_def)
  then show ?case using Cons by simp
qed simp

lemma toggle_other: "p \<notin> set is \<Longrightarrow> fold (change p \<tau>) (fst (gpio_toggle sleep is t)) l = l"
  by (induction "is" arbitrary: t) (simp_all add: toggle_Cons del: gpio_toggle.simps(2))

lemma initialize_low: "p < n \<Longrightarrow> t \<le> \<tau> \<Longrightarrow> fold (change p \<tau>) (gpio_initialize n t) l = False"
proof (induction n)
  case (Suc n)
  then show ?case by (cases "p = n") (auto simp: gpio_initialize_def)
qed simp

lemma toggle_wave:
  assumes "sleeps J sleep" and "a \<le> p" and "p < n"
  shows "fold (change p \<tau>) (fst (gpio_toggle sleep [a..<n] (pin_on sleep t a))) False \<longleftrightarrow> pin_on sleep t p \<le> \<tau> \<and> \<tau> < pin_off sleep t p"
  using assms(2,3)
proof (induction "p - a" arbitrary: a)
  case 0
  then have a: "a = p" and l: "[a..<n] = a # [Suc a..<n]" by (simp_all add: upt_conv_Cons)
  have "fold (change p \<tau>) (fst (gpio_toggle sleep [Suc a..<n] u)) l = l" for u l using a by (intro toggle_other) simp
  moreover have "pin_on sleep t p \<le> pin_off sleep t p" using pin_times(1) [OF assms(1), of t p] by simp
  ultimately show ?case unfolding l toggle_Cons(1) using a by (auto simp: pin_off_def)
next
  case (Suc k)
  then have l: "[a..<n] = a # [Suc a..<n]" by (simp add: upt_conv_Cons)
  have "fold (change p \<tau>) (fst (gpio_toggle sleep [Suc a..<n] (pin_on sleep t (Suc a)))) False \<longleftrightarrow>
      pin_on sleep t p \<le> \<tau> \<and> \<tau> < pin_off sleep t p"
    using Suc by (intro Suc.hyps) auto
  moreover have "a \<noteq> p" using Suc by auto
  ultimately show ?case unfolding l toggle_Cons(1) by simp
qed

lemma sut_wave:
  assumes "sleeps J sleep" and "p < n" and "T \<le> \<tau>"
  shows "wave undriven (sut_gpio_test sleep n T) p \<tau> \<longleftrightarrow>
    pin_on sleep (sleep 300 T) p \<le> \<tau> \<and> \<tau> < pin_off sleep (sleep 300 T) p"
proof -
  define S where "S = sleep 300 T"
  define l where "l = fold (change p \<tau>) (fst (gpio_toggle sleep [0..<n] S)) False"
  have l: "l \<longleftrightarrow> pin_on sleep S p \<le> \<tau> \<and> \<tau> < pin_off sleep S p"
    using toggle_wave [OF assms(1), of 0 p n \<tau> S] assms(2) by (simp add: l_def)
  define D where "D = sleep 100 (pin_on sleep S n)"
  have "fold (change p \<tau>) (disable_gpios n D) l = l"
  proof (cases l)
    case True
    then have "\<tau> < D"
      using l pin_order [OF assms(1,2), of S] sleepsD(1) [OF assms(1), of "pin_on sleep S n" 100] by (simp add: D_def)
    then show ?thesis by (intro fold_late) (simp add: disable_gpios_def)
  next
    case False
    moreover have "fold (change p \<tau>) (disable_gpios n D) False = False" by (rule fold_low) (simp add: disable_gpios_def)
    ultimately show ?thesis by simp
  qed
  moreover have "sut_gpio_test sleep n T = gpio_initialize n T @ fst (gpio_toggle sleep [0..<n] S) @ disable_gpios n D"
    using toggle_end [of sleep 0 n S]
    by (simp add: sut_gpio_test_def S_def D_def SUT_GPIO_PRE_TEST_DELAY_MS_def GPIO_POST_TEST_DELAY_MS_def split_beta del: gpio_toggle.simps)
  ultimately show ?thesis using l initialize_low [OF assms(2,3)] by (simp add: wave_def l_def S_def)
qed

section \<open>The test of two boards\<close>

text \<open>A pin that is active from \<open>on\<close> to \<open>off\<close> is seen soon after it gets active.\<close>

lemma wait_active_seen:
  assumes k: "sleeps J sleep" and J: "J \<le> 7" and line: "\<And>\<tau>. start \<le> \<tau> \<Longrightarrow> line i \<tau> \<longleftrightarrow> on \<le> \<tau> \<and> \<tau> < off"
    and off: "on + J < off" and reach: "on + J \<le> start + 600"
  shows "start \<le> t \<Longrightarrow> t < off \<Longrightarrow>
    \<exists>s. wait_active sleep line i start t = Some (s, True) \<and> t \<le> s \<and> on \<le> s \<and> s \<le> max t (on + J)"
proof (induction "on - t" arbitrary: t rule: less_induct)
  case less
  note unfold = wait_active.simps [of sleep line i start t]
  show ?case
  proof (cases "on \<le> t")
    case True
    then show ?thesis using unfold less.prems line by auto
  next
    case False
    define t' where "t' = sleep GPIO_PIN_CHECK_DELAY_MS t"
    have t': "t + 1 \<le> t'" "t' \<le> on + J" using sleepsD(1) [OF k, of t 1] sleepsD(2) [OF k, of 1 t] False
      by (simp_all add: t'_def GPIO_PIN_CHECK_DELAY_MS_def)
    have "\<not> (of_nat t' :: u32) - of_nat start > GPIO_PIN_TIMEOUT_MS"
      using timed_out [of start t'] t' reach less.prems by simp
    moreover have "\<not> line i t" using False line less.prems by simp
    ultimately have "wait_active sleep line i start t = wait_active sleep line i start t'" using unfold by (simp add: t'_def Let_def)
    moreover have "\<exists>s. wait_active sleep line i start t' = Some (s, True) \<and> t' \<le> s \<and> on \<le> s \<and> s \<le> max t' (on + J)"
      using False t' off less.prems by (intro less.hyps) auto
    ultimately show ?thesis using t' by (auto simp: max_def split: if_splits)
  qed
qed

lemma test_pin_clean:
  assumes k: "sleeps J sleep" "sleeps J sleep'" and J: "J \<le> 7" and T: "T \<le> t"
    and line: "\<And>j \<tau>. j < n \<Longrightarrow> T \<le> \<tau> \<Longrightarrow> line j \<tau> \<longleftrightarrow> pin_on sleep' S j \<le> \<tau> \<and> \<tau> < pin_off sleep' S j"
    and "a < n" and "t < pin_on sleep' S a + 10" and "pin_on sleep' S a + J \<le> t + 600"
  shows "\<exists>t'. test_pin sleep line n a t = Some ([], t') \<and> t \<le> t' \<and> t' < pin_on sleep' S (Suc a) + 10 \<and> pin_on sleep' S (Suc a) + J \<le> t' + 600"
proof -
  note times = pin_times [OF k(2), of S a]
  obtain s where w: "wait_active sleep line a t t = Some (s, True)" "t \<le> s" "pin_on sleep' S a \<le> s" "s \<le> max t (pin_on sleep' S a + J)"
    using wait_active_seen [OF k(1) J, of t line a "pin_on sleep' S a" "pin_off sleep' S a" t] line [OF assms(6)] T assms(7,8) J times(1) by auto
  define s' where "s' = sleep 3 s"
  have s': "s + 3 \<le> s'" "s' < pin_on sleep' S a + 20"
    using sleepsD(1) [OF k(1), of s 3] sleepsD(2) [OF k(1), of 3 s] w(4) assms(7) J by (auto simp: s'_def)
  have "\<not> line j s'" if "j < n" "j \<noteq> a" for j
  proof (cases "j < a")
    case True
    then show ?thesis using pin_order [OF k(2) True, of S] line [OF that(1), of s'] w(2,3) s' T by simp
  next
    case False
    then have "a < j" using that by simp
    then show ?thesis using pin_order [OF k(2), of a j S] line [OF that(1), of s'] times(1) w(2) s' T by simp
  qed
  then have "filter (\<lambda>j. j \<noteq> a \<and> line j s') [0..<n] = []" by (auto simp: filter_empty_conv)
  then have "test_pin sleep line n a t = Some ([], s')"
    using w(1) by (simp add: test_pin_def GPIO_PIN_ACTIVE_DELAY_MS_def Let_def s'_def [symmetric])
  then show ?thesis using s' w(2,3) times J by (intro exI [of _ s']) simp
qed

lemma execute_test_clean:
  assumes k: "sleeps J sleep" "sleeps J sleep'" and J: "J \<le> 7"
    and line: "\<And>j \<tau>. j < n \<Longrightarrow> T \<le> \<tau> \<Longrightarrow> line j \<tau> \<longleftrightarrow> pin_on sleep' S j \<le> \<tau> \<and> \<tau> < pin_off sleep' S j"
    and "T \<le> t" and "t < pin_on sleep' S a + 10" and "pin_on sleep' S a + J \<le> t + 600"
  shows "\<exists>t'. execute_test sleep line n [a..<n] t = Some ([], t')"
  using assms(5-7)
proof (induction "n - a" arbitrary: a t)
  case (Suc d)
  then have l: "[a..<n] = a # [Suc a..<n]" and a: "a < n" by (simp_all add: upt_conv_Cons)
  obtain t' where p: "test_pin sleep line n a t = Some ([], t')" "t \<le> t'" "t' < pin_on sleep' S (Suc a) + 10"
      "pin_on sleep' S (Suc a) + J \<le> t' + 600"
    using test_pin_clean [OF k J Suc.prems(1) line a Suc.prems(2,3)] by blast
  have "\<exists>t''. execute_test sleep line n [Suc a..<n] t' = Some ([], t'')"
    using Suc.hyps(2) Suc.prems(1) p(2-4) by (intro Suc.hyps(1)) auto
  then show ?case using p(1) by (auto simp: l)
qed simp

text \<open>
  (C35) Two boards that are wired pin to pin pass the GPIO test. The tester starts at \<open>t\<close> and the board under test at \<open>T\<close>, at most 100
  milliseconds after it, so that it drives its pins before the tester looks at them, and less than \<open>210 - J\<close> milliseconds before it; each
  sleep of either board may last up to \<open>J\<close> milliseconds longer than it should, for \<open>J\<close> up to seven. Then every pin is
  seen and no error is logged, for any number of pins and whatever the levels of the lines are before they are driven.
\<close>

theorem gpio_test_passes:
  assumes "sleeps J sleep" and "sleeps J sleep'" and "J \<le> 7" and "T \<le> t + 100" and "t + J < T + 210"
  shows "\<exists>t'. tester_gpio_test sleep (wave undriven (sut_gpio_test sleep' n T)) n t = Some ([], t')"
proof -
  have "t + 100 \<le> sleep 100 t" "sleep 100 t \<le> t + 100 + J" "T + 300 \<le> sleep' 300 T" "sleep' 300 T \<le> T + 300 + J"
    using sleepsD [OF assms(1)] sleepsD [OF assms(2)] by simp_all
  then show ?thesis
    unfolding tester_gpio_test_def GPIO_PRE_TEST_DELAY_MS_def
    using assms(3-5) by (intro execute_test_clean [OF assms(1-3), of n T _ "sleep' 300 T"] sut_wave [OF assms(2)]) auto
qed

text \<open>A tester that sleeps two milliseconds longer each time, a board under test with an exact clock, and lines that are pulled up.\<close>

theorem gpio_test_passes_witness:
  "\<exists>t'. tester_gpio_test (\<lambda>ms t. t + ms + 2) (wave (\<lambda>_. True) (sut_gpio_test (\<lambda>ms t. t + ms) 3 1100)) 3 1000 = Some ([], t')"
  by (rule gpio_test_passes [where J = 2]) (simp_all add: sleeps_def)

text \<open>
  Where the board under test starts too late, the pull-ups make the test fail: when no line is driven yet while the first pin is
  tested, all of them are high, and each of the others is logged as active.
\<close>

lemma undriven_pins_reported:
  assumes "\<forall>j < n. line j t \<and> line j (sleep 3 t)" and "0 < n"
  shows "test_pin sleep line n 0 t = Some (map Is_active [1..<n], sleep 3 t)"
proof -
  have "wait_active sleep line 0 t t = Some (t, True)" using assms by (simp add: wait_active.simps)
  moreover have "filter (\<lambda>j. j \<noteq> 0 \<and> line j (sleep 3 t)) [0..<n] = filter (\<lambda>j. j \<noteq> 0) [0..<n]" using assms(1) by (intro filter_cong) auto
  moreover have "[0..<n] = 0 # [1..<n]" using assms(2) by (simp add: upt_conv_Cons)
  moreover have "filter (\<lambda>j. j \<noteq> 0) [1..<n] = [1..<n]" by (auto simp: filter_id_conv)
  ultimately show ?thesis by (simp add: test_pin_def GPIO_PIN_ACTIVE_DELAY_MS_def Let_def)
qed

text \<open>
  The GPIO test ends and finds faults, whatever the levels on the lines are: if each sleep lasts at most \<open>J\<close> milliseconds longer than
  it should, the test takes at most \<open>604 + 2 J\<close> milliseconds for a pin, and if it logs no error, every pin was active at some
  time and 3 milliseconds or more later no other pin was.
\<close>

theorem gpio_test_finds_faults:
  assumes "sleeps J sleep" and "J < 2 ^ 31"
  shows "\<exists>es t'. tester_gpio_test sleep line n t = Some (es, t') \<and> t' \<le> t + 100 + J + (604 + 2 * J) * n \<and>
    (es = [] \<longrightarrow> (\<forall>i < n. \<exists>s s'. t \<le> s \<and> pin_seen line n i s s'))"
proof -
  have t: "t \<le> sleep 100 t" "sleep 100 t \<le> t + 100 + J" using sleepsD(1) [OF assms(1), of t 100] sleepsD(2) [OF assms(1), of 100 t] by simp_all
  obtain es t' where e: "execute_test sleep line n [0..<n] (sleep 100 t) = Some (es, t')" "t' \<le> sleep 100 t + (604 + 2 * J) * n"
      "es = [] \<longrightarrow> (\<forall>i < n. \<exists>s s'. sleep 100 t \<le> s \<and> pin_seen line n i s s')"
    using execute_test_ends [OF assms, of line n "[0..<n]" "sleep 100 t"] by auto
  then have "es = [] \<longrightarrow> (\<forall>i < n. \<exists>s s'. t \<le> s \<and> pin_seen line n i s s')" using t(1) by (meson order_trans)
  then show ?thesis using e(1,2) t(2) by (simp add: tester_gpio_test_def GPIO_PRE_TEST_DELAY_MS_def)
qed

text \<open>A pin that is not connected, or shorted to another one, is reported.\<close>

theorem gpio_test_finds_faults_witness:
  "\<exists>es t'. tester_gpio_test (\<lambda>ms t. t + ms) (\<lambda>i t. i = 0) 2 0 = Some (es, t') \<and> es \<noteq> []"
proof -
  let ?l = "\<lambda>i (t :: nat). i = (0 :: nat)"
  have "\<not> pin_seen ?l 2 1 s s'" for s s' by (simp add: pin_seen_def)
  then have none: "\<not> (\<forall>i < 2. \<exists>s s'. 0 \<le> s \<and> pin_seen ?l 2 i s s')" by (metis one_less_numeral_iff semiring_norm(76))
  have "\<exists>es t'. tester_gpio_test (\<lambda>ms t. t + ms) ?l 2 0 = Some (es, t') \<and> t' \<le> 0 + 100 + 0 + (604 + 2 * 0) * 2 \<and>
      (es = [] \<longrightarrow> (\<forall>i < 2. \<exists>s s'. 0 \<le> s \<and> pin_seen ?l 2 i s s'))"
    by (rule gpio_test_finds_faults) (simp_all add: sleeps_def)
  then obtain es t' where "tester_gpio_test (\<lambda>ms t. t + ms) ?l 2 0 = Some (es, t')" "es = [] \<longrightarrow> (\<forall>i < 2. \<exists>s s'. 0 \<le> s \<and> pin_seen ?l 2 i s s')"
    by (elim exE conjE) (rule that)
  then show ?thesis using none by metis
qed

end
