(* ===== verification/Abstract_Lin.thy ===== *)
theory Abstract_Lin
  imports Registry
begin

text \<open>
  The abstract LIN driver (\<^verbatim>\<open>drivers/lin/abstract_lin/abstract_lin.c\<close>): a table of callbacks for frame
  ids, consulted when a header or a frame arrives on the bus and when the commander schedules a frame.
  The table is an array of fixed size of which the first \<open>used_callbacks\<close> entries count. The LIN bus and
  the callbacks are arguments. \<open>'i\<close> and \<open>'o\<close> are the incoming and outgoing callbacks, \<open>'p\<close> their user data.
\<close>

section \<open>Data\<close>

datatype lin_checksum = LIN_CHECKSUM_AUTO | LIN_CHECKSUM_other nat

record lin_frame =
  lf_id :: u8
  lf_len :: u8
  lf_type :: lin_checksum
  lf_data :: "u8 list"

datatype lin_action = LIN_ACTION_NONE | LIN_ACTION_RECEIVE | LIN_ACTION_SEND
datatype lin_mode = LIN_MODE_COMMANDER | LIN_MODE_RESPONDER

datatype ('i, 'o) lin_callback = INCOMING 'i | OUTGOING 'o

record ('i, 'o, 'p) abstract_lin_callback_entry_t =
  cb_frame_id :: u8
  cb_frame_size :: u8
  cb_callback :: "('i, 'o) lin_callback"
  cb_user_data :: 'p

record ('i, 'o, 'p) abstract_lin_data =
  callbacks :: "('i, 'o, 'p) abstract_lin_callback_entry_t list"
  used_callbacks :: nat

text \<open>An outgoing callback fills the frame and says whether it is to be sent; \<open>'w\<close> is the state of the callbacks.\<close>

record ('i, 'o, 'p, 'w) lin_callbacks =
  call_incoming :: "'i \<Rightarrow> lin_frame \<Rightarrow> 'p \<Rightarrow> 'w \<Rightarrow> (unit, 'w) outcome"
  call_outgoing :: "'o \<Rightarrow> lin_frame \<Rightarrow> 'p \<Rightarrow> 'w \<Rightarrow> (bool \<times> lin_frame, 'w) outcome"

record 'b lin_bus_ops =
  lin_receive :: "u8 \<Rightarrow> lin_checksum \<Rightarrow> u8 \<Rightarrow> 'b \<Rightarrow> c_int \<times> 'b"
  lin_send :: "lin_frame \<Rightarrow> 'b \<Rightarrow> c_int \<times> 'b"
  lin_set_mode :: "lin_mode \<Rightarrow> 'b \<Rightarrow> c_int \<times> 'b"
  lin_set_header_callback :: "'b \<Rightarrow> c_int \<times> 'b"
  lin_set_rx_callback :: "'b \<Rightarrow> c_int \<times> 'b"

section \<open>Operations\<close>

text \<open>The loops over the entries in use, from index \<open>i\<close> on: the first entry with a frame id.\<close>

function find_frame :: "u8 \<Rightarrow> ('i, 'o, 'p) abstract_lin_data \<Rightarrow> nat \<Rightarrow> nat option" where
  "find_frame k d i =
     (if i < used_callbacks d
      then if cb_frame_id (callbacks d ! i) = k then Some i else find_frame k d (Suc i)
      else None)"
  by pat_completeness auto
termination by (relation "measure (\<lambda>(k, d, i). used_callbacks d - i)") auto

declare find_frame.simps [simp del]

definition lin_header_callback ::
  "('i, 'o, 'p, 'w) lin_callbacks \<Rightarrow> ('i, 'o, 'p) abstract_lin_data \<Rightarrow> lin_frame \<Rightarrow> 'w \<Rightarrow> (lin_action \<times> lin_frame, 'w) outcome" where
  "lin_header_callback cbs d frame w =
     (case find_frame (lf_id frame) d 0 of
        None \<Rightarrow> Returns (LIN_ACTION_NONE, frame) w
      | Some i \<Rightarrow>
          (let cb = callbacks d ! i; frame = frame\<lparr>lf_len := cb_frame_size cb, lf_type := LIN_CHECKSUM_AUTO\<rparr> in
           case cb_callback cb of
             INCOMING _ \<Rightarrow> Returns (LIN_ACTION_RECEIVE, frame) w
           | OUTGOING f \<Rightarrow>
               obind (call_outgoing cbs f frame (cb_user_data cb) w) (\<lambda>(res, frame) w.
               Returns (if res then LIN_ACTION_SEND else LIN_ACTION_NONE, frame\<lparr>lf_len := cb_frame_size cb\<rparr>) w)))"

text \<open>The loop of the receive callback does not stop at the first entry; a failed assertion is undefined.\<close>

function rx_from ::
  "('i, 'o, 'p, 'w) lin_callbacks \<Rightarrow> ('i, 'o, 'p) abstract_lin_data \<Rightarrow> lin_frame \<Rightarrow> nat \<Rightarrow> 'w \<Rightarrow> (unit, 'w) outcome" where
  "rx_from cbs d frame i w =
     (if i < used_callbacks d then
        let cb = callbacks d ! i in
        case cb_callback cb of
          OUTGOING _ \<Rightarrow> rx_from cbs d frame (Suc i) w
        | INCOMING f \<Rightarrow>
            if cb_frame_id cb \<noteq> lf_id frame then rx_from cbs d frame (Suc i) w
            else if cb_frame_size cb \<noteq> lf_len frame then Undefined
            else obind (call_incoming cbs f frame (cb_user_data cb) w) (\<lambda>_ w. rx_from cbs d frame (Suc i) w)
      else Returns () w)"
  by pat_completeness auto
termination by (relation "measure (\<lambda>(cbs, d, f, i, w). used_callbacks d - i)") auto

declare rx_from.simps [simp del]

definition lin_rx_callback ::
  "('i, 'o, 'p, 'w) lin_callbacks \<Rightarrow> ('i, 'o, 'p) abstract_lin_data \<Rightarrow> bool \<Rightarrow> lin_frame \<Rightarrow> 'w \<Rightarrow> (unit, 'w) outcome" where
  "lin_rx_callback cbs d err frame w = (if err then Returns () w else rx_from cbs d frame 0 w)"

text \<open>\<open>n\<close> is \<^verbatim>\<open>CONFIG_ABSTRACT_LIN_MAX_FRAME_COUNT\<close>; the flag says whether the output pointer is null.\<close>

definition al_get_free_cb_slots :: "nat \<Rightarrow> bool \<Rightarrow> ('i, 'o, 'p) abstract_lin_data \<Rightarrow> c_int \<times> u8 option" where
  "al_get_free_cb_slots n null d =
     (if null then (Inl EINVAL, None) else (rc0, Some (of_nat n - of_nat (used_callbacks d))))"

definition allocate_callback :: "nat \<Rightarrow> u8 \<Rightarrow> ('i, 'o, 'p) abstract_lin_data \<Rightarrow> c_int \<times> ('i, 'o, 'p) abstract_lin_data" where
  "allocate_callback n frame_id d =
     (if used_callbacks d \<ge> n then (Inl ENOSPC, d)
      else case find_frame frame_id d 0 of
             Some _ \<Rightarrow> (Inl EEXIST, d)
           | None \<Rightarrow> (Inr (used_callbacks d), d\<lparr>used_callbacks := Suc (used_callbacks d)\<rparr>))"

definition al_register ::
  "nat \<Rightarrow> ('i, 'o) lin_callback option \<Rightarrow> u8 \<Rightarrow> u8 \<Rightarrow> 'p \<Rightarrow> ('i, 'o, 'p) abstract_lin_data \<Rightarrow>
   c_int \<times> ('i, 'o, 'p) abstract_lin_data" where
  "al_register n callback frame_id frame_size user_data d =
     (case callback of
        None \<Rightarrow> (Inl EINVAL, d)
      | Some cb \<Rightarrow>
          if frame_id > 0x3F \<or> frame_size < 1 \<or> frame_size > 8 then (Inl EINVAL, d)
          else
            (case allocate_callback n frame_id d of
               (Inl e, d) \<Rightarrow> (Inl e, d)
             | (Inr free_index, d) \<Rightarrow>
                 (rc0, d\<lparr>callbacks := (callbacks d)[free_index :=
                    \<lparr>cb_frame_id = frame_id, cb_frame_size = frame_size, cb_callback = cb, cb_user_data = user_data\<rparr>]\<rparr>)))"

definition al_register_incoming_cb ::
  "nat \<Rightarrow> 'i option \<Rightarrow> u8 \<Rightarrow> u8 \<Rightarrow> 'p \<Rightarrow> ('i, 'o, 'p) abstract_lin_data \<Rightarrow> c_int \<times> ('i, 'o, 'p) abstract_lin_data" where
  "al_register_incoming_cb n callback = al_register n (map_option INCOMING callback)"

definition al_register_outgoing_cb ::
  "nat \<Rightarrow> 'o option \<Rightarrow> u8 \<Rightarrow> u8 \<Rightarrow> 'p \<Rightarrow> ('i, 'o, 'p) abstract_lin_data \<Rightarrow> c_int \<times> ('i, 'o, 'p) abstract_lin_data" where
  "al_register_outgoing_cb n callback = al_register n (map_option OUTGOING callback)"

text \<open>The data of the frame on the stack is not initialised: \<open>junk\<close>.\<close>

definition al_schedule_now ::
  "lin_mode \<Rightarrow> 'b lin_bus_ops \<Rightarrow> ('i, 'o, 'p, 'w) lin_callbacks \<Rightarrow> u8 list \<Rightarrow> u8 \<Rightarrow> ('i, 'o, 'p) abstract_lin_data \<Rightarrow>
   'b \<Rightarrow> 'w \<Rightarrow> (c_int \<times> 'b, 'w) outcome" where
  "al_schedule_now mode ops cbs junk frame_id d b w =
     (if frame_id > 0x3F then Returns (Inl EINVAL, b) w
      else if mode \<noteq> LIN_MODE_COMMANDER then Returns (Inl ENOTSUP, b) w
      else
        (case find_frame frame_id d 0 of
           None \<Rightarrow> Returns (Inl EINVAL, b) w
         | Some i \<Rightarrow>
             (let cb = callbacks d ! i in
              case cb_callback cb of
                INCOMING _ \<Rightarrow> Returns (lin_receive ops (cb_frame_id cb) LIN_CHECKSUM_AUTO (cb_frame_size cb) b) w
              | OUTGOING f \<Rightarrow>
                  (let frame = \<lparr>lf_id = cb_frame_id cb, lf_len = cb_frame_size cb, lf_type = LIN_CHECKSUM_AUTO, lf_data = junk\<rparr> in
                   obind (call_outgoing cbs f frame (cb_user_data cb) w) (\<lambda>(send, frame) w.
                   let frame = frame\<lparr>lf_id := cb_frame_id cb, lf_len := cb_frame_size cb\<rparr> in
                   if send then Returns (lin_send ops frame b) w else Returns (rc0, b) w)))))"

text \<open>The entries behind the removed one move one to the left.\<close>

function shift_left :: "nat \<Rightarrow> ('i, 'o, 'p) abstract_lin_data \<Rightarrow> ('i, 'o, 'p) abstract_lin_data" where
  "shift_left i d =
     (if i < used_callbacks d
      then shift_left (Suc i) (d\<lparr>callbacks := (callbacks d)[i := callbacks d ! Suc i]\<rparr>)
      else d)"
  by pat_completeness auto
termination by (relation "measure (\<lambda>(i, d). used_callbacks d - i)") auto

declare shift_left.simps [simp del]

definition al_unregister :: "u8 \<Rightarrow> ('i, 'o, 'p) abstract_lin_data \<Rightarrow> c_int \<times> ('i, 'o, 'p) abstract_lin_data" where
  "al_unregister frame_id d =
     (case find_frame frame_id d 0 of
        None \<Rightarrow> (Inl EINVAL, d)
      | Some i \<Rightarrow> (rc0, shift_left i (d\<lparr>used_callbacks := used_callbacks d - 1\<rparr>)))"

definition al_init :: "lin_mode \<Rightarrow> 'b lin_bus_ops \<Rightarrow> 'b \<Rightarrow> c_int \<times> 'b" where
  "al_init mode ops b =
     (case lin_set_mode ops mode b of (err, b) \<Rightarrow>
      if err \<noteq> rc0 then (err, b)
      else (case lin_set_header_callback ops b of (err, b) \<Rightarrow>
      if err \<noteq> rc0 then (err, b) else lin_set_rx_callback ops b))"

section \<open>The table as a list of entries\<close>

definition entries :: "('i, 'o, 'p) abstract_lin_data \<Rightarrow> ('i, 'o, 'p) abstract_lin_callback_entry_t list" where
  "entries d = take (used_callbacks d) (callbacks d)"

definition lin_lookup :: "('i, 'o, 'p) abstract_lin_data \<Rightarrow> u8 \<Rightarrow> ('i, 'o, 'p) abstract_lin_callback_entry_t option" where
  "lin_lookup d k = find (\<lambda>e. cb_frame_id e = k) (entries d)"

definition lin_wf :: "nat \<Rightarrow> ('i, 'o, 'p) abstract_lin_data \<Rightarrow> bool" where
  "lin_wf n d \<longleftrightarrow> length (callbacks d) = n \<and> used_callbacks d \<le> n \<and> distinct (map cb_frame_id (entries d)) \<and>
     (\<forall>e \<in> set (entries d). cb_frame_id e \<le> 0x3F \<and> 1 \<le> cb_frame_size e \<and> cb_frame_size e \<le> 8)"

lemma nth_entries: "i < used_callbacks d \<Longrightarrow> used_callbacks d \<le> length (callbacks d) \<Longrightarrow> entries d ! i = callbacks d ! i"
  by (simp add: entries_def)

lemma length_entries: "used_callbacks d \<le> length (callbacks d) \<Longrightarrow> length (entries d) = used_callbacks d"
  by (simp add: entries_def)

lemma find_frame_Some:
  "find_frame k d i = Some j \<longleftrightarrow> i \<le> j \<and> j < used_callbacks d \<and> cb_frame_id (callbacks d ! j) = k \<and>
     (\<forall>m. i \<le> m \<longrightarrow> m < j \<longrightarrow> cb_frame_id (callbacks d ! m) \<noteq> k)"
proof (induction k d i rule: find_frame.induct)
  case (1 k d i)
  show ?case
  proof (cases "i < used_callbacks d \<and> cb_frame_id (callbacks d ! i) \<noteq> k")
    case True
    then have "find_frame k d i = find_frame k d (Suc i)" by (simp add: find_frame.simps [of k d i])
    moreover have "(\<forall>m. i \<le> m \<longrightarrow> m < j \<longrightarrow> cb_frame_id (callbacks d ! m) \<noteq> k) \<longleftrightarrow>
        (\<forall>m. Suc i \<le> m \<longrightarrow> m < j \<longrightarrow> cb_frame_id (callbacks d ! m) \<noteq> k)"
      using True by (metis Suc_leI le_neq_implies_less Suc_leD)
    ultimately show ?thesis using 1 True by (metis Suc_leI le_neq_implies_less Suc_leD)
  next
    case False
    then show ?thesis by (auto simp: find_frame.simps [of k d i] dest: le_neq_implies_less)
  qed
qed

lemma find_frame_None_from:
  "find_frame k d i = None \<longleftrightarrow> (\<forall>j. i \<le> j \<longrightarrow> j < used_callbacks d \<longrightarrow> cb_frame_id (callbacks d ! j) \<noteq> k)"
proof (induction k d i rule: find_frame.induct)
  case (1 k d i)
  show ?case
  proof (cases "i < used_callbacks d \<and> cb_frame_id (callbacks d ! i) \<noteq> k")
    case True
    then have "find_frame k d i = find_frame k d (Suc i)" by (simp add: find_frame.simps [of k d i])
    moreover have "i \<le> j \<longleftrightarrow> j = i \<or> Suc i \<le> j" for j by auto
    ultimately show ?thesis using 1 True by auto
  next
    case False
    then show ?thesis by (auto simp: find_frame.simps [of k d i])
  qed
qed

lemma find_frame_None:
  "find_frame k d 0 = None \<longleftrightarrow> (\<forall>j < used_callbacks d. cb_frame_id (callbacks d ! j) \<noteq> k)"
  by (simp add: find_frame_None_from)

lemma lin_lookup_None: "lin_lookup d k = None \<longleftrightarrow> k \<notin> cb_frame_id ` set (entries d)"
  by (auto simp: lin_lookup_def find_None_iff)

lemma find_frame_lookup:
  assumes "used_callbacks d \<le> length (callbacks d)"
  shows "lin_lookup d k = map_option (\<lambda>i. callbacks d ! i) (find_frame k d 0)"
proof (cases "find_frame k d 0")
  case None
  then have "\<forall>j < used_callbacks d. cb_frame_id (callbacks d ! j) \<noteq> k" by (simp add: find_frame_None)
  then have "lin_lookup d k = None"
    using assms by (fastforce simp: lin_lookup_None in_set_conv_nth nth_entries length_entries)
  then show ?thesis using None by simp
next
  case (Some j)
  then have "j < used_callbacks d" "cb_frame_id (callbacks d ! j) = k"
    "\<forall>m < j. cb_frame_id (callbacks d ! m) \<noteq> k" by (simp_all add: find_frame_Some)
  then have "lin_lookup d k = Some (callbacks d ! j)"
    using assms by (auto simp: lin_lookup_def find_Some_iff nth_entries length_entries intro!: exI [of _ j])
  then show ?thesis using Some by simp
qed

section \<open>Registration and removal on the entries\<close>

lemma lin_lookup_Some:
  assumes "lin_wf n d"
  shows "lin_lookup d k = Some e \<longleftrightarrow> e \<in> set (entries d) \<and> cb_frame_id e = k"
proof
  assume "e \<in> set (entries d) \<and> cb_frame_id e = k"
  then have e: "e \<in> set (entries d)" "cb_frame_id e = k" by simp_all
  then have "lin_lookup d k \<noteq> None" by (auto simp: lin_lookup_None)
  then obtain e' where e': "lin_lookup d k = Some e'" by auto
  then have "e' \<in> set (entries d)" "cb_frame_id e' = k" by (auto simp: lin_lookup_def find_Some_iff)
  then have "e' = e" using e assms by (auto simp: lin_wf_def distinct_map dest: inj_onD)
  then show "lin_lookup d k = Some e" using e' by simp
qed (auto simp: lin_lookup_def find_Some_iff)

lemma lin_lookup_id_le: "lin_wf n d \<Longrightarrow> lin_lookup d k = Some e \<Longrightarrow> k \<le> 0x3F"
  using lin_lookup_Some [of n d k e] by (auto simp: lin_wf_def)

lemma al_register_ok:
  assumes "lin_wf n d" and "al_register n (Some cb) k sz u d = (rc0, d')"
  defines "e \<equiv> \<lparr>cb_frame_id = k, cb_frame_size = sz, cb_callback = cb, cb_user_data = u\<rparr>"
  shows "entries d' = entries d @ [e]" and "lin_lookup d k = None" and "lin_wf n d'"
proof -
  have wf: "length (callbacks d) = n" "used_callbacks d \<le> n" using assms(1) by (simp_all add: lin_wf_def)
  have sz: "sz \<noteq> 0" and ok: "k \<le> 0x3F" "sz \<le> 8" "used_callbacks d < n" and None: "find_frame k d 0 = None"
    and d': "d' = d\<lparr>used_callbacks := Suc (used_callbacks d), callbacks := (callbacks d)[used_callbacks d := e]\<rparr>"
    using assms(2) unfolding al_register_def allocate_callback_def e_def
    by (auto split: if_splits option.splits simp: not_le not_less)
  from sz have sz1: "1 \<le> sz" by (simp add: word_le_nat_alt Suc_le_eq unat_gt_0)
  show entries: "entries d' = entries d @ [e]"
    using wf ok by (simp add: d' entries_def take_Suc_conv_app_nth)
  show lookup: "lin_lookup d k = None" using find_frame_lookup [of d k] wf None by simp
  show "lin_wf n d'"
    using assms(1) ok sz1 lookup unfolding lin_wf_def entries by (auto simp: d' e_def lin_lookup_None)
qed

lemma shift_left_entries:
  assumes "i \<le> used_callbacks d" and "used_callbacks d < length (callbacks d)"
  shows "entries (shift_left i d) =
      take i (callbacks d) @ take (used_callbacks d - i) (drop (Suc i) (callbacks d)) \<and>
    used_callbacks (shift_left i d) = used_callbacks d \<and> length (callbacks (shift_left i d)) = length (callbacks d)"
  using assms
proof (induction i d rule: shift_left.induct)
  case (1 i d)
  show ?case
  proof (cases "i < used_callbacks d")
    case True
    let ?d = "d\<lparr>callbacks := (callbacks d)[i := callbacks d ! Suc i]\<rparr>"
    have step: "shift_left i d = shift_left (Suc i) ?d" using True by (simp add: shift_left.simps [of i d])
    have "drop (Suc i) (callbacks d) = callbacks d ! Suc i # drop (Suc (Suc i)) (callbacks d)"
      using True 1(3) by (intro Cons_nth_drop_Suc [symmetric]) simp
    moreover have "used_callbacks d - i = Suc (used_callbacks d - Suc i)" using True by simp
    moreover have "take (Suc i) ((callbacks d)[i := callbacks d ! Suc i]) = take i (callbacks d) @ [callbacks d ! Suc i]"
      using True 1(3) by (simp add: take_Suc_conv_app_nth)
    ultimately show ?thesis using 1(1) [OF True] True 1(3) by (simp add: step)
  next
    case False
    then have "shift_left i d = d" by (simp add: shift_left.simps [of i d])
    moreover have "i = used_callbacks d" using False 1(2) by simp
    ultimately show ?thesis by (simp add: entries_def)
  qed
qed

lemma al_unregister_ok:
  assumes "lin_wf n d" and "al_unregister k d = (rc0, d')"
  shows "entries d' = filter (\<lambda>e. cb_frame_id e \<noteq> k) (entries d)" and "lin_wf n d'"
proof -
  have wf: "length (callbacks d) = n" "used_callbacks d \<le> n" "distinct (map cb_frame_id (entries d))"
    using assms(1) by (simp_all add: lin_wf_def)
  obtain i where i: "find_frame k d 0 = Some i" and d': "d' = shift_left i (d\<lparr>used_callbacks := used_callbacks d - 1\<rparr>)"
    using assms(2) by (auto simp: al_unregister_def split: option.splits)
  have iu: "i < used_callbacks d" "cb_frame_id (callbacks d ! i) = k" using i by (simp_all add: find_frame_Some)
  define xs ys where "xs = take i (callbacks d)" and "ys = take (used_callbacks d - Suc i) (drop (Suc i) (callbacks d))"
  have split: "entries d = xs @ callbacks d ! i # ys"
    using iu wf id_take_nth_drop [of i "entries d"]
    by (simp add: xs_def ys_def nth_entries length_entries) (simp add: entries_def drop_take)
  have "entries d' = xs @ ys" and used: "used_callbacks d' = used_callbacks d - 1" "length (callbacks d') = n"
    using shift_left_entries [of i "d\<lparr>used_callbacks := used_callbacks d - 1\<rparr>"] iu wf
    by (simp_all add: d' xs_def ys_def)
  moreover have "k \<notin> cb_frame_id ` set xs" "k \<notin> cb_frame_id ` set ys"
    using wf(3) iu(2) by (auto simp: split)
  moreover from this have "filter (\<lambda>e. cb_frame_id e \<noteq> k) xs = xs" "filter (\<lambda>e. cb_frame_id e \<noteq> k) ys = ys"
    by (auto simp: filter_id_conv)
  ultimately show eq: "entries d' = filter (\<lambda>e. cb_frame_id e \<noteq> k) (entries d)"
    using iu(2) by (simp add: split)
  show "lin_wf n d'"
    using assms(1) used unfolding lin_wf_def eq by (auto simp: distinct_map_filter)
qed

section \<open>The table as a registry\<close>

text \<open>The two registration functions and the removal, in the shape of the contract.\<close>

definition lin_add ::
  "nat \<Rightarrow> ('i, 'o, 'p) abstract_lin_callback_entry_t \<Rightarrow> ('i, 'o, 'p) abstract_lin_data \<Rightarrow>
   (u8 \<times> ('i, 'o, 'p) abstract_lin_data) option" where
  "lin_add n e d =
     (let (rc, d') =
        (case cb_callback e of
           INCOMING f \<Rightarrow> al_register_incoming_cb n (Some f) (cb_frame_id e) (cb_frame_size e) (cb_user_data e) d
         | OUTGOING f \<Rightarrow> al_register_outgoing_cb n (Some f) (cb_frame_id e) (cb_frame_size e) (cb_user_data e) d)
      in if rc = rc0 then Some (cb_frame_id e, d') else None)"

definition lin_remove :: "u8 \<Rightarrow> ('i, 'o, 'p) abstract_lin_data \<Rightarrow> ('i, 'o, 'p) abstract_lin_data option" where
  "lin_remove k d = (let (rc, d') = al_unregister k d in if rc = rc0 then Some d' else None)"

lemma lin_add_register:
  "lin_add n e d =
     (let (rc, d') = al_register n (Some (cb_callback e)) (cb_frame_id e) (cb_frame_size e) (cb_user_data e) d
      in if rc = rc0 then Some (cb_frame_id e, d') else None)"
  by (cases "cb_callback e") (simp_all add: lin_add_def al_register_incoming_cb_def al_register_outgoing_cb_def)

lemma lin_add_ok:
  assumes "lin_wf n d" and "lin_add n e d = Some (k, d')"
  shows "entries d' = entries d @ [e]" and "lin_lookup d k = None" and "lin_wf n d'" and "k = cb_frame_id e"
proof -
  have reg: "al_register n (Some (cb_callback e)) k (cb_frame_size e) (cb_user_data e) d = (rc0, d')"
    and "k = cb_frame_id e"
    using assms(2) by (auto simp: lin_add_register split: if_splits prod.splits)
  then show "k = cb_frame_id e" "entries d' = entries d @ [e]" "lin_lookup d k = None" "lin_wf n d'"
    using al_register_ok [OF assms(1) reg] by simp_all
qed

lemma find_append: "find P (xs @ ys) = (case find P xs of None \<Rightarrow> find P ys | Some x \<Rightarrow> Some x)"
  by (induction xs) auto

lemma find_filter_neq: "find (\<lambda>e. f e = k') (filter (\<lambda>e. f e \<noteq> k) xs) = (if k' = k then None else find (\<lambda>e. f e = k') xs)"
  by (induction xs) auto

lemma lin_lookup_append:
  "entries d' = entries d @ [e] \<Longrightarrow> lin_lookup d (cb_frame_id e) = None \<Longrightarrow>
   lin_lookup d' = (lin_lookup d)(cb_frame_id e \<mapsto> e)"
  by (rule ext) (auto simp: lin_lookup_def find_append split: option.split)

lemma lin_lookup_filter:
  "entries d' = filter (\<lambda>e. cb_frame_id e \<noteq> k) (entries d) \<Longrightarrow> lin_lookup d' = (lin_lookup d)(k := None)"
  by (rule ext) (auto simp: lin_lookup_def find_None_iff find_filter_neq)

lemma al_register_lookup:
  assumes "lin_wf n d" and "al_register n (Some cb) k sz u d = (rc0, d')"
  shows "lin_lookup d' = (lin_lookup d)(k \<mapsto> \<lparr>cb_frame_id = k, cb_frame_size = sz, cb_callback = cb, cb_user_data = u\<rparr>)"
  using lin_lookup_append [OF al_register_ok(1) [OF assms]] al_register_ok(2) [OF assms] by simp

lemma lin_remove_None: "lin_wf n d \<Longrightarrow> lin_remove k d = None \<longleftrightarrow> lin_lookup d k = None"
  by (auto simp: lin_remove_def al_unregister_def lin_wf_def find_frame_lookup split: option.splits)

interpretation lin: registry "lin_wf n" lin_lookup "lin_add n" "\<lambda>k e. e" lin_remove for n
proof
  fix d d' :: "('a, 'b, 'c) abstract_lin_data" and k e
  assume wf: "lin_wf n d"
  show "lin_remove k d = None \<longleftrightarrow> lin_lookup d k = None" by (rule lin_remove_None [OF wf])
  {
    assume add: "lin_add n e d = Some (k, d')"
    note ok = lin_add_ok [OF wf add]
    show "lin_lookup d k = None" and "lin_wf n d'" by (rule ok)+
    show "lin_lookup d' = (lin_lookup d)(k \<mapsto> e)" using lin_lookup_append [OF ok(1)] ok(2,4) by simp
  next
    assume "lin_remove k d = Some d'"
    then have "al_unregister k d = (rc0, d')" by (auto simp: lin_remove_def split: prod.splits if_splits)
    note ok = al_unregister_ok [OF wf this]
    show "lin_wf n d'" by (rule ok)
    show "lin_lookup d' = (lin_lookup d)(k := None)" by (rule lin_lookup_filter [OF ok(1)])
  }
qed

section \<open>Dispatch\<close>

lemma rx_from_skip:
  assumes "\<forall>j. i \<le> j \<longrightarrow> j < used_callbacks d \<longrightarrow> cb_frame_id (callbacks d ! j) \<noteq> lf_id frame"
  shows "rx_from cbs d frame i w = Returns () w"
  using assms
proof (induction cbs d frame i w rule: rx_from.induct)
  case (1 cbs d frame i w)
  then show ?case
    by (subst rx_from.simps) (auto simp: Let_def split: lin_callback.split)
qed

lemma rx_from_reach:
  assumes "m < used_callbacks d" and "i \<le> m" and "\<forall>j. i \<le> j \<longrightarrow> j < m \<longrightarrow> cb_frame_id (callbacks d ! j) \<noteq> lf_id frame"
  shows "rx_from cbs d frame i w = rx_from cbs d frame m w"
  using assms
proof (induction cbs d frame i w rule: rx_from.induct)
  case (1 cbs d frame i w)
  show ?case
  proof (cases "i = m")
    case False
    then have "i < used_callbacks d" "cb_frame_id (callbacks d ! i) \<noteq> lf_id frame" "Suc i \<le> m" using 1(4-6) by auto
    then show ?thesis
      using 1 by (subst rx_from.simps) (auto simp: Let_def split: lin_callback.split)
  qed simp
qed

lemma find_frame_unique:
  assumes "lin_wf n d" and "find_frame k d 0 = Some m" and "j < used_callbacks d" and "cb_frame_id (callbacks d ! j) = k"
  shows "j = m"
proof -
  have len: "used_callbacks d \<le> length (callbacks d)" and dist: "distinct (map cb_frame_id (entries d))"
    using assms(1) by (simp_all add: lin_wf_def)
  have m: "m < used_callbacks d" "cb_frame_id (callbacks d ! m) = k" using assms(2) by (simp_all add: find_frame_Some)
  then have "map cb_frame_id (entries d) ! j = map cb_frame_id (entries d) ! m"
    using assms(3,4) len by (simp add: nth_entries length_entries)
  then show ?thesis
    using nth_eq_iff_index_eq [OF dist, of j m] m assms(3) len by (simp add: length_entries)
qed

lemma obind_unit: "obind m Returns = m"
  by (cases m) simp_all

text \<open>The receive loop does not stop at a match; as ids are unique, it delivers to the entry of the id alone.\<close>

lemma lin_rx_lookup:
  assumes "lin_wf n d"
  shows "lin_rx_callback cbs d False frame w =
    (case lin_lookup d (lf_id frame) of
       None \<Rightarrow> Returns () w
     | Some e \<Rightarrow>
         (case cb_callback e of
            OUTGOING _ \<Rightarrow> Returns () w
          | INCOMING f \<Rightarrow>
              if cb_frame_size e = lf_len frame then call_incoming cbs f frame (cb_user_data e) w else Undefined))"
proof (cases "find_frame (lf_id frame) d 0")
  case None
  then show ?thesis
    using assms rx_from_skip [of 0 d frame cbs w]
    by (simp add: lin_rx_callback_def find_frame_lookup lin_wf_def) (simp add: find_frame_None)
next
  case (Some m)
  have m: "m < used_callbacks d" "cb_frame_id (callbacks d ! m) = lf_id frame"
    "\<forall>j < m. cb_frame_id (callbacks d ! j) \<noteq> lf_id frame" using Some by (simp_all add: find_frame_Some)
  have "\<forall>j. Suc m \<le> j \<longrightarrow> j < used_callbacks d \<longrightarrow> cb_frame_id (callbacks d ! j) \<noteq> lf_id frame"
    using find_frame_unique [OF assms Some] by auto
  then have rest: "rx_from cbs d frame (Suc m) = Returns ()" by (intro ext rx_from_skip)
  have "lin_rx_callback cbs d False frame w = rx_from cbs d frame m w"
    using rx_from_reach [of m d 0 frame cbs w] m by (simp add: lin_rx_callback_def)
  moreover have "lin_lookup d (lf_id frame) = Some (callbacks d ! m)"
    using assms Some by (simp add: find_frame_lookup lin_wf_def)
  ultimately show ?thesis
    using m by (simp add: rx_from.simps [of cbs d frame m w] rest Let_def obind_unit split: lin_callback.split)
qed

lemma lin_header_lookup:
  assumes "lin_wf n d"
  shows "lin_header_callback cbs d frame w =
    (case lin_lookup d (lf_id frame) of
       None \<Rightarrow> Returns (LIN_ACTION_NONE, frame) w
     | Some e \<Rightarrow>
         (let frame = frame\<lparr>lf_len := cb_frame_size e, lf_type := LIN_CHECKSUM_AUTO\<rparr> in
          case cb_callback e of
            INCOMING _ \<Rightarrow> Returns (LIN_ACTION_RECEIVE, frame) w
          | OUTGOING f \<Rightarrow>
              obind (call_outgoing cbs f frame (cb_user_data e) w) (\<lambda>(res, frame) w.
              Returns (if res then LIN_ACTION_SEND else LIN_ACTION_NONE, frame\<lparr>lf_len := cb_frame_size e\<rparr>) w)))"
proof -
  have "used_callbacks d \<le> length (callbacks d)" using assms by (simp add: lin_wf_def)
  then show ?thesis by (simp add: lin_header_callback_def find_frame_lookup Let_def split: option.split)
qed

lemma al_schedule_lookup:
  assumes "lin_wf n d" and "k \<le> 0x3F"
  shows "al_schedule_now LIN_MODE_COMMANDER ops cbs junk k d b w =
    (case lin_lookup d k of
       None \<Rightarrow> Returns (Inl EINVAL, b) w
     | Some e \<Rightarrow>
         (case cb_callback e of
            INCOMING _ \<Rightarrow> Returns (lin_receive ops k LIN_CHECKSUM_AUTO (cb_frame_size e) b) w
          | OUTGOING f \<Rightarrow>
              obind (call_outgoing cbs f
                \<lparr>lf_id = k, lf_len = cb_frame_size e, lf_type = LIN_CHECKSUM_AUTO, lf_data = junk\<rparr> (cb_user_data e) w) (\<lambda>(send, frame) w.
              if send then Returns (lin_send ops (frame\<lparr>lf_id := k, lf_len := cb_frame_size e\<rparr>) b) w else Returns (rc0, b) w)))"
proof -
  have len: "used_callbacks d \<le> length (callbacks d)" using assms(1) by (simp add: lin_wf_def)
  have ok: "\<not> 0x3F < k" using assms(2) by (simp add: not_less)
  show ?thesis
  proof (cases "find_frame k d 0")
    case (Some i)
    then have id: "cb_frame_id (callbacks d ! i) = k" by (simp add: find_frame_Some)
    show ?thesis
      by (cases "cb_callback (callbacks d ! i)") (simp_all add: al_schedule_now_def find_frame_lookup [OF len] Some ok id Let_def)
  qed (simp add: al_schedule_now_def find_frame_lookup [OF len] ok)
qed

section \<open>Properties\<close>

text \<open>
  When a header arrives, an incoming callback makes the driver ask for a frame of the registered size, and
  the frame that then arrives with that id and length reaches this callback, once, with its user data: the
  assertion on the size cannot fail. The header is answered so exactly for the ids with an incoming callback.
\<close>

theorem lin_header_then_frame:
  assumes "lin_wf n d" and "lin_header_callback cbs d header w = Returns (action, header') w'"
  shows "action = LIN_ACTION_RECEIVE \<longleftrightarrow>
     (\<exists>e f. lin_lookup d (lf_id header) = Some e \<and> cb_callback e = INCOMING f \<and> w' = w \<and>
        header' = header\<lparr>lf_len := cb_frame_size e, lf_type := LIN_CHECKSUM_AUTO\<rparr> \<and>
        (\<forall>frame w'. lf_id frame = lf_id header \<longrightarrow> lf_len frame = lf_len header' \<longrightarrow>
           lin_rx_callback cbs d False frame w' = call_incoming cbs f frame (cb_user_data e) w'))"
proof (cases "lin_lookup d (lf_id header)")
  case None
  then show ?thesis using assms(2) by (simp add: lin_header_lookup [OF assms(1)])
next
  case (Some e)
  then show ?thesis
    using assms(2) by (cases "cb_callback e")
      (auto simp: lin_header_lookup [OF assms(1)] lin_rx_lookup [OF assms(1)] Let_def outcome_simps split: prod.splits if_splits)
qed

definition example_lin :: "(nat, nat, unit) abstract_lin_data" where
  "example_lin = \<lparr>callbacks = replicate 2 \<lparr>cb_frame_id = 5, cb_frame_size = 8, cb_callback = INCOMING 7, cb_user_data = ()\<rparr>,
     used_callbacks = 1\<rparr>"

lemma example_lin_wf: "lin_wf 2 example_lin"
  by (simp add: lin_wf_def example_lin_def entries_def)

lemma example_lin_lookup:
  "lin_lookup example_lin 5 = Some \<lparr>cb_frame_id = 5, cb_frame_size = 8, cb_callback = INCOMING 7, cb_user_data = ()\<rparr>"
  "lin_lookup example_lin 6 = None"
  by (simp_all add: lin_lookup_def example_lin_def entries_def)

theorem lin_header_then_frame_witness:
  "lin_rx_callback \<lparr>call_incoming = \<lambda>f frame u w. Returns () (f # w), call_outgoing = \<lambda>f frame u w. Returns (False, frame) w\<rparr>
     example_lin False \<lparr>lf_id = 5, lf_len = 8, lf_type = LIN_CHECKSUM_AUTO, lf_data = replicate 8 0\<rparr> [] = Returns () [7]"
proof -
  let ?cbs = "\<lparr>call_incoming = \<lambda>f frame (u :: unit) w. Returns () (f # w), call_outgoing = \<lambda>(f :: nat) frame u w. Returns (False, frame) w\<rparr>"
  let ?h = "\<lparr>lf_id = 5, lf_len = 0, lf_type = LIN_CHECKSUM_AUTO, lf_data = replicate 8 0\<rparr>"
  have "lin_header_callback ?cbs example_lin ?h [] = Returns (LIN_ACTION_RECEIVE, ?h\<lparr>lf_len := 8\<rparr>) []"
    by (simp add: lin_header_lookup [OF example_lin_wf] example_lin_lookup)
  from lin_header_then_frame [OF example_lin_wf this] show ?thesis by (auto simp: example_lin_lookup)
qed

text \<open>
  The callback of a frame id stays registered, unchanged, through any sequence of registrations and removals
  of frames in which its own id is not removed.
\<close>

theorem lin_registration_persists:
  assumes "lin_wf n d" and "lin_lookup d k = Some e" and "Remove k \<notin> set ops"
  shows "lin_lookup (lin.run_ops n ops d) k = Some e"
  using assms by (rule lin.run_ops_keeps_entry)

theorem lin_registration_persists_witness:
  "lin_lookup (lin.run_ops 2
      [Add \<lparr>cb_frame_id = 6, cb_frame_size = 1, cb_callback = OUTGOING 9, cb_user_data = ()\<rparr>, Remove 6] example_lin) 5 =
    Some \<lparr>cb_frame_id = 5, cb_frame_size = 8, cb_callback = INCOMING 7, cb_user_data = ()\<rparr>"
  by (rule lin_registration_persists [OF example_lin_wf example_lin_lookup(1)]) simp

lemma used_callbacks_le:
  assumes "lin_wf n d"
  shows "used_callbacks d \<le> 64"
proof -
  have "unat ` cb_frame_id ` set (entries d) \<subseteq> {..63}"
    using assms by (auto simp: lin_wf_def word_le_nat_alt)
  then have "card (unat ` cb_frame_id ` set (entries d)) \<le> 64" using card_mono [of "{..63::nat}"] by fastforce
  moreover have "card (unat ` cb_frame_id ` set (entries d)) = card (cb_frame_id ` set (entries d))"
    by (rule card_image) (auto simp: inj_on_def unsigned_word_eqI)
  moreover have "\<dots> = length (entries d)"
    using assms distinct_card [of "map cb_frame_id (entries d)"] by (simp add: lin_wf_def)
  ultimately show ?thesis using assms by (simp add: length_entries lin_wf_def)
qed

text \<open>
  The number of free slots is exact: the byte counter never wraps, and a valid registration of an id that is
  not in use succeeds exactly as long as the driver reports a free slot.
\<close>

theorem lin_free_slots_exact:
  assumes "lin_wf n d" and "n \<le> 255" and "k \<le> 0x3F" and "1 \<le> sz" and "sz \<le> 8" and "lin_lookup d k = None"
  shows "\<exists>free. al_get_free_cb_slots n False d = (rc0, Some free) \<and> unat free = n - used_callbacks d \<and>
    used_callbacks d \<le> 64 \<and> (0 < free \<longleftrightarrow> fst (al_register n (Some cb) k sz u d) = rc0)"
proof -
  have le: "used_callbacks d \<le> n" and None: "find_frame k d 0 = None"
    using assms by (simp_all add: lin_wf_def find_frame_lookup)
  have "unat (of_nat n - of_nat (used_callbacks d) :: u8) = n - used_callbacks d"
    using le assms(2) by (simp add: unat_of_nat flip: of_nat_diff)
  then show ?thesis
    using le assms(3-5) None used_callbacks_le [OF assms(1)]
    by (auto simp: al_get_free_cb_slots_def al_register_def allocate_callback_def word_less_nat_alt not_le not_less
          word_le_nat_alt)
qed

theorem lin_free_slots_exact_witness:
  "fst (al_register 2 (Some (OUTGOING 9)) 6 1 () example_lin) = rc0"
proof -
  have "al_get_free_cb_slots 2 False example_lin = (rc0, Some 1)" by (simp add: al_get_free_cb_slots_def example_lin_def)
  then show ?thesis
    using lin_free_slots_exact [OF example_lin_wf, of 6 1 "OUTGOING 9" "()"] by (simp add: example_lin_lookup)
qed

end
