(* ===== verification/Lin_Scheduler.thy ===== *)
theory Lin_Scheduler
  imports Prelude
begin

text \<open>
  The LIN scheduler (\<^verbatim>\<open>drivers/lin/abstract_lin/lin_scheduler.c\<close>): a thread that walks through the entries of
  the active schedule table and asks the abstract LIN driver to send or request each frame. The binary
  semaphore \<open>active\<close> is held by the thread while it reads the table, and taken for good by a client that
  disables the scheduler. The thread is a program counter and one function per stretch of code between two
  operations on a semaphore; the calls of the client run between them. A client that waits for the
  semaphore has changed nothing yet, and the thread does not change \<open>current_table\<close>, so a call of the one
  client is a single step, taken when it does not block. Nothing gives the semaphore \<open>skip\<close>: the thread
  sleeps for the whole delay.
\<close>

section \<open>State\<close>

record abstract_lin_schedule_entry_t =
  se_frame_id :: u8
  se_delay :: nat

text \<open>A table is the array of its entries; the index \<open>-1\<close> of a disabled scheduler is \<open>None\<close>.\<close>

type_synonym abstract_lin_schedule_table_t = "abstract_lin_schedule_entry_t list"

record abstract_lin_scheduler_t =
  sc_tables :: "abstract_lin_schedule_table_t list"
  current_table :: "nat option"
  current_table_entry :: nat
  active :: bool

datatype scheduler_pc = At_start | At_take | At_entry | At_give nat | At_skip nat

text \<open>A stretch of code blocks, runs and possibly schedules a frame, or reads outside of an array.\<close>

datatype 'a progress = Blocks | Runs 'a | Out_of_bounds

section \<open>Operations\<close>

definition scheduler_init :: "abstract_lin_schedule_table_t list \<Rightarrow> nat option \<Rightarrow> abstract_lin_scheduler_t" where
  "scheduler_init tables initial_table =
     \<lparr>sc_tables = tables, current_table = initial_table, current_table_entry = 0, active = False\<rparr>"

definition scheduler_entry :: "abstract_lin_scheduler_t \<Rightarrow> (u8 option \<times> scheduler_pc \<times> abstract_lin_scheduler_t) progress" where
  "scheduler_entry s =
     (case current_table s of
        None \<Rightarrow> Out_of_bounds
      | Some t \<Rightarrow>
          if t < length (sc_tables s) \<and> current_table_entry s < length (sc_tables s ! t) then
            let table = sc_tables s ! t; entry = table ! current_table_entry s;
              s = s\<lparr>current_table_entry := Suc (current_table_entry s)\<rparr>;
              s = (if current_table_entry s \<ge> length table then s\<lparr>current_table_entry := 0\<rparr> else s)
            in Runs (Some (se_frame_id entry), At_give (se_delay entry), s)
          else Out_of_bounds)"

fun abstract_lin_scheduler_thread ::
  "scheduler_pc \<Rightarrow> abstract_lin_scheduler_t \<Rightarrow> (u8 option \<times> scheduler_pc \<times> abstract_lin_scheduler_t) progress" where
  "abstract_lin_scheduler_thread At_start s = Runs (None, At_take, s\<lparr>active := current_table s \<noteq> None\<rparr>)"
| "abstract_lin_scheduler_thread At_take s = (if active s then Runs (None, At_entry, s\<lparr>active := False\<rparr>) else Blocks)"
| "abstract_lin_scheduler_thread At_entry s = scheduler_entry s"
| "abstract_lin_scheduler_thread (At_give delay) s = Runs (None, At_skip delay, s\<lparr>active := True\<rparr>)"
| "abstract_lin_scheduler_thread (At_skip delay) s = Runs (None, At_take, s)"

definition abstract_lin_scheduler_set_active_table ::
  "nat \<Rightarrow> abstract_lin_scheduler_t \<Rightarrow> (c_int \<times> abstract_lin_scheduler_t) progress" where
  "abstract_lin_scheduler_set_active_table table_index s =
     (if table_index \<ge> length (sc_tables s) then Runs (Inl ENOENT, s)
      else
        let active_before = current_table s \<noteq> None in
        if active_before \<and> \<not> active s then Blocks
        else Runs (rc0, s\<lparr>current_table := Some table_index, current_table_entry := 0, active := True\<rparr>))"

definition abstract_lin_scheduler_disable :: "abstract_lin_scheduler_t \<Rightarrow> (unit \<times> abstract_lin_scheduler_t) progress" where
  "abstract_lin_scheduler_disable s =
     (if current_table s = None then Runs ((), s)
      else if active s then Runs ((), s\<lparr>active := False, current_table := None\<rparr>)
      else Blocks)"

section \<open>The thread and a client\<close>

text \<open>
  The client calls after the thread has initialised the semaphores; before that, the semaphores do not exist and a call has no
  meaning.
\<close>

datatype scheduler_event = Internal | Schedule_now u8 | Set_active_table nat c_int | Disable

inductive scheduler_step ::
  "scheduler_pc \<times> abstract_lin_scheduler_t \<Rightarrow> scheduler_event \<Rightarrow> scheduler_pc \<times> abstract_lin_scheduler_t \<Rightarrow> bool" where
  Thread_internal: "abstract_lin_scheduler_thread pc s = Runs (None, pc', s') \<Longrightarrow> scheduler_step (pc, s) Internal (pc', s')"
| Thread_schedule: "abstract_lin_scheduler_thread pc s = Runs (Some f, pc', s') \<Longrightarrow> scheduler_step (pc, s) (Schedule_now f) (pc', s')"
| Client_set: "pc \<noteq> At_start \<Longrightarrow> abstract_lin_scheduler_set_active_table i s = Runs (rc, s') \<Longrightarrow>
    scheduler_step (pc, s) (Set_active_table i rc) (pc, s')"
| Client_disable: "pc \<noteq> At_start \<Longrightarrow> abstract_lin_scheduler_disable s = Runs ((), s') \<Longrightarrow>
    scheduler_step (pc, s) Disable (pc, s')"

inductive_cases scheduler_stepE: "scheduler_step (pc, s) e st"

inductive scheduler_run ::
  "scheduler_pc \<times> abstract_lin_scheduler_t \<Rightarrow> scheduler_event list \<Rightarrow> scheduler_pc \<times> abstract_lin_scheduler_t \<Rightarrow> bool" where
  Run_nil: "scheduler_run st [] st"
| Run_cons: "scheduler_step st e st' \<Longrightarrow> scheduler_run st' es st'' \<Longrightarrow> scheduler_run st (e # es) st''"

section \<open>Invariant\<close>

fun holds_active :: "scheduler_pc \<Rightarrow> bool" where
  "holds_active At_entry = True"
| "holds_active (At_give _) = True"
| "holds_active _ = False"

definition entry_ok :: "abstract_lin_scheduler_t \<Rightarrow> bool" where
  "entry_ok s \<longleftrightarrow> (\<forall>table \<in> set (sc_tables s). table \<noteq> []) \<and>
     (\<forall>t. current_table s = Some t \<longrightarrow> t < length (sc_tables s) \<and> current_table_entry s < length (sc_tables s ! t))"

text \<open>The semaphore is given or held by the thread, not both, exactly while the scheduler is enabled.\<close>

fun semaphore_ok :: "scheduler_pc \<Rightarrow> abstract_lin_scheduler_t \<Rightarrow> bool" where
  "semaphore_ok At_start s \<longleftrightarrow> \<not> active s"
| "semaphore_ok pc s \<longleftrightarrow> (current_table s \<noteq> None \<longleftrightarrow> active s \<noteq> holds_active pc) \<and> (active s \<longrightarrow> \<not> holds_active pc)"

definition scheduler_inv :: "scheduler_pc \<times> abstract_lin_scheduler_t \<Rightarrow> bool" where
  "scheduler_inv st \<longleftrightarrow> entry_ok (snd st) \<and> semaphore_ok (fst st) (snd st)"

lemma scheduler_entry_ok:
  assumes "entry_ok s" and "current_table s = Some t"
  shows "scheduler_entry s =
    Runs (Some (se_frame_id (sc_tables s ! t ! current_table_entry s)), At_give (se_delay (sc_tables s ! t ! current_table_entry s)),
      s\<lparr>current_table_entry := Suc (current_table_entry s) mod length (sc_tables s ! t)\<rparr>)"
proof -
  have "t < length (sc_tables s)" and lt: "current_table_entry s < length (sc_tables s ! t)"
    using assms by (simp_all add: entry_ok_def)
  moreover have "Suc (current_table_entry s) mod length (sc_tables s ! t) =
      (if Suc (current_table_entry s) \<ge> length (sc_tables s ! t) then 0 else Suc (current_table_entry s))"
    using lt by (simp add: mod_Suc not_le)
  ultimately show ?thesis using assms(2) by (simp add: scheduler_entry_def Let_def)
qed

text \<open>What the thread does, from a state in which the invariant holds.\<close>

lemma scheduler_thread_cases:
  assumes "scheduler_inv (pc, s)"
  obtains "pc = At_take" and "\<not> active s" and "abstract_lin_scheduler_thread pc s = Blocks"
  | (internal) pc' s' where "abstract_lin_scheduler_thread pc s = Runs (None, pc', s')" and "scheduler_inv (pc', s')"
      and "s' = s\<lparr>active := active s'\<rparr>"
  | (entry) t where "pc = At_entry" and "current_table s = Some t" and "abstract_lin_scheduler_thread pc s =
        Runs (Some (se_frame_id (sc_tables s ! t ! current_table_entry s)), At_give (se_delay (sc_tables s ! t ! current_table_entry s)),
          s\<lparr>current_table_entry := Suc (current_table_entry s) mod length (sc_tables s ! t)\<rparr>)"
proof (cases pc)
  case At_start
  show ?thesis using assms At_start
    by (intro internal [of At_take "s\<lparr>active := current_table s \<noteq> None\<rparr>"]) (simp_all add: scheduler_inv_def entry_ok_def)
next
  case At_take
  show ?thesis
  proof (cases "active s")
    case True
    then show ?thesis using assms At_take
      by (intro internal [of At_entry "s\<lparr>active := False\<rparr>"]) (simp_all add: scheduler_inv_def entry_ok_def)
  qed (use At_take that in simp)
next
  case At_entry
  then obtain t where "current_table s = Some t" using assms by (auto simp: scheduler_inv_def)
  then show ?thesis using At_entry assms scheduler_entry_ok [of s t] by (intro entry [of t]) (simp_all add: scheduler_inv_def)
next
  case (At_give d)
  then show ?thesis using assms
    by (intro internal [of "At_skip d" "s\<lparr>active := True\<rparr>"]) (auto simp: scheduler_inv_def entry_ok_def)
next
  case (At_skip d)
  then show ?thesis using assms by (intro internal [of At_take s]) (simp_all add: scheduler_inv_def)
qed

lemma scheduler_entry_inv:
  assumes "scheduler_inv (At_entry, s)" and "current_table s = Some t"
  shows "scheduler_inv (At_give d, s\<lparr>current_table_entry := Suc (current_table_entry s) mod length (sc_tables s ! t)\<rparr>)"
  using assms by (auto simp: scheduler_inv_def entry_ok_def mod_less_divisor)

lemma scheduler_thread_inv:
  assumes "scheduler_inv (pc, s)" and "abstract_lin_scheduler_thread pc s = Runs (f, pc', s')"
  shows "scheduler_inv (pc', s')"
  using assms(1)
proof (cases rule: scheduler_thread_cases)
  case (entry t)
  then show ?thesis
    using assms scheduler_entry_inv [of s t] by auto
qed (use assms in auto)

lemma set_active_table_inv:
  assumes "scheduler_inv (pc, s)" and "pc \<noteq> At_start" and "abstract_lin_scheduler_set_active_table i s = Runs (rc, s')"
  shows "scheduler_inv (pc, s')"
  using assms
  by (cases pc) (auto simp: scheduler_inv_def entry_ok_def abstract_lin_scheduler_set_active_table_def Let_def split: if_splits)

lemma disable_inv:
  assumes "scheduler_inv (pc, s)" and "pc \<noteq> At_start" and "abstract_lin_scheduler_disable s = Runs (u, s')"
  shows "scheduler_inv (pc, s')"
  using assms
  by (cases pc) (auto simp: scheduler_inv_def entry_ok_def abstract_lin_scheduler_disable_def split: if_splits)

lemma scheduler_step_inv: "scheduler_step st e st' \<Longrightarrow> scheduler_inv st \<Longrightarrow> scheduler_inv st'"
  by (induction rule: scheduler_step.induct) (blast intro: scheduler_thread_inv set_active_table_inv disable_inv)+

lemma scheduler_run_inv: "scheduler_run st es st' \<Longrightarrow> scheduler_inv st \<Longrightarrow> scheduler_inv st'"
  by (induction rule: scheduler_run.induct) (auto intro: scheduler_step_inv)

lemma scheduler_init_inv:
  "\<forall>table \<in> set tables. table \<noteq> [] \<Longrightarrow> (\<And>t. initial = Some t \<Longrightarrow> t < length tables) \<Longrightarrow>
   scheduler_inv (At_start, scheduler_init tables initial)"
  by (auto simp: scheduler_inv_def entry_ok_def scheduler_init_def)

section \<open>Specification\<close>

text \<open>
  Between a client's calls, the frames of the active table are sent in its order, from its first entry on and
  round again; nothing is sent while no table is active. \<open>Some (t, k)\<close> is a scheduler that has sent \<open>k\<close> frames
  of table \<open>t\<close>.
\<close>

fun scheduler_spec :: "abstract_lin_schedule_table_t list \<Rightarrow> (nat \<times> nat) option \<Rightarrow> scheduler_event list \<Rightarrow> bool" where
  "scheduler_spec T a [] \<longleftrightarrow> True"
| "scheduler_spec T a (Internal # es) \<longleftrightarrow> scheduler_spec T a es"
| "scheduler_spec T a (Schedule_now f # es) \<longleftrightarrow>
     (case a of
        None \<Rightarrow> False
      | Some (t, k) \<Rightarrow> f = se_frame_id (T ! t ! (k mod length (T ! t))) \<and> scheduler_spec T (Some (t, Suc k)) es)"
| "scheduler_spec T a (Set_active_table i rc # es) \<longleftrightarrow>
     (if i < length T then rc = rc0 \<and> scheduler_spec T (Some (i, 0)) es
      else rc = Inl ENOENT \<and> scheduler_spec T a es)"
| "scheduler_spec T a (Disable # es) \<longleftrightarrow> scheduler_spec T None es"

definition scheduler_abs :: "abstract_lin_scheduler_t \<Rightarrow> (nat \<times> nat) option \<Rightarrow> bool" where
  "scheduler_abs s a \<longleftrightarrow>
     (case a of
        None \<Rightarrow> current_table s = None
      | Some (t, k) \<Rightarrow> current_table s = Some t \<and> current_table_entry s = k mod length (sc_tables s ! t))"

text \<open>Each step of the scheduler is a step of the specification.\<close>

lemma scheduler_step_spec:
  assumes "scheduler_step st e st'" and "scheduler_inv st" and "scheduler_abs (snd st) a"
  obtains a' where "scheduler_abs (snd st') a'" and "sc_tables (snd st') = sc_tables (snd st)"
    and "\<And>es. scheduler_spec (sc_tables (snd st)) a' es \<Longrightarrow> scheduler_spec (sc_tables (snd st)) a (e # es)"
  using assms
proof (cases rule: scheduler_step.cases)
  case (Thread_internal pc s pc' s')
  then have "scheduler_inv (pc, s)" using assms(2) by simp
  then have "s' = s\<lparr>active := active s'\<rparr>"
    by (cases rule: scheduler_thread_cases) (use Thread_internal(4) in auto)
  then obtain b where s': "s' = s\<lparr>active := b\<rparr>" by blast
  then have "scheduler_abs s' a = scheduler_abs s a" by (simp add: scheduler_abs_def split: option.split)
  then show ?thesis using that [of a] assms(3) Thread_internal s' by simp
next
  case (Thread_schedule pc s f pc' s')
  then have "scheduler_inv (pc, s)" using assms(2) by simp
  then obtain t where t: "current_table s = Some t" and thread: "abstract_lin_scheduler_thread pc s =
        Runs (Some (se_frame_id (sc_tables s ! t ! current_table_entry s)), At_give (se_delay (sc_tables s ! t ! current_table_entry s)),
          s\<lparr>current_table_entry := Suc (current_table_entry s) mod length (sc_tables s ! t)\<rparr>)"
    by (cases rule: scheduler_thread_cases) (use Thread_schedule(4) in auto)
  obtain k where "a = Some (t, k)" "current_table_entry s = k mod length (sc_tables s ! t)"
    using assms(3) Thread_schedule t by (auto simp: scheduler_abs_def split: option.splits)
  then show ?thesis
    using that [of "Some (t, Suc k)"] Thread_schedule t thread by (auto simp: scheduler_abs_def mod_Suc_eq)
next
  case (Client_set pc i s rc s')
  then show ?thesis
    using that [of "if i < length (sc_tables s) then Some (i, 0) else a"] assms(3)
    by (auto simp: abstract_lin_scheduler_set_active_table_def Let_def scheduler_abs_def split: if_splits)
next
  case (Client_disable pc s s')
  then show ?thesis
    using that [of None] assms(3) by (auto simp: abstract_lin_scheduler_disable_def scheduler_abs_def split: if_splits)
qed

lemma scheduler_run_spec:
  "scheduler_run st es st' \<Longrightarrow> scheduler_inv st \<Longrightarrow> scheduler_abs (snd st) a \<Longrightarrow> scheduler_spec (sc_tables (snd st)) a es"
proof (induction arbitrary: a rule: scheduler_run.induct)
  case (Run_cons st e st' es st'')
  then show ?case by (metis scheduler_step_spec scheduler_step_inv)
qed simp

text \<open>Steps of the thread alone.\<close>

fun thread_steps ::
  "nat \<Rightarrow> scheduler_pc \<times> abstract_lin_scheduler_t \<Rightarrow> (scheduler_pc \<times> abstract_lin_scheduler_t) option" where
  "thread_steps 0 st = Some st"
| "thread_steps (Suc n) (pc, s) =
     (case abstract_lin_scheduler_thread pc s of Runs (f, pc', s') \<Rightarrow> thread_steps n (pc', s') | _ \<Rightarrow> None)"

lemma client_blocks:
  "abstract_lin_scheduler_disable s = Blocks \<longleftrightarrow> current_table s \<noteq> None \<and> \<not> active s"
  "abstract_lin_scheduler_set_active_table i s = Blocks \<longleftrightarrow> i < length (sc_tables s) \<and> current_table s \<noteq> None \<and> \<not> active s"
  by (auto simp: abstract_lin_scheduler_disable_def abstract_lin_scheduler_set_active_table_def Let_def)

lemma scheduler_release:
  assumes "scheduler_inv (pc, s)" and "pc \<noteq> At_start"
  shows "\<exists>n pc' s'. n \<le> 2 \<and> thread_steps n (pc, s) = Some (pc', s') \<and> (current_table s' = None \<or> active s')"
proof (cases "current_table s = None \<or> active s")
  case True
  then show ?thesis by (intro exI [of _ 0]) simp
next
  case False
  then obtain t where t: "current_table s = Some t" "\<not> active s" by auto
  then have "holds_active pc" using assms by (cases pc) (auto simp: scheduler_inv_def)
  then consider "pc = At_entry" | d where "pc = At_give d" by (cases pc) auto
  then show ?thesis
  proof cases
    case 1
    then show ?thesis
      using assms(1) scheduler_entry_ok [OF _ t(1)] by (intro exI [of _ 2]) (simp add: numeral_2_eq_2 scheduler_inv_def)
  next
    case 2
    then show ?thesis by (intro exI [of _ 1]) simp
  qed
qed

lemma scheduler_schedules:
  assumes "scheduler_inv (pc, s)" and "pc \<noteq> At_start" and t: "current_table s = Some t"
  shows "\<exists>n pc' s' x. n \<le> 3 \<and> thread_steps n (pc, s) = Some (pc', s') \<and>
    abstract_lin_scheduler_thread pc' s' = Runs (Some (se_frame_id (sc_tables s ! t ! current_table_entry s)), x)"
proof -
  have entry: "\<exists>x. scheduler_entry (s\<lparr>active := b\<rparr>) = Runs (Some (se_frame_id (sc_tables s ! t ! current_table_entry s)), x)" for b
  proof -
    have "entry_ok (s\<lparr>active := b\<rparr>)" using assms(1) by (simp add: scheduler_inv_def entry_ok_def)
    from scheduler_entry_ok [OF this] t show ?thesis by simp
  qed
  have s: "s = s\<lparr>active := active s\<rparr>" by simp
  show ?thesis
  proof (cases pc)
    case At_take
    then show ?thesis using assms entry [of False] by (intro exI [of _ 1]) (auto simp: scheduler_inv_def)
  next
    case At_entry
    then show ?thesis using entry [of "active s"] by (intro exI [of _ 0]) auto
  next
    case (At_give d)
    then show ?thesis using entry [of False] by (intro exI [of _ 3]) (auto simp: numeral_3_eq_3)
  next
    case (At_skip d)
    then show ?thesis using assms entry [of False] by (intro exI [of _ 2]) (auto simp: scheduler_inv_def numeral_2_eq_2)
  qed (use assms(2) in simp)
qed

section \<open>Properties\<close>

text \<open>
  (C25) A scheduler of non-empty tables, started with a table or without, and with any calls of a client between
  the steps of its thread, sends the frames of the active table in order and in rotation, starting over with
  the first entry whenever a table is set, and sends nothing from the moment it is disabled until a table is
  set again.
\<close>

theorem scheduler_round_robin:
  assumes "\<forall>table \<in> set tables. table \<noteq> []" and "\<forall>t. initial = Some t \<longrightarrow> t < length tables"
    and "scheduler_run (At_start, scheduler_init tables initial) es st"
  shows "scheduler_spec tables (map_option (\<lambda>t. (t, 0)) initial) es"
proof -
  have "scheduler_inv (At_start, scheduler_init tables initial)" using assms by (intro scheduler_init_inv) auto
  moreover have "scheduler_abs (scheduler_init tables initial) (map_option (\<lambda>t. (t, 0)) initial)"
    by (simp add: scheduler_abs_def scheduler_init_def split: option.split)
  ultimately have "scheduler_spec (sc_tables (scheduler_init tables initial)) (map_option (\<lambda>t. (t, 0)) initial) es"
    using scheduler_run_spec [OF assms(3)] by simp
  then show ?thesis by (simp add: scheduler_init_def)
qed

text \<open>
  (C26) The scheduler does not get stuck: in every state that is reached after the thread has set up its semaphores, with any calls of a client
  before, the thread does not read outside of a table and blocks only while the scheduler is disabled; at most two steps of the
  thread alone lead to a state in which neither setting a table nor disabling blocks; and while a table is active, at most four steps of
  the thread alone schedule its next frame.
\<close>

theorem scheduler_progress:
  assumes "\<forall>table \<in> set tables. table \<noteq> []" and "\<forall>t. initial = Some t \<longrightarrow> t < length tables"
    and "scheduler_run (At_start, scheduler_init tables initial) es (pc, s)" and "pc \<noteq> At_start"
  shows "abstract_lin_scheduler_thread pc s \<noteq> Out_of_bounds \<and>
    (abstract_lin_scheduler_thread pc s = Blocks \<longrightarrow> current_table s = None) \<and>
    (\<exists>n pc' s'. n \<le> 2 \<and> thread_steps n (pc, s) = Some (pc', s') \<and>
       abstract_lin_scheduler_disable s' \<noteq> Blocks \<and> (\<forall>i. abstract_lin_scheduler_set_active_table i s' \<noteq> Blocks)) \<and>
    (\<forall>t. current_table s = Some t \<longrightarrow> (\<exists>n pc' s' x. n \<le> 3 \<and> thread_steps n (pc, s) = Some (pc', s') \<and>
       abstract_lin_scheduler_thread pc' s' = Runs (Some (se_frame_id (sc_tables s ! t ! current_table_entry s)), x)))"
proof -
  have inv: "scheduler_inv (pc, s)"
    using scheduler_run_inv [OF assms(3)] scheduler_init_inv [OF assms(1)] assms(2) by simp
  then have "abstract_lin_scheduler_thread pc s \<noteq> Out_of_bounds \<and>
      (abstract_lin_scheduler_thread pc s = Blocks \<longrightarrow> current_table s = None)"
    by (cases rule: scheduler_thread_cases) (use inv in \<open>auto simp: scheduler_inv_def\<close>)
  moreover have "\<exists>n pc' s'. n \<le> 2 \<and> thread_steps n (pc, s) = Some (pc', s') \<and>
       abstract_lin_scheduler_disable s' \<noteq> Blocks \<and> (\<forall>i. abstract_lin_scheduler_set_active_table i s' \<noteq> Blocks)"
    using scheduler_release [OF inv assms(4)] unfolding client_blocks by blast
  ultimately show ?thesis using scheduler_schedules [OF inv assms(4)] by blast
qed

text \<open>Two frames of a table with two entries, then the first one again after the table is set anew.\<close>

definition example_tables :: "abstract_lin_schedule_table_t list" where
  "example_tables = [[\<lparr>se_frame_id = 1, se_delay = 10\<rparr>, \<lparr>se_frame_id = 2, se_delay = 20\<rparr>]]"

definition example_events :: "scheduler_event list" where
  "example_events = [Internal, Internal, Schedule_now 1, Internal, Internal, Internal, Schedule_now 2, Internal,
     Set_active_table 0 rc0, Internal, Internal, Schedule_now 1]"

lemma scheduler_run_Cons_thread:
  "abstract_lin_scheduler_thread pc s = Runs (None, pc', s') \<Longrightarrow> scheduler_run (pc', s') es st \<Longrightarrow>
     scheduler_run (pc, s) (Internal # es) st"
  "abstract_lin_scheduler_thread pc s = Runs (Some f, pc', s') \<Longrightarrow> scheduler_run (pc', s') es st \<Longrightarrow>
     scheduler_run (pc, s) (Schedule_now f # es) st"
  by (auto intro: scheduler_run.Run_cons scheduler_step.intros)

lemma scheduler_run_Cons_set:
  "pc \<noteq> At_start \<and> abstract_lin_scheduler_set_active_table i s = Runs (rc, s') \<Longrightarrow> scheduler_run (pc, s') es st \<Longrightarrow>
     scheduler_run (pc, s) (Set_active_table i rc # es) st"
  by (auto intro: scheduler_run.Run_cons scheduler_step.intros)

lemma example_run:
  "scheduler_run (At_start, scheduler_init example_tables (Some 0)) example_events
     (At_give 10, (scheduler_init example_tables (Some 0))\<lparr>current_table_entry := 1\<rparr>)"
  unfolding example_events_def scheduler_init_def example_tables_def
  by (rule scheduler_run_Cons_thread scheduler_run_Cons_set scheduler_run.Run_nil,
      simp add: scheduler_entry_def abstract_lin_scheduler_set_active_table_def)+
    (simp add: scheduler_run.Run_nil)

theorem scheduler_round_robin_witness: "scheduler_spec example_tables (Some (0, 0)) example_events"
  using scheduler_round_robin [of example_tables "Some 0", OF _ _ example_run] by (simp add: example_tables_def)

theorem scheduler_progress_witness:
  "\<exists>n pc' s'. n \<le> 2 \<and>
     thread_steps n (At_give 10, (scheduler_init example_tables (Some 0))\<lparr>current_table_entry := 1\<rparr>) = Some (pc', s') \<and>
     abstract_lin_scheduler_disable s' \<noteq> Blocks \<and> (\<forall>i. abstract_lin_scheduler_set_active_table i s' \<noteq> Blocks)"
  using scheduler_progress [of example_tables "Some 0", OF _ _ example_run] by (simp add: example_tables_def)

end
