(* ===== verification/Lin_Led.thy ===== *)
theory Lin_Led
  imports Abstract_Lin Lin_Scheduler
begin

text \<open>
  The LIN samples (\<^verbatim>\<open>samples/lin/commander\<close>, \<^verbatim>\<open>commander_scheduler\<close> and \<^verbatim>\<open>responder\<close>): a commander tells a responder over the
  abstract LIN driver to switch an LED and asks for its state.
\<close>

section \<open>The responder\<close>

datatype led_cb = Fn_status_callback | Fn_command_callback

record lin_responder =
  led :: bool

definition responder_status_callback :: "lin_frame \<Rightarrow> lin_responder \<Rightarrow> (bool \<times> lin_frame, lin_responder) outcome" where
  "responder_status_callback frame r =
     (if lf_data frame = [] then Undefined
      else Returns (True, frame\<lparr>lf_data := (lf_data frame)[0 := of_bool (led r)]\<rparr>) r)"

definition responder_command_callback :: "lin_frame \<Rightarrow> lin_responder \<Rightarrow> (unit, lin_responder) outcome" where
  "responder_command_callback frame r =
     (if lf_data frame = [] then Undefined
      else Returns () (if lf_data frame ! 0 = 0 then r\<lparr>led := False\<rparr> else if lf_data frame ! 0 = 1 then r\<lparr>led := True\<rparr> else r))"

definition responder_callbacks :: "(led_cb, led_cb, unit, lin_responder) lin_callbacks" where
  "responder_callbacks = \<lparr>call_incoming = (\<lambda>_ frame _. responder_command_callback frame), call_outgoing = (\<lambda>_ frame _. responder_status_callback frame)\<rparr>"

text \<open>
  \<^verbatim>\<open>main\<close>, with the table of the driver; failing registrations are only logged. \<open>n\<close> is the size of the table, \<open>ready\<close> the result
  of \<^verbatim>\<open>device_is_ready\<close>.
\<close>

definition enough_slots :: "nat \<Rightarrow> ('i, 'o, 'p) abstract_lin_data \<Rightarrow> bool" where
  "enough_slots n d = (case al_get_free_cb_slots n False d of (_, None) \<Rightarrow> False | (_, Some free_slots) \<Rightarrow> \<not> free_slots < 2)"

definition responder_main :: "bool \<Rightarrow> nat \<Rightarrow> (led_cb, led_cb, unit) abstract_lin_data \<Rightarrow> c_int \<times> (led_cb, led_cb, unit) abstract_lin_data" where
  "responder_main ready n d =
     (if \<not> ready then (Inl EPERM, d)
      else if \<not> enough_slots n d then (Inl EPERM, d)
      else
        (case al_register_outgoing_cb n (Some Fn_status_callback) 0x10 1 () d of (_, d) \<Rightarrow>
         case al_register_incoming_cb n (Some Fn_command_callback) 0x11 1 () d of (_, d) \<Rightarrow> (rc0, d)))"

section \<open>The commander\<close>

record lin_commander =
  remote_led_target :: bool
  remote_led_is :: bool

definition commander_command_callback :: "lin_frame \<Rightarrow> lin_commander \<Rightarrow> (bool \<times> lin_frame, lin_commander) outcome" where
  "commander_command_callback frame c =
     (if lf_data frame = [] then Undefined
      else Returns (True, frame\<lparr>lf_data := (lf_data frame)[0 := of_bool (remote_led_target c)]\<rparr>) c)"

text \<open>In the sample with the scheduler the callback itself changes the target.\<close>

definition scheduler_command_callback :: "lin_frame \<Rightarrow> lin_commander \<Rightarrow> (bool \<times> lin_frame, lin_commander) outcome" where
  "scheduler_command_callback frame c =
     (if lf_data frame = [] then Undefined
      else Returns (True, frame\<lparr>lf_data := (lf_data frame)[0 := of_bool (remote_led_target c)]\<rparr>)
        (c\<lparr>remote_led_target := \<not> remote_led_target c\<rparr>))"

definition commander_status_callback :: "lin_frame \<Rightarrow> lin_commander \<Rightarrow> (unit, lin_commander) outcome" where
  "commander_status_callback frame c =
     (if lf_data frame = [] then Undefined
      else Returns () (if lf_data frame ! 0 = 0 then c\<lparr>remote_led_is := False\<rparr>
        else if lf_data frame ! 0 = 1 then c\<lparr>remote_led_is := True\<rparr> else c))"

definition commander_callbacks :: "bool \<Rightarrow> (led_cb, led_cb, unit, lin_commander) lin_callbacks" where
  "commander_callbacks scheduler = \<lparr>call_incoming = (\<lambda>_ frame _. commander_status_callback frame),
     call_outgoing = (\<lambda>_ frame _. if scheduler then scheduler_command_callback frame else commander_command_callback frame)\<rparr>"

definition commander_main :: "bool \<Rightarrow> nat \<Rightarrow> (led_cb, led_cb, unit) abstract_lin_data \<Rightarrow> c_int \<times> (led_cb, led_cb, unit) abstract_lin_data" where
  "commander_main ready n d =
     (if \<not> ready then (Inl EPERM, d)
      else if \<not> enough_slots n d then (Inl EPERM, d)
      else
        (case al_register_incoming_cb n (Some Fn_status_callback) 0x10 1 () d of (_, d) \<Rightarrow>
         case al_register_outgoing_cb n (Some Fn_command_callback) 0x11 1 () d of (_, d) \<Rightarrow> (rc0, d)))"

text \<open>
  A round of the loop of \<^verbatim>\<open>main\<close>. \<open>ops\<close> is the driver of the LIN bus with its state \<open>'b\<close>, and \<open>sleep\<close> is what
  happens during \<^verbatim>\<open>k_msleep\<close>: the driver goes on, and calls the callbacks of this board and of the responder.
\<close>

definition commander_loop ::
  "'b lin_bus_ops \<Rightarrow> ('b \<times> lin_commander \<times> 'r \<Rightarrow> (unit, 'b \<times> lin_commander \<times> 'r) outcome) \<Rightarrow> u8 list \<Rightarrow>
   (led_cb, led_cb, unit) abstract_lin_data \<Rightarrow> 'b \<times> lin_commander \<times> 'r \<Rightarrow> (unit, 'b \<times> lin_commander \<times> 'r) outcome" where
  "commander_loop ops sleep junk cd = (\<lambda>(b, c, r).
     obind (sleep (b, c\<lparr>remote_led_target := \<not> remote_led_target c\<rparr>, r)) (\<lambda>_ (b, c, r).
     case al_schedule_now LIN_MODE_COMMANDER ops (commander_callbacks False) junk 0x10 cd b c of
       Returns (_, b) c \<Rightarrow>
         obind (sleep (b, c, r)) (\<lambda>_ (b, c, r).
         case al_schedule_now LIN_MODE_COMMANDER ops (commander_callbacks False) junk 0x11 cd b c of
           Returns (_, b) c \<Rightarrow> Returns () (b, c, r)
         | _ \<Rightarrow> Undefined)
     | _ \<Rightarrow> Undefined))"

fun commander_rounds where
  "commander_rounds ops sleep junk cd 0 s = Returns () s"
| "commander_rounds ops sleep junk cd (Suc k) s = obind (commander_rounds ops sleep junk cd k s) (\<lambda>_. commander_loop ops sleep junk cd)"

section \<open>The bus\<close>

text \<open>
  What a commander starts on the bus: a frame it sends, or a header for a frame that it receives. Where this is not lost, the driver
  of the responder calls the header callback, and then the driver of the node that gets the data calls the receive callback. The
  frames hold eight bytes; \<open>junk\<close> is what is in the buffers before.
\<close>

datatype lin_transfer = Lin_sent lin_frame | Lin_requested u8 u8

definition transfer_id :: "lin_transfer \<Rightarrow> u8" where
  "transfer_id x = (case x of Lin_sent f \<Rightarrow> lf_id f | Lin_requested i _ \<Rightarrow> i)"

definition carry ::
  "u8 list \<Rightarrow> (led_cb, led_cb, unit) abstract_lin_data \<Rightarrow> (led_cb, led_cb, unit) abstract_lin_data \<Rightarrow> lin_transfer \<Rightarrow>
   lin_commander \<times> lin_responder \<Rightarrow> (unit, lin_commander \<times> lin_responder) outcome" where
  "carry junk cd rd x = (\<lambda>(c, r).
     (case lin_header_callback responder_callbacks rd
         \<lparr>lf_id = transfer_id x, lf_len = 0, lf_type = LIN_CHECKSUM_AUTO, lf_data = junk\<rparr> r of
        Returns (act, answer) r \<Rightarrow>
          (case x of
             Lin_sent f \<Rightarrow>
               if act = LIN_ACTION_RECEIVE
               then omap_state (\<lambda>r. (c, r)) (lin_rx_callback responder_callbacks rd False f r) else Returns () (c, r)
           | Lin_requested i len \<Rightarrow>
               omap_state (\<lambda>c. (c, r)) (lin_rx_callback (commander_callbacks False) cd (act \<noteq> LIN_ACTION_SEND) answer c))
      | _ \<Rightarrow> Undefined))"

text \<open>
  What is supposed of the driver: it starts a transfer or refuses it with an error (\<open>started\<close> is the transfer in
  progress), and within the half second that the commander sleeps a transfer is over, either carried out or lost (\<open>lost\<close>).
\<close>

definition lin_driver ::
  "'b lin_bus_ops \<Rightarrow> ('b \<times> lin_commander \<times> lin_responder \<Rightarrow> (unit, 'b \<times> lin_commander \<times> lin_responder) outcome) \<Rightarrow>
   ('b \<Rightarrow> lin_transfer option) \<Rightarrow> ('b \<Rightarrow> bool) \<Rightarrow> u8 list \<Rightarrow> (led_cb, led_cb, unit) abstract_lin_data \<Rightarrow>
   (led_cb, led_cb, unit) abstract_lin_data \<Rightarrow> bool" where
  "lin_driver ops sleep started lost junk cd rd \<longleftrightarrow>
     (\<forall>f b rc b'. lin_send ops f b = (rc, b') \<longrightarrow> started b' = (if rc = rc0 then Some (Lin_sent f) else None)) \<and>
     (\<forall>i k len b rc b'. lin_receive ops i k len b = (rc, b') \<longrightarrow> started b' = (if rc = rc0 then Some (Lin_requested i len) else None)) \<and>
     (\<forall>b c r. \<exists>b'. started b' = None \<and> sleep (b, c, r) =
        (case started b of
           None \<Rightarrow> Returns () (b', c, r)
         | Some x \<Rightarrow> if lost b then Returns () (b', c, r) else omap_state (Pair b') (carry junk cd rd x (c, r))))"

definition lin_reliable :: "'b lin_bus_ops \<Rightarrow> ('b \<Rightarrow> bool) \<Rightarrow> bool" where
  "lin_reliable ops lost \<longleftrightarrow>
     (\<forall>f b. fst (lin_send ops f b) = rc0) \<and> (\<forall>i k len b. fst (lin_receive ops i k len b) = rc0) \<and> (\<forall>b. \<not> lost b)"

section \<open>What the LED does\<close>

lemma register_pair:
  assumes "lin_wf n d" and "n \<le> 255" and "used_callbacks d + 2 \<le> n" and "lin_lookup d a = None" and "lin_lookup d b = None" and "a \<noteq> b"
    and "a \<le> 0x3F" and "b \<le> 0x3F"
  shows "\<exists>d1 d2. al_register n (Some f) a 1 () d = (rc0, d1) \<and> al_register n (Some g) b 1 () d1 = (rc0, d2) \<and> lin_wf n d2 \<and>
    lin_lookup d2 a = Some \<lparr>cb_frame_id = a, cb_frame_size = 1, cb_callback = f, cb_user_data = ()\<rparr> \<and>
    lin_lookup d2 b = Some \<lparr>cb_frame_id = b, cb_frame_size = 1, cb_callback = g, cb_user_data = ()\<rparr>"
proof -
  have len: "used_callbacks d \<le> length (callbacks d)" using assms(1) by (simp add: lin_wf_def)
  then have "find_frame a d 0 = None" using find_frame_lookup [OF len, of a] assms(4) by simp
  then obtain d1 where one: "al_register n (Some f) a 1 () d = (rc0, d1)" "used_callbacks d1 = Suc (used_callbacks d)"
    using assms(3,7) by (simp add: al_register_def allocate_callback_def not_less [symmetric])
  note wf1 = al_register_ok(3) [OF assms(1) one(1)] and l1 = al_register_lookup [OF assms(1) one(1)]
  have len1: "used_callbacks d1 \<le> length (callbacks d1)" using wf1 by (simp add: lin_wf_def)
  then have "find_frame b d1 0 = None" using find_frame_lookup [OF len1, of b] assms(5,6) l1 by simp
  then obtain d2 where two: "al_register n (Some g) b 1 () d1 = (rc0, d2)"
    using assms(3,8) one(2) by (simp add: al_register_def allocate_callback_def not_less [symmetric])
  then show ?thesis
    using one(1) al_register_ok(3) [OF wf1 two] al_register_lookup [OF wf1 two] l1 assms(6) by auto
qed

definition lin_free :: "nat \<Rightarrow> ('i, 'o, 'p) abstract_lin_data \<Rightarrow> bool" where
  "lin_free n d \<longleftrightarrow> lin_wf n d \<and> n \<le> 255 \<and> used_callbacks d + 2 \<le> n \<and> lin_lookup d 0x10 = None \<and> lin_lookup d 0x11 = None"

lemma free_enough: "lin_free n d \<Longrightarrow> enough_slots n d"
proof -
  assume d: "lin_free n d"
  then have "n \<le> 255" "used_callbacks d \<le> n" by (simp_all add: lin_free_def)
  then have "unat (of_nat n - of_nat (used_callbacks d) :: u8) = n - used_callbacks d"
    by (simp add: unat_of_nat flip: of_nat_diff)
  moreover have "\<not> n - used_callbacks d < 2" using d by (auto simp: lin_free_def)
  ultimately show ?thesis by (simp add: enough_slots_def al_get_free_cb_slots_def word_less_nat_alt)
qed

definition led_entry :: "u8 \<Rightarrow> (led_cb, led_cb) lin_callback \<Rightarrow> (led_cb, led_cb, unit) abstract_lin_callback_entry_t" where
  "led_entry k f = \<lparr>cb_frame_id = k, cb_frame_size = 1, cb_callback = f, cb_user_data = ()\<rparr>"

definition led_tables :: "(led_cb, led_cb, unit) abstract_lin_data \<Rightarrow> (led_cb, led_cb, unit) abstract_lin_data \<Rightarrow> bool" where
  "led_tables cd rd \<longleftrightarrow> (\<exists>n. lin_wf n cd) \<and> (\<exists>n. lin_wf n rd) \<and>
     lin_lookup cd 0x10 = Some (led_entry 0x10 (INCOMING Fn_status_callback)) \<and>
     lin_lookup cd 0x11 = Some (led_entry 0x11 (OUTGOING Fn_command_callback)) \<and>
     lin_lookup rd 0x10 = Some (led_entry 0x10 (OUTGOING Fn_status_callback)) \<and>
     lin_lookup rd 0x11 = Some (led_entry 0x11 (INCOMING Fn_command_callback))"

lemma led_setup:
  assumes "lin_free n cd" and "lin_free m rd"
  shows "\<exists>cd' rd'. commander_main True n cd = (rc0, cd') \<and> responder_main True m rd = (rc0, rd') \<and> led_tables cd' rd'"
proof -
  have "\<exists>d1 d2. al_register n (Some f) 0x10 1 () d = (rc0, d1) \<and> al_register n (Some g) 0x11 1 () d1 = (rc0, d2) \<and> lin_wf n d2 \<and>
      lin_lookup d2 0x10 = Some (led_entry 0x10 f) \<and> lin_lookup d2 0x11 = Some (led_entry 0x11 g)"
    if "lin_free n d" for n f g and d :: "(led_cb, led_cb, unit) abstract_lin_data"
    using that unfolding led_entry_def lin_free_def by (intro register_pair) auto
  note pair = this
  show ?thesis
    using pair [OF assms(1), of "INCOMING Fn_status_callback" "OUTGOING Fn_command_callback"]
      pair [OF assms(2), of "OUTGOING Fn_status_callback" "INCOMING Fn_command_callback"] free_enough [OF assms(1)] free_enough [OF assms(2)]
    by (auto simp: commander_main_def responder_main_def al_register_incoming_cb_def al_register_outgoing_cb_def led_tables_def)
qed

definition command_frame :: "u8 list \<Rightarrow> bool \<Rightarrow> lin_frame" where
  "command_frame junk v = \<lparr>lf_id = 0x11, lf_len = 1, lf_type = LIN_CHECKSUM_AUTO, lf_data = junk[0 := of_bool v]\<rparr>"

text \<open>Scheduling one of the two frames, and what the callbacks do when it is carried out.\<close>

lemma status_scheduled:
  assumes "led_tables cd rd"
  shows "al_schedule_now LIN_MODE_COMMANDER ops (commander_callbacks a) junk 0x10 cd b c =
    Returns (lin_receive ops 0x10 LIN_CHECKSUM_AUTO 1 b) c"
proof -
  obtain n where "lin_wf n cd" using assms by (auto simp: led_tables_def)
  then show ?thesis using assms by (simp add: al_schedule_lookup led_tables_def led_entry_def)
qed

lemma command_scheduled:
  assumes "led_tables cd rd" and "junk \<noteq> []"
  shows "al_schedule_now LIN_MODE_COMMANDER ops (commander_callbacks a) junk 0x11 cd b c =
    Returns (lin_send ops (command_frame junk (remote_led_target c)) b)
      (if a then c\<lparr>remote_led_target := \<not> remote_led_target c\<rparr> else c)"
proof -
  obtain n where "lin_wf n cd" using assms by (auto simp: led_tables_def)
  then show ?thesis
    using assms by (simp add: al_schedule_lookup led_tables_def led_entry_def command_frame_def commander_callbacks_def
        commander_command_callback_def scheduler_command_callback_def)
qed

lemma status_carried:
  assumes "led_tables cd rd" and "junk \<noteq> []"
  shows "carry junk cd rd (Lin_requested 0x10 1) (c, r) = Returns () (c\<lparr>remote_led_is := led r\<rparr>, r)"
proof -
  obtain n m where wf: "lin_wf n cd" "lin_wf m rd" using assms(1) by (auto simp: led_tables_def)
  show ?thesis
    using assms
    by (cases junk) (simp_all add: carry_def transfer_id_def lin_header_lookup [OF wf(2)] lin_rx_lookup [OF wf(1)] led_tables_def
        led_entry_def responder_callbacks_def responder_status_callback_def commander_callbacks_def commander_status_callback_def Let_def)
qed

lemma command_carried:
  assumes "led_tables cd rd" and "junk \<noteq> []"
  shows "carry junk cd rd (Lin_sent (command_frame junk v)) (c, r) = Returns () (c, r\<lparr>led := v\<rparr>)"
proof -
  obtain n m where wf: "lin_wf n cd" "lin_wf m rd" using assms(1) by (auto simp: led_tables_def)
  show ?thesis
    using assms
    by (cases junk) (simp_all add: carry_def transfer_id_def command_frame_def lin_header_lookup [OF wf(2)] lin_rx_lookup [OF wf(2)]
        led_tables_def led_entry_def responder_callbacks_def responder_command_callback_def Let_def)
qed

text \<open>Between two rounds the command of the last one may be on its way; it arrives unless it was refused or is lost.\<close>

definition arrives :: "('b \<Rightarrow> lin_transfer option) \<Rightarrow> ('b \<Rightarrow> bool) \<Rightarrow> 'b \<Rightarrow> bool" where
  "arrives started lost b \<longleftrightarrow> started b \<noteq> None \<and> \<not> lost b"

definition on_its_way :: "('b \<Rightarrow> lin_transfer option) \<Rightarrow> u8 list \<Rightarrow> 'b \<Rightarrow> bool \<Rightarrow> bool" where
  "on_its_way started junk b v \<longleftrightarrow> started b \<in> {None, Some (Lin_sent (command_frame junk v))}"

lemma command_arrives:
  assumes "led_tables cd rd" and "junk \<noteq> []" and "lin_driver ops sleep started lost junk cd rd" and "on_its_way started junk b v"
  obtains b' where "started b' = None"
    and "sleep (b, c, r) = Returns () (b', c, r\<lparr>led := (if arrives started lost b then v else led r)\<rparr>)"
proof -
  have sleep: "\<forall>b c r. \<exists>b'. started b' = None \<and> sleep (b, c, r) =
      (case started b of None \<Rightarrow> Returns () (b', c, r)
       | Some x \<Rightarrow> if lost b then Returns () (b', c, r) else omap_state (Pair b') (carry junk cd rd x (c, r)))"
    using assms(3) by (simp add: lin_driver_def)
  have "r\<lparr>led := led r\<rparr> = r" by simp
  then show thesis
    using sleep [rule_format, of b c r] assms(4) that command_carried [OF assms(1,2), of v c r]
    by (auto simp: on_its_way_def arrives_def split: if_splits)
qed

lemma status_arrives:
  assumes "led_tables cd rd" and "junk \<noteq> []" and "lin_driver ops sleep started lost junk cd rd"
    and "lin_receive ops 0x10 LIN_CHECKSUM_AUTO 1 b = (rc, b1)"
  obtains b' where "started b' = None"
    and "sleep (b1, c, r) = Returns () (b', c\<lparr>remote_led_is := (if rc = rc0 \<and> \<not> lost b1 then led r else remote_led_is c)\<rparr>, r)"
proof -
  have sleep: "\<forall>b c r. \<exists>b'. started b' = None \<and> sleep (b, c, r) =
      (case started b of None \<Rightarrow> Returns () (b', c, r)
       | Some x \<Rightarrow> if lost b then Returns () (b', c, r) else omap_state (Pair b') (carry junk cd rd x (c, r)))"
    and x: "started b1 = (if rc = rc0 then Some (Lin_requested 0x10 1) else None)"
    using assms(3,4) by (auto simp: lin_driver_def)
  have "c\<lparr>remote_led_is := remote_led_is c\<rparr> = c" by simp
  then show thesis
    using sleep [rule_format, of b1 c r] x that status_carried [OF assms(1,2), of c r] by (auto split: if_splits)
qed

lemma loop_round:
  assumes "led_tables cd rd" and "junk \<noteq> []" and "lin_driver ops sleep started lost junk cd rd"
    and "on_its_way started junk b (remote_led_target c)"
  shows "\<exists>b' c' r'. commander_loop ops sleep junk cd (b, c, r) = Returns () (b', c', r') \<and>
    on_its_way started junk b' (remote_led_target c') \<and> remote_led_target c' = (\<not> remote_led_target c) \<and>
    led r' = (if arrives started lost b then remote_led_target c else led r) \<and>
    remote_led_is c' \<in> {led r', remote_led_is c} \<and>
    (lin_reliable ops lost \<longrightarrow> arrives started lost b' \<and> remote_led_is c' = led r')"
proof -
  let ?c = "c\<lparr>remote_led_target := \<not> remote_led_target c\<rparr>"
    and ?r = "r\<lparr>led := (if arrives started lost b then remote_led_target c else led r)\<rparr>"
  obtain b1 where b1: "sleep (b, ?c, r) = Returns () (b1, ?c, ?r)"
    using command_arrives [OF assms] by metis
  obtain rc b2 where b2: "lin_receive ops 0x10 LIN_CHECKSUM_AUTO 1 b1 = (rc, b2)" by fastforce
  obtain b3 where b3: "sleep (b2, ?c, ?r) =
      Returns () (b3, ?c\<lparr>remote_led_is := (if rc = rc0 \<and> \<not> lost b2 then led ?r else remote_led_is ?c)\<rparr>, ?r)"
    using status_arrives [OF assms(1-3) b2] by metis
  let ?c' = "?c\<lparr>remote_led_is := (if rc = rc0 \<and> \<not> lost b2 then led ?r else remote_led_is ?c)\<rparr>"
  obtain rc' b4 where b4: "lin_send ops (command_frame junk (\<not> remote_led_target c)) b3 = (rc', b4)" by fastforce
  then have sent: "started b4 = (if rc' = rc0 then Some (Lin_sent (command_frame junk (\<not> remote_led_target c))) else None)"
    using assms(3) by (simp add: lin_driver_def)
  have run: "commander_loop ops sleep junk cd (b, c, r) = Returns () (b4, ?c', ?r)"
    using b1 b2 b3 b4 by (simp add: commander_loop_def status_scheduled [OF assms(1)] command_scheduled [OF assms(1,2)])
  have "lin_reliable ops lost \<Longrightarrow> rc = rc0 \<and> rc' = rc0 \<and> \<not> lost b2 \<and> \<not> lost b4"
    using b2 b4 by (metis fst_conv lin_reliable_def)
  then show ?thesis using run sent by (auto simp: on_its_way_def arrives_def)
qed

lemma rounds_on_its_way:
  assumes "led_tables cd rd" and "junk \<noteq> []" and "lin_driver ops sleep started lost junk cd rd" and "started b = None"
  shows "\<exists>b' c' r'. commander_rounds ops sleep junk cd k (b, c, r) = Returns () (b', c', r') \<and>
    on_its_way started junk b' (remote_led_target c') \<and> remote_led_target c' = (remote_led_target c \<noteq> odd k) \<and>
    (lin_reliable ops lost \<and> 0 < k \<longrightarrow> arrives started lost b')"
proof (induction k)
  case 0
  then show ?case using assms(4) by (simp add: on_its_way_def)
next
  case (Suc k)
  then obtain b1 c1 r1 where "commander_rounds ops sleep junk cd k (b, c, r) = Returns () (b1, c1, r1)"
    and "on_its_way started junk b1 (remote_led_target c1)" and "remote_led_target c1 = (remote_led_target c \<noteq> odd k)" by blast
  with loop_round [OF assms(1-3) this(2), of r1] show ?case by auto
qed

text \<open>
  (C33) The LED of the responder follows the commander. The driver of the LIN bus is supposed to start each transfer or to refuse it,
  and to carry it out or to lose it within the half second of sleep, calling the callbacks of both boards. Then after the setup
  of both nodes every round of the commander's loop is defined; the target of the commander changes; the LED takes the target of
  the round before if the command of that round was accepted by the driver and not lost, and keeps its state otherwise;
  and the state that the commander knows is that of the LED or the one it knew before. On a bus without errors the
  LED of every later round has the target of the round before, and the commander knows it.
\<close>

theorem led_follows_commander:
  assumes "lin_free n cd" and "lin_free m rd" and "junk \<noteq> []"
    and "\<And>cd rd. lin_driver ops (sleep cd rd) started lost junk cd rd" and "started b = None"
  shows "\<exists>cd' rd'. commander_main True n cd = (rc0, cd') \<and> responder_main True m rd = (rc0, rd') \<and>
    (\<forall>k c r. \<exists>b1 c1 r1 b2 c2 r2.
      commander_rounds ops (sleep cd' rd') junk cd' k (b, c, r) = Returns () (b1, c1, r1) \<and>
      commander_rounds ops (sleep cd' rd') junk cd' (Suc k) (b, c, r) = Returns () (b2, c2, r2) \<and>
      remote_led_target c1 = (remote_led_target c \<noteq> odd k) \<and> remote_led_target c2 = (\<not> remote_led_target c1) \<and>
      led r2 = (if started b1 \<noteq> None \<and> \<not> lost b1 then remote_led_target c1 else led r1) \<and>
      remote_led_is c2 \<in> {led r2, remote_led_is c1} \<and>
      (lin_reliable ops lost \<longrightarrow> remote_led_is c2 = led r2 \<and> (0 < k \<longrightarrow> led r2 = remote_led_target c1)))"
proof -
  obtain cd' rd' where s: "commander_main True n cd = (rc0, cd')" "responder_main True m rd = (rc0, rd')" "led_tables cd' rd'"
    using led_setup [OF assms(1,2)] by blast
  note driver = assms(4) [of cd' rd']
  have "\<exists>b1 c1 r1 b2 c2 r2.
      commander_rounds ops (sleep cd' rd') junk cd' k (b, c, r) = Returns () (b1, c1, r1) \<and>
      commander_rounds ops (sleep cd' rd') junk cd' (Suc k) (b, c, r) = Returns () (b2, c2, r2) \<and>
      remote_led_target c1 = (remote_led_target c \<noteq> odd k) \<and> remote_led_target c2 = (\<not> remote_led_target c1) \<and>
      led r2 = (if started b1 \<noteq> None \<and> \<not> lost b1 then remote_led_target c1 else led r1) \<and>
      remote_led_is c2 \<in> {led r2, remote_led_is c1} \<and>
      (lin_reliable ops lost \<longrightarrow> remote_led_is c2 = led r2 \<and> (0 < k \<longrightarrow> led r2 = remote_led_target c1))" for k c r
  proof -
    obtain b1 c1 r1 where k: "commander_rounds ops (sleep cd' rd') junk cd' k (b, c, r) = Returns () (b1, c1, r1)"
      "on_its_way started junk b1 (remote_led_target c1)" "remote_led_target c1 = (remote_led_target c \<noteq> odd k)"
      "lin_reliable ops lost \<and> 0 < k \<longrightarrow> arrives started lost b1"
      using rounds_on_its_way [OF s(3) assms(3) driver assms(5), of k c r] by blast
    obtain b2 c2 r2 where step: "commander_loop ops (sleep cd' rd') junk cd' (b1, c1, r1) = Returns () (b2, c2, r2)"
      "remote_led_target c2 = (\<not> remote_led_target c1)"
      "led r2 = (if arrives started lost b1 then remote_led_target c1 else led r1)" "remote_led_is c2 \<in> {led r2, remote_led_is c1}"
      "lin_reliable ops lost \<longrightarrow> remote_led_is c2 = led r2"
      using loop_round [OF s(3) assms(3) driver k(2), of r1] by blast
    have two: "commander_rounds ops (sleep cd' rd') junk cd' (Suc k) (b, c, r) = Returns () (b2, c2, r2)" using k(1) step(1) by simp
    have rel: "lin_reliable ops lost \<longrightarrow> remote_led_is c2 = led r2 \<and> (0 < k \<longrightarrow> led r2 = remote_led_target c1)"
      using step(3,5) k(4) by (auto simp del: commander_rounds.simps)
    show ?thesis
      by (rule exI [of _ b1], rule exI [of _ c1], rule exI [of _ r1], rule exI [of _ b2], rule exI [of _ c2], rule exI [of _ r2], intro conjI)
        (fact k(1) two k(3) step(2) step(3) [unfolded arrives_def] step(4) rel)+
  qed
  then show ?thesis using s(1,2) by blast
qed

definition demo_table :: "(led_cb, led_cb, unit) abstract_lin_data" where
  "demo_table = \<lparr>callbacks = replicate 2 (led_entry 0 (INCOMING Fn_status_callback)), used_callbacks = 0\<rparr>"

text \<open>A driver that starts every transfer and loses some of them: those for which its list says so.\<close>

definition demo_lin_ops :: "(lin_transfer option \<times> bool list) lin_bus_ops" where
  "demo_lin_ops = \<lparr>lin_receive = \<lambda>i _ len (_, l). (rc0, Some (Lin_requested i len), l), lin_send = \<lambda>f (_, l). (rc0, Some (Lin_sent f), l),
     lin_set_mode = \<lambda>_ b. (rc0, b), lin_set_header_callback = \<lambda>b. (rc0, b), lin_set_rx_callback = \<lambda>b. (rc0, b)\<rparr>"

definition demo_lost :: "lin_transfer option \<times> bool list \<Rightarrow> bool" where
  "demo_lost b = (snd b \<noteq> [] \<and> hd (snd b))"

definition demo_sleep where
  "demo_sleep junk cd rd = (\<lambda>(b, c, r).
     case fst b of
       None \<Rightarrow> Returns () (b, c, r)
     | Some x \<Rightarrow>
         if demo_lost b then Returns () ((None, tl (snd b)), c, r)
         else omap_state (Pair (None, tl (snd b))) (carry junk cd rd x (c, r)))"

lemma demo_driver: "lin_driver demo_lin_ops (demo_sleep junk cd rd) fst demo_lost junk cd rd"
proof -
  have "\<exists>b'. fst b' = None \<and> demo_sleep junk cd rd (b, c, r) =
      (case fst b of None \<Rightarrow> Returns () (b', c, r)
       | Some x \<Rightarrow> if demo_lost b then Returns () (b', c, r) else omap_state (Pair b') (carry junk cd rd x (c, r)))" for b c r
    by (cases "fst b"; rule exI [of _ "if fst b = None then b else (None, tl (snd b))"]) (simp_all add: demo_sleep_def)
  then show ?thesis by (simp add: lin_driver_def demo_lin_ops_def split_beta)
qed

theorem led_follows_commander_witness:
  "\<exists>cd' rd' b1 c1 r1. commander_main True 2 demo_table = (rc0, cd') \<and> responder_main True 2 demo_table = (rc0, rd') \<and>
    commander_rounds demo_lin_ops (demo_sleep (replicate 8 0) cd' rd') (replicate 8 0) cd' 2
      ((None, [False, True]), \<lparr>remote_led_target = False, remote_led_is = False\<rparr>, \<lparr>led = False\<rparr>) = Returns () (b1, c1, r1) \<and>
    remote_led_target c1 = (False \<noteq> odd (2 :: nat))"
proof -
  have free: "lin_free 2 demo_table" by (simp add: lin_free_def lin_wf_def demo_table_def entries_def lin_lookup_def)
  let ?c = "\<lparr>remote_led_target = False, remote_led_is = False\<rparr>" and ?r = "\<lparr>led = False\<rparr>"
  obtain cd' rd' where main: "commander_main True 2 demo_table = (rc0, cd')" "responder_main True 2 demo_table = (rc0, rd')"
    and rounds: "\<forall>k c r. \<exists>b1 c1 r1 b2 c2 r2.
      commander_rounds demo_lin_ops (demo_sleep (replicate 8 0) cd' rd') (replicate 8 0) cd' k ((None, [False, True]), c, r) = Returns () (b1, c1, r1) \<and>
      commander_rounds demo_lin_ops (demo_sleep (replicate 8 0) cd' rd') (replicate 8 0) cd' (Suc k) ((None, [False, True]), c, r) = Returns () (b2, c2, r2) \<and>
      remote_led_target c1 = (remote_led_target c \<noteq> odd k) \<and> remote_led_target c2 = (\<not> remote_led_target c1) \<and>
      led r2 = (if fst b1 \<noteq> None \<and> \<not> demo_lost b1 then remote_led_target c1 else led r1) \<and>
      remote_led_is c2 \<in> {led r2, remote_led_is c1} \<and>
      (lin_reliable demo_lin_ops demo_lost \<longrightarrow> remote_led_is c2 = led r2 \<and> (0 < k \<longrightarrow> led r2 = remote_led_target c1))"
    using led_follows_commander [where sleep = "demo_sleep (replicate 8 0)" and b = "(None, [False, True])" and started = fst,
        OF free free _ demo_driver] by (simp del: commander_rounds.simps) blast
  show ?thesis using main spec [OF spec [OF spec [OF rounds, of 2], of ?c], of ?r] by (simp del: commander_rounds.simps) blast
qed

section \<open>The commander with a scheduler\<close>

definition table1 :: abstract_lin_schedule_table_t where
  "table1 = [\<lparr>se_frame_id = 0x10, se_delay = 500\<rparr>, \<lparr>se_frame_id = 0x11, se_delay = 500\<rparr>]"

definition table2 :: abstract_lin_schedule_table_t where
  "table2 = [\<lparr>se_frame_id = 0x10, se_delay = 125\<rparr>, \<lparr>se_frame_id = 0x11, se_delay = 125\<rparr>]"

definition sample_tables :: "abstract_lin_schedule_table_t list" where
  "sample_tables = [table1, table2]"

text \<open>The calls of a round of the loop in \<^verbatim>\<open>main\<close>.\<close>

definition scheduler_main_loop :: "scheduler_event list" where
  "scheduler_main_loop = [Set_active_table 0 rc0, Set_active_table 1 rc0, Disable]"

definition scheduled :: "scheduler_event list \<Rightarrow> u8 list" where
  "scheduled es = concat (map (\<lambda>e. case e of Schedule_now f \<Rightarrow> [f] | _ \<Rightarrow> []) es)"

text \<open>The frames that the scheduler schedules one after the other, for any driver of the bus.\<close>

fun schedule_all where
  "schedule_all ops junk cd [] b c = Returns b c"
| "schedule_all ops junk cd (k # ks) b c =
     (case al_schedule_now LIN_MODE_COMMANDER ops (commander_callbacks True) junk k cd b c of
        Returns (_, b) c \<Rightarrow> schedule_all ops junk cd ks b c
      | _ \<Rightarrow> Undefined)"

lemma spec_scheduled:
  assumes "\<forall>table \<in> set T. table \<noteq> [] \<and> (\<forall>e \<in> set table. se_frame_id e \<in> K)"
  shows "scheduler_spec T a es \<Longrightarrow> (\<forall>t k. a = Some (t, k) \<longrightarrow> t < length T) \<Longrightarrow> set (scheduled es) \<subseteq> K"
  using assms
proof (induction T a es rule: scheduler_spec.induct)
  case (3 T a f es)
  then obtain t k where a: "a = Some (t, k)" "f = se_frame_id (T ! t ! (k mod length (T ! t)))" "scheduler_spec T (Some (t, Suc k)) es"
    by (auto split: option.splits)
  then have t: "t < length T" using "3.prems"(2) by simp
  then have T: "T ! t \<in> set T" by simp
  then have "T ! t ! (k mod length (T ! t)) \<in> set (T ! t)" using "3.prems"(3) by (intro nth_mem mod_less_divisor) auto
  then have "f \<in> K" using "3.prems"(3) a(2) T by blast
  moreover have "set (scheduled es) \<subseteq> K" using "3.IH" [OF a(1) refl a(3)] t "3.prems"(3) by simp
  ultimately show ?case by (simp add: scheduled_def)
qed (auto simp: scheduled_def split: if_splits)

lemma sample_tables_ids: "\<forall>table \<in> set sample_tables. table \<noteq> [] \<and> (\<forall>e \<in> set table. se_frame_id e \<in> {0x10, 0x11})"
  by (simp add: sample_tables_def table1_def table2_def)

lemma scheduled_state:
  assumes "led_tables cd rd" and "junk \<noteq> []" and "set ks \<subseteq> {0x10, 0x11}"
  shows "\<exists>b' c'. schedule_all ops junk cd ks b c = Returns b' c' \<and>
    remote_led_target c' = (remote_led_target c \<noteq> odd (count_list ks 0x11))"
  using assms(3)
proof (induction ks arbitrary: b c)
  case (Cons k ks)
  show ?case
  proof (cases "k = 0x11")
    case True
    obtain rc b1 where "lin_send ops (command_frame junk (remote_led_target c)) b = (rc, b1)" by fastforce
    then show ?thesis
      using Cons.IH [of b1 "c\<lparr>remote_led_target := \<not> remote_led_target c\<rparr>"] Cons.prems True
        command_scheduled [OF assms(1,2), of ops True b c] by auto
  next
    case False
    then have k: "k = 0x10" using Cons.prems by simp
    obtain rc b1 where "lin_receive ops 0x10 LIN_CHECKSUM_AUTO 1 b = (rc, b1)" by fastforce
    then show ?thesis
      using Cons.IH [of b1 c] Cons.prems k status_scheduled [OF assms(1), of ops True junk b c] by auto
  qed
qed auto

text \<open>
  The commander under the scheduler: whatever the thread of the scheduler and its client do, and whatever the driver of the bus answers, only
  the two frames of the sample are scheduled, and the target of the commander changes with every command.
\<close>

theorem commander_under_scheduler:
  assumes "scheduler_run (At_start, scheduler_init sample_tables None) es st" and "led_tables cd rd" and "junk \<noteq> []"
  shows "set (scheduled es) \<subseteq> {0x10, 0x11} \<and>
    (\<exists>b' c'. schedule_all ops junk cd (scheduled es) b c = Returns b' c' \<and>
      remote_led_target c' = (remote_led_target c \<noteq> odd (count_list (scheduled es) 0x11)))"
proof -
  have "scheduler_inv (At_start, scheduler_init sample_tables None)"
    using sample_tables_ids by (intro scheduler_init_inv) auto
  moreover have "scheduler_abs (scheduler_init sample_tables None) None" by (simp add: scheduler_abs_def scheduler_init_def)
  ultimately have "scheduler_spec sample_tables None es"
    using scheduler_run_spec [OF assms(1)] by (simp add: scheduler_init_def)
  then have ids: "set (scheduled es) \<subseteq> {0x10, 0x11}" using spec_scheduled [OF sample_tables_ids] by simp
  show ?thesis using ids scheduled_state [OF assms(2,3) ids] by (rule conjI)
qed

definition demo_led_events :: "scheduler_event list" where
  "demo_led_events = [Internal, Set_active_table 0 rc0, Internal, Schedule_now 0x10, Internal, Internal, Internal, Schedule_now 0x11]"

lemma demo_led_run:
  "\<exists>st. scheduler_run (At_start, scheduler_init sample_tables None) demo_led_events st"
  unfolding demo_led_events_def scheduler_init_def sample_tables_def table1_def table2_def
  by (rule exI, (rule scheduler_run_Cons_thread scheduler_run_Cons_set scheduler_run.Run_nil,
      simp add: scheduler_entry_def abstract_lin_scheduler_set_active_table_def)+)
    (rule scheduler_run.Run_nil)

theorem commander_under_scheduler_witness:
  "\<exists>cd' b' c'. commander_main True 2 demo_table = (rc0, cd') \<and>
    schedule_all demo_lin_ops (replicate 8 0) cd' [0x10, 0x11] (None, []) \<lparr>remote_led_target = True, remote_led_is = False\<rparr> = Returns b' c' \<and>
    \<not> remote_led_target c'"
proof -
  have free: "lin_free 2 demo_table" by (simp add: lin_free_def lin_wf_def demo_table_def entries_def lin_lookup_def)
  obtain cd' rd' where d: "commander_main True 2 demo_table = (rc0, cd')" "led_tables cd' rd'"
    using led_setup [OF free free] by blast
  obtain st where st: "scheduler_run (At_start, scheduler_init sample_tables None) demo_led_events st" using demo_led_run by blast
  have "scheduled demo_led_events = [0x10, 0x11]" by (simp add: scheduled_def demo_led_events_def)
  then show ?thesis
    using commander_under_scheduler [OF st d(2), of "replicate 8 0" demo_lin_ops "(None, [])" "\<lparr>remote_led_target = True, remote_led_is = False\<rparr>"] d(1)
    by (simp del: schedule_all.simps)
qed

end
