(* ===== verification/Lin2can.thy ===== *)
theory Lin2can
  imports Abstract_Lin Msgq
begin

text \<open>
  The virtual CAN controller over LIN (\<^verbatim>\<open>drivers/can/lin2can/lin2can.c\<close>), which carries the CAN frames of the
  ISO-TP stack in LIN frames: the index of the CAN identifier in a table of four travels in the two upper
  bits of the first byte. A node is the data of the driver and the state of the application that its
  callbacks change. \<open>'r\<close> and \<open>'t\<close> are the receive and transmit callbacks, \<open>'p\<close> their user data.
\<close>

section \<open>Data\<close>

text \<open>The configuration: the Kconfig options, and the masks that Zephyr's CAN API defines.\<close>

record lin2can_options =
  id_mapping :: "u32 list"
  MASTER_REQUEST_ID :: u8
  SLAVE_RESPONSE_ID :: u8
  OUTGOING_QUEUE_SIZE :: nat
  CAN_STD_ID_MASK :: u32
  CAN_EXT_ID_MASK :: u32

abbreviation TRANSLATABLE_ADDRESSES_LEN :: nat where
  "TRANSLATABLE_ADDRESSES_LEN \<equiv> 4"

record can_frame =
  cf_id :: u32
  cf_dlc :: u8
  cf_data :: "u8 list"

record can_filter =
  cfi_id :: u32
  cfi_mask :: u32

record ('r, 'p) lin2can_rx_entry =
  rx_callback :: "'r option"
  rx_user_data :: 'p

record ('t, 'p) lin2can_outgoing_frame_t =
  of_frame :: lin_frame
  of_callback :: "'t option"
  of_user_data :: 'p

record ('r, 't, 'p) lin2can_data =
  incoming_callbacks :: "('r, 'p) lin2can_rx_entry list"
  outgoing_frame_queue :: "('t, 'p) lin2can_outgoing_frame_t list"
  outgoing_id :: u8
  incoming_id :: u8

record ('r, 't, 'p, 'a) lin2can_callbacks =
  call_rx :: "'r \<Rightarrow> can_frame \<Rightarrow> 'p \<Rightarrow> 'a \<Rightarrow> 'a"
  call_tx :: "'t \<Rightarrow> 'p \<Rightarrow> 'a \<Rightarrow> 'a"

section \<open>Operations\<close>

fun map_from :: "nat \<Rightarrow> u32 list \<Rightarrow> u32 \<Rightarrow> u8" where
  "map_from i [] can_id = 0xff"
| "map_from i (x # xs) can_id = (if x = can_id then of_nat i else map_from (Suc i) xs can_id)"

definition map_from_can_id :: "lin2can_options \<Rightarrow> u32 \<Rightarrow> u8" where
  "map_from_can_id opt can_id = map_from 0 (id_mapping opt) can_id"

text \<open>\<open>memcpy\<close> of the first \<open>n\<close> bytes over the start of an array; it is undefined where one of the two is too short.\<close>

definition memcpy_into :: "u8 list \<Rightarrow> u8 list \<Rightarrow> nat \<Rightarrow> u8 list option" where
  "memcpy_into dst src n = (if n \<le> length dst \<and> n \<le> length src then Some (take n src @ drop n dst) else None)"

text \<open>A null transmit callback is called like any other: undefined.\<close>

definition lin_outgoing_cb ::
  "('t, 'p) lin2can_outgoing_frame_t msgq_ops \<Rightarrow> ('r, 't, 'p, 'a) lin2can_callbacks \<Rightarrow> lin_frame \<Rightarrow> ('r, 't, 'p) lin2can_data \<times> 'a \<Rightarrow>
   (bool \<times> lin_frame, ('r, 't, 'p) lin2can_data \<times> 'a) outcome" where
  "lin_outgoing_cb mq cbs frame w =
     (case w of (data, app) \<Rightarrow>
      case k_msgq_get mq (outgoing_frame_queue data) of
        None \<Rightarrow> Returns (False, frame) (data, app)
      | Some (outgoing, rest) \<Rightarrow>
          (let data = data\<lparr>outgoing_frame_queue := rest\<rparr> in
           case of_callback outgoing of
             None \<Rightarrow> Undefined
           | Some f \<Rightarrow> Returns (True, of_frame outgoing) (data, call_tx cbs f (of_user_data outgoing) app)))"

definition lin_incoming_cb ::
  "lin2can_options \<Rightarrow> ('r, 't, 'p, 'a) lin2can_callbacks \<Rightarrow> lin_frame \<Rightarrow> ('r, 't, 'p) lin2can_data \<times> 'a \<Rightarrow>
   (unit, ('r, 't, 'p) lin2can_data \<times> 'a) outcome" where
  "lin_incoming_cb opt cbs frame w =
     (case w of (data, app) \<Rightarrow>
      let mapped_id = unat (drop_bit 6 (lf_data frame ! 0)) in
      if mapped_id < TRANSLATABLE_ADDRESSES_LEN then
        (case rx_callback (incoming_callbacks data ! mapped_id) of
           None \<Rightarrow> Returns () (data, app)
         | Some f \<Rightarrow>
             (case memcpy_into (replicate 8 0) (lf_data frame) (unat (lf_len frame)) of
                None \<Rightarrow> Undefined
              | Some bytes \<Rightarrow>
                  let translated = \<lparr>cf_id = id_mapping opt ! mapped_id, cf_dlc = 8, cf_data = bytes[0 := (lf_data frame ! 0) AND 0x3f]\<rparr>
                  in Returns () (data, call_rx cbs f translated (rx_user_data (incoming_callbacks data ! mapped_id)) app)))
      else Undefined)"

definition lin2can_add_rx_filter ::
  "lin2can_options \<Rightarrow> 'r option \<Rightarrow> 'p \<Rightarrow> can_filter \<Rightarrow> ('r, 't, 'p) lin2can_data \<Rightarrow> c_int \<times> ('r, 't, 'p) lin2can_data" where
  "lin2can_add_rx_filter opt callback user_data flt data =
     (if cfi_mask flt AND 0x7FF = 0 then
        if \<exists>e \<in> set (take TRANSLATABLE_ADDRESSES_LEN (incoming_callbacks data)). rx_callback e \<noteq> None then (Inl ENOSPC, data)
        else (Inr TRANSLATABLE_ADDRESSES_LEN,
          data\<lparr>incoming_callbacks := map (\<lambda>e. e\<lparr>rx_callback := callback, rx_user_data := user_data\<rparr>) (incoming_callbacks data)\<rparr>)
      else if cfi_mask flt \<noteq> CAN_STD_ID_MASK opt \<and> cfi_mask flt \<noteq> CAN_EXT_ID_MASK opt then (Inl ENOTSUP, data)
      else
        let mapped_id = map_from_can_id opt (cfi_id flt) in
        if mapped_id = 0xff then (Inl ENOTSUP, data)
        else if rx_callback (incoming_callbacks data ! unat mapped_id) \<noteq> None then (Inl ENOSPC, data)
        else (Inr (unat mapped_id),
          data\<lparr>incoming_callbacks := (incoming_callbacks data)[unat mapped_id :=
             \<lparr>rx_callback = callback, rx_user_data = user_data\<rparr>]\<rparr>))"

text \<open>A negative filter id indexes before the array.\<close>

definition lin2can_remove_rx_filter :: "int \<Rightarrow> ('r, 't, 'p) lin2can_data \<Rightarrow> (unit, ('r, 't, 'p) lin2can_data) outcome" where
  "lin2can_remove_rx_filter filter_id data =
     (if filter_id = int TRANSLATABLE_ADDRESSES_LEN
      then Returns () (data\<lparr>incoming_callbacks := map (\<lambda>e. e\<lparr>rx_callback := None\<rparr>) (incoming_callbacks data)\<rparr>)
      else if filter_id \<ge> int TRANSLATABLE_ADDRESSES_LEN then Returns () data
      else if filter_id < 0 then Undefined
      else
        let e = incoming_callbacks data ! nat filter_id in
        Returns () (data\<lparr>incoming_callbacks := (incoming_callbacks data)[nat filter_id := e\<lparr>rx_callback := None\<rparr>]\<rparr>))"

text \<open>
  \<open>k_msgq_put\<close> waits for a place in the queue up to the timeout; \<open>data\<close> is the state when it returns.
\<close>

definition lin2can_send ::
  "lin2can_options \<Rightarrow> ('t, 'p) lin2can_outgoing_frame_t msgq_ops \<Rightarrow> can_frame \<Rightarrow> 't option \<Rightarrow> 'p \<Rightarrow> ('r, 't, 'p) lin2can_data \<Rightarrow> (c_int, ('r, 't, 'p) lin2can_data) outcome" where
  "lin2can_send opt mq frame callback user_data data =
     (let mapped_id = map_from_can_id opt (cf_id frame) in
      if mapped_id = 0xff then Returns (Inl EINVAL) data
      else
        (case memcpy_into (replicate 8 0xFF) (cf_data frame) (unat (cf_dlc frame)) of
           None \<Rightarrow> Undefined
         | Some bytes \<Rightarrow>
             let outgoing = \<lparr>of_frame = \<lparr>lf_id = outgoing_id data, lf_len = 8, lf_type = LIN_CHECKSUM_AUTO,
                   lf_data = bytes[0 := (bytes ! 0) OR push_bit 6 mapped_id]\<rparr>, of_callback = callback, of_user_data = user_data\<rparr>
             in (case k_msgq_put mq (OUTGOING_QUEUE_SIZE opt) outgoing (outgoing_frame_queue data) of
                   (err, q) \<Rightarrow> Returns err (data\<lparr>outgoing_frame_queue := q\<rparr>))))"

datatype lin2can_incoming = Lin_incoming_cb
datatype lin2can_outgoing = Lin_outgoing_cb

type_synonym lin2can_lin = "(lin2can_incoming, lin2can_outgoing, unit) abstract_lin_data"

definition lin2can_init ::
  "lin2can_options \<Rightarrow> nat \<Rightarrow> lin_mode \<Rightarrow> ('r, 't, 'p) lin2can_data \<times> lin2can_lin \<Rightarrow> c_int \<times> ('r, 't, 'p) lin2can_data \<times> lin2can_lin" where
  "lin2can_init opt n mode w =
     (case w of (data, lin) \<Rightarrow>
      let data = data\<lparr>incoming_callbacks := map (\<lambda>e. e\<lparr>rx_callback := None\<rparr>) (incoming_callbacks data)\<rparr>;
        data = (if mode = LIN_MODE_COMMANDER
          then data\<lparr>incoming_id := SLAVE_RESPONSE_ID opt, outgoing_id := MASTER_REQUEST_ID opt\<rparr>
          else data\<lparr>incoming_id := MASTER_REQUEST_ID opt, outgoing_id := SLAVE_RESPONSE_ID opt\<rparr>)
      in case al_register_incoming_cb n (Some Lin_incoming_cb) (incoming_id data) 8 () lin of (err, lin) \<Rightarrow>
         if err \<noteq> rc0 then (err, data, lin)
         else (case al_register_outgoing_cb n (Some Lin_outgoing_cb) (outgoing_id data) 8 () lin of (err, lin) \<Rightarrow>
         if err \<noteq> rc0 then (err, data, lin) else (rc0, data, lin)))"

section \<open>The first byte\<close>

lemma map_from_found: "map_from i xs can_id \<noteq> 0xff \<Longrightarrow> i + length xs \<le> 255 \<Longrightarrow>
  \<exists>j < length xs. map_from i xs can_id = of_nat (i + j) \<and> xs ! j = can_id"
proof (induction xs arbitrary: i)
  case (Cons x xs)
  show ?case
  proof (cases "x = can_id")
    case True
    then show ?thesis by (intro exI [of _ 0]) simp
  next
    case False
    then obtain j where "j < length xs" "map_from (Suc i) xs can_id = of_nat (Suc i + j)" "xs ! j = can_id"
      using Cons.IH [of "Suc i"] Cons.prems by auto
    then show ?thesis using False by (intro exI [of _ "Suc j"]) simp
  qed
qed simp

lemma map_from_can_id_found:
  assumes "map_from_can_id opt can_id \<noteq> 0xff" and "length (id_mapping opt) = TRANSLATABLE_ADDRESSES_LEN"
  shows "unat (map_from_can_id opt can_id) < TRANSLATABLE_ADDRESSES_LEN"
    and "id_mapping opt ! unat (map_from_can_id opt can_id) = can_id"
proof -
  obtain j where j: "j < 4" "map_from_can_id opt can_id = of_nat j" "id_mapping opt ! j = can_id"
    using map_from_found [of 0 "id_mapping opt" can_id] assms by (auto simp: map_from_can_id_def)
  then have "unat (map_from_can_id opt can_id) = j" by (simp add: unat_of_nat)
  then show "unat (map_from_can_id opt can_id) < TRANSLATABLE_ADDRESSES_LEN"
    and "id_mapping opt ! unat (map_from_can_id opt can_id) = can_id" using j by simp_all
qed

lemma first_byte_decode:
  fixes b m :: u8
  assumes "b < 0x40" and "unat m < 4"
  shows "drop_bit 6 (b OR push_bit 6 m) = m" and "(b OR push_bit 6 m) AND 0x3f = b"
proof -
  have take: "take_bit 6 b = b"
    by (rule word_unat_eq_iff [THEN iffD2]) (use assms(1) in \<open>simp add: unsigned_take_bit_eq take_bit_nat_eq_self_iff word_less_nat_alt\<close>)
  then have "drop_bit 6 b = 0" by (metis drop_bit_take_bit diff_self_eq_0 take_bit_0)
  moreover have "b AND 0x3f = b"
    using take by (simp add: take_bit_eq_mask mask_eq_exp_minus_1)
  moreover from assms(2) have "unat m = 0 \<or> unat m = 1 \<or> unat m = 2 \<or> unat m = 3" by auto
  then have "m = 0 \<or> m = 1 \<or> m = 2 \<or> m = 3" by (auto simp: word_unat_eq_iff)
  ultimately show "drop_bit 6 (b OR push_bit 6 m) = m" and "(b OR push_bit 6 m) AND 0x3f = b"
    by (auto simp: bit.conj_disj_distrib2 drop_bit_or)
qed

section \<open>From CAN to LIN and back\<close>

lemma memcpy_into_Some:
  "memcpy_into dst src n = Some bytes \<longleftrightarrow> n \<le> length dst \<and> n \<le> length src \<and> bytes = take n src @ drop n dst"
  by (auto simp: memcpy_into_def)

text \<open>The LIN frame that carries a CAN frame.\<close>

definition carrier :: "u8 \<Rightarrow> u8 \<Rightarrow> can_frame \<Rightarrow> lin_frame" where
  "carrier lin_id m frame =
     (let bytes = take (unat (cf_dlc frame)) (cf_data frame) @ replicate (8 - unat (cf_dlc frame)) 0xFF
      in \<lparr>lf_id = lin_id, lf_len = 8, lf_type = LIN_CHECKSUM_AUTO, lf_data = bytes[0 := (bytes ! 0) OR push_bit 6 m]\<rparr>)"

lemma lin2can_send_ok:
  assumes mq: "msgq_contract mq" and "lin2can_send opt mq frame callback user_data data = Returns rc0 data'"
  shows "map_from_can_id opt (cf_id frame) \<noteq> 0xff"
    and "data' = data\<lparr>outgoing_frame_queue := outgoing_frame_queue data @
      [\<lparr>of_frame = carrier (outgoing_id data) (map_from_can_id opt (cf_id frame)) frame, of_callback = callback, of_user_data = user_data\<rparr>]\<rparr>"
    and "length (cf_data frame) \<ge> unat (cf_dlc frame)" and "unat (cf_dlc frame) \<le> 8"
  using assms(2)
  by (auto dest: msgq_putD [OF mq] simp: lin2can_send_def Let_def carrier_def memcpy_into_Some split: if_splits option.splits prod.splits)

lemma carrier_data:
  assumes "1 \<le> unat (cf_dlc frame)" and "unat (cf_dlc frame) \<le> 8" and "unat (cf_dlc frame) \<le> length (cf_data frame)"
  shows "length (lf_data (carrier lin_id m frame)) = 8"
    and "lf_data (carrier lin_id m frame) ! 0 = cf_data frame ! 0 OR push_bit 6 m"
    and "(lf_data (carrier lin_id m frame))[0 := cf_data frame ! 0] =
      take (unat (cf_dlc frame)) (cf_data frame) @ replicate (8 - unat (cf_dlc frame)) 0xFF"
proof -
  obtain x xs n where x: "cf_data frame = x # xs" and n: "unat (cf_dlc frame) = Suc n"
    using assms by (cases "cf_data frame"; cases "unat (cf_dlc frame)") auto
  show "length (lf_data (carrier lin_id m frame)) = 8"
    and "lf_data (carrier lin_id m frame) ! 0 = cf_data frame ! 0 OR push_bit 6 m"
    and "(lf_data (carrier lin_id m frame))[0 := cf_data frame ! 0] =
      take (unat (cf_dlc frame)) (cf_data frame) @ replicate (8 - unat (cf_dlc frame)) 0xFF"
    using assms x n by (simp_all add: carrier_def)
qed

lemma lin_incoming_carrier:
  assumes "1 \<le> unat (cf_dlc frame)" and "unat (cf_dlc frame) \<le> 8" and "unat (cf_dlc frame) \<le> length (cf_data frame)"
    and "cf_data frame ! 0 < 0x40" and "unat m < TRANSLATABLE_ADDRESSES_LEN"
    and "incoming_callbacks data ! unat m = \<lparr>rx_callback = Some f, rx_user_data = u\<rparr>"
  shows "lin_incoming_cb opt cbs (carrier lin_id m frame) (data, app) =
    Returns () (data, call_rx cbs f \<lparr>cf_id = id_mapping opt ! unat m, cf_dlc = 8,
      cf_data = take (unat (cf_dlc frame)) (cf_data frame) @ replicate (8 - unat (cf_dlc frame)) 0xFF\<rparr> u app)"
proof -
  note data = carrier_data [OF assms(1-3), where lin_id = lin_id and m = m]
  have "lf_len (carrier lin_id m frame) = 8" by (simp add: carrier_def Let_def)
  moreover have "memcpy_into (replicate 8 0) (lf_data (carrier lin_id m frame)) 8 = Some (lf_data (carrier lin_id m frame))"
    using data(1) by (simp add: memcpy_into_def)
  ultimately show ?thesis
    using first_byte_decode [OF assms(4,5)] assms(5,6) data(2,3) by (simp add: lin_incoming_cb_def Let_def)
qed

section \<open>Two nodes on a bus\<close>

text \<open>The callbacks that the abstract LIN driver of a node calls.\<close>

definition node_callbacks ::
  "lin2can_options \<Rightarrow> ('t, 'p) lin2can_outgoing_frame_t msgq_ops \<Rightarrow> ('r, 't, 'p, 'a) lin2can_callbacks \<Rightarrow>
   (lin2can_incoming, lin2can_outgoing, unit, ('r, 't, 'p) lin2can_data \<times> 'a) lin_callbacks" where
  "node_callbacks opt mq cbs =
     \<lparr>call_incoming = (\<lambda>_ frame _. lin_incoming_cb opt cbs frame), call_outgoing = (\<lambda>_ frame _. lin_outgoing_cb mq cbs frame)\<rparr>"

definition lin_in :: "lin2can_options \<Rightarrow> lin_mode \<Rightarrow> u8" where
  "lin_in opt mode = (if mode = LIN_MODE_COMMANDER then SLAVE_RESPONSE_ID opt else MASTER_REQUEST_ID opt)"

definition lin_out :: "lin2can_options \<Rightarrow> lin_mode \<Rightarrow> u8" where
  "lin_out opt mode = (if mode = LIN_MODE_COMMANDER then MASTER_REQUEST_ID opt else SLAVE_RESPONSE_ID opt)"

text \<open>After its initialisation a node listens on one LIN id and talks on the other.\<close>

lemma lin2can_init_ok:
  assumes "lin_wf n lin" and "lin2can_init opt n mode (data, lin) = (rc0, data', lin')"
  shows "lin_wf n lin'"
    and "lin_lookup lin' (lin_out opt mode) = Some \<lparr>cb_frame_id = lin_out opt mode, cb_frame_size = 8,
      cb_callback = OUTGOING Lin_outgoing_cb, cb_user_data = ()\<rparr>"
    and "lin_lookup lin' (lin_in opt mode) = Some \<lparr>cb_frame_id = lin_in opt mode, cb_frame_size = 8,
      cb_callback = INCOMING Lin_incoming_cb, cb_user_data = ()\<rparr>"
    and "data' = data\<lparr>incoming_callbacks := map (\<lambda>e. e\<lparr>rx_callback := None\<rparr>) (incoming_callbacks data),
      outgoing_id := lin_out opt mode, incoming_id := lin_in opt mode\<rparr>"
proof -
  obtain l where one: "al_register n (Some (INCOMING Lin_incoming_cb)) (lin_in opt mode) 8 () lin = (rc0, l)"
    and two: "al_register n (Some (OUTGOING Lin_outgoing_cb)) (lin_out opt mode) 8 () l = (rc0, lin')"
    and data': "data' = data\<lparr>incoming_callbacks := map (\<lambda>e. e\<lparr>rx_callback := None\<rparr>) (incoming_callbacks data),
      outgoing_id := lin_out opt mode, incoming_id := lin_in opt mode\<rparr>"
    using assms(2)
    by (auto simp: lin2can_init_def lin_in_def lin_out_def Let_def al_register_incoming_cb_def al_register_outgoing_cb_def
        split: if_splits prod.splits)
  have wf: "lin_wf n l" by (rule al_register_ok(3) [OF assms(1) one])
  show "lin_wf n lin'" by (rule al_register_ok(3) [OF wf two])
  have "lin_lookup l (lin_out opt mode) = None" by (rule al_register_ok(2) [OF wf two])
  then have "lin_out opt mode \<noteq> lin_in opt mode" using al_register_lookup [OF assms(1) one] by auto
  then show "lin_lookup lin' (lin_out opt mode) = Some \<lparr>cb_frame_id = lin_out opt mode, cb_frame_size = 8,
      cb_callback = OUTGOING Lin_outgoing_cb, cb_user_data = ()\<rparr>"
    and "lin_lookup lin' (lin_in opt mode) = Some \<lparr>cb_frame_id = lin_in opt mode, cb_frame_size = 8,
      cb_callback = INCOMING Lin_incoming_cb, cb_user_data = ()\<rparr>"
    using al_register_lookup [OF wf two] al_register_lookup [OF assms(1) one] by simp_all
qed (use assms(2) in \<open>auto simp: lin2can_init_def lin_in_def lin_out_def Let_def split: if_splits prod.splits\<close>)

lemma single_id_filter:
  assumes "lin2can_add_rx_filter opt (Some f) u flt data = (Inr k, data')" and "k < TRANSLATABLE_ADDRESSES_LEN"
    and "length (id_mapping opt) = TRANSLATABLE_ADDRESSES_LEN" and "length (incoming_callbacks data) = TRANSLATABLE_ADDRESSES_LEN"
  shows "map_from_can_id opt (cfi_id flt) \<noteq> 0xff" and "k = unat (map_from_can_id opt (cfi_id flt))"
    and "incoming_callbacks data' ! k = \<lparr>rx_callback = Some f, rx_user_data = u\<rparr>"
proof -
  show *: "map_from_can_id opt (cfi_id flt) \<noteq> 0xff" and "k = unat (map_from_can_id opt (cfi_id flt))"
    using assms(1,2) by (auto simp: lin2can_add_rx_filter_def Let_def split: if_splits)
  show "incoming_callbacks data' ! k = \<lparr>rx_callback = Some f, rx_user_data = u\<rparr>"
    using assms map_from_can_id_found(1) [OF * assms(3)]
    by (auto simp: lin2can_add_rx_filter_def Let_def split: if_splits)
qed

text \<open>Frames that are given to a controller one after the other, each of them accepted.\<close>

fun send_all :: "lin2can_options \<Rightarrow> ('t, 'p) lin2can_outgoing_frame_t msgq_ops \<Rightarrow> (can_frame \<times> 't \<times> 'p) list \<Rightarrow> ('r, 't, 'p) lin2can_data \<Rightarrow> ('r, 't, 'p) lin2can_data option" where
  "send_all opt mq [] data = Some data"
| "send_all opt mq ((frame, t, u) # fs) data =
     (case lin2can_send opt mq frame (Some t) u data of
        Returns rc data' \<Rightarrow> if rc = rc0 then send_all opt mq fs data' else None
      | _ \<Rightarrow> None)"

lemma send_all_ok:
  assumes mq: "msgq_contract mq" and "send_all opt mq fs data = Some data'"
  shows "data' = data\<lparr>outgoing_frame_queue := outgoing_frame_queue data @
      map (\<lambda>(frame, t, u). \<lparr>of_frame = carrier (outgoing_id data) (map_from_can_id opt (cf_id frame)) frame, of_callback = Some t, of_user_data = u\<rparr>) fs\<rparr> \<and>
    (\<forall>(frame, t, u) \<in> set fs. map_from_can_id opt (cf_id frame) \<noteq> 0xff \<and>
      unat (cf_dlc frame) \<le> length (cf_data frame) \<and> unat (cf_dlc frame) \<le> 8)"
  using assms(2)
proof (induction fs arbitrary: data)
  case (Cons x fs)
  obtain frame t u where x: "x = (frame, t, u)" by (cases x)
  from Cons.prems obtain d where s: "lin2can_send opt mq frame (Some t) u data = Returns rc0 d" and "send_all opt mq fs d = Some data'"
    by (auto simp: x split: outcome.splits if_splits)
  from Cons.IH [OF this(2)] lin2can_send_ok [OF mq s] show ?case by (simp add: x)
qed simp

section \<open>Properties\<close>

text \<open>
  (C24) CAN frames cross the LIN bus in order: with message queues that keep the contract of the kernel, a commander whose controller was initialised with an empty queue, and that then accepted
  any number of frames for sending, gives the first frame of the queue to the LIN bus each time the request frame is scheduled, takes it
  out of the queue, and tells its transmit callback; and where this LIN frame is received, the controller of a responder that
  has a callback for the CAN identifier hands it a frame with the same identifier and the payload, padded to eight bytes, with the
  length eight. This is for frames of at least one byte that leave the two upper bits of the first byte free, as those of ISO-TP do.
\<close>

theorem can_frame_crosses_lin:
  assumes mq: "msgq_contract mq" and lin: "lin_wf n lin_a" "lin_wf n lin_b" and ids: "length (id_mapping opt) = TRANSLATABLE_ADDRESSES_LEN"
    and init_a: "lin2can_init opt n LIN_MODE_COMMANDER (da, lin_a) = (rc0, da', lin_a')" and "outgoing_frame_queue da = []"
    and init_b: "lin2can_init opt n LIN_MODE_RESPONDER (db, lin_b) = (rc0, db', lin_b')"
    and send: "send_all opt mq fs da' = Some da''" and k: "k < length fs" "fs ! k = (frame, t, ut)"
    and rx: "incoming_callbacks db'' ! unat (map_from_can_id opt (cf_id frame)) = \<lparr>rx_callback = Some f, rx_user_data = u\<rparr>"
    and isotp: "1 \<le> unat (cf_dlc frame)" "cf_data frame ! 0 < 0x40"
  shows "\<exists>lf. al_schedule_now LIN_MODE_COMMANDER ops (node_callbacks opt mq cbs) junk (MASTER_REQUEST_ID opt) lin_a' bus
        (da''\<lparr>outgoing_frame_queue := drop k (outgoing_frame_queue da'')\<rparr>, app_a) =
      Returns (lin_send ops lf bus) (da''\<lparr>outgoing_frame_queue := drop (Suc k) (outgoing_frame_queue da'')\<rparr>, call_tx cbs t ut app_a) \<and>
    lin_rx_callback (node_callbacks opt mq cbs) lin_b' False lf (db'', app_b) =
      Returns () (db'', call_rx cbs f \<lparr>cf_id = cf_id frame, cf_dlc = 8,
        cf_data = take (unat (cf_dlc frame)) (cf_data frame) @ replicate (8 - unat (cf_dlc frame)) 0xFF\<rparr> u app_b)"
proof -
  define m where "m = map_from_can_id opt (cf_id frame)"
  define lf where "lf = carrier (MASTER_REQUEST_ID opt) m frame"
  note a = lin2can_init_ok [OF lin(1) init_a] and b = lin2can_init_ok [OF lin(2) init_b]
  note s = send_all_ok [OF mq send]
  have "(frame, t, ut) \<in> set fs" using k nth_mem by metis
  then have fr: "m \<noteq> 0xff" "unat (cf_dlc frame) \<le> length (cf_data frame)" "unat (cf_dlc frame) \<le> 8"
    using s by (auto simp: m_def)
  have m: "unat m < TRANSLATABLE_ADDRESSES_LEN" "id_mapping opt ! unat m = cf_id frame"
    using map_from_can_id_found [OF fr(1) [unfolded m_def] ids] by (simp_all add: m_def)
  have le: "MASTER_REQUEST_ID opt \<le> 0x3F"
    using lin_lookup_id_le [OF a(1,2)] by (simp add: lin_out_def)
  have "outgoing_frame_queue da'' ! k = \<lparr>of_frame = lf, of_callback = Some t, of_user_data = ut\<rparr>" "k < length (outgoing_frame_queue da'')"
    using s a(4) assms(6) k by (simp_all add: lf_def m_def lin_out_def)
  then have queue: "drop k (outgoing_frame_queue da'') =
      \<lparr>of_frame = lf, of_callback = Some t, of_user_data = ut\<rparr> # drop (Suc k) (outgoing_frame_queue da'')"
    using Cons_nth_drop_Suc by metis
  have "lf\<lparr>lf_id := MASTER_REQUEST_ID opt, lf_len := 8\<rparr> = lf" by (simp add: lf_def carrier_def Let_def)
  then have "al_schedule_now LIN_MODE_COMMANDER ops (node_callbacks opt mq cbs) junk (MASTER_REQUEST_ID opt) lin_a' bus
        (da''\<lparr>outgoing_frame_queue := drop k (outgoing_frame_queue da'')\<rparr>, app_a) =
      Returns (lin_send ops lf bus) (da''\<lparr>outgoing_frame_queue := drop (Suc k) (outgoing_frame_queue da'')\<rparr>, call_tx cbs t ut app_a)"
    using a(2) queue by (simp add: al_schedule_lookup [OF a(1) le] lin_out_def node_callbacks_def lin_outgoing_cb_def Let_def msgq_case [OF mq])
  moreover have "lf_id lf = MASTER_REQUEST_ID opt" "lf_len lf = 8" by (simp_all add: lf_def carrier_def Let_def)
  then have "lin_rx_callback (node_callbacks opt mq cbs) lin_b' False lf (db'', app_b) = lin_incoming_cb opt cbs lf (db'', app_b)"
    using b(3) by (simp add: lin_rx_lookup [OF b(1)] lin_in_def node_callbacks_def)
  ultimately show ?thesis
    using lin_incoming_carrier [OF isotp(1) fr(3,2) isotp(2) m(1) rx [folded m_def], where cbs = cbs and app = app_b and opt = opt] m(2)
    by (intro exI [of _ lf]) (simp add: lf_def)
qed

text \<open>A bus on which the frames that are sent are recorded, and two nodes right after boot.\<close>

definition example_options :: lin2can_options where
  "example_options = \<lparr>id_mapping = [0x10, 0x11, 0x12, 0x13], MASTER_REQUEST_ID = 0x3c, SLAVE_RESPONSE_ID = 0x3d,
     OUTGOING_QUEUE_SIZE = 4, CAN_STD_ID_MASK = 0x7FF, CAN_EXT_ID_MASK = 0x1FFFFFFF\<rparr>"

definition example_bus :: "lin_frame list lin_bus_ops" where
  "example_bus = \<lparr>lin_receive = \<lambda>_ _ _ b. (rc0, b), lin_send = \<lambda>f b. (rc0, f # b), lin_set_mode = \<lambda>_ b. (rc0, b),
     lin_set_header_callback = \<lambda>b. (rc0, b), lin_set_rx_callback = \<lambda>b. (rc0, b)\<rparr>"

definition example_node :: "(unit, unit, unit) lin2can_data" where
  "example_node = \<lparr>incoming_callbacks = replicate 4 \<lparr>rx_callback = None, rx_user_data = ()\<rparr>, outgoing_frame_queue = [],
     outgoing_id = 0, incoming_id = 0\<rparr>"

definition example_al :: lin2can_lin where
  "example_al = \<lparr>callbacks = replicate 2 \<lparr>cb_frame_id = 0, cb_frame_size = 0, cb_callback = INCOMING Lin_incoming_cb, cb_user_data = ()\<rparr>,
     used_callbacks = 0\<rparr>"

definition example_cbs :: "(unit, unit, unit, can_frame list) lin2can_callbacks" where
  "example_cbs = \<lparr>call_rx = \<lambda>_ frame _ app. frame # app, call_tx = \<lambda>_ _ app. app\<rparr>"

lemmas example_defs = example_options_def example_node_def example_al_def lin2can_init_def al_register_incoming_cb_def
  al_register_outgoing_cb_def al_register_def allocate_callback_def find_frame.simps lin2can_add_rx_filter_def
  lin2can_send_def map_from_can_id_def memcpy_into_def demo_msgq_def

lemma example_simps:
  "MASTER_REQUEST_ID example_options = 0x3c" "lin_send example_bus lf bus = (rc0, lf # bus)"
  "call_rx example_cbs f frame u app = frame # app" "call_tx example_cbs t u app = app"
  "replicate 5 (0xFF :: u8) = [0xFF, 0xFF, 0xFF, 0xFF, 0xFF]"
  by (simp_all add: example_options_def example_bus_def example_cbs_def numeral_eq_Suc)

theorem can_frame_crosses_lin_witness:
  "\<exists>lin_a lin_b da da' db lf.
     send_all example_options demo_msgq [(\<lparr>cf_id = 0x10, cf_dlc = 1, cf_data = [7]\<rparr>, (), ()), (\<lparr>cf_id = 0x12, cf_dlc = 3, cf_data = [2, 0x3e, 0]\<rparr>, (), ())]
       (example_node\<lparr>outgoing_id := 0x3c, incoming_id := 0x3d\<rparr>) = Some da \<and>
     al_schedule_now LIN_MODE_COMMANDER example_bus (node_callbacks example_options demo_msgq example_cbs) [] 0x3c lin_a []
         (da\<lparr>outgoing_frame_queue := tl (outgoing_frame_queue da)\<rparr>, []) = Returns (rc0, [lf]) (da', []) \<and>
     lin_rx_callback (node_callbacks example_options demo_msgq example_cbs) lin_b False lf (db, []) =
       Returns () (db, [\<lparr>cf_id = 0x12, cf_dlc = 8, cf_data = [2, 0x3e, 0, 0xFF, 0xFF, 0xFF, 0xFF, 0xFF]\<rparr>])"
proof -
  let ?fs = "[(\<lparr>cf_id = 0x10, cf_dlc = 1, cf_data = [7]\<rparr>, (), ()), (\<lparr>cf_id = 0x12, cf_dlc = 3, cf_data = [2, 0x3e, 0]\<rparr>, (), ())]"
  have wf: "lin_wf 2 example_al" by (simp add: lin_wf_def example_al_def entries_def)
  obtain la' where a: "lin2can_init example_options 2 LIN_MODE_COMMANDER (example_node, example_al) =
      (rc0, example_node\<lparr>outgoing_id := 0x3c, incoming_id := 0x3d\<rparr>, la')"
    by (simp add: example_defs)
  obtain lb' where b: "lin2can_init example_options 2 LIN_MODE_RESPONDER (example_node, example_al) =
      (rc0, example_node\<lparr>outgoing_id := 0x3d, incoming_id := 0x3c\<rparr>, lb')"
    by (simp add: example_defs)
  obtain db where "lin2can_add_rx_filter example_options (Some ()) () \<lparr>cfi_id = 0x12, cfi_mask = 0x7FF\<rparr>
      (example_node\<lparr>outgoing_id := 0x3d, incoming_id := 0x3c\<rparr>) = (Inr 2, db)"
    by (simp add: example_defs)
  then have rx: "incoming_callbacks db ! unat (map_from_can_id example_options (cf_id \<lparr>cf_id = 0x12, cf_dlc = 3, cf_data = [2, 0x3e, 0]\<rparr>)) =
      \<lparr>rx_callback = Some (), rx_user_data = ()\<rparr>"
    by (auto simp: example_defs)
  obtain da where s: "send_all example_options demo_msgq ?fs (example_node\<lparr>outgoing_id := 0x3c, incoming_id := 0x3d\<rparr>) = Some da"
    by (simp add: example_defs)
  have "length (id_mapping example_options) = 4" "outgoing_frame_queue example_node = []"
    by (simp_all add: example_options_def example_node_def)
  from can_frame_crosses_lin [OF demo_msgq_contract wf wf this(1) a this(2) b s, of 1, OF _ _ rx, where ops = example_bus and cbs = example_cbs and junk = "[]"
      and bus = "[]" and app_a = "[]" and app_b = "[]" and t = "()" and ut = "()"]
  obtain lf where
    "al_schedule_now LIN_MODE_COMMANDER example_bus (node_callbacks example_options demo_msgq example_cbs) [] 0x3c la' []
         (da\<lparr>outgoing_frame_queue := tl (outgoing_frame_queue da)\<rparr>, []) =
       Returns (rc0, [lf]) (da\<lparr>outgoing_frame_queue := tl (tl (outgoing_frame_queue da))\<rparr>, [])"
    "lin_rx_callback (node_callbacks example_options demo_msgq example_cbs) lb' False lf (db, []) =
       Returns () (db, [\<lparr>cf_id = 0x12, cf_dlc = 8, cf_data = [2, 0x3e, 0, 0xFF, 0xFF, 0xFF, 0xFF, 0xFF]\<rparr>])"
    by (auto simp: example_simps drop_Suc)
  with s show ?thesis by blast
qed

section \<open>The filters as a registry\<close>

text \<open>The filters for a single identifier, with the identifier they were added for.\<close>

definition filter_wf :: "lin2can_options \<Rightarrow> ('r, 't, 'p) lin2can_data \<Rightarrow> bool" where
  "filter_wf opt data \<longleftrightarrow> length (id_mapping opt) = TRANSLATABLE_ADDRESSES_LEN \<and>
     length (incoming_callbacks data) = TRANSLATABLE_ADDRESSES_LEN"

definition filter_lookup :: "lin2can_options \<Rightarrow> ('r, 't, 'p) lin2can_data \<Rightarrow> nat \<Rightarrow> (u32 \<times> 'r \<times> 'p) option" where
  "filter_lookup opt data k =
     (if k < TRANSLATABLE_ADDRESSES_LEN
      then map_option (\<lambda>f. (id_mapping opt ! k, f, rx_user_data (incoming_callbacks data ! k))) (rx_callback (incoming_callbacks data ! k))
      else None)"

definition filter_add ::
  "lin2can_options \<Rightarrow> u32 \<times> 'r \<times> 'p \<Rightarrow> ('r, 't, 'p) lin2can_data \<Rightarrow> (nat \<times> ('r, 't, 'p) lin2can_data) option" where
  "filter_add opt v data =
     (case v of (can_id, f, u) \<Rightarrow>
      case lin2can_add_rx_filter opt (Some f) u \<lparr>cfi_id = can_id, cfi_mask = CAN_STD_ID_MASK opt\<rparr> data of
        (Inr k, data') \<Rightarrow> if k < TRANSLATABLE_ADDRESSES_LEN then Some (k, data') else None
      | (Inl _, _) \<Rightarrow> None)"

definition filter_remove :: "nat \<Rightarrow> ('r, 't, 'p) lin2can_data \<Rightarrow> ('r, 't, 'p) lin2can_data option" where
  "filter_remove k data =
     (if k < TRANSLATABLE_ADDRESSES_LEN \<and> rx_callback (incoming_callbacks data ! k) \<noteq> None
      then (case lin2can_remove_rx_filter (int k) data of Returns _ data' \<Rightarrow> Some data' | _ \<Rightarrow> None)
      else None)"

lemma filter_addD:
  assumes "filter_wf opt data" and "filter_add opt (can_id, f, u) data = Some (k, data')"
  shows "k < TRANSLATABLE_ADDRESSES_LEN" and "id_mapping opt ! k = can_id" and "rx_callback (incoming_callbacks data ! k) = None"
    and "data' = data\<lparr>incoming_callbacks := (incoming_callbacks data)[k := \<lparr>rx_callback = Some f, rx_user_data = u\<rparr>]\<rparr>"
proof -
  let ?flt = "\<lparr>cfi_id = can_id, cfi_mask = CAN_STD_ID_MASK opt\<rparr>"
  have add: "lin2can_add_rx_filter opt (Some f) u ?flt data = (Inr k, data')" and k: "k < TRANSLATABLE_ADDRESSES_LEN"
    using assms(2) by (auto simp: filter_add_def split: prod.splits sum.splits if_splits)
  show "k < TRANSLATABLE_ADDRESSES_LEN" by (rule k)
  have m: "map_from_can_id opt can_id \<noteq> 0xff" "k = unat (map_from_can_id opt can_id)"
    using single_id_filter [OF add k] assms(1) by (simp_all add: filter_wf_def)
  show "id_mapping opt ! k = can_id"
    using map_from_can_id_found(2) [OF m(1)] assms(1) m(2) by (simp add: filter_wf_def)
  show "rx_callback (incoming_callbacks data ! k) = None"
    and "data' = data\<lparr>incoming_callbacks := (incoming_callbacks data)[k := \<lparr>rx_callback = Some f, rx_user_data = u\<rparr>]\<rparr>"
    using add k m by (auto simp: lin2can_add_rx_filter_def Let_def split: if_splits)
qed

lemma filter_remove_eq:
  "filter_remove k data =
     (if k < TRANSLATABLE_ADDRESSES_LEN \<and> rx_callback (incoming_callbacks data ! k) \<noteq> None
      then Some (data\<lparr>incoming_callbacks := (incoming_callbacks data)[k := (incoming_callbacks data ! k)\<lparr>rx_callback := None\<rparr>]\<rparr>)
      else None)"
  by (auto simp: filter_remove_def lin2can_remove_rx_filter_def Let_def)

interpretation filters: registry "filter_wf opt" "filter_lookup opt" "filter_add opt" "\<lambda>k v. v" filter_remove for opt
proof
  fix data data' :: "('a, 'b, 'c) lin2can_data" and k v
  assume wf: "filter_wf opt data"
  show "filter_remove k data = None \<longleftrightarrow> filter_lookup opt data k = None"
    by (auto simp: filter_remove_eq filter_lookup_def)
  {
    assume add: "filter_add opt v data = Some (k, data')"
    obtain can_id f u where v: "v = (can_id, f, u)" by (cases v)
    note d = filter_addD [OF wf add [unfolded v]]
    show "filter_lookup opt data k = None" using d(3) by (simp add: filter_lookup_def)
    show "filter_lookup opt data' = (filter_lookup opt data)(k \<mapsto> v)"
      using d(1,2) wf by (auto simp: filter_lookup_def d(4) v filter_wf_def nth_list_update)
    show "filter_wf opt data'" using wf by (simp add: d(4) filter_wf_def)
  next
    assume "filter_remove k data = Some data'"
    then show "filter_lookup opt data' = (filter_lookup opt data)(k := None)" and "filter_wf opt data'"
      using wf by (auto simp: filter_remove_eq filter_lookup_def filter_wf_def nth_list_update split: if_splits)
  }
qed

text \<open>
  A filter for one identifier stays in place, with its callback, until it is removed, whatever other filters
  are added and removed.
\<close>

theorem filter_persists:
  assumes "filter_wf opt data" and "filter_lookup opt data k = Some v" and "Remove k \<notin> set ops"
  shows "filter_lookup opt (filters.run_ops opt ops data) k = Some v"
  using assms by (rule filters.run_ops_keeps_entry)

theorem filter_persists_witness:
  "filter_lookup example_options (filters.run_ops example_options [Add (0x13, (), ()), Remove 3]
     (snd (lin2can_add_rx_filter example_options (Some ()) () \<lparr>cfi_id = 0x12, cfi_mask = 0x7FF\<rparr> example_node))) 2 = Some (0x12, (), ())"
  by (rule filter_persists) (simp_all add: example_defs filter_wf_def filter_lookup_def)

text \<open>A transmit callback is optional in Zephyr's CAN API; a frame that was queued without one makes the driver call a null pointer.\<close>

theorem null_tx_callback_called:
  assumes mq: "msgq_contract mq" and "lin2can_send opt mq frame None u data = Returns rc0 data'" and "outgoing_frame_queue data = []"
  shows "lin_outgoing_cb mq cbs lf (data', app) = Undefined"
  using lin2can_send_ok(2) [OF mq assms(2)] assms(3) by (simp add: lin_outgoing_cb_def msgq_case [OF mq])

theorem null_tx_callback_called_witness:
  "\<exists>data'. lin2can_send example_options demo_msgq \<lparr>cf_id = 0x12, cf_dlc = 1, cf_data = [0]\<rparr> None () example_node = Returns rc0 data' \<and>
     lin_outgoing_cb demo_msgq example_cbs (of_frame (hd (outgoing_frame_queue data'))) (data', []) = Undefined"
proof -
  obtain data' where
    s: "lin2can_send example_options demo_msgq \<lparr>cf_id = 0x12, cf_dlc = 1, cf_data = [0]\<rparr> None () example_node = Returns rc0 data'"
    by (simp add: example_defs)
  then show ?thesis using null_tx_callback_called [OF demo_msgq_contract s] by (simp add: example_node_def)
qed

text \<open>An empty CAN frame is padded before the identifier is added: whatever its identifier, it arrives as a frame of the last one.\<close>

lemma empty_frame_arrives_as_last:
  assumes mq: "msgq_contract mq" and "lin2can_send opt mq frame callback u data = Returns rc0 data'" and "cf_dlc frame = 0"
  shows "drop_bit 6 (lf_data (of_frame (last (outgoing_frame_queue data'))) ! 0) = 3"
proof -
  have "(0xFF :: u8) = - 1" by simp
  then have "(0xFF :: u8) OR x = 0xFF" for x by (metis bit.disj_one_left)
  then show ?thesis using lin2can_send_ok(2) [OF mq assms(2)] assms(3) by (simp add: carrier_def)
qed

end
