(* ===== verification/Can_Router.thy ===== *)
theory Can_Router
  imports Lin2can
begin

text \<open>
  The CAN router (\<^verbatim>\<open>lib/can_router/can_router.c\<close>): tables of routes, each a filter on one CAN controller whose frames are
  sent on another. The CAN API is an argument: \<open>'d\<close> are the controllers and \<open>'c\<close> is their state.
\<close>

record 'd can_router_entry_t =
  route_from :: 'd
  route_to :: 'd
  route_filter :: can_filter

record 'd can_router_table_t =
  entries :: "'d can_router_entry_t list"
  entry_count :: nat

text \<open>Adding a filter returns its id, which is not negative, or an error; the callback of the router gets the target as user data.\<close>

record ('d, 'c) can_api =
  can_add_rx_filter :: "'d \<Rightarrow> 'd \<Rightarrow> can_filter \<Rightarrow> 'c \<Rightarrow> c_int \<times> 'c"
  can_send :: "'d \<Rightarrow> can_frame \<Rightarrow> 'c \<Rightarrow> c_int \<times> 'c"

definition can_router_frame_cb :: "('d, 'c) can_api \<Rightarrow> 'd \<Rightarrow> can_frame \<Rightarrow> 'c \<Rightarrow> 'c" where
  "can_router_frame_cb api to frame c = snd (can_send api to frame c)"

fun register_entries :: "('d, 'c) can_api \<Rightarrow> 'd can_router_entry_t list \<Rightarrow> 'c \<Rightarrow> c_int \<times> 'c" where
  "register_entries api [] c = (rc0, c)"
| "register_entries api (e # es) c =
     (case can_add_rx_filter api (route_from e) (route_to e) (route_filter e) c of (err, c) \<Rightarrow>
      if err \<noteq> rc0 then (err, c) else register_entries api es c)"

definition can_router_register :: "('d, 'c) can_api \<Rightarrow> 'd can_router_entry_t list \<Rightarrow> nat \<Rightarrow> 'c \<Rightarrow> c_int \<times> 'c" where
  "can_router_register api es n c = register_entries api (take n es) c"

fun can_router_sysinit :: "('d, 'c) can_api \<Rightarrow> 'd can_router_table_t list \<Rightarrow> 'c \<Rightarrow> c_int \<times> 'c" where
  "can_router_sysinit api [] c = (rc0, c)"
| "can_router_sysinit api (t # ts) c =
     (case can_router_register api (entries t) (entry_count t) c of (err, c) \<Rightarrow>
      if err \<noteq> rc0 then (err, c) else can_router_sysinit api ts c)"

section \<open>Properties\<close>

text \<open>A controller that numbers its filters from zero, as Zephyr's drivers do, and a network of such controllers.\<close>

definition numbering_api :: "('d, ('d \<times> 'd \<times> can_filter) list) can_api" where
  "numbering_api =
     \<lparr>can_add_rx_filter = (\<lambda>from to flt c. (Inr (length (filter (\<lambda>(d, _). d = from) c)), c @ [(from, to, flt)])),
      can_send = (\<lambda>to frame c. (rc0, c))\<rparr>"

lemma register_entries_numbering:
  assumes "\<forall>e \<in> set es. \<forall>(d, _) \<in> set c. d \<noteq> route_from e" and "distinct (map route_from es)"
  shows "register_entries numbering_api es c = (rc0, c @ map (\<lambda>e. (route_from e, route_to e, route_filter e)) es)"
  using assms
proof (induction es arbitrary: c)
  case (Cons e es)
  have "filter (\<lambda>(d, _). d = route_from e) c = []" using Cons.prems(1) by (auto simp: filter_empty_conv)
  moreover have "\<forall>x \<in> set es. \<forall>(d, _) \<in> set (c @ [(route_from e, route_to e, route_filter e)]). d \<noteq> route_from x"
    using Cons.prems by auto
  ultimately show ?case using Cons.IH Cons.prems(2) by (simp add: numbering_api_def)
qed simp

text \<open>
  The router takes the id of a filter for an error unless it is zero: of a table, it sets up exactly the entries up to and with the
  second one for the same controller, and reports a failure there. A table with at most one entry for each
  controller is set up in full.
\<close>

theorem router_stops_at_second_filter:
  assumes "distinct (map route_from es)" and "e \<in> set es" and "route_from e' = route_from e"
  shows "can_router_register numbering_api es (length es) [] = (rc0, map (\<lambda>e. (route_from e, route_to e, route_filter e)) es) \<and>
    can_router_register numbering_api (es @ e' # rest) (length (es @ e' # rest)) [] =
      (Inr 1, map (\<lambda>e. (route_from e, route_to e, route_filter e)) (es @ [e']))"
proof -
  have app: "register_entries api (xs @ ys) c =
      (case register_entries api xs c of (err, c) \<Rightarrow> if err \<noteq> rc0 then (err, c) else register_entries api ys c)" for api xs ys c
    by (induction xs arbitrary: c) (auto split: prod.splits)
  have all: "register_entries numbering_api es [] = (rc0, map (\<lambda>e. (route_from e, route_to e, route_filter e)) es)"
    using register_entries_numbering [of es "[]"] assms(1) by simp
  have "filter (\<lambda>(d, _). d = route_from e') (map (\<lambda>e. (route_from e, route_to e, route_filter e)) es) =
      map (\<lambda>e. (route_from e, route_to e, route_filter e)) (filter (\<lambda>x. route_from x = route_from e) es)"
    by (simp add: filter_map comp_def assms(3))
  moreover have "length (filter (\<lambda>x. route_from x = route_from e) es) = 1"
    using assms(1,2) by (induction es) (auto simp: filter_empty_conv image_iff)
  ultimately show ?thesis by (simp add: can_router_register_def all app) (simp add: numbering_api_def)
qed

definition example_route :: "nat \<Rightarrow> u32 \<Rightarrow> nat can_router_entry_t" where
  "example_route d i = \<lparr>route_from = d, route_to = Suc d, route_filter = \<lparr>cfi_id = i, cfi_mask = 0x7FF\<rparr>\<rparr>"

theorem router_stops_at_second_filter_witness:
  "fst (can_router_register numbering_api [example_route 0 1, example_route 0 2, example_route 0 3] 3 []) = Inr 1"
  using router_stops_at_second_filter [of "[example_route 0 1]" "example_route 0 1" "example_route 0 2" "[example_route 0 3]"]
  by (simp add: example_route_def numeral_3_eq_3)

end
