(* ===== verification/Can_Log.thy ===== *)
theory Can_Log
  imports Lin2can
begin

text \<open>
  The log backend that sends messages over CAN (\<^verbatim>\<open>lib/can_log/can_log.c\<close>). The CAN controller and the
  semaphore that the end of a transmission gives are arguments with the state \<open>'c\<close>. The code looks neither at what
  the controller answers to a frame nor at whether the end of its transmission was seen in time.
\<close>

datatype bus_state = BUS_OFF | BUS_STOPPED | BUS_other nat

record 'c log_can =
  log_device_ready :: bool
  log_get_state :: "'c \<Rightarrow> c_int \<times> bus_state"
  log_send :: "can_frame \<Rightarrow> bool \<Rightarrow> 'c \<Rightarrow> c_int \<times> 'c"
  log_sem_take :: "bool \<Rightarrow> 'c \<Rightarrow> c_int \<times> 'c"
  log_set_mode :: "'c \<Rightarrow> c_int \<times> 'c"
  log_start :: "'c \<Rightarrow> c_int \<times> 'c"

record can_log =
  can_log_id :: u16
  log_format_type :: u32
  panic_mode :: bool
  backend_active :: bool

definition can_log_is_ready :: "'c log_can \<Rightarrow> 'c \<Rightarrow> c_int" where
  "can_log_is_ready can c =
     (if \<not> log_device_ready can then Inl ENODEV
      else if fst (log_get_state can c) \<noteq> rc0 then Inl ENODEV
      else case snd (log_get_state can c) of BUS_OFF \<Rightarrow> Inl EIO | BUS_STOPPED \<Rightarrow> Inl EIO | BUS_other _ \<Rightarrow> rc0)"

text \<open>\<open>n\<close> is \<^verbatim>\<open>CAN_MAX_DLEN\<close>, and \<open>immediate\<close> says that log messages are processed where they are issued. The flag of \<open>log_send\<close> and of
  \<open>log_sem_take\<close> is the timeout: \<open>True\<close> for the configured one and \<open>False\<close> for none.\<close>

definition can_log_line_out :: "nat \<Rightarrow> bool \<Rightarrow> 'c log_can \<Rightarrow> can_log \<Rightarrow> u8 list \<Rightarrow> 'c \<Rightarrow> nat \<times> 'c" where
  "can_log_line_out n immediate can l data c =
     (let synchronous = panic_mode l \<or> immediate in
      if can_log_is_ready can c \<noteq> rc0 then (length data, c)
      else
        let len = (if length data > n then n else length data);
          frame = \<lparr>cf_id = ucast (can_log_id l), cf_dlc = of_nat len, cf_data = take len data\<rparr>
        in if synchronous then (case log_send can frame False c of (_, c) \<Rightarrow> (len, c))
          else
            (case log_sem_take can False c of (_, c) \<Rightarrow>
             case log_send can frame True c of (_, c) \<Rightarrow>
             case log_sem_take can True c of (_, c) \<Rightarrow> (len, c)))"

text \<open>\<open>provider\<close> is the id of an external address provider, where there is one.\<close>

definition can_log_init :: "u16 \<Rightarrow> u16 option \<Rightarrow> can_log \<Rightarrow> can_log" where
  "can_log_init config_id provider l = l\<lparr>can_log_id := (case provider of Some i \<Rightarrow> i | None \<Rightarrow> config_id)\<rparr>"

definition can_format_set :: "u32 \<Rightarrow> can_log \<Rightarrow> c_int \<times> can_log" where
  "can_format_set log_type l = (rc0, l\<lparr>log_format_type := log_type\<rparr>)"

definition can_log_panic :: "can_log \<Rightarrow> can_log" where
  "can_log_panic l = l\<lparr>panic_mode := True\<rparr>"

definition can_log_autostart_bus_sysinit :: "'c log_can \<Rightarrow> can_log \<Rightarrow> 'c \<Rightarrow> c_int \<times> can_log \<times> 'c" where
  "can_log_autostart_bus_sysinit can l c =
     (case log_set_mode can c of (err, c) \<Rightarrow>
      if err \<noteq> rc0 then (err, l\<lparr>backend_active := False\<rparr>, c)
      else (case log_start can c of (err, c) \<Rightarrow>
      if err \<noteq> rc0 then (err, l\<lparr>backend_active := False\<rparr>, c) else (rc0, l, c)))"

section \<open>Properties\<close>

text \<open>
  What Zephyr's log output does with the output function of a backend: it calls the function with a text, and where the
  function has processed a part of the text only, it goes on with the rest. \<open>wr out data c\<close> is the state after that, and
  \<open>None\<close> where it does not end. Nothing is said of a function that processes no byte.
\<close>

definition log_output_contract :: "((u8 list \<Rightarrow> 'c \<Rightarrow> nat \<times> 'c) \<Rightarrow> u8 list \<Rightarrow> 'c \<Rightarrow> 'c option) \<Rightarrow> bool" where
  "log_output_contract wr \<longleftrightarrow> (\<forall>out data c processed c'. out data c = (processed, c') \<longrightarrow>
     (processed = length data \<longrightarrow> wr out data c = Some c') \<and>
     (0 < processed \<and> processed < length data \<longrightarrow> wr out data c = wr out (drop processed data) c'))"

text \<open>\<open>up\<close> holds of states in which the bus is up, and neither sending a frame nor waiting takes the bus down.\<close>

definition bus_stays_up :: "'c log_can \<Rightarrow> ('c \<Rightarrow> bool) \<Rightarrow> bool" where
  "bus_stays_up can up \<longleftrightarrow> (\<forall>c. up c \<longrightarrow> can_log_is_ready can c = rc0 \<and>
     (\<forall>f b. up (snd (log_send can f b c))) \<and> (\<forall>b. up (snd (log_sem_take can b c))))"

fun chunks :: "nat \<Rightarrow> 'a list \<Rightarrow> 'a list list" where
  "chunks n xs = (if length xs \<le> n \<or> n = 0 then [xs] else take n xs # chunks n (drop n xs))"

declare chunks.simps [simp del]

lemma concat_chunks: "concat (chunks n xs) = xs"
  by (induction n xs rule: chunks.induct) (subst chunks.simps, auto)

lemma length_chunks: "0 < n \<Longrightarrow> y \<in> set (chunks n xs) \<Longrightarrow> length y \<le> n"
proof (induction n xs rule: chunks.induct)
  case (1 n xs)
  then show ?case by (cases "length xs \<le> n") (auto simp: chunks.simps [of n xs])
qed

definition log_frame :: "can_log \<Rightarrow> u8 list \<Rightarrow> can_frame" where
  "log_frame l chunk = \<lparr>cf_id = ucast (can_log_id l), cf_dlc = of_nat (length chunk), cf_data = chunk\<rparr>"

text \<open>Handing one frame to the controller.\<close>

definition hand_over :: "'c log_can \<Rightarrow> bool \<Rightarrow> can_frame \<Rightarrow> 'c \<Rightarrow> 'c" where
  "hand_over can synchronous f c =
     (if synchronous then snd (log_send can f False c)
      else snd (log_sem_take can True (snd (log_send can f True (snd (log_sem_take can False c))))))"

lemma bus_stays_upD:
  assumes "bus_stays_up can up" and "up c"
  shows "can_log_is_ready can c = rc0" and "up (hand_over can b f c)"
  using assms by (simp_all add: bus_stays_up_def hand_over_def)

lemma can_log_line_out_ready:
  assumes "can_log_is_ready can c = rc0"
  shows "can_log_line_out n immediate can l data c =
    (min n (length data), hand_over can (panic_mode l \<or> immediate) (log_frame l (take n data)) c)"
  using assms by (auto simp: can_log_line_out_def Let_def hand_over_def log_frame_def split_beta min_def)

lemma log_output_chunks:
  assumes "log_output_contract wr" and "0 < n" and "bus_stays_up can up"
  shows "up c \<Longrightarrow> wr (can_log_line_out n immediate can l) data c =
    Some (fold (\<lambda>chunk. hand_over can (panic_mode l \<or> immediate) (log_frame l chunk)) (chunks n data) c)"
proof (induction "length data" arbitrary: data c rule: less_induct)
  case less
  note up = bus_stays_upD [OF assms(3) less.prems]
  note out = can_log_line_out_ready [OF up(1), of n immediate l data]
  show ?case
  proof (cases "length data \<le> n")
    case True
    then show ?thesis using out assms(1) by (simp add: log_output_contract_def chunks.simps)
  next
    case False
    then have "length (drop n data) < length data" using assms(2) by simp
    from less.hyps [OF this up(2)] show ?thesis
      using False out assms(1,2) by (simp add: log_output_contract_def chunks.simps [of n data])
  qed
qed

text \<open>
  (C30) A log message is handed to the CAN controller in full: when Zephyr's log output keeps its contract and the bus is
  up and stays up, writing a text of any length ends, and it has handed frames to the controller (in panic mode and in
  immediate mode without waiting, otherwise waiting for the end of each transmission) that carry the log identifier and
  together exactly the bytes of the text in order, each frame with its own length as length code and at most the maximum
  length of a classic frame. What the controller answers is not looked at: a frame that it refuses is lost, and the text
  goes on with the next one.
\<close>

theorem log_message_sent_in_full:
  assumes "log_output_contract wr" and "0 < n" and "n \<le> 8" and "bus_stays_up can up" and "up c"
  shows "\<exists>frames. wr (can_log_line_out n immediate can l) data c =
      Some (fold (\<lambda>f c. if panic_mode l \<or> immediate then snd (log_send can f False c)
         else snd (log_sem_take can True (snd (log_send can f True (snd (log_sem_take can False c)))))) frames c) \<and>
    concat (map cf_data frames) = data \<and>
    (\<forall>f \<in> set frames. cf_id f = ucast (can_log_id l) \<and> unat (cf_dlc f) = length (cf_data f) \<and> length (cf_data f) \<le> n)"
proof -
  let ?frames = "map (log_frame l) (chunks n data)"
  have "map cf_data ?frames = chunks n data" by (simp add: log_frame_def comp_def)
  then have "concat (map cf_data ?frames) = data" by (simp only: concat_chunks)
  moreover have "\<forall>f \<in> set ?frames. cf_id f = ucast (can_log_id l) \<and> unat (cf_dlc f) = length (cf_data f) \<and> length (cf_data f) \<le> n"
    using length_chunks [OF assms(2)] assms(3) by (fastforce simp: log_frame_def unat_of_nat)
  moreover have "wr (can_log_line_out n immediate can l) data c =
      Some (fold (hand_over can (panic_mode l \<or> immediate)) ?frames c)"
    using log_output_chunks [OF assms(1,2,4,5)] by (simp add: fold_map comp_def)
  ultimately show ?thesis unfolding hand_over_def [abs_def] by blast
qed

text \<open>While the bus is down, a message is dropped as a whole and nothing waits for it.\<close>

lemma log_message_dropped:
  "log_output_contract wr \<Longrightarrow> can_log_is_ready can c \<noteq> rc0 \<Longrightarrow> wr (can_log_line_out n immediate can l) data c = Some c"
  by (simp add: log_output_contract_def can_log_line_out_def)

text \<open>A controller that records the frames, refusing every one that does not fit in its twelve places, and a log output.\<close>

definition recording_can :: "can_frame list log_can" where
  "recording_can = \<lparr>log_device_ready = True, log_get_state = \<lambda>c. (rc0, BUS_other 0),
     log_send = \<lambda>f wait c. (if length c < 12 then (rc0, c @ [f]) else (Inl EAGAIN, c)),
     log_sem_take = \<lambda>wait c. (Inl EAGAIN, c), log_set_mode = \<lambda>c. (rc0, c), log_start = \<lambda>c. (rc0, c)\<rparr>"

function demo_log_output :: "(u8 list \<Rightarrow> 'c \<Rightarrow> nat \<times> 'c) \<Rightarrow> u8 list \<Rightarrow> 'c \<Rightarrow> 'c option" where
  "demo_log_output out data c =
     (case out data c of (processed, c') \<Rightarrow>
      if processed = length data then Some c'
      else if processed = 0 \<or> length data < processed then None
      else demo_log_output out (drop processed data) c')"
  by pat_completeness auto
termination by (relation "measure (\<lambda>(out, data, c). length data)") auto

declare demo_log_output.simps [simp del]

lemma demo_log_output_contract: "log_output_contract demo_log_output"
  unfolding log_output_contract_def by (auto simp: demo_log_output.simps)

theorem log_message_sent_in_full_witness:
  "\<exists>frames. demo_log_output (can_log_line_out 8 False recording_can \<lparr>can_log_id = 0x100, log_format_type = 0, panic_mode = False, backend_active = True\<rparr>)
      [1, 2, 3, 4, 5, 6, 7, 8, 9] [] =
      Some (fold (\<lambda>f c. snd (log_sem_take recording_can True (snd (log_send recording_can f True (snd (log_sem_take recording_can False c))))))
        frames []) \<and>
    concat (map cf_data frames) = [1, 2, 3, 4, 5, 6, 7, 8, 9] \<and> (\<forall>f \<in> set frames. unat (cf_dlc f) = length (cf_data f))"
proof -
  have "bus_stays_up recording_can (\<lambda>_. True)" by (simp add: bus_stays_up_def can_log_is_ready_def recording_can_def)
  then show ?thesis
    using log_message_sent_in_full [of demo_log_output 8 recording_can "\<lambda>_. True" "[]" False
      "\<lparr>can_log_id = 0x100, log_format_type = 0, panic_mode = False, backend_active = True\<rparr>" "[1, 2, 3, 4, 5, 6, 7, 8, 9]"]
      demo_log_output_contract
    by auto
qed

end
