(* ===== verification/Gpio.thy ===== *)
theory Gpio
  imports Prelude
begin

text \<open>
  The arguments of Zephyr's GPIO driver interface, which the drivers of the shields
  (\<^verbatim>\<open>drivers/power_io_shield\<close>, \<^verbatim>\<open>drivers/hv_shield\<close>) implement. The flags of a pin are a record with one field for each flag
  that a driver looks at; the values of the enumerations that no driver names are \<open>other\<close>.
\<close>

record gpio_flags =
  GPIO_INPUT :: bool
  GPIO_OUTPUT :: bool
  GPIO_PULL_UP :: bool
  GPIO_PULL_DOWN :: bool
  GPIO_SINGLE_ENDED :: bool
  GPIO_OUTPUT_INIT_HIGH :: bool

datatype gpio_int_mode = GPIO_INT_MODE_DISABLED | GPIO_INT_MODE_LEVEL | GPIO_INT_MODE_EDGE | GPIO_INT_MODE_other nat
datatype gpio_int_trig = GPIO_INT_TRIG_LOW | GPIO_INT_TRIG_HIGH | GPIO_INT_TRIG_BOTH | GPIO_INT_TRIG_other nat

text \<open>\<^verbatim>\<open>BIT(n)\<close> on a 32 bit value, set and cleared.\<close>

definition BIT32 :: "nat \<Rightarrow> u32" where
  "BIT32 n = push_bit n 1"

lemma bit_BIT32 [simp]: "bit (BIT32 k) n \<longleftrightarrow> n = k \<and> k < 32"
  by (auto simp: BIT32_def bit_simps)

definition assign_bit :: "u32 \<Rightarrow> nat \<Rightarrow> bool \<Rightarrow> u32" where
  "assign_bit x n b = (if b then x OR BIT32 n else x AND NOT (BIT32 n))"

lemma bit_assign_bit: "n < 32 \<Longrightarrow> bit (assign_bit x n b) m \<longleftrightarrow> (if m = n then b else bit x m)"
  by (auto simp: assign_bit_def bit_simps dest: bit_imp_le_length)

lemma test_bit_BIT32: "n < 32 \<Longrightarrow> x AND BIT32 n \<noteq> 0 \<longleftrightarrow> bit x n"
  using bit_eq_iff [of "x AND BIT32 n" 0] by (simp add: bit_and_iff)

end
