(* ===== verification/Power_Io_Shield.thy ===== *)
theory Power_Io_Shield
  imports Gpio
begin

text \<open>
  The GPIO driver of the Power I/O shield (\<^verbatim>\<open>drivers/power_io_shield/power_io_shield.c\<close>, with the pin numbers of
  \<^verbatim>\<open>hardware.h\<close> and \<^verbatim>\<open>power-io-shield.h\<close>): an MCP23017 port expander behind an I2C bus, with a cache of the
  registers the driver writes. The bus is an argument of the operations, a record of its two transfers;
  its state is \<open>'c\<close>. The GPIO callbacks of the application are the state \<open>'a\<close>. Every operation runs under the lock of
  the driver, so that it is one step; a submitted work item is a flag that says it is pending.
\<close>

section \<open>Registers and pins\<close>

abbreviation REG_IODIRA :: u8 where "REG_IODIRA \<equiv> 0x00"
abbreviation REG_IOCONA :: u8 where "REG_IOCONA \<equiv> 0x0A"
abbreviation REG_INTCONA :: u8 where "REG_INTCONA \<equiv> 0x08"
abbreviation REG_INTFA :: u8 where "REG_INTFA \<equiv> 0x0E"
abbreviation REG_INTCAPA :: u8 where "REG_INTCAPA \<equiv> 0x10"
abbreviation REG_DEFVALA :: u8 where "REG_DEFVALA \<equiv> 0x06"
abbreviation REG_GPINTENA :: u8 where "REG_GPINTENA \<equiv> 0x04"
abbreviation REG_GPIOA :: u8 where "REG_GPIOA \<equiv> 0x12"

definition OUTPUT_PINS_MASK :: u16 where "OUTPUT_PINS_MASK = push_bit 2 0x3F"
definition INPUT_PINS_MASK :: u16 where "INPUT_PINS_MASK = push_bit 8 0x3F"
abbreviation HARD_INVERT_PINS :: u16 where "HARD_INVERT_PINS \<equiv> INPUT_PINS_MASK"

text \<open>The pins of the port: six inputs from 0, six outputs from 8, three faults from 16.\<close>

definition ZEPHYR_PINS_PORT_MASK :: u32 where
  "ZEPHYR_PINS_PORT_MASK = (push_bit 6 1 - 1) OR push_bit 8 (push_bit 6 1 - 1) OR push_bit 16 (push_bit 3 1 - 1)"

definition BIT16 :: "nat \<Rightarrow> u16" where
  "BIT16 n = push_bit n 1"

section \<open>Data\<close>

record 'c i2c_ops =
  i2c_write_dt :: "u8 list \<Rightarrow> 'c \<Rightarrow> c_int \<times> 'c"
  i2c_write_read_dt :: "u8 list \<Rightarrow> nat \<Rightarrow> 'c \<Rightarrow> c_int \<times> u8 list \<times> 'c"

record 'b power_io_shield_data =
  cache_gpinten :: u16
  cache_intcon :: u16
  cache_defval :: u16
  cache_gpio :: u16
  int_trigger_rising :: u16
  int_trigger_falling :: u16
  interrupt_callbacks :: 'b
  on_interrupt_work :: bool
  write_interrupt_config_work :: bool

record ('b, 'c, 'a) shield_world =
  sdata :: "'b power_io_shield_data"
  i2c :: 'c
  app :: 'a

section \<open>Register access\<close>

definition write_u16_reg :: "'c i2c_ops \<Rightarrow> u8 \<Rightarrow> u16 \<Rightarrow> 'c \<Rightarrow> c_int \<times> 'c" where
  "write_u16_reg ops reg_addr v c = i2c_write_dt ops [reg_addr, lo_byte v, hi_byte v] c"

definition read_u16_reg :: "'c i2c_ops \<Rightarrow> u8 \<Rightarrow> 'c \<Rightarrow> c_int \<times> u16 \<times> 'c" where
  "read_u16_reg ops reg_addr c =
     (case i2c_write_read_dt ops [reg_addr] 2 c of (ret, buf, c) \<Rightarrow>
      if ret \<noteq> rc0 then (ret, 0, c) else (rc0, u16_of_bytes (buf ! 0) (buf ! 1), c))"

definition write_iocon :: "'c i2c_ops \<Rightarrow> u8 \<Rightarrow> 'c \<Rightarrow> c_int \<times> 'c" where
  "write_iocon ops v c = write_u16_reg ops REG_IOCONA (push_bit 8 (ucast v) OR ucast v) c"

section \<open>Pins\<close>

definition pin_base :: "u8 \<Rightarrow> u8" where "pin_base pin = pin AND 0xf8"
definition pin_index :: "u8 \<Rightarrow> u8" where "pin_index pin = pin AND NOT 0xf8"

definition power_io_shield_zephyr_pin_to_gpio_bit :: "u8 \<Rightarrow> nat" where
  "power_io_shield_zephyr_pin_to_gpio_bit pin =
     (if pin_base pin = 0x00 then unat (pin_index pin) + 8
      else if pin_base pin = 0x08 then unat (pin_index pin) + 2
      else if pin_base pin = 0x10 then
        (if pin_index pin = 0 then 14 else if pin_index pin = 1 then 0 else if pin_index pin = 2 then 1 else 0)
      else 0)"

definition power_io_shield_gpio_bits_to_zephyr_bits :: "u16 \<Rightarrow> u32" where
  "power_io_shield_gpio_bits_to_zephyr_bits mcp_pin_bits =
     (let input_values = drop_bit 8 (ucast (mcp_pin_bits AND INPUT_PINS_MASK));
        output_values = drop_bit 2 (ucast (mcp_pin_bits AND OUTPUT_PINS_MASK));
        fault_values = (ucast (drop_bit 14 mcp_pin_bits) AND 1) OR push_bit 1 (ucast (drop_bit 0 mcp_pin_bits) AND 1)
          OR push_bit 2 (ucast (drop_bit 1 mcp_pin_bits) AND 1)
      in push_bit 0 input_values OR push_bit 8 output_values OR push_bit 16 fault_values)"

section \<open>Interrupts\<close>

definition power_io_shield_int_gpio_handler :: "('b, 'c, 'a) shield_world \<Rightarrow> ('b, 'c, 'a) shield_world" where
  "power_io_shield_int_gpio_handler w = w\<lparr>sdata := (sdata w)\<lparr>on_interrupt_work := True\<rparr>\<rparr>"

definition pending_ints :: "'b power_io_shield_data \<Rightarrow> u16 \<Rightarrow> u16 \<Rightarrow> u16" where
  "pending_ints data intf intcap =
     cache_gpinten data AND intf AND
       (cache_intcon data OR (intcap AND int_trigger_rising data) OR (NOT intcap AND int_trigger_falling data))"

text \<open>\<open>fire\<close> is Zephyr's \<^verbatim>\<open>gpio_fire_callbacks\<close>.\<close>

definition power_io_shield_interrupt_work_handler ::
  "'c i2c_ops \<Rightarrow> ('b \<Rightarrow> u32 \<Rightarrow> 'a \<Rightarrow> 'a) \<Rightarrow> ('b, 'c, 'a) shield_world \<Rightarrow> ('b, 'c, 'a) shield_world" where
  "power_io_shield_interrupt_work_handler ops fire w =
     (let w = w\<lparr>sdata := (sdata w)\<lparr>on_interrupt_work := False\<rparr>\<rparr> in
      case read_u16_reg ops REG_INTFA (i2c w) of (err, intf, c) \<Rightarrow>
      let w = w\<lparr>i2c := c\<rparr> in
      if err \<noteq> rc0 then w
      else if intf = 0 then w
      else (case read_u16_reg ops REG_INTCAPA (i2c w) of (err, intcap, c) \<Rightarrow>
      let w = w\<lparr>i2c := c\<rparr> in
      if err \<noteq> rc0 then w
      else
        let ints = pending_ints (sdata w) intf intcap;
          w = w\<lparr>app := fire (interrupt_callbacks (sdata w)) (power_io_shield_gpio_bits_to_zephyr_bits ints) (app w)\<rparr>
        in if cache_intcon (sdata w) AND ints \<noteq> 0 then w\<lparr>sdata := (sdata w)\<lparr>on_interrupt_work := True\<rparr>\<rparr> else w))"

section \<open>Ports\<close>

definition power_io_shield_port_get_raw ::
  "'c i2c_ops \<Rightarrow> ('b, 'c, 'a) shield_world \<Rightarrow> c_int \<times> u32 option \<times> ('b, 'c, 'a) shield_world" where
  "power_io_shield_port_get_raw ops w =
     (case read_u16_reg ops REG_GPIOA (i2c w) of (ret, reg_value, c) \<Rightarrow>
      let w = w\<lparr>i2c := c\<rparr> in
      if ret \<noteq> rc0 then (Inl EIO, None, w)
      else (rc0, Some (power_io_shield_gpio_bits_to_zephyr_bits (reg_value XOR HARD_INVERT_PINS)),
        w\<lparr>sdata := (sdata w)\<lparr>cache_gpio := reg_value\<rparr>\<rparr>))"

text \<open>The output bits of a port value, moved to the bits of the expander.\<close>

definition map_outputs :: "u32 \<Rightarrow> u16" where
  "map_outputs v = (let output_value = (ucast (drop_bit 8 v) :: u8) in push_bit 2 (ucast output_value) AND OUTPUT_PINS_MASK)"

definition power_io_shield_gpio_set_masked_raw ::
  "'c i2c_ops \<Rightarrow> u32 \<Rightarrow> u32 \<Rightarrow> ('b, 'c, 'a) shield_world \<Rightarrow> c_int \<times> ('b, 'c, 'a) shield_world" where
  "power_io_shield_gpio_set_masked_raw ops msk v w =
     (let mapped_mask = map_outputs msk; mapped_value = map_outputs v;
        new_gpio = (cache_gpio (sdata w) AND NOT mapped_mask) OR (mapped_value AND mapped_mask)
      in case write_u16_reg ops REG_GPIOA new_gpio (i2c w) of (ret, c) \<Rightarrow>
         let w = w\<lparr>i2c := c\<rparr> in
         if ret \<noteq> rc0 then (Inl EIO, w) else (rc0, w\<lparr>sdata := (sdata w)\<lparr>cache_gpio := new_gpio\<rparr>\<rparr>))"

definition power_io_shield_gpio_set_bits_raw ::
  "'c i2c_ops \<Rightarrow> u32 \<Rightarrow> ('b, 'c, 'a) shield_world \<Rightarrow> c_int \<times> ('b, 'c, 'a) shield_world" where
  "power_io_shield_gpio_set_bits_raw ops msk = power_io_shield_gpio_set_masked_raw ops msk msk"

definition power_io_shield_gpio_clear_bits_raw ::
  "'c i2c_ops \<Rightarrow> u32 \<Rightarrow> ('b, 'c, 'a) shield_world \<Rightarrow> c_int \<times> ('b, 'c, 'a) shield_world" where
  "power_io_shield_gpio_clear_bits_raw ops msk = power_io_shield_gpio_set_masked_raw ops msk 0"

definition power_io_shield_pin_configure ::
  "'c i2c_ops \<Rightarrow> u8 \<Rightarrow> gpio_flags \<Rightarrow> ('b, 'c, 'a) shield_world \<Rightarrow> c_int \<times> ('b, 'c, 'a) shield_world" where
  "power_io_shield_pin_configure ops pin flags w =
     (let b = power_io_shield_zephyr_pin_to_gpio_bit pin in
      if pin_base pin = 0x00 then
        if GPIO_OUTPUT flags then (Inl ENOTSUP, w)
        else if GPIO_PULL_DOWN flags \<or> GPIO_PULL_UP flags then (Inl ENOTSUP, w)
        else (rc0, w)
      else if pin_base pin = 0x08 then
        if GPIO_INPUT flags then (Inl ENOTSUP, w)
        else if GPIO_PULL_DOWN flags \<or> GPIO_PULL_UP flags then (Inl ENOTSUP, w)
        else if GPIO_SINGLE_ENDED flags then (Inl ENOTSUP, w)
        else
          let gpio = (if GPIO_OUTPUT_INIT_HIGH flags then cache_gpio (sdata w) OR BIT16 b else cache_gpio (sdata w) AND NOT (BIT16 b));
            w = w\<lparr>sdata := (sdata w)\<lparr>cache_gpio := gpio\<rparr>\<rparr>
          in case write_u16_reg ops REG_GPIOA (cache_gpio (sdata w)) (i2c w) of (ret, c) \<Rightarrow>
             let w = w\<lparr>i2c := c\<rparr> in if ret \<noteq> rc0 then (Inl EIO, w) else (rc0, w)
      else if pin_base pin = 0x10 then
        if GPIO_OUTPUT flags then (Inl ENOTSUP, w)
        else if GPIO_PULL_DOWN flags \<or> GPIO_PULL_UP flags then (Inl ENOTSUP, w)
        else (rc0, w)
      else (Inl ENOTSUP, w))"

text \<open>\<open>manage\<close> is Zephyr's \<^verbatim>\<open>gpio_manage_callback\<close>.\<close>

definition power_io_shield_manage_callback ::
  "('b \<Rightarrow> 'k \<Rightarrow> bool \<Rightarrow> c_int \<times> 'b) \<Rightarrow> 'k \<Rightarrow> bool \<Rightarrow> ('b, 'c, 'a) shield_world \<Rightarrow> c_int \<times> ('b, 'c, 'a) shield_world" where
  "power_io_shield_manage_callback manage cb set_cb w =
     (case manage (interrupt_callbacks (sdata w)) cb set_cb of (ret, cbs) \<Rightarrow>
      (ret, w\<lparr>sdata := (sdata w)\<lparr>interrupt_callbacks := cbs\<rparr>\<rparr>))"

section \<open>Interrupt configuration\<close>

text \<open>The three writes; an error is logged and the next register is written all the same.\<close>

definition power_io_shield_write_interrupt_config_work_handler ::
  "'c i2c_ops \<Rightarrow> ('b, 'c, 'a) shield_world \<Rightarrow> ('b, 'c, 'a) shield_world" where
  "power_io_shield_write_interrupt_config_work_handler ops w =
     (let w = w\<lparr>sdata := (sdata w)\<lparr>write_interrupt_config_work := False\<rparr>\<rparr>;
        w = w\<lparr>i2c := snd (write_u16_reg ops REG_DEFVALA (cache_defval (sdata w)) (i2c w))\<rparr>;
        w = w\<lparr>i2c := snd (write_u16_reg ops REG_INTCONA (cache_intcon (sdata w)) (i2c w))\<rparr>
      in w\<lparr>i2c := snd (write_u16_reg ops REG_GPINTENA (cache_gpinten (sdata w)) (i2c w))\<rparr>)"

definition valid_interrupt :: "gpio_int_mode \<Rightarrow> gpio_int_trig \<Rightarrow> bool" where
  "valid_interrupt mode trig =
     (case mode of
        GPIO_INT_MODE_LEVEL \<Rightarrow> trig = GPIO_INT_TRIG_HIGH \<or> trig = GPIO_INT_TRIG_LOW
      | GPIO_INT_MODE_EDGE \<Rightarrow> trig = GPIO_INT_TRIG_HIGH \<or> trig = GPIO_INT_TRIG_LOW \<or> trig = GPIO_INT_TRIG_BOTH
      | GPIO_INT_MODE_DISABLED \<Rightarrow> True
      | GPIO_INT_MODE_other _ \<Rightarrow> False)"

definition inverted_trigger :: "nat \<Rightarrow> gpio_int_trig \<Rightarrow> gpio_int_trig" where
  "inverted_trigger b trig =
     (if BIT16 b AND HARD_INVERT_PINS \<noteq> 0 then
        if trig = GPIO_INT_TRIG_HIGH then GPIO_INT_TRIG_LOW
        else if trig = GPIO_INT_TRIG_LOW then GPIO_INT_TRIG_HIGH else trig
      else trig)"

fun update_interrupt_cache :: "gpio_int_mode \<Rightarrow> gpio_int_trig \<Rightarrow> nat \<Rightarrow> 'b power_io_shield_data \<Rightarrow> 'b power_io_shield_data" where
  "update_interrupt_cache GPIO_INT_MODE_DISABLED trig b data =
     data\<lparr>cache_gpinten := cache_gpinten data AND NOT (BIT16 b), cache_intcon := cache_intcon data AND NOT (BIT16 b),
       cache_defval := cache_defval data AND NOT (BIT16 b)\<rparr>"
| "update_interrupt_cache GPIO_INT_MODE_LEVEL trig b data =
     (let data = data\<lparr>cache_gpinten := cache_gpinten data OR BIT16 b, cache_intcon := cache_intcon data OR BIT16 b\<rparr> in
      case trig of
        GPIO_INT_TRIG_HIGH \<Rightarrow> data\<lparr>cache_defval := cache_defval data AND NOT (BIT16 b)\<rparr>
      | GPIO_INT_TRIG_LOW \<Rightarrow> data\<lparr>cache_defval := cache_defval data OR BIT16 b\<rparr>
      | _ \<Rightarrow> data)"
| "update_interrupt_cache GPIO_INT_MODE_EDGE trig b data =
     (let data = data\<lparr>cache_gpinten := cache_gpinten data OR BIT16 b, cache_intcon := cache_intcon data AND NOT (BIT16 b)\<rparr> in
      case trig of
        GPIO_INT_TRIG_HIGH \<Rightarrow>
          data\<lparr>int_trigger_rising := int_trigger_rising data OR BIT16 b, int_trigger_falling := int_trigger_falling data AND NOT (BIT16 b)\<rparr>
      | GPIO_INT_TRIG_LOW \<Rightarrow>
          data\<lparr>int_trigger_falling := int_trigger_falling data OR BIT16 b, int_trigger_rising := int_trigger_rising data AND NOT (BIT16 b)\<rparr>
      | GPIO_INT_TRIG_BOTH \<Rightarrow>
          data\<lparr>int_trigger_rising := int_trigger_rising data OR BIT16 b, int_trigger_falling := int_trigger_falling data OR BIT16 b\<rparr>
      | _ \<Rightarrow> data)"
| "update_interrupt_cache (GPIO_INT_MODE_other _) trig b data = data"

text \<open>
  \<open>in_isr\<close> is \<^verbatim>\<open>k_is_in_isr\<close>, and \<open>busy\<close> says that a thread holds the lock, which only an interrupt can meet. The
  result of submitting the work item goes to a variable of its own and is not returned.
\<close>

definition power_io_shield_pin_interrupt_configure ::
  "'c i2c_ops \<Rightarrow> bool \<Rightarrow> bool \<Rightarrow> u8 \<Rightarrow> gpio_int_mode \<Rightarrow> gpio_int_trig \<Rightarrow> ('b, 'c, 'a) shield_world \<Rightarrow>
   c_int \<times> ('b, 'c, 'a) shield_world" where
  "power_io_shield_pin_interrupt_configure ops in_isr busy pin mode trig w =
     (if pin_base pin \<noteq> 0x00 \<and> pin_base pin \<noteq> 0x10 then (Inl ENOTSUP, w)
      else if \<not> valid_interrupt mode trig then (Inl EINVAL, w)
      else if in_isr \<and> busy then (Inl EBUSY, w)
      else
        let b = power_io_shield_zephyr_pin_to_gpio_bit pin;
          w = w\<lparr>sdata := update_interrupt_cache mode (inverted_trigger b trig) b (sdata w)\<rparr>
        in if in_isr then (rc0, w\<lparr>sdata := (sdata w)\<lparr>write_interrupt_config_work := True\<rparr>\<rparr>)
           else (rc0, power_io_shield_write_interrupt_config_work_handler ops w))"

section \<open>Initialisation\<close>

text \<open>What the calls of the initialisation to the kernel and to the other drivers return.\<close>

record shield_env =
  i2c_ready :: bool
  int_gpios :: "(bool \<times> c_int) list"
  add_callback_ret :: c_int
  interrupt_configure_ret :: c_int

fun init_int_gpios :: "(bool \<times> c_int) list \<Rightarrow> c_int" where
  "init_int_gpios [] = rc0"
| "init_int_gpios ((ready, ret) # rest) =
     (if \<not> ready then Inl ENODEV else if ret \<noteq> rc0 then ret else init_int_gpios rest)"

definition iodir_value :: u16 where
  "iodir_value = (INPUT_PINS_MASK OR BIT16 14 OR BIT16 0 OR BIT16 1) AND 0x7f7f"

definition power_io_shield_init :: "shield_env \<Rightarrow> 'c i2c_ops \<Rightarrow> ('b, 'c, 'a) shield_world \<Rightarrow> c_int \<times> ('b, 'c, 'a) shield_world" where
  "power_io_shield_init env ops w =
     (if \<not> i2c_ready env then (Inl ENODEV, w)
      else if init_int_gpios (int_gpios env) \<noteq> rc0 then (init_int_gpios (int_gpios env), w)
      else if int_gpios env \<noteq> [] \<and> add_callback_ret env \<noteq> rc0 then (add_callback_ret env, w)
      else if int_gpios env \<noteq> [] \<and> interrupt_configure_ret env \<noteq> rc0 then (interrupt_configure_ret env, w)
      else (case write_iocon ops (push_bit 2 1 OR push_bit 6 1) (i2c w) of (ret, c) \<Rightarrow>
      let w = w\<lparr>i2c := c\<rparr> in
      if ret \<noteq> rc0 then (Inl EIO, w)
      else (case write_u16_reg ops REG_IODIRA iodir_value (i2c w) of (ret, c) \<Rightarrow>
      let w = w\<lparr>i2c := c\<rparr> in
      if ret \<noteq> rc0 then (Inl EIO, w)
      else (rc0, w\<lparr>sdata := (sdata w)\<lparr>on_interrupt_work := False, write_interrupt_config_work := False\<rparr>\<rparr>))))"

section \<open>Bits and pins\<close>

lemma bit_BIT16 [simp]: "bit (BIT16 k) n \<longleftrightarrow> n = k \<and> k < 16"
  by (auto simp: BIT16_def bit_simps)

lemma bit_3F: "bit (0x3F :: 'a::len word) n \<longleftrightarrow> n < 6 \<and> n < LENGTH('a)"
proof -
  have eq: "(0x3F :: 'a word) = mask 6" by (simp add: mask_eq_exp_minus_1)
  show ?thesis unfolding eq bit_mask_iff possible_bit_word by auto
qed

lemma bit_input_mask: "bit INPUT_PINS_MASK n \<longleftrightarrow> 8 \<le> n \<and> n < 14"
  unfolding INPUT_PINS_MASK_def bit_push_bit_iff bit_3F possible_bit_word by auto

lemma bit_output_mask: "bit OUTPUT_PINS_MASK n \<longleftrightarrow> 2 \<le> n \<and> n < 8"
  unfolding OUTPUT_PINS_MASK_def bit_push_bit_iff bit_3F possible_bit_word by auto

lemma bit_port_mask: "bit ZEPHYR_PINS_PORT_MASK n \<longleftrightarrow> n < 6 \<or> 8 \<le> n \<and> n < 14 \<or> 16 \<le> n \<and> n < 19"
proof -
  have "push_bit 6 1 - 1 = (mask 6 :: u32)" "push_bit 3 1 - 1 = (mask 3 :: u32)" by (simp_all add: mask_eq_exp_minus_1)
  note eq = this
  show ?thesis unfolding ZEPHYR_PINS_PORT_MASK_def eq bit_or_iff bit_push_bit_iff bit_mask_iff possible_bit_word by auto
qed

lemma bit_to_zephyr_bits:
  "bit (power_io_shield_gpio_bits_to_zephyr_bits m) n \<longleftrightarrow>
     n < 6 \<and> bit m (n + 8) \<or> 8 \<le> n \<and> n < 14 \<and> bit m (n - 6) \<or>
     n = 16 \<and> bit m 14 \<or> n = 17 \<and> bit m 0 \<or> n = 18 \<and> bit m 1"
proof -
  have inp: "bit (drop_bit 8 (ucast (m AND INPUT_PINS_MASK)) :: u32) k \<longleftrightarrow> k < 6 \<and> bit m (k + 8)" for k
    unfolding bit_drop_bit_eq comp_def bit_unsigned_iff bit_and_iff bit_input_mask possible_bit_word by (auto simp: add.commute)
  have out: "bit (drop_bit 2 (ucast (m AND OUTPUT_PINS_MASK)) :: u32) k \<longleftrightarrow> k < 6 \<and> bit m (k + 2)" for k
    unfolding bit_drop_bit_eq comp_def bit_unsigned_iff bit_and_iff bit_output_mask possible_bit_word by (auto simp: add.commute)
  have one: "bit (ucast (drop_bit i m) AND 1 :: u32) k \<longleftrightarrow> k = 0 \<and> bit m i" for i k
    unfolding bit_and_iff bit_1_iff bit_unsigned_iff bit_drop_bit_eq comp_def possible_bit_word by auto
  define faults where "faults = (ucast (drop_bit 14 m) AND 1) OR push_bit 1 (ucast (drop_bit 0 m) AND 1)
    OR push_bit 2 (ucast (drop_bit 1 m) AND 1 :: u32)"
  have flt: "bit faults k \<longleftrightarrow> k = 0 \<and> bit m 14 \<or> k = 1 \<and> bit m 0 \<or> k = 2 \<and> bit m 1" for k
    unfolding faults_def bit_or_iff bit_push_bit_iff one possible_bit_word by auto
  have "bit (power_io_shield_gpio_bits_to_zephyr_bits m) n \<longleftrightarrow>
      (n < 6 \<and> bit m (n + 8)) \<or> (8 \<le> n \<and> n - 8 < 6 \<and> bit m (n - 8 + 2)) \<or>
      (16 \<le> n \<and> (n - 16 = 0 \<and> bit m 14 \<or> n - 16 = 1 \<and> bit m 0 \<or> n - 16 = 2 \<and> bit m 1))"
    unfolding power_io_shield_gpio_bits_to_zephyr_bits_def Let_def faults_def [symmetric] bit_or_iff bit_push_bit_iff
      inp out flt possible_bit_word by (auto simp: less_diff_conv2)
  moreover have "n - 16 = 1 \<and> 16 \<le> n \<longleftrightarrow> n = 17" "n - 16 = 2 \<and> 16 \<le> n \<longleftrightarrow> n = 18" "n - 16 = 0 \<and> 16 \<le> n \<longleftrightarrow> n = 16"
    by auto
  moreover have "8 \<le> n \<and> n - 8 < 6 \<longleftrightarrow> 8 \<le> n \<and> n < 14" and "8 \<le> n \<Longrightarrow> n - 8 + 2 = n - 6" by auto
  ultimately show ?thesis by metis
qed

lemma pin_translations_agree_aux:
  assumes "n < 256"
  shows "bit (power_io_shield_gpio_bits_to_zephyr_bits m) n \<longleftrightarrow>
    bit ZEPHYR_PINS_PORT_MASK n \<and> bit m (power_io_shield_zephyr_pin_to_gpio_bit (of_nat n))"
proof (cases "bit ZEPHYR_PINS_PORT_MASK n")
  case True
  then have "n \<in> {0, 1, 2, 3, 4, 5, 8, 9, 10, 11, 12, 13, 16, 17, 18}" unfolding bit_port_mask insert_iff empty_iff by presburger
  then show ?thesis
    using True by (elim insertE emptyE)
      (simp add: bit_to_zephyr_bits power_io_shield_zephyr_pin_to_gpio_bit_def pin_base_def pin_index_def;
        simp add: numeral_2_eq_2 numeral_3_eq_3)+
next
  case False
  then show ?thesis by (auto simp: bit_to_zephyr_bits bit_port_mask)
qed

text \<open>
  The two translations of pin numbers agree: a pin of the port has, in a value that the driver hands
  to the application, the level of the bit of the expander that the pin number is translated to.
\<close>

theorem pin_translations_agree:
  assumes "n < 256"
  shows "bit (power_io_shield_gpio_bits_to_zephyr_bits m) n \<longleftrightarrow>
    bit ZEPHYR_PINS_PORT_MASK n \<and> bit m (power_io_shield_zephyr_pin_to_gpio_bit (of_nat n))"
  using assms by (rule pin_translations_agree_aux)

theorem pin_translations_agree_witness: "bit (power_io_shield_gpio_bits_to_zephyr_bits 0x4000) 16"
  using pin_translations_agree [of 16 "0x4000"]
  by (simp add: bit_port_mask power_io_shield_zephyr_pin_to_gpio_bit_def pin_base_def pin_index_def)

section \<open>Interrupt configuration, pin by pin\<close>

text \<open>What the cache says of a bit of the expander: no interrupt, a level, or the edges that count.\<close>

datatype bit_interrupt = No_interrupt | On_level bool | On_edge bool bool

definition bit_interrupt :: "'b power_io_shield_data \<Rightarrow> nat \<Rightarrow> bit_interrupt" where
  "bit_interrupt data b =
     (if \<not> bit (cache_gpinten data) b then No_interrupt
      else if bit (cache_intcon data) b then On_level (\<not> bit (cache_defval data) b)
      else On_edge (bit (int_trigger_rising data) b) (bit (int_trigger_falling data) b))"

fun requested :: "gpio_int_mode \<Rightarrow> gpio_int_trig \<Rightarrow> bit_interrupt" where
  "requested GPIO_INT_MODE_LEVEL trig = On_level (trig = GPIO_INT_TRIG_HIGH)"
| "requested GPIO_INT_MODE_EDGE trig =
     On_edge (trig = GPIO_INT_TRIG_HIGH \<or> trig = GPIO_INT_TRIG_BOTH) (trig = GPIO_INT_TRIG_LOW \<or> trig = GPIO_INT_TRIG_BOTH)"
| "requested _ trig = No_interrupt"

lemma update_interrupt_cache_same:
  "valid_interrupt mode trig \<Longrightarrow> b < 16 \<Longrightarrow> bit_interrupt (update_interrupt_cache mode trig b data) b = requested mode trig"
  by (cases mode; cases trig) (simp_all add: valid_interrupt_def bit_interrupt_def bit_simps Let_def)

lemma update_interrupt_cache_other:
  "b' \<noteq> b \<Longrightarrow> bit_interrupt (update_interrupt_cache mode trig b data) b' = bit_interrupt data b'"
proof -
  assume "b' \<noteq> b"
  then have keep: "bit (x OR BIT16 b) b' = bit x b'" "bit (x AND NOT (BIT16 b)) b' = bit x b'" for x
    by (auto simp: bit_simps dest: bit_imp_le_length)
  then show ?thesis by (cases mode; cases trig) (simp_all add: bit_interrupt_def keep Let_def)
qed

lemma update_interrupt_cache_fun:
  "valid_interrupt mode trig \<Longrightarrow> b < 16 \<Longrightarrow>
   bit_interrupt (update_interrupt_cache mode trig b data) = (bit_interrupt data)(b := requested mode trig)"
  by (rule ext) (simp add: update_interrupt_cache_same update_interrupt_cache_other)

text \<open>The bit of a pending interrupt: it was flagged by the expander, and what the cache says of it fits the captured level.\<close>

lemma bit_pending_ints:
  "b < 16 \<Longrightarrow> bit (pending_ints data intf intcap) b \<longleftrightarrow> bit intf b \<and>
     (case bit_interrupt data b of
        No_interrupt \<Rightarrow> False
      | On_level _ \<Rightarrow> True
      | On_edge rising falling \<Rightarrow> if bit intcap b then rising else falling)"
  by (auto simp: pending_ints_def bit_interrupt_def bit_simps)

lemma gpio_bit_less: "power_io_shield_zephyr_pin_to_gpio_bit pin < 16"
proof -
  have "unat (pin_index pin) \<le> 7"
    unfolding pin_index_def using word_and_le1 [of pin "NOT 0xf8"] by (simp add: word_le_nat_alt and.commute)
  then show ?thesis by (simp add: power_io_shield_zephyr_pin_to_gpio_bit_def)
qed

lemma bit_map_outputs: "bit (map_outputs v) b \<longleftrightarrow> 2 \<le> b \<and> b < 8 \<and> bit v (b + 6)"
proof -
  have "b - 2 + 8 = b + 6" if "2 \<le> b" using that by simp
  then show ?thesis
    unfolding map_outputs_def Let_def bit_and_iff bit_push_bit_iff bit_unsigned_iff bit_drop_bit_eq comp_def bit_output_mask possible_bit_word
    by (auto simp: add.commute)
qed

section \<open>The bus contract\<close>

text \<open>What the driver relies on: a write of three bytes that succeeds sets two registers, and a read returns what they hold.\<close>

locale register_bus =
  fixes ops :: "'c i2c_ops"
    and reg :: "'c \<Rightarrow> u8 \<Rightarrow> u8"
    and ok :: "'c \<Rightarrow> bool"
  assumes bus_write: "ok c \<Longrightarrow> a \<le> 0x12 \<Longrightarrow> i2c_write_dt ops [a, lo, hi] c = (rc0, c') \<Longrightarrow>
      ok c' \<and> reg c' = (reg c)(a := lo, a + 1 := hi)"
    and bus_read: "ok c \<Longrightarrow> a \<le> 0x12 \<Longrightarrow> i2c_write_read_dt ops [a] 2 c = (rc0, buf, c') \<Longrightarrow>
      ok c' \<and> reg c' = reg c \<and> buf = [reg c a, reg c (a + 1)]"
begin

definition reg16 :: "'c \<Rightarrow> u8 \<Rightarrow> u16" where
  "reg16 c a = u16_of_bytes (reg c a) (reg c (a + 1))"

lemma write_u16_reg_ok:
  assumes "ok c" and "a \<le> 0x12" and "write_u16_reg ops a v c = (rc0, c')"
  shows "ok c'" and "reg16 c' a = v" and "b \<noteq> a \<Longrightarrow> b \<noteq> a + 1 \<Longrightarrow> a \<noteq> b + 1 \<Longrightarrow> reg16 c' b = reg16 c b"
  using bus_write [OF assms(1,2), of "lo_byte v" "hi_byte v" c'] assms(3)
  by (auto simp: write_u16_reg_def reg16_def)

lemma read_u16_reg_ok:
  assumes "ok c" and "a \<le> 0x12" and "read_u16_reg ops a c = (rc0, v, c')"
  shows "ok c'" and "reg c' = reg c" and "v = reg16 c a"
proof -
  obtain buf where "i2c_write_read_dt ops [a] 2 c = (rc0, buf, c')" and "v = u16_of_bytes (buf ! 0) (buf ! 1)"
    using assms(3) by (auto simp: read_u16_reg_def split: prod.splits if_splits)
  then show "ok c'" and "reg c' = reg c" and "v = reg16 c a"
    using bus_read [OF assms(1,2)] by (auto simp: reg16_def)
qed

text \<open>The cache of the outputs and the register agree.\<close>

definition coherent :: "('b, 'c, 'a) shield_world \<Rightarrow> bool" where
  "coherent w \<longleftrightarrow> ok (i2c w) \<and> reg16 (i2c w) REG_GPIOA = cache_gpio (sdata w)"

lemma set_masked_coherent:
  assumes "coherent w" and "power_io_shield_gpio_set_masked_raw ops msk v w = (rc0, w')"
  shows "coherent w'"
    and "cache_gpio (sdata w') = (cache_gpio (sdata w) AND NOT (map_outputs msk)) OR (map_outputs v AND map_outputs msk)"
proof -
  let ?v = "(cache_gpio (sdata w) AND NOT (map_outputs msk)) OR (map_outputs v AND map_outputs msk)"
  obtain c where c: "write_u16_reg ops REG_GPIOA ?v (i2c w) = (rc0, c)" and w': "w' = w\<lparr>i2c := c, sdata := (sdata w)\<lparr>cache_gpio := ?v\<rparr>\<rparr>"
    using assms(2) by (auto simp: power_io_shield_gpio_set_masked_raw_def Let_def split: prod.splits if_splits)
  show "coherent w'" using write_u16_reg_ok [OF _ _ c] assms(1) by (simp add: coherent_def w')
  show "cache_gpio (sdata w') = ?v" by (simp add: w')
qed

lemma port_get_ok:
  assumes "ok (i2c w)" and "power_io_shield_port_get_raw ops w = (rc0, x, w')"
  shows "coherent w'" and "x = Some (power_io_shield_gpio_bits_to_zephyr_bits (reg16 (i2c w) REG_GPIOA XOR HARD_INVERT_PINS))"
proof -
  obtain v c where c: "read_u16_reg ops REG_GPIOA (i2c w) = (rc0, v, c)"
    and w': "w' = w\<lparr>i2c := c, sdata := (sdata w)\<lparr>cache_gpio := v\<rparr>\<rparr>"
    and x: "x = Some (power_io_shield_gpio_bits_to_zephyr_bits (v XOR HARD_INVERT_PINS))"
    using assms(2) by (auto simp: power_io_shield_port_get_raw_def Let_def split: prod.splits if_splits)
  note r = read_u16_reg_ok [OF assms(1) _ c]
  show "coherent w'" using r by (simp add: coherent_def w' reg16_def)
  show "x = Some (power_io_shield_gpio_bits_to_zephyr_bits (reg16 (i2c w) REG_GPIOA XOR HARD_INVERT_PINS))" using r x by simp
qed

lemma pin_configure_coherent:
  assumes "coherent w" and "power_io_shield_pin_configure ops pin flags w = (rc0, w')"
  shows "coherent w'"
proof (cases "pin_base pin = 0x08")
  case True
  then obtain v c where c: "write_u16_reg ops REG_GPIOA v (i2c w) = (rc0, c)" and w': "w' = w\<lparr>sdata := (sdata w)\<lparr>cache_gpio := v\<rparr>, i2c := c\<rparr>"
    using assms(2) by (auto simp: power_io_shield_pin_configure_def Let_def split: prod.splits if_splits)
  show ?thesis using write_u16_reg_ok [OF _ _ c] assms(1) by (simp add: coherent_def w')
next
  case False
  then have "w' = w" using assms(2) by (auto simp: power_io_shield_pin_configure_def Let_def split: if_splits)
  then show ?thesis using assms(1) by simp
qed

text \<open>What is written to the outputs is read back; the other pins keep their level.\<close>

lemma output_read_back:
  assumes "coherent w" and "power_io_shield_gpio_set_masked_raw ops msk v w = (rc0, w')"
    and "power_io_shield_port_get_raw ops w' = (rc0, Some x, w'')"
  shows "8 \<le> p \<Longrightarrow> p < 14 \<Longrightarrow> bit x p = (if bit msk p then bit v p else bit (cache_gpio (sdata w)) (p - 6))"
    and "p < 6 \<Longrightarrow> bit x p = (\<not> bit (cache_gpio (sdata w)) (p + 8))"
    and "16 \<le> p \<Longrightarrow> p < 19 \<Longrightarrow>
      bit x p = bit (cache_gpio (sdata w)) (power_io_shield_zephyr_pin_to_gpio_bit (of_nat p))"
proof -
  note s = set_masked_coherent [OF assms(1,2)]
  have reg: "reg16 (i2c w') REG_GPIOA = cache_gpio (sdata w')" and "ok (i2c w')" using s(1) by (simp_all add: coherent_def)
  then have x: "x = power_io_shield_gpio_bits_to_zephyr_bits (cache_gpio (sdata w') XOR HARD_INVERT_PINS)"
    using port_get_ok(2) [OF _ assms(3)] by simp
  show "8 \<le> p \<Longrightarrow> p < 14 \<Longrightarrow> bit x p = (if bit msk p then bit v p else bit (cache_gpio (sdata w)) (p - 6))"
    by (auto simp: x s(2) bit_to_zephyr_bits bit_map_outputs bit_input_mask bit_simps)
  show "p < 6 \<Longrightarrow> bit x p = (\<not> bit (cache_gpio (sdata w)) (p + 8))"
    by (auto simp: x s(2) bit_to_zephyr_bits bit_map_outputs bit_input_mask bit_simps)
  assume "16 \<le> p" and "p < 19"
  then consider "p = 16" | "p = 17" | "p = 18" by linarith
  then show "bit x p = bit (cache_gpio (sdata w)) (power_io_shield_zephyr_pin_to_gpio_bit (of_nat p))"
    by cases (auto simp: x s(2) bit_to_zephyr_bits bit_map_outputs bit_input_mask bit_simps power_io_shield_zephyr_pin_to_gpio_bit_def pin_base_def pin_index_def)
qed

end

section \<open>The emulated expander\<close>

text \<open>
  The emulator of the expander (\<^verbatim>\<open>power_io_shield_emul.c\<close>): an array of 27 registers behind a transfer of I2C
  messages. \<open>None\<close> is an access outside of the array, which its assertions let through for the index 27.
\<close>

abbreviation NUM_REGS :: nat where "NUM_REGS \<equiv> 27"

record i2c_msg =
  msg_buf :: "u8 list"
  msg_len :: nat
  msg_read :: bool
  msg_stop :: bool

definition power_io_shield_emul_set_reg :: "u8 \<Rightarrow> u8 \<Rightarrow> u8 list \<Rightarrow> u8 list option" where
  "power_io_shield_emul_set_reg reg_addr v reg = (if unat reg_addr < NUM_REGS then Some (reg[unat reg_addr := v]) else None)"

definition power_io_shield_emul_set_u16_reg :: "u8 \<Rightarrow> u16 \<Rightarrow> u8 list \<Rightarrow> u8 list option" where
  "power_io_shield_emul_set_u16_reg reg_addr v reg =
     (if unat reg_addr + 1 < NUM_REGS then Some (reg[unat reg_addr := lo_byte v, unat reg_addr + 1 := hi_byte v]) else None)"

definition power_io_shield_emul_get_reg :: "u8 \<Rightarrow> u8 list \<Rightarrow> u8 option" where
  "power_io_shield_emul_get_reg reg_addr reg = (if unat reg_addr < NUM_REGS then Some (reg ! unat reg_addr) else None)"

definition power_io_shield_emul_get_u16_reg :: "u8 \<Rightarrow> u8 list \<Rightarrow> u16 option" where
  "power_io_shield_emul_get_u16_reg reg_addr reg =
     (if unat reg_addr + 1 < NUM_REGS then Some (u16_of_bytes (reg ! unat reg_addr) (reg ! (unat reg_addr + 1))) else None)"

fun emul_write :: "u8 list \<Rightarrow> u8 \<Rightarrow> u8 list \<Rightarrow> (u8 \<times> u8 list) option" where
  "emul_write [] reg_addr reg = Some (reg_addr, reg)"
| "emul_write (x # xs) reg_addr reg =
     (if unat reg_addr < NUM_REGS then emul_write xs (reg_addr + 1) (reg[unat reg_addr := x]) else None)"

fun emul_read :: "nat \<Rightarrow> u8 \<Rightarrow> u8 list \<Rightarrow> (u8 \<times> u8 list) option" where
  "emul_read 0 reg_addr reg = Some (reg_addr, [])"
| "emul_read (Suc n) reg_addr reg =
     (if unat reg_addr < NUM_REGS
      then map_option (\<lambda>(a, buf). (a, reg ! unat reg_addr # buf)) (emul_read n (reg_addr + 1) reg) else None)"

text \<open>The loop over the messages; the buffers that were read are returned in order.\<close>

fun emul_messages :: "i2c_msg list \<Rightarrow> u8 \<Rightarrow> bool \<Rightarrow> u8 list \<Rightarrow> (c_int \<times> u8 list list \<times> u8 list) option" where
  "emul_messages [] reg_addr stop_seen reg = Some (rc0, [], reg)"
| "emul_messages (msg # msgs) reg_addr stop_seen reg =
     (if stop_seen then
        if msg_read msg then Some (Inl EIO, [], reg)
        else (case msg_buf msg of
                [] \<Rightarrow> None
              | a # bytes \<Rightarrow> Option.bind (emul_write (take (msg_len msg - 1) bytes) a reg) (\<lambda>(a, reg). emul_messages msgs a (msg_stop msg) reg))
      else if msg_read msg then
        Option.bind (emul_read (msg_len msg) reg_addr reg) (\<lambda>(a, buf).
        map_option (\<lambda>(rc, bufs, reg). (rc, buf # bufs, reg)) (emul_messages msgs a (msg_stop msg) reg))
      else
        Option.bind (emul_write (take (msg_len msg) (msg_buf msg)) reg_addr reg) (\<lambda>(a, reg). emul_messages msgs a (msg_stop msg) reg))"

definition power_io_shield_emul_transfer_i2c :: "i2c_msg list \<Rightarrow> u8 list \<Rightarrow> (c_int \<times> u8 list list \<times> u8 list) option" where
  "power_io_shield_emul_transfer_i2c msgs reg = (if msgs = [] then Some (Inl EIO, [], reg) else emul_messages msgs 0 True reg)"

definition power_io_shield_emul_init :: "u8 list" where
  "power_io_shield_emul_init = replicate NUM_REGS 0"

text \<open>
  The transfers of the I2C API on the emulator: a write is one message that ends with a stop, a write and read two
  messages with a stop at the end. An access outside of the array stands as an error here.
\<close>

definition emul_ops :: "u8 list i2c_ops" where
  "emul_ops =
     \<lparr>i2c_write_dt = (\<lambda>buf reg.
        case power_io_shield_emul_transfer_i2c [\<lparr>msg_buf = buf, msg_len = length buf, msg_read = False, msg_stop = True\<rparr>] reg of
          None \<Rightarrow> (Inl EFAULT, reg)
        | Some (rc, _, reg') \<Rightarrow> (rc, reg')),
      i2c_write_read_dt = (\<lambda>buf n reg.
        case power_io_shield_emul_transfer_i2c
          [\<lparr>msg_buf = buf, msg_len = length buf, msg_read = False, msg_stop = False\<rparr>,
           \<lparr>msg_buf = [], msg_len = n, msg_read = True, msg_stop = True\<rparr>] reg of
          None \<Rightarrow> (Inl EFAULT, [], reg)
        | Some (rc, bufs, reg') \<Rightarrow> (rc, concat bufs, reg'))\<rparr>"

definition emul_reg :: "u8 list \<Rightarrow> u8 \<Rightarrow> u8" where
  "emul_reg reg a = (if unat a < NUM_REGS then reg ! unat a else 0)"

lemma emul_next_reg:
  "(a :: u8) \<le> 0x12 \<Longrightarrow> unat (a + 1) = Suc (unat a) \<and> unat a \<le> 18"
proof -
  assume "a \<le> 0x12"
  then have a: "unat a \<le> 18" by (simp add: word_le_nat_alt)
  then show ?thesis by (simp add: unat_word_ariths)
qed

lemma emul_ops_write:
  assumes "a \<le> 0x12"
  shows "i2c_write_dt emul_ops [a, lo, hi] reg = (rc0, reg[unat a := lo, Suc (unat a) := hi])"
  using emul_next_reg [OF assms] by (simp add: emul_ops_def power_io_shield_emul_transfer_i2c_def)

lemma emul_ops_read:
  assumes "a \<le> 0x12"
  shows "i2c_write_read_dt emul_ops [a] 2 reg = (rc0, [reg ! unat a, reg ! Suc (unat a)], reg)"
  using emul_next_reg [OF assms] by (simp add: emul_ops_def power_io_shield_emul_transfer_i2c_def numeral_2_eq_2)

interpretation emul: register_bus emul_ops emul_reg "\<lambda>reg. length reg = NUM_REGS"
proof
  fix c c' :: "u8 list" and a lo hi :: u8 and buf
  assume len: "length c = NUM_REGS" and a: "a \<le> 0x12"
  note n = emul_next_reg [OF a]
  show "length c' = NUM_REGS \<and> emul_reg c' = (emul_reg c)(a := lo, a + 1 := hi)"
    if "i2c_write_dt emul_ops [a, lo, hi] c = (rc0, c')"
  proof -
    have c': "c' = c[unat a := lo, Suc (unat a) := hi]" using that emul_ops_write [OF a] by simp
    have "emul_reg c' x = ((emul_reg c)(a := lo, a + 1 := hi)) x" for x
    proof -
      have "x = a \<or> unat x \<noteq> unat a" "x = a + 1 \<or> unat x \<noteq> Suc (unat a)" using n by (auto simp: word_unat_eq_iff)
      moreover have "a \<noteq> a + 1" by simp
      ultimately show ?thesis using len n by (auto simp: c' emul_reg_def)
    qed
    then show ?thesis using len by (auto simp: c')
  qed
  show "length c' = NUM_REGS \<and> emul_reg c' = emul_reg c \<and> buf = [emul_reg c a, emul_reg c (a + 1)]"
    if "i2c_write_read_dt emul_ops [a] 2 c = (rc0, buf, c')"
    using that emul_ops_read [OF a, of c] n len by (auto simp: emul_reg_def)
qed

lemma valid_inverted: "valid_interrupt mode trig \<Longrightarrow> valid_interrupt mode (inverted_trigger b trig)"
  by (cases mode) (auto simp: valid_interrupt_def inverted_trigger_def)

lemma write_config_sdata:
  "sdata (power_io_shield_write_interrupt_config_work_handler ops w) = (sdata w)\<lparr>write_interrupt_config_work := False\<rparr>"
  by (simp add: power_io_shield_write_interrupt_config_work_handler_def Let_def)

lemma write_config_registers:
  assumes "length (i2c w) = NUM_REGS"
  defines "c \<equiv> i2c (power_io_shield_write_interrupt_config_work_handler emul_ops w)"
  shows "emul.reg16 c REG_DEFVALA = cache_defval (sdata w)" and "emul.reg16 c REG_INTCONA = cache_intcon (sdata w)"
    and "emul.reg16 c REG_GPINTENA = cache_gpinten (sdata w)"
  using assms(1)
  by (simp_all add: c_def power_io_shield_write_interrupt_config_work_handler_def Let_def write_u16_reg_def emul_ops_write
      emul.reg16_def emul_reg_def)

section \<open>Properties\<close>

text \<open>
  On the emulated expander the outputs that the application sets are read back, and no other pin is
  touched: after a masked write, a read of the port gives each output the new value where the mask selects it and
  the cached one elsewhere, each input the opposite of its register bit and each fault pin its bit.
\<close>

theorem outputs_read_back:
  assumes "emul.coherent w" and "power_io_shield_gpio_set_masked_raw emul_ops msk v w = (rc0, w')"
    and "power_io_shield_port_get_raw emul_ops w' = (rc0, Some x, w'')"
  shows "(\<forall>p. 8 \<le> p \<longrightarrow> p < 14 \<longrightarrow> bit x p = (if bit msk p then bit v p else bit (cache_gpio (sdata w)) (p - 6))) \<and>
    (\<forall>p < 6. bit x p = (\<not> bit (cache_gpio (sdata w)) (p + 8))) \<and>
    (\<forall>p. 16 \<le> p \<longrightarrow> p < 19 \<longrightarrow> bit x p = bit (cache_gpio (sdata w)) (power_io_shield_zephyr_pin_to_gpio_bit (of_nat p))) \<and>
    emul.coherent w''"
  using emul.output_read_back [OF assms] emul.port_get_ok(1) [OF _ assms(3)] emul.set_masked_coherent(1) [OF assms(1,2)]
  by (auto simp: emul.coherent_def)

definition booted_shield :: "(unit, u8 list, unit) shield_world" where
  "booted_shield = \<lparr>sdata = \<lparr>cache_gpinten = 0, cache_intcon = 0, cache_defval = 0, cache_gpio = 0, int_trigger_rising = 0,
      int_trigger_falling = 0, interrupt_callbacks = (), on_interrupt_work = False, write_interrupt_config_work = False\<rparr>,
    i2c = power_io_shield_emul_init, app = ()\<rparr>"

lemma booted_coherent: "emul.coherent booted_shield"
  by (simp add: emul.coherent_def emul.reg16_def booted_shield_def power_io_shield_emul_init_def emul_reg_def u16_of_bytes_def)

theorem outputs_read_back_witness:
  "\<exists>x w''. power_io_shield_port_get_raw emul_ops
      (snd (power_io_shield_gpio_set_masked_raw emul_ops 0x0300 0x0100 booted_shield)) = (rc0, Some x, w'') \<and>
    bit x 8 \<and> \<not> bit x 9"
proof -
  obtain w' where w': "power_io_shield_gpio_set_masked_raw emul_ops 0x0300 0x0100 booted_shield = (rc0, w')"
    by (simp add: power_io_shield_gpio_set_masked_raw_def write_u16_reg_def emul_ops_write Let_def)
  obtain x w'' where x: "power_io_shield_port_get_raw emul_ops w' = (rc0, Some x, w'')"
    by (simp add: power_io_shield_port_get_raw_def read_u16_reg_def emul_ops_read Let_def)
  have "(\<forall>p. 8 \<le> p \<longrightarrow> p < 14 \<longrightarrow> bit x p = (if bit (0x0300 :: u32) p then bit (0x0100 :: u32) p else bit (cache_gpio (sdata booted_shield)) (p - 6)))"
    using outputs_read_back [OF booted_coherent w' x] by blast
  then have "bit x 8 \<and> \<not> bit x 9"
    by (auto dest: spec [where x = 8] spec [where x = 9] simp: bit_numeral_rec)
  then show ?thesis using w' x by auto
qed

text \<open>
  (C28) Configuring the interrupt of an input or fault pin changes the interrupt of that pin alone, to what was
  asked for, with the polarity turned around where the hardware inverts the pin; and on a call from a thread the
  registers of the expander then hold the configuration of all pins. The I2C bus is the emulator of the repository, on
  which no transfer fails.
\<close>

theorem interrupt_configure_refines:
  assumes "power_io_shield_pin_interrupt_configure emul_ops in_isr busy pin mode trig w = (rc0, w')"
    and "length (i2c w) = NUM_REGS"
  shows "bit_interrupt (sdata w') = (bit_interrupt (sdata w))
      (power_io_shield_zephyr_pin_to_gpio_bit pin := requested mode (inverted_trigger (power_io_shield_zephyr_pin_to_gpio_bit pin) trig)) \<and>
    (if in_isr then i2c w' = i2c w \<and> write_interrupt_config_work (sdata w')
     else emul.reg16 (i2c w') REG_DEFVALA = cache_defval (sdata w') \<and> emul.reg16 (i2c w') REG_INTCONA = cache_intcon (sdata w') \<and>
       emul.reg16 (i2c w') REG_GPINTENA = cache_gpinten (sdata w'))"
proof -
  let ?b = "power_io_shield_zephyr_pin_to_gpio_bit pin"
  let ?d = "update_interrupt_cache mode (inverted_trigger ?b trig) ?b (sdata w)"
  have valid: "valid_interrupt mode trig"
    and w': "w' = (if in_isr then w\<lparr>sdata := ?d\<lparr>write_interrupt_config_work := True\<rparr>\<rparr>
      else power_io_shield_write_interrupt_config_work_handler emul_ops (w\<lparr>sdata := ?d\<rparr>))"
    using assms(1) by (auto simp: power_io_shield_pin_interrupt_configure_def Let_def split: if_splits)
  have "bit_interrupt ?d = (bit_interrupt (sdata w))(?b := requested mode (inverted_trigger ?b trig))"
    by (rule update_interrupt_cache_fun [OF valid_inverted [OF valid] gpio_bit_less])
  moreover have "bit_interrupt (x\<lparr>write_interrupt_config_work := b\<rparr>) = bit_interrupt x" for b and x :: "'a power_io_shield_data"
    by (simp add: fun_eq_iff bit_interrupt_def)
  ultimately show ?thesis
    using assms(2) write_config_registers [of "w\<lparr>sdata := ?d\<rparr>"]
    by (simp add: w' write_config_sdata)
qed

theorem interrupt_configure_refines_witness:
  "bit_interrupt (sdata (snd (power_io_shield_pin_interrupt_configure emul_ops False False 0 GPIO_INT_MODE_EDGE GPIO_INT_TRIG_HIGH booted_shield))) 8 =
    On_edge False True"
proof -
  obtain w' where w': "power_io_shield_pin_interrupt_configure emul_ops False False 0 GPIO_INT_MODE_EDGE GPIO_INT_TRIG_HIGH booted_shield = (rc0, w')"
    by (simp add: power_io_shield_pin_interrupt_configure_def valid_interrupt_def pin_base_def Let_def)
  have "bit (BIT16 8 AND HARD_INVERT_PINS) 8" by (simp add: bit_and_iff bit_input_mask)
  then have "BIT16 8 AND HARD_INVERT_PINS \<noteq> 0" by (metis bit_0_eq bot_apply bot_bool_def)
  moreover have "length (i2c booted_shield) = NUM_REGS" by (simp add: booted_shield_def power_io_shield_emul_init_def)
  ultimately show ?thesis
    using interrupt_configure_refines [OF w']
    by (simp add: w' power_io_shield_zephyr_pin_to_gpio_bit_def pin_base_def pin_index_def inverted_trigger_def)
qed

lemma invert_bit: "b < 16 \<Longrightarrow> BIT16 b AND HARD_INVERT_PINS \<noteq> 0 \<longleftrightarrow> 8 \<le> b \<and> b < 14"
proof -
  assume "b < 16"
  then have "BIT16 b AND HARD_INVERT_PINS \<noteq> 0 \<longleftrightarrow> bit HARD_INVERT_PINS b"
    using bit_eq_iff [of "BIT16 b AND HARD_INVERT_PINS" 0] by (simp add: bit_and_iff)
  then show ?thesis by (simp add: bit_input_mask)
qed

text \<open>
  A level interrupt is for the level as the application reads it: the expander raises the interrupt of a
  pin when the bit differs from the default value that the driver has set, and this is so exactly when a read of the port
  would give the pin the level that was asked for, although the inputs are inverted by the hardware.
\<close>

theorem level_interrupt_polarity:
  assumes "power_io_shield_pin_interrupt_configure ops in_isr busy (of_nat p) GPIO_INT_MODE_LEVEL trig w = (rc0, w')"
    and "bit ZEPHYR_PINS_PORT_MASK p"
  shows "bit levels (power_io_shield_zephyr_pin_to_gpio_bit (of_nat p)) \<noteq>
      bit (cache_defval (sdata w')) (power_io_shield_zephyr_pin_to_gpio_bit (of_nat p)) \<longleftrightarrow>
    bit (power_io_shield_gpio_bits_to_zephyr_bits (levels XOR HARD_INVERT_PINS)) p = (trig = GPIO_INT_TRIG_HIGH)"
proof -
  let ?b = "power_io_shield_zephyr_pin_to_gpio_bit (of_nat p)"
  have p: "p < 256" using assms(2) by (auto simp: bit_port_mask)
  have trig: "trig = GPIO_INT_TRIG_HIGH \<or> trig = GPIO_INT_TRIG_LOW" and base: "pin_base (of_nat p) \<noteq> 0x08"
    using assms(1) by (auto simp: power_io_shield_pin_interrupt_configure_def valid_interrupt_def split: if_splits)
  have "cache_defval (sdata w') = cache_defval (update_interrupt_cache GPIO_INT_MODE_LEVEL (inverted_trigger ?b trig) ?b (sdata w))"
    using assms(1) by (auto simp: power_io_shield_pin_interrupt_configure_def Let_def write_config_sdata split: if_splits)
  then have "bit (cache_defval (sdata w')) ?b \<longleftrightarrow> inverted_trigger ?b trig = GPIO_INT_TRIG_LOW"
    using trig gpio_bit_less [of "of_nat p"] by (auto simp: inverted_trigger_def Let_def bit_simps)
  moreover have "inverted_trigger ?b trig = GPIO_INT_TRIG_LOW \<longleftrightarrow> (trig = GPIO_INT_TRIG_LOW) \<noteq> (8 \<le> ?b \<and> ?b < 14)"
    using trig invert_bit [OF gpio_bit_less] by (auto simp: inverted_trigger_def)
  moreover have "bit (power_io_shield_gpio_bits_to_zephyr_bits (levels XOR HARD_INVERT_PINS)) p \<longleftrightarrow>
      bit levels ?b \<noteq> (8 \<le> ?b \<and> ?b < 14)"
    using pin_translations_agree_aux [OF p] assms(2) by (simp add: bit_xor_iff bit_input_mask)
  ultimately show ?thesis using trig by auto
qed

theorem level_interrupt_polarity_witness:
  "bit (0x0000 :: u16) 8 \<noteq> bit (cache_defval (sdata (snd
      (power_io_shield_pin_interrupt_configure emul_ops False False 0 GPIO_INT_MODE_LEVEL GPIO_INT_TRIG_HIGH booted_shield)))) 8"
proof -
  obtain w' where w': "power_io_shield_pin_interrupt_configure emul_ops False False 0 GPIO_INT_MODE_LEVEL GPIO_INT_TRIG_HIGH booted_shield = (rc0, w')"
    by (simp add: power_io_shield_pin_interrupt_configure_def valid_interrupt_def pin_base_def Let_def)
  have "bit ZEPHYR_PINS_PORT_MASK 0" by (simp add: bit_port_mask)
  moreover have "bit (power_io_shield_gpio_bits_to_zephyr_bits (0x0000 XOR HARD_INVERT_PINS)) 0"
    by (simp add: bit_to_zephyr_bits bit_input_mask)
  ultimately show ?thesis
    using level_interrupt_polarity [of emul_ops False False 0 GPIO_INT_TRIG_HIGH booted_shield w' "0x0000"] w'
    by (simp add: power_io_shield_zephyr_pin_to_gpio_bit_def pin_base_def pin_index_def)
qed

text \<open>
  When the expander signals an interrupt, the callbacks are fired for exactly the pins that the
  expander flags and whose configured level or edge fits what it has captured.
\<close>

theorem interrupt_fires_configured_pins:
  assumes "length (i2c w) = NUM_REGS" and "emul.reg16 (i2c w) REG_INTFA \<noteq> 0"
  shows "\<exists>pins. app (power_io_shield_interrupt_work_handler emul_ops fire w) = fire (interrupt_callbacks (sdata w)) pins (app w) \<and>
    (\<forall>p < 256. bit pins p \<longleftrightarrow> bit ZEPHYR_PINS_PORT_MASK p \<and>
       (let b = power_io_shield_zephyr_pin_to_gpio_bit (of_nat p) in
        bit (emul.reg16 (i2c w) REG_INTFA) b \<and>
        (case bit_interrupt (sdata w) b of
           No_interrupt \<Rightarrow> False
         | On_level _ \<Rightarrow> True
         | On_edge rising falling \<Rightarrow> if bit (emul.reg16 (i2c w) REG_INTCAPA) b then rising else falling)))"
proof -
  let ?ints = "pending_ints (sdata w) (emul.reg16 (i2c w) REG_INTFA) (emul.reg16 (i2c w) REG_INTCAPA)"
  have read: "read_u16_reg emul_ops a c = (rc0, emul.reg16 c a, c)" if "a \<le> 0x12" for a and c :: "u8 list"
    using emul_next_reg [OF that] by (simp add: read_u16_reg_def emul_ops_read [OF that] emul.reg16_def emul_reg_def)
  have same: "pending_ints ((sdata w)\<lparr>on_interrupt_work := b\<rparr>) = pending_ints (sdata w)" for b
    by (simp add: pending_ints_def fun_eq_iff)
  have "app (power_io_shield_interrupt_work_handler emul_ops fire w) =
      fire (interrupt_callbacks (sdata w)) (power_io_shield_gpio_bits_to_zephyr_bits ?ints) (app w)"
    using assms(2) by (simp add: power_io_shield_interrupt_work_handler_def Let_def read same)
  then show ?thesis
    using pin_translations_agree_aux [of _ ?ints] bit_pending_ints [OF gpio_bit_less, of "sdata w"]
    by (intro exI [of _ "power_io_shield_gpio_bits_to_zephyr_bits ?ints"]) (simp add: Let_def)
qed

text \<open>The first fault pin is bit 14 of the expander, the second one bit 0, here with a level interrupt that is flagged.\<close>

definition flagged_shield :: "(unit, u8 list, u32 list) shield_world" where
  "flagged_shield = \<lparr>sdata = (sdata booted_shield)\<lparr>cache_gpinten := 1, cache_intcon := 1\<rparr>, i2c = power_io_shield_emul_init[14 := 1], app = []\<rparr>"

theorem interrupt_fires_configured_pins_witness:
  "\<exists>pins. app (power_io_shield_interrupt_work_handler emul_ops (\<lambda>cbs pins app. pins # app) flagged_shield) = [pins] \<and>
     bit pins 17 \<and> \<not> bit pins 16"
proof -
  have "emul.reg16 (i2c flagged_shield) REG_INTFA = 1"
    by (simp add: flagged_shield_def emul.reg16_def emul_reg_def power_io_shield_emul_init_def u16_of_bytes_def)
  moreover have "length (i2c flagged_shield) = NUM_REGS" by (simp add: flagged_shield_def power_io_shield_emul_init_def)
  moreover have "bit_interrupt (sdata flagged_shield) 0 = On_level True"
    by (simp add: bit_interrupt_def flagged_shield_def booted_shield_def)
  moreover have "power_io_shield_zephyr_pin_to_gpio_bit 17 = 0" "power_io_shield_zephyr_pin_to_gpio_bit 16 = 14"
    by (simp_all add: power_io_shield_zephyr_pin_to_gpio_bit_def pin_base_def pin_index_def)
  moreover have "app flagged_shield = []" by (simp add: flagged_shield_def)
  ultimately show ?thesis
    using interrupt_fires_configured_pins [of flagged_shield "\<lambda>cbs pins app. pins # app"]
    by (auto simp: Let_def bit_port_mask bit_1_iff dest: spec [where x = 16] spec [where x = 17])
qed

end
