(* ===== verification/Hv_Shield.thy ===== *)
theory Hv_Shield
  imports Gpio
begin

text \<open>
  The drivers of the high voltage shield: the shift registers behind an SPI bus
  (\<^verbatim>\<open>drivers/hv_shield/hv_shield/hv_shield.c\<close>) and, on top of them, a GPIO port (\<^verbatim>\<open>gpio/hv_shield_gpio.c\<close>) and a DAC
  (\<^verbatim>\<open>dac/hv_shield_dac.c\<close>). The SPI bus, the low voltage pins and the DACs of the board are arguments; \<open>'c\<close> is their state.
\<close>

section \<open>The shift registers\<close>

record hv_shield_registers_t =
  gpio_output :: u32
  dac0 :: "4 word"
  dac1 :: "4 word"

record 'c hv_ops =
  spi_write_dt :: "u8 list \<Rightarrow> 'c \<Rightarrow> c_int \<times> 'c"
  oe_configure :: "'c \<Rightarrow> c_int \<times> 'c"
  oe_set :: "'c \<Rightarrow> c_int \<times> 'c"

text \<open>The registers as the bytes of the packed structure, on a little endian machine.\<close>

definition raw_buffer :: "hv_shield_registers_t \<Rightarrow> u8 list" where
  "raw_buffer r =
     [ucast (gpio_output r), ucast (drop_bit 8 (gpio_output r)), ucast (drop_bit 16 (gpio_output r)), ucast (drop_bit 24 (gpio_output r)),
      ucast (dac0 r) OR push_bit 4 (ucast (dac1 r))]"

definition rotated_buffer :: "hv_shield_registers_t \<Rightarrow> u8 list" where
  "rotated_buffer r = map (\<lambda>i. raw_buffer r ! (5 - i - 1)) [0..<5]"

definition hv_shield_update :: "'c hv_ops \<Rightarrow> hv_shield_registers_t \<Rightarrow> 'c \<Rightarrow> c_int \<times> 'c" where
  "hv_shield_update ops r c =
     (case spi_write_dt ops (rotated_buffer r) c of (err, c) \<Rightarrow> if err \<noteq> rc0 then (err, c) else (rc0, c))"

definition hv_shield_init :: "'c hv_ops \<Rightarrow> hv_shield_registers_t \<Rightarrow> 'c \<Rightarrow> c_int \<times> hv_shield_registers_t \<times> 'c" where
  "hv_shield_init ops r c =
     (case oe_configure ops c of (err, c) \<Rightarrow>
      if err \<noteq> rc0 then (err, r, c)
      else
        let r = \<lparr>gpio_output = 0, dac0 = 0, dac1 = 0\<rparr> in
        case hv_shield_update ops r c of (err, c) \<Rightarrow>
        if err \<noteq> rc0 then (err, r, c)
        else (case oe_set ops c of (err, c) \<Rightarrow> (err, r, c)))"

datatype hv_shield_dac_gains_t =
    HV_SHIELD_DAC_GAIN_1 | HV_SHIELD_DAC_GAIN_2 | HV_SHIELD_DAC_GAIN_4 | HV_SHIELD_DAC_GAIN_8 | HV_SHIELD_DAC_GAIN_16

fun gain_val :: "hv_shield_dac_gains_t \<Rightarrow> 4 word" where
  "gain_val HV_SHIELD_DAC_GAIN_1 = 0"
| "gain_val HV_SHIELD_DAC_GAIN_2 = 1"
| "gain_val HV_SHIELD_DAC_GAIN_4 = 3"
| "gain_val HV_SHIELD_DAC_GAIN_8 = 7"
| "gain_val HV_SHIELD_DAC_GAIN_16 = 15"

definition hvs_set_dac_gain ::
  "'c hv_ops \<Rightarrow> u8 \<Rightarrow> hv_shield_dac_gains_t \<Rightarrow> hv_shield_registers_t \<Rightarrow> 'c \<Rightarrow> c_int \<times> hv_shield_registers_t \<times> 'c" where
  "hvs_set_dac_gain ops dac gain r c =
     (if dac > 1 then (Inl EINVAL, r, c)
      else
        let r = (if dac = 0 then r\<lparr>dac0 := gain_val gain\<rparr> else r\<lparr>dac1 := gain_val gain\<rparr>) in
        case hv_shield_update ops r c of (err, c) \<Rightarrow> (err, r, c))"

text \<open>The four low and the four high bits of a byte are swapped.\<close>

definition remap_index :: "u8 \<Rightarrow> u8" where
  "remap_index index = (if index mod 8 < 4 then index + 4 else index - 4)"

definition hvs_set_gpio_output_enable ::
  "'c hv_ops \<Rightarrow> u8 \<Rightarrow> bool \<Rightarrow> hv_shield_registers_t \<Rightarrow> 'c \<Rightarrow> c_int \<times> hv_shield_registers_t \<times> 'c" where
  "hvs_set_gpio_output_enable ops index enable r c =
     (if index > 31 then (Inl EINVAL, r, c)
      else
        let r = r\<lparr>gpio_output := assign_bit (gpio_output r) (unat (remap_index index)) enable\<rparr> in
        case hv_shield_update ops r c of (err, c) \<Rightarrow> (err, r, c))"

section \<open>The GPIO port\<close>

text \<open>
  The low voltage pins, by their index in the device tree: \<open>ll_raw\<close> is one of the functions of the port of a pin
  that sets, clears or toggles bits; a port may lack one, which the driver logs before it calls the null pointer.
\<close>

datatype raw_op = Set_bits | Clear_bits | Toggle_bits

record 'c lv_ops =
  ll_configure :: "nat \<Rightarrow> gpio_flags \<Rightarrow> 'c \<Rightarrow> c_int \<times> 'c"
  ll_get :: "nat \<Rightarrow> 'c \<Rightarrow> c_int \<times> 'c"
  ll_set :: "nat \<Rightarrow> bool \<Rightarrow> 'c \<Rightarrow> c_int \<times> 'c"
  ll_raw :: "raw_op \<Rightarrow> nat \<Rightarrow> ('c \<Rightarrow> c_int \<times> 'c) option"
  ll_interrupt :: "nat \<Rightarrow> gpio_int_mode \<Rightarrow> gpio_int_trig \<Rightarrow> 'c \<Rightarrow> c_int \<times> 'c"
  ll_config :: "nat \<Rightarrow> 'c \<Rightarrow> c_int \<times> gpio_flags \<times> 'c"
  ll_pending :: "nat \<Rightarrow> ('c \<Rightarrow> (errno + u32) \<times> 'c) option"

record 'c hv_gpio =
  regs :: hv_shield_registers_t
  input_map :: u32
  output_map :: u32
  low :: 'c

definition hvs_gpio_pin_configure ::
  "'c hv_ops \<Rightarrow> 'c lv_ops \<Rightarrow> nat \<Rightarrow> u8 \<Rightarrow> gpio_flags \<Rightarrow> 'c hv_gpio \<Rightarrow> c_int \<times> 'c hv_gpio" where
  "hvs_gpio_pin_configure ops lv n pin flags g =
     (if unat pin \<ge> n then (Inl EINVAL, g)
      else (case ll_configure lv (unat pin) flags (low g) of (err, c) \<Rightarrow>
      let g = g\<lparr>low := c\<rparr> in
      if err \<noteq> rc0 then (err, g)
      else (case hvs_set_gpio_output_enable ops pin (GPIO_OUTPUT flags) (regs g) (low g) of (err, r, c) \<Rightarrow>
      let g = g\<lparr>regs := r, low := c\<rparr> in
      if err \<noteq> rc0 then (err, g)
      else (rc0, g\<lparr>input_map := assign_bit (input_map g) (unat pin) (GPIO_INPUT flags),
             output_map := assign_bit (output_map g) (unat pin) (GPIO_OUTPUT flags)\<rparr>))))"

definition hvs_gpio_init :: "'c hv_gpio \<Rightarrow> c_int \<times> 'c hv_gpio" where
  "hvs_gpio_init g = (rc0, g\<lparr>input_map := 0\<rparr>)"

definition hvs_pin_interrupt_configure ::
  "'c lv_ops \<Rightarrow> nat \<Rightarrow> u8 \<Rightarrow> gpio_int_mode \<Rightarrow> gpio_int_trig \<Rightarrow> 'c hv_gpio \<Rightarrow> c_int \<times> 'c hv_gpio" where
  "hvs_pin_interrupt_configure lv n pin mode trig g =
     (if unat pin \<ge> n then (Inl EINVAL, g)
      else (case ll_interrupt lv (unat pin) mode trig (low g) of (rc, c) \<Rightarrow> (rc, g\<lparr>low := c\<rparr>)))"

definition hvs_gpio_pin_get_config :: "'c lv_ops \<Rightarrow> nat \<Rightarrow> u8 \<Rightarrow> 'c hv_gpio \<Rightarrow> c_int \<times> gpio_flags option \<times> 'c hv_gpio" where
  "hvs_gpio_pin_get_config lv n pin g =
     (if unat pin \<ge> n then (Inl EINVAL, None, g)
      else (case ll_config lv (unat pin) (low g) of (rc, flags, c) \<Rightarrow> (rc, Some flags, g\<lparr>low := c\<rparr>)))"

text \<open>The loop over the pins from \<open>i\<close> on.\<close>

function get_pins :: "'c lv_ops \<Rightarrow> nat \<Rightarrow> u32 \<Rightarrow> nat \<Rightarrow> u32 \<Rightarrow> 'c \<Rightarrow> c_int \<times> u32 \<times> 'c" where
  "get_pins lv n inputs i v c =
     (if i < n then
        if inputs AND BIT32 i = 0 then get_pins lv n inputs (Suc i) v c
        else (case ll_get lv i c of
                (Inl e, c) \<Rightarrow> (Inl e, v, c)
              | (Inr r, c) \<Rightarrow> get_pins lv n inputs (Suc i) (if r = 1 then v OR BIT32 i else v) c)
      else (rc0, v, c))"
  by pat_completeness auto
termination by (relation "measure (\<lambda>(lv, n, inputs, i, v, c). n - i)") auto

declare get_pins.simps [simp del]

definition hvs_gpio_port_get_raw :: "'c lv_ops \<Rightarrow> nat \<Rightarrow> bool \<Rightarrow> 'c hv_gpio \<Rightarrow> c_int \<times> u32 option \<times> 'c hv_gpio" where
  "hvs_gpio_port_get_raw lv n null g =
     (if null then (Inl EINVAL, None, g)
      else (case get_pins lv n (input_map g) 0 0 (low g) of (rc, v, c) \<Rightarrow> (rc, Some v, g\<lparr>low := c\<rparr>)))"

function set_pins :: "'c lv_ops \<Rightarrow> nat \<Rightarrow> u32 \<Rightarrow> u32 \<Rightarrow> nat \<Rightarrow> 'c \<Rightarrow> c_int \<times> 'c" where
  "set_pins lv n msk v i c =
     (if i < n then
        if msk AND BIT32 i = 0 then set_pins lv n msk v (Suc i) c
        else (case ll_set lv i (v AND BIT32 i \<noteq> 0) c of
                (Inl e, c) \<Rightarrow> (Inl e, c)
              | (Inr r, c) \<Rightarrow> set_pins lv n msk v (Suc i) c)
      else (rc0, c))"
  by pat_completeness auto
termination by (relation "measure (\<lambda>(lv, n, msk, v, i, c). n - i)") auto

declare set_pins.simps [simp del]

definition hvs_set_masked_raw :: "'c lv_ops \<Rightarrow> nat \<Rightarrow> u32 \<Rightarrow> u32 \<Rightarrow> 'c hv_gpio \<Rightarrow> c_int \<times> 'c hv_gpio" where
  "hvs_set_masked_raw lv n msk v g = (case set_pins lv n msk v 0 (low g) of (rc, c) \<Rightarrow> (rc, g\<lparr>low := c\<rparr>))"

function run_ll_api_foreach_mask :: "'c lv_ops \<Rightarrow> raw_op \<Rightarrow> nat \<Rightarrow> u32 \<Rightarrow> nat \<Rightarrow> 'c \<Rightarrow> (c_int, 'c) outcome" where
  "run_ll_api_foreach_mask lv api n pins i c =
     (if i < n then
        if pins AND BIT32 i = 0 then run_ll_api_foreach_mask lv api n pins (Suc i) c
        else (case ll_raw lv api i of
                None \<Rightarrow> Undefined
              | Some f \<Rightarrow>
                  (case f c of
                     (Inl e, c) \<Rightarrow> Returns (Inl e) c
                   | (Inr r, c) \<Rightarrow> run_ll_api_foreach_mask lv api n pins (Suc i) c))
      else Returns rc0 c)"
  by pat_completeness auto
termination by (relation "measure (\<lambda>(lv, api, n, pins, i, c). n - i)") auto

declare run_ll_api_foreach_mask.simps [simp del]

definition hvs_gpio_clear_pins :: "'c lv_ops \<Rightarrow> nat \<Rightarrow> u32 \<Rightarrow> 'c hv_gpio \<Rightarrow> (c_int, 'c hv_gpio) outcome" where
  "hvs_gpio_clear_pins lv n pins g = olift low (\<lambda>c g. g\<lparr>low := c\<rparr>) (run_ll_api_foreach_mask lv Clear_bits n pins 0) g"

definition hvs_gpio_set_pins :: "'c lv_ops \<Rightarrow> nat \<Rightarrow> u32 \<Rightarrow> 'c hv_gpio \<Rightarrow> (c_int, 'c hv_gpio) outcome" where
  "hvs_gpio_set_pins lv n pins g = olift low (\<lambda>c g. g\<lparr>low := c\<rparr>) (run_ll_api_foreach_mask lv Set_bits n pins 0) g"

definition hvs_gpio_toggle_pins :: "'c lv_ops \<Rightarrow> nat \<Rightarrow> u32 \<Rightarrow> 'c hv_gpio \<Rightarrow> (c_int, 'c hv_gpio) outcome" where
  "hvs_gpio_toggle_pins lv n pins g = olift low (\<lambda>c g. g\<lparr>low := c\<rparr>) (run_ll_api_foreach_mask lv Toggle_bits n pins 0) g"

definition hvs_gpio_manage_callback :: "'c hv_gpio \<Rightarrow> c_int \<times> 'c hv_gpio" where
  "hvs_gpio_manage_callback g = (Inl ENOSYS, g)"

function pending_from :: "'c lv_ops \<Rightarrow> nat \<Rightarrow> nat \<Rightarrow> 'c \<Rightarrow> (errno + u32) \<times> 'c" where
  "pending_from lv n i c =
     (if i < n then
        (case ll_pending lv i of
           None \<Rightarrow> (Inl ENOSYS, c)
         | Some f \<Rightarrow>
             (case f c of
                (Inl e, c) \<Rightarrow> (Inl e, c)
              | (Inr r, c) \<Rightarrow> if r > 0 then (Inr r, c) else pending_from lv n (Suc i) c))
      else (Inr 0, c))"
  by pat_completeness auto
termination by (relation "measure (\<lambda>(lv, n, i, c). n - i)") auto

declare pending_from.simps [simp del]

definition hvs_gpio_get_pending_int :: "'c lv_ops \<Rightarrow> nat \<Rightarrow> 'c hv_gpio \<Rightarrow> (errno + u32) \<times> 'c hv_gpio" where
  "hvs_gpio_get_pending_int lv n g = (case pending_from lv n 0 (low g) of (rc, c) \<Rightarrow> (rc, g\<lparr>low := c\<rparr>))"

definition hvs_gpio_get_direction :: "u32 \<Rightarrow> 'c hv_gpio \<Rightarrow> c_int \<times> u32 \<times> u32" where
  "hvs_gpio_get_direction mp g = (rc0, input_map g AND mp, output_map g AND mp)"

section \<open>The DAC\<close>

record dac_channel_cfg =
  channel_id :: u8
  resolution :: u8
  buffered :: bool

record 'd hv_dac_config =
  channel_count :: u8
  dac_devs :: "'d list"
  dac_channels :: "int list"
  gains :: "u8 list"

definition hvs_dac_channel_setup ::
  "('d \<Rightarrow> dac_channel_cfg \<Rightarrow> 'c \<Rightarrow> c_int \<times> 'c) \<Rightarrow> 'd hv_dac_config \<Rightarrow> dac_channel_cfg \<Rightarrow> 'c \<Rightarrow> c_int \<times> 'c" where
  "hvs_dac_channel_setup dac_channel_setup config cfg c =
     (if channel_id cfg \<ge> channel_count config then (Inl EINVAL, c)
      else
        let i = unat (channel_id cfg) in
        dac_channel_setup (dac_devs config ! i)
          \<lparr>channel_id = of_int (dac_channels config ! i), resolution = resolution cfg, buffered = buffered cfg\<rparr> c)"

definition hvs_dac_write_value ::
  "('d \<Rightarrow> u8 \<Rightarrow> u32 \<Rightarrow> 'c \<Rightarrow> c_int \<times> 'c) \<Rightarrow> 'd hv_dac_config \<Rightarrow> u8 \<Rightarrow> u32 \<Rightarrow> 'c \<Rightarrow> c_int \<times> 'c" where
  "hvs_dac_write_value dac_write_value config channel v c =
     (if channel \<ge> channel_count config then (Inl EINVAL, c)
      else dac_write_value (dac_devs config ! unat channel) (of_int (dac_channels config ! unat channel)) v c)"

definition hvs_dac_convert_gain :: "u8 \<Rightarrow> errno + hv_shield_dac_gains_t" where
  "hvs_dac_convert_gain raw_gain =
     (if raw_gain = 1 then Inr HV_SHIELD_DAC_GAIN_1
      else if raw_gain = 2 then Inr HV_SHIELD_DAC_GAIN_2
      else if raw_gain = 4 then Inr HV_SHIELD_DAC_GAIN_4
      else if raw_gain = 8 then Inr HV_SHIELD_DAC_GAIN_8
      else if raw_gain = 16 then Inr HV_SHIELD_DAC_GAIN_16
      else Inl ENOTSUP)"

function init_gains ::
  "'c hv_ops \<Rightarrow> 'd hv_dac_config \<Rightarrow> nat \<Rightarrow> hv_shield_registers_t \<Rightarrow> 'c \<Rightarrow> c_int \<times> hv_shield_registers_t \<times> 'c" where
  "init_gains ops config i r c =
     (if i < unat (channel_count config) then
        (case hvs_dac_convert_gain (gains config ! i) of
           Inl e \<Rightarrow> (Inl e, r, c)
         | Inr gain \<Rightarrow>
             (case hvs_set_dac_gain ops (of_nat i) gain r c of (rc, r, c) \<Rightarrow>
              if rc \<noteq> rc0 then (rc, r, c) else init_gains ops config (Suc i) r c))
      else (rc0, r, c))"
  by pat_completeness auto
termination by (relation "measure (\<lambda>(ops, config, i, r, c). unat (channel_count config) - i)") auto

declare init_gains.simps [simp del]

definition hv_shield_dac_init ::
  "'c hv_ops \<Rightarrow> 'd hv_dac_config \<Rightarrow> hv_shield_registers_t \<Rightarrow> 'c \<Rightarrow> c_int \<times> hv_shield_registers_t \<times> 'c" where
  "hv_shield_dac_init ops config r c = init_gains ops config 0 r c"

section \<open>What is sent to the shift registers\<close>

lemma rotated_buffer_eq: "rotated_buffer r = rev (raw_buffer r)"
  by (simp add: rotated_buffer_def raw_buffer_def upt_conv_Cons)

text \<open>Bit \<open>q\<close> of the output register is in byte \<open>4 - q div 8\<close> of what is sent.\<close>

lemma bit_rotated_buffer:
  assumes "k < 4" and "b < 8"
  shows "bit (rotated_buffer r ! (4 - k)) b \<longleftrightarrow> bit (gpio_output r) (8 * k + b)"
proof -
  from assms(1) consider "k = 0" | "k = 1" | "k = 2" | "k = 3" by linarith
  then show ?thesis
    using assms(2) by cases (simp_all add: rotated_buffer_eq raw_buffer_def bit_unsigned_iff bit_drop_bit_eq numeral_2_eq_2 [symmetric])
qed

lemma unat_remap_index:
  assumes "i \<le> 31"
  shows "unat (remap_index i) = 8 * (unat i div 8) + (unat i mod 8 + 4) mod 8"
proof -
  have i: "unat i \<le> 31" using assms by (simp add: word_le_nat_alt)
  have m: "unat (i mod 8) = unat i mod 8" by (simp add: unat_mod)
  show ?thesis
  proof (cases "unat i mod 8 < 4")
    case True
    then have "i mod 8 < 4" using m by (simp add: word_less_nat_alt)
    moreover have "unat (i + 4) = unat i + 4" using i by (simp add: unat_word_ariths)
    ultimately show ?thesis using True by (simp add: remap_index_def)
  next
    case False
    then have "\<not> i mod 8 < 4" using m by (simp add: word_less_nat_alt)
    moreover have "4 \<le> unat i" using False by presburger
    then have "unat (i - 4) = unat i - 4" by (simp add: unat_sub_if')
    moreover have "(unat i mod 8 + 4) mod 8 = unat i mod 8 - 4"
      using False mod_less_divisor [of 8 "unat i"] by (simp add: le_mod_geq)
    moreover have "8 * (unat i div 8) + (unat i mod 8 - 4) = unat i - 4"
      using False mult_div_mod_eq [of 8 "unat i"] by linarith
    ultimately show ?thesis by (simp add: remap_index_def)
  qed
qed

lemma hv_shield_update_ok: "hv_shield_update ops r c = (rc0, c') \<longleftrightarrow> spi_write_dt ops (rotated_buffer r) c = (rc0, c')"
  by (auto simp: hv_shield_update_def split: prod.splits if_splits)

lemma set_output_enable_ok:
  assumes "hvs_set_gpio_output_enable ops index enable r c = (rc0, r', c')"
  shows "index \<le> 31" and "r' = r\<lparr>gpio_output := assign_bit (gpio_output r) (unat (remap_index index)) enable\<rparr>"
    and "spi_write_dt ops (rotated_buffer r') c = (rc0, c')"
  using assms
  by (auto simp: hvs_set_gpio_output_enable_def Let_def hv_shield_update_ok not_less split: if_splits prod.splits)

text \<open>The two halves of the bytes are swapped, so a pin has the bit \<open>pin_bit j\<close>, and no two pins share one.\<close>

definition pin_bit :: "nat \<Rightarrow> nat" where
  "pin_bit j = 8 * (j div 8) + (j mod 8 + 4) mod 8"

lemma pin_bit_less: "j < 32 \<Longrightarrow> pin_bit j < 32"
  unfolding pin_bit_def by presburger

lemma pin_bit_involution: "pin_bit (pin_bit j) = j"
proof -
  have "pin_bit j div 8 = j div 8" and "pin_bit j mod 8 = (j mod 8 + 4) mod 8" by (simp_all add: pin_bit_def)
  moreover have "((j mod 8 + 4) mod 8 + 4) mod 8 = j mod 8" by (simp add: mod_add_left_eq)
  ultimately show ?thesis unfolding pin_bit_def [of "pin_bit j"] by simp
qed

lemma pin_bit_inj: "pin_bit i = pin_bit j \<longleftrightarrow> i = j"
  by (metis pin_bit_involution)

lemma bit_output_pin:
  assumes "j < 32"
  shows "bit (rotated_buffer r ! (4 - j div 8)) ((j mod 8 + 4) mod 8) \<longleftrightarrow> bit (gpio_output r) (pin_bit j)"
  using bit_rotated_buffer [of "j div 8" "(j mod 8 + 4) mod 8" r] assms by (simp add: pin_bit_def)

section \<open>Properties\<close>

text \<open>
  (C29) Switching a pin of the high voltage shield changes the direction of this pin alone: in the bytes that are sent over
  SPI, the bit of the pin has the new direction, the bits of all other pins are as before, and so are the gains of the
  DAC.
\<close>

theorem output_enable_sent:
  assumes "hvs_set_gpio_output_enable ops index enable r c = (rc0, r', c')"
  shows "spi_write_dt ops (rotated_buffer r') c = (rc0, c') \<and>
    (\<forall>j < 32. bit (rotated_buffer r' ! (4 - j div 8)) ((j mod 8 + 4) mod 8) =
       (if j = unat index then enable else bit (rotated_buffer r ! (4 - j div 8)) ((j mod 8 + 4) mod 8))) \<and>
    rotated_buffer r' ! 0 = rotated_buffer r ! 0"
proof -
  note ok = set_output_enable_ok [OF assms]
  have "unat (remap_index index) = pin_bit (unat index)" using unat_remap_index [OF ok(1)] by (simp add: pin_bit_def)
  moreover have "unat index < 32" using ok(1) by (simp add: word_le_nat_alt)
  ultimately have "bit (gpio_output r') (pin_bit j) = (if j = unat index then enable else bit (gpio_output r) (pin_bit j))" for j
    using pin_bit_less [of "unat index"] by (simp add: ok(2) bit_assign_bit pin_bit_inj)
  moreover have "rotated_buffer r' ! 0 = rotated_buffer r ! 0" by (simp add: ok(2) rotated_buffer_eq raw_buffer_def)
  ultimately show ?thesis using ok(3) by (simp add: bit_output_pin)
qed

definition recording_spi :: "u8 list list hv_ops" where
  "recording_spi = \<lparr>spi_write_dt = \<lambda>b c. (rc0, b # c), oe_configure = \<lambda>c. (rc0, c), oe_set = \<lambda>c. (rc0, c)\<rparr>"

theorem output_enable_sent_witness:
  "bit (rotated_buffer (fst (snd (hvs_set_gpio_output_enable recording_spi 9 True \<lparr>gpio_output = 0, dac0 = 0, dac1 = 0\<rparr> []))) ! 3) 5"
proof -
  obtain r' c' where r': "hvs_set_gpio_output_enable recording_spi 9 True \<lparr>gpio_output = 0, dac0 = 0, dac1 = 0\<rparr> [] = (rc0, r', c')"
    by (simp add: hvs_set_gpio_output_enable_def hv_shield_update_def recording_spi_def Let_def)
  then show ?thesis using output_enable_sent [OF r'] by (auto dest: spec [where x = 9])
qed

text \<open>The gain a register holds is one less than the factor.\<close>

lemma convert_gain_val: "hvs_dac_convert_gain g = Inr x \<Longrightarrow> Suc (unat (gain_val x)) = unat g"
  by (auto simp: hvs_dac_convert_gain_def split: if_splits)

lemma set_dac_gain_ok:
  assumes "hvs_set_dac_gain ops dac gain r c = (rc0, r', c')"
  shows "unat dac \<le> 1" and "r' = (if unat dac = 0 then r\<lparr>dac0 := gain_val gain\<rparr> else r\<lparr>dac1 := gain_val gain\<rparr>)"
  using assms
  by (auto simp: hvs_set_dac_gain_def Let_def hv_shield_update_ok not_less word_le_nat_alt unat_eq_0 split: if_splits prod.splits)

definition gain_set :: "'d hv_dac_config \<Rightarrow> hv_shield_registers_t \<Rightarrow> nat \<Rightarrow> bool" where
  "gain_set config r i \<longleftrightarrow> Suc (unat (if i = 0 then dac0 r else dac1 r)) = unat (gains config ! i)"

lemma init_gains_ok:
  "init_gains ops config i r c = (rc0, r', c') \<Longrightarrow> i \<le> unat (channel_count config) \<Longrightarrow> i \<le> 2 \<Longrightarrow> (\<forall>j < i. gain_set config r j) \<Longrightarrow>
   unat (channel_count config) \<le> 2 \<and> (\<forall>j < unat (channel_count config). gain_set config r' j) \<and> gpio_output r' = gpio_output r"
proof (induction ops config i r c rule: init_gains.induct)
  case (1 ops config i r c)
  show ?case
  proof (cases "i < unat (channel_count config)")
    case True
    then obtain gain r1 c1 where gain: "hvs_dac_convert_gain (gains config ! i) = Inr gain"
      and set1: "hvs_set_dac_gain ops (of_nat i) gain r c = (rc0, r1, c1)"
      and rest: "init_gains ops config (Suc i) r1 c1 = (rc0, r', c')"
      using 1(2) by (subst (asm) init_gains.simps) (auto split: sum.splits prod.splits if_splits)
    have i: "unat (of_nat i :: u8) = i" using 1(4) by (simp add: unat_of_nat)
    note ok = set_dac_gain_ok [OF set1, unfolded i]
    have "gain_set config r1 j" if "j < Suc i" for j
      using that 1(5) convert_gain_val [OF gain] ok by (cases "j = i") (auto simp: gain_set_def split: if_splits)
    moreover have "gpio_output r1 = gpio_output r" by (simp add: ok(2))
    ultimately show ?thesis
      using 1(1) [OF True gain set1 [symmetric] refl _ rest] True ok(1) by simp
  next
    case False
    then show ?thesis using 1(2-5) by (subst (asm) init_gains.simps) auto
  qed
qed

text \<open>
  If the DAC initialises, it has at most two channels, the gain register of each channel holds the factor of the device
  tree less one, and the directions of the pins are as before.
\<close>

theorem dac_init_sets_gains:
  assumes "hv_shield_dac_init ops config r c = (rc0, r', c')"
  shows "unat (channel_count config) \<le> 2 \<and>
    (\<forall>i < unat (channel_count config). Suc (unat (if i = 0 then dac0 r' else dac1 r')) = unat (gains config ! i)) \<and>
    gpio_output r' = gpio_output r"
  using init_gains_ok [of ops config 0 r c r' c'] assms by (simp add: hv_shield_dac_init_def gain_set_def)

theorem dac_init_sets_gains_witness:
  "Suc (unat (dac1 (fst (snd (hv_shield_dac_init recording_spi
      \<lparr>channel_count = 2, dac_devs = [(), ()], dac_channels = [1, 2], gains = [1, 8]\<rparr> \<lparr>gpio_output = 0, dac0 = 0, dac1 = 0\<rparr> []))))) = 8"
proof -
  let ?config = "\<lparr>channel_count = 2, dac_devs = [(), ()], dac_channels = [1, 2], gains = [1, 8]\<rparr>"
  obtain r' c' where r': "hv_shield_dac_init recording_spi ?config \<lparr>gpio_output = 0, dac0 = 0, dac1 = 0\<rparr> [] = (rc0, r', c')"
    by (simp add: hv_shield_dac_init_def init_gains.simps hvs_dac_convert_gain_def hvs_set_dac_gain_def hv_shield_update_def recording_spi_def
        Let_def)
  then show ?thesis using dac_init_sets_gains [OF r'] by (auto dest: spec [where x = 1])
qed

text \<open>
  The direction that the port reports is the one the shield was given: while the calls succeed, a pin counts as an
  output exactly when its bit in the output register is set.
\<close>

definition directions_agree :: "nat \<Rightarrow> 'c hv_gpio \<Rightarrow> bool" where
  "directions_agree n g \<longleftrightarrow> (\<forall>p < n. bit (output_map g) p = bit (gpio_output (regs g)) (pin_bit p))"

theorem pin_configure_directions:
  assumes "directions_agree n g" and "n \<le> 32" and "hvs_gpio_pin_configure ops lv n pin flags g = (rc0, g')"
  shows "directions_agree n g' \<and> bit (output_map g') (unat pin) = GPIO_OUTPUT flags \<and> bit (input_map g') (unat pin) = GPIO_INPUT flags"
proof -
  obtain c r c' where p: "unat pin < n" and set1: "hvs_set_gpio_output_enable ops pin (GPIO_OUTPUT flags) (regs g) c = (rc0, r, c')"
    and g': "g' = g\<lparr>regs := r, low := c', input_map := assign_bit (input_map g) (unat pin) (GPIO_INPUT flags),
             output_map := assign_bit (output_map g) (unat pin) (GPIO_OUTPUT flags)\<rparr>"
    using assms(3) by (auto simp: hvs_gpio_pin_configure_def Let_def not_le split: if_splits prod.splits)
  note ok = set_output_enable_ok [OF set1]
  have "unat (remap_index pin) = pin_bit (unat pin)" using unat_remap_index [OF ok(1)] by (simp add: pin_bit_def)
  then show ?thesis
    using assms(1,2) p pin_bit_less [of "unat pin"] by (auto simp: directions_agree_def g' ok(2) bit_assign_bit pin_bit_inj)
qed

end
