(* ===== verification/Uds_Legacy.thy ===== *)
theory Uds_Legacy
  imports Prelude
begin

text \<open>
  The first UDS server of the board (\<^verbatim>\<open>lib/uds_legacy/uds.c\<close>, \<^verbatim>\<open>uds_session.c\<close>): a thread that receives a request over
  ISO-TP into a static buffer, handles it and sends the responses, among them a firmware download. A response is the list
  of its bytes; that it cannot be sent is only logged. The CAN controller, the flash image writer and the boot loader of
  Zephyr are arguments.
\<close>

section \<open>Data\<close>

abbreviation UDS_SID_DIAGNOSTIC_SESSION_CONTROL :: u8 where "UDS_SID_DIAGNOSTIC_SESSION_CONTROL \<equiv> 0x10"
abbreviation UDS_SID_ECU_RESET :: u8 where "UDS_SID_ECU_RESET \<equiv> 0x11"
abbreviation UDS_SID_ROUTINE_CONTROL :: u8 where "UDS_SID_ROUTINE_CONTROL \<equiv> 0x31"
abbreviation UDS_SID_REQUEST_DOWNLOAD :: u8 where "UDS_SID_REQUEST_DOWNLOAD \<equiv> 0x34"
abbreviation UDS_SID_TRANSFER_DATA :: u8 where "UDS_SID_TRANSFER_DATA \<equiv> 0x36"
abbreviation UDS_SID_REQUEST_TRANSFER_EXIT :: u8 where "UDS_SID_REQUEST_TRANSFER_EXIT \<equiv> 0x37"
abbreviation UDS_SID_NEGATIVE_RESPONSE :: u8 where "UDS_SID_NEGATIVE_RESPONSE \<equiv> 0x7F"

abbreviation NRC_SERVICE_NOT_SUPPORTED :: u8 where "NRC_SERVICE_NOT_SUPPORTED \<equiv> 0x11"
abbreviation NRC_SUBFUNCTION_NOT_SUPPORTED :: u8 where "NRC_SUBFUNCTION_NOT_SUPPORTED \<equiv> 0x12"
abbreviation NRC_INCORRECT_MESSAGE_LENGTH :: u8 where "NRC_INCORRECT_MESSAGE_LENGTH \<equiv> 0x13"
abbreviation NRC_FAILURE_PREVENTS_EXECUTION :: u8 where "NRC_FAILURE_PREVENTS_EXECUTION \<equiv> 0x26"
abbreviation NRC_RESPONSE_PENDING :: u8 where "NRC_RESPONSE_PENDING \<equiv> 0x78"

text \<open>\<open>errno_byte\<close> is a negative return code cut to one byte.\<close>

record 'f legacy_ops =
  flash_img_init :: "'f \<Rightarrow> c_int \<times> 'f"
  flash_img_buffered_write :: "u8 list \<Rightarrow> bool \<Rightarrow> 'f \<Rightarrow> c_int \<times> 'f"
  boot_request_upgrade :: "'f \<Rightarrow> c_int \<times> 'f"
  errno_byte :: "errno \<Rightarrow> u8"

record 'f legacy =
  uds_session_state :: u8
  session_timer :: bool
  flash_context_initialized :: bool
  block_id :: u8
  flash_context :: 'f
  rx_buffer :: "u8 list"
  sent :: "u8 list list"

text \<open>The state of the program before the thread starts.\<close>

definition legacy_boot :: "'f \<Rightarrow> 'f legacy" where
  "legacy_boot f = \<lparr>uds_session_state = 1, session_timer = False, flash_context_initialized = False, block_id = 0xF,
     flash_context = f, rx_buffer = replicate 512 0, sent = []\<rparr>"

section \<open>Sessions\<close>

definition uds_session_timeout :: "'f legacy \<Rightarrow> 'f legacy" where
  "uds_session_timeout s = s\<lparr>uds_session_state := 1, session_timer := False\<rparr>"

definition restart_uds_session_timer :: "'f legacy \<Rightarrow> 'f legacy" where
  "restart_uds_session_timer s = s\<lparr>session_timer := True\<rparr>"

definition change_session :: "u8 \<Rightarrow> 'f legacy \<Rightarrow> 'f legacy" where
  "change_session new_state s = restart_uds_session_timer (s\<lparr>uds_session_state := new_state\<rparr>)"

section \<open>Responses\<close>

definition isotp_send :: "u8 list \<Rightarrow> 'f legacy \<Rightarrow> 'f legacy" where
  "isotp_send tx_data s = s\<lparr>sent := sent s @ [tx_data]\<rparr>"

definition send_negative_response :: "u8 \<Rightarrow> u8 \<Rightarrow> 'f legacy \<Rightarrow> 'f legacy" where
  "send_negative_response request_sid response_code = isotp_send [UDS_SID_NEGATIVE_RESPONSE, request_sid, response_code]"

definition send_session_control_response :: "u8 \<Rightarrow> u16 \<Rightarrow> u16 \<Rightarrow> 'f legacy \<Rightarrow> 'f legacy" where
  "send_session_control_response session_type p2 p2_star =
     isotp_send [UDS_SID_DIAGNOSTIC_SESSION_CONTROL + 0x40, session_type, hi_byte p2, lo_byte p2, hi_byte (p2_star div 10), lo_byte (p2_star div 10)]"

definition send_positive_reset_response :: "u8 \<Rightarrow> 'f legacy \<Rightarrow> 'f legacy" where
  "send_positive_reset_response reset_type = isotp_send [UDS_SID_ECU_RESET + 0x40, reset_type]"

definition send_request_download_response :: "'f legacy \<Rightarrow> 'f legacy" where
  "send_request_download_response = isotp_send [UDS_SID_REQUEST_DOWNLOAD + 0x40, 0x20, 0x00, 0xD2]"

definition send_transfer_data_response :: "u8 \<Rightarrow> 'f legacy \<Rightarrow> 'f legacy" where
  "send_transfer_data_response block_sequence_counter = isotp_send [UDS_SID_TRANSFER_DATA + 0x40, block_sequence_counter]"

definition send_routine_control_result :: "u16 \<Rightarrow> u8 \<Rightarrow> 'f legacy \<Rightarrow> 'f legacy" where
  "send_routine_control_result routine_id result =
     isotp_send [UDS_SID_ROUTINE_CONTROL + 0x40, 0x1, hi_byte routine_id, lo_byte routine_id, result]"

definition send_transer_exit_positive_response :: "'f legacy \<Rightarrow> 'f legacy" where
  "send_transer_exit_positive_response = isotp_send [UDS_SID_REQUEST_TRANSFER_EXIT + 0x40]"

section \<open>Handlers\<close>

definition handle_ecu_reset :: "nat \<Rightarrow> 'f legacy \<Rightarrow> (unit, 'f legacy) outcome" where
  "handle_ecu_reset len s =
     (if len \<noteq> 2 then Returns () (send_negative_response UDS_SID_ECU_RESET NRC_INCORRECT_MESSAGE_LENGTH s)
      else if rx_buffer s ! 1 = 0x01 then Reboots SYS_REBOOT_COLD (send_positive_reset_response 0x01 s)
      else Returns () (send_negative_response UDS_SID_ECU_RESET NRC_SUBFUNCTION_NOT_SUPPORTED s))"

fun rc_byte :: "'f legacy_ops \<Rightarrow> c_int \<Rightarrow> u8" where
  "rc_byte ops (Inl e) = errno_byte ops e"
| "rc_byte ops (Inr n) = of_nat n"

definition handle_erase_routine :: "'f legacy_ops \<Rightarrow> 'f legacy \<Rightarrow> 'f legacy" where
  "handle_erase_routine ops s =
     (let s = send_negative_response UDS_SID_ROUTINE_CONTROL NRC_RESPONSE_PENDING s in
      case flash_img_init ops (flash_context s) of (ret, f) \<Rightarrow>
      let s = s\<lparr>flash_context := f\<rparr> in
      if ret \<noteq> rc0 then send_routine_control_result 1337 (rc_byte ops ret) s
      else send_routine_control_result 1337 0 (s\<lparr>flash_context_initialized := True, block_id := 0xFF\<rparr>))"

definition handle_confirm_routine :: "'f legacy_ops \<Rightarrow> 'f legacy \<Rightarrow> 'f legacy" where
  "handle_confirm_routine ops s =
     send_routine_control_result 1338 0 (s\<lparr>flash_context := snd (boot_request_upgrade ops (flash_context s))\<rparr>)"

definition handle_transfer_data :: "'f legacy_ops \<Rightarrow> nat \<Rightarrow> 'f legacy \<Rightarrow> 'f legacy" where
  "handle_transfer_data ops len s =
     (if len < 2 then send_negative_response UDS_SID_TRANSFER_DATA NRC_INCORRECT_MESSAGE_LENGTH s
      else
        let block_sequence_counter = rx_buffer s ! 1 in
        if block_sequence_counter = block_id s then send_transfer_data_response (block_id s) s
        else
          let s = s\<lparr>block_id := block_id s + 1\<rparr> in
          if block_sequence_counter \<noteq> block_id s then send_negative_response UDS_SID_TRANSFER_DATA NRC_INCORRECT_MESSAGE_LENGTH s
          else if \<not> flash_context_initialized s then send_negative_response UDS_SID_TRANSFER_DATA NRC_FAILURE_PREVENTS_EXECUTION s
          else
            case flash_img_buffered_write ops (take (len - 2) (drop 2 (rx_buffer s))) False (flash_context s) of (ret, f) \<Rightarrow>
            let s = s\<lparr>flash_context := f\<rparr>;
              s = (if ret \<noteq> rc0 then send_negative_response UDS_SID_TRANSFER_DATA NRC_FAILURE_PREVENTS_EXECUTION s else s)
            in send_transfer_data_response (block_id s) s)"

definition handle_transfer_exit :: "'f legacy_ops \<Rightarrow> 'f legacy \<Rightarrow> 'f legacy" where
  "handle_transfer_exit ops s =
     (if \<not> flash_context_initialized s then send_negative_response UDS_SID_REQUEST_TRANSFER_EXIT NRC_FAILURE_PREVENTS_EXECUTION s
      else
        case flash_img_buffered_write ops [] True (flash_context s) of (ret, f) \<Rightarrow>
        let s = s\<lparr>flash_context := f\<rparr>;
          s = (if ret \<noteq> rc0 then send_negative_response UDS_SID_REQUEST_TRANSFER_EXIT NRC_FAILURE_PREVENTS_EXECUTION s else s)
        in send_transer_exit_positive_response (s\<lparr>flash_context_initialized := False\<rparr>))"

section \<open>The thread\<close>

datatype can_state = CAN_STATE_STOPPED | CAN_STATE_other nat

text \<open>What the CAN controller answers during the initialisation.\<close>

record can_env =
  can_ready :: bool
  can_get_state :: "c_int \<times> can_state"
  can_set_mode_ret :: c_int
  can_start_ret :: c_int

definition init_can :: "can_env \<Rightarrow> c_int" where
  "init_can env =
     (if \<not> can_ready env then rc0
      else if fst (can_get_state env) \<noteq> rc0 then fst (can_get_state env)
      else if snd (can_get_state env) \<noteq> CAN_STATE_STOPPED then rc0
      else if can_set_mode_ret env \<noteq> rc0 then can_set_mode_ret env
      else can_start_ret env)"

text \<open>The result says whether the loop goes on; the thread returns on a routine that is not started.\<close>

definition dispatch :: "'f legacy_ops \<Rightarrow> nat \<Rightarrow> 'f legacy \<Rightarrow> (bool, 'f legacy) outcome" where
  "dispatch ops received_len s =
     (let sid = rx_buffer s ! 0 in
      if sid = UDS_SID_DIAGNOSTIC_SESSION_CONTROL then
        if received_len \<noteq> 2 then Returns True (send_negative_response sid NRC_INCORRECT_MESSAGE_LENGTH s)
        else
          let session_type = rx_buffer s ! 1 in
          if session_type = 1 \<or> session_type = 2 \<or> session_type = 3
          then Returns True (send_session_control_response session_type 4000 10000 (change_session session_type s))
          else Returns True (send_negative_response sid NRC_SUBFUNCTION_NOT_SUPPORTED s)
      else if sid = UDS_SID_ECU_RESET then obind (handle_ecu_reset received_len s) (\<lambda>_ s. Returns True s)
      else if sid = UDS_SID_ROUTINE_CONTROL then
        if received_len < 3 then Returns True (send_negative_response sid NRC_INCORRECT_MESSAGE_LENGTH s)
        else if rx_buffer s ! 1 \<noteq> 0x01 then Returns False (send_negative_response sid NRC_SUBFUNCTION_NOT_SUPPORTED s)
        else
          let routine_id = u16_of_bytes (rx_buffer s ! 3) (rx_buffer s ! 2) in
          if routine_id = 1337 then Returns True (handle_erase_routine ops s)
          else if routine_id = 1338 then Returns True (handle_confirm_routine ops s)
          else Returns True (send_negative_response sid NRC_SUBFUNCTION_NOT_SUPPORTED s)
      else if sid = UDS_SID_REQUEST_DOWNLOAD then
        if received_len \<noteq> 11 then Returns True (send_negative_response sid NRC_INCORRECT_MESSAGE_LENGTH s)
        else Returns True (send_request_download_response s)
      else if sid = UDS_SID_TRANSFER_DATA then Returns True (handle_transfer_data ops received_len s)
      else if sid = UDS_SID_REQUEST_TRANSFER_EXIT then Returns True (handle_transfer_exit ops s)
      else Returns True (send_negative_response sid NRC_SERVICE_NOT_SUPPORTED s))"

text \<open>
  One turn of the loop: \<open>isotp_recv\<close> puts at most 511 bytes at the start of the buffer and leaves the rest as it was; \<open>None\<close> is an
  error or a timeout.
\<close>

definition receive :: "u8 list \<Rightarrow> u8 list \<Rightarrow> u8 list" where
  "receive msg buf = take 511 msg @ drop (length (take 511 msg)) buf"

definition loop_turn :: "'f legacy_ops \<Rightarrow> u8 list option \<Rightarrow> 'f legacy \<Rightarrow> (bool, 'f legacy) outcome" where
  "loop_turn ops msg s =
     (case msg of
        None \<Rightarrow> Returns True s
      | Some m \<Rightarrow> dispatch ops (length (take 511 m)) (s\<lparr>rx_buffer := receive m (rx_buffer s)\<rparr>))"

fun thread_loop :: "'f legacy_ops \<Rightarrow> u8 list option list \<Rightarrow> 'f legacy \<Rightarrow> (bool, 'f legacy) outcome" where
  "thread_loop ops [] s = Returns True s"
| "thread_loop ops (m # ms) s = obind (loop_turn ops m s) (\<lambda>go s. if go then thread_loop ops ms s else Returns False s)"

text \<open>The thread, for the messages it receives; \<open>bind_ok\<close> says whether the ISO-TP receiver could be bound.\<close>

definition thread_entry :: "'f legacy_ops \<Rightarrow> can_env \<Rightarrow> bool \<Rightarrow> u8 list option list \<Rightarrow> 'f legacy \<Rightarrow> (bool, 'f legacy) outcome" where
  "thread_entry ops env bind_ok msgs s =
     (if init_can env \<noteq> rc0 then Returns False s
      else if \<not> bind_ok then Returns False s
      else thread_loop ops msgs s)"

section \<open>Running the loop\<close>

lemma thread_loop_append:
  "thread_loop ops (xs @ ys) s = obind (thread_loop ops xs s) (\<lambda>go s. if go then thread_loop ops ys s else Returns False s)"
proof (induction xs arbitrary: s)
  case (Cons m ms)
  show ?case by (cases "loop_turn ops m s") (auto simp: Cons.IH)
qed simp

text \<open>A message of at most 511 bytes stands at the start of the buffer.\<close>

lemma receive_short:
  assumes "length msg \<le> 511" and "length buf = 512"
  shows "length (receive msg buf) = 512" and "take (length msg) (receive msg buf) = msg"
    and "i < length msg \<Longrightarrow> receive msg buf ! i = msg ! i"
  using assms by (simp_all add: receive_def nth_append)

text \<open>The transfer of a block.\<close>

definition transfer_msg :: "u8 \<Rightarrow> u8 list \<Rightarrow> u8 list" where
  "transfer_msg n chunk = UDS_SID_TRANSFER_DATA # n # chunk"

lemma transfer_turn:
  assumes "length chunk \<le> 509" and "length (rx_buffer s) = 512"
  shows "loop_turn ops (Some (transfer_msg n chunk)) s =
    Returns True (handle_transfer_data ops (length chunk + 2) (s\<lparr>rx_buffer := receive (transfer_msg n chunk) (rx_buffer s)\<rparr>))"
  using receive_short(3) [of "transfer_msg n chunk" "rx_buffer s" 0] assms
  by (simp add: loop_turn_def dispatch_def transfer_msg_def)

lemma transfer_repeated:
  assumes "length chunk \<le> 509" and "length (rx_buffer s) = 512" and "block_id s = n"
  shows "loop_turn ops (Some (transfer_msg n chunk)) s =
    Returns True (send_transfer_data_response n (s\<lparr>rx_buffer := receive (transfer_msg n chunk) (rx_buffer s)\<rparr>))"
proof -
  have "receive (transfer_msg n chunk) (rx_buffer s) ! Suc 0 = n"
    using receive_short(3) [of "transfer_msg n chunk" "rx_buffer s" 1] assms by (simp add: transfer_msg_def)
  then show ?thesis using assms by (simp add: transfer_turn handle_transfer_data_def Let_def)
qed

lemma transfer_next:
  assumes "length chunk \<le> 509" and "length (rx_buffer s) = 512" and "n = block_id s + 1" and "flash_context_initialized s"
    and "flash_img_buffered_write ops chunk False (flash_context s) = (rc0, f)"
  shows "loop_turn ops (Some (transfer_msg n chunk)) s =
    Returns True (send_transfer_data_response n
      (s\<lparr>rx_buffer := receive (transfer_msg n chunk) (rx_buffer s), block_id := n, flash_context := f\<rparr>))"
proof -
  have len: "length (transfer_msg n chunk) \<le> 511" using assms(1) by (simp add: transfer_msg_def)
  have one: "receive (transfer_msg n chunk) (rx_buffer s) ! Suc 0 = n"
    using receive_short(3) [OF len assms(2), of 1] by (simp add: transfer_msg_def)
  have "take (length chunk) (drop 2 (receive (transfer_msg n chunk) (rx_buffer s))) = drop 2 (take (length chunk + 2) (receive (transfer_msg n chunk) (rx_buffer s)))"
    by (simp add: take_drop)
  also have "\<dots> = chunk" using receive_short(2) [OF len assms(2)] by (simp add: transfer_msg_def)
  finally have data: "take (length chunk) (drop 2 (receive (transfer_msg n chunk) (rx_buffer s))) = chunk" .
  have "n \<noteq> block_id s" using assms(3) by simp
  then show ?thesis
    unfolding transfer_turn [OF assms(1,2)] handle_transfer_data_def Let_def
    using assms(4,5) by (simp add: one data flip: assms(3))
qed

lemma response_fields [simp]:
  "rx_buffer (isotp_send m s) = rx_buffer s" "block_id (isotp_send m s) = block_id s"
  "flash_context_initialized (isotp_send m s) = flash_context_initialized s" "flash_context (isotp_send m s) = flash_context s"
  "sent (isotp_send m s) = sent s @ [m]"
  by (simp_all add: isotp_send_def)

text \<open>Retransmissions of the last block are acknowledged and change nothing else.\<close>

lemma transfer_retransmitted:
  assumes "length chunk \<le> 509" and "length (rx_buffer s) = 512" and "block_id s = n"
  shows "\<exists>s'. thread_loop ops (replicate k (Some (transfer_msg n chunk))) s = Returns True s' \<and> length (rx_buffer s') = 512 \<and>
    block_id s' = n \<and> flash_context_initialized s' = flash_context_initialized s \<and> flash_context s' = flash_context s \<and>
    sent s' = sent s @ replicate k [UDS_SID_TRANSFER_DATA + 0x40, n]"
  using assms(2,3)
proof (induction k arbitrary: s)
  case (Suc k)
  let ?s = "send_transfer_data_response n (s\<lparr>rx_buffer := receive (transfer_msg n chunk) (rx_buffer s)\<rparr>)"
  have "length (rx_buffer ?s) = 512" "block_id ?s = n" "sent ?s = sent s @ [[UDS_SID_TRANSFER_DATA + 0x40, n]]"
    using Suc.prems assms(1) receive_short(1) by (simp_all add: send_transfer_data_response_def transfer_msg_def)
  from Suc.IH [OF this(1,2)] this(3) show ?case
    by (auto simp: transfer_repeated [OF assms(1) Suc.prems] send_transfer_data_response_def)
qed simp

text \<open>The messages of a download: each block with the number of its retransmissions.\<close>

fun transfer_messages :: "nat \<Rightarrow> (u8 list \<times> nat) list \<Rightarrow> u8 list option list" where
  "transfer_messages i [] = []"
| "transfer_messages i ((chunk, k) # blocks) = replicate (Suc k) (Some (transfer_msg (of_nat i) chunk)) @ transfer_messages (Suc i) blocks"

fun transfer_responses :: "nat \<Rightarrow> (u8 list \<times> nat) list \<Rightarrow> u8 list list" where
  "transfer_responses i [] = []"
| "transfer_responses i ((chunk, k) # blocks) = replicate (Suc k) [UDS_SID_TRANSFER_DATA + 0x40, of_nat i] @ transfer_responses (Suc i) blocks"

definition write_chunk :: "'f legacy_ops \<Rightarrow> u8 list \<Rightarrow> 'f \<Rightarrow> 'f" where
  "write_chunk ops chunk f = snd (flash_img_buffered_write ops chunk False f)"

lemma transfer_blocks:
  assumes "\<And>chunk flush f. fst (flash_img_buffered_write ops chunk flush f) = rc0"
  shows "length (rx_buffer s) = 512 \<Longrightarrow> flash_context_initialized s \<Longrightarrow> block_id s + 1 = of_nat i \<Longrightarrow>
    (\<forall>(chunk, k) \<in> set blocks. length chunk \<le> 509) \<Longrightarrow>
    \<exists>s'. thread_loop ops (transfer_messages i blocks) s = Returns True s' \<and> length (rx_buffer s') = 512 \<and>
      flash_context_initialized s' \<and> flash_context s' = fold (write_chunk ops) (map fst blocks) (flash_context s) \<and>
      sent s' = sent s @ transfer_responses i blocks"
proof (induction blocks arbitrary: i s)
  case (Cons block blocks)
  obtain chunk k where block: "block = (chunk, k)" by (cases block)
  have chunk: "length chunk \<le> 509" using Cons.prems(4) by (simp add: block)
  let ?n = "of_nat i :: u8"
  let ?s = "send_transfer_data_response ?n (s\<lparr>rx_buffer := receive (transfer_msg ?n chunk) (rx_buffer s), block_id := ?n,
    flash_context := write_chunk ops chunk (flash_context s)\<rparr>)"
  have "flash_img_buffered_write ops chunk False (flash_context s) = (rc0, write_chunk ops chunk (flash_context s))"
    using assms [of chunk False "flash_context s"] by (simp add: write_chunk_def prod_eq_iff)
  then have first: "loop_turn ops (Some (transfer_msg ?n chunk)) s = Returns True ?s"
    using transfer_next [OF chunk Cons.prems(1)] Cons.prems(2,3) by simp
  have "length (rx_buffer ?s) = 512"
    using chunk Cons.prems(1) receive_short(1) by (simp add: send_transfer_data_response_def transfer_msg_def)
  from transfer_retransmitted [OF chunk this, of ?n ops k] obtain s1
    where "thread_loop ops (replicate k (Some (transfer_msg ?n chunk))) ?s = Returns True s1" and s1: "length (rx_buffer s1) = 512"
      "block_id s1 = ?n" "flash_context_initialized s1" "flash_context s1 = write_chunk ops chunk (flash_context s)"
      "sent s1 = sent s @ replicate (Suc k) [UDS_SID_TRANSFER_DATA + 0x40, ?n]"
    using Cons.prems(2) by (auto simp: send_transfer_data_response_def)
  then have "thread_loop ops (replicate (Suc k) (Some (transfer_msg ?n chunk))) s = Returns True s1" using first by simp
  moreover have "block_id s1 + 1 = of_nat (Suc i)" using s1(2) by (simp add: add.commute)
  ultimately show ?case
    using Cons.IH [OF s1(1,3)] Cons.prems(4) s1(4,5) by (auto simp: block thread_loop_append simp del: replicate_Suc)
qed simp

lemma erase_turn:
  assumes "flash_img_init ops (flash_context s) = (rc0, f)" and "length (rx_buffer s) = 512"
  shows "\<exists>s'. loop_turn ops (Some [UDS_SID_ROUTINE_CONTROL, 0x01, 0x05, 0x39]) s = Returns True s' \<and> length (rx_buffer s') = 512 \<and>
    flash_context_initialized s' \<and> block_id s' = 0xFF \<and> flash_context s' = f \<and>
    sent s' = sent s @ [[0x7F, 0x31, 0x78], [0x71, 0x01, 0x05, 0x39, 0x00]]"
proof -
  let ?m = "[UDS_SID_ROUTINE_CONTROL, 0x01, 0x05, 0x39]"
  let ?r = "receive ?m (rx_buffer s)"
  have bytes: "?r ! 0 = 0x31" "?r ! Suc 0 = 0x01" "?r ! 2 = 0x05" "?r ! 3 = 0x39"
    using receive_short(3) [of ?m "rx_buffer s"] assms(2) by (simp_all add: numeral_2_eq_2 numeral_3_eq_3)
  have "u16_of_bytes 0x39 0x05 = 1337" by (simp add: u16_of_bytes_def)
  then have "loop_turn ops (Some ?m) s = Returns True (handle_erase_routine ops (s\<lparr>rx_buffer := ?r\<rparr>))"
    by (simp add: loop_turn_def dispatch_def Let_def bytes)
  moreover have "hi_byte 1337 = 0x05" "lo_byte 1337 = 0x39" by (simp_all add: hi_byte_def lo_byte_def)
  moreover have "length ?r = 512" using receive_short(1) assms(2) by simp
  ultimately show ?thesis
    using assms(1) by (simp add: handle_erase_routine_def send_negative_response_def send_routine_control_result_def isotp_send_def)
qed

lemma exit_turn:
  assumes "flash_context_initialized s" and "flash_img_buffered_write ops [] True (flash_context s) = (rc0, f)" and "length (rx_buffer s) = 512"
  shows "\<exists>s'. loop_turn ops (Some [UDS_SID_REQUEST_TRANSFER_EXIT]) s = Returns True s' \<and> \<not> flash_context_initialized s' \<and>
    flash_context s' = f \<and> sent s' = sent s @ [[0x77]]"
  using assms
  by (auto simp: loop_turn_def dispatch_def receive_def Let_def handle_transfer_exit_def send_transer_exit_positive_response_def)

section \<open>Properties\<close>

text \<open>
  (C27) A firmware download over the first UDS server writes the image once: after the erase routine, the blocks, each of them
  possibly sent several times in a row, and the exit request, the flash writer has received every block exactly once and in
  order, over the wrap of the block counter too, and then the request to flush; and every message was answered. This is for a flash writer that
  accepts every write, and for blocks that fit into the buffer of the server: at most 509 bytes.
\<close>

theorem legacy_download_written_once:
  assumes "\<And>chunk flush f. fst (flash_img_buffered_write ops chunk flush f) = rc0" and "flash_img_init ops f = (rc0, f1)"
    and "\<forall>(chunk, k) \<in> set blocks. length chunk \<le> 509" and "init_can env = rc0"
  shows "\<exists>s. thread_entry ops env True
      (Some [0x31, 0x01, 0x05, 0x39] # transfer_messages 0 blocks @ [Some [0x37]]) (legacy_boot f) = Returns True s \<and>
    flash_context s = snd (flash_img_buffered_write ops [] True (fold (write_chunk ops) (map fst blocks) f1)) \<and>
    sent s = [[0x7F, 0x31, 0x78], [0x71, 0x01, 0x05, 0x39, 0x00]] @ transfer_responses 0 blocks @ [[0x77]]"
proof -
  obtain s1 where 1: "loop_turn ops (Some [0x31, 0x01, 0x05, 0x39]) (legacy_boot f) = Returns True s1" "length (rx_buffer s1) = 512"
    "flash_context_initialized s1" "block_id s1 = 0xFF" "flash_context s1 = f1"
    "sent s1 = [[0x7F, 0x31, 0x78], [0x71, 0x01, 0x05, 0x39, 0x00]]"
    using erase_turn [of ops "legacy_boot f" f1] assms(2) by (auto simp: legacy_boot_def)
  have "block_id s1 + 1 = of_nat 0" using 1(4) by simp
  from transfer_blocks [OF assms(1) 1(2,3) this assms(3)] obtain s2 where
    2: "thread_loop ops (transfer_messages 0 blocks) s1 = Returns True s2" "length (rx_buffer s2) = 512" "flash_context_initialized s2"
    "flash_context s2 = fold (write_chunk ops) (map fst blocks) f1" "sent s2 = sent s1 @ transfer_responses 0 blocks"
    using 1(5) by auto
  obtain g where g: "flash_img_buffered_write ops [] True (flash_context s2) = (rc0, g)"
    using assms(1) [of "[]" True "flash_context s2"] by (cases "flash_img_buffered_write ops [] True (flash_context s2)") simp
  from exit_turn [OF 2(3) g 2(2)] show ?thesis
    using 1(1,6) 2 g assms(4) by (auto simp: thread_entry_def thread_loop_append)
qed

definition recording_ops :: "u8 list legacy_ops" where
  "recording_ops = \<lparr>flash_img_init = \<lambda>f. (rc0, []), flash_img_buffered_write = \<lambda>d fl f. (rc0, f @ d),
     boot_request_upgrade = \<lambda>f. (rc0, f), errno_byte = \<lambda>_. 0xFF\<rparr>"

definition running_can :: can_env where
  "running_can = \<lparr>can_ready = True, can_get_state = (rc0, CAN_STATE_other 0), can_set_mode_ret = rc0, can_start_ret = rc0\<rparr>"

theorem legacy_download_written_once_witness:
  "\<exists>s. thread_entry recording_ops running_can True
      (Some [0x31, 0x01, 0x05, 0x39] # transfer_messages 0 [([1, 2], 0), ([3], 2)] @ [Some [0x37]]) (legacy_boot [9]) = Returns True s \<and>
    flash_context s = [1, 2, 3]"
proof -
  have "fst (flash_img_buffered_write recording_ops chunk fl f) = rc0" for chunk fl f by (simp add: recording_ops_def)
  moreover have "flash_img_init recording_ops [9] = (rc0, [])" by (simp add: recording_ops_def)
  moreover have "init_can running_can = rc0" by (simp add: running_can_def init_can_def)
  ultimately show ?thesis
    using legacy_download_written_once [of recording_ops "[9]" "[]" "[([1, 2], 0), ([3], 2)]" running_can]
    by (simp add: write_chunk_def) (auto simp: recording_ops_def)
qed

text \<open>
  A block that arrives out of order makes the server lose the next one: it refuses the block, but has advanced its
  counter, so that the block it was waiting for is then taken for a retransmission and acknowledged without being
  written.
\<close>

theorem legacy_mismatch_loses_block:
  assumes "length (rx_buffer s) = 512" and "x \<noteq> block_id s" and "x \<noteq> block_id s + 1" and "length bad \<le> 509" and "length chunk \<le> 509"
  shows "\<exists>s'. thread_loop ops [Some (transfer_msg x bad), Some (transfer_msg (block_id s + 1) chunk)] s = Returns True s' \<and>
    flash_context s' = flash_context s \<and> sent s' = sent s @ [[0x7F, 0x36, 0x13], [0x76, block_id s + 1]]"
proof -
  have x: "receive (transfer_msg x bad) (rx_buffer s) ! Suc 0 = x"
    using receive_short(3) [of "transfer_msg x bad" "rx_buffer s" 1] assms by (simp add: transfer_msg_def)
  let ?s = "send_negative_response 0x36 0x13 (s\<lparr>rx_buffer := receive (transfer_msg x bad) (rx_buffer s), block_id := block_id s + 1\<rparr>)"
  have "loop_turn ops (Some (transfer_msg x bad)) s = Returns True ?s"
    using assms(2,3) by (simp add: transfer_turn [OF assms(4,1)] handle_transfer_data_def Let_def x)
  moreover have "length (rx_buffer ?s) = 512"
    using assms(1,4) receive_short(1) by (simp add: send_negative_response_def transfer_msg_def)
  moreover have "block_id ?s = block_id s + 1" by (simp add: send_negative_response_def)
  ultimately show ?thesis
    using transfer_repeated [OF assms(5), of ?s "block_id s + 1" ops]
    by (simp add: send_negative_response_def send_transfer_data_response_def)
qed

theorem legacy_mismatch_loses_block_witness:
  "\<exists>s'. thread_loop recording_ops [Some (transfer_msg 7 [1]), Some (transfer_msg 0x10 [2])] (legacy_boot []) = Returns True s' \<and>
    flash_context s' = [] \<and> sent s' = [[0x7F, 0x36, 0x13], [0x76, 0x10]]"
  using legacy_mismatch_loses_block [of "legacy_boot []" 7 "[1]" "[2]" recording_ops] by (simp add: legacy_boot_def)

text \<open>A failing write is answered twice, with a negative and with a positive response.\<close>

theorem legacy_write_failure_answered_twice:
  assumes "length (rx_buffer s) = 512" and "flash_context_initialized s" and "length chunk \<le> 509"
    and "flash_img_buffered_write ops chunk False (flash_context s) = (Inl e, f)"
  shows "\<exists>s'. loop_turn ops (Some (transfer_msg (block_id s + 1) chunk)) s = Returns True s' \<and>
    sent s' = sent s @ [[0x7F, 0x36, 0x26], [0x76, block_id s + 1]]"
proof -
  let ?r = "receive (transfer_msg (block_id s + 1) chunk) (rx_buffer s)"
  have len: "length (transfer_msg (block_id s + 1) chunk) \<le> 511" using assms(3) by (simp add: transfer_msg_def)
  have "?r ! Suc 0 = block_id s + 1" using receive_short(3) [OF len assms(1), of 1] by (simp add: transfer_msg_def)
  moreover have "take (length chunk) (drop 2 ?r) = chunk"
    using receive_short(2) [OF len assms(1)] by (simp add: take_drop transfer_msg_def)
  ultimately show ?thesis
    using assms(2,4) unfolding transfer_turn [OF assms(3,1)] handle_transfer_data_def Let_def
    by (simp add: send_negative_response_def send_transfer_data_response_def)
qed

text \<open>A request to stop a routine, or to ask for its results, ends the thread: no further request is answered.\<close>

theorem legacy_stop_routine_ends_server:
  assumes "length (rx_buffer s) = 512" and "sub \<noteq> 0x01"
  shows "\<exists>s'. thread_loop ops (Some [0x31, sub, hi, lo] # requests) s = Returns False s' \<and> sent s' = sent s @ [[0x7F, 0x31, 0x12]]"
  using assms by (auto simp: loop_turn_def dispatch_def receive_def Let_def send_negative_response_def)

end
