(* ===== verification/Spec2Isabelle.thy ===== *)
theory Spec2Isabelle
  imports Usb Sample_Types Bus_Ring Gpio_Expander Hw_Command Hw_Gpio Lin_Led Lin_Scheduler Can_Router Can_Log Power_Io_Shield Hv_Shield Uds_Legacy
begin

text \<open>
  Verification of the software of the ARDEP board, an automotive development board that runs Zephyr.

  \<^bold>\<open>The program.\<close> The board answers diagnostic requests over CAN (UDS, ISO 14229), can be given new firmware
  through them, and comes with drivers for its buses and shields.
  \<^item> The UDS library (\<^verbatim>\<open>src/lib/uds\<close>, \<^verbatim>\<open>src/include/ardep/uds.h\<close>, \<^verbatim>\<open>uds_macro.h\<close>) turns the events of the iso14229
    package into calls of registered handlers. Registrations are placed by macros in a linker section or made at run
    time; each service file gives a table entry that selects the check and the action of a registration, and some
    services have default handlers with a state of their own.
  \<^item> \<^verbatim>\<open>src/lib/iso14229\<close> moves CAN frames from the receive interrupt to the package and runs it in a thread.
  \<^item> The firmware loader (\<^verbatim>\<open>src/firmware_loader\<close>) is the application that erases and writes the firmware slot.
  \<^item> The drivers: LIN with callbacks and a scheduler (\<^verbatim>\<open>src/drivers/lin\<close>), a CAN controller over LIN
    (\<^verbatim>\<open>src/drivers/can/lin2can\<close>), the shields (\<^verbatim>\<open>src/drivers/power_io_shield\<close>, \<^verbatim>\<open>src/drivers/hv_shield\<close>), pins that encode a
    number (\<^verbatim>\<open>src/drivers/binary_encoded_gpio\<close>).
  \<^item> \<^verbatim>\<open>src/lib/can_router\<close>, \<^verbatim>\<open>src/lib/can_log\<close>, the older server \<^verbatim>\<open>src/lib/uds_legacy\<close> and the USB devices
    (\<^verbatim>\<open>src/lib/ardep_usb\<close>, \<^verbatim>\<open>src/firmware_loader/src/usb_dfu.c\<close>).
  \<^item> Applications that put these parts together (\<^verbatim>\<open>src/samples\<close>): a UDS server with all services, boards that form a chain on a CAN
    bus, a GPIO expander, two boards that test each other, and LIN nodes.

  \<^bold>\<open>How C is modelled.\<close> \<open>Prelude\<close> has the machine integers (words of their width), the return codes (a negative errno is
  \<open>Inl\<close>, any other value \<open>Inr\<close>) and the outcome of running code in a state: it returns, reboots the board, does something that C
  leaves undefined (a null call, an index outside of an array, a use of freed memory), or runs out of fuel. Static
  variables, heap cells and devices are records of a state that is passed along. A function pointer is a constructor of a
  datatype; the functions of an application, the iso14229 package and the drivers of Zephyr are arguments. Logging and
  sleeping are left out, except where a result depends on them.

  \<^bold>\<open>The UDS library.\<close>
  \<^item> \<open>Uds_Types\<close>: the data of \<^verbatim>\<open>uds.h\<close>. \<open>Uds_Core\<close>: \<^verbatim>\<open>uds.c\<close>, with the dispatch loops over static and dynamic registrations,
    registration with the search for a free id, and unregistration on a heap. The contract \<open>registry\<close> of \<open>Registry\<close> (what a lookup
    gives after an addition and a removal) is interpreted on the dynamic registrations; the locales \<open>stable_handlers\<close>
    and \<open>invariant_handlers\<close> say what the dispatcher relies on in the handlers, and give that an event visits the
    registrations in order and keeps invariants.
  \<^item> \<open>Uds_Services\<close>: the table entries of all services, the filters by identifier, ECU reset and the switch to the loader.
    \<open>Uds_Macro\<close>: the macros as the registrations they define, the unrolled ones with their bodies as they are written.
  \<^item> \<open>Uds_Memory\<close>, \<open>Uds_Link\<close>, \<open>Uds_Transfer\<close>, \<open>Uds_Dddi\<close>: the services with default handlers, from
    \<^verbatim>\<open>memory_by_address.c\<close>, \<^verbatim>\<open>link_control.c\<close> and \<^verbatim>\<open>util.c\<close>, \<^verbatim>\<open>upload_download.c\<close> with \<^verbatim>\<open>upload_download_file_transfer.c\<close>, and
    \<^verbatim>\<open>dynamically_define_data_ids.c\<close>. \<open>Uds_Transfer_Correct\<close> has what an upload and a download achieve.
  \<^item> \<open>Uds_Server\<close>: all of them behind one event callback, \<open>server_event\<close>, which gives the function pointers their
    meaning. Reading a dynamic identifier calls the event callback again; the fuel bounds the depth of these calls and
    the length of the walks over lists. The theorems say which fuel is enough, or are about every fuel.
    \<open>Server_Invariant\<close> has the locale \<open>application\<close>: an invariant of the state of an application that its
    handlers keep is kept by every event.
  \<^item> \<open>Msgq\<close>: the message queues of the kernel, as arguments with their contract. \<open>Iso14229\<close>: the transport glue, as functions and as a step relation for the interrupt, the thread and its clients.
    \<open>Default_Instance\<close>: \<^verbatim>\<open>uds_init\<close>, the default instance and the gearshift addresses. \<open>Firmware_Loader\<close>: the
    loader as an application of the server, where \<open>application\<close> is interpreted on its handlers. \<open>Usb\<close>: the USB devices of
    application and loader, the switch to the loader over USB, and the hooks of \<^verbatim>\<open>modules/iso14229/drv.c\<close>.

  \<^bold>\<open>The drivers.\<close>
  \<^item> \<open>Abstract_Lin\<close>: the table of frame callbacks, a second interpretation of \<open>registry\<close>, and its dispatch. \<open>Lin_Scheduler\<close>: the
    scheduler thread and the calls of a client as a step relation, with a specification of the frames that are sent.
    \<open>Lin2can\<close>: the CAN controller over LIN, with its filters as a third \<open>registry\<close>, and the way of a frame between two nodes.
  \<^item> \<open>Power_Io_Shield\<close>: the driver on an I2C bus; the locale \<open>register_bus\<close> is what it relies on in the bus, interpreted on
    the emulator of the expander. \<open>Hv_Shield\<close>: shift registers, GPIO port and DAC. \<open>Gpio\<close> has the types they share.
  \<^item> \<open>Can_Router\<close>, \<open>Can_Log\<close>, \<open>Uds_Legacy\<close>.

  \<^bold>\<open>The applications.\<close>
  \<^item> \<^verbatim>\<open>src/samples/uds\<close> as an application of the server: \<open>Sample_State\<close> has its variables, \<open>Sample_Data\<close> the data identifiers and the
    LED with its thread, \<open>Sample_Security\<close> security access and authentication, \<open>Sample_Diag\<close> trouble codes, routines and memory,
    \<open>Uds_Sample\<close> the registrations and the step relation of requests and background work. \<open>Sample_Frame\<close> says what a
    request leaves alone. On it rest \<open>Sample_Correct\<close> and \<open>Sample_Access\<close> (what protects the data), \<open>Sample_Device\<close> (LED and
    memory), \<open>Sample_Work\<close> (the work items, with the locale \<open>sample_invariant\<close>) and \<open>Sample_Types\<close> (every request of the right
    shape is answered).
  \<^item> \<open>Uds_Bus\<close> is a board with \<^verbatim>\<open>src/samples/uds_bus_sample\<close>; \<open>Bus_Ring\<close> is a chain of them, as a step relation of deliveries and
    work items with an invariant that follows the one frame that is on its way.
  \<^item> \<open>Gpio_Expander\<close> is \<^verbatim>\<open>src/samples/gpio_expander\<close>, which refines a machine over functions from pins to levels.
  \<^item> \<open>Hw_Command\<close> and \<open>Hw_Gpio\<close> are the command threads and the timed GPIO test of \<^verbatim>\<open>src/samples/hardware_test\<close> and
    \<^verbatim>\<open>hardware_tester\<close>.
  \<^item> \<open>Lin_Led\<close> is \<^verbatim>\<open>src/samples/lin\<close>: commander and responder on the abstract LIN driver, also under the scheduler.

  \<^bold>\<open>What is shown.\<close> Downloads and uploads move exactly the requested bytes, writes stay inside flash and memory, every
  request is answered, registrations keep unique ids and persist, allocation failures are undone (with one exception), frames
  keep their order, threads start and stop once, the loader finishes an erasure and survives the switch; LIN frames
  reach their callback, the scheduler is a round robin that a client can always stop, CAN frames cross the LIN bus; the pins and
  interrupts of the shields are translated consistently; log messages are handed to the CAN controller in full. In the applications, protected data is
  read only after a proof or a key, the chain of boards collects all signatures in order and always ends, the expander
  drives and reports the pins, commands are executed once and in order, well wired boards pass their test, an LED
  follows its commander, and a USB device is enabled exactly if its setup succeeds. Theorems of kind error show how failures are
  handled, and where the code does not do what it means to.

  \<^bold>\<open>What is supposed.\<close> Code that is not in the repository is an argument, and a theorem that relies on it has the documented
  behaviour as a hypothesis, with a witness for an instance that keeps it.
  \<^item> Kernel: \<open>msgq_contract\<close> of \<open>Msgq\<close> (message queues are first in, first out and refuse a message when full) and \<open>sleeps\<close> of
    \<open>Hw_Gpio\<close> (a sleep lasts at least as long as asked for, and a bounded time longer).
  \<^item> Flash: \<open>flash_programs\<close> and \<open>flash_reads\<close> of \<open>Uds_Transfer_Correct\<close>: an aligned write to erased bytes inside of
    the flash succeeds and stores them, and a read gives what is stored. Erasing is left to the client, as the source says. Nothing
    is supposed of other writes.
  \<^item> Buses: \<open>lin_driver\<close> of \<open>Lin_Led\<close> (a transfer is refused, lost or carried out); \<open>ring_ops\<close> of \<open>Bus_Ring\<close>, a CAN bus that accepts and at
    some time delivers every frame; \<open>pins_work\<close> of \<open>Gpio_Expander\<close> (drivers that do not fail, input lines that keep their level);
    \<open>log_output_contract\<close> of \<open>Can_Log\<close> (a text is offered again from the first byte that was not processed).
  \<^item> The iso14229 package: a poll of the server returns, where a theorem says that the thread ends; reading a file needs room
    in its receive buffer for the whole response.

  \<^bold>\<open>Bounds.\<close> Loops over C arrays and Zephyr lists are recursion on what is left and terminate; only the nested calls of
  the server and the walks over the linked list have fuel. The receive queue holds 25 frames as in the source; sizes that are Kconfig
  options or come from the device tree are arguments. Concurrency is a step relation at the granularity of the
  semaphores, queues and atomic variables; the drivers that hold a lock for a whole call are one step per call.

  \<^bold>\<open>Not modelled.\<close> The iso14229 package, Zephyr, the crypto library and MCUboot are not part of the repository. Of the samples,
  the CAN, LIN and UART tests of the hardware test programs and the ones that only call a driver in a loop and log the
  result are left out. So are functions that only return a constant, formatting of log messages, real time apart from the GPIO
  test, and the device tree macros.
\<close>

end
